(* ===== verification/Prelude.thy ===== *)
theory Prelude
  imports Main "HOL-Library.Word"
begin

text \<open>
  Shared vocabulary of the development. Go's \<open>string\<close> and \<open>[]byte\<close> are byte sequences and
  become Isabelle's \<open>string\<close>, a list of 8-bit characters; a nil \<open>error\<close> result becomes
  \<open>None\<close> of an option type, a pair of a value and an error becomes a sum (\<open>Inl\<close> the error).
  The theory holds the models of the Go standard library routines the program uses
  (\<open>strings\<close>, \<open>strconv\<close>, \<open>encoding/hex\<close>, \<open>net.ParseIP\<close> for IPv4,
  \<open>unicode/utf8\<close>), with the lemmas about them that the components share, and the
  \<open>named_theorems\<close> collections.
\<close>

named_theorems go_defs "definitions that the component proofs unfold together"
named_theorems err_simps "rewrite rules for error results"

section \<open>Error results\<close>

text \<open>A function that returns only \<open>error\<close> runs its checks in order and returns the
  first that fails.\<close>

definition guard :: "bool \<Rightarrow> 'e \<Rightarrow> 'e option" where
  "guard bad e = (if bad then Some e else None)"

fun first_error :: "'e option list \<Rightarrow> 'e option" where
  "first_error [] = None"
| "first_error (None # es) = first_error es"
| "first_error (Some e # es) = Some e"

definition bindE :: "'e + 'a \<Rightarrow> ('a \<Rightarrow> 'e + 'b) \<Rightarrow> 'e + 'b" where
  "bindE r f = (case r of Inl e \<Rightarrow> Inl e | Inr x \<Rightarrow> f x)"

lemma guard_None [simp, err_simps]: "guard b e = None \<longleftrightarrow> \<not> b"
  by (simp add: guard_def)

lemma guard_Some [simp, err_simps]: "guard b e = Some e' \<longleftrightarrow> b \<and> e' = e"
  by (auto simp: guard_def)

lemma guard_simps [simp]: "guard True e = Some e" "guard False e = None"
  by (simp_all add: guard_def)

lemma first_error_Cons_None [err_simps]:
  "first_error (x # es) = None \<longleftrightarrow> x = None \<and> first_error es = None"
  by (cases x) auto

lemma first_error_None_iff: "first_error es = None \<longleftrightarrow> (\<forall>x \<in> set es. x = None)"
  by (induction es) (auto simp: first_error_Cons_None)

lemma first_error_map_None [err_simps]:
  "first_error (List.map f xs) = None \<longleftrightarrow> (\<forall>x \<in> set xs. f x = None)"
  by (simp add: first_error_None_iff)

lemma if_None_iff [err_simps]:
  "(if b then None else x) = None \<longleftrightarrow> b \<or> x = None"
  by simp

lemma first_error_append [err_simps]:
  "first_error (xs @ ys) = (case first_error xs of None \<Rightarrow> first_error ys | Some e \<Rightarrow> Some e)"
proof (induction xs)
  case (Cons x xs)
  then show ?case by (cases x) auto
qed simp

lemma first_error_in: "first_error es = Some e \<Longrightarrow> Some e \<in> set es"
proof (induction es)
  case (Cons x es)
  then show ?case by (cases x) auto
qed simp

lemma bindE_simps [simp]: "bindE (Inl e) f = Inl e" "bindE (Inr x) f = f x"
  by (simp_all add: bindE_def)

lemma bindE_Inr_iff [err_simps]: "bindE r f = Inr y \<longleftrightarrow> (\<exists>x. r = Inr x \<and> f x = Inr y)"
  by (cases r) auto

lemma bindE_Inl_iff [err_simps]:
  "bindE r f = Inl e \<longleftrightarrow> r = Inl e \<or> (\<exists>x. r = Inr x \<and> f x = Inl e)"
  by (cases r) auto

text \<open>The same with a state: a step returns its result with the new state, on errors too.\<close>

definition bindS :: "('s \<Rightarrow> ('e + 'a) \<times> 's) \<Rightarrow> ('a \<Rightarrow> 's \<Rightarrow> ('e + 'b) \<times> 's) \<Rightarrow> 's \<Rightarrow> ('e + 'b) \<times> 's" where
  "bindS m k s = (case m s of (Inl e, t) \<Rightarrow> (Inl e, t) | (Inr x, t) \<Rightarrow> k x t)"

definition lift_result :: "'e + 'a \<Rightarrow> 's \<Rightarrow> ('e + 'a) \<times> 's" where "lift_result r s = (r, s)"

definition reject :: "'e option \<Rightarrow> 's \<Rightarrow> ('e + unit) \<times> 's" where
  "reject e s = (case e of None \<Rightarrow> (Inr (), s) | Some x \<Rightarrow> (Inl x, s))"

lemma bindS_simps: "m s = (Inl e, t) \<Longrightarrow> bindS m k s = (Inl e, t)" "m s = (Inr x, t) \<Longrightarrow> bindS m k s = k x t"
  by (simp_all add: bindS_def)

lemma bindS_Inr: "bindS m k s = (Inr y, u) \<longleftrightarrow> (\<exists>x t. m s = (Inr x, t) \<and> k x t = (Inr y, u))"
  by (auto simp: bindS_def split: prod.splits sum.splits)

lemma bindS_Inl:
  "bindS m k s = (Inl e, u) \<longleftrightarrow> m s = (Inl e, u) \<or> (\<exists>x t. m s = (Inr x, t) \<and> k x t = (Inl e, u))"
  by (auto simp: bindS_def split: prod.splits sum.splits)

lemma bindS_reject: "bindS (reject None) k s = k () s" and bindS_lift: "bindS (lift_result (Inr x)) m s = m x s"
  by (simp_all add: bindS_def reject_def lift_result_def)

section \<open>Bytes\<close>

abbreviation byte :: "char \<Rightarrow> nat" where
  "byte \<equiv> of_char"

abbreviation newline :: char where
  "newline \<equiv> CHR 0x0A"

definition byte_in :: "nat \<Rightarrow> nat \<Rightarrow> char \<Rightarrow> bool" where
  "byte_in lo hi c \<longleftrightarrow> lo \<le> byte c \<and> byte c \<le> hi"

definition is_digit :: "char \<Rightarrow> bool" where
  "is_digit = byte_in 48 57"

definition is_lower :: "char \<Rightarrow> bool" where
  "is_lower = byte_in 97 122"

definition is_upper :: "char \<Rightarrow> bool" where
  "is_upper = byte_in 65 90"

definition is_alnum :: "char \<Rightarrow> bool" where
  "is_alnum c \<longleftrightarrow> is_digit c \<or> is_lower c \<or> is_upper c"

definition is_lower_hex :: "char \<Rightarrow> bool" where
  "is_lower_hex c \<longleftrightarrow> is_digit c \<or> byte_in 97 102 c"

definition digit_char :: "nat \<Rightarrow> char" where
  "digit_char d = char_of (48 + d)"

lemmas byte_class_defs = byte_in_def is_digit_def is_lower_def is_upper_def is_alnum_def
  is_lower_hex_def

lemma byte_less: "byte c < 256"
  by simp

lemma byte_digit_char [simp]: "d < 10 \<Longrightarrow> byte (digit_char d) = 48 + d"
  by (simp add: digit_char_def of_char_of)

lemma is_digit_digit_char [simp]: "d < 10 \<Longrightarrow> is_digit (digit_char d)"
  by (simp add: byte_class_defs)

lemma digit_char_inj: "d < 10 \<Longrightarrow> e < 10 \<Longrightarrow> digit_char d = digit_char e \<Longrightarrow> d = e"
  by (metis add_left_imp_eq byte_digit_char)

lemma digit_char_byte [simp]: "is_digit c \<Longrightarrow> digit_char (byte c - 48) = c"
  by (simp add: byte_class_defs digit_char_def)


section \<open>The \<open>strings\<close> package\<close>

definition has_prefix :: "string \<Rightarrow> string \<Rightarrow> bool" where
  "has_prefix s p \<longleftrightarrow> take (length p) s = p"

definition has_suffix :: "string \<Rightarrow> string \<Rightarrow> bool" where
  "has_suffix s p \<longleftrightarrow> length p \<le> length s \<and> drop (length s - length p) s = p"

definition trim_prefix :: "string \<Rightarrow> string \<Rightarrow> string" where
  "trim_prefix s p = (if has_prefix s p then drop (length p) s else s)"

definition trim_suffix :: "string \<Rightarrow> string \<Rightarrow> string" where
  "trim_suffix s p = (if has_suffix s p then take (length s - length p) s else s)"

definition contains_byte :: "string \<Rightarrow> char \<Rightarrow> bool" where
  "contains_byte s c \<longleftrightarrow> c \<in> set s"

text \<open>\<open>strings.Cut\<close> at a one-byte separator: the text before and after the first
  occurrence, or \<open>None\<close> when it does not occur.\<close>

fun cut :: "char \<Rightarrow> string \<Rightarrow> (string \<times> string) option" where
  "cut sep [] = None"
| "cut sep (c # s) =
     (if c = sep then Some ([], s)
      else case cut sep s of None \<Rightarrow> None | Some (a, b) \<Rightarrow> Some (c # a, b))"

text \<open>\<open>strings.Split\<close> at a one-byte separator.\<close>

fun split_on :: "char \<Rightarrow> string \<Rightarrow> string list" where
  "split_on sep [] = [[]]"
| "split_on sep (c # s) =
     (if c = sep then [] # split_on sep s
      else case split_on sep s of [] \<Rightarrow> [[c]] | w # ws \<Rightarrow> (c # w) # ws)"

fun join_with :: "string \<Rightarrow> string list \<Rightarrow> string" where
  "join_with sep [] = []"
| "join_with sep [w] = w"
| "join_with sep (w # v # ws) = w @ sep @ join_with sep (v # ws)"

definition to_lower_byte :: "char \<Rightarrow> char" where
  "to_lower_byte c = (if is_upper c then char_of (byte c + 32) else c)"

definition to_lower :: "string \<Rightarrow> string" where
  "to_lower = List.map to_lower_byte"

text \<open>\<open>filepath.IsAbs\<close> on a Unix host.\<close>

definition is_abs_path :: "string \<Rightarrow> bool" where
  "is_abs_path p \<longleftrightarrow> has_prefix p ''/''"

lemma has_prefix_append [simp]: "has_prefix (p @ s) p"
  by (simp add: has_prefix_def)

lemma has_prefix_iff: "has_prefix s p \<longleftrightarrow> (\<exists>t. s = p @ t)"
  by (auto simp: has_prefix_def) (metis append_take_drop_id)

lemma trim_prefix_append [simp]: "trim_prefix (p @ s) p = s"
  by (simp add: trim_prefix_def)

lemma cut_None_iff: "cut sep s = None \<longleftrightarrow> sep \<notin> set s"
  by (induction s) (auto split: option.splits)

lemma cut_Some: "cut sep s = Some (a, b) \<Longrightarrow> s = a @ sep # b \<and> sep \<notin> set a"
  by (induction s arbitrary: a) (auto split: if_splits option.splits)

lemma cut_append: "sep \<notin> set a \<Longrightarrow> cut sep (a @ sep # b) = Some (a, b)"
  by (induction a) auto

lemma append_sep_inj:
  fixes sep :: char
  assumes "sep \<notin> set a" and "sep \<notin> set c"
  shows "a @ sep # b = c @ sep # d \<longleftrightarrow> a = c \<and> b = d"
proof
  assume "a @ sep # b = c @ sep # d"
  then have "cut sep (a @ sep # b) = cut sep (c @ sep # d)" by (rule arg_cong)
  then show "a = c \<and> b = d"
    unfolding cut_append [OF assms(1)] cut_append [OF assms(2)] by simp
qed simp

lemma split_on_not_Nil [simp]: "split_on sep s \<noteq> []"
  by (induction s) (auto split: list.splits)

lemma split_on_no_sep: "w \<in> set (split_on sep s) \<Longrightarrow> sep \<notin> set w"
  by (induction s arbitrary: w) (auto split: if_splits list.splits)

lemma join_Cons: "ws \<noteq> [] \<Longrightarrow> join_with sep (w # ws) = w @ sep @ join_with sep ws"
  by (cases ws) auto

lemma join_split: "join_with [sep] (split_on sep s) = s"
proof (induction s)
  case (Cons c s)
  show ?case
  proof (cases "split_on sep s")
    case Nil
    then show ?thesis by simp
  next
    case (Cons w ws)
    with Cons.IH show ?thesis by (cases ws) auto
  qed
qed simp

lemma split_on_single [simp]: "sep \<notin> set w \<Longrightarrow> split_on sep w = [w]"
  by (induction w) auto

lemma split_on_append: "sep \<notin> set w \<Longrightarrow> split_on sep (w @ sep # s) = w # split_on sep s"
  by (induction w) auto

lemma split_join:
  "ws \<noteq> [] \<Longrightarrow> (\<forall>w \<in> set ws. sep \<notin> set w) \<Longrightarrow> split_on sep (join_with [sep] ws) = ws"
proof (induction ws)
  case (Cons w ws)
  then show ?case by (cases ws) (auto simp: join_Cons split_on_append)
qed simp

section \<open>Decimal numbers (\<open>strconv\<close>)\<close>

fun itoa :: "nat \<Rightarrow> string" where
  "itoa n = (if n < 10 then [digit_char n] else itoa (n div 10) @ [digit_char (n mod 10)])"

declare itoa.simps [simp del]

definition itoa_int :: "int \<Rightarrow> string" where
  "itoa_int i = (if i < 0 then CHR ''-'' # itoa (nat (- i)) else itoa (nat i))"

definition dec_value :: "string \<Rightarrow> nat" where
  "dec_value s = foldl (\<lambda>v c. 10 * v + (byte c - 48)) 0 s"

text \<open>A nonempty run of decimal digits, of any size; the callers apply the bounds of the Go
  integer type they parse into.\<close>

definition parse_dec :: "string \<Rightarrow> nat option" where
  "parse_dec s = (if s \<noteq> [] \<and> list_all is_digit s then Some (dec_value s) else None)"

lemma itoa_digits: "list_all is_digit (itoa n)"
proof (induction n rule: itoa.induct)
  case (1 n)
  then show ?case by (subst itoa.simps) (simp add: list_all_append)
qed

lemma itoa_not_Nil [simp]: "itoa n \<noteq> []"
  by (subst itoa.simps) simp

lemma dec_value_snoc: "dec_value (s @ [c]) = 10 * dec_value s + (byte c - 48)"
  by (simp add: dec_value_def)

lemma dec_value_itoa: "dec_value (itoa n) = n"
proof (induction n rule: itoa.induct)
  case (1 n)
  show ?case
  proof (cases "n < 10")
    case True
    then show ?thesis by (subst itoa.simps) (simp add: dec_value_def)
  next
    case False
    with 1 show ?thesis by (subst itoa.simps) (simp add: dec_value_snoc)
  qed
qed

lemma parse_itoa: "parse_dec (itoa n) = Some n"
  by (simp add: parse_dec_def itoa_digits dec_value_itoa)

lemma itoa_inj: "itoa m = itoa n \<longleftrightarrow> m = n"
  by (metis dec_value_itoa)

lemma itoa_set: "c \<in> set (itoa n) \<Longrightarrow> is_digit c"
  using itoa_digits by (simp add: list_all_iff)

lemma not_digit_punct [simp]:
  "\<not> is_digit CHR '':''" "\<not> is_digit CHR ''.''" "\<not> is_digit CHR ''-''" "\<not> is_digit CHR ''/''"
  "\<not> is_digit CHR '',''" "\<not> is_digit CHR ''=''"
  by (simp_all add: byte_class_defs)

lemma itoa_no_punct [simp]:
  "CHR '':'' \<notin> set (itoa n)" "CHR ''.'' \<notin> set (itoa n)" "CHR ''-'' \<notin> set (itoa n)"
  "CHR '','' \<notin> set (itoa n)"
  using itoa_set not_digit_punct by blast+

lemma itoa_int_inj: "itoa_int i = itoa_int j \<longleftrightarrow> i = j"
proof -
  have "itoa a \<noteq> CHR ''-'' # itoa b" for a b
    using itoa_no_punct(3) [of a] by (metis list.set_intros(1))
  then show ?thesis by (auto simp: itoa_int_def itoa_inj) (metis+)
qed

lemma itoa_int_no_colon [simp]: "CHR '':'' \<notin> set (itoa_int i)"
  by (simp add: itoa_int_def)

section \<open>Hexadecimal (\<open>encoding/hex\<close>)\<close>

type_synonym u8 = "8 word"
type_synonym u16 = "16 word"
type_synonym u64 = "64 word"

definition hex_digit :: "nat \<Rightarrow> char" where
  "hex_digit d = (if d < 10 then char_of (48 + d) else char_of (87 + d))"

definition hex_value :: "char \<Rightarrow> nat option" where
  "hex_value c =
     (if byte_in 48 57 c then Some (byte c - 48)
      else if byte_in 97 102 c then Some (byte c - 87)
      else if byte_in 65 70 c then Some (byte c - 55)
      else None)"

definition hex_byte :: "u8 \<Rightarrow> string" where
  "hex_byte b = [hex_digit (unat b div 16), hex_digit (unat b mod 16)]"

definition hex_encode :: "u8 list \<Rightarrow> string" where
  "hex_encode bs = concat (List.map hex_byte bs)"

text \<open>\<open>hex.DecodeString\<close>; an odd length or a byte that is no digit is an error.\<close>

fun hex_decode :: "string \<Rightarrow> u8 list option" where
  "hex_decode [] = Some []"
| "hex_decode [_] = None"
| "hex_decode (a # b # s) =
     (case (hex_value a, hex_value b) of
        (Some x, Some y) \<Rightarrow> map_option (\<lambda>bs. word_of_nat (16 * x + y) # bs) (hex_decode s)
      | _ \<Rightarrow> None)"

lemma hex_value_digit [simp]: "d < 16 \<Longrightarrow> hex_value (hex_digit d) = Some d"
  by (auto simp: hex_value_def hex_digit_def byte_in_def of_char_of)

lemma is_lower_hex_digit [simp]: "d < 16 \<Longrightarrow> is_lower_hex (hex_digit d)"
  by (auto simp: hex_digit_def byte_class_defs of_char_of)

lemma unat_u8_less [simp]: "unat (b :: u8) < 256"
  by (rule order_less_le_trans [OF unsigned_less]) simp

lemma unat_u8_div [simp]: "unat (b :: u8) div 16 < 16"
  by (rule less_mult_imp_div_less) simp

lemma hex_byte_lower: "list_all is_lower_hex (hex_byte b)"
  by (simp add: hex_byte_def)

lemma hex_encode_Nil [simp]: "hex_encode [] = []"
  by (simp add: hex_encode_def)

lemma hex_encode_Cons [simp]: "hex_encode (b # bs) = hex_byte b @ hex_encode bs"
  by (simp add: hex_encode_def)

lemma hex_encode_append: "hex_encode (as @ bs) = hex_encode as @ hex_encode bs"
  by (simp add: hex_encode_def)

lemma hex_byte_length [simp]: "length (hex_byte b) = 2"
  by (simp add: hex_byte_def)

lemma hex_encode_length [simp]: "length (hex_encode bs) = 2 * length bs"
  by (induction bs) simp_all

lemma hex_encode_lower: "list_all is_lower_hex (hex_encode bs)"
  by (induction bs) (simp_all add: hex_byte_lower list_all_append)

lemma hex_decode_encode: "hex_decode (hex_encode bs) = Some bs"
  by (induction bs) (simp_all add: hex_byte_def)

lemma hex_encode_inj: "hex_encode as = hex_encode bs \<longleftrightarrow> as = bs"
  by (metis hex_decode_encode option.inject)

lemma not_lower_hex_punct [simp]:
  "\<not> is_lower_hex CHR ''-''" "\<not> is_lower_hex CHR '':''" "\<not> is_lower_hex CHR ''/''"
  "\<not> is_lower_hex CHR ''.''"
  by (simp_all add: byte_class_defs)


section \<open>IPv4 literals (\<open>net.ParseIP\<close>)\<close>

text \<open>
  The dotted-decimal parser of \<open>net/netip\<close>, byte by byte: \<open>val\<close> and \<open>dig\<close> are the value
  and the number of digits of the current field, \<open>fields\<close> the finished ones. A field has at
  least one digit, no leading zero and a value of at most 255, and there are exactly four.
\<close>

fun parse_ipv4_fields :: "string \<Rightarrow> nat \<Rightarrow> nat \<Rightarrow> nat list \<Rightarrow> nat list option" where
  "parse_ipv4_fields [] val dig fields =
     (if length fields = 3 \<and> 0 < dig then Some (fields @ [val]) else None)"
| "parse_ipv4_fields (c # s) val dig fields =
     (if is_digit c then
        if dig = 1 \<and> val = 0 then None
        else if 255 < 10 * val + (byte c - 48) then None
        else parse_ipv4_fields s (10 * val + (byte c - 48)) (Suc dig) fields
      else if c = CHR ''.'' then
        if dig = 0 then None
        else if length fields = 3 then None
        else parse_ipv4_fields s 0 0 (fields @ [val])
      else None)"

definition parse_ipv4 :: "string \<Rightarrow> nat list option" where
  "parse_ipv4 s = parse_ipv4_fields s 0 0 []"

text \<open>The program accepts an address when \<open>ParseIP\<close> does, \<open>To4\<close> is not nil and the text
  has no colon; for text without a colon \<open>ParseIP\<close> is the IPv4 parser.\<close>

definition parse_ip4_literal :: "string \<Rightarrow> nat list option" where
  "parse_ip4_literal s = (if contains_byte s CHR '':'' then None else parse_ipv4 s)"

definition ipv4_string :: "nat list \<Rightarrow> string" where
  "ipv4_string fields = join_with ''.'' (List.map itoa fields)"

definition dotted :: "nat list \<Rightarrow> string" where
  "dotted fields = concat (List.map (\<lambda>f. itoa f @ ''.'') fields)"

lemma dotted_simps [simp]:
  "dotted [] = []" "dotted (f # fs) = itoa f @ CHR ''.'' # dotted fs"
  "dotted (fs @ gs) = dotted fs @ dotted gs"
  by (simp_all add: dotted_def)

lemma ipv4_string_snoc: "ipv4_string (fs @ [f]) = dotted fs @ itoa f"
proof (induction fs)
  case Nil
  then show ?case by (simp add: ipv4_string_def)
next
  case (Cons g fs)
  then show ?case by (simp add: ipv4_string_def join_Cons)
qed

lemma itoa_snoc_digit:
  "0 < v \<Longrightarrow> is_digit c \<Longrightarrow> itoa (10 * v + (byte c - 48)) = itoa v @ [c]"
proof -
  assume v: "0 < v" and c: "is_digit c"
  then have d: "byte c - 48 < 10" by (auto simp: byte_class_defs)
  then have "(10 * v + (byte c - 48)) div 10 = v" "(10 * v + (byte c - 48)) mod 10 = byte c - 48"
    by auto
  with v c show ?thesis by (subst itoa.simps) auto
qed

lemma itoa_digit: "is_digit c \<Longrightarrow> itoa (byte c - 48) = [c]"
  by (subst itoa.simps) (auto simp: byte_class_defs digit_char_def)

text \<open>The text the parser has consumed is the canonical text of what it has built.\<close>

lemma parse_ipv4_fields_canonical:
  "parse_ipv4_fields s val dig fields = Some r \<Longrightarrow>
   (dig = 0 \<longrightarrow> val = 0) \<Longrightarrow> (1 < dig \<longrightarrow> 0 < val) \<Longrightarrow>
   dotted fields @ (if dig = 0 then [] else itoa val) @ s = ipv4_string r"
proof (induction s val dig fields rule: parse_ipv4_fields.induct)
  case (1 val dig fields)
  then show ?case by (auto simp: ipv4_string_snoc split: if_splits)
next
  case (2 c s val dig fields)
  show ?case
  proof (cases "is_digit c")
    case True
    with "2.prems"(1) have ok: "\<not> (dig = 1 \<and> val = 0)" "\<not> 255 < 10 * val + (byte c - 48)"
      and rest: "parse_ipv4_fields s (10 * val + (byte c - 48)) (Suc dig) fields = Some r"
      by (auto split: if_splits)
    have pos: "0 < dig \<Longrightarrow> 0 < val" using ok(1) "2.prems"(3) by (cases "dig = 1") auto
    have app: "itoa (10 * val + (byte c - 48)) = (if dig = 0 then [] else itoa val) @ [c]"
      using True pos "2.prems"(2) itoa_snoc_digit itoa_digit by auto
    have "dotted fields @ itoa (10 * val + (byte c - 48)) @ s = ipv4_string r"
      using "2.IH"(1) [OF True ok rest] pos by auto
    with app show ?thesis by simp
  next
    case False
    with "2.prems"(1) have ok: "c = CHR ''.''" "dig \<noteq> 0" "length fields \<noteq> 3"
      and rest: "parse_ipv4_fields s 0 0 (fields @ [val]) = Some r"
      by (auto split: if_splits)
    show ?thesis using "2.IH"(2) [OF False ok rest] ok by simp
  qed
qed

lemma parse_ipv4_canonical: "parse_ipv4 s = Some r \<Longrightarrow> s = ipv4_string r"
  using parse_ipv4_fields_canonical [of s 0 0 "[]" r] by (simp add: parse_ipv4_def)

text \<open>So two accepted literals denote the same address only if they are the same text.\<close>

lemma parse_ip4_literal_inj:
  "parse_ip4_literal s = Some r \<Longrightarrow> parse_ip4_literal t = Some r \<Longrightarrow> s = t"
  by (metis option.distinct(1) parse_ip4_literal_def parse_ipv4_canonical)

section \<open>UTF-8 (\<open>unicode/utf8\<close>)\<close>

definition is_cont :: "char \<Rightarrow> bool" where
  "is_cont = byte_in 128 191"

text \<open>\<open>utf8.Valid\<close>: shortest encodings only, no surrogates, at most U+10FFFF.\<close>

fun utf8_valid :: "string \<Rightarrow> bool" where
  "utf8_valid [] = True"
| "utf8_valid (a # s) =
     (if byte a < 128 then utf8_valid s
      else case s of
        [] \<Rightarrow> False
      | b # s2 \<Rightarrow>
          if byte_in 194 223 a then is_cont b \<and> utf8_valid s2
          else case s2 of
            [] \<Rightarrow> False
          | c # s3 \<Rightarrow>
              if byte_in 224 239 a then
                byte_in (if byte a = 224 then 160 else 128) (if byte a = 237 then 159 else 191) b
                \<and> is_cont c \<and> utf8_valid s3
              else case s3 of
                [] \<Rightarrow> False
              | d # s4 \<Rightarrow>
                  byte_in 240 244 a
                  \<and> byte_in (if byte a = 240 then 144 else 128) (if byte a = 244 then 143 else 191) b
                  \<and> is_cont c \<and> is_cont d \<and> utf8_valid s4)"

lemma utf8_valid_ascii: "list_all (\<lambda>c. byte c < 128) s \<Longrightarrow> utf8_valid s"
  by (induction s) auto

text \<open>The length of the UTF-8 encoded rune at the front of a text, 0 when there is none.\<close>

definition rune_len :: "string \<Rightarrow> nat" where
  "rune_len s =
     (if 1 \<le> length s \<and> utf8_valid (take 1 s) then 1
      else if 2 \<le> length s \<and> utf8_valid (take 2 s) then 2
      else if 3 \<le> length s \<and> utf8_valid (take 3 s) then 3
      else if 4 \<le> length s \<and> utf8_valid (take 4 s) then 4
      else 0)"

definition replacement_rune :: string where "replacement_rune = [char_of (239::nat), char_of (191::nat), char_of (189::nat)]"

end
