(* ===== verification/Model.thy ===== *)
theory Model
  imports Prelude
begin

text \<open>
  Package \<open>internal/model\<close> (\<open>config.go\<close>): the durable VM configuration, its validation, the
  surrogate check on raw JSON, the generators of IDs, UUIDs and MACs, and the immutability rules
  of \<open>ValidateApply\<close>. A \<open>Config\<close> is a record with the struct's fields, prefixed by the struct
  they belong to. Go's enumerations are string types whose values \<open>Validate\<close> restricts, so they
  stay strings here; \<open>int\<close> fields are only compared and are \<open>int\<close>; \<open>uint16\<close> ports are
  \<open>16 word\<close>. A pointer that may be nil is an option. Each message of \<open>configError\<close> is a
  constructor of an error datatype, one datatype per validator, with the message's arguments. JSON encoding and SHA-256 are
  standard library routines outside the model.
\<close>

unbundle bit_operations_syntax

section \<open>Data\<close>

type_synonym backend_name = string
type_synonym restart_policy = string
type_synonym network_mode = string
type_synonym autostart_scope = string
type_synonym run_state = string

definition SchemaVersion :: int where "SchemaVersion = 1"
definition BackendQEMU :: backend_name where "BackendQEMU = ''qemu''"
definition RestartNever :: restart_policy where "RestartNever = ''never''"
definition RestartOnFailure :: restart_policy where "RestartOnFailure = ''on-failure''"
definition NetworkUser :: network_mode where "NetworkUser = ''user''"
definition NetworkSocketVMNet :: network_mode where "NetworkSocketVMNet = ''socket_vmnet''"
definition AutostartNone :: autostart_scope where "AutostartNone = ''none''"
definition AutostartBoot :: autostart_scope where "AutostartBoot = ''boot''"
definition AutostartLogin :: autostart_scope where "AutostartLogin = ''login''"
definition RunStateStarting :: run_state where "RunStateStarting = ''starting''"
definition RunStateRunning :: run_state where "RunStateRunning = ''running''"
definition RunStatePaused :: run_state where "RunStatePaused = ''paused''"
definition RunStateStopping :: run_state where "RunStateStopping = ''stopping''"
definition RunStateStopped :: run_state where "RunStateStopped = ''stopped''"
definition RunStateFailed :: run_state where "RunStateFailed = ''failed''"

lemmas model_consts = SchemaVersion_def BackendQEMU_def RestartNever_def RestartOnFailure_def
  NetworkUser_def NetworkSocketVMNet_def AutostartNone_def AutostartBoot_def AutostartLogin_def

lemmas run_state_defs = RunStateStarting_def RunStateRunning_def RunStatePaused_def
  RunStateStopping_def RunStateStopped_def RunStateFailed_def

record FirmwareConfig =
  fw_code :: string
  fw_variables :: string

record MetricsConfig =
  met_port :: u16

record InstallerConfig =
  inst_path :: string
  inst_boot_index :: int

record DiskConfig =
  disk_path :: string
  disk_format :: string
  disk_serial :: string
  disk_boot_index :: int
  disk_read_only :: bool
  disk_cache :: string

record USBDeviceConfig =
  usb_vendor_id :: string
  usb_product_id :: string
  usb_host_bus :: int
  usb_host_address :: int

record PortForward =
  fwd_protocol :: string
  fwd_host_address :: string
  fwd_host_port :: u16
  fwd_guest_port :: u16

record SocketVMNetConfig =
  svm_client_path :: string
  svm_socket_path :: string
  svm_interface :: string

record NetworkConfig =
  net_mode :: network_mode
  net_mac :: string
  net_forwards :: "PortForward list"
  net_socket_vmnet :: "SocketVMNetConfig option"
  net_smb_folder :: string

record VNCConfig =
  vnc_bind :: string
  vnc_port :: u16
  vnc_port_to :: u16
  vnc_password :: string
  vnc_keyboard_layout :: string

record QEMUConfig =
  qemu_binary :: string
  qemu_image_tool :: string
  qemu_machine :: string
  qemu_rtc_base :: string
  qemu_extra_args :: "string list"

record Config =
  cfg_schema_version :: int
  cfg_id :: string
  cfg_name :: string
  cfg_backend :: backend_name
  cfg_architecture :: string
  cfg_uuid :: string
  cfg_cpus :: int
  cfg_memory_mib :: int
  cfg_restart_policy :: restart_policy
  cfg_shutdown_timeout_seconds :: int
  cfg_firmware :: FirmwareConfig
  cfg_installer :: "InstallerConfig option"
  cfg_disks :: "DiskConfig list"
  cfg_network :: NetworkConfig
  cfg_guest_agent_enabled :: bool
  cfg_vnc :: "VNCConfig option"
  cfg_metrics :: "MetricsConfig option"
  cfg_usb :: "USBDeviceConfig list"
  cfg_qemu :: QEMUConfig
  cfg_autostart_scope :: autostart_scope

text \<open>Who holds a boot index, as the duplicate message names it.\<close>

datatype boot_owner = OwnerInstaller | OwnerDisk nat

datatype storage_error =
    InstallerPathRequired | InstallerBootIndexNegative
  | DiskPathRequired nat | DiskBadFormat nat string | DiskBadCache nat string
  | DiskBootIndexNegative nat | BootIndexUsed int boot_owner nat | DiskBadSerial nat
  | DuplicateSerial string

datatype usb_error =
    USBLimit nat | USBBothSelectors nat | USBVendorProductRequired nat | USBBadVendor nat
  | USBBadProduct nat | USBBadBus nat | USBBadAddress nat | USBBusWithVendor nat
  | USBSelectorRequired nat | USBDuplicate nat

datatype network_error =
    BadMACSyntax | MACNotLocalUnicast | SocketVMNetForbidden | SMBFolderRelative
  | ForwardsForbidden | SMBFolderForbidden | SocketVMNetRequired | SocketVMNetPaths
  | BadNetworkMode string | ForwardBadProtocol nat string | ForwardBadAddress nat
  | ForwardZeroPort nat | ForwardDuplicate nat

datatype vnc_error =
    VNCBadBind | VNCBadPort | VNCBadPortTo | VNCPasswordUTF8 | VNCPasswordLength
  | VNCPasswordNUL | VNCBadLayout string

datatype conflict_error =
    ForwardConflict nat nat u16 | MetricsForwardConflict nat u16 | MetricsVNCConflict u16
  | VNCForwardConflict nat u16

datatype json_error = JSONNotUTF8 | JSONUnpairedSurrogate

datatype config_error =
    BadSchemaVersion | BadID | BadName string | BadBackend string | BadArchitecture | BadUUID
  | BadCPUs | BadMemory | BadRestartPolicy string | BadShutdownTimeout | BadMetricsPort
  | FirmwareRequired | BadMachine | BadRTCBase | ManagerOwnedArg string | BadAutostart string
  | StorageError storage_error | NetworkError network_error | VNCError vnc_error
  | PortConflict conflict_error | USBError usb_error | ImmutableField string

section \<open>Patterns\<close>

definition idPattern :: "string \<Rightarrow> bool" where
  "idPattern s \<longleftrightarrow> length s = 32 \<and> list_all is_lower_hex s"

definition name_rest_byte :: "char \<Rightarrow> bool" where
  "name_rest_byte c \<longleftrightarrow> is_alnum c \<or> c = CHR ''.'' \<or> c = CHR ''_'' \<or> c = CHR ''-''"

definition namePattern :: "string \<Rightarrow> bool" where
  "namePattern s \<longleftrightarrow>
     (case s of [] \<Rightarrow> False
      | c # t \<Rightarrow> is_alnum c \<and> length t \<le> 62 \<and> list_all name_rest_byte t)"

definition serialPattern :: "string \<Rightarrow> bool" where
  "serialPattern s \<longleftrightarrow> 1 \<le> length s \<and> length s \<le> 64 \<and> list_all name_rest_byte s"

definition macPattern :: "string \<Rightarrow> bool" where
  "macPattern s \<longleftrightarrow>
     (let gs = split_on CHR '':'' s
      in length gs = 6 \<and> list_all (\<lambda>g. length g = 2 \<and> list_all is_lower_hex g) gs)"

definition usbIDPattern :: "string \<Rightarrow> bool" where
  "usbIDPattern s \<longleftrightarrow> length s = 4 \<and> list_all is_lower_hex s"

definition machinePattern :: "string \<Rightarrow> bool" where
  "machinePattern s \<longleftrightarrow>
     has_prefix s ''virt-'' \<and>
     (case cut CHR ''.'' (drop 5 s) of None \<Rightarrow> False
      | Some (major, minor) \<Rightarrow>
          major \<noteq> [] \<and> hd major \<noteq> CHR ''0'' \<and> list_all is_digit major \<and>
          minor \<noteq> [] \<and> list_all is_digit minor)"

definition keyboardLayouts :: "string list" where
  "keyboardLayouts =
    [''ar'', ''da'', ''de'', ''de-ch'', ''en-gb'', ''en-us'', ''es'', ''et'',
     ''fi'', ''fo'', ''fr'', ''fr-be'', ''fr-ca'', ''fr-ch'', ''hr'', ''hu'',
     ''is'', ''it'', ''ja'', ''lt'', ''lv'', ''mk'', ''nl'', ''nl-be'',
     ''no'', ''pl'', ''pt'', ''pt-br'', ''ru'', ''sl'', ''sv'', ''th'',
     ''tr'']"

definition validKeyboardLayout :: "string \<Rightarrow> bool" where
  "validKeyboardLayout layout \<longleftrightarrow> layout \<in> set keyboardLayouts"

definition validMachineType :: "string \<Rightarrow> bool" where
  "validMachineType machine \<longleftrightarrow> machine = '''' \<or> machine = ''virt'' \<or> machinePattern machine"

definition validRTCBase :: "string \<Rightarrow> bool" where
  "validRTCBase base \<longleftrightarrow> base = '''' \<or> base = ''utc'' \<or> base = ''localtime''"

definition managerOwnedQEMUOptions :: "string list" where
  "managerOwnedQEMUOptions =
    [''qmp'', ''monitor'', ''mon'', ''chardev'', ''serial'', ''daemonize'', ''pidfile'', ''run-with'',
     ''accel'', ''machine'', ''M'', ''cpu'', ''smp'', ''m'', ''drive'', ''blockdev'',
     ''device'', ''hda'', ''hdb'', ''hdc'', ''hdd'', ''fda'', ''fdb'', ''cdrom'',
     ''netdev'', ''nic'', ''net'', ''display'', ''nographic'', ''vga'', ''nodefaults'',
     ''name'', ''uuid'', ''boot'', ''bios'', ''readconfig'', ''writeconfig'', ''set'',
     ''global'', ''incoming'', ''snapshot'', ''S'', ''preconfig'', ''no-shutdown'', ''action'',
     ''vnc'', ''object'', ''k'', ''rtc'']"

definition forbiddenQEMUArg :: "string \<Rightarrow> bool" where
  "forbiddenQEMUArg arg =
     (if length arg < 2 \<or> arg ! 0 \<noteq> CHR ''-'' then False
      else
        let option0 = trim_prefix arg ''--'';
            option1 = (if option0 = arg then drop 1 arg else option0);
            opt = (case cut CHR ''='' option1 of None \<Rightarrow> option1 | Some (before, _) \<Rightarrow> before)
        in if opt \<in> set managerOwnedQEMUOptions then True
           else if has_prefix arg ''-M'' \<and> \<not> has_prefix arg ''--'' \<and> 2 < length arg then True
           else has_prefix arg ''-m'' \<and> \<not> has_prefix arg ''--'' \<and> 2 < length arg
                \<and> byte_in 48 57 (arg ! 2))"

definition validUUIDv4 :: "string \<Rightarrow> bool" where
  "validUUIDv4 value =
     (if length value \<noteq> 36 \<or> value ! 8 \<noteq> CHR ''-'' \<or> value ! 13 \<noteq> CHR ''-''
         \<or> value ! 18 \<noteq> CHR ''-'' \<or> value ! 23 \<noteq> CHR ''-'' then False
      else case hex_decode (filter (\<lambda>c. c \<noteq> CHR ''-'') value) of
             None \<Rightarrow> False
           | Some decoded \<Rightarrow>
               length decoded = 16 \<and> drop_bit 4 (decoded ! 6) = 4 \<and> drop_bit 6 (decoded ! 8) = 2)"

section \<open>Validation\<close>

subsection \<open>Storage\<close>

definition disk_caches :: "string list" where
  "disk_caches = ['''', ''none'', ''writeback'', ''writethrough'', ''directsync'', ''unsafe'']"

text \<open>The loop over the disks: \<open>i\<close> is the index, \<open>indexes\<close> the boot indexes taken so far and
  by whom, \<open>serials\<close> the serials seen.\<close>

fun validate_disks ::
  "nat \<Rightarrow> (int \<rightharpoonup> boot_owner) \<Rightarrow> string set \<Rightarrow> DiskConfig list \<Rightarrow> storage_error option" where
  "validate_disks i indexes serials [] = None"
| "validate_disks i indexes serials (disk # disks) =
     (if disk_path disk = '''' then Some (DiskPathRequired i)
      else if disk_format disk \<noteq> ''qcow2'' \<and> disk_format disk \<noteq> ''raw''
      then Some (DiskBadFormat i (disk_format disk))
      else if disk_cache disk \<notin> set disk_caches then Some (DiskBadCache i (disk_cache disk))
      else if disk_boot_index disk < 0 then Some (DiskBootIndexNegative i)
      else case indexes (disk_boot_index disk) of
        Some owner \<Rightarrow> Some (BootIndexUsed (disk_boot_index disk) owner i)
      | None \<Rightarrow>
          if \<not> serialPattern (disk_serial disk) then Some (DiskBadSerial i)
          else if disk_serial disk \<in> serials then Some (DuplicateSerial (disk_serial disk))
          else validate_disks (Suc i) (indexes(disk_boot_index disk \<mapsto> OwnerDisk i))
                 (insert (disk_serial disk) serials) disks)"

definition validateStorage :: "Config \<Rightarrow> storage_error option" where
  "validateStorage c =
     (case cfg_installer c of
        None \<Rightarrow> validate_disks 0 Map.empty {} (cfg_disks c)
      | Some inst \<Rightarrow>
          if inst_path inst = '''' then Some InstallerPathRequired
          else if inst_boot_index inst < 0 then Some InstallerBootIndexNegative
          else validate_disks 0 [inst_boot_index inst \<mapsto> OwnerInstaller] {} (cfg_disks c))"

text \<open>What it promises, without the loop and its maps.\<close>

definition disk_ok :: "DiskConfig \<Rightarrow> bool" where
  "disk_ok d \<longleftrightarrow> disk_path d \<noteq> '''' \<and> disk_format d \<in> {''qcow2'', ''raw''}
     \<and> disk_cache d \<in> set disk_caches \<and> 0 \<le> disk_boot_index d \<and> serialPattern (disk_serial d)"

definition boot_indexes :: "Config \<Rightarrow> int list" where
  "boot_indexes c = (case cfg_installer c of None \<Rightarrow> [] | Some i \<Rightarrow> [inst_boot_index i])
     @ List.map disk_boot_index (cfg_disks c)"

definition wf_storage :: "Config \<Rightarrow> bool" where
  "wf_storage c \<longleftrightarrow>
     (case cfg_installer c of None \<Rightarrow> True | Some i \<Rightarrow> inst_path i \<noteq> '''' \<and> 0 \<le> inst_boot_index i)
     \<and> (\<forall>d \<in> set (cfg_disks c). disk_ok d)
     \<and> distinct (boot_indexes c) \<and> distinct (List.map disk_serial (cfg_disks c))"

lemma validate_disks_None_iff:
  "validate_disks i indexes serials disks = None \<longleftrightarrow>
     (\<forall>d \<in> set disks. disk_ok d \<and> disk_boot_index d \<notin> dom indexes \<and> disk_serial d \<notin> serials)
     \<and> distinct (List.map disk_boot_index disks) \<and> distinct (List.map disk_serial disks)"
proof (induction disks arbitrary: i indexes serials)
  case Nil
  then show ?case by simp
next
  case (Cons disk disks)
  show ?case
  proof (cases "disk_ok disk \<and> disk_boot_index disk \<notin> dom indexes \<and> disk_serial disk \<notin> serials")
    case True
    then have "validate_disks i indexes serials (disk # disks) =
      validate_disks (Suc i) (indexes(disk_boot_index disk \<mapsto> OwnerDisk i))
        (insert (disk_serial disk) serials) disks"
      by (auto simp: disk_ok_def)
    then have "validate_disks i indexes serials (disk # disks) = None \<longleftrightarrow>
      (\<forall>d \<in> set disks. disk_ok d \<and> disk_boot_index d \<notin> insert (disk_boot_index disk) (dom indexes)
         \<and> disk_serial d \<notin> insert (disk_serial disk) serials)
      \<and> distinct (List.map disk_boot_index disks) \<and> distinct (List.map disk_serial disks)"
      by (simp only: Cons.IH dom_fun_upd) simp
    with True show ?thesis by (auto simp: image_iff)
  next
    case False
    then have "validate_disks i indexes serials (disk # disks) \<noteq> None"
      by (auto simp: disk_ok_def split: option.splits)
    with False show ?thesis by (meson list.set_intros(1))
  qed
qed

lemma validateStorage_None_iff: "validateStorage c = None \<longleftrightarrow> wf_storage c"
  by (auto simp: validateStorage_def wf_storage_def boot_indexes_def validate_disks_None_iff
      image_iff split: option.splits)

subsection \<open>USB\<close>

fun validate_usb_devices :: "nat \<Rightarrow> string set \<Rightarrow> USBDeviceConfig list \<Rightarrow> usb_error option" where
  "validate_usb_devices i selectors [] = None"
| "validate_usb_devices i selectors (usb # rest) =
     (let vendorSet = usb_vendor_id usb \<noteq> '''' \<or> usb_product_id usb \<noteq> '''';
          busSet = usb_host_bus usb \<noteq> 0 \<or> usb_host_address usb \<noteq> 0;
          finish = (\<lambda>selector.
            if selector \<in> selectors then Some (USBDuplicate i)
            else validate_usb_devices (Suc i) (insert selector selectors) rest)
      in if vendorSet \<and> busSet then Some (USBBothSelectors i)
         else if vendorSet then
           if usb_vendor_id usb = '''' \<or> usb_product_id usb = ''''
           then Some (USBVendorProductRequired i)
           else if \<not> usbIDPattern (usb_vendor_id usb) \<or> usb_vendor_id usb = ''0000''
           then Some (USBBadVendor i)
           else if \<not> usbIDPattern (usb_product_id usb) \<or> usb_product_id usb = ''0000''
           then Some (USBBadProduct i)
           else finish (''vp:'' @ usb_vendor_id usb @ '':'' @ usb_product_id usb)
         else if busSet then
           if usb_host_bus usb < 1 \<or> 255 < usb_host_bus usb then Some (USBBadBus i)
           else if usb_host_address usb < 1 \<or> 127 < usb_host_address usb then Some (USBBadAddress i)
           else if usb_vendor_id usb \<noteq> '''' \<or> usb_product_id usb \<noteq> '''' then Some (USBBusWithVendor i)
           else finish (''ba:'' @ itoa_int (usb_host_bus usb) @ '':'' @ itoa_int (usb_host_address usb))
         else Some (USBSelectorRequired i))"

definition validateUSB :: "Config \<Rightarrow> usb_error option" where
  "validateUSB c =
     (let limit = (if cfg_vnc c \<noteq> None then 2 else 4 :: nat)
      in if limit < length (cfg_usb c) then Some (USBLimit limit)
         else validate_usb_devices 0 {} (cfg_usb c))"

text \<open>A device is selected either by vendor and product or by bus and address, never both.\<close>

definition usb_by_id :: "USBDeviceConfig \<Rightarrow> bool" where
  "usb_by_id u \<longleftrightarrow> usbIDPattern (usb_vendor_id u) \<and> usb_vendor_id u \<noteq> ''0000''
     \<and> usbIDPattern (usb_product_id u) \<and> usb_product_id u \<noteq> ''0000''
     \<and> usb_host_bus u = 0 \<and> usb_host_address u = 0"

definition usb_by_bus :: "USBDeviceConfig \<Rightarrow> bool" where
  "usb_by_bus u \<longleftrightarrow> 1 \<le> usb_host_bus u \<and> usb_host_bus u \<le> 255
     \<and> 1 \<le> usb_host_address u \<and> usb_host_address u \<le> 127
     \<and> usb_vendor_id u = '''' \<and> usb_product_id u = ''''"

definition usb_selector :: "USBDeviceConfig \<Rightarrow> string" where
  "usb_selector u =
     (if usb_vendor_id u \<noteq> '''' then ''vp:'' @ usb_vendor_id u @ '':'' @ usb_product_id u
      else ''ba:'' @ itoa_int (usb_host_bus u) @ '':'' @ itoa_int (usb_host_address u))"

definition wf_usb :: "Config \<Rightarrow> bool" where
  "wf_usb c \<longleftrightarrow> length (cfg_usb c) \<le> (if cfg_vnc c \<noteq> None then 2 else 4)
     \<and> (\<forall>u \<in> set (cfg_usb c). usb_by_id u \<or> usb_by_bus u)
     \<and> distinct (List.map usb_selector (cfg_usb c))"

lemma usbIDPattern_nonempty: "usbIDPattern s \<Longrightarrow> s \<noteq> []"
  by (auto simp: usbIDPattern_def)

lemma validate_usb_devices_Cons:
  "usb_by_id u \<or> usb_by_bus u \<Longrightarrow>
   validate_usb_devices i sels (u # us) =
     (if usb_selector u \<in> sels then Some (USBDuplicate i)
      else validate_usb_devices (Suc i) (insert (usb_selector u) sels) us)"
  by (auto simp: usb_by_id_def usb_by_bus_def usb_selector_def Let_def dest: usbIDPattern_nonempty)

lemma validate_usb_devices_bad:
  "\<not> (usb_by_id u \<or> usb_by_bus u) \<Longrightarrow> validate_usb_devices i sels (u # us) \<noteq> None"
  by (auto simp: usb_by_id_def usb_by_bus_def Let_def)

lemma validate_usb_devices_None_iff:
  "validate_usb_devices i sels us = None \<longleftrightarrow>
     (\<forall>u \<in> set us. (usb_by_id u \<or> usb_by_bus u) \<and> usb_selector u \<notin> sels)
     \<and> distinct (List.map usb_selector us)"
proof (induction us arbitrary: i sels)
  case Nil
  then show ?case by simp
next
  case (Cons u us)
  show ?case
  proof (cases "usb_by_id u \<or> usb_by_bus u")
    case True
    then show ?thesis using Cons.IH
      by (auto simp: validate_usb_devices_Cons image_iff simp del: validate_usb_devices.simps)
  next
    case False
    then show ?thesis using validate_usb_devices_bad by auto
  qed
qed

lemma validateUSB_None_iff: "validateUSB c = None \<longleftrightarrow> wf_usb c"
  by (simp add: validateUSB_def wf_usb_def validate_usb_devices_None_iff Let_def)

text \<open>Equal selectors select the same device, so the check for duplicates is exact.\<close>

lemma lower_hex_no_colon: "usbIDPattern s \<Longrightarrow> CHR '':'' \<notin> set s"
  using not_lower_hex_punct(2) by (auto simp: usbIDPattern_def list_all_iff)

lemma usb_selector_by_id:
  "usb_by_id u \<Longrightarrow> usb_selector u = ''vp:'' @ usb_vendor_id u @ CHR '':'' # usb_product_id u"
  using usbIDPattern_nonempty by (auto simp: usb_selector_def usb_by_id_def)

lemma usb_selector_by_bus:
  "usb_by_bus u \<Longrightarrow>
   usb_selector u = ''ba:'' @ itoa_int (usb_host_bus u) @ CHR '':'' # itoa_int (usb_host_address u)"
  by (simp add: usb_selector_def usb_by_bus_def)

lemma usb_selector_inj:
  assumes "usb_by_id u \<or> usb_by_bus u" and "usb_by_id v \<or> usb_by_bus v"
  shows "usb_selector u = usb_selector v \<longleftrightarrow>
    usb_vendor_id u = usb_vendor_id v \<and> usb_product_id u = usb_product_id v
    \<and> usb_host_bus u = usb_host_bus v \<and> usb_host_address u = usb_host_address v"
proof (cases "usb_by_id u"; cases "usb_by_id v")
  assume "usb_by_id u" "usb_by_id v"
  then show ?thesis
    by (simp add: usb_selector_by_id) (auto simp: usb_by_id_def append_sep_inj lower_hex_no_colon)
next
  assume "usb_by_id u" "\<not> usb_by_id v"
  with assms(2) show ?thesis
    by (simp add: usb_selector_by_id usb_selector_by_bus) (auto simp: usb_by_id_def usb_by_bus_def)
next
  assume "\<not> usb_by_id u" "usb_by_id v"
  with assms(1) show ?thesis
    by (simp add: usb_selector_by_id usb_selector_by_bus) (auto simp: usb_by_id_def usb_by_bus_def)
next
  assume "\<not> usb_by_id u" "\<not> usb_by_id v"
  with assms show ?thesis
    by (simp add: usb_selector_by_bus append_sep_inj itoa_int_inj) (auto simp: usb_by_bus_def)
qed

subsection \<open>Network\<close>

definition mac_string :: "u8 list \<Rightarrow> string" where
  "mac_string bs = join_with '':'' (List.map hex_byte bs)"

text \<open>\<open>net.ParseMAC\<close> on the six-octet colon form, the only one \<open>macPattern\<close> lets through.\<close>

definition parse_mac :: "string \<Rightarrow> u8 list option" where
  "parse_mac s =
     (let gs = split_on CHR '':'' s
      in if length gs = 6 \<and> list_all (\<lambda>g. length g = 2) gs then hex_decode (concat gs) else None)"

definition network_mode_error :: "NetworkConfig \<Rightarrow> network_error option" where
  "network_mode_error network =
     (if net_mode network = NetworkUser then
        if net_socket_vmnet network \<noteq> None then Some SocketVMNetForbidden
        else if net_smb_folder network \<noteq> '''' \<and> \<not> is_abs_path (net_smb_folder network)
        then Some SMBFolderRelative
        else None
      else if net_mode network = NetworkSocketVMNet then
        if length (net_forwards network) \<noteq> 0 then Some ForwardsForbidden
        else if net_smb_folder network \<noteq> '''' then Some SMBFolderForbidden
        else case net_socket_vmnet network of
          None \<Rightarrow> Some SocketVMNetRequired
        | Some s \<Rightarrow>
            if \<not> is_abs_path (svm_client_path s) \<or> \<not> is_abs_path (svm_socket_path s)
               \<or> svm_interface s = ''''
            then Some SocketVMNetPaths else None
      else Some (BadNetworkMode (net_mode network)))"

definition forward_key :: "PortForward \<Rightarrow> nat list \<Rightarrow> string" where
  "forward_key f address =
     to_lower (fwd_protocol f) @ CHR 0x00 # ipv4_string address @ CHR 0x00 # itoa (unat (fwd_host_port f))"

fun validate_forwards :: "nat \<Rightarrow> string set \<Rightarrow> PortForward list \<Rightarrow> network_error option" where
  "validate_forwards i tuples [] = None"
| "validate_forwards i tuples (forward # rest) =
     (if fwd_protocol forward \<noteq> ''tcp'' \<and> fwd_protocol forward \<noteq> ''udp''
      then Some (ForwardBadProtocol i (fwd_protocol forward))
      else case parse_ip4_literal (fwd_host_address forward) of
        None \<Rightarrow> Some (ForwardBadAddress i)
      | Some address \<Rightarrow>
          if fwd_host_port forward = 0 \<or> fwd_guest_port forward = 0 then Some (ForwardZeroPort i)
          else if forward_key forward address \<in> tuples then Some (ForwardDuplicate i)
          else validate_forwards (Suc i) (insert (forward_key forward address) tuples) rest)"

definition validateNetwork :: "NetworkConfig \<Rightarrow> network_error option" where
  "validateNetwork network =
     (if \<not> macPattern (net_mac network) then Some BadMACSyntax
      else case parse_mac (net_mac network) of
        None \<Rightarrow> Some MACNotLocalUnicast
      | Some hardware \<Rightarrow>
          if hardware ! 0 AND 0x01 \<noteq> 0 \<or> hardware ! 0 AND 0x02 = 0 then Some MACNotLocalUnicast
          else case network_mode_error network of
            Some e \<Rightarrow> Some e
          | None \<Rightarrow> validate_forwards 0 {} (net_forwards network))"

text \<open>The contract: a locally administered unicast MAC in canonical text, the fields of one mode,
  and forwards whose protocol, host address and host port differ pairwise.\<close>

definition local_unicast_mac :: "string \<Rightarrow> bool" where
  "local_unicast_mac m \<longleftrightarrow>
     (\<exists>bs. length bs = 6 \<and> m = mac_string bs \<and> hd bs AND 1 = 0 \<and> hd bs AND 2 \<noteq> 0)"

definition forward_ok :: "PortForward \<Rightarrow> bool" where
  "forward_ok f \<longleftrightarrow> fwd_protocol f \<in> {''tcp'', ''udp''}
     \<and> parse_ip4_literal (fwd_host_address f) \<noteq> None
     \<and> fwd_host_port f \<noteq> 0 \<and> fwd_guest_port f \<noteq> 0"

definition forward_endpoint :: "PortForward \<Rightarrow> string \<times> string \<times> u16" where
  "forward_endpoint f = (fwd_protocol f, fwd_host_address f, fwd_host_port f)"

definition wf_network :: "NetworkConfig \<Rightarrow> bool" where
  "wf_network n \<longleftrightarrow> local_unicast_mac (net_mac n) \<and> network_mode_error n = None
     \<and> (\<forall>f \<in> set (net_forwards n). forward_ok f)
     \<and> distinct (List.map forward_endpoint (net_forwards n))"

lemma hex_byte_no_colon [simp]: "CHR '':'' \<notin> set (hex_byte b)"
  using hex_byte_lower [of b] not_lower_hex_punct(2) by (auto simp: list_all_iff)

lemma split_mac_string: "bs \<noteq> [] \<Longrightarrow> split_on CHR '':'' (mac_string bs) = List.map hex_byte bs"
  unfolding mac_string_def by (rule split_join) auto

lemma lower_hex_is_digit: "is_lower_hex c \<Longrightarrow> \<exists>d < 16. c = hex_digit d"
proof -
  assume c: "is_lower_hex c"
  show ?thesis
  proof (cases "is_digit c")
    case True
    then show ?thesis
      by (intro exI [of _ "byte c - 48"]) (auto simp: byte_class_defs hex_digit_def)
  next
    case False
    with c show ?thesis
      by (intro exI [of _ "byte c - 87"]) (auto simp: byte_class_defs hex_digit_def)
  qed
qed

lemma lower_hex_pair:
  assumes "length g = 2" and "list_all is_lower_hex g"
  shows "\<exists>b. g = hex_byte b"
proof -
  from assms obtain x y where g: "g = [x, y]" "is_lower_hex x" "is_lower_hex y"
    by (auto simp: length_Suc_conv numeral_2_eq_2)
  then obtain d e where de: "d < 16" "x = hex_digit d" "e < 16" "y = hex_digit e"
    using lower_hex_is_digit by meson
  then have "unat (word_of_nat (16 * d + e) :: u8) = 16 * d + e"
    unfolding unat_of_nat using de by simp
  with g de show ?thesis
    by (intro exI [of _ "word_of_nat (16 * d + e)"]) (simp add: hex_byte_def)
qed

lemma lower_hex_pairs:
  "list_all (\<lambda>g. length g = 2 \<and> list_all is_lower_hex g) gs \<Longrightarrow> \<exists>bs. gs = List.map hex_byte bs"
proof (induction gs)
  case (Cons g gs)
  then obtain bs where "gs = List.map hex_byte bs" by auto
  moreover from Cons.prems obtain b where "g = hex_byte b" using lower_hex_pair by auto
  ultimately have "g # gs = List.map hex_byte (b # bs)" by simp
  then show ?case by (rule exI)
qed simp

lemma macPattern_iff: "macPattern m \<longleftrightarrow> (\<exists>bs. length bs = 6 \<and> m = mac_string bs)"
proof
  assume "macPattern m"
  then obtain bs where "split_on CHR '':'' m = List.map hex_byte bs" "length bs = 6"
    using lower_hex_pairs by (fastforce simp: macPattern_def Let_def)
  moreover from this have "m = mac_string bs"
    unfolding mac_string_def using join_split [of "CHR '':''" m] by simp
  ultimately show "\<exists>bs. length bs = 6 \<and> m = mac_string bs" by blast
next
  assume "\<exists>bs. length bs = 6 \<and> m = mac_string bs"
  then obtain bs where "length bs = 6" "m = mac_string bs" by blast
  moreover from this have "split_on CHR '':'' m = List.map hex_byte bs"
    by (cases bs) (simp_all add: split_mac_string)
  ultimately show "macPattern m"
    using hex_byte_lower by (simp add: macPattern_def list_all_iff)
qed

lemma parse_mac_string: "length bs = 6 \<Longrightarrow> parse_mac (mac_string bs) = Some bs"
proof -
  assume "length bs = 6"
  then have "split_on CHR '':'' (mac_string bs) = List.map hex_byte bs"
    by (cases bs) (simp_all add: split_mac_string)
  then show ?thesis
    using \<open>length bs = 6\<close> hex_decode_encode [of bs]
    by (simp add: parse_mac_def list_all_iff hex_encode_def)
qed

lemma mac_checks:
  "(macPattern m \<and> (\<exists>hw. parse_mac m = Some hw \<and> \<not> (hw ! 0 AND 0x01 \<noteq> 0 \<or> hw ! 0 AND 0x02 = 0)))
   \<longleftrightarrow> local_unicast_mac m"
proof -
  have hd: "length bs = 6 \<Longrightarrow> hd bs = bs ! 0" for bs :: "u8 list"
    by (cases bs) auto
  show ?thesis
    unfolding local_unicast_mac_def macPattern_iff using hd parse_mac_string by fastforce
qed

lemma join_with_set: "c \<in> set (join_with sep ws) \<Longrightarrow> c \<in> set sep \<or> (\<exists>w \<in> set ws. c \<in> set w)"
  by (induction sep ws rule: join_with.induct) auto

lemma ipv4_string_no_NUL: "CHR 0x00 \<notin> set (ipv4_string r)"
proof
  assume "CHR 0x00 \<in> set (ipv4_string r)"
  then obtain n where "CHR 0x00 \<in> set (itoa n)"
    using join_with_set unfolding ipv4_string_def by fastforce
  then have "is_digit CHR 0x00" by (rule itoa_set)
  then show False by (simp add: byte_class_defs)
qed

lemma to_lower_protocol [simp]: "to_lower ''tcp'' = ''tcp''" "to_lower ''udp'' = ''udp''"
  by (simp_all add: to_lower_def to_lower_byte_def byte_class_defs)

lemma forward_key_inj:
  assumes f: "forward_ok f" "parse_ip4_literal (fwd_host_address f) = Some a"
    and g: "forward_ok g" "parse_ip4_literal (fwd_host_address g) = Some b"
  shows "forward_key f a = forward_key g b \<longleftrightarrow> forward_endpoint f = forward_endpoint g"
proof -
  have proto: "to_lower (fwd_protocol h) = fwd_protocol h" "CHR 0x00 \<notin> set (fwd_protocol h)"
    if "forward_ok h" for h
    using that by (auto simp: forward_ok_def)
  have "ipv4_string a = fwd_host_address f" "ipv4_string b = fwd_host_address g"
    using f(2) g(2)
    by (auto simp: parse_ip4_literal_def dest: parse_ipv4_canonical split: if_splits)
  then show ?thesis
    using f(1) g(1) ipv4_string_no_NUL [of a] ipv4_string_no_NUL [of b]
    by (simp add: forward_key_def forward_endpoint_def append_sep_inj proto itoa_inj
        word_unat_eq_iff)
qed

definition key_of :: "PortForward \<Rightarrow> string" where
  "key_of f = forward_key f (the (parse_ip4_literal (fwd_host_address f)))"

lemma key_of_inj:
  "forward_ok f \<Longrightarrow> forward_ok g \<Longrightarrow> key_of f = key_of g \<longleftrightarrow> forward_endpoint f = forward_endpoint g"
  unfolding key_of_def
  by (rule forward_key_inj) (auto simp: forward_ok_def)

lemma validate_forwards_Cons:
  "forward_ok f \<Longrightarrow> validate_forwards i tuples (f # fs) =
     (if key_of f \<in> tuples then Some (ForwardDuplicate i)
      else validate_forwards (Suc i) (insert (key_of f) tuples) fs)"
  by (auto simp: forward_ok_def key_of_def)

lemma validate_forwards_bad: "\<not> forward_ok f \<Longrightarrow> validate_forwards i tuples (f # fs) \<noteq> None"
  by (auto simp: forward_ok_def split: option.splits)

lemma validate_forwards_None_iff:
  "validate_forwards i tuples fs = None \<longleftrightarrow>
     (\<forall>f \<in> set fs. forward_ok f \<and> key_of f \<notin> tuples) \<and> distinct (List.map key_of fs)"
proof (induction fs arbitrary: i tuples)
  case (Cons f fs)
  show ?case
  proof (cases "forward_ok f")
    case True
    then show ?thesis using Cons.IH
      by (auto simp: validate_forwards_Cons image_iff simp del: validate_forwards.simps)
  next
    case False
    then show ?thesis using validate_forwards_bad by (meson list.set_intros(1))
  qed
qed simp

lemma distinct_key_of:
  "\<forall>f \<in> set fs. forward_ok f \<Longrightarrow>
   distinct (List.map key_of fs) \<longleftrightarrow> distinct (List.map forward_endpoint fs)"
proof (induction fs)
  case (Cons f fs)
  then have "key_of f \<in> key_of ` set fs \<longleftrightarrow> forward_endpoint f \<in> forward_endpoint ` set fs"
    using key_of_inj by (auto simp: image_iff)
  with Cons show ?case by simp
qed simp

lemma validateNetwork_None_iff: "validateNetwork n = None \<longleftrightarrow> wf_network n"
proof -
  have "validateNetwork n = None \<longleftrightarrow>
    (macPattern (net_mac n) \<and> (\<exists>hw. parse_mac (net_mac n) = Some hw \<and>
       \<not> (hw ! 0 AND 0x01 \<noteq> 0 \<or> hw ! 0 AND 0x02 = 0)))
    \<and> network_mode_error n = None \<and> validate_forwards 0 {} (net_forwards n) = None"
    by (auto simp: validateNetwork_def split: option.splits)
  then show ?thesis
    unfolding mac_checks wf_network_def
    by (auto simp: validate_forwards_None_iff distinct_key_of)
qed

subsection \<open>VNC and host port conflicts\<close>

definition validateVNC :: "VNCConfig option \<Rightarrow> vnc_error option" where
  "validateVNC vnc =
     (case vnc of None \<Rightarrow> None
      | Some v \<Rightarrow>
          if parse_ip4_literal (vnc_bind v) = None then Some VNCBadBind
          else if vnc_port v < 5900 then Some VNCBadPort
          else if vnc_port_to v < vnc_port v then Some VNCBadPortTo
          else if \<not> utf8_valid (vnc_password v) then Some VNCPasswordUTF8
          else if length (vnc_password v) < 1 \<or> 8 < length (vnc_password v)
          then Some VNCPasswordLength
          else if contains_byte (vnc_password v) CHR 0x00 then Some VNCPasswordNUL
          else if vnc_keyboard_layout v \<noteq> '''' \<and> \<not> validKeyboardLayout (vnc_keyboard_layout v)
          then Some (VNCBadLayout (vnc_keyboard_layout v))
          else None)"

definition tcpBindAddressesOverlap :: "string \<Rightarrow> string \<Rightarrow> bool" where
  "tcpBindAddressesOverlap first second \<longleftrightarrow>
     first = second \<or> first = ''0.0.0.0'' \<or> second = ''0.0.0.0''"

definition is_tcp :: "PortForward \<Rightarrow> bool" where
  "is_tcp f \<longleftrightarrow> fwd_protocol f = ''tcp''"

text \<open>The nested loop over the forwards, then the metrics listener against the forwards and the
  fixed VNC listener, then that listener against the forwards.\<close>

definition forward_conflicts :: "PortForward list \<Rightarrow> conflict_error option" where
  "forward_conflicts fs =
     first_error (List.map (\<lambda>i. if \<not> is_tcp (fs ! i) then None else
       first_error (List.map (\<lambda>earlier.
         guard (is_tcp (fs ! earlier) \<and> fwd_host_port (fs ! i) = fwd_host_port (fs ! earlier)
                \<and> tcpBindAddressesOverlap (fwd_host_address (fs ! i)) (fwd_host_address (fs ! earlier)))
           (ForwardConflict i earlier (fwd_host_port (fs ! i)))) [0..<i])) [0..<length fs])"

definition listener_conflicts ::
  "string \<Rightarrow> u16 \<Rightarrow> (nat \<Rightarrow> u16 \<Rightarrow> conflict_error) \<Rightarrow> PortForward list \<Rightarrow> conflict_error option" where
  "listener_conflicts bind port err fs =
     first_error (List.map (\<lambda>i. guard (is_tcp (fs ! i) \<and> port = fwd_host_port (fs ! i)
        \<and> tcpBindAddressesOverlap bind (fwd_host_address (fs ! i))) (err i port)) [0..<length fs])"

definition validateHostPortConflicts :: "Config \<Rightarrow> conflict_error option" where
  "validateHostPortConflicts c =
     (let fs = net_forwards (cfg_network c) in
      first_error
       [forward_conflicts fs,
        (case cfg_metrics c of None \<Rightarrow> None
         | Some m \<Rightarrow> first_error
             [listener_conflicts ''127.0.0.1'' (met_port m) MetricsForwardConflict fs,
              (case cfg_vnc c of None \<Rightarrow> None
               | Some v \<Rightarrow> guard (vnc_port v = vnc_port_to v \<and> met_port m = vnc_port v
                   \<and> tcpBindAddressesOverlap ''127.0.0.1'' (vnc_bind v))
                   (MetricsVNCConflict (met_port m)))]),
        (case cfg_vnc c of None \<Rightarrow> None
         | Some v \<Rightarrow> if vnc_port v \<noteq> vnc_port_to v then None
             else listener_conflicts (vnc_bind v) (vnc_port v) VNCForwardConflict fs)])"

text \<open>The contract: the fixed TCP listeners of one configuration, in any order of pairs, do not
  claim the same port on overlapping addresses. A VNC port range is left out, because QEMU
  falls back to the next port of the range.\<close>

definition tcp_listeners :: "Config \<Rightarrow> (string \<times> u16) list" where
  "tcp_listeners c =
     List.map (\<lambda>f. (fwd_host_address f, fwd_host_port f)) (filter is_tcp (net_forwards (cfg_network c)))
     @ (case cfg_metrics c of None \<Rightarrow> [] | Some m \<Rightarrow> [(''127.0.0.1'', met_port m)])
     @ (case cfg_vnc c of None \<Rightarrow> []
        | Some v \<Rightarrow> if vnc_port v = vnc_port_to v then [(vnc_bind v, vnc_port v)] else [])"

definition binds_clash :: "string \<times> u16 \<Rightarrow> string \<times> u16 \<Rightarrow> bool" where
  "binds_clash a b \<longleftrightarrow> snd a = snd b \<and> tcpBindAddressesOverlap (fst a) (fst b)"

lemma overlap_sym: "tcpBindAddressesOverlap a b \<longleftrightarrow> tcpBindAddressesOverlap b a"
  by (auto simp: tcpBindAddressesOverlap_def)

lemma binds_clash_sym: "binds_clash a b \<longleftrightarrow> binds_clash b a"
  using overlap_sym by (auto simp: binds_clash_def)

lemma sorted_wrt_filter_map:
  "sorted_wrt P (List.map g (filter t xs)) \<longleftrightarrow> sorted_wrt (\<lambda>a b. t a \<and> t b \<longrightarrow> P (g a) (g b)) xs"
  by (induction xs) (auto simp: sorted_wrt_true)

lemma forward_conflicts_None_iff:
  "forward_conflicts fs = None \<longleftrightarrow>
   sorted_wrt (\<lambda>a b. \<not> binds_clash a b)
     (List.map (\<lambda>f. (fwd_host_address f, fwd_host_port f)) (filter is_tcp fs))"
proof -
  define bind where "bind f = (fwd_host_address f, fwd_host_port f)" for f :: PortForward
  have clash: "binds_clash (bind g) (bind f) \<longleftrightarrow> fwd_host_port f = fwd_host_port g
      \<and> tcpBindAddressesOverlap (fwd_host_address f) (fwd_host_address g)" for f g
    by (subst binds_clash_sym) (simp add: binds_clash_def bind_def)
  have "forward_conflicts fs = None \<longleftrightarrow> (\<forall>i < length fs. \<forall>j < i.
      is_tcp (fs ! j) \<and> is_tcp (fs ! i) \<longrightarrow> \<not> binds_clash (bind (fs ! j)) (bind (fs ! i)))"
    unfolding clash forward_conflicts_def first_error_map_None if_None_iff guard_None
    by (simp add: Ball_def) blast
  then show ?thesis
    unfolding sorted_wrt_filter_map unfolding sorted_wrt_iff_nth_less bind_def by blast
qed

lemma listener_conflicts_None_iff:
  "listener_conflicts bind port err fs = None \<longleftrightarrow>
   (\<forall>f \<in> set fs. is_tcp f \<longrightarrow> \<not> binds_clash (bind, port) (fwd_host_address f, fwd_host_port f))"
  by (auto simp: listener_conflicts_def first_error_map_None binds_clash_def all_set_conv_all_nth)

definition wf_ports :: "Config \<Rightarrow> bool" where
  "wf_ports c \<longleftrightarrow> sorted_wrt (\<lambda>a b. \<not> binds_clash a b) (tcp_listeners c)"

lemma validateHostPortConflicts_None_iff: "validateHostPortConflicts c = None \<longleftrightarrow> wf_ports c"
proof -
  define fs where "fs = net_forwards (cfg_network c)"
  define F where "F = List.map (\<lambda>f. (fwd_host_address f, fwd_host_port f)) (filter is_tcp fs)"
  have F: "forward_conflicts fs = None \<longleftrightarrow> sorted_wrt (\<lambda>a b. \<not> binds_clash a b) F"
    by (simp add: F_def forward_conflicts_None_iff)
  have L: "listener_conflicts bind port err fs = None \<longleftrightarrow> (\<forall>a \<in> set F. \<not> binds_clash a (bind, port))"
    for bind port err
    using binds_clash_sym by (fastforce simp: F_def listener_conflicts_None_iff)
  have G: "guard (p = q \<and> m = p \<and> tcpBindAddressesOverlap a b) e = None \<longleftrightarrow>
      (p = q \<longrightarrow> \<not> binds_clash (a, m) (b, p))" for p q m :: u16 and a b e
    by (auto simp: binds_clash_def)
  show ?thesis
    unfolding wf_ports_def tcp_listeners_def validateHostPortConflicts_def Let_def
      fs_def [symmetric] F_def [symmetric]
    by (auto simp: sorted_wrt_append F L G first_error_Cons_None split: option.splits)
      (auto simp: binds_clash_def)
qed

subsection \<open>The whole configuration\<close>

definition Validate :: "Config \<Rightarrow> config_error option" where
  "Validate c = first_error
    [guard (cfg_schema_version c \<noteq> SchemaVersion) BadSchemaVersion,
     guard (\<not> idPattern (cfg_id c)) BadID,
     guard (\<not> namePattern (cfg_name c)) (BadName (cfg_name c)),
     guard (cfg_backend c \<noteq> BackendQEMU) (BadBackend (cfg_backend c)),
     guard (cfg_architecture c \<noteq> ''aarch64'') BadArchitecture,
     guard (\<not> validUUIDv4 (cfg_uuid c)) BadUUID,
     guard (cfg_cpus c < 1 \<or> 64 < cfg_cpus c) BadCPUs,
     guard (cfg_memory_mib c < 256) BadMemory,
     guard (cfg_restart_policy c \<noteq> RestartNever \<and> cfg_restart_policy c \<noteq> RestartOnFailure)
       (BadRestartPolicy (cfg_restart_policy c)),
     guard (cfg_shutdown_timeout_seconds c < 1 \<or> 3600 < cfg_shutdown_timeout_seconds c)
       BadShutdownTimeout,
     (case cfg_metrics c of None \<Rightarrow> None | Some m \<Rightarrow> guard (met_port m < 1024) BadMetricsPort),
     guard (fw_code (cfg_firmware c) = '''' \<or> fw_variables (cfg_firmware c) = '''') FirmwareRequired,
     guard (\<not> validMachineType (qemu_machine (cfg_qemu c))) BadMachine,
     guard (\<not> validRTCBase (qemu_rtc_base (cfg_qemu c))) BadRTCBase,
     first_error (List.map (\<lambda>arg. guard (forbiddenQEMUArg arg) (ManagerOwnedArg arg))
       (qemu_extra_args (cfg_qemu c))),
     guard (cfg_autostart_scope c \<noteq> AutostartNone \<and> cfg_autostart_scope c \<noteq> AutostartBoot
            \<and> cfg_autostart_scope c \<noteq> AutostartLogin) (BadAutostart (cfg_autostart_scope c)),
     map_option StorageError (validateStorage c),
     map_option NetworkError (validateNetwork (cfg_network c)),
     map_option VNCError (validateVNC (cfg_vnc c)),
     map_option PortConflict (validateHostPortConflicts c),
     map_option USBError (validateUSB c)]"

definition wf_scalars :: "Config \<Rightarrow> bool" where
  "wf_scalars c \<longleftrightarrow> cfg_schema_version c = 1
     \<and> idPattern (cfg_id c) \<and> namePattern (cfg_name c) \<and> cfg_backend c = ''qemu''
     \<and> cfg_architecture c = ''aarch64'' \<and> validUUIDv4 (cfg_uuid c)
     \<and> cfg_cpus c \<in> {1..64} \<and> 256 \<le> cfg_memory_mib c
     \<and> cfg_restart_policy c \<in> {''never'', ''on-failure''}
     \<and> cfg_shutdown_timeout_seconds c \<in> {1..3600}
     \<and> (\<forall>m. cfg_metrics c = Some m \<longrightarrow> 1024 \<le> met_port m)
     \<and> fw_code (cfg_firmware c) \<noteq> '''' \<and> fw_variables (cfg_firmware c) \<noteq> ''''
     \<and> validMachineType (qemu_machine (cfg_qemu c)) \<and> validRTCBase (qemu_rtc_base (cfg_qemu c))
     \<and> (\<forall>arg \<in> set (qemu_extra_args (cfg_qemu c)). \<not> forbiddenQEMUArg arg)
     \<and> cfg_autostart_scope c \<in> {''none'', ''boot'', ''login''}"

definition wf_vnc :: "Config \<Rightarrow> bool" where
  "wf_vnc c \<longleftrightarrow> (\<forall>v. cfg_vnc c = Some v \<longrightarrow>
     parse_ip4_literal (vnc_bind v) \<noteq> None \<and> 5900 \<le> vnc_port v \<and> vnc_port v \<le> vnc_port_to v
     \<and> utf8_valid (vnc_password v) \<and> length (vnc_password v) \<in> {1..8}
     \<and> CHR 0x00 \<notin> set (vnc_password v)
     \<and> (vnc_keyboard_layout v = '''' \<or> vnc_keyboard_layout v \<in> set keyboardLayouts))"

definition wf_config :: "Config \<Rightarrow> bool" where
  "wf_config c \<longleftrightarrow> wf_scalars c \<and> wf_storage c \<and> wf_network (cfg_network c) \<and> wf_vnc c
     \<and> wf_ports c \<and> wf_usb c"

lemma validateVNC_None_iff: "validateVNC (cfg_vnc c) = None \<longleftrightarrow> wf_vnc c"
  by (auto simp: validateVNC_def wf_vnc_def validKeyboardLayout_def contains_byte_def not_less
      Suc_le_eq split: option.splits)

lemma Validate_None_iff: "Validate c = None \<longleftrightarrow> wf_config c"
proof -
  have metrics: "(case cfg_metrics c of None \<Rightarrow> None
      | Some m \<Rightarrow> guard (met_port m < 1024) BadMetricsPort) = None \<longleftrightarrow>
    (\<forall>m. cfg_metrics c = Some m \<longrightarrow> 1024 \<le> met_port m)"
    by (simp add: not_less split: option.split)
  have args: "first_error (List.map (\<lambda>arg. guard (forbiddenQEMUArg arg) (ManagerOwnedArg arg)) as) = None
    \<longleftrightarrow> (\<forall>arg \<in> set as. \<not> forbiddenQEMUArg arg)" for as
    by (simp add: first_error_map_None)
  have "Validate c = None \<longleftrightarrow> wf_scalars c \<and> validateStorage c = None
    \<and> validateNetwork (cfg_network c) = None \<and> validateVNC (cfg_vnc c) = None
    \<and> validateHostPortConflicts c = None \<and> validateUSB c = None"
    unfolding Validate_def first_error_Cons_None metrics args guard_None map_option_is_None
      wf_scalars_def model_consts
    by (simp add: not_less)
  then show ?thesis
    by (simp add: wf_config_def validateStorage_None_iff validateNetwork_None_iff
        validateVNC_None_iff validateHostPortConflicts_None_iff validateUSB_None_iff)
qed

subsection \<open>Replacing a configuration\<close>

definition ValidateApply :: "Config \<Rightarrow> Config \<Rightarrow> config_error option" where
  "ValidateApply current replacement = first_error
    [Validate current,
     Validate replacement,
     guard (cfg_schema_version replacement \<noteq> cfg_schema_version current) (ImmutableField ''schema_version''),
     guard (cfg_id replacement \<noteq> cfg_id current) (ImmutableField ''id''),
     guard (cfg_name replacement \<noteq> cfg_name current) (ImmutableField ''name''),
     guard (cfg_backend replacement \<noteq> cfg_backend current) (ImmutableField ''backend''),
     guard (cfg_architecture replacement \<noteq> cfg_architecture current) (ImmutableField ''architecture''),
     guard (cfg_autostart_scope replacement \<noteq> cfg_autostart_scope current)
       (ImmutableField ''autostart scope'')]"

lemma ValidateApply_None_iff:
  "ValidateApply current replacement = None \<longleftrightarrow>
     wf_config current \<and> wf_config replacement
     \<and> cfg_schema_version replacement = cfg_schema_version current
     \<and> cfg_id replacement = cfg_id current \<and> cfg_name replacement = cfg_name current
     \<and> cfg_backend replacement = cfg_backend current
     \<and> cfg_architecture replacement = cfg_architecture current
     \<and> cfg_autostart_scope replacement = cfg_autostart_scope current"
  by (simp add: ValidateApply_def first_error_Cons_None Validate_None_iff)

section \<open>Generated identities\<close>

text \<open>\<open>read n\<close> is \<open>io.ReadFull\<close> on the random source: \<open>n\<close> bytes, or nothing on an error.\<close>

definition GenerateID :: "(nat \<Rightarrow> u8 list option) \<Rightarrow> string option" where
  "GenerateID read = map_option hex_encode (read 16)"

definition uuid_stamp :: "u8 list \<Rightarrow> u8 list" where
  "uuid_stamp value =
     (let v6 = value[6 := (value ! 6 AND 0x0f) OR 0x40]
      in v6[8 := (v6 ! 8 AND 0x3f) OR 0x80])"

definition uuid_text :: "u8 list \<Rightarrow> string" where
  "uuid_text v = hex_encode (take 4 v) @ ''-'' @ hex_encode (take 2 (drop 4 v)) @ ''-''
     @ hex_encode (take 2 (drop 6 v)) @ ''-'' @ hex_encode (take 2 (drop 8 v)) @ ''-''
     @ hex_encode (take 6 (drop 10 v))"

definition GenerateUUIDv4 :: "(nat \<Rightarrow> u8 list option) \<Rightarrow> string option" where
  "GenerateUUIDv4 read = map_option (\<lambda>value. uuid_text (uuid_stamp value)) (read 16)"

definition GenerateMAC :: "(nat \<Rightarrow> u8 list option) \<Rightarrow> string option" where
  "GenerateMAC read =
     map_option (\<lambda>value. mac_string (value[0 := (value ! 0 AND 0xfe) OR 0x02])) (read 6)"

lemma uuid_stamp_length [simp]: "length (uuid_stamp v) = length v"
  by (simp add: uuid_stamp_def Let_def)

lemma uuid_stamp_bits:
  assumes "length v = 16"
  shows "drop_bit 4 (uuid_stamp v ! 6) = 4" and "drop_bit 6 (uuid_stamp v ! 8) = 2"
  using assms by (simp_all add: uuid_stamp_def Let_def drop_bit_and drop_bit_or)

lemma hex_encode_no_dash: "filter (\<lambda>c. c \<noteq> CHR ''-'') (hex_encode bs) = hex_encode bs"
proof -
  have "\<forall>c \<in> set (hex_encode bs). c \<noteq> CHR ''-''"
    using hex_encode_lower [of bs] not_lower_hex_punct(1) by (auto simp: list_all_iff)
  then show ?thesis by (simp add: filter_id_conv)
qed

lemma uuid_text_compact:
  assumes "length v = 16"
  shows "filter (\<lambda>c. c \<noteq> CHR ''-'') (uuid_text v) = hex_encode v"
proof -
  have "v = take 4 v @ take 2 (drop 4 v) @ take 2 (drop 6 v) @ take 2 (drop 8 v) @ take 6 (drop 10 v)"
    using assms by (intro nth_equalityI) (auto simp: nth_append)
  then have "hex_encode v = hex_encode (take 4 v) @ hex_encode (take 2 (drop 4 v))
      @ hex_encode (take 2 (drop 6 v)) @ hex_encode (take 2 (drop 8 v)) @ hex_encode (take 6 (drop 10 v))"
    by (metis hex_encode_append)
  then show ?thesis by (simp add: uuid_text_def hex_encode_no_dash)
qed

lemma uuid_text_shape:
  assumes "length v = 16"
  shows "length (uuid_text v) = 36" "uuid_text v ! 8 = CHR ''-''" "uuid_text v ! 13 = CHR ''-''"
    "uuid_text v ! 18 = CHR ''-''" "uuid_text v ! 23 = CHR ''-''"
  using assms by (simp_all add: uuid_text_def nth_append)

lemma uuid_text_valid:
  assumes "length v = 16" "drop_bit 4 (v ! 6) = 4" "drop_bit 6 (v ! 8) = 2"
  shows "validUUIDv4 (uuid_text v)"
  using assms by (simp add: validUUIDv4_def uuid_text_shape uuid_text_compact hex_decode_encode)

lemma mac_stamp_local:
  assumes "length v = 6"
  shows "local_unicast_mac (mac_string (v[0 := (v ! 0 AND 0xfe) OR 0x02]))"
proof -
  let ?w = "v[0 := (v ! 0 AND 0xfe) OR 0x02]"
  have "hd ?w = (v ! 0 AND 0xfe) OR 0x02" using assms by (cases v) auto
  then have "hd ?w AND 1 = 0 \<and> hd ?w AND 2 \<noteq> 0"
    by (simp add: bit.conj_disj_distrib2 and.assoc or_eq_0_iff)
  then show ?thesis using assms unfolding local_unicast_mac_def by (metis length_list_update)
qed

section \<open>Surrogates in raw JSON\<close>

fun hex4 :: "u16 \<Rightarrow> string \<Rightarrow> u16 option" where
  "hex4 value [] = Some value"
| "hex4 value (b # bs) =
     (let shifted = push_bit 4 value in
      if byte_in 48 57 b then hex4 (shifted OR word_of_nat (byte b - 48)) bs
      else if byte_in 97 102 b then hex4 (shifted OR (word_of_nat (byte b - 97) + 10)) bs
      else if byte_in 65 70 b then hex4 (shifted OR (word_of_nat (byte b - 65) + 10)) bs
      else None)"

definition parseJSONHexEscape :: "string \<Rightarrow> nat \<Rightarrow> u16 option" where
  "parseJSONHexEscape data start =
     (if length data < start + 4 then None else hex4 0 (take 4 (drop start data)))"

text \<open>The scan of one string from the byte after its opening quote: the index of the closing
  quote, or the length of the data when the string is malformed and left to the decoder.\<close>

function validateJSONStringUnicode :: "string \<Rightarrow> nat \<Rightarrow> json_error + nat" where
  "validateJSONStringUnicode data i =
     (if length data \<le> i then Inr (length data)
      else if data ! i = CHR 0x22 then Inr i
      else if data ! i = CHR 0x5C then
        if length data \<le> i + 1 then Inr (length data)
        else if data ! (i + 1) \<noteq> CHR ''u'' then validateJSONStringUnicode data (i + 2)
        else case parseJSONHexEscape data (i + 2) of
          None \<Rightarrow> Inr (length data)
        | Some code \<Rightarrow>
            if 0xDC00 \<le> code \<and> code \<le> 0xDFFF then Inl JSONUnpairedSurrogate
            else if 0xD800 \<le> code \<and> code \<le> 0xDBFF then
              if length data < i + 12 then Inr (length data)
              else if data ! (i + 6) \<noteq> CHR 0x5C \<or> data ! (i + 7) \<noteq> CHR ''u''
              then Inl JSONUnpairedSurrogate
              else case parseJSONHexEscape data (i + 8) of
                None \<Rightarrow> Inr (length data)
              | Some nxt \<Rightarrow>
                  if nxt < 0xDC00 \<or> 0xDFFF < nxt then Inl JSONUnpairedSurrogate
                  else validateJSONStringUnicode data (i + 12)
            else validateJSONStringUnicode data (i + 6)
      else validateJSONStringUnicode data (i + 1))"
  by pat_completeness auto
termination
  by (relation "measure (\<lambda>(data, i). length data - i)") auto

declare validateJSONStringUnicode.simps [simp del]

lemma json_scan_advances: "validateJSONStringUnicode data i = Inr j \<Longrightarrow> min i (length data) \<le> j"
proof (induction "length data - i" arbitrary: i rule: less_induct)
  case less
  have rec: "i \<le> j" if "validateJSONStringUnicode data k = Inr j" "i < k" "i < length data" for k
  proof -
    have "min k (length data) \<le> j"
      by (rule less.hyps [OF _ that(1)]) (use that in \<open>simp add: diff_less_mono2\<close>)
    with that show ?thesis by simp
  qed
  from less.prems show ?case
    by (subst (asm) validateJSONStringUnicode.simps)
      (auto split: if_splits option.splits dest: rec)
qed

function scan_json :: "string \<Rightarrow> nat \<Rightarrow> json_error option" where
  "scan_json data i =
     (if length data \<le> i then None
      else if data ! i \<noteq> CHR 0x22 then scan_json data (i + 1)
      else case validateJSONStringUnicode data (i + 1) of
        Inl e \<Rightarrow> Some e
      | Inr nxt \<Rightarrow> scan_json data (nxt + 1))"
  by pat_completeness auto
termination
  by (relation "measure (\<lambda>(data, i). length data - i)") (auto dest: json_scan_advances)

declare scan_json.simps [simp del]

definition validateRawJSONUnicode :: "string \<Rightarrow> json_error option" where
  "validateRawJSONUnicode data =
     (if \<not> utf8_valid data then Some JSONNotUTF8 else scan_json data 0)"

text \<open>The pieces a JSON string is made of: a plain byte, a two-byte escape, a \<open>\u\<close> escape that is
  no surrogate, and a surrogate pair; the hexadecimal digits are kept as written.\<close>

datatype jtok = Plain char | Short char | Unit string | Pair string string

definition uesc :: "string \<Rightarrow> string" where
  "uesc h = CHR 0x5C # CHR ''u'' # h"

fun render_tok :: "jtok \<Rightarrow> string" where
  "render_tok (Plain c) = [c]"
| "render_tok (Short c) = [CHR 0x5C, c]"
| "render_tok (Unit h) = uesc h"
| "render_tok (Pair h l) = uesc h @ uesc l"

definition high_surrogate :: "string \<Rightarrow> bool" where
  "high_surrogate h \<longleftrightarrow> length h = 4 \<and>
     (case hex4 0 h of None \<Rightarrow> False | Some v \<Rightarrow> 0xD800 \<le> v \<and> v \<le> 0xDBFF)"

definition low_surrogate :: "string \<Rightarrow> bool" where
  "low_surrogate h \<longleftrightarrow> length h = 4 \<and>
     (case hex4 0 h of None \<Rightarrow> False | Some v \<Rightarrow> 0xDC00 \<le> v \<and> v \<le> 0xDFFF)"

fun tok_ok :: "jtok \<Rightarrow> bool" where
  "tok_ok (Plain c) \<longleftrightarrow> c \<noteq> CHR 0x22 \<and> c \<noteq> CHR 0x5C"
| "tok_ok (Short c) \<longleftrightarrow> c \<noteq> CHR ''u''"
| "tok_ok (Unit h) \<longleftrightarrow> length h = 4 \<and> hex4 0 h \<noteq> None \<and> \<not> high_surrogate h \<and> \<not> low_surrogate h"
| "tok_ok (Pair h l) \<longleftrightarrow> high_surrogate h \<and> low_surrogate l"

definition render_toks :: "jtok list \<Rightarrow> string" where
  "render_toks ts = concat (List.map render_tok ts)"

lemma parseJSONHexEscape_at:
  "length h = 4 \<Longrightarrow> parseJSONHexEscape (a @ h @ s) (length a) = hex4 0 h"
  by (simp add: parseJSONHexEscape_def)

lemma parse_uesc:
  "length h = 4 \<Longrightarrow> parseJSONHexEscape (a @ uesc h @ s) (Suc (Suc (length a))) = hex4 0 h"
  using parseJSONHexEscape_at [of h "a @ [CHR 0x5C, CHR ''u'']" s] by (simp add: uesc_def)

lemma uesc_nth [simp]:
  "(a @ uesc h @ s) ! length a = CHR 0x5C" "(a @ uesc h @ s) ! Suc (length a) = CHR ''u''"
  "length (uesc h) = length h + 2"
  by (simp_all add: uesc_def nth_append)

lemma high_range_not_low: "(v :: u16) \<le> 0xDBFF \<Longrightarrow> \<not> 0xDC00 \<le> v"
  using order_trans [where x = "0xDC00 :: u16" and y = v and z = "0xDBFF"] by auto

lemma high_not_low: "high_surrogate h \<Longrightarrow> \<not> low_surrogate h"
  using high_range_not_low by (auto simp: high_surrogate_def low_surrogate_def split: option.splits)

text \<open>What the scan does at an escape, by the kind of its code unit.\<close>

lemma scan_unit:
  "length h = 4 \<Longrightarrow> hex4 0 h \<noteq> None \<Longrightarrow> \<not> high_surrogate h \<Longrightarrow> \<not> low_surrogate h \<Longrightarrow>
   validateJSONStringUnicode (a @ uesc h @ s) (length a) =
   validateJSONStringUnicode (a @ uesc h @ s) (length a + 6)"
  by (subst validateJSONStringUnicode.simps)
    (auto simp: parse_uesc high_surrogate_def low_surrogate_def split: option.splits)

lemma scan_low:
  "low_surrogate h \<Longrightarrow>
   validateJSONStringUnicode (a @ uesc h @ s) (length a) = Inl JSONUnpairedSurrogate"
  by (subst validateJSONStringUnicode.simps) (auto simp: parse_uesc low_surrogate_def split: option.splits)

lemma scan_high:
  "high_surrogate h \<Longrightarrow>
   validateJSONStringUnicode (a @ uesc h @ s) (length a) =
     (if length s < 6 then Inr (length a + 6 + length s)
      else if s ! 0 \<noteq> CHR 0x5C \<or> s ! 1 \<noteq> CHR ''u'' then Inl JSONUnpairedSurrogate
      else case hex4 0 (take 4 (drop 2 s)) of
        None \<Rightarrow> Inr (length a + 6 + length s)
      | Some nxt \<Rightarrow>
          if nxt < 0xDC00 \<or> 0xDFFF < nxt then Inl JSONUnpairedSurrogate
          else validateJSONStringUnicode (a @ uesc h @ s) (length a + 12))"
proof -
  assume h: "high_surrogate h"
  then obtain v where v: "length h = 4" "hex4 0 h = Some v" "0xD800 \<le> v" "v \<le> 0xDBFF"
    by (auto simp: high_surrogate_def split: option.splits)
  have v': "\<not> 0xDC00 \<le> v" using v(4) by (rule high_range_not_low)
  have six: "(a @ uesc h @ s) ! (length a + 6) = s ! 0" "(a @ uesc h @ s) ! (length a + 7) = s ! 1"
    using v(1) by (simp_all add: nth_append uesc_def)
  have esc: "6 \<le> length s \<Longrightarrow>
      parseJSONHexEscape (a @ uesc h @ s) (length a + 8) = hex4 0 (take 4 (drop 2 s))"
    using v(1) by (simp add: parseJSONHexEscape_def uesc_def)
  show ?thesis
    by (subst validateJSONStringUnicode.simps) (use v v' six esc parse_uesc [OF v(1), of a s] in
        \<open>simp split: option.split\<close>)
qed

lemma scan_tok:
  "tok_ok t \<Longrightarrow> validateJSONStringUnicode (a @ render_tok t @ s) (length a) =
   validateJSONStringUnicode (a @ render_tok t @ s) (length a + length (render_tok t))"
proof (cases t)
  case (Plain c)
  then show "tok_ok t \<Longrightarrow> ?thesis"
    by (subst validateJSONStringUnicode.simps) (simp add: nth_append)
next
  case (Short c)
  then show "tok_ok t \<Longrightarrow> ?thesis"
    by (subst validateJSONStringUnicode.simps) (simp add: nth_append)
next
  case (Unit h)
  then show "tok_ok t \<Longrightarrow> ?thesis" using scan_unit [of h a s] by simp
next
  case (Pair h l)
  assume "tok_ok t"
  with Pair have h: "high_surrogate h" and l: "low_surrogate l" by auto
  then obtain v where v: "length l = 4" "hex4 0 l = Some v" "\<not> (v < 0xDC00 \<or> 0xDFFF < v)"
    by (auto simp: low_surrogate_def not_less split: option.splits)
  have "length h = 4" using h by (simp add: high_surrogate_def)
  then show ?thesis
    using Pair v scan_high [OF h, of a "uesc l @ s"] by (simp add: uesc_def)
qed

lemma scan_toks:
  "\<forall>t \<in> set ts. tok_ok t \<Longrightarrow> validateJSONStringUnicode (a @ render_toks ts @ s) (length a) =
   validateJSONStringUnicode (a @ render_toks ts @ s) (length a + length (render_toks ts))"
proof (induction ts arbitrary: a)
  case (Cons t ts)
  have "validateJSONStringUnicode (a @ render_tok t @ (render_toks ts @ s)) (length a)
      = validateJSONStringUnicode (a @ render_tok t @ (render_toks ts @ s))
          (length a + length (render_tok t))"
    using Cons.prems by (intro scan_tok) auto
  then show ?case
    using Cons.IH [of "a @ render_tok t"] Cons.prems by (simp add: render_toks_def add.assoc)
qed (simp add: render_toks_def)

lemma scan_toks_then:
  "\<forall>t \<in> set ts. tok_ok t \<Longrightarrow> validateJSONStringUnicode (a @ render_toks ts @ s) (length a) =
   validateJSONStringUnicode ((a @ render_toks ts) @ s) (length (a @ render_toks ts))"
  using scan_toks [of ts a s] by simp

section \<open>Properties\<close>

text \<open>A complete configuration, for the witnesses: two disks, an installer, two forwards, metrics,
  a fixed VNC port and two USB devices.\<close>

definition sample_config :: Config where
  "sample_config = \<lparr>
     cfg_schema_version = 1,
     cfg_id = ''0123456789abcdef0123456789abcdef'',
     cfg_name = ''home-assistant'',
     cfg_backend = ''qemu'', cfg_architecture = ''aarch64'',
     cfg_uuid = ''123e4567-e89b-42d3-a456-426614174000'',
     cfg_cpus = 4, cfg_memory_mib = 2048,
     cfg_restart_policy = ''on-failure'', cfg_shutdown_timeout_seconds = 60,
     cfg_firmware = \<lparr>fw_code = ''/fw/code.fd'', fw_variables = ''vars.fd''\<rparr>,
     cfg_installer = Some \<lparr>inst_path = ''/iso/install.iso'', inst_boot_index = 1\<rparr>,
     cfg_disks =
       [\<lparr>disk_path = ''disk.qcow2'', disk_format = ''qcow2'', disk_serial = ''root'',
         disk_boot_index = 0, disk_read_only = False, disk_cache = ''''\<rparr>,
        \<lparr>disk_path = ''/data.raw'', disk_format = ''raw'', disk_serial = ''data'',
         disk_boot_index = 2, disk_read_only = True, disk_cache = ''none''\<rparr>],
     cfg_network = \<lparr>net_mode = ''user'', net_mac = ''52:54:00:12:34:56'',
       net_forwards =
         [\<lparr>fwd_protocol = ''tcp'', fwd_host_address = ''127.0.0.1'', fwd_host_port = 2222, fwd_guest_port = 22\<rparr>,
          \<lparr>fwd_protocol = ''udp'', fwd_host_address = ''0.0.0.0'', fwd_host_port = 2222, fwd_guest_port = 53\<rparr>],
       net_socket_vmnet = None, net_smb_folder = ''''\<rparr>,
     cfg_guest_agent_enabled = True,
     cfg_vnc = Some \<lparr>vnc_bind = ''127.0.0.1'', vnc_port = 5901, vnc_port_to = 5901,
       vnc_password = ''secret'', vnc_keyboard_layout = ''en-gb''\<rparr>,
     cfg_metrics = Some \<lparr>met_port = 9101\<rparr>,
     cfg_usb =
       [\<lparr>usb_vendor_id = ''10c4'', usb_product_id = ''ea60'', usb_host_bus = 0, usb_host_address = 0\<rparr>,
        \<lparr>usb_vendor_id = '''', usb_product_id = '''', usb_host_bus = 1, usb_host_address = 4\<rparr>],
     cfg_qemu = \<lparr>qemu_binary = '''', qemu_image_tool = '''', qemu_machine = ''virt-9.2'',
       qemu_rtc_base = ''utc'', qemu_extra_args = [''-overcommit'', ''mem-lock=off'']\<rparr>,
     cfg_autostart_scope = ''none''\<rparr>"

lemma sample_config_valid: "Validate sample_config = None"
  by code_simp

text \<open>C6. \<open>Validate\<close> accepts a configuration exactly when it is well-formed: the loops over disks,
  forwards and USB devices, with their maps of what was seen, implement the declarative contract
  (ranges, patterns, pairwise distinct boot indexes, serials, endpoints and selectors, one network
  mode, no clash of fixed TCP listeners).\<close>

theorem Validate_refines_wf_config: "(Validate c = None) = wf_config c"
  by (rule Validate_None_iff)

text \<open>In an accepted configuration no two fixed TCP listeners (forwards, the metrics endpoint
  on loopback, a VNC listener without a fallback range) claim the same host port on overlapping
  addresses.\<close>

lemma valid_listeners_disjoint:
  assumes "Validate c = None" and "i < length (tcp_listeners c)" and "j < length (tcp_listeners c)"
    and "i \<noteq> j" and "snd (tcp_listeners c ! i) = snd (tcp_listeners c ! j)"
  shows "\<not> tcpBindAddressesOverlap (fst (tcp_listeners c ! i)) (fst (tcp_listeners c ! j))"
proof -
  have "sorted_wrt (\<lambda>a b. \<not> binds_clash a b) (tcp_listeners c)"
    using assms(1) by (simp add: Validate_None_iff wf_config_def wf_ports_def)
  have "\<not> binds_clash (tcp_listeners c ! i) (tcp_listeners c ! j)"
  proof (cases "i < j")
    case True
    show ?thesis by (rule sorted_wrt_nth_less [OF \<open>sorted_wrt _ _\<close> True assms(3)])
  next
    case False
    then have "j < i" using assms(4) by simp
    from sorted_wrt_nth_less [OF \<open>sorted_wrt _ _\<close> this assms(2)] show ?thesis
      by (subst binds_clash_sym)
  qed
  then show ?thesis using assms(5) by (simp add: binds_clash_def)
qed

definition clash_free_config :: Config where
  "clash_free_config = sample_config\<lparr>cfg_network := (cfg_network sample_config)\<lparr>net_forwards :=
     [\<lparr>fwd_protocol = ''tcp'', fwd_host_address = ''127.0.0.1'', fwd_host_port = 8080, fwd_guest_port = 80\<rparr>,
      \<lparr>fwd_protocol = ''tcp'', fwd_host_address = ''10.0.0.2'', fwd_host_port = 8080, fwd_guest_port = 81\<rparr>]\<rparr>\<rparr>"

lemma clash_free_listeners:
  "tcp_listeners clash_free_config =
     [(''127.0.0.1'', 8080), (''10.0.0.2'', 8080), (''127.0.0.1'', 9101), (''127.0.0.1'', 5901)]"
  by (simp add: tcp_listeners_def clash_free_config_def sample_config_def is_tcp_def)

lemma clash_free_config_valid: "Validate clash_free_config = None"
proof -
  have wf: "wf_config sample_config" using sample_config_valid by (simp add: Validate_None_iff)
  have ip: "parse_ip4_literal ''127.0.0.1'' \<noteq> None" "parse_ip4_literal ''10.0.0.2'' \<noteq> None"
    by code_simp+
  have "wf_network (cfg_network clash_free_config)"
    using wf ip by (simp add: wf_config_def wf_network_def clash_free_config_def forward_ok_def
        forward_endpoint_def network_mode_error_def sample_config_def model_consts)
  moreover have "wf_ports clash_free_config"
    by (simp add: wf_ports_def clash_free_listeners binds_clash_def tcpBindAddressesOverlap_def)
  moreover have "wf_scalars clash_free_config" "wf_storage clash_free_config"
    "wf_vnc clash_free_config" "wf_usb clash_free_config"
    using wf by (simp_all add: wf_config_def clash_free_config_def wf_scalars_def wf_storage_def
        boot_indexes_def wf_vnc_def wf_usb_def)
  ultimately show ?thesis by (simp add: Validate_None_iff wf_config_def)
qed

lemma valid_listeners_disjoint_witness:
  "\<not> tcpBindAddressesOverlap (fst (tcp_listeners clash_free_config ! 0))
       (fst (tcp_listeners clash_free_config ! 1))"
  using valid_listeners_disjoint [OF clash_free_config_valid, of 0 1]
  by (simp add: clash_free_listeners)

text \<open>In an accepted configuration two USB entries never select the same host device, whether
  they name it by vendor and product or by bus and address, and there are at most two entries
  when VNC claims the other ports.\<close>

lemma valid_usb_devices_distinct:
  assumes "Validate c = None" and "i < length (cfg_usb c)" and "j < length (cfg_usb c)" and "i \<noteq> j"
  shows "(usb_vendor_id (cfg_usb c ! i), usb_product_id (cfg_usb c ! i),
          usb_host_bus (cfg_usb c ! i), usb_host_address (cfg_usb c ! i)) \<noteq>
         (usb_vendor_id (cfg_usb c ! j), usb_product_id (cfg_usb c ! j),
          usb_host_bus (cfg_usb c ! j), usb_host_address (cfg_usb c ! j))
    \<and> length (cfg_usb c) \<le> (if cfg_vnc c \<noteq> None then 2 else 4)"
proof -
  have wf: "wf_usb c" using assms(1) by (simp add: Validate_None_iff wf_config_def)
  then have "usb_selector (cfg_usb c ! i) \<noteq> usb_selector (cfg_usb c ! j)"
    using assms(2-4) by (auto simp: wf_usb_def distinct_conv_nth)
  then show ?thesis
    using wf assms(2,3) usb_selector_inj by (auto simp: wf_usb_def)
qed

lemma valid_usb_devices_distinct_witness:
  "usb_vendor_id (cfg_usb sample_config ! 0) \<noteq> usb_vendor_id (cfg_usb sample_config ! 1)"
  using valid_usb_devices_distinct [OF sample_config_valid, of 0 1]
  by (simp add: sample_config_def)

fun apply_chain :: "Config \<Rightarrow> Config list \<Rightarrow> config_error + Config" where
  "apply_chain current [] = Inr current"
| "apply_chain current (r # rs) =
     (case ValidateApply current r of Some e \<Rightarrow> Inl e | None \<Rightarrow> apply_chain r rs)"

text \<open>However many replacements \<open>config apply\<close> has accepted one after the other, the stored
  configuration is valid and has the identity it was created with: schema version, ID, name,
  backend, architecture and autostart scope never change.\<close>

lemma apply_chain_keeps_identity:
  assumes "apply_chain c rs = Inr d" and "Validate c = None"
  shows "Validate d = None \<and> cfg_schema_version d = cfg_schema_version c \<and> cfg_id d = cfg_id c
    \<and> cfg_name d = cfg_name c \<and> cfg_backend d = cfg_backend c
    \<and> cfg_architecture d = cfg_architecture c \<and> cfg_autostart_scope d = cfg_autostart_scope c"
  using assms
proof (induction rs arbitrary: c)
  case (Cons r rs)
  then have ok: "ValidateApply c r = None" and rest: "apply_chain r rs = Inr d"
    by (auto split: option.splits)
  from ok have "Validate r = None" by (simp add: ValidateApply_None_iff Validate_None_iff)
  from Cons.IH [OF rest this] ok show ?case by (simp add: ValidateApply_None_iff)
qed simp

lemma apply_chain_keeps_identity_witness:
  "cfg_id (sample_config\<lparr>cfg_cpus := 8\<rparr>) = cfg_id sample_config"
proof -
  have "apply_chain sample_config [sample_config\<lparr>cfg_cpus := 2\<rparr>, sample_config\<lparr>cfg_cpus := 8\<rparr>]
      = Inr (sample_config\<lparr>cfg_cpus := 8\<rparr>)"
  proof -
    have valid: "Validate (sample_config\<lparr>cfg_cpus := n\<rparr>) = None" if "n \<in> {1..64}" for n
      using sample_config_valid that
      by (simp add: Validate_None_iff wf_config_def wf_scalars_def wf_storage_def boot_indexes_def
          wf_vnc_def wf_usb_def wf_ports_def tcp_listeners_def)
    have "Validate (sample_config\<lparr>cfg_cpus := 2\<rparr>) = None"
      "Validate (sample_config\<lparr>cfg_cpus := 8\<rparr>) = None"
      by (rule valid, simp)+
    then show ?thesis
      using sample_config_valid by (simp add: ValidateApply_def)
  qed
  from apply_chain_keeps_identity [OF this sample_config_valid] show ?thesis by simp
qed

text \<open>The generators produce what the validator accepts, whatever the random source returns:
  an ID of 32 lowercase hexadecimal digits, an RFC 4122 version 4 UUID and a locally administered
  unicast MAC; different random bytes give different IDs.\<close>

lemma generated_identity_valid:
  assumes "read 16 = Some rs" and "length rs = 16" and "read 6 = Some ms" and "length ms = 6"
  shows "(\<exists>i. GenerateID read = Some i \<and> idPattern i \<and> hex_decode i = Some rs)
    \<and> (\<exists>u. GenerateUUIDv4 read = Some u \<and> validUUIDv4 u)
    \<and> (\<exists>m. GenerateMAC read = Some m \<and> local_unicast_mac m)"
  using assms uuid_text_valid [of "uuid_stamp rs"] uuid_stamp_bits mac_stamp_local
  by (auto simp: GenerateID_def GenerateUUIDv4_def GenerateMAC_def idPattern_def hex_encode_lower
      hex_decode_encode)

lemma generated_identity_valid_witness:
  "\<exists>m. GenerateMAC (\<lambda>n. Some (replicate n 255)) = Some m \<and> local_unicast_mac m"
  using generated_identity_valid [of "\<lambda>n. Some (replicate n 255)" "replicate 16 255" "replicate 6 255"]
  by simp

text \<open>The surrogate scan accepts every well-formed JSON string body and stops at its closing
  quote, wherever the string stands in the document.\<close>

lemma json_scan_accepts_well_formed:
  assumes "\<forall>t \<in> set ts. tok_ok t"
  shows "validateJSONStringUnicode (pre @ render_toks ts @ CHR 0x22 # post) (length pre)
    = Inr (length pre + length (render_toks ts))"
  unfolding scan_toks [OF assms, of pre "CHR 0x22 # post"]
  by (subst validateJSONStringUnicode.simps) (simp add: nth_append)

lemma json_scan_accepts_well_formed_witness:
  "validateJSONStringUnicode (render_toks [Plain CHR ''a'', Short CHR 0x22, Unit ''00e9'',
     Pair ''D83D'' ''de00''] @ [CHR 0x22]) 0
   = Inr (length (render_toks [Plain CHR ''a'', Short CHR 0x22, Unit ''00e9'', Pair ''D83D'' ''de00'']))"
proof -
  have "list_all tok_ok [Plain CHR ''a'', Short CHR 0x22, Unit ''00e9'', Pair ''D83D'' ''de00'']"
    by code_simp
  then have "\<forall>t \<in> set [Plain CHR ''a'', Short CHR 0x22, Unit ''00e9'', Pair ''D83D'' ''de00'']. tok_ok t"
    by (simp only: list_all_iff)
  from json_scan_accepts_well_formed [OF this, of "[]" "[]"] show ?thesis by simp
qed

text \<open>An unpaired surrogate escape is refused after any well-formed beginning of a string: a low
  surrogate always, a high surrogate when at least six bytes follow that do not begin another
  escape.\<close>

lemma json_scan_rejects_unpaired:
  assumes "\<forall>t \<in> set ts. tok_ok t"
  shows "(low_surrogate h \<longrightarrow>
      validateJSONStringUnicode (pre @ render_toks ts @ uesc h @ post) (length pre) = Inl JSONUnpairedSurrogate)
    \<and> (high_surrogate h \<and> 6 \<le> length post \<and> take 2 post \<noteq> [CHR 0x5C, CHR ''u''] \<longrightarrow>
      validateJSONStringUnicode (pre @ render_toks ts @ uesc h @ post) (length pre) = Inl JSONUnpairedSurrogate)"
proof (intro conjI impI)
  assume "low_surrogate h"
  then show "validateJSONStringUnicode (pre @ render_toks ts @ uesc h @ post) (length pre)
      = Inl JSONUnpairedSurrogate"
    unfolding scan_toks_then [OF assms] by (rule scan_low)
next
  assume h: "high_surrogate h \<and> 6 \<le> length post \<and> take 2 post \<noteq> [CHR 0x5C, CHR ''u'']"
  then have "2 \<le> length post" by simp
  then obtain a b r where "post = a # b # r"
    by (auto simp: Suc_le_length_iff numeral_2_eq_2)
  with h have "post ! 0 \<noteq> CHR 0x5C \<or> post ! 1 \<noteq> CHR ''u''" by auto
  with h show "validateJSONStringUnicode (pre @ render_toks ts @ uesc h @ post) (length pre)
      = Inl JSONUnpairedSurrogate"
    unfolding scan_toks_then [OF assms] using scan_high [of h "pre @ render_toks ts" post] by simp
qed

lemma json_scan_rejects_unpaired_witness:
  "validateJSONStringUnicode (''{'' @ render_toks [Plain CHR ''x''] @ uesc ''DC00'' @ ''ab'') 1
   = Inl JSONUnpairedSurrogate"
proof -
  have "\<forall>t \<in> set [Plain CHR ''x'']. tok_ok t" by simp
  moreover have "low_surrogate ''DC00''" by code_simp
  ultimately show ?thesis
    using json_scan_rejects_unpaired [of "[Plain CHR ''x'']" "''DC00''" "''{''" "''ab''"] by simp
qed

text \<open>The scan lets an unpaired high surrogate through when fewer than six bytes of the document
  follow it: it treats the end of the document as a truncated escape, so a document whose last
  string ends in a lone high surrogate passes the check that is meant to refuse it.\<close>

lemma json_scan_misses_trailing_high:
  assumes "\<forall>t \<in> set ts. tok_ok t" and "high_surrogate h" and "length post < 6"
  shows "\<exists>j. validateJSONStringUnicode (pre @ render_toks ts @ uesc h @ post) (length pre) = Inr j
    \<and> j = length (pre @ render_toks ts @ uesc h @ post)"
  unfolding scan_toks_then [OF assms(1)]
  using assms(2,3) scan_high [of h "pre @ render_toks ts" post]
  by (simp add: high_surrogate_def)

lemma json_scan_misses_trailing_high_witness:
  "\<exists>j. validateJSONStringUnicode (''['' @ render_toks [] @ uesc ''D800'' @ [CHR 0x22, CHR '']'']) 1 = Inr j
     \<and> j = 9"
proof -
  have "high_surrogate ''D800''" by code_simp
  then show ?thesis
    using json_scan_misses_trailing_high [of "[]" "''D800''" "[CHR 0x22, CHR '']'']" "''[''"]
    by (simp add: render_toks_def)
qed

text \<open>No spelling of a manager-owned QEMU option gets into an accepted configuration: with one
  dash or two, alone or with an attached \<open>=value\<close>, the argument is refused.\<close>

lemma owned_options_never_pass:
  assumes "Validate c = None" and "opt \<in> set managerOwnedQEMUOptions"
  shows "''-'' @ opt \<notin> set (qemu_extra_args (cfg_qemu c))
    \<and> ''--'' @ opt \<notin> set (qemu_extra_args (cfg_qemu c))
    \<and> ''-'' @ opt @ ''='' @ v \<notin> set (qemu_extra_args (cfg_qemu c))
    \<and> ''--'' @ opt @ ''='' @ v \<notin> set (qemu_extra_args (cfg_qemu c))"
proof -
  have opts: "list_all (\<lambda>opt. opt \<noteq> [] \<and> CHR ''='' \<notin> set opt \<and> hd opt \<noteq> CHR ''-'')
      managerOwnedQEMUOptions"
    by (simp add: managerOwnedQEMUOptions_def)
  then have opt: "opt \<noteq> []" "CHR ''='' \<notin> set opt" "hd opt \<noteq> CHR ''-''"
    using assms(2) by (auto simp: list_all_iff)
  have cuts: "cut CHR ''='' opt = None" "cut CHR ''='' (opt @ CHR ''='' # v) = Some (opt, v)"
    using opt(2) by (simp_all add: cut_None_iff cut_append)
  have "forbiddenQEMUArg (''-'' @ opt)" "forbiddenQEMUArg (''--'' @ opt)"
    "forbiddenQEMUArg (''-'' @ opt @ ''='' @ v)" "forbiddenQEMUArg (''--'' @ opt @ ''='' @ v)"
    using opt cuts assms(2)
    by (auto simp: forbiddenQEMUArg_def Let_def trim_prefix_def has_prefix_def neq_Nil_conv)
  moreover have "\<forall>arg \<in> set (qemu_extra_args (cfg_qemu c)). \<not> forbiddenQEMUArg arg"
    using assms(1) by (simp add: Validate_None_iff wf_config_def wf_scalars_def)
  ultimately show ?thesis by blast
qed

lemma owned_options_never_pass_witness:
  "''--qmp=unix:/tmp/q'' \<notin> set (qemu_extra_args (cfg_qemu sample_config))"
  using owned_options_never_pass [OF sample_config_valid, of "''qmp''" "''unix:/tmp/q''"]
  by (simp add: managerOwnedQEMUOptions_def)

end
