(* ===== verification/Codec.thy ===== *)
theory Codec
  imports Model
begin

text \<open>
  The encode and decode paths of \<open>internal/model\<close>: \<open>Decode\<close>, \<open>CanonicalJSON\<close> and the
  configuration hash. The reflection-driven parts of \<open>encoding/json\<close> and the compression function
  of SHA-256 are the fields of a record of library functions; every check and early return of the
  source around them is modelled.
\<close>

definition ConfigSchemaURL :: string where
  "ConfigSchemaURL = ''https://raw.githubusercontent.com/bradsjm/qemu-manage/main/schema.json''"

text \<open>\<open>js_value\<close>: the first JSON value of the input and the rest; \<open>js_eof\<close>: only white space is
  left; \<open>js_strict\<close>: decoding without unknown fields, with the raw \<open>$schema\<close> member if there is
  one; \<open>js_string\<close>: a string or null; \<open>js_marshal\<close>: \<open>MarshalIndent\<close>, with a schema annotation
  or without.\<close>

record library =
  js_value :: "string \<Rightarrow> (string \<times> string) option"
  js_eof :: "string \<Rightarrow> bool"
  js_strict :: "string \<Rightarrow> (string option \<times> Config) option"
  js_string :: "string \<Rightarrow> string option option"
  js_marshal :: "string option \<Rightarrow> Config \<Rightarrow> string option"
  sha256 :: "string \<Rightarrow> u8 list"

datatype decode_error =
    RawUnicode json_error | DecodeSyntax | TrailingData | NotAnObject | DecodeStrict
  | BadSchemaURL | Invalid config_error

definition is_space :: "char \<Rightarrow> bool" where
  "is_space c \<longleftrightarrow> byte_in 9 13 c \<or> c = CHR 0x20"

definition trim_space :: "string \<Rightarrow> string" where
  "trim_space s = rev (dropWhile is_space (rev (dropWhile is_space s)))"

definition schema_accepted :: "library \<Rightarrow> string option \<Rightarrow> bool" where
  "schema_accepted L schema =
     (case schema of None \<Rightarrow> True | Some raw \<Rightarrow> js_string L raw = Some (Some ConfigSchemaURL))"

definition Decode :: "library \<Rightarrow> string \<Rightarrow> decode_error + Config" where
  "Decode L data =
     (case validateRawJSONUnicode data of
        Some e \<Rightarrow> Inl (RawUnicode e)
      | None \<Rightarrow>
          (case js_value L data of
             None \<Rightarrow> Inl DecodeSyntax
           | Some (raw, rest) \<Rightarrow>
               if \<not> js_eof L rest then Inl TrailingData
               else if trim_space raw = [] \<or> hd (trim_space raw) \<noteq> CHR ''{'' then Inl NotAnObject
               else case js_strict L raw of
                 None \<Rightarrow> Inl DecodeStrict
               | Some (schema, config) \<Rightarrow>
                   if \<not> schema_accepted L schema then Inl BadSchemaURL
                   else case Validate config of
                     Some e \<Rightarrow> Inl (Invalid e)
                   | None \<Rightarrow> Inr config))"

datatype encode_error = EncodeInvalid config_error | EncodeFailed

definition CanonicalJSON :: "library \<Rightarrow> Config \<Rightarrow> encode_error + string" where
  "CanonicalJSON L config =
     (case Validate config of
        Some e \<Rightarrow> Inl (EncodeInvalid e)
      | None \<Rightarrow>
          (case js_marshal L (Some ConfigSchemaURL) config of
             None \<Rightarrow> Inl EncodeFailed
           | Some data \<Rightarrow> Inr (data @ [CHR 0x0A])))"

definition ConfigSHA256 :: "library \<Rightarrow> Config \<Rightarrow> encode_error + u8 list" where
  "ConfigSHA256 L config =
     (case Validate config of
        Some e \<Rightarrow> Inl (EncodeInvalid e)
      | None \<Rightarrow>
          (case js_marshal L None config of
             None \<Rightarrow> Inl EncodeFailed
           | Some data \<Rightarrow> Inr (sha256 L (data @ [CHR 0x0A]))))"

definition Hash :: "library \<Rightarrow> Config \<Rightarrow> encode_error + string" where
  "Hash L config = bindE (ConfigSHA256 L config) (\<lambda>h. Inr (hex_encode h))"

lemma Decode_valid: "Decode L data = Inr c \<Longrightarrow> Validate c = None"
  by (auto simp: Decode_def split: option.splits prod.splits if_splits)

lemma CanonicalJSON_valid: "CanonicalJSON L c = Inr data \<Longrightarrow> Validate c = None"
  by (auto simp: CanonicalJSON_def split: option.splits)

text \<open>What the program relies on of the library for one configuration: its canonical text decodes to
  it. Go documents this for structs whose strings are valid UTF-8.\<close>

definition text_decodes :: "library \<Rightarrow> Config \<Rightarrow> bool" where
  "text_decodes L c \<longleftrightarrow>
     (case js_marshal L (Some ConfigSchemaURL) c of
        None \<Rightarrow> False
      | Some data \<Rightarrow>
          validateRawJSONUnicode (data @ [CHR 0x0A]) = None
          \<and> (\<exists>rest schema. js_value L (data @ [CHR 0x0A]) = Some (data, rest) \<and> js_eof L rest
             \<and> js_strict L data = Some (Some schema, c)
             \<and> js_string L schema = Some (Some ConfigSchemaURL))
          \<and> has_prefix data ''{'')"

lemma trim_space_brace: "has_prefix s ''{'' \<Longrightarrow> trim_space s \<noteq> [] \<and> hd (trim_space s) = CHR ''{''"
proof -
  assume "has_prefix s ''{''"
  then obtain t where s: "s = CHR ''{'' # t" by (auto simp: has_prefix_iff)
  have brace: "\<not> is_space CHR ''{''" by (simp add: is_space_def byte_in_def)
  then have "dropWhile is_space s = s" by (simp add: s)
  moreover have "rev (dropWhile is_space (rev s)) = CHR ''{'' # rev (dropWhile is_space (rev t))"
    by (simp add: s brace dropWhile_append)
  ultimately show ?thesis by (simp add: trim_space_def)
qed

lemma Decode_CanonicalJSON:
  "Validate c = None \<Longrightarrow> text_decodes L c \<Longrightarrow>
   \<exists>data. CanonicalJSON L c = Inr data \<and> Decode L data = Inr c"
  using trim_space_brace
  by (fastforce simp: text_decodes_def CanonicalJSON_def Decode_def schema_accepted_def
      split: option.splits)

text \<open>A library for the witnesses: one configuration is written as an object and read back.\<close>

definition sample_library :: library where
  "sample_library =
     \<lparr>js_value = (\<lambda>s. Some (take 2 s, drop 2 s)),
      js_eof = (\<lambda>s. list_all is_space s),
      js_strict = (\<lambda>s. Some (Some ConfigSchemaURL, sample_config)),
      js_string = (\<lambda>s. Some (Some s)),
      js_marshal = (\<lambda>_ _. Some ''{}''),
      sha256 = (\<lambda>s. replicate 32 (word_of_nat (length s)))\<rparr>"

lemma sample_library_decodes: "text_decodes sample_library sample_config"
proof -
  have "validateRawJSONUnicode [CHR ''{'', CHR ''}'', CHR 0x0A] = None" by code_simp
  then show ?thesis
    by (simp add: text_decodes_def sample_library_def is_space_def byte_in_def has_prefix_def)
qed

end
