(* ===== verification/Host.thy ===== *)
theory Host
  imports Prelude
begin

text \<open>
  The Unix host as the store, the supervisor and launchd see it: a tree of nodes keyed by absolute
  path, the inodes that are flocked, the user, and an environment that may fail any system call
  (\<open>h_fault\<close>). It models the operating system calls of \<open>os\<close>, \<open>path/filepath\<close> and \<open>unix\<close> that
  the program uses. An operation takes the host and returns its result with the new host, on
  errors too. The second half is the advisory lock of \<open>store/lock_unix.go\<close> and its interface.
\<close>

section \<open>Nodes and the host\<close>

datatype node =
    Dir (node_uid: nat) (node_mode: nat)
  | File (node_inode: nat) (node_uid: nat) (node_mode: nat) (node_data: string)
  | Symlink (to_dir: bool)
  | Special (node_uid: nat) (node_mode: nat)

datatype sysop =
    SysLstat | SysMkdir | SysOpen | SysFchmod | SysFstat | SysFlock | SysReadDir | SysRead
  | SysCreateTemp | SysWrite | SysSync | SysClose | SysRename | SysOpenDir | SysSyncDir
  | SysRemoveAll | SysRemove | SysTruncate

datatype sys_error = ENOENT | EEXIST | ENOTDIR | ELOOP | EISDIR | EFAULTED sysop
  | NotRealDirectory | NotRegular | WrongOwner nat | WrongMode nat

record host =
  h_fs :: "string \<rightharpoonup> node"
  h_locks :: "nat set"
  h_inode :: nat
  h_uid :: nat
  h_fault :: "sysop \<Rightarrow> string \<Rightarrow> bool"

text \<open>Modes: owner-only directories (0700) and files (0600).\<close>

definition mode_dir :: nat where "mode_dir = 448"
definition mode_file :: nat where "mode_file = 384"

section \<open>Sequencing\<close>

type_synonym ('e, 'a) action = "('e + 'a) \<times> host"

definition then_do :: "('e, 'a) action \<Rightarrow> ('a \<Rightarrow> host \<Rightarrow> ('e, 'b) action) \<Rightarrow> ('e, 'b) action" where
  "then_do r k = (case r of (Inl e, h) \<Rightarrow> (Inl e, h) | (Inr x, h) \<Rightarrow> k x h)"

definition wrap_err :: "('e \<Rightarrow> 'f) \<Rightarrow> ('e, 'a) action \<Rightarrow> ('f, 'a) action" where
  "wrap_err f r = (case r of (Inl e, h) \<Rightarrow> (Inl (f e), h) | (Inr x, h) \<Rightarrow> (Inr x, h))"

lemma then_do_simps [simp]:
  "then_do (Inl e, h) k = (Inl e, h)" "then_do (Inr x, h) k = k x h"
  by (simp_all add: then_do_def)

lemma wrap_err_simps [simp]:
  "wrap_err f (Inl e, h) = (Inl (f e), h)" "wrap_err f (Inr x, h) = (Inr x, h)"
  by (simp_all add: wrap_err_def)

lemma then_do_Inr [err_simps]:
  "then_do r k = (Inr y, h') \<longleftrightarrow> (\<exists>x h. r = (Inr x, h) \<and> k x h = (Inr y, h'))"
  by (auto simp: then_do_def split: prod.splits sum.splits)

lemma then_do_Inl [err_simps]:
  "then_do r k = (Inl e, h') \<longleftrightarrow>
     r = (Inl e, h') \<or> (\<exists>x h. r = (Inr x, h) \<and> k x h = (Inl e, h'))"
  by (auto simp: then_do_def split: prod.splits sum.splits)

lemma wrap_err_Inr [err_simps]: "wrap_err f r = (Inr y, h') \<longleftrightarrow> r = (Inr y, h')"
  by (auto simp: wrap_err_def split: prod.splits sum.splits)

lemma wrap_err_Inl [err_simps]:
  "wrap_err f r = (Inl e, h') \<longleftrightarrow> (\<exists>e0. r = (Inl e0, h') \<and> e = f e0)"
  by (auto simp: wrap_err_def split: prod.splits sum.splits)

text \<open>An operation's effect on the host, whatever its result.\<close>

lemma snd_then_do:
  "snd (then_do r k) = (case fst r of Inl _ \<Rightarrow> snd r | Inr x \<Rightarrow> snd (k x (snd r)))"
  by (auto simp: then_do_def split: prod.splits sum.splits)

lemma then_do_rel:
  assumes "Q h (snd r)" and "\<And>x. Q (snd r) (snd (k x (snd r)))"
    and "\<And>a b c. Q a b \<Longrightarrow> Q b c \<Longrightarrow> Q a c"
  shows "Q h (snd (then_do r k))"
  using assms by (auto simp: snd_then_do split: sum.splits)

lemma snd_wrap_err [simp]: "snd (wrap_err f r) = snd r"
  by (auto simp: wrap_err_def split: prod.splits sum.splits)

section \<open>Paths\<close>

definition join_path :: "string \<Rightarrow> string \<Rightarrow> string" where
  "join_path a b = a @ CHR ''/'' # b"

definition parent_dir :: "string \<Rightarrow> string" where
  "parent_dir p = rev (drop 1 (dropWhile (\<lambda>c. c \<noteq> CHR ''/'') (rev p)))"

definition under :: "string \<Rightarrow> string \<Rightarrow> bool" where
  "under root p \<longleftrightarrow> p = root \<or> has_prefix p (join_path root [])"

lemma parent_join: "CHR ''/'' \<notin> set b \<Longrightarrow> parent_dir (join_path a b) = a"
  by (simp add: parent_dir_def join_path_def dropWhile_append)

lemma under_refl [simp]: "under p p"
  by (simp add: under_def)

lemma under_join [simp]: "under a (join_path a b)"
  by (simp add: under_def join_path_def has_prefix_def)

lemma under_trans: "under a b \<Longrightarrow> under b c \<Longrightarrow> under a c"
  by (auto simp: under_def has_prefix_iff join_path_def)

lemma parent_dir_shorter: "p \<noteq> [] \<Longrightarrow> length (parent_dir p) < length p"
proof -
  assume "p \<noteq> []"
  have "length (dropWhile (\<lambda>c. c \<noteq> CHR ''/'') (rev p)) \<le> length p"
    using length_dropWhile_le [of _ "rev p"] by simp
  moreover from \<open>p \<noteq> []\<close> have "0 < length p" by simp
  ultimately show ?thesis by (simp only: parent_dir_def length_rev length_drop)
qed

section \<open>System calls\<close>

definition lstat :: "host \<Rightarrow> string \<Rightarrow> sys_error + node" where
  "lstat h p =
     (if h_fault h SysLstat p then Inl (EFAULTED SysLstat)
      else case h_fs h p of None \<Rightarrow> Inl ENOENT | Some n \<Rightarrow> Inr n)"

definition is_dir_at :: "host \<Rightarrow> string \<Rightarrow> bool" where
  "is_dir_at h p = (case h_fs h p of Some (Dir _ _) \<Rightarrow> True | Some (Symlink d) \<Rightarrow> d | _ \<Rightarrow> p = [])"

definition mkdir :: "host \<Rightarrow> string \<Rightarrow> (sys_error, unit) action" where
  "mkdir h p =
     (if h_fault h SysMkdir p then (Inl (EFAULTED SysMkdir), h)
      else if h_fs h p \<noteq> None then (Inl EEXIST, h)
      else if \<not> is_dir_at h (parent_dir p) then (Inl ENOENT, h)
      else (Inr (), h\<lparr>h_fs := (h_fs h)(p \<mapsto> Dir (h_uid h) mode_dir)\<rparr>))"

text \<open>\<open>os.MkdirAll\<close>: nothing to do on an existing directory (a link to one counts), else the
  parents first.\<close>

function mkdir_all :: "host \<Rightarrow> string \<Rightarrow> (sys_error, unit) action" where
  "mkdir_all h p =
     (if is_dir_at h p then (Inr (), h)
      else if h_fs h p \<noteq> None then (Inl ENOTDIR, h)
      else if p = [] then (Inl ENOENT, h)
      else then_do (mkdir_all h (parent_dir p)) (\<lambda>_ h'. mkdir h' p))"
  by pat_completeness auto
termination
  by (relation "measure (\<lambda>(h, p). length p)") (auto simp: parent_dir_shorter)

declare mkdir_all.simps [simp del]

definition remove_all :: "host \<Rightarrow> string \<Rightarrow> (sys_error, unit) action" where
  "remove_all h p =
     (if h_fault h SysRemoveAll p then (Inl (EFAULTED SysRemoveAll), h)
      else (Inr (), h\<lparr>h_fs := (\<lambda>q. if under p q then None else h_fs h q)\<rparr>))"

text \<open>What an operation may change: nodes inside a set of paths; never the user or the faults.\<close>

definition frame :: "(string \<Rightarrow> bool) \<Rightarrow> host \<Rightarrow> host \<Rightarrow> bool" where
  "frame P h h' \<longleftrightarrow> h_uid h' = h_uid h \<and> h_fault h' = h_fault h
     \<and> (\<forall>p. \<not> P p \<longrightarrow> h_fs h' p = h_fs h p)"

lemma frame_refl [simp, intro]: "frame P h h"
  by (simp add: frame_def)

lemma frame_trans: "frame P h h' \<Longrightarrow> frame P h' h'' \<Longrightarrow> frame P h h''"
  by (simp add: frame_def)

lemma frame_mono: "frame P h h' \<Longrightarrow> (\<And>p. P p \<Longrightarrow> Q p) \<Longrightarrow> frame Q h h'"
  by (auto simp: frame_def)

lemma mkdir_frame: "frame ((=) p) h (snd (mkdir h p))"
  by (auto simp: mkdir_def frame_def)

lemma remove_all_frame: "frame (under p) h (snd (remove_all h p))"
  by (auto simp: remove_all_def frame_def)

text \<open>Creating directories only adds the user's own directories.\<close>

definition grows :: "host \<Rightarrow> host \<Rightarrow> bool" where
  "grows h h' \<longleftrightarrow> h_uid h' = h_uid h \<and> h_fault h' = h_fault h \<and> h_locks h' = h_locks h
     \<and> h_inode h' = h_inode h
     \<and> (\<forall>p. h_fs h' p = h_fs h p \<or> h_fs h p = None \<and> h_fs h' p = Some (Dir (h_uid h) mode_dir))"

lemma grows_refl [simp, intro]: "grows h h"
  by (simp add: grows_def)

lemma grows_trans: "grows h h' \<Longrightarrow> grows h' h'' \<Longrightarrow> grows h h''"
  by (simp add: grows_def) metis

lemma grows_keeps: "grows h h' \<Longrightarrow> h_fs h p = Some n \<Longrightarrow> h_fs h' p = Some n"
  by (auto simp: grows_def) (metis option.distinct(1))

lemma mkdir_grows: "grows h (snd (mkdir h p))"
  by (auto simp: mkdir_def grows_def)

lemma mkdir_all_grows: "grows h (snd (mkdir_all h p))"
proof (induction h p rule: mkdir_all.induct)
  case (1 h p)
  show ?case
  proof (cases "is_dir_at h p \<or> h_fs h p \<noteq> None \<or> p = []")
    case True
    then show ?thesis by (subst mkdir_all.simps) auto
  next
    case False
    then have "grows h (snd (mkdir_all h (parent_dir p)))" using "1.IH" by auto
    with False show ?thesis
      by (subst mkdir_all.simps)
        (auto simp: snd_then_do intro: grows_trans mkdir_grows split: sum.splits)
  qed
qed

lemma mkdir_all_existing: "is_dir_at h p \<Longrightarrow> mkdir_all h p = (Inr (), h)"
  by (subst mkdir_all.simps) simp

section \<open>Owned directories and advisory locks (\<open>store/store.go\<close>, \<open>store/lock_unix.go\<close>)\<close>

definition inspectOwnedDirectory :: "host \<Rightarrow> string \<Rightarrow> sys_error option" where
  "inspectOwnedDirectory h path =
     (case lstat h path of
        Inl e \<Rightarrow> Some e
      | Inr info \<Rightarrow>
          (case info of
             Dir uid mode \<Rightarrow>
               if uid \<noteq> h_uid h then Some (WrongOwner uid)
               else if mode \<noteq> mode_dir then Some (WrongMode mode)
               else None
           | _ \<Rightarrow> Some NotRealDirectory))"

definition ensureOwnedDirectory :: "host \<Rightarrow> string \<Rightarrow> (sys_error, unit) action" where
  "ensureOwnedDirectory h path =
     then_do (mkdir_all h path)
       (\<lambda>_ h'. (case inspectOwnedDirectory h' path of None \<Rightarrow> Inr () | Some e \<Rightarrow> Inl e, h'))"

definition createOwnedDirectory :: "host \<Rightarrow> string \<Rightarrow> (sys_error, unit) action" where
  "createOwnedDirectory h path = then_do (mkdir h path) (\<lambda>_ h'. ensureOwnedDirectory h' path)"

text \<open>The outcome of a lock attempt: the descriptor's inode, a held lock reported to a nonblocking
  caller, or a blocking call that does not return while the lock is held.\<close>

datatype lock_outcome = Acquired nat | NotAcquired | Blocks

definition lock_validated ::
  "host \<Rightarrow> string \<Rightarrow> bool \<Rightarrow> nat \<Rightarrow> nat \<Rightarrow> nat \<Rightarrow> (sys_error, lock_outcome) action" where
  "lock_validated h path nonblocking ino uid mode =
     (if h_fault h SysFstat path then (Inl (EFAULTED SysFstat), h)
      else if uid \<noteq> h_uid h then (Inl (WrongOwner uid), h)
      else if mode \<noteq> mode_file then (Inl (WrongMode mode), h)
      else if h_fault h SysFlock path then (Inl (EFAULTED SysFlock), h)
      else if ino \<in> h_locks h then (Inr (if nonblocking then NotAcquired else Blocks), h)
      else (Inr (Acquired ino), h\<lparr>h_locks := insert ino (h_locks h)\<rparr>))"

definition openLock :: "host \<Rightarrow> string \<Rightarrow> bool \<Rightarrow> (sys_error, lock_outcome) action" where
  "openLock h path nonblocking =
     (if h_fault h SysOpen path then (Inl (EFAULTED SysOpen), h)
      else case h_fs h path of
        None \<Rightarrow>
          if \<not> is_dir_at h (parent_dir path) then (Inl ENOENT, h)
          else let ino = h_inode h;
                   h' = h\<lparr>h_fs := (h_fs h)(path \<mapsto> File ino (h_uid h) mode_file []), h_inode := Suc ino\<rparr>
               in if h_fault h SysFchmod path then (Inl (EFAULTED SysFchmod), h')
                  else lock_validated h' path nonblocking ino (h_uid h) mode_file
      | Some (File ino uid mode _) \<Rightarrow> lock_validated h path nonblocking ino uid mode
      | Some (Dir _ _) \<Rightarrow> (Inl EISDIR, h)
      | Some (Symlink _) \<Rightarrow> (Inl ELOOP, h)
      | Some (Special _ _) \<Rightarrow> (Inl NotRegular, h))"

definition unlock :: "nat \<Rightarrow> host \<Rightarrow> host" where
  "unlock ino h = h\<lparr>h_locks := h_locks h - {ino}\<rparr>"

definition openOwnedRegular :: "host \<Rightarrow> string \<Rightarrow> sys_error + string" where
  "openOwnedRegular h path =
     (if h_fault h SysOpen path then Inl (EFAULTED SysOpen)
      else case h_fs h path of
        None \<Rightarrow> Inl ENOENT
      | Some (Symlink _) \<Rightarrow> Inl ELOOP
      | Some (File ino uid mode content) \<Rightarrow>
          if h_fault h SysFstat path then Inl (EFAULTED SysFstat)
          else if uid \<noteq> h_uid h then Inl (WrongOwner uid)
          else if mode \<noteq> mode_file then Inl (WrongMode mode)
          else Inr content
      | Some _ \<Rightarrow> Inl NotRegular)"

text \<open>A lock at a path is held when the file the path names now is flocked.\<close>

definition lock_held :: "host \<Rightarrow> string \<Rightarrow> bool" where
  "lock_held h path =
     (case h_fs h path of Some (File ino _ _ _) \<Rightarrow> ino \<in> h_locks h | _ \<Rightarrow> False)"

text \<open>The interface the lifecycle and the store rely on: a nonblocking attempt, its release, and
  who holds what.\<close>

locale try_lock =
  fixes attempt :: "'h \<Rightarrow> string \<Rightarrow> ('e + lock_outcome) \<times> 'h"
    and release :: "nat \<Rightarrow> 'h \<Rightarrow> 'h"
    and held :: "'h \<Rightarrow> string \<Rightarrow> bool"
  assumes acquired: "attempt h p = (Inr (Acquired l), h') \<Longrightarrow> \<not> held h p \<and> held h' p"
    and refused: "attempt h p = (Inr NotAcquired, h') \<Longrightarrow> held h' p"
    and never_blocks: "fst (attempt h p) \<noteq> Inr Blocks"
    and released: "attempt h p = (Inr (Acquired l), h') \<Longrightarrow> \<not> held (release l h') p"
begin

lemma exclusive: "held h p \<Longrightarrow> attempt h p \<noteq> (Inr (Acquired l), h')"
  using acquired by blast

lemma second_attempt_fails:
  "attempt h p = (Inr (Acquired l), h1) \<Longrightarrow> attempt h1 p \<noteq> (Inr (Acquired l'), h2)"
  using acquired by blast

lemma outcome_cases:
  obtains e h' where "attempt h p = (Inl e, h')"
  | h' where "attempt h p = (Inr NotAcquired, h')" and "held h' p"
  | l h' where "attempt h p = (Inr (Acquired l), h')" and "\<not> held h p"
proof (cases "attempt h p")
  case (Pair r h')
  show ?thesis
  proof (cases r)
    case (Inl e)
    with Pair that(1) show ?thesis by simp
  next
    case (Inr out)
    then show ?thesis
      using Pair that(2,3) refused acquired never_blocks [of h p] by (cases out) auto
  qed
qed

end

lemma lock_validated_cases:
  assumes "lock_validated h p nb ino uid mode = (Inr out, h')"
  shows "ino \<in> h_locks h \<and> h' = h \<and> out = (if nb then NotAcquired else Blocks)
    \<or> ino \<notin> h_locks h \<and> h' = h\<lparr>h_locks := insert ino (h_locks h)\<rparr> \<and> out = Acquired ino"
  using assms by (auto simp: lock_validated_def split: if_splits)

lemma openLock_cases:
  assumes "openLock h p nb = (Inr out, h')"
  obtains ino uid mode content where "h_fs h p = Some (File ino uid mode content)"
    "lock_validated h p nb ino uid mode = (Inr out, h')"
  | h1 where "h_fs h p = None"
    "h1 = h\<lparr>h_fs := (h_fs h)(p \<mapsto> File (h_inode h) (h_uid h) mode_file []), h_inode := Suc (h_inode h)\<rparr>"
    "lock_validated h1 p nb (h_inode h) (h_uid h) mode_file = (Inr out, h')"
  using assms by (auto simp: openLock_def Let_def split: if_splits option.splits node.splits)

interpretation flock: try_lock "\<lambda>h p. openLock h p True" unlock lock_held
proof
  fix h p l h'
  assume "openLock h p True = (Inr (Acquired l), h')"
  then show "\<not> lock_held h p \<and> lock_held h' p"
    by (cases rule: openLock_cases) (auto simp: lock_held_def dest!: lock_validated_cases)
next
  fix h p h'
  assume "openLock h p True = (Inr NotAcquired, h')"
  then show "lock_held h' p"
    by (cases rule: openLock_cases) (auto simp: lock_held_def dest!: lock_validated_cases)
next
  fix h p
  show "fst (openLock h p True) \<noteq> Inr Blocks"
  proof
    assume "fst (openLock h p True) = Inr Blocks"
    then obtain h' where "openLock h p True = (Inr Blocks, h')" by (metis prod.collapse)
    then show False by (cases rule: openLock_cases) (auto dest!: lock_validated_cases)
  qed
next
  fix h p l h'
  assume "openLock h p True = (Inr (Acquired l), h')"
  then show "\<not> lock_held (unlock l h') p"
    by (cases rule: openLock_cases) (auto simp: lock_held_def unlock_def dest!: lock_validated_cases)
qed

lemma ensureOwnedDirectory_grows: "grows h (snd (ensureOwnedDirectory h p))"
  using mkdir_all_grows [of h p]
  by (auto simp: ensureOwnedDirectory_def snd_then_do split: sum.splits)

lemma createOwnedDirectory_grows: "grows h (snd (createOwnedDirectory h p))"
  by (auto simp: createOwnedDirectory_def snd_then_do split: sum.splits
      intro: grows_trans mkdir_grows ensureOwnedDirectory_grows)

lemma ensureOwnedDirectory_ok:
  "ensureOwnedDirectory h p = (Inr (), h') \<Longrightarrow> h_fs h' p = Some (Dir (h_uid h') mode_dir)"
  by (auto simp: ensureOwnedDirectory_def then_do_Inr inspectOwnedDirectory_def lstat_def
      split: option.splits sum.splits if_splits node.splits)

section \<open>Well-formed trees and what the operations keep\<close>

text \<open>Below a path that names nothing there is nothing (the empty path, the root, apart).\<close>

definition closed_tree :: "host \<Rightarrow> bool" where
  "closed_tree h \<longleftrightarrow> (\<forall>r q. r \<noteq> [] \<longrightarrow> h_fs h r = None \<longrightarrow> under r q \<longrightarrow> h_fs h q = None)"

text \<open>Everything that exists is kept as it is; new nodes may appear.\<close>

definition keeps :: "host \<Rightarrow> host \<Rightarrow> bool" where
  "keeps h h' \<longleftrightarrow> h_uid h' = h_uid h \<and> h_fault h' = h_fault h
     \<and> (\<forall>p n. h_fs h p = Some n \<longrightarrow> h_fs h' p = Some n)"

lemma keeps_refl [simp, intro]: "keeps h h"
  by (simp add: keeps_def)

lemma keeps_trans [trans]: "keeps h h' \<Longrightarrow> keeps h' h'' \<Longrightarrow> keeps h h''"
  by (simp add: keeps_def)

lemma grows_imp_keeps:
  assumes "grows h h'"
  shows "keeps h h'"
  unfolding keeps_def using assms grows_keeps [OF assms] by (simp add: grows_def)

lemma last_segment:
  assumes "CHR ''/'' \<in> set p"
  shows "\<exists>s. p = parent_dir p @ CHR ''/'' # s \<and> CHR ''/'' \<notin> set s"
proof -
  obtain a s where p: "p = a @ CHR ''/'' # s" and s: "CHR ''/'' \<notin> set s"
    using split_list_last [OF assms] by blast
  have "parent_dir p = a"
    unfolding p using parent_join [OF s, of a] by (simp only: join_path_def)
  then show ?thesis using p s by metis
qed

lemma under_parent:
  assumes "under r p" and "r \<noteq> p" and "r \<noteq> []"
  shows "under r (parent_dir p)"
proof -
  obtain t where p: "p = r @ CHR ''/'' # t"
    using assms(1,2) by (auto simp: under_def join_path_def has_prefix_iff)
  then obtain s where s: "p = parent_dir p @ CHR ''/'' # s" "CHR ''/'' \<notin> set s"
    using last_segment [of p] by auto
  from p s(1) have "r @ CHR ''/'' # t = parent_dir p @ CHR ''/'' # s" by simp
  then obtain us where us: "r = parent_dir p @ us \<and> us @ CHR ''/'' # t = CHR ''/'' # s
      \<or> r @ us = parent_dir p \<and> CHR ''/'' # t = us @ CHR ''/'' # s"
    by (auto simp: append_eq_append_conv2)
  then show ?thesis
  proof
    assume "r = parent_dir p @ us \<and> us @ CHR ''/'' # t = CHR ''/'' # s"
    then have "us = []" using s(2) by (cases us) auto
    with \<open>r = parent_dir p @ us \<and> _\<close> show ?thesis by simp
  next
    assume eq: "r @ us = parent_dir p \<and> CHR ''/'' # t = us @ CHR ''/'' # s"
    show ?thesis
    proof (cases us)
      case Nil
      with eq show ?thesis by simp
    next
      case (Cons x xs)
      with eq have "parent_dir p = (r @ [CHR ''/'']) @ xs" by simp
      then show ?thesis unfolding under_def join_path_def has_prefix_iff by blast
    qed
  qed
qed

text \<open>Adding one node whose parent is a directory keeps the tree closed.\<close>

lemma closed_tree_add:
  assumes "closed_tree h" and "is_dir_at h (parent_dir p)"
    and "h_fs h' = (h_fs h)(p \<mapsto> n)"
  shows "closed_tree h'"
  unfolding closed_tree_def
proof (intro allI impI)
  fix r q
  assume r: "r \<noteq> []" "h_fs h' r = None" "under r q"
  then have rp: "r \<noteq> p" "h_fs h r = None" using assms(3) by (auto split: if_splits)
  have "q \<noteq> p"
  proof
    assume "q = p"
    with r rp have up: "under r (parent_dir p)" using under_parent by simp
    with rp r assms(1) have "h_fs h (parent_dir p) = None" by (auto simp: closed_tree_def)
    moreover have "parent_dir p \<noteq> []"
      using up r(1) by (auto simp: under_def join_path_def has_prefix_def)
    ultimately show False using assms(2) by (simp add: is_dir_at_def)
  qed
  with r rp assms show "h_fs h' q = None" by (auto simp: closed_tree_def)
qed

lemma mkdir_closed: "closed_tree h \<Longrightarrow> closed_tree (snd (mkdir h p))"
  by (auto simp: mkdir_def intro!: closed_tree_add [of h p])

lemma mkdir_all_closed: "closed_tree h \<Longrightarrow> closed_tree (snd (mkdir_all h p))"
proof (induction h p rule: mkdir_all.induct)
  case (1 h p)
  show ?case
  proof (cases "is_dir_at h p \<or> h_fs h p \<noteq> None \<or> p = []")
    case True
    then show ?thesis using "1.prems" by (subst mkdir_all.simps) auto
  next
    case False
    then have "closed_tree (snd (mkdir_all h (parent_dir p)))" using "1.IH" "1.prems" by auto
    with False show ?thesis
      by (subst mkdir_all.simps) (auto simp: snd_then_do intro: mkdir_closed split: sum.splits)
  qed
qed

lemma ensureOwnedDirectory_closed: "closed_tree h \<Longrightarrow> closed_tree (snd (ensureOwnedDirectory h p))"
  using mkdir_all_closed [of h p]
  by (auto simp: ensureOwnedDirectory_def snd_then_do split: sum.splits)

lemma createOwnedDirectory_closed: "closed_tree h \<Longrightarrow> closed_tree (snd (createOwnedDirectory h p))"
  by (auto simp: createOwnedDirectory_def snd_then_do split: sum.splits
      intro: mkdir_closed ensureOwnedDirectory_closed)

lemma unlock_simps [simp]:
  "h_fs (unlock l h) = h_fs h" "h_uid (unlock l h) = h_uid h" "h_fault (unlock l h) = h_fault h"
  "closed_tree (unlock l h) \<longleftrightarrow> closed_tree h" "keeps g (unlock l h) \<longleftrightarrow> keeps g h"
  by (simp_all add: unlock_def closed_tree_def keeps_def)

lemma lock_validated_fs [simp]:
  "h_fs (snd (lock_validated h p nb ino uid mode)) = h_fs h"
  "h_uid (snd (lock_validated h p nb ino uid mode)) = h_uid h"
  "h_fault (snd (lock_validated h p nb ino uid mode)) = h_fault h"
  by (simp_all add: lock_validated_def)

text \<open>Opening a lock file adds at most the lock file itself.\<close>

lemma openLock_fs:
  "h_fs (snd (openLock h p nb)) = h_fs h
   \<or> h_fs h p = None \<and> is_dir_at h (parent_dir p)
     \<and> h_fs (snd (openLock h p nb)) = (h_fs h)(p \<mapsto> File (h_inode h) (h_uid h) mode_file [])"
  by (auto simp: openLock_def Let_def split: option.splits node.splits)

lemma openLock_env [simp]:
  "h_uid (snd (openLock h p nb)) = h_uid h" "h_fault (snd (openLock h p nb)) = h_fault h"
  by (auto simp: openLock_def Let_def split: option.splits node.splits)

lemma openLock_keeps: "keeps h (snd (openLock h p nb))"
  using openLock_fs [of h p nb] by (auto simp: keeps_def)

lemma openLock_closed: "closed_tree h \<Longrightarrow> closed_tree (snd (openLock h p nb))"
proof (cases "h_fs (snd (openLock h p nb)) = h_fs h")
  case True
  then show "closed_tree h \<Longrightarrow> ?thesis" by (simp add: closed_tree_def)
next
  case False
  then show "closed_tree h \<Longrightarrow> ?thesis"
    using openLock_fs [of h p nb] closed_tree_add by blast
qed

lemma remove_all_fs:
  "h_fs (snd (remove_all h p)) q = (if under p q \<and> \<not> h_fault h SysRemoveAll p then None else h_fs h q)"
  "h_uid (snd (remove_all h p)) = h_uid h" "h_fault (snd (remove_all h p)) = h_fault h"
  by (simp_all add: remove_all_def)

text \<open>A lock that is held stays held while other locks are taken and directories are made.\<close>

lemma lock_held_iff:
  "lock_held h p \<longleftrightarrow> (\<exists>ino uid mode d. h_fs h p = Some (File ino uid mode d) \<and> ino \<in> h_locks h)"
  by (auto simp: lock_held_def split: option.splits node.splits)

lemma grows_held:
  assumes "grows h h'" and "lock_held h p"
  shows "lock_held h' p"
proof -
  from assms(2) obtain ino uid mode d where "h_fs h p = Some (File ino uid mode d)" "ino \<in> h_locks h"
    unfolding lock_held_iff by blast
  with grows_keeps [OF assms(1)] assms(1) show ?thesis unfolding lock_held_iff by (auto simp: grows_def)
qed

lemma lock_validated_locks: "h_locks h \<subseteq> h_locks (snd (lock_validated h p nb ino uid mode))"
  by (auto simp: lock_validated_def)

lemma openLock_held: "lock_held h q \<Longrightarrow> lock_held (snd (openLock h p nb)) q"
proof -
  assume q: "lock_held h q"
  have locks: "h_locks h \<subseteq> h_locks (snd (openLock h p nb))"
    using lock_validated_locks
    by (simp add: openLock_def Let_def split: option.split node.split) fastforce
  from q obtain ino uid mode d where n: "h_fs h q = Some (File ino uid mode d)" "ino \<in> h_locks h"
    by (auto simp: lock_held_def split: option.splits node.splits)
  then have "h_fs (snd (openLock h p nb)) q = Some (File ino uid mode d)"
    using openLock_keeps [of h p nb] by (simp add: keeps_def)
  with n locks show ?thesis by (auto simp: lock_held_def)
qed

end
