(* ===== verification/Store.thy ===== *)
theory Store
  imports Host Codec "HOL-Library.List_Lexorder" "HOL-Library.Char_ord" "HOL-Library.Multiset"
begin

text \<open>
  Package \<open>internal/store\<close>: the managed layout, creation with rollback, the atomic write of the
  configuration, loading, saving under the name lock, deletion under the lifetime lock. Each
  operation takes the host and returns its result with the new host; a deferred \<open>Close\<close> of a
  lock is the unlocking after the body. A call that would wait for another process's name lock
  ends in \<open>NameLockBusy\<close>.
\<close>

record Store =
  DataRoot :: string
  RuntimeRoot :: string
  LogRoot :: string

record Paths =
  p_vm_dir :: string
  p_config :: string
  p_runtime_dir :: string
  p_control_socket :: string
  p_lifetime_lock :: string
  p_qmp :: string
  p_qmp_command :: string
  p_qga :: string
  p_console :: string
  p_monitor :: string
  p_vnc_secret :: string
  p_runtime_metadata :: string
  p_last_exit_metadata :: string
  p_supervisor_stdout :: string
  p_supervisor_stderr :: string
  p_qemu_log :: string
  p_serial_log :: string
  p_serial_log_pipe :: string

datatype store_error =
    InvalidConfig config_error | InvalidName | InvalidID | RootNotAbsolute string
  | RootError string sys_error | LockDirError sys_error | NameLockError sys_error | NameLockBusy
  | AlreadyExists string | InspectVM sys_error | CreateDirError sys_error | ArtifactsError string
  | EncodeError encode_error | WriteDirError sys_error | WriteError sys_error
  | VMDirError sys_error | LoadError sys_error | DecodeError decode_error | NameMismatch string
  | LockConfigMismatch | IDMismatch string | NoInspector | AutostartEnabled string
  | RuntimeDirError sys_error | LifetimeLockError sys_error | VMRunning string
  | InspectorRefused string | RemoveError string sys_error | ListError sys_error
  | UnexpectedEntry string

section \<open>Layout\<close>

definition locksDirectory :: string where "locksDirectory = ''.locks''"
definition configFilename :: string where "configFilename = ''config.json''"

definition resolveDefaultRoots ::
  "string \<Rightarrow> string \<Rightarrow> nat \<Rightarrow> (string \<Rightarrow> string) \<Rightarrow> string \<times> string \<times> string" where
  "resolveDefaultRoots home temp uid getenv =
     (let override = (\<lambda>name dflt. if getenv name \<noteq> '''' then getenv name else dflt)
      in (override ''QEMU_MANAGE_DATA_ROOT''
            (join_path home ''Library/Application Support/qemu-manage/vms''),
          override ''QEMU_MANAGE_RUNTIME_ROOT'' (join_path temp (''qemu-manage-'' @ itoa uid)),
          override ''QEMU_MANAGE_LOG_ROOT'' (join_path home ''Library/Logs/qemu-manage'')))"

definition RuntimeDir :: "Store \<Rightarrow> string \<Rightarrow> string" where
  "RuntimeDir s i = join_path (RuntimeRoot s) (if 12 < length i then take 12 i else i)"

definition store_paths :: "Store \<Rightarrow> Config \<Rightarrow> Paths" where
  "store_paths s config =
     (let vmDir = join_path (DataRoot s) (cfg_name config);
          runtimeDir = RuntimeDir s (cfg_id config);
          logDir = join_path (LogRoot s) (cfg_name config)
      in \<lparr>p_vm_dir = vmDir,
          p_config = join_path vmDir configFilename,
          p_runtime_dir = runtimeDir,
          p_control_socket = join_path runtimeDir ''control.sock'',
          p_lifetime_lock = join_path runtimeDir ''lifetime.lock'',
          p_qmp = join_path runtimeDir ''qmp.sock'',
          p_qmp_command = join_path runtimeDir ''qmp-command.sock'',
          p_qga = join_path runtimeDir ''qga.sock'',
          p_console = join_path runtimeDir ''console.sock'',
          p_monitor = join_path runtimeDir ''monitor.sock'',
          p_vnc_secret = join_path runtimeDir ''vnc-password'',
          p_runtime_metadata = join_path runtimeDir ''runtime.json'',
          p_last_exit_metadata = join_path runtimeDir ''last_exit.json'',
          p_supervisor_stdout = join_path logDir ''supervisor.stdout.log'',
          p_supervisor_stderr = join_path logDir ''supervisor.stderr.log'',
          p_qemu_log = join_path logDir ''qemu.log'',
          p_serial_log = join_path logDir ''serial.log'',
          p_serial_log_pipe = join_path runtimeDir ''serial-log.pipe''\<rparr>)"

lemma store_paths_dirs [simp]:
  "p_vm_dir (store_paths s c) = join_path (DataRoot s) (cfg_name c)"
  "p_runtime_dir (store_paths s c) = RuntimeDir s (cfg_id c)"
  "p_config (store_paths s c) = join_path (join_path (DataRoot s) (cfg_name c)) configFilename"
  "p_qemu_log (store_paths s c) = join_path (join_path (LogRoot s) (cfg_name c)) ''qemu.log''"
  "p_lifetime_lock (store_paths s c) = join_path (RuntimeDir s (cfg_id c)) ''lifetime.lock''"
  by (simp_all add: store_paths_def Let_def)

lemma parent_of_files [simp]:
  "parent_dir (join_path d ''qemu.log'') = d" "parent_dir (join_path d configFilename) = d"
  by (simp_all add: parent_join configFilename_def)

definition ensureRoot :: "host \<Rightarrow> string \<Rightarrow> string \<Rightarrow> (store_error, unit) action" where
  "ensureRoot h description path =
     (if path = '''' \<or> \<not> is_abs_path path then (Inl (RootNotAbsolute description), h)
      else wrap_err (RootError description) (ensureOwnedDirectory h path))"

definition ensureRoots :: "Store \<Rightarrow> host \<Rightarrow> (store_error, unit) action" where
  "ensureRoots s h =
     then_do (ensureRoot h ''data'' (DataRoot s)) (\<lambda>_ h1.
     then_do (ensureRoot h1 ''runtime'' (RuntimeRoot s)) (\<lambda>_ h2.
     ensureRoot h2 ''log'' (LogRoot s)))"

text \<open>The scan of a name, byte by byte: a byte outside ASCII belongs to a rune that is refused.\<close>

fun name_bytes_ok :: "nat \<Rightarrow> string \<Rightarrow> bool" where
  "name_bytes_ok index [] = True"
| "name_bytes_ok index (c # cs) =
     (let valid = is_lower c \<or> is_upper c \<or> is_digit c \<or> c = CHR ''.'' \<or> c = CHR ''_'' \<or> c = CHR ''-''
      in if \<not> valid \<or> index = 0 \<and> (c = CHR ''.'' \<or> c = CHR ''_'' \<or> c = CHR ''-'') then False
         else name_bytes_ok (Suc index) cs)"

definition validateName :: "string \<Rightarrow> store_error option" where
  "validateName name =
     (if name = '''' \<or> 63 < length name then Some InvalidName
      else if name_bytes_ok 0 name then None else Some InvalidName)"

definition trim_set :: "(char \<Rightarrow> bool) \<Rightarrow> string \<Rightarrow> string" where
  "trim_set P s = rev (dropWhile P (rev (dropWhile P s)))"

definition validateIDForPath :: "string \<Rightarrow> store_error option" where
  "validateIDForPath i =
     guard (length i \<noteq> 32 \<or> trim_set is_lower_hex i \<noteq> '''') InvalidID"

lemma name_bytes_ok_Suc: "name_bytes_ok (Suc n) cs \<longleftrightarrow> list_all name_rest_byte cs"
  by (induction cs arbitrary: n) (auto simp: name_rest_byte_def is_alnum_def Let_def)

lemma validateName_None_iff: "validateName name = None \<longleftrightarrow> namePattern name"
proof (cases name)
  case (Cons c cs)
  have "\<not> is_alnum CHR ''.''" "\<not> is_alnum CHR ''_''" "\<not> is_alnum CHR ''-''"
    by (simp_all add: byte_class_defs)
  then show ?thesis
    by (auto simp: Cons validateName_def namePattern_def name_bytes_ok_Suc Let_def is_alnum_def)
qed (simp add: validateName_def namePattern_def)

lemma trim_set_empty_iff: "trim_set P s = [] \<longleftrightarrow> list_all P s"
proof -
  have "trim_set P s = [] \<longleftrightarrow> (\<forall>c \<in> set (dropWhile P s). P c)"
    by (simp add: trim_set_def dropWhile_eq_Nil_conv)
  also have "\<dots> \<longleftrightarrow> (\<forall>c \<in> set s. P c)"
    by (metis dropWhile_eq_Nil_conv hd_dropWhile hd_in_set set_dropWhileD)
  finally show ?thesis by (simp add: list_all_iff)
qed

lemma validateIDForPath_None_iff: "validateIDForPath i = None \<longleftrightarrow> idPattern i"
  by (auto simp: validateIDForPath_def idPattern_def trim_set_empty_iff)

section \<open>Locks\<close>

definition LockName :: "Store \<Rightarrow> host \<Rightarrow> string \<Rightarrow> (store_error, nat) action" where
  "LockName s h name =
     (case validateName name of
        Some e \<Rightarrow> (Inl e, h)
      | None \<Rightarrow>
          then_do (ensureRoots s h) (\<lambda>_ h1.
          let lockDir = join_path (DataRoot s) locksDirectory in
          then_do (wrap_err LockDirError (ensureOwnedDirectory h1 lockDir)) (\<lambda>_ h2.
          then_do (wrap_err NameLockError (openLock h2 (join_path lockDir (name @ ''.lock'')) False))
            (\<lambda>out h3. case out of Acquired l \<Rightarrow> (Inr l, h3) | _ \<Rightarrow> (Inl NameLockBusy, h3)))))"

definition tryLifetime :: "Store \<Rightarrow> host \<Rightarrow> string \<Rightarrow> (store_error, lock_outcome) action" where
  "tryLifetime s h i =
     (case validateIDForPath i of
        Some e \<Rightarrow> (Inl e, h)
      | None \<Rightarrow>
          then_do (ensureRoots s h) (\<lambda>_ h1.
          then_do (wrap_err RuntimeDirError (ensureOwnedDirectory h1 (RuntimeDir s i))) (\<lambda>_ h2.
          wrap_err LifetimeLockError (openLock h2 (join_path (RuntimeDir s i) ''lifetime.lock'') True))))"

text \<open>\<open>defer lock.Close()\<close>: the body's result, and the lock released.\<close>

definition with_lock :: "nat \<Rightarrow> ('e, 'a) action \<Rightarrow> ('e, 'a) action" where
  "with_lock l r = (fst r, unlock l (snd r))"

section \<open>Writing the configuration atomically\<close>

text \<open>A step is the system call, which may fail, and its effect on the host.\<close>

definition temp_path :: "host \<Rightarrow> string \<Rightarrow> string" where
  "temp_path h dir = join_path dir (''.config-'' @ itoa (h_inode h) @ ''.tmp'')"

definition write_ops :: "string \<Rightarrow> string \<Rightarrow> string \<Rightarrow> (sysop \<times> (host \<Rightarrow> host)) list" where
  "write_ops tmp path data =
     [(SysCreateTemp, \<lambda>h. h\<lparr>h_fs := (h_fs h)(tmp \<mapsto> File (h_inode h) (h_uid h) mode_file []),
                           h_inode := Suc (h_inode h)\<rparr>),
      (SysFchmod, \<lambda>h. h),
      (SysWrite, \<lambda>h. h\<lparr>h_fs := (h_fs h)(tmp \<mapsto>
          (case h_fs h tmp of Some (File ino uid mode _) \<Rightarrow> File ino uid mode data
           | _ \<Rightarrow> File (h_inode h) (h_uid h) mode_file data))\<rparr>),
      (SysSync, \<lambda>h. h),
      (SysClose, \<lambda>h. h),
      (SysRename, \<lambda>h. h\<lparr>h_fs := ((h_fs h)(path := h_fs h tmp))(tmp := None)\<rparr>),
      (SysOpenDir, \<lambda>h. h),
      (SysSyncDir, \<lambda>h. h)]"

text \<open>The steps in order up to the first failure, with every host on the way.\<close>

fun run_ops :: "string \<Rightarrow> host \<Rightarrow> (sysop \<times> (host \<Rightarrow> host)) list \<Rightarrow> sys_error option \<times> host list" where
  "run_ops path h [] = (None, [h])"
| "run_ops path h ((call, effect) # ops) =
     (if h_fault h call path then (Some (EFAULTED call), [h])
      else case run_ops path (effect h) ops of (e, t) \<Rightarrow> (e, h # t))"

definition remove_file :: "string \<Rightarrow> host \<Rightarrow> host" where
  "remove_file p h = h\<lparr>h_fs := (h_fs h)(p := None)\<rparr>"

definition writeConfigAtomic :: "library \<Rightarrow> host \<Rightarrow> string \<Rightarrow> Config \<Rightarrow> (store_error, unit) action" where
  "writeConfigAtomic L h path config =
     (case Validate config of
        Some e \<Rightarrow> (Inl (InvalidConfig e), h)
      | None \<Rightarrow>
          (case CanonicalJSON L config of
             Inl e \<Rightarrow> (Inl (EncodeError e), h)
           | Inr data \<Rightarrow>
               let dir = parent_dir path in
               then_do (wrap_err WriteDirError (ensureOwnedDirectory h dir)) (\<lambda>_ h1.
               let tmp = temp_path h1 dir in
               if h_fs h1 tmp \<noteq> None then (Inl (WriteError EEXIST), h1)
               else case run_ops path h1 (write_ops tmp path data) of
                 (Some e, t) \<Rightarrow> (Inl (WriteError e), remove_file tmp (last t))
               | (None, t) \<Rightarrow> (Inr (), remove_file tmp (last t)))))"

section \<open>Loading, saving, creating, deleting\<close>

definition loadUnlocked :: "Store \<Rightarrow> library \<Rightarrow> host \<Rightarrow> string \<Rightarrow> store_error + Config" where
  "loadUnlocked s L h name =
     (let vmDir = join_path (DataRoot s) name in
      case inspectOwnedDirectory h vmDir of
        Some e \<Rightarrow> Inl (VMDirError e)
      | None \<Rightarrow>
          (case openOwnedRegular h (join_path vmDir configFilename) of
             Inl e \<Rightarrow> Inl (LoadError e)
           | Inr data \<Rightarrow>
               (case Decode L data of
                  Inl e \<Rightarrow> Inl (DecodeError e)
                | Inr config \<Rightarrow>
                    if cfg_name config \<noteq> name then Inl (NameMismatch (cfg_name config))
                    else Inr config)))"

definition Load :: "Store \<Rightarrow> library \<Rightarrow> host \<Rightarrow> string \<Rightarrow> store_error + Config" where
  "Load s L h name =
     (case validateName name of Some e \<Rightarrow> Inl e | None \<Rightarrow> loadUnlocked s L h name)"

text \<open>\<open>NameLock.Save\<close>, for a lock that is held on \<open>name\<close>.\<close>

definition lockedSave :: "Store \<Rightarrow> library \<Rightarrow> string \<Rightarrow> Config \<Rightarrow> host \<Rightarrow> (store_error, unit) action" where
  "lockedSave s L name config h =
     (if cfg_name config \<noteq> name then (Inl LockConfigMismatch, h)
      else case loadUnlocked s L h name of
        Inl e \<Rightarrow> (Inl e, h)
      | Inr current \<Rightarrow>
          if cfg_id current \<noteq> cfg_id config then (Inl (IDMismatch (cfg_name config)), h)
          else writeConfigAtomic L h (p_config (store_paths s config)) config)"

definition Save :: "Store \<Rightarrow> library \<Rightarrow> Config \<Rightarrow> host \<Rightarrow> (store_error, unit) action" where
  "Save s L config h =
     (case Validate config of
        Some e \<Rightarrow> (Inl (InvalidConfig e), h)
      | None \<Rightarrow>
          then_do (LockName s h (cfg_name config)) (\<lambda>l h1.
          with_lock l (lockedSave s L (cfg_name config) config h1)))"

definition rollbackDirectories :: "string list \<Rightarrow> host \<Rightarrow> host" where
  "rollbackDirectories paths h = foldl (\<lambda>h p. snd (remove_all h p)) h (rev paths)"

fun create_dirs :: "string list \<Rightarrow> string list \<Rightarrow> host \<Rightarrow> (store_error, string list) action" where
  "create_dirs created [] h = (Inr created, h)"
| "create_dirs created (d # ds) h =
     (case createOwnedDirectory h d of
        (Inl e, h') \<Rightarrow> (Inl (CreateDirError e), rollbackDirectories created h')
      | (Inr _, h') \<Rightarrow> create_dirs (created @ [d]) ds h')"

type_synonym artifacts = "Config \<Rightarrow> Paths \<Rightarrow> host \<Rightarrow> string option \<times> host"

definition create_candidates :: "Store \<Rightarrow> Config \<Rightarrow> string list" where
  "create_candidates s config =
     (let paths = store_paths s config
      in [p_vm_dir paths, parent_dir (p_qemu_log paths), p_runtime_dir paths])"

definition lockedCreate ::
  "Store \<Rightarrow> library \<Rightarrow> artifacts option \<Rightarrow> Config \<Rightarrow> host \<Rightarrow> (store_error, unit) action" where
  "lockedCreate s L createArtifacts config h =
     (let paths = store_paths s config in
      case lstat h (p_vm_dir paths) of
        Inr _ \<Rightarrow> (Inl (AlreadyExists (cfg_name config)), h)
      | Inl e \<Rightarrow>
          if e \<noteq> ENOENT then (Inl (InspectVM e), h)
          else then_do (create_dirs [] (create_candidates s config) h) (\<lambda>created h1.
            case (case createArtifacts of None \<Rightarrow> (None, h1) | Some f \<Rightarrow> f config paths h1) of
              (Some e, h2) \<Rightarrow> (Inl (ArtifactsError e), rollbackDirectories created h2)
            | (None, h2) \<Rightarrow>
                (case writeConfigAtomic L h2 (p_config paths) config of
                   (Inl e, h3) \<Rightarrow> (Inl e, rollbackDirectories created h3)
                 | (Inr _, h3) \<Rightarrow> (Inr (), h3))))"

definition Create ::
  "Store \<Rightarrow> library \<Rightarrow> artifacts option \<Rightarrow> Config \<Rightarrow> host \<Rightarrow> (store_error, unit) action" where
  "Create s L createArtifacts config h =
     (case Validate config of
        Some e \<Rightarrow> (Inl (InvalidConfig e), h)
      | None \<Rightarrow>
          then_do (LockName s h (cfg_name config)) (\<lambda>l h1.
          with_lock l (lockedCreate s L createArtifacts config h1)))"

text \<open>The inspection reads the host as it is under the two locks.\<close>

type_synonym inspector = "Config \<Rightarrow> Paths \<Rightarrow> host \<Rightarrow> string option"

definition remove_managed :: "Store \<Rightarrow> Config \<Rightarrow> host \<Rightarrow> (store_error, unit) action" where
  "remove_managed s config h =
     (let paths = store_paths s config in
      then_do (wrap_err (RemoveError ''VM'') (remove_all h (p_vm_dir paths))) (\<lambda>_ h1.
      then_do (wrap_err (RemoveError ''logs'') (remove_all h1 (parent_dir (p_qemu_log paths)))) (\<lambda>_ h2.
      wrap_err (RemoveError ''runtime'') (remove_all h2 (p_runtime_dir paths)))))"

definition lockedDelete ::
  "Store \<Rightarrow> library \<Rightarrow> inspector \<Rightarrow> string \<Rightarrow> host \<Rightarrow> (store_error, unit) action" where
  "lockedDelete s L inspect name h =
     (case loadUnlocked s L h name of
        Inl e \<Rightarrow> (Inl e, h)
      | Inr config \<Rightarrow>
          if cfg_autostart_scope config \<noteq> AutostartNone
          then (Inl (AutostartEnabled (cfg_autostart_scope config)), h)
          else then_do (tryLifetime s h (cfg_id config)) (\<lambda>out h1.
            case out of
              Acquired l \<Rightarrow>
                with_lock l
                  (case inspect config (store_paths s config) h1 of
                     Some e \<Rightarrow> (Inl (InspectorRefused e), h1)
                   | None \<Rightarrow> remove_managed s config h1)
            | _ \<Rightarrow> (Inl (VMRunning name), h1)))"

definition Delete ::
  "Store \<Rightarrow> library \<Rightarrow> inspector option \<Rightarrow> string \<Rightarrow> host \<Rightarrow> (store_error, unit) action" where
  "Delete s L inspect name h =
     (case inspect of
        None \<Rightarrow> (Inl NoInspector, h)
      | Some ins \<Rightarrow>
          then_do (LockName s h name) (\<lambda>l h1. with_lock l (lockedDelete s L ins name h1)))"

text \<open>\<open>List\<close> over the entries that \<open>ReadDir\<close> returned, each with whether it is a directory.\<close>

fun list_entries ::
  "Store \<Rightarrow> library \<Rightarrow> host \<Rightarrow> (string \<times> bool) list \<Rightarrow> store_error + Config list" where
  "list_entries s L h [] = Inr []"
| "list_entries s L h ((name, isdir) # entries) =
     (if name = locksDirectory then list_entries s L h entries
      else if \<not> isdir then Inl (UnexpectedEntry name)
      else case Load s L h name of
        Inl e \<Rightarrow> Inl e
      | Inr config \<Rightarrow>
          (case list_entries s L h entries of Inl e \<Rightarrow> Inl e | Inr configs \<Rightarrow> Inr (config # configs)))"

definition store_list ::
  "Store \<Rightarrow> library \<Rightarrow> host \<Rightarrow> sys_error + (string \<times> bool) list \<Rightarrow> store_error + Config list" where
  "store_list s L h entries =
     (case entries of
        Inl e \<Rightarrow> Inl (ListError e)
      | Inr es \<Rightarrow>
          (case list_entries s L h es of
             Inl e \<Rightarrow> Inl e
           | Inr configs \<Rightarrow> Inr (sort_key cfg_name configs)))"

section \<open>Effects on the tree\<close>

lemma ensureRoots_grows: "grows h (snd (ensureRoots s h))"
proof -
  have one: "grows g (snd (ensureRoot g d p))" for g d p
    by (simp add: ensureRoot_def ensureOwnedDirectory_grows)
  show ?thesis
    unfolding ensureRoots_def by (intro then_do_rel [where Q = grows] one) (auto intro: grows_trans)
qed

lemma ensureRoots_closed: "closed_tree h \<Longrightarrow> closed_tree (snd (ensureRoots s h))"
proof -
  have one: "closed_tree g \<Longrightarrow> closed_tree (snd (ensureRoot g d p))" for g d p
    by (simp add: ensureRoot_def ensureOwnedDirectory_closed)
  then show "closed_tree h \<Longrightarrow> ?thesis"
    by (auto simp: ensureRoots_def snd_then_do split: sum.splits)
qed

text \<open>The lemmas about an operation that takes a lock follow one pattern: a relation between hosts
  that directory creation and lock opening keep.\<close>

lemma LockName_rel:
  assumes "Q h h" and trans: "\<And>a b c. Q a b \<Longrightarrow> Q b c \<Longrightarrow> Q a c"
    and dirs: "\<And>g g'. grows g g' \<Longrightarrow> Q g g'" and lock: "\<And>g p nb. Q g (snd (openLock g p nb))"
  shows "Q h (snd (LockName s h name))"
  unfolding LockName_def Let_def
  by (auto split: option.split lock_outcome.split
      intro!: then_do_rel [where Q = Q, OF _ _ trans] assms(1) dirs [OF ensureRoots_grows]
        dirs [OF ensureOwnedDirectory_grows] lock dirs [OF grows_refl])

lemma tryLifetime_rel:
  assumes "Q h h" and trans: "\<And>a b c. Q a b \<Longrightarrow> Q b c \<Longrightarrow> Q a c"
    and dirs: "\<And>g g'. grows g g' \<Longrightarrow> Q g g'" and lock: "\<And>g p nb. Q g (snd (openLock g p nb))"
  shows "Q h (snd (tryLifetime s h i))"
  unfolding tryLifetime_def
  by (auto split: option.split
      intro!: then_do_rel [where Q = Q, OF _ _ trans] assms(1) dirs [OF ensureRoots_grows]
        dirs [OF ensureOwnedDirectory_grows] lock)

lemma LockName_keeps: "keeps h (snd (LockName s h name))"
  by (rule LockName_rel) (auto intro: keeps_trans grows_imp_keeps openLock_keeps)

lemma tryLifetime_keeps: "keeps h (snd (tryLifetime s h i))"
  by (rule tryLifetime_rel) (auto intro: keeps_trans grows_imp_keeps openLock_keeps)

lemma LockName_held: "lock_held h p \<Longrightarrow> lock_held (snd (LockName s h name)) p"
  using LockName_rel [of "\<lambda>a b. lock_held a p \<longrightarrow> lock_held b p" h s name]
  by (auto intro: grows_held openLock_held)

lemma LockName_closed: "closed_tree h \<Longrightarrow> closed_tree (snd (LockName s h name))"
  using ensureRoots_closed ensureOwnedDirectory_closed openLock_closed
  by (auto simp: LockName_def snd_then_do Let_def split: sum.splits option.splits lock_outcome.splits)

lemma with_lock_simps [simp]:
  "fst (with_lock l r) = fst r" "snd (with_lock l r) = unlock l (snd r)"
  by (simp_all add: with_lock_def)

text \<open>Creating a directory that was not there adds that directory and nothing else.\<close>

lemma createOwnedDirectory_fs:
  "h_fs (snd (createOwnedDirectory h d)) = h_fs h
     \<and> fst (createOwnedDirectory h d) \<noteq> Inr ()
   \<or> h_fs h d = None \<and> h_fs (snd (createOwnedDirectory h d)) = (h_fs h)(d \<mapsto> Dir (h_uid h) mode_dir)
     \<and> (\<not> h_fault h SysLstat d \<longrightarrow> fst (createOwnedDirectory h d) = Inr ())"
proof (cases "fst (mkdir h d)")
  case (Inl e)
  then have "mkdir h d = (Inl e, h)"
    by (auto simp: mkdir_def split: if_splits)
  then show ?thesis by (simp add: createOwnedDirectory_def)
next
  case (Inr u)
  define h' where "h' = h\<lparr>h_fs := (h_fs h)(d \<mapsto> Dir (h_uid h) mode_dir)\<rparr>"
  from Inr have absent: "h_fs h d = None" and made: "mkdir h d = (Inr (), h')"
    by (auto simp: mkdir_def h'_def split: if_splits)
  have "mkdir_all h' d = (Inr (), h')"
    by (rule mkdir_all_existing) (simp add: is_dir_at_def h'_def)
  then have "createOwnedDirectory h d =
      (case inspectOwnedDirectory h' d of None \<Rightarrow> Inr () | Some e \<Rightarrow> Inl e, h')"
    by (simp add: createOwnedDirectory_def ensureOwnedDirectory_def made)
  then show ?thesis
    using absent by (simp add: h'_def inspectOwnedDirectory_def lstat_def)
qed

lemma createOwnedDirectory_env [simp]:
  "h_fault (snd (createOwnedDirectory h d)) = h_fault h"
  "h_uid (snd (createOwnedDirectory h d)) = h_uid h"
  using createOwnedDirectory_grows [of h d] by (simp_all add: grows_def)

definition under_any :: "string list \<Rightarrow> string \<Rightarrow> bool" where
  "under_any ds q \<longleftrightarrow> (\<exists>d \<in> set ds. under d q)"

lemma rollback_fs:
  "h_fs (rollbackDirectories ds h) q =
     (if under_any (filter (\<lambda>d. \<not> h_fault h SysRemoveAll d) ds) q then None else h_fs h q)
   \<and> h_fault (rollbackDirectories ds h) = h_fault h \<and> h_uid (rollbackDirectories ds h) = h_uid h"
proof (induction ds arbitrary: h rule: rev_induct)
  case Nil
  then show ?case by (simp add: rollbackDirectories_def under_any_def)
next
  case (snoc d ds)
  have "rollbackDirectories (ds @ [d]) h = rollbackDirectories ds (snd (remove_all h d))"
    by (simp add: rollbackDirectories_def)
  then show ?case
    using snoc.IH [of "snd (remove_all h d)"] by (auto simp: remove_all_fs under_any_def)
qed

text \<open>After the directories are made the tree differs from the one before only at them; they were
  all absent.\<close>

lemma create_dirs_ok:
  assumes "create_dirs created ds h = (Inr all, h')"
  shows "all = created @ ds \<and> h_fault h' = h_fault h \<and> h_uid h' = h_uid h
    \<and> (\<forall>d \<in> set ds. h_fs h d = None \<and> h_fs h' d = Some (Dir (h_uid h) mode_dir)) \<and> (\<forall>q. q \<notin> set ds \<longrightarrow> h_fs h' q = h_fs h q)"
  using assms
proof (induction ds arbitrary: created h)
  case (Cons d ds)
  obtain r h1 where made: "createOwnedDirectory h d = (r, h1)" by (cases "createOwnedDirectory h d")
  with Cons.prems have "r = Inr ()" and rest: "create_dirs (created @ [d]) ds h1 = (Inr all, h')"
    by (auto split: sum.splits)
  then have d: "h_fs h d = None" "h_fs h1 = (h_fs h)(d \<mapsto> Dir (h_uid h) mode_dir)"
    "h_fault h1 = h_fault h" "h_uid h1 = h_uid h"
    using createOwnedDirectory_fs [of h d] createOwnedDirectory_env [of h d] made by auto
  note ih = Cons.IH [OF rest]
  then have "d \<notin> set ds" using d(2) by auto
  with ih d show ?case by (auto split: if_splits)
qed simp

lemma create_dirs_env:
  "h_fault (snd (create_dirs created ds h)) = h_fault h \<and> h_uid (snd (create_dirs created ds h)) = h_uid h"
proof (induction ds arbitrary: created h)
  case (Cons d ds)
  obtain r h1 where "createOwnedDirectory h d = (r, h1)" by (cases "createOwnedDirectory h d")
  then show ?case
    using Cons.IH [of "created @ [d]" h1] createOwnedDirectory_env [of h d] rollback_fs [of created h1]
    by (auto split: sum.split)
qed simp

lemma create_dirs_error:
  assumes "create_dirs created ds h = (Inl e, h')" and "closed_tree h0"
    and absent: "\<forall>d \<in> set created. h_fs h0 d = None"
    and same: "\<forall>q. \<not> under_any created q \<longrightarrow> h_fs h q = h_fs h0 q"
    and nonempty: "[] \<notin> set (created @ ds)" and env: "h_fault h = h_fault h0"
  shows "\<exists>more. (\<forall>d \<in> set more. h_fs h0 d = None)
    \<and> (\<forall>q. \<not> under_any more q \<longrightarrow> h_fs h' q = h_fs h0 q) \<and> [] \<notin> set more
    \<and> ((\<forall>p. \<not> h_fault h0 SysLstat p \<and> \<not> h_fault h0 SysRemoveAll p) \<longrightarrow> h_fs h' = h_fs h0)"
  using assms
proof (induction ds arbitrary: created h)
  case (Cons d ds)
  obtain r h1 where made: "createOwnedDirectory h d = (r, h1)" by (cases "createOwnedDirectory h d")
  have env1: "h_fault h1 = h_fault h0" using createOwnedDirectory_env [of h d] made Cons.prems by simp
  have gone: "under_any created q \<Longrightarrow> h_fs h0 q = None" for q
  proof -
    assume "under_any created q"
    then obtain x where "x \<in> set created" "under x q" by (auto simp: under_any_def)
    moreover from this have "x \<noteq> []" "h_fs h0 x = None" using Cons.prems(3,5) by auto
    ultimately show ?thesis using Cons.prems(2) by (simp add: closed_tree_def)
  qed
  have d0: "h_fs h d = None \<Longrightarrow> h_fs h0 d = None"
    using gone [of d] Cons.prems(4) by (cases "under_any created d") auto
  show ?case
  proof (cases r)
    case (Inl e')
    with made Cons.prems have h': "h' = rollbackDirectories created h1" by (auto split: sum.splits)
    show ?thesis
    proof (cases "h_fs h1 = h_fs h")
      case True
      then have "h_fs h' q = h_fs h0 q"
        if "under_any created q \<longrightarrow> (\<forall>p. \<not> h_fault h0 SysRemoveAll p)" for q
        using that rollback_fs [of created h1 q] h' gone [of q] Cons.prems(4) env1
        by (cases "under_any created q") (auto simp: under_any_def)
      then show ?thesis using Cons.prems(3,5) by (intro exI [of _ created]) auto
    next
      case False
      then have d: "h_fs h d = None" "h_fs h1 = (h_fs h)(d \<mapsto> Dir (h_uid h) mode_dir)" "h_fault h SysLstat d"
        using createOwnedDirectory_fs [of h d] made Inl by auto
      then have "h_fs h' q = h_fs h0 q" if "\<not> under_any (d # created) q" for q
        using that rollback_fs [of created h1 q] h' Cons.prems(4) by (auto simp: under_any_def)
      then show ?thesis
        using Cons.prems(3,5,6) d d0 by (intro exI [of _ "d # created"]) auto
    qed
  next
    case (Inr u)
    with made Cons.prems have rest: "create_dirs (created @ [d]) ds h1 = (Inl e, h')" by simp
    have d: "h_fs h d = None" "h_fs h1 = (h_fs h)(d \<mapsto> Dir (h_uid h) mode_dir)"
      using createOwnedDirectory_fs [of h d] made Inr by auto
    show ?thesis
    proof (rule Cons.IH [OF rest Cons.prems(2)])
      show "\<forall>x \<in> set (created @ [d]). h_fs h0 x = None" using Cons.prems(3) d d0 by auto
      show "\<forall>q. \<not> under_any (created @ [d]) q \<longrightarrow> h_fs h1 q = h_fs h0 q"
        using Cons.prems(4) d by (auto simp: under_any_def)
      show "[] \<notin> set ((created @ [d]) @ ds)" using Cons.prems(5) by simp
      show "h_fault h1 = h_fault h0" by (rule env1)
    qed
  qed
qed simp

lemma temp_not_config: "temp_path h dir \<noteq> join_path dir configFilename"
  by (simp add: temp_path_def join_path_def configFilename_def)

text \<open>Every host the atomic write passes through.\<close>

lemma run_write_ops:
  assumes "run_ops path h (write_ops tmp path data) = (e, t)" and "tmp \<noteq> path" and "h_fs h tmp = None"
  shows "t \<noteq> []
    \<and> (\<forall>g \<in> set t. h_fs g path = h_fs h path \<or> h_fs g path = Some (File (h_inode h) (h_uid h) mode_file data))
    \<and> (\<forall>g \<in> set t. \<forall>q. q \<noteq> path \<longrightarrow> q \<noteq> tmp \<longrightarrow> h_fs g q = h_fs h q)
    \<and> (\<forall>g \<in> set t. h_fault g = h_fault h \<and> h_uid g = h_uid h)
    \<and> (e = None \<longrightarrow> h_fs (last t) path = Some (File (h_inode h) (h_uid h) mode_file data))"
  using assms by (auto simp: write_ops_def split: if_splits)

lemma ensureOwnedDirectory_existing:
  "h_fs h dir = Some (Dir u m) \<Longrightarrow> snd (ensureOwnedDirectory h dir) = h"
  by (simp add: ensureOwnedDirectory_def mkdir_all_existing is_dir_at_def)

lemma writeConfigAtomic_fs:
  assumes "path = join_path dir configFilename" and "h_fs h dir = Some (Dir u m)"
  shows "(\<forall>q. q \<noteq> path \<longrightarrow> q \<noteq> temp_path h dir \<longrightarrow>
      h_fs (snd (writeConfigAtomic L h path c)) q = h_fs h q)
    \<and> h_fault (snd (writeConfigAtomic L h path c)) = h_fault h
    \<and> h_uid (snd (writeConfigAtomic L h path c)) = h_uid h"
proof -
  have dir: "parent_dir path = dir" unfolding assms by simp
  let ?final = "snd (writeConfigAtomic L h path c)"
  have "?final = h
    \<or> (\<exists>e t data. h_fs h (temp_path h dir) = None
        \<and> run_ops path h (write_ops (temp_path h dir) path data) = (e, t)
        \<and> ?final = remove_file (temp_path h dir) (last t))"
    using ensureOwnedDirectory_existing [OF assms(2)]
    by (auto simp: writeConfigAtomic_def dir Let_def snd_then_do
        split: option.splits sum.splits prod.splits)
  then consider "?final = h"
    | e t data where "h_fs h (temp_path h dir) = None"
      "run_ops path h (write_ops (temp_path h dir) path data) = (e, t)"
      "?final = remove_file (temp_path h dir) (last t)"
    by blast
  then show ?thesis
  proof cases
    case 2
    have "temp_path h dir \<noteq> path" unfolding assms by (rule temp_not_config)
    from run_write_ops [OF 2(2) this 2(1)] have t: "last t \<in> set t"
      "\<forall>x \<in> set t. \<forall>q. q \<noteq> path \<longrightarrow> q \<noteq> temp_path h dir \<longrightarrow> h_fs x q = h_fs h q"
      "\<forall>x \<in> set t. h_fault x = h_fault h \<and> h_uid x = h_uid h"
      by auto
    then show ?thesis using 2(3) by (auto simp: remove_file_def)
  qed simp
qed

text \<open>Saving over a directory that is there.\<close>

lemma writeConfigAtomic_ok:
  assumes "path = join_path dir configFilename" and "writeConfigAtomic L h path c = (Inr (), h')"
    and "h_fs h dir = Some (Dir (h_uid h) mode_dir)"
  shows "\<exists>data ino. CanonicalJSON L c = Inr data
    \<and> h_fs h' path = Some (File ino (h_uid h) mode_file data) \<and> h_fs h' dir = h_fs h dir
    \<and> h_uid h' = h_uid h \<and> h_fault h' = h_fault h"
proof -
  have dir: "parent_dir path = dir" unfolding assms by simp
  obtain r where ens: "ensureOwnedDirectory h dir = (r, h)"
    using ensureOwnedDirectory_existing [OF assms(3)] by (metis prod.collapse)
  have neq: "temp_path h dir \<noteq> path" unfolding assms by (rule temp_not_config)
  have child: "dir \<noteq> path" "dir \<noteq> temp_path h dir"
    unfolding assms temp_path_def join_path_def by auto
  note eq = assms(2) [unfolded writeConfigAtomic_def dir Let_def ens]
  have valid: "Validate c = None" using eq by (cases "Validate c") auto
  obtain data where data: "CanonicalJSON L c = Inr data"
    using eq valid by (cases "CanonicalJSON L c") auto
  have r: "r = Inr ()" using eq valid data by (cases r) auto
  have free: "h_fs h (temp_path h dir) = None" using eq valid data r by (simp split: if_splits)
  obtain e t where run: "run_ops path h (write_ops (temp_path h dir) path data) = (e, t)"
    by (cases "run_ops path h (write_ops (temp_path h dir) path data)")
  have e: "e = None" "h' = remove_file (temp_path h dir) (last t)"
    using eq valid data r free run by (cases e; simp)+
  from run_write_ops [OF run neq free] have t: "last t \<in> set t"
    "\<forall>g \<in> set t. \<forall>q. q \<noteq> path \<longrightarrow> q \<noteq> temp_path h dir \<longrightarrow> h_fs g q = h_fs h q"
    "\<forall>g \<in> set t. h_fault g = h_fault h \<and> h_uid g = h_uid h"
    "h_fs (last t) path = Some (File (h_inode h) (h_uid h) mode_file data)"
    using e by auto
  show ?thesis
    by (rule exI [of _ data], rule exI [of _ "h_inode h"])
      (use data t e neq child in \<open>auto simp: remove_file_def\<close>)
qed

lemma loadUnlocked_ok:
  "loadUnlocked s L h name = Inr c \<Longrightarrow>
   h_fs h (join_path (DataRoot s) name) = Some (Dir (h_uid h) mode_dir) \<and> cfg_name c = name
   \<and> Validate c = None"
  by (auto simp: loadUnlocked_def inspectOwnedDirectory_def lstat_def Let_def
      split: option.splits sum.splits if_splits node.splits dest: Decode_valid)

lemma loadUnlocked_keeps:
  assumes "keeps h h'" and "loadUnlocked s L h name = Inr c"
  shows "loadUnlocked s L h' name = Inr c"
proof -
  define d where "d = join_path (DataRoot s) name"
  define f where "f = join_path d configFilename"
  have d: "h_fs h d = Some (Dir (h_uid h) mode_dir)"
    unfolding d_def using loadUnlocked_ok [OF assms(2)] by simp
  from assms(2) obtain n where f: "h_fs h f = Some n"
    by (auto simp: loadUnlocked_def openOwnedRegular_def Let_def d_def [symmetric] f_def [symmetric]
        split: option.splits sum.splits if_splits)
  have same: "h_fs h' d = h_fs h d" "h_fs h' f = h_fs h f" "h_uid h' = h_uid h" "h_fault h' = h_fault h"
    using assms(1) d f by (simp_all add: keeps_def)
  have "loadUnlocked s L h' name = loadUnlocked s L h name"
    unfolding loadUnlocked_def Let_def d_def [symmetric] f_def [symmetric]
      inspectOwnedDirectory_def lstat_def openOwnedRegular_def same ..
  with assms(2) show ?thesis by simp
qed

text \<open>What artifact creation may touch, once the directories are there: nodes inside them, and never the
  directories themselves.\<close>

definition dirs_there :: "string list \<Rightarrow> host \<Rightarrow> bool" where
  "dirs_there ds h \<longleftrightarrow> closed_tree h \<and> (\<forall>d \<in> set ds. h_fs h d = Some (Dir (h_uid h) mode_dir))"

definition confined :: "string list \<Rightarrow> Config \<Rightarrow> Paths \<Rightarrow> artifacts \<Rightarrow> bool" where
  "confined ds c p f \<longleftrightarrow> (\<forall>h. dirs_there ds h \<longrightarrow> frame (under_any ds) h (snd (f c p h))
     \<and> (\<forall>d \<in> set ds. h_fs (snd (f c p h)) d = h_fs h d))"

lemma below_absent:
  assumes "closed_tree h" and "[] \<notin> set ds" and "\<forall>d \<in> set ds. h_fs h d = None" and "under_any ds q"
  shows "h_fs h q = None"
proof -
  from assms(4) obtain d where "d \<in> set ds" "under d q" by (auto simp: under_any_def)
  moreover from this have "d \<noteq> []" "h_fs h d = None" using assms(2,3) by auto
  ultimately show ?thesis using assms(1) by (simp add: closed_tree_def)
qed

text \<open>The part of \<open>Create\<close> after the directories are there.\<close>

definition populate ::
  "library \<Rightarrow> artifacts option \<Rightarrow> Config \<Rightarrow> Paths \<Rightarrow> string list \<Rightarrow> host \<Rightarrow> (store_error, unit) action" where
  "populate L arts config paths created h1 =
     (case (case arts of None \<Rightarrow> (None, h1) | Some f \<Rightarrow> f config paths h1) of
        (Some e, h2) \<Rightarrow> (Inl (ArtifactsError e), rollbackDirectories created h2)
      | (None, h2) \<Rightarrow>
          (case writeConfigAtomic L h2 (p_config paths) config of
             (Inl e, h3) \<Rightarrow> (Inl e, rollbackDirectories created h3)
           | (Inr _, h3) \<Rightarrow> (Inr (), h3)))"

lemma populate_fs:
  assumes art: "\<forall>f. arts = Some f \<longrightarrow> confined ds c paths f" and dir: "dir \<in> set ds"
    and path: "p_config paths = join_path dir configFilename"
    and made: "dirs_there ds h1"
  shows "(\<forall>q. \<not> under_any ds q \<longrightarrow> h_fs (snd (populate L arts c paths ds h1)) q = h_fs h1 q)
    \<and> h_fault (snd (populate L arts c paths ds h1)) = h_fault h1
    \<and> h_uid (snd (populate L arts c paths ds h1)) = h_uid h1
    \<and> (fst (populate L arts c paths ds h1) \<noteq> Inr () \<longrightarrow> (\<forall>p. \<not> h_fault h1 SysRemoveAll p) \<longrightarrow>
        (\<forall>q. under_any ds q \<longrightarrow> h_fs (snd (populate L arts c paths ds h1)) q = None))"
proof -
  define r where "r = (case arts of None \<Rightarrow> (None, h1) | Some f \<Rightarrow> f c paths h1)"
  define h2 where "h2 = snd r"
  have h2: "frame (under_any ds) h1 h2" "h_fs h2 dir = Some (Dir (h_uid h1) mode_dir)"
    using art dir made by (auto simp: h2_def r_def confined_def dirs_there_def split: option.split)
  define w where "w = writeConfigAtomic L h2 (p_config paths) c"
  have w: "\<forall>q. q \<noteq> p_config paths \<longrightarrow> q \<noteq> temp_path h2 dir \<longrightarrow> h_fs (snd w) q = h_fs h2 q"
    "h_fault (snd w) = h_fault h2" "h_uid (snd w) = h_uid h2"
    unfolding w_def using writeConfigAtomic_fs [OF path h2(2)] by auto
  have inside: "under_any ds (p_config paths)" "under_any ds (temp_path h2 dir)"
    unfolding under_any_def path temp_path_def using dir under_join by blast+
  have out: "h_fs (snd w) q = h_fs h1 q" "h_fs h2 q = h_fs h1 q" if "\<not> under_any ds q" for q
  proof -
    from that inside have "q \<noteq> p_config paths" "q \<noteq> temp_path h2 dir" by blast+
    moreover from h2(1) that show "h_fs h2 q = h_fs h1 q" by (simp add: frame_def)
    ultimately show "h_fs (snd w) q = h_fs h1 q" using w(1) by simp
  qed
  have some: "under_any (filter P ds) q \<Longrightarrow> under_any ds q" for P q
    by (auto simp: under_any_def)
  have pop: "populate L arts c paths ds h1 =
      (case fst r of Some e \<Rightarrow> (Inl (ArtifactsError e), rollbackDirectories ds h2)
       | None \<Rightarrow> (case fst w of Inl e \<Rightarrow> (Inl e, rollbackDirectories ds (snd w)) | Inr _ \<Rightarrow> (Inr (), snd w)))"
    by (simp add: populate_def r_def [symmetric] h2_def w_def split: prod.split option.split sum.split)
  show ?thesis
    unfolding pop using h2(1) w(2,3) out some
    by (auto simp: frame_def rollback_fs split: option.split sum.split)
qed

lemma create_dirs_closed: "closed_tree h \<Longrightarrow> fst (create_dirs made ds h) = Inr all \<Longrightarrow> closed_tree (snd (create_dirs made ds h))"
proof (induction ds arbitrary: made h)
  case (Cons d ds)
  then show ?case
    using createOwnedDirectory_closed [OF Cons.prems(1), of d] by (auto split: sum.splits prod.splits)
qed simp

lemma lockedCreate_unfold:
  "lockedCreate s L arts c h =
     (case lstat h (p_vm_dir (store_paths s c)) of
        Inr _ \<Rightarrow> (Inl (AlreadyExists (cfg_name c)), h)
      | Inl e \<Rightarrow>
          if e \<noteq> ENOENT then (Inl (InspectVM e), h)
          else then_do (create_dirs [] (create_candidates s c) h)
            (\<lambda>created h1. populate L arts c (store_paths s c) created h1))"
  unfolding lockedCreate_def populate_def Let_def ..

lemma lockedCreate_fs:
  assumes closed: "closed_tree h"
    and art: "\<forall>f. arts = Some f \<longrightarrow> confined (create_candidates s c) c (store_paths s c) f"
  shows "keeps h (snd (lockedCreate s L arts c h))
    \<and> (fst (lockedCreate s L arts c h) \<noteq> Inr () \<longrightarrow>
        (\<forall>p. \<not> h_fault h SysLstat p \<and> \<not> h_fault h SysRemoveAll p) \<longrightarrow>
        h_fs (snd (lockedCreate s L arts c h)) = h_fs h)"
proof -
  define ds where "ds = create_candidates s c"
  define dir where "dir = join_path (DataRoot s) (cfg_name c)"
  have dir: "dir \<in> set ds" "p_config (store_paths s c) = join_path dir configFilename"
    by (simp_all add: ds_def create_candidates_def dir_def Let_def)
  have nonempty: "[] \<notin> set ds"
    by (simp add: ds_def create_candidates_def Let_def RuntimeDir_def) (simp add: join_path_def)
  consider (same) "fst (lockedCreate s L arts c h) \<noteq> Inr ()" "snd (lockedCreate s L arts c h) = h"
    | (dirs) e h1 where "create_dirs [] ds h = (Inl e, h1)" "lockedCreate s L arts c h = (Inl e, h1)"
    | (made) h1 where "create_dirs [] ds h = (Inr ds, h1)"
        "lockedCreate s L arts c h = populate L arts c (store_paths s c) ds h1"
  proof (cases "create_dirs [] ds h")
    case (Pair r h1)
    show ?thesis
    proof (cases "lstat h (p_vm_dir (store_paths s c)) = Inl ENOENT")
      case False
      then show ?thesis
        by (intro same) (auto simp: lockedCreate_unfold split: sum.split)
    next
      case True
      then have eq: "lockedCreate s L arts c h =
          then_do (r, h1) (\<lambda>created h1. populate L arts c (store_paths s c) created h1)"
        by (simp add: lockedCreate_unfold Pair ds_def [symmetric])
      show ?thesis
      proof (cases r)
        case (Inl e)
        with Pair eq show ?thesis by (intro dirs) auto
      next
        case (Inr all)
        then have "all = ds" using create_dirs_ok [of "[]" ds h all h1] Pair by simp
        with Pair Inr eq show ?thesis by (intro made) auto
      qed
    qed
  qed
  then show ?thesis
  proof cases
    case same
    then show ?thesis by simp
  next
    case dirs
    have env: "h_fault h1 = h_fault h" "h_uid h1 = h_uid h"
      using create_dirs_env [of "[]" ds h] dirs(1) by auto
    from create_dirs_error [OF dirs(1) closed] nonempty obtain more where
      more: "\<forall>d \<in> set more. h_fs h d = None" "\<forall>q. \<not> under_any more q \<longrightarrow> h_fs h1 q = h_fs h q"
        "[] \<notin> set more"
      and clean: "(\<forall>p. \<not> h_fault h SysLstat p \<and> \<not> h_fault h SysRemoveAll p) \<longrightarrow> h_fs h1 = h_fs h"
      by auto
    have "h_fs h1 p = Some n" if "h_fs h p = Some n" for p n
      using that more(2) below_absent [OF closed more(3,1), of p] by (cases "under_any more p") auto
    with env clean dirs(2) show ?thesis by (simp add: keeps_def)
  next
    case made
    from create_dirs_ok [OF made(1)] have h1: "h_fault h1 = h_fault h" "h_uid h1 = h_uid h"
      "\<forall>d \<in> set ds. h_fs h d = None" "\<forall>d \<in> set ds. h_fs h1 d = Some (Dir (h_uid h) mode_dir)"
      "\<forall>q. q \<notin> set ds \<longrightarrow> h_fs h1 q = h_fs h q"
      by auto
    have there: "dirs_there ds h1"
      using create_dirs_closed [OF closed, of "[]" ds] made(1) h1(2,4) by (simp add: dirs_there_def)
    have absent: "under_any ds q \<Longrightarrow> h_fs h q = None" for q
      by (rule below_absent [OF closed nonempty h1(3)])
    have outside: "\<not> under_any ds q \<Longrightarrow> q \<notin> set ds" for q
      by (auto simp: under_any_def)
    note pop = populate_fs [OF art [folded ds_def] dir(1,2) there, where L = L, folded made(2)]
    have out: "h_fs (snd (lockedCreate s L arts c h)) q = h_fs h q" if "\<not> under_any ds q" for q
      using pop that outside h1(5) by simp
    have "h_fs (snd (lockedCreate s L arts c h)) p = Some n" if "h_fs h p = Some n" for p n
      using that out absent by (cases "under_any ds p") auto
    moreover have "h_fs (snd (lockedCreate s L arts c h)) = h_fs h"
      if "fst (lockedCreate s L arts c h) \<noteq> Inr ()" "\<forall>p. \<not> h_fault h SysLstat p \<and> \<not> h_fault h SysRemoveAll p"
    proof
      fix q
      show "h_fs (snd (lockedCreate s L arts c h)) q = h_fs h q"
        using pop that h1(1) out absent by (cases "under_any ds q") auto
    qed
    ultimately show ?thesis using pop h1 by (simp add: keeps_def)
  qed
qed


section \<open>Properties of the store\<close>

text \<open>A tree for the witnesses: the three roots, the locks directory and one stored machine.\<close>

definition sample_store :: Store where
  "sample_store = \<lparr>DataRoot = ''/d'', RuntimeRoot = ''/r'', LogRoot = ''/l''\<rparr>"

definition sample_dirs :: "(string \<times> node) list" where
  "sample_dirs = [(''/d/.locks'', Dir 501 mode_dir), (''/d'', Dir 501 mode_dir),
     (''/r'', Dir 501 mode_dir), (''/l'', Dir 501 mode_dir)]"

definition empty_host :: host where
  "empty_host = \<lparr>h_fs = map_of sample_dirs, h_locks = {}, h_inode = 7, h_uid = 501,
     h_fault = (\<lambda>_ _. False)\<rparr>"

definition sample_vm_nodes :: "(string \<times> node) list" where
  "sample_vm_nodes =
     [(''/d/home-assistant/config.json'', File 3 501 mode_file ''{}''),
      (''/d/home-assistant'', Dir 501 mode_dir), (''/l/home-assistant'', Dir 501 mode_dir)]"

definition sample_host :: host where
  "sample_host = empty_host\<lparr>h_fs := map_of (sample_vm_nodes @ sample_dirs)\<rparr>"

lemmas sample_defs = sample_store_def sample_host_def empty_host_def sample_dirs_def sample_vm_nodes_def

text \<open>The two validators of names in the sources agree: the byte scan that guards every path of
  the store accepts exactly the names that the schema's pattern accepts, and the identity check for
  runtime directories exactly the identities of a valid configuration. A name that passes therefore
  has no slash and does not start with a dot.\<close>

lemma name_validators_agree:
  "(validateName name = None) = namePattern name \<and> (validateIDForPath i = None) = idPattern i
   \<and> (validateName name = None) = (name \<noteq> [] \<and> length name \<le> 63 \<and> is_alnum (hd name)
        \<and> list_all (\<lambda>c. is_alnum c \<or> c = CHR ''.'' \<or> c = CHR ''_'' \<or> c = CHR ''-'') name)"
  by (cases name)
    (auto simp: validateName_None_iff validateIDForPath_None_iff namePattern_def name_rest_byte_def list_all_iff)

text \<open>C7. The write of the configuration is atomic at every step: whatever step fails or wherever the
  process stops, the configuration path holds either the node it held before or the complete new
  text under the owner's private mode, and no other node than the temporary file has changed.\<close>

theorem atomic_write_old_or_new:
  assumes "h_fs h (temp_path h dir) = None" and "path = join_path dir configFilename"
    and "g \<in> set (snd (run_ops path h (write_ops (temp_path h dir) path data)))"
  shows "(h_fs g path = h_fs h path
      \<or> h_fs g path = Some (File (h_inode h) (h_uid h) mode_file data))
    \<and> (\<forall>q. q \<noteq> path \<longrightarrow> q \<noteq> temp_path h dir \<longrightarrow> h_fs g q = h_fs h q)"
proof -
  obtain e t where run: "run_ops path h (write_ops (temp_path h dir) path data) = (e, t)"
    by (cases "run_ops path h (write_ops (temp_path h dir) path data)")
  have "temp_path h dir \<noteq> path" unfolding assms(2) by (rule temp_not_config)
  from run_write_ops [OF run this assms(1)] show ?thesis using assms(3) run by simp
qed

theorem atomic_write_old_or_new_witness:
  "h_fs (last (snd (run_ops ''/d/home-assistant/config.json'' sample_host
     (write_ops (temp_path sample_host ''/d/home-assistant'') ''/d/home-assistant/config.json'' ''new'')))) ''/d/.locks''
   = Some (Dir 501 mode_dir)"
proof -
  have path: "''/d/home-assistant/config.json'' = join_path ''/d/home-assistant'' configFilename"
    by (simp add: join_path_def configFilename_def)
  have free: "h_fs sample_host (temp_path sample_host ''/d/home-assistant'') = None"
    by (simp add: sample_defs temp_path_def join_path_def)
  let ?t = "snd (run_ops ''/d/home-assistant/config.json'' sample_host
     (write_ops (temp_path sample_host ''/d/home-assistant'') ''/d/home-assistant/config.json'' ''new''))"
  have "last ?t \<in> set ?t"
    by (simp add: write_ops_def sample_defs)
  from atomic_write_old_or_new [OF free path this] show ?thesis
    by (simp add: temp_path_def join_path_def) (simp add: sample_defs)
qed

lemma run_write_ops_error:
  assumes "run_ops path h (write_ops tmp path data) = (Some e, t)" and "tmp \<noteq> path" and "h_fs h tmp = None"
    and "e \<noteq> EFAULTED SysOpenDir" and "e \<noteq> EFAULTED SysSyncDir"
  shows "h_fs (remove_file tmp (last t)) = h_fs h"
  using assms by (auto simp: write_ops_def remove_file_def fun_eq_iff split: if_splits)

text \<open>A write of the configuration that reports an error leaves the whole tree as it was, unless the
  error is the directory synchronisation after the rename: every failure before, the rename
  included, has removed the temporary file and kept the old configuration.\<close>

lemma failed_write_keeps_tree:
  assumes "writeConfigAtomic L h path c = (Inl e, h')" and "path = join_path dir configFilename"
    and "h_fs h dir = Some (Dir u m)"
    and "e \<notin> {WriteError (EFAULTED SysOpenDir), WriteError (EFAULTED SysSyncDir)}"
  shows "h_fs h' = h_fs h"
proof -
  have dir: "parent_dir path = dir" unfolding assms(2) by simp
  obtain r where ens: "ensureOwnedDirectory h dir = (r, h)"
    using ensureOwnedDirectory_existing [OF assms(3)] by (metis prod.collapse)
  have neq: "temp_path h dir \<noteq> path" unfolding assms(2) by (rule temp_not_config)
  show ?thesis
    using assms(1,4) run_write_ops_error [OF _ neq]
    by (auto simp: writeConfigAtomic_def dir Let_def ens wrap_err_def
        split: option.splits sum.splits if_splits prod.splits)
qed

lemma failed_write_keeps_tree_witness:
  "h_fs (snd (writeConfigAtomic sample_library
     (sample_host\<lparr>h_fault := (\<lambda>call _. call = SysRename)\<rparr>) ''/d/home-assistant/config.json'' sample_config)) ''/d/home-assistant/config.json''
   = Some (File 3 501 mode_file ''{}'')"
proof -
  let ?h = "sample_host\<lparr>h_fault := (\<lambda>call _. call = SysRename)\<rparr>"
  have path: "''/d/home-assistant/config.json'' = join_path ''/d/home-assistant'' configFilename"
    by (simp add: join_path_def configFilename_def)
  have dir: "h_fs ?h ''/d/home-assistant'' = Some (Dir 501 mode_dir)" by (simp add: sample_defs)
  have parent: "parent_dir ''/d/home-assistant/config.json'' = ''/d/home-assistant''" by code_simp
  have ens: "ensureOwnedDirectory ?h ''/d/home-assistant'' = (Inr (), ?h)"
    by (simp add: ensureOwnedDirectory_def mkdir_all_existing is_dir_at_def inspectOwnedDirectory_def
        lstat_def sample_defs)
  have "\<exists>h'. writeConfigAtomic sample_library ?h ''/d/home-assistant/config.json'' sample_config
      = (Inl (WriteError (EFAULTED SysRename)), h')"
    by (simp add: writeConfigAtomic_def CanonicalJSON_def sample_config_valid sample_library_def parent
        Let_def ens) (simp add: write_ops_def temp_path_def join_path_def sample_defs)
  then obtain h' where h': "writeConfigAtomic sample_library ?h ''/d/home-assistant/config.json'' sample_config
      = (Inl (WriteError (EFAULTED SysRename)), h')" ..
  from failed_write_keeps_tree [OF h' path dir] have "h_fs h' = h_fs ?h" by simp
  then show ?thesis unfolding h' by (simp add: sample_defs)
qed


lemma lockedSave_stored:
  assumes "lockedSave s L (cfg_name c) c h = (Inr (), h')"
  shows "\<exists>data ino. CanonicalJSON L c = Inr data
    \<and> h_fs h' (p_config (store_paths s c)) = Some (File ino (h_uid h') mode_file data)
    \<and> h_fs h' (p_vm_dir (store_paths s c)) = Some (Dir (h_uid h') mode_dir)
    \<and> h_fault h' = h_fault h"
proof -
  let ?d = "join_path (DataRoot s) (cfg_name c)"
  from assms have cur: "\<exists>cur. loadUnlocked s L h (cfg_name c) = Inr cur"
    and w: "writeConfigAtomic L h (join_path ?d configFilename) c = (Inr (), h')"
    by (auto simp: lockedSave_def split: sum.splits if_splits)
  from cur have d: "h_fs h ?d = Some (Dir (h_uid h) mode_dir)"
    using loadUnlocked_ok by blast
  from writeConfigAtomic_ok [OF refl w d] d show ?thesis by fastforce
qed

text \<open>A stored configuration whose text decodes is loaded.\<close>

lemma stored_loads:
  assumes "CanonicalJSON L c = Inr data" and "text_decodes L c"
    and "h_fs h (p_config (store_paths s c)) = Some (File ino (h_uid h) mode_file data)"
    and "h_fs h (p_vm_dir (store_paths s c)) = Some (Dir (h_uid h) mode_dir)"
    and "\<And>call p. call \<in> {SysLstat, SysOpen, SysFstat} \<Longrightarrow> \<not> h_fault h call p"
  shows "Load s L h (cfg_name c) = Inr c"
proof -
  have valid: "Validate c = None" using assms(1) by (rule CanonicalJSON_valid)
  then have "namePattern (cfg_name c)" by (simp add: Validate_None_iff wf_config_def wf_scalars_def)
  then have name: "validateName (cfg_name c) = None" by (simp add: validateName_None_iff)
  have dec: "Decode L data = Inr c"
    using Decode_CanonicalJSON [OF valid assms(2)] assms(1) by auto
  show ?thesis
    using assms(3-5)
    by (simp add: Load_def name loadUnlocked_def Let_def inspectOwnedDirectory_def lstat_def
        openOwnedRegular_def dec)
qed

text \<open>C10. A configuration that was saved is the one that is loaded afterwards, for every name, in any
  state of the host in which the read calls do not fail, if the JSON library reads back the text it
  wrote for this configuration.\<close>

theorem Save_then_Load:
  assumes "Save s L c h = (Inr (), h')" and "text_decodes L c"
    and "\<And>call p. call \<in> {SysLstat, SysOpen, SysFstat} \<Longrightarrow> \<not> h_fault h call p"
  shows "Load s L h' (cfg_name c) = Inr c"
proof -
  from assms(1) obtain l h1 h2 where save: "lockedSave s L (cfg_name c) c h1 = (Inr (), h2)"
    and h': "h' = unlock l h2" and lock: "LockName s h (cfg_name c) = (Inr l, h1)"
    by (auto simp: Save_def then_do_Inr with_lock_def split: option.splits prod.splits)
      (metis prod.collapse)
  from lockedSave_stored [OF save] obtain data ino where stored: "CanonicalJSON L c = Inr data"
    "h_fs h2 (p_config (store_paths s c)) = Some (File ino (h_uid h2) mode_file data)"
    "h_fs h2 (p_vm_dir (store_paths s c)) = Some (Dir (h_uid h2) mode_dir)" "h_fault h2 = h_fault h1"
    by auto
  have "h_fault h1 = h_fault h"
    using LockName_keeps [of h s "cfg_name c"] lock by (simp add: keeps_def)
  then show ?thesis
    by (intro stored_loads [OF stored(1) assms(2), of _ _ ino]) (use stored assms(3) h' in auto)
qed

lemma ensureOwnedDirectory_owned:
  "h_fs h p = Some (Dir (h_uid h) mode_dir) \<Longrightarrow> \<not> h_fault h SysLstat p \<Longrightarrow>
   ensureOwnedDirectory h p = (Inr (), h)"
  by (simp add: ensureOwnedDirectory_def mkdir_all_existing is_dir_at_def inspectOwnedDirectory_def lstat_def)

text \<open>Taking the name lock when the roots and the locks directory are there.\<close>

definition after_lock :: "host \<Rightarrow> host" where
  "after_lock h = h\<lparr>h_fs := (h_fs h)(''/d/.locks/home-assistant.lock'' \<mapsto> File (h_inode h) 501 mode_file []),
     h_inode := Suc (h_inode h), h_locks := insert (h_inode h) (h_locks h)\<rparr>"

lemma sample_name: "cfg_name sample_config = ''home-assistant''" "cfg_id sample_config = ''0123456789abcdef0123456789abcdef''"
  "cfg_autostart_scope sample_config = AutostartNone"
  by (simp_all add: sample_config_def AutostartNone_def)

text \<open>The name lock of a machine, computed once for every host that has the roots.\<close>

lemma ensureRoots_ready:
  assumes "\<And>p. p \<in> {DataRoot s, RuntimeRoot s, LogRoot s} \<Longrightarrow> is_abs_path p"
    and "\<And>p. p \<in> {DataRoot s, RuntimeRoot s, LogRoot s} \<Longrightarrow> ensureOwnedDirectory h p = (Inr (), h)"
  shows "ensureRoots s h = (Inr (), h)"
proof -
  have "ensureRoot h d p = (Inr (), h)" if "p \<in> {DataRoot s, RuntimeRoot s, LogRoot s}" for d p
  proof -
    have "is_abs_path p" by (rule assms(1) [OF that])
    moreover have "p \<noteq> []" using calculation by (auto simp: is_abs_path_def has_prefix_def)
    ultimately show ?thesis using assms(2) [OF that] by (simp add: ensureRoot_def)
  qed
  then show ?thesis by (simp add: ensureRoots_def)
qed

lemma LockName_ready:
  assumes "validateName name = None"
    and "\<And>p. p \<in> {DataRoot s, RuntimeRoot s, LogRoot s} \<Longrightarrow> is_abs_path p"
    and "\<And>p. p \<in> {DataRoot s, RuntimeRoot s, LogRoot s, join_path (DataRoot s) locksDirectory} \<Longrightarrow>
      h_fs h p = Some (Dir (h_uid h) mode_dir)"
    and "h_fault h = (\<lambda>_ _. False)" and "lock = join_path (join_path (DataRoot s) locksDirectory) (name @ ''.lock'')"
    and "h_fs h lock = None" and "h_inode h \<notin> h_locks h" and "CHR ''/'' \<notin> set name"
  shows "LockName s h name =
    (Inr (h_inode h), h\<lparr>h_fs := (h_fs h)(lock \<mapsto> File (h_inode h) (h_uid h) mode_file []),
       h_inode := Suc (h_inode h), h_locks := insert (h_inode h) (h_locks h)\<rparr>)"
proof -
  have dirs: "ensureOwnedDirectory h p = (Inr (), h)"
    if "p \<in> {DataRoot s, RuntimeRoot s, LogRoot s, join_path (DataRoot s) locksDirectory}" for p
    using assms(3) [OF that] assms(4) by (simp add: ensureOwnedDirectory_owned)
  have roots: "ensureRoots s h = (Inr (), h)"
    by (rule ensureRoots_ready [OF assms(2)]) (auto intro: dirs)
  have parent: "parent_dir lock = join_path (DataRoot s) locksDirectory"
    unfolding assms(5) using assms(8) by (intro parent_join) auto
  have dir: "is_dir_at h (join_path (DataRoot s) locksDirectory)"
    using assms(3) [of "join_path (DataRoot s) locksDirectory"] by (simp add: is_dir_at_def)
  have "openLock h lock False = (Inr (Acquired (h_inode h)),
      h\<lparr>h_fs := (h_fs h)(lock \<mapsto> File (h_inode h) (h_uid h) mode_file []),
        h_inode := Suc (h_inode h), h_locks := insert (h_inode h) (h_locks h)\<rparr>)"
    using assms(4,6,7) dir by (simp add: openLock_def parent lock_validated_def Let_def)
  then show ?thesis
    by (simp add: LockName_def assms(1) roots dirs assms(5) [symmetric])
qed

lemma sample_LockName:
  "LockName sample_store sample_host ''home-assistant'' = (Inr 7, after_lock sample_host)"
  "LockName sample_store empty_host ''home-assistant'' = (Inr 7, after_lock empty_host)"
proof -
  have name: "validateName ''home-assistant'' = None" by code_simp
  show "LockName sample_store sample_host ''home-assistant'' = (Inr 7, after_lock sample_host)"
    by (subst LockName_ready [OF name _ _ _ refl])
      (auto simp: sample_defs is_abs_path_def has_prefix_def join_path_def locksDirectory_def after_lock_def)
  show "LockName sample_store empty_host ''home-assistant'' = (Inr 7, after_lock empty_host)"
    by (subst LockName_ready [OF name _ _ _ refl])
      (auto simp: sample_defs is_abs_path_def has_prefix_def join_path_def locksDirectory_def after_lock_def)
qed

lemma sample_Decode: "Decode sample_library ''{}'' = Inr sample_config"
proof -
  have raw: "validateRawJSONUnicode ''{}'' = None" and trim: "trim_space ''{}'' = ''{}''" by code_simp+
  show ?thesis
    by (simp add: Decode_def raw sample_library_def trim schema_accepted_def sample_config_valid)
qed

lemma sample_stored: "loadUnlocked sample_store sample_library sample_host ''home-assistant'' = Inr sample_config"
proof -
  have data: "openOwnedRegular sample_host ''/d/home-assistant/config.json'' = Inr ''{}''"
    by (simp add: openOwnedRegular_def sample_defs)
  have dir: "inspectOwnedDirectory sample_host ''/d/home-assistant'' = None"
    by (simp add: inspectOwnedDirectory_def lstat_def sample_defs)
  have paths: "join_path (DataRoot sample_store) ''home-assistant'' = ''/d/home-assistant''"
    "join_path ''/d/home-assistant'' configFilename = ''/d/home-assistant/config.json''"
    by (simp_all add: sample_store_def join_path_def configFilename_def)
  show ?thesis by (simp add: loadUnlocked_def paths dir data sample_Decode sample_name)
qed

lemma sample_load:
  "loadUnlocked sample_store sample_library (after_lock sample_host) ''home-assistant'' = Inr sample_config"
proof (rule loadUnlocked_keeps [OF _ sample_stored])
  show "keeps sample_host (after_lock sample_host)"
    using LockName_keeps [of sample_host sample_store "''home-assistant''"] by (simp add: sample_LockName)
qed

theorem Save_then_Load_witness:
  "Load sample_store sample_library (snd (Save sample_store sample_library sample_config sample_host)) ''home-assistant''
   = Inr sample_config"
proof -
  have parent: "parent_dir ''/d/home-assistant/config.json'' = ''/d/home-assistant''" by code_simp
  have ens: "ensureOwnedDirectory (after_lock sample_host) ''/d/home-assistant'' = (Inr (), after_lock sample_host)"
    by (rule ensureOwnedDirectory_owned) (simp_all add: after_lock_def sample_defs)
  have paths: "p_config (store_paths sample_store sample_config) = ''/d/home-assistant/config.json''"
    by (simp add: sample_store_def sample_name join_path_def configFilename_def)
  have "fst (writeConfigAtomic sample_library (after_lock sample_host) ''/d/home-assistant/config.json'' sample_config) = Inr ()"
    by (simp add: writeConfigAtomic_def CanonicalJSON_def sample_config_valid sample_library_def parent
        Let_def ens) (simp add: write_ops_def temp_path_def join_path_def after_lock_def sample_defs)
  then have "fst (Save sample_store sample_library sample_config sample_host) = Inr ()"
    by (simp add: Save_def sample_config_valid sample_name sample_LockName lockedSave_def sample_load
        paths del: store_paths_dirs)
  then obtain h' where saved: "Save sample_store sample_library sample_config sample_host = (Inr (), h')"
    by (metis prod.collapse)
  have "\<not> h_fault sample_host call p" for call p by (simp add: sample_defs)
  with Save_then_Load [OF saved sample_library_decodes] show ?thesis
    by (simp add: saved sample_name)
qed


text \<open>A tree listed with the latest node first, each below a directory that is already there.\<close>

fun parents_first :: "host \<Rightarrow> (string \<times> node) list \<Rightarrow> bool" where
  "parents_first h [] = True"
| "parents_first h ((p, n) # nodes) =
     (parents_first h nodes \<and> is_dir_at (h\<lparr>h_fs := map_of nodes\<rparr>) (parent_dir p))"

lemma parents_first_closed: "parents_first h nodes \<Longrightarrow> closed_tree (h\<lparr>h_fs := map_of nodes\<rparr>)"
proof (induction nodes)
  case Nil
  then show ?case by (simp add: closed_tree_def)
next
  case (Cons a nodes)
  obtain p n where a: "a = (p, n)" by (cases a)
  from Cons.prems have first: "parents_first h nodes"
    "is_dir_at (h\<lparr>h_fs := map_of nodes\<rparr>) (parent_dir p)"
    unfolding a by simp_all
  show ?case
    by (rule closed_tree_add [OF Cons.IH [OF first(1)] first(2), of _ n]) (simp add: a fun_upd_def)
qed

lemma sample_closed: "closed_tree sample_host" "closed_tree empty_host"
proof -
  have parents: "parent_dir ''/d'' = ''''" "parent_dir ''/r'' = ''''" "parent_dir ''/l'' = ''''"
    "parent_dir ''/d/.locks'' = ''/d''" "parent_dir ''/d/home-assistant'' = ''/d''"
    "parent_dir ''/l/home-assistant'' = ''/l''"
    "parent_dir ''/d/home-assistant/config.json'' = ''/d/home-assistant''"
    by code_simp+
  have "parents_first empty_host (sample_vm_nodes @ sample_dirs)" "parents_first empty_host sample_dirs"
    by (simp_all add: sample_vm_nodes_def sample_dirs_def parents is_dir_at_def)
  note trees = this [THEN parents_first_closed]
  show "closed_tree sample_host" unfolding sample_host_def by (rule trees(1))
  have "empty_host\<lparr>h_fs := map_of sample_dirs\<rparr> = empty_host" by (simp add: empty_host_def)
  with trees(2) show "closed_tree empty_host" by simp
qed

text \<open>\<open>Create\<close> never changes what exists: every node of the tree, of other machines and of this
  one, is the same afterwards, whether it succeeds, finds the name taken, or fails at any step and
  rolls back. Artifact creation is assumed to touch only nodes inside the three new directories.\<close>

lemma Create_keeps_existing:
  assumes "closed_tree h" and "\<And>f. arts = Some f \<Longrightarrow> confined (create_candidates s c) c (store_paths s c) f"
  shows "keeps h (snd (Create s L arts c h))"
proof (cases "Validate c")
  case None
  have closed: "closed_tree (snd (LockName s h (cfg_name c)))"
    by (rule LockName_closed [OF assms(1)])
  have "keeps h (snd (then_do (LockName s h (cfg_name c)) (\<lambda>l h1. with_lock l (lockedCreate s L arts c h1))))"
  proof (rule then_do_rel [where Q = keeps])
    show "keeps h (snd (LockName s h (cfg_name c)))" by (rule LockName_keeps)
    show "keeps (snd (LockName s h (cfg_name c)))
      (snd (with_lock l (lockedCreate s L arts c (snd (LockName s h (cfg_name c))))))" for l
      using lockedCreate_fs [OF closed, of arts s c L] assms(2) by simp
  qed (rule keeps_trans)
  with None show ?thesis by (simp add: Create_def)
qed (simp add: Create_def)

lemma Create_keeps_existing_witness:
  "h_fs (snd (Create sample_store sample_library None sample_config sample_host)) ''/d/home-assistant/config.json''
   = Some (File 3 501 mode_file ''{}'')"
  using Create_keeps_existing [OF sample_closed(1), of None sample_store sample_config sample_library]
  by (simp add: keeps_def) (simp add: sample_defs)

text \<open>A creation under the name lock that fails leaves no trace: unless inspecting or removing a
  directory itself fails, the tree is node for node the one before, whichever of the three
  directories, the artifacts or the configuration could not be made.\<close>

lemma failed_create_leaves_no_trace:
  assumes "closed_tree h" and "\<And>f. arts = Some f \<Longrightarrow> confined (create_candidates s c) c (store_paths s c) f"
    and "fst (lockedCreate s L arts c h) \<noteq> Inr ()"
    and "\<And>p. \<not> h_fault h SysLstat p \<and> \<not> h_fault h SysRemoveAll p"
  shows "h_fs (snd (lockedCreate s L arts c h)) = h_fs h"
  using lockedCreate_fs [OF assms(1), of arts s c L] assms(2-4) by blast

lemma failed_create_leaves_no_trace_witness:
  "h_fs (snd (lockedCreate sample_store sample_library None sample_config
     (empty_host\<lparr>h_fs := map_of ((''/l/home-assistant'', Dir 501 mode_dir) # sample_dirs)\<rparr>)))
   ''/d/home-assistant'' = None"
proof -
  let ?h = "empty_host\<lparr>h_fs := map_of ((''/l/home-assistant'', Dir 501 mode_dir) # sample_dirs)\<rparr>"
  have parents: "parent_dir ''/l/home-assistant'' = ''/l''" "parent_dir ''/d/home-assistant'' = ''/d''"
    "parent_dir ''/l/home-assistant/qemu.log'' = ''/l/home-assistant''"
    by code_simp+
  have closed: "closed_tree ?h"
    by (rule closed_tree_add [OF sample_closed(2), of "''/l/home-assistant''" _ "Dir 501 mode_dir"])
      (auto simp: parents is_dir_at_def empty_host_def sample_dirs_def)
  have made: "createOwnedDirectory ?h ''/d/home-assistant'' =
      (Inr (), ?h\<lparr>h_fs := (h_fs ?h)(''/d/home-assistant'' \<mapsto> Dir 501 mode_dir)\<rparr>)"
    by (subst createOwnedDirectory_def, subst mkdir_def)
      (simp add: parents is_dir_at_def sample_dirs_def empty_host_def ensureOwnedDirectory_owned)
  have "fst (lockedCreate sample_store sample_library None sample_config ?h) \<noteq> Inr ()"
  proof -
    have "fst (create_dirs [] (create_candidates sample_store sample_config) ?h) = Inl (CreateDirError EEXIST)"
      by (simp add: create_candidates_def Let_def sample_name sample_store_def join_path_def made [simplified]
          parents store_paths_def) (simp add: createOwnedDirectory_def mkdir_def empty_host_def)
    then show ?thesis
      by (auto simp: lockedCreate_unfold then_do_def split: sum.split prod.split)
  qed
  from failed_create_leaves_no_trace [OF closed _ this] show ?thesis
    by (simp add: sample_dirs_def empty_host_def)
qed


lemma lockedCreate_stored:
  assumes "closed_tree h" and art: "\<And>f. arts = Some f \<Longrightarrow> confined (create_candidates s c) c (store_paths s c) f"
    and ok: "lockedCreate s L arts c h = (Inr (), h')"
  shows "\<exists>data ino. CanonicalJSON L c = Inr data
    \<and> h_fs h' (p_config (store_paths s c)) = Some (File ino (h_uid h') mode_file data)
    \<and> h_fs h' (p_vm_dir (store_paths s c)) = Some (Dir (h_uid h') mode_dir)
    \<and> h_fault h' = h_fault h \<and> (\<forall>d \<in> set (create_candidates s c). h_fs h d = None)"
proof -
  define ds where "ds = create_candidates s c"
  define dir where "dir = join_path (DataRoot s) (cfg_name c)"
  have vm: "dir \<in> set ds" by (simp add: ds_def create_candidates_def dir_def Let_def)
  from ok obtain created h1 where made: "create_dirs [] ds h = (Inr created, h1)"
    and pop: "populate L arts c (store_paths s c) created h1 = (Inr (), h')"
    by (auto simp: lockedCreate_unfold ds_def then_do_Inr split: sum.splits if_splits)
  from create_dirs_ok [OF made] have h1: "h_fs h1 dir = Some (Dir (h_uid h1) mode_dir)"
    "h_fault h1 = h_fault h" "\<forall>d \<in> set ds. h_fs h d = None"
    and there: "dirs_there ds h1"
    using vm create_dirs_closed [OF assms(1), of "[]" ds] made by (auto simp: dirs_there_def)
  from pop obtain h2 where h2: "(case arts of None \<Rightarrow> (None, h1) | Some f \<Rightarrow> f c (store_paths s c) h1) = (None, h2)"
    and w: "writeConfigAtomic L h2 (join_path dir configFilename) c = (Inr (), h')"
    by (auto simp: populate_def dir_def split: prod.splits option.splits sum.splits)
  have "frame (under_any ds) h1 h2 \<and> h_fs h2 dir = h_fs h1 dir"
  proof (cases arts)
    case None
    with h2 show ?thesis by simp
  next
    case (Some f)
    with h2 have "h2 = snd (f c (store_paths s c) h1)" by (metis option.simps(5) snd_conv)
    with art [OF Some] vm there show ?thesis by (simp add: confined_def ds_def [symmetric])
  qed
  then have d2: "h_fs h2 dir = Some (Dir (h_uid h2) mode_dir)" "h_fault h2 = h_fault h"
    using h1 by (simp_all add: frame_def)
  from writeConfigAtomic_ok [OF refl w d2(1)] d2 h1(3) show ?thesis
    by (auto simp: dir_def ds_def [symmetric])
qed

text \<open>A machine that was created is there: its three directories did not exist before, its
  configuration is stored under its name, and \<open>Load\<close> returns it, if the artifacts stay inside the new
  directories and the library reads back what it wrote.\<close>

lemma Create_then_Load:
  assumes "closed_tree h" and "\<And>f. arts = Some f \<Longrightarrow> confined (create_candidates s c) c (store_paths s c) f"
    and "Create s L arts c h = (Inr (), h')" and "text_decodes L c"
    and "\<And>call p. call \<in> {SysLstat, SysOpen, SysFstat} \<Longrightarrow> \<not> h_fault h call p"
  shows "Load s L h' (cfg_name c) = Inr c \<and> h_fs h (p_vm_dir (store_paths s c)) = None"
proof -
  from assms(3) obtain l h1 h2 where locked: "LockName s h (cfg_name c) = (Inr l, h1)"
    and create: "lockedCreate s L arts c h1 = (Inr (), h2)" and h': "h' = unlock l h2"
    by (auto simp: Create_def then_do_Inr with_lock_def split: option.splits prod.splits)
      (metis prod.collapse)
  have keeps: "keeps h h1" using LockName_keeps [of h s "cfg_name c"] locked by simp
  have "closed_tree h1" using LockName_closed [OF assms(1), of s "cfg_name c"] locked by simp
  from lockedCreate_stored [OF this assms(2) create] obtain data ino where
    stored: "CanonicalJSON L c = Inr data"
    "h_fs h2 (p_config (store_paths s c)) = Some (File ino (h_uid h2) mode_file data)"
    "h_fs h2 (p_vm_dir (store_paths s c)) = Some (Dir (h_uid h2) mode_dir)" "h_fault h2 = h_fault h1"
    and fresh: "\<forall>d \<in> set (create_candidates s c). h_fs h1 d = None"
    by auto
  have "h_fs h1 (p_vm_dir (store_paths s c)) = None"
    using fresh by (simp add: create_candidates_def Let_def)
  then have "h_fs h (p_vm_dir (store_paths s c)) = None"
    using keeps by (cases "h_fs h (p_vm_dir (store_paths s c))") (auto simp: keeps_def)
  moreover have "Load s L h' (cfg_name c) = Inr c"
    by (rule stored_loads [OF stored(1) assms(4), of _ _ ino])
      (use stored keeps assms(5) h' in \<open>auto simp: keeps_def\<close>)
  ultimately show ?thesis by blast
qed

lemma remove_managed_ok:
  assumes "remove_managed s c h = (Inr (), h')" and "d \<in> set (create_candidates s c)" and "under d q"
  shows "h_fs h' q = None"
  using assms
  by (auto simp: remove_managed_def create_candidates_def remove_all_def Let_def then_do_Inr wrap_err_Inr
      split: if_splits)

lemma tryLifetime_acquired:
  assumes "tryLifetime s h i = (Inr (Acquired l), h')"
  shows "\<not> lock_held h (join_path (RuntimeDir s i) ''lifetime.lock'')"
proof
  let ?p = "join_path (RuntimeDir s i) ''lifetime.lock''"
  assume held: "lock_held h ?p"
  from assms obtain u1 h1 u2 h2 where dirs: "ensureRoots s h = (Inr u1, h1)"
    "ensureOwnedDirectory h1 (RuntimeDir s i) = (Inr u2, h2)"
    and lock: "openLock h2 ?p True = (Inr (Acquired l), h')"
    by (auto simp: tryLifetime_def then_do_Inr wrap_err_Inr split: option.splits)
  have "grows h h1" "grows h1 h2"
    using ensureRoots_grows [of h s] ensureOwnedDirectory_grows [of h1 "RuntimeDir s i"] dirs by simp_all
  then have "lock_held h2 ?p" using held by (blast intro: grows_held)
  with flock.exclusive lock show False by blast
qed

text \<open>A running machine is never deleted: while its lifetime lock is held, \<open>Delete\<close> fails and
  every node that existed is still there, whatever the inspector says.\<close>

lemma Delete_refuses_running:
  assumes "loadUnlocked s L h name = Inr c" and "lock_held h (p_lifetime_lock (store_paths s c))"
  shows "fst (Delete s L inspect name h) \<noteq> Inr () \<and> keeps h (snd (Delete s L inspect name h))"
proof (cases inspect)
  case (Some ins)
  define r where "r = LockName s h name"
  have locked: "keeps h (snd r)" "lock_held (snd r) (p_lifetime_lock (store_paths s c))"
    unfolding r_def using LockName_keeps LockName_held assms(2) by auto
  have load: "loadUnlocked s L (snd r) name = Inr c" by (rule loadUnlocked_keeps [OF locked(1) assms(1)])
  have refuse: "fst (lockedDelete s L ins name (snd r)) \<noteq> Inr ()
      \<and> keeps (snd r) (snd (lockedDelete s L ins name (snd r)))"
  proof (cases "tryLifetime s (snd r) (cfg_id c)")
    case (Pair out h2)
    have kept: "keeps (snd r) h2" using tryLifetime_keeps [of "snd r" s "cfg_id c"] Pair by simp
    have "out \<noteq> Inr (Acquired l)" for l
      using tryLifetime_acquired [of s "snd r" "cfg_id c" l h2] locked(2) Pair by auto
    with kept Pair load show ?thesis
      by (cases out) (auto simp: lockedDelete_def split: sum.split lock_outcome.split)
  qed
  with locked(1) Some show ?thesis
    by (cases r) (auto simp: Delete_def r_def [symmetric] then_do_def split: sum.split intro: keeps_trans)
qed (simp add: Delete_def)

text \<open>A deletion that succeeds was of a machine with that name, stored under the name lock, that
  was not registered for autostart, whose lifetime lock was free and which the inspector accepted;
  nothing is left below its directory, its log directory and its runtime directory.\<close>

lemma Delete_success:
  assumes "Delete s L (Some ins) name h = (Inr (), h')"
  shows "\<exists>c. cfg_name c = name \<and> Validate c = None \<and> cfg_autostart_scope c = AutostartNone
    \<and> (\<exists>hi. keeps h hi \<and> ins c (store_paths s c) hi = None)
    \<and> \<not> lock_held h (p_lifetime_lock (store_paths s c))
    \<and> (\<forall>d \<in> set (create_candidates s c). \<forall>q. under d q \<longrightarrow> h_fs h' q = None)"
proof -
  from assms obtain l h1 h2 where locked: "LockName s h name = (Inr l, h1)"
    and del: "lockedDelete s L ins name h1 = (Inr (), h2)" and h': "h' = unlock l h2"
    by (auto simp: Delete_def then_do_Inr with_lock_def split: prod.splits) (metis prod.collapse)
  from del obtain c out h3 where c: "loadUnlocked s L h1 name = Inr c"
    "cfg_autostart_scope c = AutostartNone" "tryLifetime s h1 (cfg_id c) = (Inr out, h3)"
    and rest: "(case out of Acquired l' \<Rightarrow> with_lock l'
                  (case ins c (store_paths s c) h3 of
                     Some e \<Rightarrow> (Inl (InspectorRefused e), h3) | None \<Rightarrow> remove_managed s c h3)
                | _ \<Rightarrow> (Inl (VMRunning name), h3)) = (Inr (), h2)"
    by (auto simp: lockedDelete_def then_do_Inr split: sum.splits if_splits)
  from rest obtain l' h4 where out: "out = Acquired l'" and ins: "ins c (store_paths s c) h3 = None"
    and removed: "remove_managed s c h3 = (Inr (), h4)" and h2: "h2 = unlock l' h4"
    by (cases out; cases "ins c (store_paths s c) h3"; cases "remove_managed s c h3") (auto simp: with_lock_def)
  have "\<not> lock_held h1 (p_lifetime_lock (store_paths s c))"
    using tryLifetime_acquired c(3) out by simp
  then have "\<not> lock_held h (p_lifetime_lock (store_paths s c))"
    using LockName_held [of h _ s name] locked by auto
  moreover have "keeps h h3"
    using LockName_keeps [of h s name] tryLifetime_keeps [of h1 s "cfg_id c"] locked c(3) by (auto intro: keeps_trans)
  ultimately show ?thesis
    using loadUnlocked_ok [OF c(1)] c(2) ins remove_managed_ok [OF removed] unfolding h' h2 by auto
qed

lemma Load_name: "Load s L h name = Inr c \<Longrightarrow> cfg_name c = name"
  using loadUnlocked_ok by (auto simp: Load_def split: option.splits)

lemma list_entries_names: "list_entries s L h es = Inr cs \<Longrightarrow>
  map cfg_name cs = filter (\<lambda>n. n \<noteq> locksDirectory) (map fst es)"
  by (induction es arbitrary: cs) (auto dest!: Load_name split: if_splits sum.splits)

lemma list_entries_load: "list_entries s L h es = Inr cs \<Longrightarrow> \<forall>c \<in> set cs. Load s L h (cfg_name c) = Inr c"
proof (induction es arbitrary: cs)
  case (Cons e es)
  then show ?case
    using Load_name by (cases e) (fastforce split: if_splits sum.splits)
qed simp

text \<open>\<open>List\<close> returns exactly the machines of the data root: one valid configuration per entry other
  than the locks directory, each the one that \<open>Load\<close> returns for its name, sorted by name.\<close>

lemma List_sorted_complete:
  assumes "store_list s L h (Inr entries) = Inr cs"
  shows "sorted (map cfg_name cs)
    \<and> mset (map cfg_name cs) = mset (filter (\<lambda>n. n \<noteq> locksDirectory) (map fst entries))
    \<and> (\<forall>c \<in> set cs. Load s L h (cfg_name c) = Inr c)"
proof -
  from assms obtain cs0 where cs0: "list_entries s L h entries = Inr cs0" "cs = sort_key cfg_name cs0"
    by (auto simp: store_list_def split: sum.splits)
  have "mset (map cfg_name cs) = mset (map cfg_name cs0)" by (simp add: cs0(2))
  with cs0 list_entries_names [OF cs0(1)] list_entries_load [OF cs0(1)] show ?thesis by simp
qed


section \<open>Concrete runs\<close>

lemma createOwnedDirectory_fresh:
  "h_fs h d = None \<Longrightarrow> is_dir_at h (parent_dir d) \<Longrightarrow> h_fault h = (\<lambda>_ _. False) \<Longrightarrow>
   createOwnedDirectory h d = (Inr (), h\<lparr>h_fs := (h_fs h)(d \<mapsto> Dir (h_uid h) mode_dir)\<rparr>)"
  by (simp add: createOwnedDirectory_def mkdir_def ensureOwnedDirectory_owned)

lemma writeConfigAtomic_ready:
  assumes "path = join_path dir configFilename" and "CanonicalJSON L c = Inr data"
    and "h_fs h dir = Some (Dir (h_uid h) mode_dir)" and "h_fault h = (\<lambda>_ _. False)"
    and "h_fs h (temp_path h dir) = None"
  shows "fst (writeConfigAtomic L h path c) = Inr ()"
proof -
  have "ensureOwnedDirectory h dir = (Inr (), h)"
    using assms(3,4) by (simp add: ensureOwnedDirectory_owned)
  then show ?thesis
    using assms CanonicalJSON_valid [OF assms(2)]
    by (simp add: writeConfigAtomic_def Let_def) (simp add: write_ops_def)
qed

lemma sample_candidates:
  "create_candidates sample_store sample_config = [''/d/home-assistant'', ''/l/home-assistant'', ''/r/0123456789ab'']"
proof -
  have "parent_dir ''/l/home-assistant/qemu.log'' = ''/l/home-assistant''" by code_simp
  then show ?thesis
    by (simp add: create_candidates_def store_paths_def Let_def RuntimeDir_def sample_name sample_store_def
        join_path_def)
qed

lemma sample_canonical: "CanonicalJSON sample_library sample_config = Inr (''{}'' @ [CHR 0x0A])"
  by (simp add: CanonicalJSON_def sample_config_valid sample_library_def)

lemma sample_created: "fst (Create sample_store sample_library None sample_config empty_host) = Inr ()"
proof -
  let ?h = "after_lock empty_host"
  have parents: "parent_dir ''/d/home-assistant'' = ''/d''" "parent_dir ''/l/home-assistant'' = ''/l''"
    "parent_dir ''/r/0123456789ab'' = ''/r''"
    by code_simp+
  define h3 where "h3 = ?h\<lparr>h_fs := (h_fs ?h)(''/d/home-assistant'' \<mapsto> Dir 501 mode_dir,
    ''/l/home-assistant'' \<mapsto> Dir 501 mode_dir, ''/r/0123456789ab'' \<mapsto> Dir 501 mode_dir)\<rparr>"
  have dirs: "create_dirs [] (create_candidates sample_store sample_config) ?h =
      (Inr [''/d/home-assistant'', ''/l/home-assistant'', ''/r/0123456789ab''], h3)"
    by (simp add: sample_candidates createOwnedDirectory_fresh is_dir_at_def parents after_lock_def
        empty_host_def sample_dirs_def h3_def)
  have paths: "p_vm_dir (store_paths sample_store sample_config) = ''/d/home-assistant''"
    "p_config (store_paths sample_store sample_config) = join_path ''/d/home-assistant'' configFilename"
    by (simp_all add: sample_name sample_store_def join_path_def)
  have free: "lstat ?h ''/d/home-assistant'' = Inl ENOENT"
    by (simp add: lstat_def after_lock_def empty_host_def sample_dirs_def)
  have "fst (writeConfigAtomic sample_library h3 (join_path ''/d/home-assistant'' configFilename) sample_config) = Inr ()"
    by (rule writeConfigAtomic_ready [OF refl sample_canonical])
      (simp_all add: h3_def after_lock_def empty_host_def sample_dirs_def temp_path_def join_path_def)
  then show ?thesis
    by (auto simp: Create_def sample_config_valid sample_name sample_LockName lockedCreate_unfold paths free
        dirs populate_def simp del: store_paths_dirs split: prod.splits sum.splits)
qed

lemma Create_then_Load_witness:
  "Load sample_store sample_library (snd (Create sample_store sample_library None sample_config empty_host))
     ''home-assistant'' = Inr sample_config"
proof -
  obtain h' where run: "Create sample_store sample_library None sample_config empty_host = (Inr (), h')"
    using sample_created by (metis prod.collapse)
  have "\<not> h_fault empty_host call p" for call p by (simp add: empty_host_def)
  with Create_then_Load [OF sample_closed(2) _ run sample_library_decodes] show ?thesis
    by (simp add: run sample_name)
qed

lemma Delete_refuses_running_witness:
  "fst (Delete sample_store sample_library (Some (\<lambda>_ _ _. None)) ''home-assistant''
     (sample_host\<lparr>h_fs := (h_fs sample_host)(''/r/0123456789ab/lifetime.lock'' \<mapsto> File 5 501 mode_file []),
        h_locks := {5}\<rparr>)) \<noteq> Inr ()"
proof -
  let ?h = "sample_host\<lparr>h_fs := (h_fs sample_host)(''/r/0123456789ab/lifetime.lock'' \<mapsto> File 5 501 mode_file []),
        h_locks := {5}\<rparr>"
  have "keeps sample_host ?h" by (auto simp: keeps_def) (simp add: sample_defs)
  from loadUnlocked_keeps [OF this sample_stored] have load:
    "loadUnlocked sample_store sample_library ?h ''home-assistant'' = Inr sample_config" .
  have path: "p_lifetime_lock (store_paths sample_store sample_config) = ''/r/0123456789ab/lifetime.lock''"
    by (simp add: RuntimeDir_def sample_name sample_store_def join_path_def)
  have "lock_held ?h (p_lifetime_lock (store_paths sample_store sample_config))"
    unfolding path by (simp add: lock_held_def)
  from Delete_refuses_running [OF load this] show ?thesis by blast
qed

text \<open>Taking the lifetime lock of the stored machine creates its runtime directory and the lock file.\<close>

lemma sample_tryLifetime:
  "\<exists>h'. tryLifetime sample_store (after_lock sample_host) (cfg_id sample_config) = (Inr (Acquired 8), h')
     \<and> h_fault h' = (\<lambda>_ _. False)"
proof -
  let ?h = "after_lock sample_host"
  let ?d = "''/r/0123456789ab''" and ?l = "''/r/0123456789ab/lifetime.lock''"
  have ident: "validateIDForPath (cfg_id sample_config) = None" unfolding sample_name by code_simp
  have parents: "parent_dir ?d = ''/r''" "parent_dir ?l = ?d" by code_simp+
  have roots: "ensureRoots sample_store ?h = (Inr (), ?h)"
    by (rule ensureRoots_ready)
      (auto simp: sample_store_def is_abs_path_def has_prefix_def after_lock_def sample_defs
        intro!: ensureOwnedDirectory_owned)
  let ?h1 = "?h\<lparr>h_fs := (h_fs ?h)(?d \<mapsto> Dir 501 mode_dir)\<rparr>"
  have "mkdir_all ?h ?d = (Inr (), ?h1)"
    by (subst mkdir_all.simps)
      (simp add: is_dir_at_def parents mkdir_all_existing mkdir_def after_lock_def sample_defs)
  then have dir: "ensureOwnedDirectory ?h ?d = (Inr (), ?h1)"
    by (simp add: ensureOwnedDirectory_def inspectOwnedDirectory_def lstat_def)
      (simp add: after_lock_def sample_defs)
  have path: "RuntimeDir sample_store (cfg_id sample_config) = ?d" "join_path ?d ''lifetime.lock'' = ?l"
    by (simp_all add: RuntimeDir_def sample_name sample_store_def join_path_def)
  show ?thesis
    by (simp add: tryLifetime_def ident roots path dir)
      (simp add: openLock_def parents is_dir_at_def lock_validated_def after_lock_def sample_defs Let_def)
qed

lemma Delete_success_witness:
  "h_fs (snd (Delete sample_store sample_library (Some (\<lambda>_ _ _. None)) ''home-assistant'' sample_host))
     ''/d/home-assistant/config.json'' = None"
proof -
  obtain h1 where lock: "tryLifetime sample_store (after_lock sample_host) (cfg_id sample_config) = (Inr (Acquired 8), h1)"
    and fault: "h_fault h1 = (\<lambda>_ _. False)"
    using sample_tryLifetime by blast
  have "fst (remove_managed sample_store sample_config h1) = Inr ()"
    by (simp add: remove_managed_def remove_all_def fault Let_def)
  then have "fst (lockedDelete sample_store sample_library (\<lambda>_ _ _. None) ''home-assistant'' (after_lock sample_host)) = Inr ()"
    by (simp add: lockedDelete_def sample_load lock) (simp add: sample_name)
  then have "fst (Delete sample_store sample_library (Some (\<lambda>_ _ _. None)) ''home-assistant'' sample_host) = Inr ()"
    by (simp add: Delete_def sample_LockName)
  then obtain h' where run: "Delete sample_store sample_library (Some (\<lambda>_ _ _. None)) ''home-assistant'' sample_host = (Inr (), h')"
    by (metis prod.collapse)
  from Delete_success [OF run] obtain c where c: "cfg_name c = ''home-assistant''"
    "\<And>d q. d \<in> set (create_candidates sample_store c) \<Longrightarrow> under d q \<Longrightarrow> h_fs h' q = None"
    by blast
  have "''/d/home-assistant'' \<in> set (create_candidates sample_store c)"
    by (simp add: create_candidates_def c(1) sample_store_def join_path_def Let_def)
  moreover have "under ''/d/home-assistant'' ''/d/home-assistant/config.json''"
    by (simp add: under_def join_path_def has_prefix_def)
  ultimately show ?thesis using c(2) by (simp add: run)
qed

lemma List_sorted_complete_witness:
  "map cfg_name (case store_list sample_store sample_library sample_host (Inr [(''.locks'', True), (''home-assistant'', True)])
     of Inr cs \<Rightarrow> cs | Inl _ \<Rightarrow> []) = [''home-assistant'']"
proof -
  have name: "validateName ''home-assistant'' = None" by code_simp
  have run: "store_list sample_store sample_library sample_host (Inr [(''.locks'', True), (''home-assistant'', True)])
      = Inr [sample_config]"
    by (simp add: store_list_def locksDirectory_def Load_def name sample_stored)
  from List_sorted_complete [OF run] show ?thesis by (simp add: run sample_name)
qed

end
