(* ===== verification/Protocol.thy ===== *)
theory Protocol
  imports Codec
begin

text \<open>
  The control protocol of \<open>internal/supervisor\<close>: \<open>protocol.go\<close> (messages, their validation, the
  newline framing with its size limit), the client side of \<open>client.go\<close> (\<open>Control\<close>, the ready
  message, the start options) and the connection handler of \<open>control_server.go\<close>. A connection is
  the text that arrives on it and how it ends; JSON is a parameter of the framing.
\<close>

section \<open>Messages\<close>

text \<open>A time: nanoseconds since the epoch, the offset of its zone, whether its location is UTC.\<close>

record timestamp =
  ts_nanos :: int
  ts_offset :: int
  ts_utc :: bool

definition ts_is_zero :: "timestamp \<Rightarrow> bool" where
  "ts_is_zero t \<longleftrightarrow> ts_nanos t = - 62135596800 * 1000000000"

record VNCEndpoint =
  ep_host :: string
  ep_port :: u16

record Status =
  st_state :: run_state
  st_backend :: backend_name
  st_supervisor_pid :: int
  st_backend_pid :: int
  st_started_at :: timestamp
  st_hash :: string
  st_vnc :: "VNCEndpoint option"

record ProtocolError =
  pe_code :: string
  pe_message :: string

record Request =
  rq_version :: int
  rq_id :: string
  rq_command :: string
  rq_force :: bool
  rq_timeout :: "int option"

record Response =
  rs_version :: int
  rs_id :: string
  rs_ok :: bool
  rs_status :: "Status option"
  rs_progress :: "string option"
  rs_error :: "ProtocolError option"

definition ProtocolVersion :: int where "ProtocolVersion = 1"
definition MaxMessageBytes :: nat where "MaxMessageBytes = 65536"
definition CommandStatus :: string where "CommandStatus = ''status''"
definition CommandStop :: string where "CommandStop = ''stop''"
definition StopProgressAcknowledged :: string where "StopProgressAcknowledged = ''acknowledged''"
definition StopProgressForcing :: string where "StopProgressForcing = ''forcing''"
definition ErrorInvalidRequest :: string where "ErrorInvalidRequest = ''invalid_request''"
definition ErrorUnauthorized :: string where "ErrorUnauthorized = ''unauthorized''"
definition ErrorNotRunning :: string where "ErrorNotRunning = ''not_running''"
definition ErrorShutdownTimeout :: string where "ErrorShutdownTimeout = ''shutdown_timeout''"
definition ErrorInternal :: string where "ErrorInternal = ''internal''"

lemmas command_defs = CommandStatus_def CommandStop_def
lemmas progress_defs = StopProgressAcknowledged_def StopProgressForcing_def
lemmas code_defs = ErrorInvalidRequest_def ErrorUnauthorized_def ErrorNotRunning_def
  ErrorShutdownTimeout_def ErrorInternal_def

datatype proto_error =
    BadVersion | BadID | StatusWithOptions | TimeoutRange | BadCommand
  | SuccessWithError | ProgressWithStatus | BadProgress | FailedWithStatus | FailedWithProgress
  | FailedNoError | BadErrorCode | EmptyMessage | BadState | BadStatusBackend | BadSupervisorPID
  | BadBackendPID | BadTimestamp | BadHash | BadVNCHost | BadVNCPort
  | ReadyOKWithError | ReadyNoError

section \<open>Validation\<close>

definition protocolHashPattern :: "string \<Rightarrow> bool" where
  "protocolHashPattern s \<longleftrightarrow> length s = 64 \<and> list_all is_lower_hex s"

definition validateEnvelope :: "int \<Rightarrow> string \<Rightarrow> proto_error option" where
  "validateEnvelope version i =
     first_error [guard (version \<noteq> ProtocolVersion) BadVersion, guard (\<not> idPattern i) BadID]"

definition request_validate :: "Request \<Rightarrow> proto_error option" where
  "request_validate r =
     first_error
       [validateEnvelope (rq_version r) (rq_id r),
        if rq_command r = CommandStatus then guard (rq_force r \<or> rq_timeout r \<noteq> None) StatusWithOptions
        else if rq_command r = CommandStop then
          (case rq_timeout r of None \<Rightarrow> None | Some t \<Rightarrow> guard (t < 1 \<or> 3600 < t) TimeoutRange)
        else Some BadCommand]"

definition validateVNCEndpoint :: "VNCEndpoint option \<Rightarrow> proto_error option" where
  "validateVNCEndpoint endpoint =
     (case endpoint of
        None \<Rightarrow> None
      | Some e \<Rightarrow>
          first_error [guard (parse_ip4_literal (ep_host e) = None) BadVNCHost,
                       guard (ep_port e = 0) BadVNCPort])"

definition run_states :: "run_state list" where
  "run_states = [RunStateStarting, RunStateRunning, RunStatePaused, RunStateStopping, RunStateStopped,
                 RunStateFailed]"

definition status_validate :: "Status \<Rightarrow> proto_error option" where
  "status_validate s =
     first_error
       [guard (st_state s \<notin> set run_states) BadState,
        guard (st_backend s \<noteq> BackendQEMU) BadStatusBackend,
        guard (st_supervisor_pid s \<le> 0) BadSupervisorPID,
        guard (st_backend_pid s \<le> 0) BadBackendPID,
        guard (ts_is_zero (st_started_at s) \<or> ts_offset (st_started_at s) \<noteq> 0) BadTimestamp,
        guard (\<not> protocolHashPattern (st_hash s)) BadHash,
        validateVNCEndpoint (st_vnc s)]"

definition protocol_error_validate :: "ProtocolError \<Rightarrow> proto_error option" where
  "protocol_error_validate e =
     first_error
       [guard (pe_code e \<notin> {ErrorInvalidRequest, ErrorUnauthorized, ErrorNotRunning, ErrorShutdownTimeout,
                 ErrorInternal}) BadErrorCode,
        guard (pe_message e = '''') EmptyMessage]"

definition response_validate :: "Response \<Rightarrow> proto_error option" where
  "response_validate r =
     (case validateEnvelope (rs_version r) (rs_id r) of
        Some e \<Rightarrow> Some e
      | None \<Rightarrow>
          if rs_ok r then
            (if rs_error r \<noteq> None then Some SuccessWithError
             else case rs_progress r of
               Some p \<Rightarrow>
                 if rs_status r \<noteq> None then Some ProgressWithStatus
                 else guard (p \<noteq> StopProgressAcknowledged \<and> p \<noteq> StopProgressForcing) BadProgress
             | None \<Rightarrow> (case rs_status r of None \<Rightarrow> None | Some s \<Rightarrow> status_validate s))
          else if rs_status r \<noteq> None then Some FailedWithStatus
          else if rs_progress r \<noteq> None then Some FailedWithProgress
          else case rs_error r of
            None \<Rightarrow> Some FailedNoError
          | Some e \<Rightarrow> protocol_error_validate e)"

section \<open>Framing\<close>

datatype json_fail = JsonEOF | JsonUnexpectedEOF | JsonSyntax

text \<open>JSON for one message type: the text of a value, the first value of a text with unknown fields
  refused, and the attempt to decode another value (\<open>None\<close>: there is one).\<close>

record 'a wire =
  w_json :: "'a \<Rightarrow> string option"
  w_first :: "string \<Rightarrow> json_fail + ('a \<times> string)"
  w_next :: "string \<Rightarrow> json_fail option"

datatype stream_end = PeerClosed | NetFailure

datatype frame_error =
    MessageTooLong | FrameEOF | FrameUnexpectedEOF | FrameNet
  | FrameJSON json_fail | FrameTrailing | FrameTrailingData json_fail

datatype slice = SliceLine string string | SliceFull | SliceEnd string

text \<open>\<open>bufio.Reader.ReadSlice\<close> with a buffer of \<open>limit\<close> bytes, on the text still to come.\<close>

definition read_slice :: "nat \<Rightarrow> string \<Rightarrow> slice" where
  "read_slice limit s =
     (let w = takeWhile (\<lambda>c. c \<noteq> newline) s
      in if length w < limit \<and> length w < length s then SliceLine (w @ [newline]) (drop (Suc (length w)) s)
         else if limit \<le> length s then SliceFull
         else SliceEnd s)"

definition decode_frame :: "'a wire \<Rightarrow> stream_end \<Rightarrow> string \<Rightarrow> frame_error + 'a \<times> string" where
  "decode_frame W ending s =
     (case read_slice (MaxMessageBytes + 1) s of
        SliceFull \<Rightarrow> Inl MessageTooLong
      | SliceEnd line \<Rightarrow>
          Inl (case ending of NetFailure \<Rightarrow> FrameNet
               | PeerClosed \<Rightarrow> if line = '''' then FrameEOF else FrameUnexpectedEOF)
      | SliceLine line rest \<Rightarrow>
          if MaxMessageBytes < length line then Inl MessageTooLong
          else case w_first W (take (length line - 1) line) of
            Inl e \<Rightarrow> Inl (FrameJSON e)
          | Inr (x, trailing) \<Rightarrow>
              (case w_next W trailing of
                 Some JsonEOF \<Rightarrow> Inr (x, rest)
               | None \<Rightarrow> Inl FrameTrailing
               | Some e \<Rightarrow> Inl (FrameTrailingData e)))"

datatype send_error = EncodeJSON | SendTooLong | InvalidMessage proto_error

definition encode_line :: "'a wire \<Rightarrow> 'a \<Rightarrow> send_error + string" where
  "encode_line W x =
     (case w_json W x of
        None \<Rightarrow> Inl EncodeJSON
      | Some json \<Rightarrow>
          if MaxMessageBytes < length (json @ [newline]) then Inl SendTooLong else Inr (json @ [newline]))"

definition EncodeRequest :: "Request wire \<Rightarrow> Request \<Rightarrow> send_error + string" where
  "EncodeRequest W r =
     (case request_validate r of Some e \<Rightarrow> Inl (InvalidMessage e) | None \<Rightarrow> encode_line W r)"

definition EncodeResponse :: "Response wire \<Rightarrow> Response \<Rightarrow> send_error + string" where
  "EncodeResponse W r =
     (case response_validate r of Some e \<Rightarrow> Inl (InvalidMessage e) | None \<Rightarrow> encode_line W r)"

datatype receive_error = BadFrame frame_error | BadMessage proto_error

definition decode_valid ::
  "('a \<Rightarrow> proto_error option) \<Rightarrow> 'a wire \<Rightarrow> stream_end \<Rightarrow> string \<Rightarrow> receive_error + 'a \<times> string" where
  "decode_valid V W ending s =
     (case decode_frame W ending s of
        Inl e \<Rightarrow> Inl (BadFrame e)
      | Inr (x, rest) \<Rightarrow> (case V x of Some e \<Rightarrow> Inl (BadMessage e) | None \<Rightarrow> Inr (x, rest)))"

definition DecodeRequest :: "Request wire \<Rightarrow> stream_end \<Rightarrow> string \<Rightarrow> receive_error + Request \<times> string" where
  "DecodeRequest = decode_valid request_validate"

definition decodeResponseFrame :: "Response wire \<Rightarrow> stream_end \<Rightarrow> string \<Rightarrow> receive_error + Response \<times> string" where
  "decodeResponseFrame = decode_valid response_validate"

text \<open>What the framing relies on of JSON for one message: the encoding has no line break, and
  decoding it gives the message back with nothing after it. Go documents both for a value of these
  types whose strings are valid UTF-8.\<close>

definition json_reads_back :: "'a wire \<Rightarrow> 'a \<Rightarrow> bool" where
  "json_reads_back W x \<longleftrightarrow>
     (case w_json W x of
        None \<Rightarrow> True
      | Some json \<Rightarrow> newline \<notin> set json
          \<and> (case w_first W json of Inl _ \<Rightarrow> False | Inr (y, rest) \<Rightarrow> y = x \<and> w_next W rest = Some JsonEOF))"

lemma takeWhile_line: "newline \<notin> set w \<Longrightarrow> takeWhile (\<lambda>c. c \<noteq> newline) (w @ newline # rest) = w"
  by (induction w) auto

lemma decode_encode_line:
  assumes "encode_line W x = Inr line" and "json_reads_back W x"
  shows "decode_frame W ending (line @ rest) = Inr (x, rest)"
proof -
  from assms(1) obtain json where json: "w_json W x = Some json" "line = json @ [newline]"
    "length line \<le> MaxMessageBytes"
    by (auto simp: encode_line_def split: option.splits if_splits)
  with assms(2) have clean: "newline \<notin> set json"
    and reads: "\<exists>t. w_first W json = Inr (x, t) \<and> w_next W t = Some JsonEOF"
    by (auto simp: json_reads_back_def split: sum.splits)
  have "read_slice (MaxMessageBytes + 1) (line @ rest) = SliceLine line rest"
    using json(3) by (simp add: read_slice_def json(2) takeWhile_line [OF clean] Let_def)
  with reads json show ?thesis by (auto simp: decode_frame_def)
qed

lemma decode_frame_shorter: "decode_frame W ending s = Inr (x, rest) \<Longrightarrow> length rest < length s"
  by (auto simp: decode_frame_def read_slice_def Let_def
      split: slice.splits sum.splits option.splits if_splits json_fail.splits)

lemma decode_valid_shorter: "decode_valid V W ending s = Inr (x, rest) \<Longrightarrow> length rest < length s"
  by (auto simp: decode_valid_def dest: decode_frame_shorter split: sum.splits option.splits)

lemma decodeResponseFrame_shorter [simp]:
  "decodeResponseFrame W ending s = Inr (x, rest) \<Longrightarrow> length rest < length s"
  by (simp add: decodeResponseFrame_def decode_valid_shorter)

section \<open>The client (\<open>client.go\<close>)\<close>

datatype control_error =
    CtlInvalidRequest proto_error | CtlConnect | CtlDeadline | CtlSend send_error | CtlSendNet
  | CtlRead receive_error | CtlVersion | CtlID | CtlProgress | CtlResponse string string
  | CtlNilError

text \<open>The loop over the response frames: the result, and the progress that was reported. Validation
  gives every failed response an error, so \<open>CtlNilError\<close>, a nil dereference, does not happen.\<close>

function control_loop ::
  "Response wire \<Rightarrow> Request \<Rightarrow> stream_end \<Rightarrow> string \<Rightarrow> (control_error + Response) \<times> string list" where
  "control_loop W request ending s =
     (case decodeResponseFrame W ending s of
        Inl e \<Rightarrow> (Inl (CtlRead e), [])
      | Inr (response, rest) \<Rightarrow>
          if rs_version response \<noteq> rq_version request then (Inl CtlVersion, [])
          else if rs_id response \<noteq> rq_id request then (Inl CtlID, [])
          else case rs_progress response of
            Some p \<Rightarrow>
              if rq_command request \<noteq> CommandStop then (Inl CtlProgress, [])
              else (case control_loop W request ending rest of (r, ps) \<Rightarrow> (r, p # ps))
          | None \<Rightarrow>
              if \<not> rs_ok response then
                (case rs_error response of
                   None \<Rightarrow> (Inl CtlNilError, [])
                 | Some e \<Rightarrow> (Inl (CtlResponse (pe_code e) (pe_message e)), []))
              else (Inr response, []))"
  by pat_completeness auto
termination
  by (relation "measure (\<lambda>(W, request, ending, s). length s)") auto

declare control_loop.simps [simp del]

text \<open>An exchange with a supervisor: which transport calls succeed, what comes back, how it ends.\<close>

record exchange =
  ex_connects :: bool
  ex_deadline_set :: bool
  ex_sends :: bool
  ex_reply :: string
  ex_end :: stream_end

definition ControlWithProgress ::
  "Request wire \<Rightarrow> Response wire \<Rightarrow> exchange \<Rightarrow> Request \<Rightarrow> (control_error + Response) \<times> string list" where
  "ControlWithProgress Wq Wr x request =
     (case request_validate request of
        Some e \<Rightarrow> (Inl (CtlInvalidRequest e), [])
      | None \<Rightarrow>
          if \<not> ex_connects x then (Inl CtlConnect, [])
          else if \<not> ex_deadline_set x then (Inl CtlDeadline, [])
          else case EncodeRequest Wq request of
            Inl e \<Rightarrow> (Inl (CtlSend e), [])
          | Inr _ \<Rightarrow>
              if \<not> ex_sends x then (Inl CtlSendNet, [])
              else control_loop Wr request (ex_end x) (ex_reply x))"

definition Control :: "Request wire \<Rightarrow> Response wire \<Rightarrow> exchange \<Rightarrow> Request \<Rightarrow> control_error + Response" where
  "Control Wq Wr x request = fst (ControlWithProgress Wq Wr x request)"


section \<open>The ready message and starting a supervisor (\<open>client.go\<close>)\<close>

record ReadyMessage =
  rm_version :: int
  rm_id :: string
  rm_ok :: bool
  rm_error :: "string option"

definition ready_validate :: "ReadyMessage \<Rightarrow> proto_error option" where
  "ready_validate m =
     first_error
       [validateEnvelope (rm_version m) (rm_id m),
        guard (rm_ok m \<and> rm_error m \<noteq> None) ReadyOKWithError,
        guard (\<not> rm_ok m \<and> (rm_error m = None \<or> rm_error m = Some '''')) ReadyNoError]"

definition WriteReady :: "ReadyMessage wire \<Rightarrow> ReadyMessage \<Rightarrow> send_error + string" where
  "WriteReady W m =
     (case ready_validate m of Some e \<Rightarrow> Inl (InvalidMessage e) | None \<Rightarrow> encode_line W m)"

definition ReadReady :: "ReadyMessage wire \<Rightarrow> stream_end \<Rightarrow> string \<Rightarrow> receive_error + ReadyMessage" where
  "ReadReady W ending s =
     (case decode_valid ready_validate W ending s of Inl e \<Rightarrow> Inl e | Inr (m, _) \<Rightarrow> Inr m)"

record StartOptions =
  so_name :: string
  so_expected_id :: string
  so_executable :: string
  so_stdout :: string
  so_stderr :: string
  so_foreground :: bool
  so_boot_menu :: bool
  so_debug :: bool
  so_has_runner :: bool
  so_ready_timeout :: int

text \<open>How a call on the child ends: success, the process is known to be gone (\<open>os.ErrProcessDone\<close>), there is
  no such process (\<open>ESRCH\<close>), or another error.\<close>

datatype child_call = CallOK | CallProcessDone | CallNoProcess | CallError string

datatype start_error =
    NameEmpty | InvalidExpectedID proto_error | RunnerNil | ExecutableNotAbsolute | LogPathsEmpty
  | PipeError | DevNullError | LogOpenError | AttributesError | StartError
  | ReadinessCanceled | ReadinessTimedOut | ReadReadiness receive_error
  | ReadyVersion | ReadyID | ReadyFailed string | ReleaseError | RunFailed string
  | SignalFailed child_call | ReapFailed child_call | ForegroundCleanup string

definition validateStartOptions :: "StartOptions \<Rightarrow> start_error option" where
  "validateStartOptions o' =
     first_error
       [guard (so_name o' = '''') NameEmpty,
        map_option InvalidExpectedID (validateEnvelope ProtocolVersion (so_expected_id o')),
        if so_foreground o' then guard (\<not> so_has_runner o') RunnerNil
        else first_error
          [guard (\<not> is_abs_path (so_executable o')) ExecutableNotAbsolute,
           guard (so_stdout o' = '''' \<or> so_stderr o' = '''') LogPathsEmpty]]"

definition defaultReadyTimeout :: int where "defaultReadyTimeout = 15 * 1000000000"

definition ready_timeout :: "StartOptions \<Rightarrow> int" where
  "ready_timeout o' = (if so_ready_timeout o' \<le> 0 then defaultReadyTimeout else so_ready_timeout o')"

definition detachedSupervisorArgv :: "StartOptions \<Rightarrow> string list" where
  "detachedSupervisorArgv o' =
     [so_executable o'] @ (if so_debug o' then [''--debug''] else [])
     @ [''supervise'', so_name o', ''--ready-fd'', ''3'', ''--expected-id'', so_expected_id o']
     @ (if so_boot_menu o' then [''--boot-menu''] else [])"

text \<open>What the wait for readiness ends with: the context, the timer, or the text on the pipe.\<close>

datatype ready_event = ContextDone | TimerFired | PipeText string stream_end

definition awaitReady :: "ReadyMessage wire \<Rightarrow> ready_event \<Rightarrow> start_error + ReadyMessage" where
  "awaitReady W event =
     (case event of
        ContextDone \<Rightarrow> Inl ReadinessCanceled
      | TimerFired \<Rightarrow> Inl ReadinessTimedOut
      | PipeText s ending \<Rightarrow>
          (case ReadReady W ending s of Inl e \<Rightarrow> Inl (ReadReadiness e) | Inr m \<Rightarrow> Inr m))"

definition requireMatchingReady :: "ReadyMessage \<Rightarrow> string \<Rightarrow> start_error option" where
  "requireMatchingReady m expected =
     (if rm_version m \<noteq> ProtocolVersion then Some ReadyVersion
      else if rm_id m \<noteq> expected then Some ReadyID
      else if \<not> rm_ok m then Some (ReadyFailed (case rm_error m of Some t \<Rightarrow> t | None \<Rightarrow> ''''))
      else None)"

text \<open>What is done about the child of a detached start, in order.\<close>

datatype child_action = Spawned | ReadyReported | HandleReleased | ReleaseRefused | TerminationRequested | WaitedFor

text \<open>The outside of a detached start: which steps succeed, what arrives from the child, and how the
  termination signal and the wait for the child end; \<open>se_wait = None\<close>: the child never exits.\<close>

record start_env =
  se_pipe :: bool
  se_devnull :: bool
  se_stdout_log :: bool
  se_stderr_log :: bool
  se_attributes :: bool
  se_process :: bool
  se_event :: ready_event
  se_release :: bool
  se_signal :: child_call
  se_wait :: "child_call option"

definition cooperativeTerminationProcessDone :: "child_call \<Rightarrow> bool" where
  "cooperativeTerminationProcessDone e \<longleftrightarrow> e = CallProcessDone \<or> e = CallNoProcess"

definition wrapProcessCleanupError :: "(child_call \<Rightarrow> start_error) \<Rightarrow> child_call \<Rightarrow> start_error list" where
  "wrapProcessCleanupError wrap e = (if e = CallOK \<or> e = CallProcessDone then [] else [wrap e])"

text \<open>\<open>None\<close>: it waits for the child for ever.\<close>

definition terminateAndReap ::
  "start_env \<Rightarrow> child_action list \<Rightarrow> start_error \<Rightarrow> (start_error list \<times> child_action list) option" where
  "terminateAndReap env acts cause =
     (case se_wait env of
        None \<Rightarrow> None
      | Some w \<Rightarrow>
          let s = (if cooperativeTerminationProcessDone (se_signal env) then CallOK else se_signal env)
          in Some ([cause] @ wrapProcessCleanupError SignalFailed s @ wrapProcessCleanupError ReapFailed w,
                   acts @ [TerminationRequested, WaitedFor]))"

definition startDetached ::
  "ReadyMessage wire \<Rightarrow> StartOptions \<Rightarrow> start_env \<Rightarrow> (start_error list \<times> child_action list) option" where
  "startDetached W o' env =
     (if \<not> se_pipe env then Some ([PipeError], [])
      else if \<not> se_devnull env then Some ([DevNullError], [])
      else if \<not> se_stdout_log env \<or> \<not> se_stderr_log env then Some ([LogOpenError], [])
      else if \<not> se_attributes env then Some ([AttributesError], [])
      else if \<not> se_process env then Some ([StartError], [])
      else case awaitReady W (se_event env) of
        Inl e \<Rightarrow> terminateAndReap env [Spawned] e
      | Inr m \<Rightarrow>
          (case requireMatchingReady m (so_expected_id o') of
             Some e \<Rightarrow> terminateAndReap env [Spawned] e
           | None \<Rightarrow>
               if se_release env then Some ([], [Spawned, ReadyReported, HandleReleased])
               else terminateAndReap env [Spawned, ReadyReported, ReleaseRefused] ReleaseError))"

text \<open>The foreground runner: its own result once the ready message is accepted, and otherwise the
  failure with the runner's error, after the runner was cancelled and has returned.\<close>

definition finishForegroundFailure :: "string option \<Rightarrow> start_error \<Rightarrow> start_error list" where
  "finishForegroundFailure result cause =
     (case result of Some e \<Rightarrow> [cause, ForegroundCleanup e] | None \<Rightarrow> [cause])"

definition startForeground ::
  "ReadyMessage wire \<Rightarrow> StartOptions \<Rightarrow> ready_event \<Rightarrow> string option \<Rightarrow> start_error list" where
  "startForeground W o' event result =
     (case awaitReady W event of
        Inl e \<Rightarrow> finishForegroundFailure result e
      | Inr m \<Rightarrow>
          (case requireMatchingReady m (so_expected_id o') of
             Some e \<Rightarrow> finishForegroundFailure result e
           | None \<Rightarrow> (case result of Some e \<Rightarrow> [RunFailed e] | None \<Rightarrow> [])))"

definition StartProcess ::
  "ReadyMessage wire \<Rightarrow> StartOptions \<Rightarrow> start_env \<Rightarrow> string option \<Rightarrow> (start_error list \<times> child_action list) option" where
  "StartProcess W o' env result =
     (case validateStartOptions o' of
        Some e \<Rightarrow> Some ([e], [])
      | None \<Rightarrow>
          if so_foreground o' then Some (startForeground W o' (se_event env) result, [])
          else startDetached W o' env)"

section \<open>The connection handler (\<open>control_server.go\<close>)\<close>

datatype stop_failure = StopTimedOut string | StopFailed string

text \<open>What a run gives its handlers: the status or an error text, and the progress and outcome of a
  stop with a force flag and a timeout in nanoseconds.\<close>

record server =
  sv_peer :: "nat option"
  sv_uid :: nat
  sv_id :: string
  sv_timeout :: int
  sv_status :: "string + Status"
  sv_stop :: "bool \<Rightarrow> int \<Rightarrow> string list \<times> stop_failure option"
  sv_text :: "receive_error \<Rightarrow> string"

datatype dispatched = StatusCall | StopCall bool int

definition failure :: "string \<Rightarrow> string \<Rightarrow> string \<Rightarrow> Response" where
  "failure i code message =
     \<lparr>rs_version = ProtocolVersion, rs_id = i, rs_ok = False, rs_status = None, rs_progress = None,
      rs_error = Some \<lparr>pe_code = code, pe_message = message\<rparr>\<rparr>"

definition success :: "string \<Rightarrow> Status option \<Rightarrow> string option \<Rightarrow> Response" where
  "success i status progress =
     \<lparr>rs_version = ProtocolVersion, rs_id = i, rs_ok = True, rs_status = status, rs_progress = progress,
      rs_error = None\<rparr>"

text \<open>The responses of a handler and the call it made on the run.\<close>

definition stop_response :: "string \<Rightarrow> stop_failure option \<Rightarrow> Response" where
  "stop_response i out =
     (case out of
        None \<Rightarrow> success i None None
      | Some (StopTimedOut t) \<Rightarrow> failure i ErrorShutdownTimeout t
      | Some (StopFailed t) \<Rightarrow> failure i ErrorInternal t)"

definition handle_request :: "server \<Rightarrow> Request \<Rightarrow> dispatched option \<times> Response list" where
  "handle_request sv q =
     (if rq_id q \<noteq> sv_id sv
      then (None, [failure (sv_id sv) ErrorInvalidRequest ''request ID does not match running VM''])
      else if rq_command q = CommandStatus then
        (Some StatusCall,
         [case sv_status sv of
            Inl t \<Rightarrow> failure (sv_id sv) ErrorInternal t
          | Inr status \<Rightarrow> success (sv_id sv) (Some status) None])
      else if rq_command q = CommandStop then
        (let timeout = (case rq_timeout q of None \<Rightarrow> sv_timeout sv | Some t \<Rightarrow> t * 1000000000)
         in case sv_stop sv (rq_force q) timeout of
           (stages, out) \<Rightarrow>
             (Some (StopCall (rq_force q) timeout),
              List.map (\<lambda>p. success (sv_id sv) None (Some p)) stages @ [stop_response (sv_id sv) out]))
      else (None, []))"

definition handleConnection ::
  "Request wire \<Rightarrow> server \<Rightarrow> stream_end \<Rightarrow> string \<Rightarrow> dispatched option \<times> Response list" where
  "handleConnection W sv ending s =
     (if sv_peer sv \<noteq> Some (sv_uid sv)
      then (None, [failure (sv_id sv) ErrorUnauthorized ''control connection is not authorized''])
      else case DecodeRequest W ending s of
        Inl e \<Rightarrow> (None, [failure (sv_id sv) ErrorInvalidRequest (sv_text sv e)])
      | Inr (q, _) \<Rightarrow> handle_request sv q)"

text \<open>The text written: a response that cannot be encoded is dropped.\<close>

definition written :: "Response wire \<Rightarrow> Response list \<Rightarrow> string" where
  "written W rs = concat (List.map (\<lambda>r. case EncodeResponse W r of Inl _ \<Rightarrow> '''' | Inr line \<Rightarrow> line) rs)"

section \<open>Properties of the protocol\<close>

definition wire_ready :: "'a wire \<Rightarrow> 'a \<Rightarrow> bool" where
  "wire_ready W x \<longleftrightarrow> json_reads_back W x \<and> (case encode_line W x of Inl _ \<Rightarrow> False | Inr _ \<Rightarrow> True)"

text \<open>Frames that were encoded are read off the front of a stream.\<close>

lemma decode_written:
  assumes "response_validate r = None" and "wire_ready W r"
  shows "decodeResponseFrame W ending (written W (r # rs)) = Inr (r, written W rs)"
proof -
  from assms(2) obtain line where line: "encode_line W r = Inr line" and "json_reads_back W r"
    by (auto simp: wire_ready_def split: sum.splits)
  then show ?thesis
    using decode_encode_line [OF line, of ending "written W rs"] assms(1)
    by (simp add: written_def EncodeResponse_def decodeResponseFrame_def decode_valid_def)
qed

lemma control_loop_written:
  assumes "\<forall>p \<in> set ps. response_validate (success (rq_id q) None (Some p)) = None
      \<and> wire_ready W (success (rq_id q) None (Some p))"
    and "response_validate r = None" and "wire_ready W r" and "rs_id r = rq_id q" and "rs_progress r = None"
    and "rq_version q = ProtocolVersion" and "rq_command q = CommandStop \<or> ps = []"
  shows "control_loop W q ending (written W (List.map (\<lambda>p. success (rq_id q) None (Some p)) ps @ [r]))
    = (if rs_ok r then Inr r
       else Inl (case rs_error r of None \<Rightarrow> CtlNilError | Some e \<Rightarrow> CtlResponse (pe_code e) (pe_message e)), ps)"
  using assms
proof (induction ps)
  case Nil
  have "rs_version r = ProtocolVersion"
    using Nil.prems(2)
    by (auto simp: response_validate_def validateEnvelope_def err_simps split: option.splits)
  then show ?case
    using Nil decode_written [OF Nil.prems(2,3), of ending "[]"]
    by (simp add: control_loop.simps [of W q] split: option.split)
next
  case (Cons p ps)
  have "decodeResponseFrame W ending (written W (success (rq_id q) None (Some p) #
      (List.map (\<lambda>p. success (rq_id q) None (Some p)) ps @ [r]))) =
      Inr (success (rq_id q) None (Some p), written W (List.map (\<lambda>p. success (rq_id q) None (Some p)) ps @ [r]))"
    by (rule decode_written) (use Cons.prems(1) in auto)
  with Cons show ?case
    by (subst control_loop.simps) (simp add: success_def)
qed


lemma split_line: "n < length s \<Longrightarrow> takeWhile P s = w \<Longrightarrow> length w = n \<Longrightarrow>
  s = w @ (s ! n) # drop (Suc n) s"
  by (metis append_take_drop_id id_take_nth_drop takeWhile_eq_take)

lemma decode_frame_line:
  assumes "decode_frame W ending s = Inr (x, rest)"
  shows "\<exists>w. s = w @ newline # rest \<and> newline \<notin> set w \<and> length w < MaxMessageBytes"
proof -
  define w where "w = takeWhile (\<lambda>c. c \<noteq> newline) s"
  from assms have len: "length w < length s" "length w < MaxMessageBytes" and rest: "rest = drop (Suc (length w)) s"
    by (auto simp: decode_frame_def read_slice_def w_def [symmetric] Let_def
        split: slice.splits sum.splits option.splits if_splits json_fail.splits)
  have "s ! length w = newline" unfolding w_def using len(1) nth_length_takeWhile w_def by fastforce
  then have "s = w @ newline # rest"
    using split_line [OF len(1) w_def [symmetric] refl] rest by simp
  moreover have "newline \<notin> set w" unfolding w_def by (auto dest: set_takeWhileD)
  ultimately show ?thesis using len(2) by blast
qed

text \<open>A request that was encoded is decoded to the same request, whatever follows it on the
  connection and however the connection ends, and its frame fits the message limit; the JSON library
  is assumed to read back the one value.\<close>

lemma request_framing_roundtrip:
  assumes "EncodeRequest W q = Inr line" and "json_reads_back W q"
  shows "DecodeRequest W ending (line @ rest) = Inr (q, rest) \<and> length line \<le> MaxMessageBytes"
proof -
  from assms(1) have valid: "request_validate q = None" and line: "encode_line W q = Inr line"
    by (auto simp: EncodeRequest_def split: option.splits)
  from line have "length line \<le> MaxMessageBytes" by (auto simp: encode_line_def split: option.splits if_splits)
  then show ?thesis
    using decode_encode_line [OF line assms(2), of ending rest] valid
    by (simp add: DecodeRequest_def decode_valid_def)
qed

text \<open>JSON for one request, for the witnesses.\<close>

definition sample_request :: Request where
  "sample_request = \<lparr>rq_version = 1, rq_id = ''0123456789abcdef0123456789abcdef'', rq_command = ''stop'',
     rq_force = False, rq_timeout = Some 30\<rparr>"

definition sample_wire :: "'a \<Rightarrow> 'a wire" where
  "sample_wire x = \<lparr>w_json = (\<lambda>_. Some ''{}''), w_first = (\<lambda>_. Inr (x, [])), w_next = (\<lambda>_. Some JsonEOF)\<rparr>"

lemma sample_wire_reads: "json_reads_back (sample_wire x) x"
  by (simp add: json_reads_back_def sample_wire_def)

lemma sample_request_valid: "request_validate sample_request = None"
  by code_simp

lemma request_framing_roundtrip_witness:
  "DecodeRequest (sample_wire sample_request) PeerClosed (''{}'' @ [newline] @ ''junk'') = Inr (sample_request, ''junk'')"
proof -
  have "EncodeRequest (sample_wire sample_request) sample_request = Inr (''{}'' @ [newline])"
    by (simp add: EncodeRequest_def sample_request_valid) (simp add: encode_line_def sample_wire_def MaxMessageBytes_def)
  from request_framing_roundtrip [OF this sample_wire_reads, of PeerClosed "''junk''"]
  show ?thesis by simp
qed

text \<open>Whatever bytes arrive, a response that the client accepts was one line of at most 64 KiB, its
  line break included, and passed validation; the rest of the stream is left for the next frame. In
  particular a peer that never ends its line is cut off at the limit.\<close>

lemma response_frame_bounded:
  assumes "decodeResponseFrame W ending s = Inr (r, rest)"
  shows "\<exists>w. s = w @ newline # rest \<and> newline \<notin> set w \<and> Suc (length w) \<le> MaxMessageBytes
    \<and> response_validate r = None"
proof -
  from assms have valid: "response_validate r = None" and frame: "decode_frame W ending s = Inr (r, rest)"
    by (auto simp: decodeResponseFrame_def decode_valid_def split: sum.splits option.splits)
  from decode_frame_line [OF frame] valid show ?thesis by (metis Suc_leI)
qed

definition sample_ok :: Response where
  "sample_ok = success ''0123456789abcdef0123456789abcdef'' None None"

lemma sample_ok_valid: "response_validate sample_ok = None"
  by code_simp

lemma sample_wire_ready: "wire_ready (sample_wire x) x"
  by (simp add: wire_ready_def sample_wire_reads encode_line_def) (simp add: sample_wire_def MaxMessageBytes_def)

lemma response_frame_bounded_witness:
  "\<exists>w. written (sample_wire sample_ok) [sample_ok] = w @ newline # '''' \<and> Suc (length w) \<le> MaxMessageBytes"
proof -
  have "decodeResponseFrame (sample_wire sample_ok) PeerClosed (written (sample_wire sample_ok) [sample_ok])
      = Inr (sample_ok, '''')"
    using decode_written [OF sample_ok_valid sample_wire_ready, of PeerClosed "[]"] by (simp add: written_def)
  from response_frame_bounded [OF this] show ?thesis by blast
qed

text \<open>C26. A handler calls the run only for a peer with the supervisor's own user and a valid request for
  this machine, framed within the limit; a stop then has a timeout between one second and one hour,
  or the configured default.\<close>

theorem dispatch_authorized:
  assumes "fst (handleConnection W sv ending s) = Some call"
  shows "sv_peer sv = Some (sv_uid sv)
    \<and> (\<exists>q rest. DecodeRequest W ending s = Inr (q, rest) \<and> request_validate q = None \<and> rq_id q = sv_id sv)
    \<and> (\<forall>force timeout. call = StopCall force timeout \<longrightarrow>
         timeout = sv_timeout sv \<or> 1000000000 \<le> timeout \<and> timeout \<le> 3600 * 1000000000)"
proof -
  from assms obtain q rest where q: "sv_peer sv = Some (sv_uid sv)" "DecodeRequest W ending s = Inr (q, rest)"
    "fst (handle_request sv q) = Some call"
    by (auto simp: handleConnection_def split: if_splits sum.splits)
  from q(2) have valid: "request_validate q = None"
    by (auto simp: DecodeRequest_def decode_valid_def split: sum.splits option.splits)
  from q(3) have own: "rq_id q = sv_id sv"
    by (auto simp: handle_request_def split: if_splits)
  have bound: "timeout = sv_timeout sv \<or> 1000000000 \<le> timeout \<and> timeout \<le> 3600 * 1000000000"
    if "call = StopCall force timeout" for force timeout
    using that q(3) valid own
    by (auto simp: handle_request_def request_validate_def err_simps command_defs Let_def
        split: if_splits option.splits prod.splits)
  from q(1,2) valid own bound show ?thesis by blast
qed

definition sample_server :: server where
  "sample_server = \<lparr>sv_peer = Some 501, sv_uid = 501, sv_id = ''0123456789abcdef0123456789abcdef'',
     sv_timeout = 60000000000, sv_status = Inl ''no status'', sv_stop = (\<lambda>_ _. ([], None)),
     sv_text = (\<lambda>_. ''invalid'')\<rparr>"

lemma sample_handled:
  "DecodeRequest (sample_wire sample_request) PeerClosed (''{}'' @ [newline]) = Inr (sample_request, '''')"
  by (simp add: DecodeRequest_def decode_valid_def decode_frame_def read_slice_def Let_def sample_request_valid
      MaxMessageBytes_def) (simp add: sample_wire_def sample_request_valid)

theorem dispatch_authorized_witness:
  "sv_peer sample_server = Some (sv_uid sample_server)"
proof -
  have "fst (handleConnection (sample_wire sample_request) sample_server PeerClosed (''{}'' @ [newline]))
      = Some (StopCall False 30000000000)"
    using sample_handled
    by (simp add: handleConnection_def) (simp add: handle_request_def sample_server_def sample_request_def command_defs)
  from dispatch_authorized [OF this] show ?thesis by blast
qed

text \<open>C27. End to end, client and handler agree: for a valid stop request of the right user and machine the
  client reports exactly the progress of the run, in order, and returns exactly its outcome, success
  or the error code and text. JSON is assumed to read back the messages exchanged, and they to fit
  the limit.\<close>

theorem stop_exchange_end_to_end:
  assumes "request_validate q = None" and "rq_command q = CommandStop" and "rq_id q = sv_id sv"
    and "sv_peer sv = Some (sv_uid sv)" and "wire_ready Wq q"
    and "sv_stop sv (rq_force q) (case rq_timeout q of None \<Rightarrow> sv_timeout sv | Some t \<Rightarrow> t * 1000000000) = (ps, out)"
    and "set ps \<subseteq> {StopProgressAcknowledged, StopProgressForcing}"
    and "\<And>p. p \<in> set ps \<Longrightarrow> wire_ready Wr (success (rq_id q) None (Some p))"
    and "wire_ready Wr (stop_response (rq_id q) out)"
    and "out \<noteq> Some (StopTimedOut '''')" and "out \<noteq> Some (StopFailed '''')"
    and "EncodeRequest Wq q = Inr line"
  shows "ControlWithProgress Wq Wr
      \<lparr>ex_connects = True, ex_deadline_set = True, ex_sends = True,
       ex_reply = written Wr (snd (handleConnection Wq sv ending line)), ex_end = PeerClosed\<rparr> q
    = ((case out of None \<Rightarrow> Inr (success (rq_id q) None None)
        | Some (StopTimedOut t) \<Rightarrow> Inl (CtlResponse ErrorShutdownTimeout t)
        | Some (StopFailed t) \<Rightarrow> Inl (CtlResponse ErrorInternal t)), ps)"
proof -
  have ident: "idPattern (rq_id q)" "rq_version q = ProtocolVersion"
    using assms(1) by (auto simp: request_validate_def validateEnvelope_def err_simps)
  have reads: "json_reads_back Wq q" using assms(5) by (simp add: wire_ready_def)
  have "DecodeRequest Wq ending line = Inr (q, [])"
    using decode_encode_line [of Wq q line ending "[]"] assms(1,12) reads
    by (auto simp: DecodeRequest_def decode_valid_def EncodeRequest_def split: option.splits)
  then have handled: "snd (handleConnection Wq sv ending line) =
      List.map (\<lambda>p. success (rq_id q) None (Some p)) ps @ [stop_response (rq_id q) out]"
    using assms(2-4,6) by (simp add: handleConnection_def handle_request_def command_defs Let_def)
  have prog: "\<forall>p \<in> set ps. response_validate (success (rq_id q) None (Some p)) = None
      \<and> wire_ready Wr (success (rq_id q) None (Some p))"
    using assms(7,8) ident by (auto simp: response_validate_def success_def validateEnvelope_def)
  have final: "response_validate (stop_response (rq_id q) out) = None"
  proof (cases out)
    case None
    then show ?thesis
      using ident by (simp add: stop_response_def response_validate_def success_def validateEnvelope_def)
  next
    case (Some sf)
    then show ?thesis
      using ident assms(10,11)
      by (cases sf) (simp_all add: stop_response_def response_validate_def failure_def validateEnvelope_def
          protocol_error_validate_def code_defs)
  qed
  have shape: "rs_id (stop_response (rq_id q) out) = rq_id q" "rs_progress (stop_response (rq_id q) out) = None"
    by (auto simp: stop_response_def success_def failure_def split: option.split stop_failure.split)
  show ?thesis
    using control_loop_written [OF prog final assms(9) shape ident(2), of PeerClosed] assms(1,2,12)
    by (auto simp: ControlWithProgress_def handled stop_response_def success_def failure_def
        split: option.splits stop_failure.splits)
qed

theorem stop_exchange_end_to_end_witness:
  "ControlWithProgress (sample_wire sample_request) (sample_wire sample_ok)
      \<lparr>ex_connects = True, ex_deadline_set = True, ex_sends = True,
       ex_reply = written (sample_wire sample_ok)
         (snd (handleConnection (sample_wire sample_request) sample_server PeerClosed (''{}'' @ [newline]))),
       ex_end = PeerClosed\<rparr> sample_request
    = (Inr sample_ok, [])"
proof -
  have line: "EncodeRequest (sample_wire sample_request) sample_request = Inr (''{}'' @ [newline])"
    by (simp add: EncodeRequest_def sample_request_valid) (simp add: encode_line_def sample_wire_def MaxMessageBytes_def)
  have ok: "stop_response (rq_id sample_request) None = sample_ok"
    by (simp add: stop_response_def sample_ok_def sample_request_def)
  have run: "sv_stop sample_server (rq_force sample_request)
      (case rq_timeout sample_request of None \<Rightarrow> sv_timeout sample_server | Some t \<Rightarrow> t * 1000000000) = ([], None)"
    by (simp add: sample_server_def)
  have own: "rq_command sample_request = CommandStop" "rq_id sample_request = sv_id sample_server"
    "sv_peer sample_server = Some (sv_uid sample_server)" "rq_id sample_request = ''0123456789abcdef0123456789abcdef''"
    by (simp_all add: sample_request_def sample_server_def command_defs)
  have "wire_ready (sample_wire sample_ok) (stop_response (rq_id sample_request) None)"
    unfolding ok by (rule sample_wire_ready)
  from stop_exchange_end_to_end [OF sample_request_valid own(1-3) sample_wire_ready run _ _ this _ _ line, of PeerClosed]
  show ?thesis by (simp add: sample_ok_def own(4))
qed

text \<open>The child of a detached start comes into being when all the steps before it succeed.\<close>

definition child_created :: "start_env \<Rightarrow> bool" where
  "child_created env \<longleftrightarrow> se_pipe env \<and> se_devnull env \<and> se_stdout_log env \<and> se_stderr_log env
     \<and> se_attributes env \<and> se_process env"

text \<open>The child confirmed its start: it wrote a ready message of this version, for this machine, that reports success.\<close>

definition child_confirmed :: "ReadyMessage wire \<Rightarrow> StartOptions \<Rightarrow> start_env \<Rightarrow> bool" where
  "child_confirmed W o' env \<longleftrightarrow>
     (case se_event env of
        PipeText s ending \<Rightarrow>
          (case ReadReady W ending s of
             Inr m \<Rightarrow> rm_id m = so_expected_id o' \<and> rm_version m = ProtocolVersion \<and> rm_ok m
           | Inl _ \<Rightarrow> False)
      | _ \<Rightarrow> False)"

lemma terminateAndReap_outcome:
  "terminateAndReap env acts e = (case se_wait env of
      None \<Rightarrow> None
    | Some w \<Rightarrow> Some (e # (case se_signal env of CallError _ \<Rightarrow> [SignalFailed (se_signal env)] | _ \<Rightarrow> [])
                      @ (if w \<in> {CallOK, CallProcessDone} then [] else [ReapFailed w]),
                    acts @ [TerminationRequested, WaitedFor]))"
  by (auto simp: terminateAndReap_def wrapProcessCleanupError_def cooperativeTerminationProcessDone_def
      split: option.splits child_call.splits)

text \<open>C31. Once the child of a detached start exists, it is never left behind: the start succeeds exactly when the
  child confirmed its start and its handle was released, and on every other path the child is asked
  to terminate and then waited for, last of all, before the start returns; it returns unless the child never exits. The
  result says so when the signal or the wait failed, so a failure without such an error has reaped the child.
  Before the child exists nothing is signalled or waited for.\<close>

theorem start_leaves_no_orphan:
  "case startDetached W o' env of
     None \<Rightarrow> child_created env \<and> \<not> (child_confirmed W o' env \<and> se_release env) \<and> se_wait env = None
   | Some (es, acts) \<Rightarrow>
       (es = []) = (child_created env \<and> child_confirmed W o' env \<and> se_release env)
     \<and> acts = (if \<not> child_created env then []
               else Spawned # (if child_confirmed W o' env
                               then [ReadyReported, if se_release env then HandleReleased else ReleaseRefused] else [])
                    @ (if es = [] then [] else [TerminationRequested, WaitedFor]))
     \<and> (child_created env \<and> es \<noteq> [] \<longrightarrow>
          (\<exists>w. se_wait env = Some w \<and> (w \<in> {CallOK, CallProcessDone} \<or> ReapFailed w \<in> set es))
          \<and> (\<forall>t. se_signal env = CallError t \<longrightarrow> SignalFailed (se_signal env) \<in> set es))"
proof (cases "child_created env")
  case False
  then show ?thesis by (auto simp: startDetached_def child_created_def)
next
  case created: True
  have ready: "child_confirmed W o' env \<longleftrightarrow>
      (\<exists>m. awaitReady W (se_event env) = Inr m \<and> requireMatchingReady m (so_expected_id o') = None)"
    by (auto simp: child_confirmed_def awaitReady_def requireMatchingReady_def split: ready_event.splits sum.splits)
  show ?thesis
  proof (cases "child_confirmed W o' env")
    case True
    then obtain m where "awaitReady W (se_event env) = Inr m" "requireMatchingReady m (so_expected_id o') = None"
      using ready by blast
    then have "startDetached W o' env =
        (if se_release env then Some ([], [Spawned, ReadyReported, HandleReleased])
         else terminateAndReap env [Spawned, ReadyReported, ReleaseRefused] ReleaseError)"
      using created by (simp add: startDetached_def child_created_def)
    then show ?thesis using created True by (auto simp: terminateAndReap_outcome split: option.splits)
  next
    case False
    then obtain e where "startDetached W o' env = terminateAndReap env [Spawned] e"
      using created ready by (cases "awaitReady W (se_event env)")
        (auto simp: startDetached_def child_created_def split: option.splits)
    then show ?thesis using created False by (auto simp: terminateAndReap_outcome split: option.splits)
  qed
qed

text \<open>A child whose ready message is foreign, and that had already exited when it was signalled.\<close>

definition sample_start_options :: StartOptions where
  "sample_start_options =
     \<lparr>so_name = ''dev'', so_expected_id = ''0123456789abcdef0123456789abcdef'', so_executable = ''/bin/q'',
      so_stdout = ''/o'', so_stderr = ''/e'', so_foreground = False, so_boot_menu = False, so_debug = False,
      so_has_runner = False, so_ready_timeout = 0\<rparr>"

definition sample_ready :: "string \<Rightarrow> ReadyMessage" where
  "sample_ready i = \<lparr>rm_version = 1, rm_id = i, rm_ok = True, rm_error = None\<rparr>"

definition sample_start_env :: start_env where
  "sample_start_env =
     \<lparr>se_pipe = True, se_devnull = True, se_stdout_log = True, se_stderr_log = True, se_attributes = True,
      se_process = True, se_event = PipeText [newline] PeerClosed, se_release = True,
      se_signal = CallProcessDone, se_wait = Some CallOK\<rparr>"

lemma sample_ready_read:
  assumes "ready_validate (sample_ready i) = None"
  shows "ReadReady (sample_wire (sample_ready i)) PeerClosed [newline] = Inr (sample_ready i)"
  using assms
  by (simp add: ReadReady_def decode_valid_def decode_frame_def read_slice_def Let_def MaxMessageBytes_def)
    (simp add: sample_wire_def)

theorem start_leaves_no_orphan_witness:
  "(\<exists>acts. StartProcess (sample_wire (sample_ready ''0123456789abcdef0123456789abcdef'')) sample_start_options
       sample_start_env None = Some ([], acts) \<and> last acts = HandleReleased)
   \<and> (\<exists>es acts. StartProcess (sample_wire (sample_ready ''fedcba9876543210fedcba9876543210'')) sample_start_options
       sample_start_env None = Some (es, acts) \<and> es \<noteq> [] \<and> acts = [Spawned, TerminationRequested, WaitedFor])"
proof -
  have valid: "validateStartOptions sample_start_options = None"
    "ready_validate (sample_ready ''0123456789abcdef0123456789abcdef'') = None"
    "ready_validate (sample_ready ''fedcba9876543210fedcba9876543210'') = None" by code_simp+
  have run: "StartProcess W sample_start_options env r = startDetached W sample_start_options env" for W env r
    using valid(1) by (simp add: StartProcess_def) (simp add: sample_start_options_def)
  have env: "child_created sample_start_env" "se_release sample_start_env" "se_event sample_start_env = PipeText [newline] PeerClosed"
    "se_wait sample_start_env = Some CallOK"
    by (simp_all add: child_created_def sample_start_env_def)
  have own: "child_confirmed (sample_wire (sample_ready ''0123456789abcdef0123456789abcdef'')) sample_start_options sample_start_env"
    and foreign: "\<not> child_confirmed (sample_wire (sample_ready ''fedcba9876543210fedcba9876543210'')) sample_start_options sample_start_env"
    using sample_ready_read valid(2,3)
    by (simp_all add: child_confirmed_def env sample_start_options_def ProtocolVersion_def) (simp_all add: sample_ready_def)
  from start_leaves_no_orphan [of sample_start_env _ sample_start_options] own foreign env show ?thesis
    unfolding run by (fastforce split: option.splits)
qed

end
