(* ===== verification/Run.thy ===== *)
theory Run
  imports Protocol
begin

text \<open>
  \<open>internal/supervisor/run.go\<close>: one supervised backend and the goroutines that stop it. The state
  is \<open>supervisedRun\<close> with the position of every goroutine: the graceful attempts
  (\<open>runGraceful\<close>), the one force goroutine of \<open>force\<close>, and the callers of \<open>stopWithProgress\<close>. A
  critical section under \<open>r.mu\<close> is one step, as is a receive from a channel; a backend call is two
  steps, its start and its return with any result. \<open>act\<close> is the executable step; a
  reachable state is one that any sequence of steps leads to.
\<close>

section \<open>State\<close>

datatype stop_error = ErrTimeout | ErrBackend string | ErrContext

datatype context_end = DeadlineExceeded | Canceled

text \<open>Where an attempt is: in \<open>RequestShutdown\<close>; back from it; waiting for a force stop; in the select
  on exit, context and force; after the context ended under a force stop; about to publish; done.\<close>

datatype graceful_pc =
    GRequesting | GReturned "stop_error option" | GForced | GWaiting | GExpired
  | GPublish "stop_error option" | GFinished

record attempt =
  at_request :: bool
  at_accepted :: bool
  at_done :: bool
  at_err :: "stop_error option"
  at_context :: "context_end option"
  at_pc :: graceful_pc

datatype force_pc =
    FNone | FWaitRequest "nat option" | FStopping | FWaitExit "stop_error option" | FDone

datatype caller_pc =
    CWaitRequest nat | CWaitDone nat | CWaitForce | CReturned "stop_error option"

record caller =
  c_pc :: caller_pc
  c_progress :: "string list"

record run =
  r_state :: run_state
  r_terminal :: bool
  r_intentional :: bool
  r_stopping :: bool
  r_graceful :: "nat option"
  r_attempts :: "attempt list"
  r_force_started :: bool
  r_force_done :: bool
  r_force_err :: "stop_error option"
  r_force :: force_pc
  r_force_calls :: nat
  r_callers :: "caller list"

definition newSupervisedRun :: "run_state \<Rightarrow> run" where
  "newSupervisedRun s =
     \<lparr>r_state = s, r_terminal = False, r_intentional = False, r_stopping = False, r_graceful = None,
      r_attempts = [], r_force_started = False, r_force_done = False, r_force_err = None,
      r_force = FNone, r_force_calls = 0, r_callers = []\<rparr>"

section \<open>Steps\<close>

definition new_attempt :: attempt where
  "new_attempt = \<lparr>at_request = False, at_accepted = False, at_done = False, at_err = None,
     at_context = None, at_pc = GRequesting\<rparr>"

definition upd_attempt :: "nat \<Rightarrow> (attempt \<Rightarrow> attempt) \<Rightarrow> run \<Rightarrow> run" where
  "upd_attempt a f r = r\<lparr>r_attempts := (r_attempts r)[a := f (r_attempts r ! a)]\<rparr>"

definition upd_caller :: "nat \<Rightarrow> (caller \<Rightarrow> caller) \<Rightarrow> run \<Rightarrow> run" where
  "upd_caller c f r = r\<lparr>r_callers := (r_callers r)[c := f (r_callers r ! c)]\<rparr>"

definition add_caller :: "caller_pc \<Rightarrow> string list \<Rightarrow> run \<Rightarrow> run" where
  "add_caller pc progress r = r\<lparr>r_callers := r_callers r @ [\<lparr>c_pc = pc, c_progress = progress\<rparr>]\<rparr>"

definition cancel_context :: "attempt \<Rightarrow> attempt" where
  "cancel_context at = (if at_context at = None then at\<lparr>at_context := Some Canceled\<rparr> else at)"

definition intend_stop :: "run \<Rightarrow> run" where
  "intend_stop r = r\<lparr>r_intentional := True, r_stopping := True, r_state := RunStateStopping\<rparr>"

text \<open>\<open>stopWithProgress\<close> and \<open>force\<close> up to their first wait.\<close>

definition start_force :: "run \<Rightarrow> run" where
  "start_force r =
     (if r_force_started r then r
      else (case r_graceful r of None \<Rightarrow> id | Some a \<Rightarrow> upd_attempt a cancel_context)
        (intend_stop r\<lparr>r_force_started := True, r_force := FWaitRequest (r_graceful r)\<rparr>))"

definition stopWithProgress :: "bool \<Rightarrow> run \<Rightarrow> run" where
  "stopWithProgress force r =
     (if force then add_caller CWaitForce [StopProgressForcing] (start_force r)
      else if r_force_started r then add_caller CWaitForce [StopProgressForcing] r
      else case r_graceful r of
        Some a \<Rightarrow> add_caller (CWaitRequest a) [] r
      | None \<Rightarrow>
          let a = length (r_attempts r)
          in add_caller (CWaitRequest a) []
               (r\<lparr>r_graceful := Some a, r_attempts := r_attempts r @ [new_attempt]\<rparr>))"

text \<open>The critical section of \<open>runGraceful\<close> after \<open>RequestShutdown\<close>.\<close>

definition settle_request :: "nat \<Rightarrow> stop_error option \<Rightarrow> run \<Rightarrow> run" where
  "settle_request a err r =
     (let r1 = upd_attempt a (\<lambda>t. t\<lparr>at_accepted := (err = None), at_request := True\<rparr>) r
      in if r_force_started r then upd_attempt a (\<lambda>t. t\<lparr>at_pc := GForced\<rparr>) r1
         else case err of
           Some e \<Rightarrow>
             upd_attempt a (\<lambda>t. t\<lparr>at_err := Some (if at_context t = Some DeadlineExceeded then ErrTimeout else e),
                 at_done := True, at_pc := GFinished\<rparr>)
               (if r_graceful r = Some a then r1\<lparr>r_graceful := None\<rparr> else r1)
         | None \<Rightarrow> upd_attempt a (\<lambda>t. t\<lparr>at_pc := GWaiting\<rparr>) (intend_stop r1))"

definition publish :: "nat \<Rightarrow> stop_error option \<Rightarrow> run \<Rightarrow> run" where
  "publish a err = upd_attempt a (\<lambda>t. t\<lparr>at_err := err, at_done := True, at_pc := GFinished\<rparr>)"

definition goto :: "nat \<Rightarrow> graceful_pc \<Rightarrow> run \<Rightarrow> run" where
  "goto a pc = upd_attempt a (\<lambda>t. t\<lparr>at_pc := pc\<rparr>)"

datatype event =
    BackendExit | Stop bool | Observe run_state | Deadline nat
  | RequestReturns nat "stop_error option" | SettleRequest nat | ForcedDone nat
  | WaitExit nat | WaitContext nat | WaitForced nat | ExpiredForced nat | Publish nat
  | ForceBegins | ForceReturns "stop_error option" | ForceFinishes
  | CallerRequest nat | CallerDone nat | CallerForce nat | CallerResult nat | CallerContext nat

definition attempt_at :: "run \<Rightarrow> nat \<Rightarrow> attempt option" where
  "attempt_at r a = (if a < length (r_attempts r) then Some (r_attempts r ! a) else None)"

definition pc_of :: "run \<Rightarrow> nat \<Rightarrow> graceful_pc" where
  "pc_of r a = (if a < length (r_attempts r) then at_pc (r_attempts r ! a) else GFinished)"

definition caller_pc_of :: "run \<Rightarrow> nat \<Rightarrow> caller_pc option" where
  "caller_pc_of r c = (if c < length (r_callers r) then Some (c_pc (r_callers r ! c)) else None)"

definition attempt_flag :: "(attempt \<Rightarrow> bool) \<Rightarrow> run \<Rightarrow> nat \<Rightarrow> bool" where
  "attempt_flag f r a = (case attempt_at r a of None \<Rightarrow> False | Some t \<Rightarrow> f t)"

definition call_goto :: "nat \<Rightarrow> caller_pc \<Rightarrow> string list \<Rightarrow> run \<Rightarrow> run" where
  "call_goto c pc progress = upd_caller c (\<lambda>k. k\<lparr>c_pc := pc, c_progress := c_progress k @ progress\<rparr>)"

definition guarded :: "bool \<Rightarrow> 'a \<Rightarrow> 'a option" where
  "guarded b x = (if b then Some x else None)"

definition act_graceful :: "event \<Rightarrow> run \<Rightarrow> run option" where
  "act_graceful ev r =
     (case ev of
        Deadline a \<Rightarrow>
          guarded (a < length (r_attempts r) \<and> \<not> attempt_flag (\<lambda>t. at_context t \<noteq> None) r a)
            (upd_attempt a (\<lambda>t. t\<lparr>at_context := Some DeadlineExceeded\<rparr>) r)
      | RequestReturns a err \<Rightarrow> guarded (pc_of r a = GRequesting) (goto a (GReturned err) r)
      | SettleRequest a \<Rightarrow>
          (case pc_of r a of GReturned err \<Rightarrow> Some (settle_request a err r) | _ \<Rightarrow> None)
      | ForcedDone a \<Rightarrow> guarded (pc_of r a = GForced \<and> r_force_done r) (publish a (r_force_err r) r)
      | WaitExit a \<Rightarrow> guarded (pc_of r a = GWaiting \<and> r_terminal r) (goto a (GPublish None) r)
      | WaitContext a \<Rightarrow>
          guarded (pc_of r a = GWaiting \<and> attempt_flag (\<lambda>t. at_context t \<noteq> None) r a)
            (goto a (if r_force_started r then GExpired else GPublish (Some ErrTimeout)) r)
      | WaitForced a \<Rightarrow> guarded (pc_of r a = GWaiting \<and> r_force_done r) (goto a (GPublish (r_force_err r)) r)
      | ExpiredForced a \<Rightarrow> guarded (pc_of r a = GExpired \<and> r_force_done r) (goto a (GPublish (r_force_err r)) r)
      | Publish a \<Rightarrow> (case pc_of r a of GPublish err \<Rightarrow> Some (publish a err r) | _ \<Rightarrow> None)
      | _ \<Rightarrow> None)"

definition act_force :: "event \<Rightarrow> run \<Rightarrow> run option" where
  "act_force ev r =
     (case ev of
        ForceBegins \<Rightarrow>
          (case r_force r of
             FWaitRequest req \<Rightarrow>
               guarded (case req of None \<Rightarrow> True | Some a \<Rightarrow> attempt_flag at_request r a)
                 (r\<lparr>r_force := FStopping, r_force_calls := Suc (r_force_calls r)\<rparr>)
           | _ \<Rightarrow> None)
      | ForceReturns err \<Rightarrow> guarded (r_force r = FStopping) (r\<lparr>r_force := FWaitExit err\<rparr>)
      | ForceFinishes \<Rightarrow>
          (case r_force r of
             FWaitExit err \<Rightarrow>
               guarded (r_terminal r) (r\<lparr>r_force_err := err, r_force_done := True, r_force := FDone\<rparr>)
           | _ \<Rightarrow> None)
      | _ \<Rightarrow> None)"

definition act_caller :: "event \<Rightarrow> run \<Rightarrow> run option" where
  "act_caller ev r =
     (case ev of
        CallerRequest c \<Rightarrow>
          (case caller_pc_of r c of
             Some (CWaitRequest a) \<Rightarrow>
               guarded (attempt_flag at_request r a)
                 (call_goto c (CWaitDone a)
                    (if attempt_flag at_accepted r a then [StopProgressAcknowledged] else []) r)
           | _ \<Rightarrow> None)
      | CallerDone c \<Rightarrow>
          (case caller_pc_of r c of
             Some (CWaitDone a) \<Rightarrow>
               guarded (attempt_flag at_done r a) (call_goto c (CReturned (at_err (r_attempts r ! a))) [] r)
           | _ \<Rightarrow> None)
      | CallerForce c \<Rightarrow>
          (case caller_pc_of r c of
             Some (CWaitRequest a) \<Rightarrow> guarded (r_force_done r) (call_goto c CWaitForce [StopProgressForcing] r)
           | Some (CWaitDone a) \<Rightarrow> guarded (r_force_done r) (call_goto c CWaitForce [StopProgressForcing] r)
           | _ \<Rightarrow> None)
      | CallerResult c \<Rightarrow>
          guarded (caller_pc_of r c = Some CWaitForce \<and> r_force_done r) (call_goto c (CReturned (r_force_err r)) [] r)
      | CallerContext c \<Rightarrow>
          (case caller_pc_of r c of
             None \<Rightarrow> None
           | Some (CReturned _) \<Rightarrow> None
           | Some _ \<Rightarrow> Some (call_goto c (CReturned (Some ErrContext)) [] r))
      | _ \<Rightarrow> None)"

text \<open>A step: the environment and new callers, the graceful goroutines, the force goroutine, the
  callers. \<open>Observe\<close> is the second half of \<open>currentStatus\<close>.\<close>

definition act :: "event \<Rightarrow> run \<Rightarrow> run option" where
  "act ev r =
     (case ev of
        BackendExit \<Rightarrow> Some (r\<lparr>r_terminal := True\<rparr>)
      | Stop force \<Rightarrow> Some (stopWithProgress force r)
      | Observe s \<Rightarrow> Some (if r_stopping r then r else r\<lparr>r_state := s\<rparr>)
      | _ \<Rightarrow>
          (case act_graceful ev r of
             Some r' \<Rightarrow> Some r'
           | None \<Rightarrow> (case act_force ev r of Some r' \<Rightarrow> Some r' | None \<Rightarrow> act_caller ev r)))"

inductive reachable :: "run \<Rightarrow> bool" where
  start: "reachable (newSupervisedRun s)"
| step: "reachable r \<Longrightarrow> act ev r = Some r' \<Longrightarrow> reachable r'"

fun acts :: "event list \<Rightarrow> run \<Rightarrow> run option" where
  "acts [] r = Some r"
| "acts (ev # evs) r = (case act ev r of None \<Rightarrow> None | Some r' \<Rightarrow> acts evs r')"

lemma acts_reachable: "reachable r \<Longrightarrow> acts evs r = Some r' \<Longrightarrow> reachable r'"
  by (induction evs arbitrary: r) (auto split: option.splits intro: reachable.step)


section \<open>Invariant\<close>

definition in_flight :: "graceful_pc \<Rightarrow> bool" where
  "in_flight pc = (case pc of GRequesting \<Rightarrow> True | GReturned _ \<Rightarrow> True | _ \<Rightarrow> False)"

lemma in_flight_simps [simp]:
  "in_flight GRequesting" "in_flight (GReturned e)" "\<not> in_flight GForced" "\<not> in_flight GWaiting"
  "\<not> in_flight GExpired" "\<not> in_flight (GPublish e)" "\<not> in_flight GFinished"
  by (simp_all add: in_flight_def)

text \<open>One attempt, as far as the flags of the run matter to it.\<close>

definition attempt_ok :: "run \<Rightarrow> nat \<Rightarrow> attempt \<Rightarrow> bool" where
  "attempt_ok r a t \<longleftrightarrow>
     at_request t = (\<not> in_flight (at_pc t))
     \<and> (in_flight (at_pc t) \<longrightarrow> r_graceful r = Some a \<and> \<not> at_accepted t)
     \<and> (at_accepted t \<longrightarrow> r_graceful r = Some a)
     \<and> at_done t = (at_pc t = GFinished)
     \<and> (at_done t \<longrightarrow> at_err t = None \<longrightarrow> r_terminal r)
     \<and> (at_pc t = GPublish None \<longrightarrow> r_terminal r)
     \<and> (at_pc t = GWaiting \<longrightarrow> r_stopping r)
     \<and> (at_pc t \<in> {GForced, GExpired} \<longrightarrow> r_force_started r)"

definition attempts_inv :: "run \<Rightarrow> bool" where
  "attempts_inv r \<longleftrightarrow> (\<forall>a < length (r_attempts r). attempt_ok r a (r_attempts r ! a))
     \<and> (\<forall>a. r_graceful r = Some a \<longrightarrow> a < length (r_attempts r))"

text \<open>No request is in flight, but perhaps that of the attempt \<open>req\<close>.\<close>

definition settled_except :: "attempt list \<Rightarrow> nat option \<Rightarrow> bool" where
  "settled_except ts req \<longleftrightarrow> (\<forall>a < length ts. in_flight (at_pc (ts ! a)) \<longrightarrow> req = Some a)
     \<and> (\<forall>a. req = Some a \<longrightarrow> a < length ts)"

definition force_inv :: "run \<Rightarrow> bool" where
  "force_inv r \<longleftrightarrow>
     r_force_started r = (r_force r \<noteq> FNone) \<and> r_force_done r = (r_force r = FDone)
     \<and> (r_force_done r \<longrightarrow> r_terminal r) \<and> (r_force_started r \<longrightarrow> r_stopping r)
     \<and> r_force_calls r = (if r_force r = FNone \<or> (\<exists>req. r_force r = FWaitRequest req) then 0 else 1)
     \<and> (\<forall>req. r_force r = FWaitRequest req \<longrightarrow> settled_except (r_attempts r) req)
     \<and> (r_force r \<noteq> FNone \<longrightarrow> (\<nexists>req. r_force r = FWaitRequest req) \<longrightarrow> settled_except (r_attempts r) None)"

definition state_inv :: "run \<Rightarrow> bool" where
  "state_inv r \<longleftrightarrow> (r_stopping r \<longrightarrow> r_state r = RunStateStopping \<and> r_intentional r)"

definition caller_ok :: "run \<Rightarrow> caller \<Rightarrow> bool" where
  "caller_ok r c \<longleftrightarrow>
     (case c_pc c of
        CReturned None \<Rightarrow> r_terminal r
      | CReturned (Some _) \<Rightarrow> True
      | CWaitRequest a \<Rightarrow> a < length (r_attempts r)
      | CWaitDone a \<Rightarrow> a < length (r_attempts r)
      | CWaitForce \<Rightarrow> r_force_started r)"

definition callers_inv :: "run \<Rightarrow> bool" where
  "callers_inv r \<longleftrightarrow> (\<forall>c \<in> set (r_callers r). caller_ok r c)"

definition run_inv :: "run \<Rightarrow> bool" where
  "run_inv r \<longleftrightarrow> attempts_inv r \<and> force_inv r \<and> state_inv r \<and> callers_inv r"

lemma guarded_Some [simp]: "guarded b x = Some y \<longleftrightarrow> b \<and> y = x"
  by (auto simp: guarded_def)

text \<open>Moving one attempt that stays settled or in flight as it was.\<close>

lemma upd_attempt_fields [simp]:
  "length (r_attempts (upd_attempt a f r)) = length (r_attempts r)"
  "r_terminal (upd_attempt a f r) = r_terminal r" "r_graceful (upd_attempt a f r) = r_graceful r"
  "r_force_started (upd_attempt a f r) = r_force_started r" "r_force_done (upd_attempt a f r) = r_force_done r"
  "r_force (upd_attempt a f r) = r_force r" "r_force_calls (upd_attempt a f r) = r_force_calls r"
  "r_stopping (upd_attempt a f r) = r_stopping r" "r_state (upd_attempt a f r) = r_state r"
  "r_intentional (upd_attempt a f r) = r_intentional r" "r_callers (upd_attempt a f r) = r_callers r"
  "r_force_err (upd_attempt a f r) = r_force_err r"
  by (simp_all add: upd_attempt_def)

lemma upd_attempt_nth [simp]:
  "b < length (r_attempts r) \<Longrightarrow>
   r_attempts (upd_attempt a f r) ! b = (if a = b then f (r_attempts r ! b) else r_attempts r ! b)"
  by (simp add: upd_attempt_def nth_list_update)

lemma upd_caller_fields [simp]:
  "r_attempts (upd_caller c f r) = r_attempts r"
  "r_terminal (upd_caller c f r) = r_terminal r" "r_graceful (upd_caller c f r) = r_graceful r"
  "r_force_started (upd_caller c f r) = r_force_started r" "r_force_done (upd_caller c f r) = r_force_done r"
  "r_force (upd_caller c f r) = r_force r" "r_force_calls (upd_caller c f r) = r_force_calls r"
  "r_stopping (upd_caller c f r) = r_stopping r" "r_state (upd_caller c f r) = r_state r"
  "r_intentional (upd_caller c f r) = r_intentional r" "r_force_err (upd_caller c f r) = r_force_err r"
  "length (r_callers (upd_caller c f r)) = length (r_callers r)"
  by (simp_all add: upd_caller_def)

lemma upd_caller_nth [simp]:
  "b < length (r_callers r) \<Longrightarrow>
   r_callers (upd_caller a f r) ! b = (if a = b then f (r_callers r ! b) else r_callers r ! b)"
  by (simp add: upd_caller_def nth_list_update)

text \<open>What the parts of the invariant do not read.\<close>

lemma attempt_ok_cong:
  "r_terminal r' = r_terminal r \<Longrightarrow> r_graceful r' = r_graceful r \<Longrightarrow> r_stopping r' = r_stopping r \<Longrightarrow>
   r_force_started r' = r_force_started r \<Longrightarrow> attempt_ok r' a t = attempt_ok r a t"
  by (simp add: attempt_ok_def)

lemma caller_ok_cong:
  "r_terminal r' = r_terminal r \<Longrightarrow> length (r_attempts r') = length (r_attempts r) \<Longrightarrow>
   r_force_started r' = r_force_started r \<Longrightarrow> caller_ok r' c = caller_ok r c"
  by (simp add: caller_ok_def split: caller_pc.split option.split)

lemma caller_ok_pc: "c_pc k = c_pc c \<Longrightarrow> caller_ok r k = caller_ok r c"
  by (simp add: caller_ok_def)

lemma attempt_ok_upd [simp]: "attempt_ok (upd_attempt a f r) b t = attempt_ok r b t"
  by (rule attempt_ok_cong) simp_all

lemma caller_ok_upd [simp]: "caller_ok (upd_attempt a f r) c = caller_ok r c"
  by (rule caller_ok_cong) simp_all

text \<open>An update of one attempt keeps the invariant when the attempt's own part holds and it does not
  come back in flight.\<close>

lemma settled_upd:
  assumes "settled_except ts req" and "a < length ts" and "in_flight (at_pc t) \<Longrightarrow> in_flight (at_pc (ts ! a))"
  shows "settled_except (ts[a := t]) req"
proof -
  have flight: "in_flight (at_pc (ts[a := t] ! b)) \<Longrightarrow> in_flight (at_pc (ts ! b))" for b
    using assms(2,3) by (cases "a = b") simp_all
  have "req = Some b" if "b < length (ts[a := t])" "in_flight (at_pc (ts[a := t] ! b))" for b
    using assms(1) that(1) flight [OF that(2)] unfolding settled_except_def length_list_update by blast
  moreover have "b < length (ts[a := t])" if "req = Some b" for b
    using assms(1) that unfolding settled_except_def length_list_update by blast
  ultimately show ?thesis unfolding settled_except_def by blast
qed

lemma run_inv_upd_attempt:
  assumes "run_inv r" and "a < length (r_attempts r)"
    and "attempt_ok r a (f (r_attempts r ! a))"
    and "in_flight (at_pc (f (r_attempts r ! a))) \<Longrightarrow> in_flight (at_pc (r_attempts r ! a))"
  shows "run_inv (upd_attempt a f r)"
proof -
  have parts: "attempts_inv r" "force_inv r" "state_inv r" "callers_inv r"
    using assms(1) by (simp_all add: run_inv_def)
  have "attempt_ok r b (r_attempts (upd_attempt a f r) ! b)" if "b < length (r_attempts r)" for b
    using parts(1) assms(3) that by (cases "a = b") (simp_all add: attempts_inv_def)
  then have "attempts_inv (upd_attempt a f r)"
    using parts(1) by (simp add: attempts_inv_def)
  moreover have keep: "settled_except (r_attempts (upd_attempt a f r)) req" if "settled_except (r_attempts r) req" for req
  proof -
    have "r_attempts (upd_attempt a f r) = (r_attempts r)[a := f (r_attempts r ! a)]"
      by (simp add: upd_attempt_def)
    with settled_upd [OF that assms(2,4)] show ?thesis by (simp only:)
  qed
  have "force_inv (upd_attempt a f r)"
    unfolding force_inv_def upd_attempt_fields using parts(2) [unfolded force_inv_def]
    by (intro conjI allI impI keep) simp_all
  moreover have "state_inv (upd_attempt a f r)" "callers_inv (upd_attempt a f r)"
    using parts(3,4) by (simp_all add: state_inv_def callers_inv_def)
  ultimately show ?thesis by (simp add: run_inv_def)
qed

lemma run_inv_callers:
  assumes "run_inv r" and "\<And>k. k \<in> set ks \<Longrightarrow> caller_ok r k"
  shows "run_inv (r\<lparr>r_callers := ks\<rparr>)"
proof -
  have "attempt_ok (r\<lparr>r_callers := ks\<rparr>) a t = attempt_ok r a t" for a t
    by (rule attempt_ok_cong) simp_all
  moreover have "caller_ok (r\<lparr>r_callers := ks\<rparr>) c = caller_ok r c" for c
    by (rule caller_ok_cong) simp_all
  ultimately show ?thesis
    using assms by (simp add: run_inv_def attempts_inv_def force_inv_def state_inv_def callers_inv_def)
qed

lemma run_inv_upd_caller:
  assumes "run_inv r" and "c < length (r_callers r)" and "caller_ok r (f (r_callers r ! c))"
  shows "run_inv (upd_caller c f r)"
  unfolding upd_caller_def
proof (rule run_inv_callers [OF assms(1)])
  fix k
  assume "k \<in> set ((r_callers r)[c := f (r_callers r ! c)])"
  then have "k = f (r_callers r ! c) \<or> k \<in> set (r_callers r)"
    using set_update_subset_insert [of "r_callers r" c "f (r_callers r ! c)"] by blast
  then show "caller_ok r k" using assms(1,3) by (auto simp: run_inv_def callers_inv_def)
qed

lemma run_inv_add_caller:
  assumes "run_inv r" and "caller_ok r \<lparr>c_pc = pc, c_progress = p\<rparr>"
  shows "run_inv (add_caller pc p r)"
  unfolding add_caller_def
  by (rule run_inv_callers [OF assms(1)]) (use assms in \<open>auto simp: run_inv_def callers_inv_def\<close>)

lemma attempt_of_inv: "run_inv r \<Longrightarrow> a < length (r_attempts r) \<Longrightarrow> attempt_ok r a (r_attempts r ! a)"
  by (simp add: run_inv_def attempts_inv_def)

lemma not_forced: "run_inv r \<Longrightarrow> \<not> r_force_started r \<Longrightarrow> r_force r = FNone \<and> r_force_calls r = 0 \<and> \<not> r_force_done r"
  by (simp add: run_inv_def force_inv_def)

lemma pc_of_length: "pc_of r a \<noteq> GFinished \<Longrightarrow> a < length (r_attempts r) \<and> at_pc (r_attempts r ! a) = pc_of r a"
  by (auto simp: pc_of_def split: if_splits)

lemma force_done_terminal: "run_inv r \<Longrightarrow> r_force_done r \<Longrightarrow> r_terminal r"
  by (simp add: run_inv_def force_inv_def)


text \<open>Preservation, operation by operation.\<close>

lemma cancel_context_fields [simp]:
  "at_request (cancel_context t) = at_request t" "at_accepted (cancel_context t) = at_accepted t"
  "at_done (cancel_context t) = at_done t" "at_err (cancel_context t) = at_err t"
  "at_pc (cancel_context t) = at_pc t"
  by (simp_all add: cancel_context_def)

text \<open>A change of the flags: stopping, intended, terminal and forced only go up.\<close>

lemma run_inv_flags:
  assumes "run_inv r" and "r_attempts r' = r_attempts r" and "r_callers r' = r_callers r"
    and "r_graceful r' = r_graceful r" and "r_terminal r \<longrightarrow> r_terminal r'"
    and "r_stopping r \<longrightarrow> r_stopping r'" and "r_force_started r \<longrightarrow> r_force_started r'"
    and "force_inv r'" and "state_inv r'"
  shows "run_inv r'"
proof -
  have "attempt_ok r a t \<Longrightarrow> attempt_ok r' a t" for a t
    using assms(4-7) by (simp add: attempt_ok_def)
  moreover have "caller_ok r c \<Longrightarrow> caller_ok r' c" for c
    using assms(2,5,7) by (simp add: caller_ok_def split: caller_pc.splits option.splits)
  ultimately show ?thesis
    using assms(1-4,8,9) by (simp add: run_inv_def attempts_inv_def callers_inv_def)
qed

lemma run_inv_start_force:
  assumes inv: "run_inv r"
  shows "run_inv (start_force r)"
proof (cases "r_force_started r")
  case False
  define r1 where "r1 = (intend_stop r)\<lparr>r_force_started := True, r_force := FWaitRequest (r_graceful r)\<rparr>"
  have flight: "in_flight (at_pc (r_attempts r ! a)) \<Longrightarrow> a < length (r_attempts r) \<Longrightarrow> r_graceful r = Some a" for a
    using attempt_of_inv [OF inv] by (simp add: attempt_ok_def)
  then have settled: "settled_except (r_attempts r) (r_graceful r)"
    using inv by (auto simp: settled_except_def run_inv_def attempts_inv_def)
  have r1: "run_inv r1"
    by (rule run_inv_flags [OF inv])
      (use settled not_forced [OF inv False] in \<open>simp_all add: r1_def intend_stop_def force_inv_def state_inv_def\<close>)
  show ?thesis
  proof (cases "r_graceful r")
    case None
    with r1 False show ?thesis by (simp add: start_force_def r1_def)
  next
    case (Some a)
    then have a: "a < length (r_attempts r1)" using inv by (simp add: run_inv_def attempts_inv_def r1_def intend_stop_def)
    have "run_inv (upd_attempt a cancel_context r1)"
      by (rule run_inv_upd_attempt [OF r1 a]) (use attempt_of_inv [OF r1 a] in \<open>auto simp: attempt_ok_def\<close>)
    with Some False show ?thesis by (simp add: start_force_def r1_def)
  qed
qed (use inv in \<open>simp add: start_force_def\<close>)

lemma start_force_started [simp]: "r_force_started (start_force r)"
  by (auto simp: start_force_def split: option.split)

lemma run_inv_new_attempt:
  assumes inv: "run_inv r" and none: "r_graceful r = None" and free: "\<not> r_force_started r"
  shows "run_inv (r\<lparr>r_graceful := Some (length (r_attempts r)), r_attempts := r_attempts r @ [new_attempt]\<rparr>)"
    (is "run_inv ?r")
proof -
  have old: "attempt_ok ?r a (r_attempts r ! a)" if "a < length (r_attempts r)" for a
    using attempt_of_inv [OF inv that] none by (simp add: attempt_ok_def)
  have new: "attempt_ok ?r (length (r_attempts r)) new_attempt"
    by (simp add: attempt_ok_def new_attempt_def)
  have "attempts_inv ?r"
    using old new by (simp add: attempts_inv_def nth_append less_Suc_eq)
  moreover have "caller_ok r c \<Longrightarrow> caller_ok ?r c" for c
    by (simp add: caller_ok_def split: caller_pc.splits option.splits)
  then have "callers_inv ?r" using inv by (simp add: run_inv_def callers_inv_def)
  moreover have "force_inv ?r" "state_inv ?r"
    using inv not_forced [OF inv free] free by (simp_all add: run_inv_def force_inv_def state_inv_def)
  ultimately show ?thesis by (simp add: run_inv_def)
qed

lemma run_inv_stop: "run_inv r \<Longrightarrow> run_inv (stopWithProgress force r)"
proof -
  assume inv: "run_inv r"
  have waiting: "run_inv r' \<Longrightarrow> r_force_started r' \<Longrightarrow> run_inv (add_caller CWaitForce p r')" for p r'
    by (rule run_inv_add_caller) (simp_all add: caller_ok_def)
  show ?thesis
  proof (cases "force \<or> r_force_started r")
    case True
    then show ?thesis
      using waiting inv run_inv_start_force [OF inv] start_force_started by (auto simp: stopWithProgress_def)
  next
    case False
    show ?thesis
    proof (cases "r_graceful r")
      case None
      with False run_inv_new_attempt [OF inv] show ?thesis
        by (auto simp: stopWithProgress_def Let_def caller_ok_def intro!: run_inv_add_caller)
    next
      case (Some a)
      with inv have "a < length (r_attempts r)" by (simp add: run_inv_def attempts_inv_def)
      with False Some inv show ?thesis
        by (auto simp: stopWithProgress_def caller_ok_def intro!: run_inv_add_caller)
    qed
  qed
qed

lemma upd_attempt_twice [simp]:
  "a < length (r_attempts r) \<Longrightarrow> upd_attempt a f (upd_attempt a g r) = upd_attempt a (\<lambda>t. f (g t)) r"
  by (simp add: upd_attempt_def)

lemma run_inv_settle:
  assumes inv: "run_inv r" and pc: "pc_of r a = GReturned err"
  shows "run_inv (settle_request a err r)"
proof -
  have a: "a < length (r_attempts r)" "at_pc (r_attempts r ! a) = GReturned err"
    using pc_of_length [of r a] pc by auto
  have own: "attempt_ok r a (r_attempts r ! a)"
    by (rule attempt_of_inv [OF inv a(1)])
  then have g: "r_graceful r = Some a" using a(2) by (simp add: attempt_ok_def)
  consider (forced) "r_force_started r" | (failed) e where "\<not> r_force_started r" "err = Some e"
    | (accepted) "\<not> r_force_started r" "err = None"
    by (cases err) auto
  then show ?thesis
  proof cases
    case forced
    have "run_inv (upd_attempt a (\<lambda>t. t\<lparr>at_accepted := (err = None), at_request := True, at_pc := GForced\<rparr>) r)"
      by (rule run_inv_upd_attempt [OF inv a(1)]) (use own g a(2) forced in \<open>auto simp: attempt_ok_def\<close>)
    with forced a(1) show ?thesis by (simp add: settle_request_def)
  next
    case failed
    let ?f = "\<lambda>t. t\<lparr>at_accepted := False, at_request := True,
      at_err := Some (if at_context t = Some DeadlineExceeded then ErrTimeout else e),
      at_done := True, at_pc := GFinished\<rparr>"
    have step: "settle_request a err r = (upd_attempt a ?f r)\<lparr>r_graceful := None\<rparr>"
      using failed g a(1) by (simp add: settle_request_def upd_attempt_def)
    have others: "attempt_ok ((upd_attempt a ?f r)\<lparr>r_graceful := None\<rparr>) b (r_attempts r ! b)"
      if "b < length (r_attempts r)" "b \<noteq> a" for b
      using attempt_of_inv [OF inv that(1)] g that(2) by (auto simp: attempt_ok_def)
    have mine: "attempt_ok ((upd_attempt a ?f r)\<lparr>r_graceful := None\<rparr>) a (?f (r_attempts r ! a))"
      by (simp add: attempt_ok_def)
    have "attempts_inv ((upd_attempt a ?f r)\<lparr>r_graceful := None\<rparr>)"
      using others mine by (simp add: attempts_inv_def)
    moreover have "caller_ok ((upd_attempt a ?f r)\<lparr>r_graceful := None\<rparr>) c = caller_ok r c" for c
      by (rule caller_ok_cong) simp_all
    ultimately show ?thesis
      unfolding step using inv not_forced [OF inv failed(1)] failed(1)
      by (simp add: run_inv_def callers_inv_def force_inv_def state_inv_def)
  next
    case accepted
    let ?f = "\<lambda>t. t\<lparr>at_accepted := True, at_request := True, at_pc := GWaiting\<rparr>"
    have step: "settle_request a err r = upd_attempt a ?f (intend_stop r)"
      using accepted a(1) by (simp add: settle_request_def intend_stop_def upd_attempt_def)
    have inv1: "run_inv (intend_stop r)"
      by (rule run_inv_flags [OF inv])
        (use not_forced [OF inv accepted(1)] accepted(1) in \<open>simp_all add: intend_stop_def force_inv_def state_inv_def\<close>)
    have a1: "a < length (r_attempts (intend_stop r))" using a(1) by (simp add: intend_stop_def)
    have "run_inv (upd_attempt a ?f (intend_stop r))"
      by (rule run_inv_upd_attempt [OF inv1 a1])
        (use own g a(2) in \<open>auto simp: attempt_ok_def intend_stop_def\<close>)
    with step show ?thesis by simp
  qed
qed

lemma run_inv_goto:
  assumes "run_inv r" and "a < length (r_attempts r)" and "\<not> in_flight (at_pc (r_attempts r ! a))"
    and "\<not> in_flight pc" and "pc \<noteq> GFinished" and "at_pc (r_attempts r ! a) \<noteq> GFinished"
    and "pc = GPublish None \<Longrightarrow> r_terminal r" and "pc = GWaiting \<Longrightarrow> r_stopping r"
    and "pc \<in> {GForced, GExpired} \<Longrightarrow> r_force_started r"
  shows "run_inv (goto a pc r)"
  unfolding goto_def
  by (rule run_inv_upd_attempt [OF assms(1,2)])
    (use assms attempt_of_inv [OF assms(1,2)] in \<open>auto simp: attempt_ok_def\<close>)

lemma run_inv_publish:
  assumes "run_inv r" and "a < length (r_attempts r)" and "\<not> in_flight (at_pc (r_attempts r ! a))"
    and "err = None \<Longrightarrow> r_terminal r"
  shows "run_inv (publish a err r)"
  unfolding publish_def
  by (rule run_inv_upd_attempt [OF assms(1,2)])
    (use assms attempt_of_inv [OF assms(1,2)] in \<open>auto simp: attempt_ok_def\<close>)

lemma run_inv_act_graceful:
  assumes inv: "run_inv r" and act: "act_graceful ev r = Some r'"
  shows "run_inv r'"
proof (cases ev)
  case (Deadline a)
  then have a: "a < length (r_attempts r)" and r': "r' = upd_attempt a (\<lambda>t. t\<lparr>at_context := Some DeadlineExceeded\<rparr>) r"
    using act by (auto simp: act_graceful_def)
  show ?thesis
    unfolding r' by (rule run_inv_upd_attempt [OF inv a])
      (use attempt_of_inv [OF inv a] inv a in \<open>auto simp: attempt_ok_def\<close>)
next
  case (RequestReturns a err)
  then have pc: "pc_of r a = GRequesting" and r': "r' = upd_attempt a (\<lambda>t. t\<lparr>at_pc := GReturned err\<rparr>) r"
    using act by (auto simp: act_graceful_def goto_def)
  then have a: "a < length (r_attempts r)" "at_pc (r_attempts r ! a) = GRequesting"
    using pc_of_length [of r a] by auto
  show ?thesis
    unfolding r' by (rule run_inv_upd_attempt [OF inv a(1)])
      (use attempt_of_inv [OF inv a(1)] a(2) in \<open>auto simp: attempt_ok_def\<close>)
next
  case (SettleRequest a)
  then show ?thesis
    using act run_inv_settle [OF inv] by (auto simp: act_graceful_def split: graceful_pc.splits)
next
  case (ForcedDone a)
  then show ?thesis
    using act pc_of_length [of r a] force_done_terminal [OF inv] run_inv_publish [OF inv, of a]
    by (auto simp: act_graceful_def)
next
  case (WaitExit a)
  then show ?thesis
    using act pc_of_length [of r a] run_inv_goto [OF inv, of a "GPublish None"]
    by (auto simp: act_graceful_def)
next
  case (WaitContext a)
  then show ?thesis
    using act pc_of_length [of r a] run_inv_goto [OF inv, of a GExpired]
      run_inv_goto [OF inv, of a "GPublish (Some ErrTimeout)"]
    by (auto simp: act_graceful_def split: if_splits)
next
  case (WaitForced a)
  then show ?thesis
    using act pc_of_length [of r a] force_done_terminal [OF inv] run_inv_goto [OF inv, of a "GPublish (r_force_err r)"]
    by (auto simp: act_graceful_def)
next
  case (ExpiredForced a)
  then show ?thesis
    using act pc_of_length [of r a] force_done_terminal [OF inv] run_inv_goto [OF inv, of a "GPublish (r_force_err r)"]
    by (auto simp: act_graceful_def)
next
  case (Publish a)
  then obtain err where pc: "pc_of r a = GPublish err" and r': "r' = publish a err r"
    using act by (auto simp: act_graceful_def split: graceful_pc.splits)
  then have a: "a < length (r_attempts r)" "at_pc (r_attempts r ! a) = GPublish err"
    using pc_of_length [of r a] by auto
  show ?thesis
    unfolding r' using attempt_of_inv [OF inv a(1)] a
    by (intro run_inv_publish [OF inv]) (auto simp: attempt_ok_def)
qed (use act in \<open>simp_all add: act_graceful_def\<close>)

lemma run_inv_act_force:
  assumes inv: "run_inv r" and act: "act_force ev r = Some r'"
  shows "run_inv r'"
proof (cases ev)
  case ForceBegins
  then obtain req where req: "r_force r = FWaitRequest req"
    "case req of None \<Rightarrow> True | Some a \<Rightarrow> attempt_flag at_request r a"
    and r': "r' = r\<lparr>r_force := FStopping, r_force_calls := Suc (r_force_calls r)\<rparr>"
    using act by (auto simp: act_force_def split: force_pc.splits)
  have waiting: "settled_except (r_attempts r) req" using inv req(1) by (simp add: run_inv_def force_inv_def)
  have "settled_except (r_attempts r) None"
  proof (cases req)
    case (Some a)
    then have "a < length (r_attempts r)" "at_request (r_attempts r ! a)"
      using req(2) by (auto simp: attempt_flag_def attempt_at_def split: if_splits)
    with attempt_of_inv [OF inv this(1)] have "\<not> in_flight (at_pc (r_attempts r ! a))" by (simp add: attempt_ok_def)
    with waiting Some show ?thesis by (auto simp: settled_except_def)
  qed (use waiting in simp)
  with inv req(1) show ?thesis
    unfolding r' by (intro run_inv_flags [OF inv]) (simp_all add: run_inv_def force_inv_def state_inv_def)
next
  case (ForceReturns err)
  then have "r_force r = FStopping" "r' = r\<lparr>r_force := FWaitExit err\<rparr>" using act by (auto simp: act_force_def)
  with inv show ?thesis
    by (intro run_inv_flags [OF inv]) (simp_all add: run_inv_def force_inv_def state_inv_def)
next
  case ForceFinishes
  then obtain err where "r_force r = FWaitExit err" "r_terminal r"
    "r' = r\<lparr>r_force_err := err, r_force_done := True, r_force := FDone\<rparr>"
    using act by (auto simp: act_force_def split: force_pc.splits)
  with inv show ?thesis
    by (intro run_inv_flags [OF inv]) (simp_all add: run_inv_def force_inv_def state_inv_def)
qed (use act in \<open>simp_all add: act_force_def\<close>)

lemma run_inv_act_caller:
  assumes inv: "run_inv r" and act: "act_caller ev r = Some r'"
  shows "run_inv r'"
proof -
  have move: "run_inv (call_goto c pc p r)"
    if "c < length (r_callers r)" "caller_ok r \<lparr>c_pc = pc, c_progress = []\<rparr>" for c pc p
    unfolding call_goto_def
    by (rule run_inv_upd_caller [OF inv that(1)]) (use that(2) in \<open>simp add: caller_ok_def\<close>)
  have len: "caller_pc_of r c = Some pc \<Longrightarrow> c < length (r_callers r)" for c pc
    by (auto simp: caller_pc_of_def split: if_splits)
  have done_exit: "attempt_flag at_done r a \<Longrightarrow> at_err (r_attempts r ! a) = None \<Longrightarrow> r_terminal r" for a
    using attempt_of_inv [OF inv, of a]
    by (auto simp: attempt_flag_def attempt_at_def attempt_ok_def split: if_splits)
  have ex: "attempt_flag f r a \<Longrightarrow> a < length (r_attempts r)" for f a
    by (auto simp: attempt_flag_def attempt_at_def split: if_splits)
  have fin: "r_force_done r \<Longrightarrow> r_terminal r" "r_force_done r \<Longrightarrow> r_force_started r"
    using inv by (auto simp: run_inv_def force_inv_def)
  show ?thesis
  proof (cases ev)
    case (CallerRequest c)
    then show ?thesis using act ex
      by (auto simp: act_caller_def caller_ok_def dest: len intro!: move split: option.splits caller_pc.splits)
  next
    case (CallerDone c)
    then show ?thesis using act done_exit
      by (auto simp: act_caller_def caller_ok_def dest: len intro!: move split: option.splits caller_pc.splits)
  next
    case (CallerForce c)
    then show ?thesis using act fin
      by (auto simp: act_caller_def caller_ok_def dest: len intro!: move split: option.splits caller_pc.splits)
  next
    case (CallerResult c)
    then show ?thesis using act fin
      by (auto simp: act_caller_def caller_ok_def dest: len intro!: move split: option.splits caller_pc.splits)
  next
    case (CallerContext c)
    then show ?thesis using act
      by (auto simp: act_caller_def caller_ok_def dest: len intro!: move split: option.splits caller_pc.splits)
  qed (use act in \<open>simp_all add: act_caller_def\<close>)
qed

lemma run_inv_exit:
  assumes inv: "run_inv r"
  shows "run_inv (r\<lparr>r_terminal := True\<rparr>)"
proof (rule run_inv_flags [OF inv])
  show "force_inv (r\<lparr>r_terminal := True\<rparr>)" using inv by (simp add: run_inv_def force_inv_def)
  show "state_inv (r\<lparr>r_terminal := True\<rparr>)" using inv by (simp add: run_inv_def state_inv_def)
qed simp_all

lemma run_inv_observe:
  assumes inv: "run_inv r" and go: "\<not> r_stopping r"
  shows "run_inv (r\<lparr>r_state := s\<rparr>)"
proof (rule run_inv_flags [OF inv])
  show "force_inv (r\<lparr>r_state := s\<rparr>)" using inv by (simp add: run_inv_def force_inv_def)
  show "state_inv (r\<lparr>r_state := s\<rparr>)" using go by (simp add: state_inv_def)
qed simp_all

lemma act_cases:
  assumes "act ev r = Some r'"
  obtains "r' = r\<lparr>r_terminal := True\<rparr>" | force where "r' = stopWithProgress force r"
  | s where "r' = (if r_stopping r then r else r\<lparr>r_state := s\<rparr>)"
  | "act_graceful ev r = Some r'" | "act_force ev r = Some r'" | "act_caller ev r = Some r'"
proof (cases "\<exists>f s. ev = BackendExit \<or> ev = Stop f \<or> ev = Observe s")
  case True
  then show ?thesis using assms that(1-3) by (auto simp: act_def)
next
  case False
  then have "act ev r = (case act_graceful ev r of Some r' \<Rightarrow> Some r'
      | None \<Rightarrow> (case act_force ev r of Some r' \<Rightarrow> Some r' | None \<Rightarrow> act_caller ev r))"
    unfolding act_def by (cases ev) simp_all
  with assms that(4-6) show ?thesis by (simp split: option.splits)
qed

lemma run_inv_act:
  assumes "run_inv r" and "act ev r = Some r'"
  shows "run_inv r'"
  using assms(2)
proof (cases rule: act_cases)
  case (3 s)
  with assms(1) run_inv_observe show ?thesis by simp
qed (use assms(1) run_inv_exit run_inv_stop run_inv_act_graceful run_inv_act_force run_inv_act_caller in blast)+

lemma reachable_inv: "reachable r \<Longrightarrow> run_inv r"
proof (induction rule: reachable.induct)
  case (start s)
  then show ?case
    by (simp add: run_inv_def attempts_inv_def force_inv_def state_inv_def callers_inv_def newSupervisedRun_def)
next
  case (step r ev r')
  then show ?case using run_inv_act by blast
qed


section \<open>Draining: what remains to be done once the backend has exited\<close>

text \<open>The steps that need nothing from outside: not an exit, a new caller, an observation, a deadline or
  a caller's own context.\<close>

definition internal :: "event \<Rightarrow> bool" where
  "internal ev =
     (case ev of BackendExit \<Rightarrow> False | Stop _ \<Rightarrow> False | Observe _ \<Rightarrow> False | Deadline _ \<Rightarrow> False
      | CallerContext _ \<Rightarrow> False | _ \<Rightarrow> True)"

fun graceful_work :: "graceful_pc \<Rightarrow> nat" where
  "graceful_work GRequesting = 5"
| "graceful_work (GReturned _) = 4"
| "graceful_work GForced = 1"
| "graceful_work GWaiting = 3"
| "graceful_work GExpired = 2"
| "graceful_work (GPublish _) = 1"
| "graceful_work GFinished = 0"

fun force_work :: "force_pc \<Rightarrow> nat" where
  "force_work (FWaitRequest _) = 3"
| "force_work FStopping = 2"
| "force_work (FWaitExit _) = 1"
| "force_work _ = 0"

fun caller_work :: "caller_pc \<Rightarrow> nat" where
  "caller_work (CWaitRequest _) = 3"
| "caller_work (CWaitDone _) = 2"
| "caller_work CWaitForce = 1"
| "caller_work (CReturned _) = 0"

definition work :: "run \<Rightarrow> nat" where
  "work r = sum_list (List.map (\<lambda>t. graceful_work (at_pc t)) (r_attempts r)) + force_work (r_force r)
     + sum_list (List.map (\<lambda>k. caller_work (c_pc k)) (r_callers r))"

lemma sum_list_replace_less:
  fixes f :: "'a \<Rightarrow> nat"
  assumes "i < length xs" and "f y < f (xs ! i)"
  shows "sum_list (List.map f (xs[i := y])) < sum_list (List.map f xs)"
proof -
  have "xs = take i xs @ xs ! i # drop (Suc i) xs" using assms(1) by (rule id_take_nth_drop)
  then have "sum_list (List.map f xs) = sum_list (List.map f (take i xs @ xs ! i # drop (Suc i) xs))" by simp
  moreover have "xs[i := y] = take i xs @ y # drop (Suc i) xs" by (rule upd_conv_take_nth_drop [OF assms(1)])
  ultimately show ?thesis using assms(2) by simp
qed

lemma work_attempt:
  assumes "a < length (r_attempts r)"
    and "graceful_work (at_pc (f (r_attempts r ! a))) < graceful_work (at_pc (r_attempts r ! a))"
  shows "work (upd_attempt a f r) < work r"
  using sum_list_replace_less [of a "r_attempts r" "\<lambda>t. graceful_work (at_pc t)"] assms
  by (simp add: work_def upd_attempt_def)

lemma work_caller:
  assumes "c < length (r_callers r)" and "caller_work pc < caller_work (c_pc (r_callers r ! c))"
  shows "work (call_goto c pc p r) < work r"
  using sum_list_replace_less [of c "r_callers r" "\<lambda>k. caller_work (c_pc k)"] assms
  by (simp add: work_def call_goto_def upd_caller_def)

lemma work_pc:
  assumes "pc_of r a = pc" and "pc \<noteq> GFinished" and "graceful_work (at_pc (f (r_attempts r ! a))) < graceful_work pc"
  shows "work (upd_attempt a f r) < work r"
  using pc_of_length [of r a] assms by (intro work_attempt) auto

lemma caller_pc_of_Some: "caller_pc_of r c = Some pc \<Longrightarrow> c < length (r_callers r) \<and> c_pc (r_callers r ! c) = pc"
  by (auto simp: caller_pc_of_def split: if_splits)

lemma work_settle: "pc_of r a = GReturned err \<Longrightarrow> work (settle_request a err r) < work r"
proof -
  assume pc: "pc_of r a = GReturned err"
  have a: "a < length (r_attempts r)" "at_pc (r_attempts r ! a) = GReturned err"
    using pc_of_length [of r a] pc by auto
  have "work (r\<lparr>r_graceful := g\<rparr>) = work r" "work (intend_stop r) = work r" for g and r :: run
    by (simp_all add: work_def intend_stop_def)
  moreover have "(upd_attempt a f r)\<lparr>r_graceful := g\<rparr> = upd_attempt a f (r\<lparr>r_graceful := g\<rparr>)"
    "intend_stop (upd_attempt a f r) = upd_attempt a f (intend_stop r)" for f g
    by (simp_all add: upd_attempt_def intend_stop_def)
  moreover have "r_attempts (intend_stop r) = r_attempts r" by (simp add: intend_stop_def)
  ultimately show ?thesis
    using a work_attempt [of a r] work_attempt [of a "intend_stop r"] work_attempt [of a "r\<lparr>r_graceful := None\<rparr>"]
    by (cases err) (simp_all add: settle_request_def Let_def)
qed

lemma work_decreases:
  assumes "act ev r = Some r'" and "internal ev"
  shows "work r' < work r"
proof -
  consider "act_graceful ev r = Some r'" | "act_force ev r = Some r'" | "act_caller ev r = Some r'"
    using assms by (cases ev) (auto simp: act_def internal_def split: option.splits)
  then show ?thesis
  proof cases
    case 1
    with assms(2) show ?thesis
      by (cases ev)
        (auto simp: act_graceful_def internal_def goto_def publish_def
          intro: work_pc work_settle split: graceful_pc.splits)
  next
    case 2
    with assms(2) show ?thesis
      by (cases ev) (auto simp: act_force_def internal_def work_def split: force_pc.splits)
  next
    case 3
    with assms(2) show ?thesis
      by (cases ev)
        (auto simp: act_caller_def internal_def intro!: work_caller dest!: caller_pc_of_Some
          split: option.splits caller_pc.splits)
  qed
qed

lemma internal_run_bounded:
  "acts evs r = Some r' \<Longrightarrow> list_all internal evs \<Longrightarrow> length evs + work r' \<le> work r"
  by (induction evs arbitrary: r) (auto split: option.splits dest: work_decreases, fastforce dest: work_decreases)

text \<open>An exited backend with a caller that waits: some internal step can be taken.\<close>

definition enabled :: "run \<Rightarrow> bool" where
  "enabled r \<longleftrightarrow> (\<exists>ev r'. internal ev \<and> act ev r = Some r')"

lemma act_parts_disjoint:
  "act_force ev r = Some r' \<Longrightarrow> act_graceful ev r = None \<and> internal ev"
  "act_caller ev r = Some r' \<Longrightarrow> act_graceful ev r = None \<and> act_force ev r = None"
  by (cases ev; simp add: act_force_def act_graceful_def internal_def)
    (cases ev; simp add: act_caller_def act_force_def act_graceful_def)

lemma act_internal:
  "internal ev \<Longrightarrow> act ev r =
     (case act_graceful ev r of Some r' \<Rightarrow> Some r'
      | None \<Rightarrow> (case act_force ev r of Some r' \<Rightarrow> Some r' | None \<Rightarrow> act_caller ev r))"
  by (cases ev; hypsubst; simp add: act_def internal_def)

lemma enabledI:
  "act_graceful ev r = Some r' \<Longrightarrow> internal ev \<Longrightarrow> enabled r"
  "act_force ev r = Some r' \<Longrightarrow> enabled r"
  "act_caller ev r = Some r' \<Longrightarrow> internal ev \<Longrightarrow> enabled r"
proof -
  show "act_graceful ev r = Some r' \<Longrightarrow> internal ev \<Longrightarrow> enabled r"
    unfolding enabled_def by (intro exI [of _ ev] exI [of _ r']) (simp add: act_internal)
  show "act_force ev r = Some r' \<Longrightarrow> enabled r"
    unfolding enabled_def using act_parts_disjoint(1) [of ev r r']
    by (intro exI [of _ ev] exI [of _ r']) (simp add: act_internal)
  show "act_caller ev r = Some r' \<Longrightarrow> internal ev \<Longrightarrow> enabled r"
    unfolding enabled_def using act_parts_disjoint(2) [of ev r r']
    by (intro exI [of _ ev] exI [of _ r']) (simp add: act_internal)
qed

lemma graceful_enabled:
  assumes "\<not> enabled r" and "r_terminal r"
  shows "pc_of r a \<in> {GForced, GExpired, GFinished}"
proof (cases "pc_of r a")
  case GRequesting
  then have "act_graceful (RequestReturns a None) r = Some (goto a (GReturned None) r)"
    by (simp add: act_graceful_def)
  from enabledI(1) [OF this] assms(1) show ?thesis by (simp add: internal_def)
next
  case (GReturned err)
  then have "act_graceful (SettleRequest a) r = Some (settle_request a err r)" by (simp add: act_graceful_def)
  from enabledI(1) [OF this] assms(1) show ?thesis by (simp add: internal_def)
next
  case GWaiting
  then have "act_graceful (WaitExit a) r = Some (goto a (GPublish None) r)"
    using assms(2) by (simp add: act_graceful_def)
  from enabledI(1) [OF this] assms(1) show ?thesis by (simp add: internal_def)
next
  case (GPublish err)
  then have "act_graceful (Publish a) r = Some (publish a err r)" by (simp add: act_graceful_def)
  from enabledI(1) [OF this] assms(1) show ?thesis by (simp add: internal_def)
qed simp_all

lemma force_enabled:
  assumes "\<not> enabled r" and "r_terminal r" and inv: "run_inv r"
    and requested: "\<And>a. a < length (r_attempts r) \<Longrightarrow> attempt_flag at_request r a"
  shows "r_force r = FNone \<or> r_force r = FDone"
proof (cases "r_force r")
  case (FWaitRequest req)
  then have "settled_except (r_attempts r) req" using inv by (simp add: run_inv_def force_inv_def)
  then have bound: "\<And>a. req = Some a \<Longrightarrow> a < length (r_attempts r)" unfolding settled_except_def by blast
  have "case req of None \<Rightarrow> True | Some a \<Rightarrow> attempt_flag at_request r a"
  proof (cases req)
    case (Some a)
    with requested [OF bound [OF Some]] show ?thesis by simp
  qed simp
  with FWaitRequest obtain r' where "act_force ForceBegins r = Some r'" by (simp add: act_force_def)
  from enabledI(2) [OF this] assms(1) show ?thesis by simp
next
  case FStopping
  then obtain r' where "act_force (ForceReturns None) r = Some r'" by (simp add: act_force_def)
  from enabledI(2) [OF this] assms(1) show ?thesis by simp
next
  case (FWaitExit err)
  with assms(2) obtain r' where "act_force ForceFinishes r = Some r'" by (simp add: act_force_def)
  from enabledI(2) [OF this] assms(1) show ?thesis by simp
qed simp_all

text \<open>When no internal step is left after the exit, every caller has returned.\<close>

lemma stuck_callers_returned:
  assumes inv: "run_inv r" and exited: "r_terminal r" and stuck: "\<not> enabled r" and c: "c < length (r_callers r)"
  shows "\<exists>err. c_pc (r_callers r ! c) = CReturned err"
proof -
  have pcs: "pc_of r a \<in> {GForced, GExpired, GFinished}" for a
    by (rule graceful_enabled [OF stuck exited])
  have requested: "attempt_flag at_request r a" if "a < length (r_attempts r)" for a
    using attempt_of_inv [OF inv that] pcs [of a] that
    by (auto simp: attempt_flag_def attempt_at_def attempt_ok_def pc_of_def)
  have force: "r_force r = FNone \<or> r_force r = FDone"
    by (rule force_enabled [OF stuck exited inv requested])
  have flags: "r_force_done r = (r_force r = FDone)" "r_force_started r = (r_force r \<noteq> FNone)"
    using inv by (simp_all add: run_inv_def force_inv_def)
  have ok: "caller_ok r (r_callers r ! c)" using inv c by (simp add: run_inv_def callers_inv_def)
  have at: "caller_pc_of r c = Some (c_pc (r_callers r ! c))" using c by (simp add: caller_pc_of_def)
  show ?thesis
  proof (cases "c_pc (r_callers r ! c)")
    case (CWaitRequest a)
    with ok requested [of a] at obtain r' where "act_caller (CallerRequest c) r = Some r'"
      by (simp add: act_caller_def caller_ok_def)
    from enabledI(3) [OF this] stuck show ?thesis by (simp add: internal_def)
  next
    case (CWaitDone a)
    then have a: "a < length (r_attempts r)" using ok by (simp add: caller_ok_def)
    show ?thesis
    proof (cases "r_force_done r")
      case True
      with CWaitDone at obtain r' where "act_caller (CallerForce c) r = Some r'" by (simp add: act_caller_def)
      from enabledI(3) [OF this] stuck show ?thesis by (simp add: internal_def)
    next
      case False
      then have "\<not> r_force_started r" using force flags by simp
      then have "at_done (r_attempts r ! a)"
        using attempt_of_inv [OF inv a] pcs [of a] a by (auto simp: attempt_ok_def pc_of_def)
      with CWaitDone at a obtain r' where "act_caller (CallerDone c) r = Some r'"
        by (simp add: act_caller_def attempt_flag_def attempt_at_def)
      from enabledI(3) [OF this] stuck show ?thesis by (simp add: internal_def)
    qed
  next
    case CWaitForce
    with ok force flags at obtain r' where "act_caller (CallerResult c) r = Some r'"
      by (auto simp: act_caller_def caller_ok_def)
    from enabledI(3) [OF this] stuck show ?thesis by (simp add: internal_def)
  qed blast
qed


section \<open>Properties of a supervised run\<close>

text \<open>C14. However requests, force stops, exits and deadlines interleave, the backend calls exclude each
  other: at most one \<open>RequestShutdown\<close> is in flight, at most one was ever accepted and none is sent
  after it, \<open>ForceStop\<close> is called at most once, and never while a shutdown request is in flight.\<close>

theorem backend_calls_exclusive:
  assumes "reachable r"
  shows "(in_flight (pc_of r a) \<longrightarrow> in_flight (pc_of r b) \<longrightarrow> a = b)
    \<and> (attempt_flag at_accepted r a \<longrightarrow> attempt_flag at_accepted r b \<longrightarrow> a = b)
    \<and> \<not> (attempt_flag at_accepted r a \<and> in_flight (pc_of r b))
    \<and> r_force_calls r \<le> 1 \<and> \<not> (r_force r = FStopping \<and> in_flight (pc_of r a))"
proof -
  have inv: "run_inv r" using assms by (rule reachable_inv)
  have flight: "in_flight (pc_of r c) \<Longrightarrow> r_graceful r = Some c \<and> c < length (r_attempts r)
      \<and> \<not> at_accepted (r_attempts r ! c)" for c
    using attempt_of_inv [OF inv, of c] by (auto simp: pc_of_def attempt_ok_def split: if_splits)
  have accepted: "attempt_flag at_accepted r c \<Longrightarrow> r_graceful r = Some c \<and> at_accepted (r_attempts r ! c)" for c
    using attempt_of_inv [OF inv, of c] by (auto simp: attempt_flag_def attempt_at_def attempt_ok_def split: if_splits)
  have calls: "r_force_calls r \<le> 1"
    using inv by (simp add: run_inv_def force_inv_def split: if_splits)
  have force: "\<not> in_flight (pc_of r a)" if "r_force r = FStopping"
  proof -
    have "settled_except (r_attempts r) None" using inv that by (simp add: run_inv_def force_inv_def)
    then show ?thesis using flight [of a] unfolding settled_except_def pc_of_def by auto
  qed
  have one: "in_flight (pc_of r a) \<Longrightarrow> in_flight (pc_of r b) \<Longrightarrow> a = b"
    "attempt_flag at_accepted r a \<Longrightarrow> attempt_flag at_accepted r b \<Longrightarrow> a = b"
    "attempt_flag at_accepted r a \<Longrightarrow> in_flight (pc_of r b) \<Longrightarrow> False"
    using flight [of a] flight [of b] accepted [of a] accepted [of b] by auto
  show ?thesis using one calls force by blast
qed

lemma run_example:
  "acts evs (newSupervisedRun s) = Some r \<Longrightarrow> reachable r"
  by (rule acts_reachable [OF reachable.start])

theorem backend_calls_exclusive_witness:
  "\<exists>r. acts [Stop False, Stop True, RequestReturns 0 None, SettleRequest 0, ForceBegins] (newSupervisedRun ''running'') = Some r
     \<and> r_force r = FStopping \<and> \<not> in_flight (pc_of r 0)"
proof -
  let ?run = "acts [Stop False, Stop True, RequestReturns 0 None, SettleRequest 0, ForceBegins] (newSupervisedRun ''running'')"
  have some: "?run \<noteq> None" "r_force (the ?run) = FStopping" by code_simp+
  then obtain r where r: "?run = Some r" by blast
  from backend_calls_exclusive [OF run_example [OF r], of 0 0] some r show ?thesis by auto
qed

text \<open>C11. A stop that reports success means that the backend has exited: no caller, graceful or forced,
  gets a nil error before the child's exit was received.\<close>

theorem stop_success_means_exit:
  assumes "reachable r" and "k \<in> set (r_callers r)" and "c_pc k = CReturned None"
  shows "r_terminal r"
proof -
  have "caller_ok r k" using reachable_inv [OF assms(1)] assms(2) by (simp add: run_inv_def callers_inv_def)
  with assms(3) show ?thesis by (simp add: caller_ok_def)
qed

theorem stop_success_means_exit_witness:
  "\<exists>r. acts [Stop False, RequestReturns 0 None, SettleRequest 0, BackendExit, WaitExit 0, Publish 0, CallerRequest 0, CallerDone 0]
      (newSupervisedRun ''running'') = Some r \<and> r_terminal r"
proof -
  let ?run = "acts [Stop False, RequestReturns 0 None, SettleRequest 0, BackendExit, WaitExit 0, Publish 0, CallerRequest 0, CallerDone 0]
      (newSupervisedRun ''running'')"
  have some: "?run \<noteq> None" "c_pc (hd (r_callers (the ?run))) = CReturned None" "r_callers (the ?run) \<noteq> []"
    by code_simp+
  then obtain r where r: "?run = Some r" by blast
  then have "hd (r_callers r) \<in> set (r_callers r)" "c_pc (hd (r_callers r)) = CReturned None" using some by auto
  from stop_success_means_exit [OF run_example [OF r] this] r show ?thesis by blast
qed

lemma act_stopping: "act ev r = Some r' \<Longrightarrow> r_stopping r \<Longrightarrow> r_stopping r'"
proof (erule act_cases)
  fix force assume "r' = stopWithProgress force r" "r_stopping r"
  then show "r_stopping r'"
    by (simp add: stopWithProgress_def start_force_def add_caller_def intend_stop_def Let_def split: option.split)
next
  assume "act_graceful ev r = Some r'" "r_stopping r"
  then show "r_stopping r'"
    by (cases ev) (auto simp: act_graceful_def goto_def publish_def settle_request_def intend_stop_def Let_def
        split: graceful_pc.splits option.splits)
next
  assume "act_force ev r = Some r'" "r_stopping r"
  then show "r_stopping r'" by (cases ev) (auto simp: act_force_def split: force_pc.splits)
next
  assume "act_caller ev r = Some r'" "r_stopping r"
  then show "r_stopping r'"
    by (cases ev) (auto simp: act_caller_def call_goto_def split: option.splits caller_pc.splits)
qed simp_all

lemma acts_stopping: "acts evs r = Some r' \<Longrightarrow> r_stopping r \<Longrightarrow> r_stopping r'"
  by (induction evs arbitrary: r) (auto split: option.splits dest: act_stopping)

text \<open>C15. Stopping is permanent: once a shutdown was accepted or a force stop begun, whatever happens
  later the run stays intended to stop and its reported state stays stopping, so that a late answer
  of the backend to a status call never shows it running again.\<close>

theorem stopping_is_permanent:
  assumes "reachable r" and "r_stopping r" and "acts evs r = Some r'"
  shows "r_stopping r' \<and> r_intentional r' \<and> r_state r' = RunStateStopping"
proof -
  have "r_stopping r'" by (rule acts_stopping [OF assms(3,2)])
  moreover have "run_inv r'" by (rule reachable_inv [OF acts_reachable [OF assms(1,3)]])
  ultimately show ?thesis by (simp add: run_inv_def state_inv_def)
qed

theorem stopping_is_permanent_witness:
  "\<exists>r'. acts [Observe ''running'', BackendExit] (stopWithProgress True (newSupervisedRun ''running'')) = Some r'
     \<and> r_state r' = RunStateStopping"
proof -
  let ?r = "stopWithProgress True (newSupervisedRun ''running'')"
  have r: "reachable ?r" by (rule reachable.step [OF reachable.start, where ev = "Stop True"]) (simp add: act_def)
  have stopping: "r_stopping ?r" by (simp add: stopWithProgress_def start_force_def newSupervisedRun_def add_caller_def intend_stop_def)
  obtain r' where "acts [Observe ''running'', BackendExit] ?r = Some r'" by (simp add: act_def)
  with stopping_is_permanent [OF r stopping this] show ?thesis by blast
qed

lemma act_terminal: "act ev r = Some r' \<Longrightarrow> r_terminal r \<Longrightarrow> r_terminal r'"
proof (erule act_cases)
  fix force assume "r' = stopWithProgress force r" "r_terminal r"
  then show "r_terminal r'"
    by (simp add: stopWithProgress_def start_force_def add_caller_def intend_stop_def Let_def split: option.split)
next
  assume "act_graceful ev r = Some r'" "r_terminal r"
  then show "r_terminal r'"
    by (cases ev) (auto simp: act_graceful_def goto_def publish_def settle_request_def intend_stop_def Let_def
        split: graceful_pc.splits option.splits)
next
  assume "act_force ev r = Some r'" "r_terminal r"
  then show "r_terminal r'" by (cases ev) (auto simp: act_force_def split: force_pc.splits)
next
  assume "act_caller ev r = Some r'" "r_terminal r"
  then show "r_terminal r'"
    by (cases ev) (auto simp: act_caller_def call_goto_def split: option.splits caller_pc.splits)
qed simp_all

lemma acts_terminal: "r_terminal r \<Longrightarrow> acts evs r = Some r' \<Longrightarrow> r_terminal r'"
  by (induction evs arbitrary: r) (auto split: option.splits dest: act_terminal)

text \<open>C16. No stop caller is left waiting once the backend has exited: whatever the scheduler does, the
  goroutines can take only finitely many further steps of their own, at most \<open>work r\<close>, and when none
  is left every caller has returned. The backend calls in flight are assumed to return.\<close>

theorem stop_callers_drain:
  assumes "reachable r" and "r_terminal r" and "acts evs r = Some r'" and "list_all internal evs"
  shows "length evs \<le> work r
    \<and> (enabled r' \<or> (\<forall>k \<in> set (r_callers r'). \<exists>err. c_pc k = CReturned err))"
proof -
  have "length evs + work r' \<le> work r" by (rule internal_run_bounded [OF assms(3,4)])
  moreover have inv: "run_inv r'" by (rule reachable_inv [OF acts_reachable [OF assms(1,3)]])
  moreover have "r_terminal r'"
    using assms(2,3) by (rule acts_terminal)
  ultimately show ?thesis
    using stuck_callers_returned [OF inv \<open>r_terminal r'\<close>] by (auto simp: in_set_conv_nth)
qed

theorem stop_callers_drain_witness:
  "length [ForceBegins, ForceReturns None, ForceFinishes, CallerResult 0]
     \<le> work ((stopWithProgress True (newSupervisedRun ''running''))\<lparr>r_terminal := True\<rparr>)"
proof -
  let ?base = "stopWithProgress True (newSupervisedRun ''running'')"
  let ?r = "?base\<lparr>r_terminal := True\<rparr>"
  let ?evs = "[ForceBegins, ForceReturns None, ForceFinishes, CallerResult 0]"
  have "act (Stop True) (newSupervisedRun ''running'') = Some ?base" by (simp add: act_def)
  from reachable.step [OF reachable.start this] have r0: "reachable ?base" .
  have "act BackendExit ?base = Some ?r" by (simp add: act_def)
  from reachable.step [OF r0 this] have r: "reachable ?r" .
  have "acts ?evs ?r \<noteq> None" by code_simp
  then obtain r' where r': "acts ?evs ?r = Some r'" by blast
  from stop_callers_drain [OF r _ r'] show ?thesis by (simp add: internal_def)
qed

end
