(* ===== verification/Metadata.thy ===== *)
theory Metadata
  imports Store Protocol
begin

text \<open>
  \<open>internal/supervisor/metadata.go\<close>: the two metadata files of a machine, \<open>runtime.json\<close> and
  \<open>last_exit.json\<close>, with their validation, the strict bounded read, the atomic write, and the
  cleanup of a runtime directory, which keeps the evidence of the last exit and the lifetime lock.
\<close>

record RuntimeMetadata =
  rt_version :: int
  rt_id :: string
  rt_name :: string
  rt_supervisor_pid :: int
  rt_started_at :: timestamp
  rt_boot_menu :: bool

record LastExitMetadata =
  le_version :: int
  le_id :: string
  le_timestamp :: timestamp
  le_exit_code :: int
  le_error :: string

definition metadataVersion :: int where "metadataVersion = 1"
definition maxMetadataSize :: nat where "maxMetadataSize = 65536"

datatype meta_invalid =
    MetaVersion | MetaID | MetaName | MetaPID | MetaTimeZero | MetaTimeZone | MetaExitCode
  | MetaErrorNotEmpty | MetaErrorMissing

datatype meta_error =
    MetaDirectory sys_error | MetaFile sys_error | MetaTooLarge | MetaJSON json_fail | MetaTrailing
  | MetaTrailingData json_fail | MetaInvalid meta_invalid | MetaSymlink | MetaDestination sys_error
  | MetaEncode | MetaWrite sys_error

section \<open>Validation\<close>

definition validateMetadataID :: "string \<Rightarrow> meta_invalid option" where
  "validateMetadataID i = guard (length i \<noteq> 32 \<or> trim_set is_lower_hex i \<noteq> '''') MetaID"

definition validateMetadataName :: "string \<Rightarrow> meta_invalid option" where
  "validateMetadataName name =
     (if name = '''' \<or> 63 < length name then Some MetaName
      else if name_bytes_ok 0 name then None else Some MetaName)"

definition validateUTCTimestamp :: "timestamp \<Rightarrow> meta_invalid option" where
  "validateUTCTimestamp t =
     (if ts_is_zero t then Some MetaTimeZero else if \<not> ts_utc t then Some MetaTimeZone else None)"

definition runtime_validate :: "RuntimeMetadata \<Rightarrow> meta_invalid option" where
  "runtime_validate m =
     first_error
       [guard (rt_version m \<noteq> metadataVersion) MetaVersion, validateMetadataID (rt_id m),
        validateMetadataName (rt_name m), guard (rt_supervisor_pid m \<le> 0) MetaPID,
        validateUTCTimestamp (rt_started_at m)]"

definition last_exit_validate :: "LastExitMetadata \<Rightarrow> meta_invalid option" where
  "last_exit_validate m =
     first_error
       [guard (le_version m \<noteq> metadataVersion) MetaVersion, validateMetadataID (le_id m),
        validateUTCTimestamp (le_timestamp m),
        guard (le_exit_code m < 0 \<or> 255 < le_exit_code m) MetaExitCode,
        guard (le_exit_code m = 0 \<and> le_error m \<noteq> '''') MetaErrorNotEmpty,
        guard (le_exit_code m \<noteq> 0 \<and> le_error m = '''') MetaErrorMissing]"

section \<open>Reading and writing\<close>

definition inspectRuntimeDirectory :: "host \<Rightarrow> string \<Rightarrow> sys_error option" where
  "inspectRuntimeDirectory h path =
     (case lstat h path of
        Inl e \<Rightarrow> Some e
      | Inr (Dir uid mode) \<Rightarrow>
          if uid \<noteq> h_uid h then Some (WrongOwner uid)
          else if mode \<noteq> mode_dir then Some (WrongMode mode)
          else None
      | Inr _ \<Rightarrow> Some NotRealDirectory)"

definition inspectOwnedMetadataFile :: "host \<Rightarrow> node \<Rightarrow> sys_error option" where
  "inspectOwnedMetadataFile h n =
     (case n of
        File _ uid mode _ \<Rightarrow>
          if uid \<noteq> h_uid h then Some (WrongOwner uid)
          else if mode \<noteq> mode_file then Some (WrongMode mode)
          else None
      | _ \<Rightarrow> Some NotRegular)"

definition open_metadata :: "host \<Rightarrow> string \<Rightarrow> sys_error + string" where
  "open_metadata h path =
     (if h_fault h SysOpen path then Inl (EFAULTED SysOpen)
      else case h_fs h path of
        None \<Rightarrow> Inl ENOENT
      | Some (Symlink _) \<Rightarrow> Inl ELOOP
      | Some n \<Rightarrow>
          if h_fault h SysFstat path then Inl (EFAULTED SysFstat)
          else case inspectOwnedMetadataFile h n of
            Some e \<Rightarrow> Inl e
          | None \<Rightarrow> Inr (node_data n))"

definition readMetadata :: "'a wire \<Rightarrow> host \<Rightarrow> string \<Rightarrow> meta_error + 'a" where
  "readMetadata W h path =
     (case inspectRuntimeDirectory h (parent_dir path) of
        Some e \<Rightarrow> Inl (MetaDirectory e)
      | None \<Rightarrow>
          (case open_metadata h path of
             Inl e \<Rightarrow> Inl (MetaFile e)
           | Inr data \<Rightarrow>
               if maxMetadataSize < length data then Inl MetaTooLarge
               else case w_first W data of
                 Inl e \<Rightarrow> Inl (MetaJSON e)
               | Inr (x, rest) \<Rightarrow>
                   (case w_next W rest of
                      Some JsonEOF \<Rightarrow> Inr x
                    | None \<Rightarrow> Inl MetaTrailing
                    | Some e \<Rightarrow> Inl (MetaTrailingData e))))"

definition read_validated ::
  "('a \<Rightarrow> meta_invalid option) \<Rightarrow> 'a wire \<Rightarrow> host \<Rightarrow> string \<Rightarrow> meta_error + 'a" where
  "read_validated V W h path =
     (case readMetadata W h path of
        Inl e \<Rightarrow> Inl e
      | Inr x \<Rightarrow> (case V x of Some e \<Rightarrow> Inl (MetaInvalid e) | None \<Rightarrow> Inr x))"

definition ReadRuntimeMetadata :: "RuntimeMetadata wire \<Rightarrow> host \<Rightarrow> string \<Rightarrow> meta_error + RuntimeMetadata" where
  "ReadRuntimeMetadata = read_validated runtime_validate"

definition ReadLastExit :: "LastExitMetadata wire \<Rightarrow> host \<Rightarrow> string \<Rightarrow> meta_error + LastExitMetadata" where
  "ReadLastExit = read_validated last_exit_validate"

definition not_exist :: "meta_error \<Rightarrow> bool" where
  "not_exist e \<longleftrightarrow> e = MetaDirectory ENOENT \<or> e = MetaFile ENOENT"

definition metadata_temp :: "host \<Rightarrow> string \<Rightarrow> string" where
  "metadata_temp h dir = join_path dir (''.metadata-'' @ itoa (h_inode h) @ ''.tmp'')"

definition inspect_destination :: "host \<Rightarrow> string \<Rightarrow> meta_error option" where
  "inspect_destination h path =
     (case lstat h path of
        Inr (Symlink _) \<Rightarrow> Some MetaSymlink
      | Inr n \<Rightarrow> map_option MetaDestination (inspectOwnedMetadataFile h n)
      | Inl e \<Rightarrow> guard (e \<noteq> ENOENT) (MetaDestination e))"

definition writeMetadata :: "'a wire \<Rightarrow> host \<Rightarrow> string \<Rightarrow> 'a \<Rightarrow> (meta_error, unit) action" where
  "writeMetadata W h path value =
     (let dir = parent_dir path; tmp = metadata_temp h dir in
      case inspectRuntimeDirectory h dir of
        Some e \<Rightarrow> (Inl (MetaDirectory e), h)
      | None \<Rightarrow>
          (case inspect_destination h path of
             Some e \<Rightarrow> (Inl e, h)
           | None \<Rightarrow>
               (case w_json W value of
                  None \<Rightarrow> (Inl MetaEncode, h)
                | Some json \<Rightarrow>
                    if maxMetadataSize < length (json @ [newline]) then (Inl MetaTooLarge, h)
                    else if h_fs h tmp \<noteq> None then (Inl (MetaWrite EEXIST), h)
                    else case run_ops path h (write_ops tmp path (json @ [newline])) of
                      (Some e, t) \<Rightarrow> (Inl (MetaWrite e), remove_file tmp (last t))
                    | (None, t) \<Rightarrow> (Inr (), remove_file tmp (last t)))))"

definition write_validated ::
  "('a \<Rightarrow> meta_invalid option) \<Rightarrow> 'a wire \<Rightarrow> host \<Rightarrow> string \<Rightarrow> 'a \<Rightarrow> (meta_error, unit) action" where
  "write_validated V W h path x =
     (case V x of Some e \<Rightarrow> (Inl (MetaInvalid e), h) | None \<Rightarrow> writeMetadata W h path x)"

definition WriteRuntimeMetadata ::
  "RuntimeMetadata wire \<Rightarrow> host \<Rightarrow> string \<Rightarrow> RuntimeMetadata \<Rightarrow> (meta_error, unit) action" where
  "WriteRuntimeMetadata = write_validated runtime_validate"

definition WriteLastExit ::
  "LastExitMetadata wire \<Rightarrow> host \<Rightarrow> string \<Rightarrow> LastExitMetadata \<Rightarrow> (meta_error, unit) action" where
  "WriteLastExit = write_validated last_exit_validate"

section \<open>Removing\<close>

text \<open>\<open>os.Remove\<close>; that a directory is not empty is a fault of the call.\<close>

definition remove_one :: "host \<Rightarrow> string \<Rightarrow> (sys_error, unit) action" where
  "remove_one h p =
     (if h_fault h SysRemove p then (Inl (EFAULTED SysRemove), h)
      else if h_fs h p = None then (Inl ENOENT, h)
      else (Inr (), remove_file p h))"

definition syncDirectory :: "host \<Rightarrow> string \<Rightarrow> sys_error option" where
  "syncDirectory h dir =
     first_error [guard (h_fault h SysOpenDir dir) (EFAULTED SysOpenDir),
                  guard (h_fault h SysSyncDir dir) (EFAULTED SysSyncDir),
                  guard (h_fault h SysClose dir) (EFAULTED SysClose)]"

definition ClearFailedLastExit :: "LastExitMetadata wire \<Rightarrow> host \<Rightarrow> string \<Rightarrow> (meta_error, unit) action" where
  "ClearFailedLastExit W h path =
     (case ReadLastExit W h path of
        Inl e \<Rightarrow> if not_exist e then (Inr (), h) else (Inl e, h)
      | Inr m \<Rightarrow>
          if le_exit_code m = 0 then (Inr (), h)
          else case inspectRuntimeDirectory h (parent_dir path) of
            Some e \<Rightarrow> (Inl (MetaDirectory e), h)
          | None \<Rightarrow>
              (case remove_one h path of
                 (Inl e, h1) \<Rightarrow>
                   if e \<noteq> ENOENT then (Inl (MetaFile e), h1)
                   else (case syncDirectory h1 (parent_dir path) of Some e \<Rightarrow> Inl (MetaWrite e) | None \<Rightarrow> Inr (), h1)
               | (Inr _, h1) \<Rightarrow>
                   (case syncDirectory h1 (parent_dir path) of Some e \<Rightarrow> Inl (MetaWrite e) | None \<Rightarrow> Inr (), h1)))"

datatype cleanup_error = CleanupDirectory sys_error | CleanupOutside string | CleanupRemove string sys_error | CleanupSync sys_error

definition ephemeral :: "Paths \<Rightarrow> string list" where
  "ephemeral p =
     [p_control_socket p, p_qmp p, p_qmp_command p, p_qga p, p_console p, p_monitor p, p_vnc_secret p,
      p_runtime_metadata p, p_serial_log_pipe p]"

fun cleanup_files :: "string \<Rightarrow> string list \<Rightarrow> host \<Rightarrow> cleanup_error list \<times> host" where
  "cleanup_files dir [] h = ([], h)"
| "cleanup_files dir (p # ps) h =
     (if parent_dir p \<noteq> dir
      then (case cleanup_files dir ps h of (es, h') \<Rightarrow> (CleanupOutside p # es, h'))
      else case remove_one h p of
        (Inl e, h1) \<Rightarrow>
          (case cleanup_files dir ps h1 of
             (es, h') \<Rightarrow> ((if e = ENOENT then es else CleanupRemove p e # es), h'))
      | (Inr _, h1) \<Rightarrow> cleanup_files dir ps h1)"

text \<open>The errors joined; an empty list is success.\<close>

definition CleanupRuntime :: "Paths \<Rightarrow> host \<Rightarrow> cleanup_error list \<times> host" where
  "CleanupRuntime paths h =
     (case inspectRuntimeDirectory h (p_runtime_dir paths) of
        Some e \<Rightarrow> ([CleanupDirectory e], h)
      | None \<Rightarrow>
          (case cleanup_files (p_runtime_dir paths) (ephemeral paths) h of
             (es, h1) \<Rightarrow>
               (es @ (case syncDirectory h1 (p_runtime_dir paths) of Some e \<Rightarrow> [CleanupSync e] | None \<Rightarrow> []), h1)))"

section \<open>Properties of the metadata\<close>

lemma remove_one_fs:
  "h_fs (snd (remove_one h p)) q =
     (if q = p \<and> \<not> h_fault h SysRemove p then None else h_fs h q)"
  "h_locks (snd (remove_one h p)) = h_locks h" "h_fault (snd (remove_one h p)) = h_fault h"
  "h_uid (snd (remove_one h p)) = h_uid h"
  by (auto simp: remove_one_def remove_file_def)

lemma cleanup_files_fs:
  "h_fs (snd (cleanup_files dir ps h)) q =
     (if q \<in> set ps \<and> parent_dir q = dir \<and> \<not> h_fault h SysRemove q then None else h_fs h q)
   \<and> h_locks (snd (cleanup_files dir ps h)) = h_locks h
   \<and> h_fault (snd (cleanup_files dir ps h)) = h_fault h \<and> h_uid (snd (cleanup_files dir ps h)) = h_uid h"
proof (induction ps arbitrary: h)
  case (Cons p ps)
  have step: "snd (cleanup_files dir (p # ps) h) =
      snd (cleanup_files dir ps (if parent_dir p \<noteq> dir then h else snd (remove_one h p)))"
    by (auto split: prod.split sum.split)
  show ?case
    unfolding step using Cons.IH [of "if parent_dir p \<noteq> dir then h else snd (remove_one h p)"]
    by (auto simp: remove_one_fs)
qed simp

lemma ephemeral_paths:
  "set (ephemeral (store_paths s c)) = join_path (RuntimeDir s (cfg_id c)) ` {''control.sock'', ''qmp.sock'',
     ''qmp-command.sock'', ''qga.sock'', ''console.sock'', ''monitor.sock'', ''vnc-password'', ''runtime.json'',
     ''serial-log.pipe''}"
  by (auto simp: ephemeral_def store_paths_def Let_def)

lemma ephemeral_parent: "p \<in> set (ephemeral (store_paths s c)) \<Longrightarrow> parent_dir p = RuntimeDir s (cfg_id c)"
  by (auto simp: ephemeral_paths parent_join)

lemma join_path_inj: "join_path d a = join_path d b \<longleftrightarrow> a = b"
  by (simp add: join_path_def)

lemma CleanupRuntime_fs:
  "h_fs (snd (CleanupRuntime (store_paths s c) h)) q =
     (if q \<in> set (ephemeral (store_paths s c)) \<and> \<not> h_fault h SysRemove q
         \<and> inspectRuntimeDirectory h (RuntimeDir s (cfg_id c)) = None then None else h_fs h q)
   \<and> h_locks (snd (CleanupRuntime (store_paths s c) h)) = h_locks h
   \<and> h_fault (snd (CleanupRuntime (store_paths s c) h)) = h_fault h
   \<and> h_uid (snd (CleanupRuntime (store_paths s c) h)) = h_uid h"
  using cleanup_files_fs [of "RuntimeDir s (cfg_id c)" "ephemeral (store_paths s c)" h q] ephemeral_parent
  by (auto simp: CleanupRuntime_def split: option.split prod.split)

lemma cleanup_files_ok:
  "fst (cleanup_files dir ps h) = [] \<Longrightarrow> \<forall>p \<in> set ps. parent_dir p = dir \<and> \<not> h_fault h SysRemove p"
proof (induction ps arbitrary: h)
  case (Cons p ps)
  from Cons.prems have dir: "parent_dir p = dir"
    by (auto split: if_splits prod.splits)
  have rest: "fst (cleanup_files dir ps (snd (remove_one h p))) = []" and ok: "\<not> h_fault h SysRemove p"
    using Cons.prems dir by (auto simp: remove_one_def split: if_splits prod.splits)
  from Cons.IH [OF rest] dir ok show ?case by (simp add: remove_one_fs)
qed simp

lemma CleanupRuntime_ok:
  "fst (CleanupRuntime p h) = [] \<Longrightarrow> inspectRuntimeDirectory h (p_runtime_dir p) = None
     \<and> (\<forall>q \<in> set (ephemeral p). \<not> h_fault h SysRemove q)"
  using cleanup_files_ok [of "p_runtime_dir p" "ephemeral p" h]
  by (auto simp: CleanupRuntime_def split: option.splits prod.splits)

lemma evidence_not_ephemeral:
  "p_last_exit_metadata (store_paths s c) \<notin> set (ephemeral (store_paths s c))"
  "p_lifetime_lock (store_paths s c) \<notin> set (ephemeral (store_paths s c))"
proof -
  have "p_last_exit_metadata (store_paths s c) = join_path (RuntimeDir s (cfg_id c)) ''last_exit.json''"
    by (simp add: store_paths_def Let_def)
  then show "p_last_exit_metadata (store_paths s c) \<notin> set (ephemeral (store_paths s c))"
    unfolding ephemeral_paths by (auto simp: join_path_inj)
  show "p_lifetime_lock (store_paths s c) \<notin> set (ephemeral (store_paths s c))"
    unfolding ephemeral_paths by (auto simp: join_path_inj)
qed

lemma cleanup_held:
  "lock_held (snd (CleanupRuntime (store_paths s c) h)) (p_lifetime_lock (store_paths s c))
     = lock_held h (p_lifetime_lock (store_paths s c))"
  using CleanupRuntime_fs [of s c h "p_lifetime_lock (store_paths s c)"] evidence_not_ephemeral(2) [of s c]
  by (simp add: lock_held_iff del: store_paths_dirs)

text \<open>The cleanup of a runtime directory removes exactly the nine ephemeral entries of the machine: the
  last-exit evidence and the lifetime lock stay, the lock as held or free as it was, and so does every
  other node of the host; when no error is reported all nine are gone.\<close>

lemma cleanup_keeps_evidence:
  "h_fs (snd (CleanupRuntime (store_paths s c) h)) (p_last_exit_metadata (store_paths s c))
      = h_fs h (p_last_exit_metadata (store_paths s c))
    \<and> lock_held (snd (CleanupRuntime (store_paths s c) h)) (p_lifetime_lock (store_paths s c))
      = lock_held h (p_lifetime_lock (store_paths s c))
    \<and> (q \<notin> set (ephemeral (store_paths s c)) \<longrightarrow> h_fs (snd (CleanupRuntime (store_paths s c) h)) q = h_fs h q)
    \<and> (fst (CleanupRuntime (store_paths s c) h) = [] \<longrightarrow> q \<in> set (ephemeral (store_paths s c)) \<longrightarrow>
        h_fs (snd (CleanupRuntime (store_paths s c) h)) q = None)"
  using CleanupRuntime_fs [of s c h q] CleanupRuntime_fs [of s c h "p_last_exit_metadata (store_paths s c)"]
    evidence_not_ephemeral [of s c] CleanupRuntime_ok [of "store_paths s c" h]
    cleanup_held [of s c h]
  by auto

lemma cleanup_keeps_evidence_witness:
  "h_fs (snd (CleanupRuntime (store_paths sample_store sample_config) sample_host)) ''/d/home-assistant/config.json''
     = Some (File 3 501 mode_file ''{}'')"
proof -
  have "RuntimeDir sample_store (cfg_id sample_config) = ''/r/0123456789ab''"
    by (simp add: RuntimeDir_def sample_name sample_store_def join_path_def)
  then have "''/d/home-assistant/config.json'' \<notin> set (ephemeral (store_paths sample_store sample_config))"
    unfolding ephemeral_paths by (auto simp: join_path_def)
  then show ?thesis
    using cleanup_keeps_evidence [of sample_store sample_config sample_host "''/d/home-assistant/config.json''"]
    by (simp add: sample_defs)
qed

text \<open>What the round trip needs of JSON: the text of the value and its line break decode to the value
  with only white space left.\<close>

definition json_file_reads_back :: "'a wire \<Rightarrow> 'a \<Rightarrow> bool" where
  "json_file_reads_back W x \<longleftrightarrow>
     (case w_json W x of
        None \<Rightarrow> True
      | Some json \<Rightarrow>
          (case w_first W (json @ [newline]) of
             Inl _ \<Rightarrow> False | Inr (y, rest) \<Rightarrow> y = x \<and> w_next W rest = Some JsonEOF))"

lemma metadata_temp_not: "CHR ''.'' \<noteq> hd b \<Longrightarrow> b \<noteq> [] \<Longrightarrow> metadata_temp h dir \<noteq> join_path dir b"
  by (cases b) (auto simp: metadata_temp_def join_path_def)

lemma writeMetadata_ok:
  assumes "writeMetadata W h (join_path dir b) x = (Inr (), h')" and "hd b \<noteq> CHR ''.''" and "b \<noteq> []"
    and "CHR ''/'' \<notin> set b"
  shows "\<exists>json. w_json W x = Some json \<and> length (json @ [newline]) \<le> maxMetadataSize
    \<and> h_fs h' (join_path dir b) = Some (File (h_inode h) (h_uid h) mode_file (json @ [newline]))
    \<and> h_fs h' dir = h_fs h dir \<and> h_uid h' = h_uid h \<and> h_fault h' = h_fault h
    \<and> inspectRuntimeDirectory h dir = None"
proof -
  let ?p = "join_path dir b"
  have dir: "parent_dir ?p = dir" by (rule parent_join [OF assms(4)])
  have neq: "metadata_temp h dir \<noteq> ?p" by (rule metadata_temp_not) (use assms(2,3) in auto)
  have child: "dir \<noteq> ?p" "dir \<noteq> metadata_temp h dir"
    by (simp_all add: metadata_temp_def join_path_def)
  from assms(1) obtain json t where w: "inspectRuntimeDirectory h dir = None" "w_json W x = Some json"
    "length (json @ [newline]) \<le> maxMetadataSize" "h_fs h (metadata_temp h dir) = None"
    "run_ops ?p h (write_ops (metadata_temp h dir) ?p (json @ [newline])) = (None, t)"
    "h' = remove_file (metadata_temp h dir) (last t)"
    by (auto simp: writeMetadata_def dir Let_def split: option.splits if_splits prod.splits)
  from run_write_ops [OF w(5) neq w(4)] have t: "last t \<in> set t"
    "\<forall>g \<in> set t. \<forall>q. q \<noteq> ?p \<longrightarrow> q \<noteq> metadata_temp h dir \<longrightarrow> h_fs g q = h_fs h q"
    "\<forall>g \<in> set t. h_fault g = h_fault h \<and> h_uid g = h_uid h"
    "h_fs (last t) ?p = Some (File (h_inode h) (h_uid h) mode_file (json @ [newline]))"
    by auto
  show ?thesis
    by (rule exI [of _ json]) (use w t neq child in \<open>auto simp: remove_file_def\<close>)
qed

text \<open>A last-exit record that was written is the one that is read back, in any state of the host in
  which the reading calls do not fail, if JSON reads back its own text; and only a consistent record
  is ever written: an exit code in a byte, with an error text exactly when it is not zero.\<close>

lemma last_exit_roundtrip:
  assumes "WriteLastExit W h (join_path dir ''last_exit.json'') m = (Inr (), h')" and "json_file_reads_back W m"
    and "\<And>call p. call \<in> {SysLstat, SysOpen, SysFstat} \<Longrightarrow> \<not> h_fault h call p"
  shows "ReadLastExit W h' (join_path dir ''last_exit.json'') = Inr m
    \<and> 0 \<le> le_exit_code m \<and> le_exit_code m \<le> 255 \<and> (le_error m = '''') = (le_exit_code m = 0)"
proof -
  let ?p = "join_path dir ''last_exit.json''"
  from assms(1) have valid: "last_exit_validate m = None" and w: "writeMetadata W h ?p m = (Inr (), h')"
    by (auto simp: WriteLastExit_def write_validated_def split: option.splits)
  from writeMetadata_ok [OF w] obtain json where json: "w_json W m = Some json"
    "length (json @ [newline]) \<le> maxMetadataSize"
    "h_fs h' ?p = Some (File (h_inode h) (h_uid h) mode_file (json @ [newline]))"
    "h_fs h' dir = h_fs h dir" "h_uid h' = h_uid h" "h_fault h' = h_fault h"
    and dir: "inspectRuntimeDirectory h dir = None"
    by auto
  have parent: "parent_dir ?p = dir" by (rule parent_join) simp
  have dir': "inspectRuntimeDirectory h' dir = None"
    using dir by (simp only: inspectRuntimeDirectory_def lstat_def json(4-6))
  have data: "open_metadata h' ?p = Inr (json @ [newline])"
    using assms(3) json(3,5,6) by (simp add: open_metadata_def inspectOwnedMetadataFile_def)
  from assms(2) json(1) obtain rest where "w_first W (json @ [newline]) = Inr (m, rest)" "w_next W rest = Some JsonEOF"
    by (auto simp: json_file_reads_back_def split: sum.splits)
  then have "ReadLastExit W h' ?p = Inr m"
    using json(2) valid by (simp add: ReadLastExit_def read_validated_def readMetadata_def parent dir' data)
  moreover have "0 \<le> le_exit_code m \<and> le_exit_code m \<le> 255 \<and> (le_error m = '''') = (le_exit_code m = 0)"
    using valid by (auto simp: last_exit_validate_def err_simps)
  ultimately show ?thesis by blast
qed

definition sample_last_exit :: LastExitMetadata where
  "sample_last_exit = \<lparr>le_version = 1, le_id = ''0123456789abcdef0123456789abcdef'',
     le_timestamp = \<lparr>ts_nanos = 0, ts_offset = 0, ts_utc = True\<rparr>, le_exit_code = 3, le_error = ''exit status 3''\<rparr>"

lemma sample_last_exit_valid: "last_exit_validate sample_last_exit = None"
  by code_simp

lemma last_exit_roundtrip_witness:
  "ReadLastExit (sample_wire sample_last_exit)
     (snd (WriteLastExit (sample_wire sample_last_exit) sample_host (join_path ''/l/home-assistant'' ''last_exit.json'') sample_last_exit))
     (join_path ''/l/home-assistant'' ''last_exit.json'') = Inr sample_last_exit"
proof -
  have parent: "parent_dir (join_path ''/l/home-assistant'' ''last_exit.json'') = ''/l/home-assistant''"
    by (rule parent_join) simp
  have dir: "inspectRuntimeDirectory sample_host ''/l/home-assistant'' = None"
    by (simp add: inspectRuntimeDirectory_def lstat_def sample_defs)
  have free: "inspect_destination sample_host (join_path ''/l/home-assistant'' ''last_exit.json'') = None"
    by (simp add: inspect_destination_def lstat_def sample_defs join_path_def)
  have "fst (WriteLastExit (sample_wire sample_last_exit) sample_host (join_path ''/l/home-assistant'' ''last_exit.json'') sample_last_exit) = Inr ()"
    by (simp add: WriteLastExit_def write_validated_def sample_last_exit_valid writeMetadata_def parent Let_def
        dir free)
      (simp add: sample_defs join_path_def sample_wire_def maxMetadataSize_def metadata_temp_def write_ops_def)
  then obtain h' where run: "WriteLastExit (sample_wire sample_last_exit) sample_host (join_path ''/l/home-assistant'' ''last_exit.json'') sample_last_exit = (Inr (), h')"
    by (metis prod.collapse)
  have reads: "json_file_reads_back (sample_wire sample_last_exit) sample_last_exit"
    by (simp add: json_file_reads_back_def sample_wire_def)
  have "\<not> h_fault sample_host call p" for call p by (simp add: sample_defs)
  with last_exit_roundtrip [OF run reads] show ?thesis by (simp add: run)
qed


end
