(* ===== verification/Lifecycle.thy ===== *)
theory Lifecycle
  imports Metadata
begin

text \<open>
  Package \<open>internal/lifecycle\<close>: the state of a machine as the command line sees it, from the
  authenticated supervisor when it answers and otherwise from the lifetime lock and the metadata
  files, the permission to delete, and the stop request. The transport, JSON, the clock and the
  context are the fields of \<open>lifecycle_env\<close>.
\<close>

definition lifetime_path :: "Store \<Rightarrow> string \<Rightarrow> string" where
  "lifetime_path s i = join_path (RuntimeDir s i) ''lifetime.lock''"

lemma lifetime_path_of: "p_lifetime_lock (store_paths s c) = lifetime_path s (cfg_id c)"
  by (simp add: lifetime_path_def)

section \<open>The lifetime lock is a nonblocking lock on the identity\<close>

lemma tryLifetime_outcome:
  assumes "tryLifetime s h i = (Inr out, h')"
  shows "\<exists>h2. grows h h2 \<and> openLock h2 (lifetime_path s i) True = (Inr out, h')"
proof -
  from assms obtain u1 h1 u2 h2 where dirs: "ensureRoots s h = (Inr u1, h1)"
    "ensureOwnedDirectory h1 (RuntimeDir s i) = (Inr u2, h2)"
    and lock: "openLock h2 (lifetime_path s i) True = (Inr out, h')"
    by (auto simp: tryLifetime_def lifetime_path_def then_do_Inr wrap_err_Inr split: option.splits)
  have "grows h h1" "grows h1 h2"
    using ensureRoots_grows [of h s] ensureOwnedDirectory_grows [of h1 "RuntimeDir s i"] dirs by simp_all
  then have "grows h h2" by (rule grows_trans)
  with lock show ?thesis by blast
qed

interpretation lifetime: try_lock "\<lambda>h i. tryLifetime s h i" unlock "\<lambda>h i. lock_held h (lifetime_path s i)"
  for s :: Store
proof
  fix h i l h'
  assume acquired: "tryLifetime s h i = (Inr (Acquired l), h')"
  from tryLifetime_outcome [OF this] obtain h2 where "openLock h2 (lifetime_path s i) True = (Inr (Acquired l), h')"
    by blast
  then have "lock_held h' (lifetime_path s i)" using flock.acquired by blast
  with tryLifetime_acquired [OF acquired] show "\<not> lock_held h (lifetime_path s i) \<and> lock_held h' (lifetime_path s i)"
    by (simp add: lifetime_path_def)
next
  fix h i h'
  assume "tryLifetime s h i = (Inr NotAcquired, h')"
  from tryLifetime_outcome [OF this] show "lock_held h' (lifetime_path s i)" using flock.refused by blast
next
  fix h i
  show "fst (tryLifetime s h i) \<noteq> Inr Blocks"
  proof
    assume "fst (tryLifetime s h i) = Inr Blocks"
    then obtain h' where "tryLifetime s h i = (Inr Blocks, h')" by (metis prod.collapse)
    from tryLifetime_outcome [OF this] obtain h2 where "openLock h2 (lifetime_path s i) True = (Inr Blocks, h')"
      by blast
    with flock.never_blocks [of h2 "lifetime_path s i"] show False by simp
  qed
next
  fix h i l h'
  assume "tryLifetime s h i = (Inr (Acquired l), h')"
  from tryLifetime_outcome [OF this] show "\<not> lock_held (unlock l h') (lifetime_path s i)"
    using flock.released by blast
qed

section \<open>Status (\<open>status.go\<close>)\<close>

record lifecycle_env =
  lc_requests :: "Request wire"
  lc_responses :: "Response wire"
  lc_runtime :: "RuntimeMetadata wire"
  lc_last_exit :: "LastExitMetadata wire"
  lc_exchange :: exchange
  lc_canceled :: bool
  lc_now :: int

datatype status_note =
    NoNote | ExitError string | InvalidLastExit meta_error | LastExitID string
  | InvalidRuntime meta_error | RuntimeIdentity string string | StartedInFuture | ControlLost

record StatusResult =
  sr_name :: string
  sr_state :: run_state
  sr_pid :: int
  sr_backend :: backend_name
  sr_current_hash :: string
  sr_running_hash :: string
  sr_vnc :: "VNCEndpoint option"
  sr_error :: status_note
  sr_started_at :: "timestamp option"

datatype status_error =
    HashError encode_error | NoStatus | SupervisorReply string string | StatusCanceled
  | InvalidExchange control_error | InspectLock store_error | ReleaseLock

definition json_unavailable :: "json_fail \<Rightarrow> bool" where
  "json_unavailable e \<longleftrightarrow> e = JsonEOF \<or> e = JsonUnexpectedEOF"

text \<open>\<open>controlUnavailable\<close>: an operation error of the network, an end of file or an unexpected one
  anywhere in the chain of wrapped errors.\<close>

definition controlUnavailable :: "control_error \<Rightarrow> bool" where
  "controlUnavailable e =
     (case e of
        CtlConnect \<Rightarrow> True
      | CtlDeadline \<Rightarrow> True
      | CtlSendNet \<Rightarrow> True
      | CtlRead (BadFrame f) \<Rightarrow>
          (case f of
             FrameEOF \<Rightarrow> True
           | FrameUnexpectedEOF \<Rightarrow> True
           | FrameNet \<Rightarrow> True
           | FrameJSON j \<Rightarrow> json_unavailable j
           | FrameTrailingData j \<Rightarrow> json_unavailable j
           | _ \<Rightarrow> False)
      | _ \<Rightarrow> False)"

definition startupObservationWindow :: int where
  "startupObservationWindow = 15 * 1000000000"

text \<open>The lock was free: what the last exit says.\<close>

definition offline_status :: "lifecycle_env \<Rightarrow> Config \<Rightarrow> Paths \<Rightarrow> host \<Rightarrow> run_state \<times> status_note" where
  "offline_status env cfg paths h =
     (case ReadLastExit (lc_last_exit env) h (p_last_exit_metadata paths) of
        Inl e \<Rightarrow> if not_exist e then (RunStateStopped, NoNote) else (RunStateFailed, InvalidLastExit e)
      | Inr m \<Rightarrow>
          if le_id m \<noteq> cfg_id cfg then (RunStateFailed, LastExitID (le_id m))
          else if le_exit_code m = 0 then (RunStateStopped, NoNote)
          else (RunStateFailed, ExitError (le_error m)))"

text \<open>The lock is held by a supervisor that does not answer: what the runtime metadata says.\<close>

definition locked_status :: "lifecycle_env \<Rightarrow> Config \<Rightarrow> Paths \<Rightarrow> host \<Rightarrow> run_state \<times> status_note" where
  "locked_status env cfg paths h =
     (case ReadRuntimeMetadata (lc_runtime env) h (p_runtime_metadata paths) of
        Inl e \<Rightarrow> (RunStateFailed, InvalidRuntime e)
      | Inr m \<Rightarrow>
          if rt_id m \<noteq> cfg_id cfg \<or> rt_name m \<noteq> cfg_name cfg
          then (RunStateFailed, RuntimeIdentity (rt_name m) (rt_id m))
          else if lc_now env < ts_nanos (rt_started_at m) then (RunStateFailed, StartedInFuture)
          else if lc_now env < ts_nanos (rt_started_at m) + startupObservationWindow
          then (RunStateStarting, NoNote)
          else (RunStateFailed, ControlLost))"

text \<open>The result, whether the lifetime lock is taken to be held, and the host.\<close>

definition status ::
  "Store \<Rightarrow> library \<Rightarrow> lifecycle_env \<Rightarrow> Config \<Rightarrow> host \<Rightarrow> (status_error + StatusResult) \<times> bool \<times> host" where
  "status s L env cfg h =
     (case Hash L cfg of
        Inl e \<Rightarrow> (Inl (HashError e), False, h)
      | Inr current \<Rightarrow>
          let paths = store_paths s cfg;
              result = \<lparr>sr_name = cfg_name cfg, sr_state = '''', sr_pid = 0, sr_backend = cfg_backend cfg,
                        sr_current_hash = current, sr_running_hash = '''', sr_vnc = None, sr_error = NoNote,
                        sr_started_at = None\<rparr>
          in case Control (lc_requests env) (lc_responses env) (lc_exchange env)
                   \<lparr>rq_version = ProtocolVersion, rq_id = cfg_id cfg, rq_command = CommandStatus,
                    rq_force = False, rq_timeout = None\<rparr> of
            Inr response \<Rightarrow>
              (case rs_status response of
                 None \<Rightarrow> (Inl NoStatus, False, h)

               | Some st \<Rightarrow>
                   (Inr (result\<lparr>sr_state := st_state st, sr_pid := st_backend_pid st, sr_backend := st_backend st,
                           sr_running_hash := st_hash st, sr_vnc := st_vnc st,
                           sr_started_at := Some (st_started_at st)\<rparr>), True, h))
          | Inl (CtlResponse code message) \<Rightarrow> (Inl (SupervisorReply code message), True, h)
          | Inl e \<Rightarrow>
              if lc_canceled env then (Inl StatusCanceled, False, h)
              else if \<not> controlUnavailable e then (Inl (InvalidExchange e), False, h)
              else (case tryLifetime s h (cfg_id cfg) of
                (Inl e, h1) \<Rightarrow> (Inl (InspectLock e), False, h1)
              | (Inr (Acquired l), h1) \<Rightarrow>
                  if h_fault h1 SysClose (p_lifetime_lock paths) then (Inl ReleaseLock, False, unlock l h1)
                  else (case offline_status env cfg paths (unlock l h1) of
                    (state, note) \<Rightarrow> (Inr (result\<lparr>sr_state := state, sr_error := note\<rparr>), False, unlock l h1))
              | (Inr _, h1) \<Rightarrow>
                  (case locked_status env cfg paths h1 of
                     (state, note) \<Rightarrow> (Inr (result\<lparr>sr_state := state, sr_error := note\<rparr>), True, h1))))"

datatype delete_refusal = DeleteStatusError status_error | DeleteRunning run_state | DeleteState run_state

definition DeleteAllowed ::
  "Store \<Rightarrow> library \<Rightarrow> lifecycle_env \<Rightarrow> Config \<Rightarrow> host \<Rightarrow> delete_refusal option \<times> host" where
  "DeleteAllowed s L env cfg h =
     (case status s L env cfg h of
        (Inl e, _, h1) \<Rightarrow> (Some (DeleteStatusError e), h1)
      | (Inr r, held, h1) \<Rightarrow>
          (if held then Some (DeleteRunning (sr_state r))
           else if sr_state r = RunStateStopped \<or> sr_state r = RunStateFailed then None
           else Some (DeleteState (sr_state r)), h1))"

section \<open>Stop (\<open>stop.go\<close>)\<close>

datatype stop_service_error =
    InvalidStopTimeout int | ShutdownTimeoutReply string | TransportLost control_error
  | TransportLock control_error store_error | TransportRelease control_error | SupervisorErrorReply string string

definition second :: int where "second = 1000000000"

definition stopTimeoutSeconds :: "Config \<Rightarrow> int \<Rightarrow> stop_service_error + int" where
  "stopTimeoutSeconds cfg timeout =
     (if timeout = 0 then
        (if cfg_shutdown_timeout_seconds cfg < 1 \<or> 3600 < cfg_shutdown_timeout_seconds cfg
         then Inl (InvalidStopTimeout (cfg_shutdown_timeout_seconds cfg * second))
         else Inr (cfg_shutdown_timeout_seconds cfg))
      else if timeout < second \<or> 3600 * second < timeout \<or> timeout mod second \<noteq> 0
      then Inl (InvalidStopTimeout timeout)
      else Inr (timeout div second))"

definition stop_request :: "Config \<Rightarrow> bool \<Rightarrow> int \<Rightarrow> Request" where
  "stop_request cfg force seconds =
     \<lparr>rq_version = ProtocolVersion, rq_id = cfg_id cfg, rq_command = CommandStop, rq_force = force,
      rq_timeout = Some seconds\<rparr>"

text \<open>The error, the progress that was reported, and the host.\<close>

definition StopWithProgress ::
  "Store \<Rightarrow> lifecycle_env \<Rightarrow> Config \<Rightarrow> int \<Rightarrow> bool \<Rightarrow> host \<Rightarrow> stop_service_error option \<times> string list \<times> host" where
  "StopWithProgress s env cfg timeout force h =
     (case stopTimeoutSeconds cfg timeout of
        Inl e \<Rightarrow> (Some e, [], h)
      | Inr seconds \<Rightarrow>
          (case ControlWithProgress (lc_requests env) (lc_responses env) (lc_exchange env)
                  (stop_request cfg force seconds) of
             (Inr _, progress) \<Rightarrow> (None, progress, h)
           | (Inl (CtlResponse code message), progress) \<Rightarrow>
               (if code = ErrorShutdownTimeout then Some (ShutdownTimeoutReply message)
                else if code = ErrorNotRunning then None
                else Some (SupervisorErrorReply code message), progress, h)
           | (Inl e, progress) \<Rightarrow>
               (case tryLifetime s h (cfg_id cfg) of
                  (Inl le, h1) \<Rightarrow> (Some (TransportLock e le), progress, h1)
                | (Inr (Acquired l), h1) \<Rightarrow>
                    (if h_fault h1 SysClose (lifetime_path s (cfg_id cfg)) then Some (TransportRelease e) else None,
                     progress, unlock l h1)
                | (Inr _, h1) \<Rightarrow> (Some (TransportLost e), progress, h1))))"

section \<open>Properties of the lifecycle\<close>

lemma offline_states: "fst (offline_status env cfg paths h) \<in> {RunStateStopped, RunStateFailed}"
  by (auto simp: offline_status_def split: sum.split)

lemma locked_states: "fst (locked_status env cfg paths h) \<in> {RunStateStarting, RunStateFailed}"
  by (auto simp: locked_status_def split: sum.split)

definition status_request :: "Config \<Rightarrow> Request" where
  "status_request cfg = \<lparr>rq_version = ProtocolVersion, rq_id = cfg_id cfg, rq_command = CommandStatus,
     rq_force = False, rq_timeout = None\<rparr>"

text \<open>When the supervisor could not be reached, the result comes from the lock and the files.\<close>

lemma status_fallback:
  assumes "status s L env cfg h = (Inr r, held, h')"
    and "Control (lc_requests env) (lc_responses env) (lc_exchange env) (status_request cfg) = Inl e"
  shows "(\<exists>l h1. \<not> held \<and> tryLifetime s h (cfg_id cfg) = (Inr (Acquired l), h1) \<and> h' = unlock l h1
            \<and> sr_state r = fst (offline_status env cfg (store_paths s cfg) h'))
    \<or> (\<exists>out. held \<and> tryLifetime s h (cfg_id cfg) = (Inr out, h') \<and> out \<noteq> Blocks \<and> (\<forall>l. out \<noteq> Acquired l)
            \<and> sr_state r = fst (locked_status env cfg (store_paths s cfg) h'))"
proof -
  have lookup: "tryLifetime s h (cfg_id cfg) \<noteq> (Inr Blocks, g)" for g
    using lifetime.never_blocks [of s h "cfg_id cfg"] by auto
  show ?thesis
    using assms lookup
    by (cases e) (auto simp: status_def status_request_def [symmetric] Let_def
        split: sum.splits if_splits prod.splits lock_outcome.splits)
qed

text \<open>Without an answer of the supervisor the reported state never contradicts the lifetime lock: a
  machine is reported stopped only when nobody held its lock, one whose lock is held is reported as
  starting or failed and as held, and none is reported running.\<close>

lemma fallback_status_respects_lock:
  assumes "status s L env cfg h = (Inr r, held, h')"
    and "Control (lc_requests env) (lc_responses env) (lc_exchange env) (status_request cfg) = Inl e"
  shows "(sr_state r = RunStateStopped \<longrightarrow> \<not> lock_held h (p_lifetime_lock (store_paths s cfg)))
    \<and> (lock_held h (p_lifetime_lock (store_paths s cfg)) \<longrightarrow> held \<and> sr_state r \<in> {RunStateStarting, RunStateFailed})
    \<and> (held \<longrightarrow> lock_held h' (p_lifetime_lock (store_paths s cfg)))
    \<and> sr_state r \<noteq> RunStateRunning"
  using status_fallback [OF assms]
proof (elim disjE exE conjE)
  fix l h1
  assume acquired: "\<not> held" "tryLifetime s h (cfg_id cfg) = (Inr (Acquired l), h1)"
    "sr_state r = fst (offline_status env cfg (store_paths s cfg) h')"
  have "\<not> lock_held h (lifetime_path s (cfg_id cfg))" using lifetime.acquired [OF acquired(2)] by blast
  moreover have "sr_state r \<noteq> RunStateRunning"
    using offline_states [of env cfg "store_paths s cfg" h'] acquired(3) by (auto simp: run_state_defs)
  ultimately show ?thesis using acquired(1) by (simp add: lifetime_path_def)
next
  fix out
  assume locked: "held" "tryLifetime s h (cfg_id cfg) = (Inr out, h')" "out \<noteq> Blocks" "\<forall>l. out \<noteq> Acquired l"
    "sr_state r = fst (locked_status env cfg (store_paths s cfg) h')"
  then have "out = NotAcquired" by (cases out) auto
  with locked(2) have "lock_held h' (lifetime_path s (cfg_id cfg))" using lifetime.refused by blast
  moreover have "sr_state r \<in> {RunStateStarting, RunStateFailed}"
    using locked_states locked(5) by metis
  ultimately show ?thesis using locked(1) by (auto simp: run_state_defs lifetime_path_def)
qed

text \<open>An environment for the witnesses: no supervisor is listening.\<close>

definition sample_env :: lifecycle_env where
  "sample_env = \<lparr>lc_requests = sample_wire sample_request, lc_responses = sample_wire sample_ok,
     lc_runtime = sample_wire \<lparr>rt_version = 1, rt_id = '''', rt_name = '''', rt_supervisor_pid = 1,
       rt_started_at = \<lparr>ts_nanos = 0, ts_offset = 0, ts_utc = True\<rparr>, rt_boot_menu = False\<rparr>,
     lc_last_exit = sample_wire sample_last_exit,
     lc_exchange = \<lparr>ex_connects = False, ex_deadline_set = True, ex_sends = True, ex_reply = '''', ex_end = PeerClosed\<rparr>,
     lc_canceled = False, lc_now = 0\<rparr>"

lemma sample_control:
  "Control (lc_requests sample_env) (lc_responses sample_env) (lc_exchange sample_env) (status_request sample_config)
     = Inl CtlConnect"
proof -
  have "request_validate (status_request sample_config) = None" by code_simp
  then show ?thesis by (simp add: Control_def ControlWithProgress_def sample_env_def)
qed

lemma sample_hash: "\<exists>d. Hash sample_library sample_config = Inr d"
  by (simp add: Hash_def ConfigSHA256_def sample_config_valid sample_library_def)

text \<open>The offline machine of the witnesses is reported stopped and free.\<close>

lemma sample_status:
  "\<exists>r h'. status sample_store sample_library sample_env sample_config (after_lock sample_host) = (Inr r, False, h')"
proof -
  obtain d where hash: "Hash sample_library sample_config = Inr d" using sample_hash by blast
  obtain h1 where lock: "tryLifetime sample_store (after_lock sample_host) (cfg_id sample_config) = (Inr (Acquired 8), h1)"
    and fault: "h_fault h1 = (\<lambda>_ _. False)"
    using sample_tryLifetime by blast
  obtain st n where off: "offline_status sample_env sample_config (store_paths sample_store sample_config) (unlock 8 h1) = (st, n)"
    by (metis prod.collapse)
  show ?thesis
    using sample_control
    by (simp add: status_def hash Let_def status_request_def [symmetric] controlUnavailable_def lock fault off)
      (simp add: sample_env_def)
qed

lemma fallback_status_respects_lock_witness:
  "\<not> lock_held (after_lock sample_host) (p_lifetime_lock (store_paths sample_store sample_config))"
proof -
  obtain r h' where run: "status sample_store sample_library sample_env sample_config (after_lock sample_host) = (Inr r, False, h')"
    using sample_status by blast
  from fallback_status_respects_lock [OF run sample_control] show ?thesis by blast
qed

text \<open>Deletion is allowed only when the supervisor could not be reached at all and the lifetime lock
  was free: an authenticated supervisor, an error it reports, a malformed answer, a cancelled request
  or a held lock all refuse it.\<close>

lemma DeleteAllowed_means_offline:
  assumes "DeleteAllowed s L env cfg h = (None, h')"
  shows "\<not> lock_held h (p_lifetime_lock (store_paths s cfg))
    \<and> (\<exists>e. Control (lc_requests env) (lc_responses env) (lc_exchange env) (status_request cfg) = Inl e
          \<and> controlUnavailable e) \<and> \<not> lc_canceled env"
proof -
  from assms obtain r where st: "status s L env cfg h = (Inr r, False, h')"
    by (auto simp: DeleteAllowed_def split: prod.splits sum.splits if_splits)
  obtain e where e: "Control (lc_requests env) (lc_responses env) (lc_exchange env) (status_request cfg) = Inl e"
    "controlUnavailable e" "\<not> lc_canceled env"
  proof (cases "Control (lc_requests env) (lc_responses env) (lc_exchange env) (status_request cfg)")
    case (Inl e)
    have "controlUnavailable e \<and> \<not> lc_canceled env"
      using st Inl by (cases e) (simp_all add: status_def status_request_def [symmetric] Let_def
          split: sum.splits if_splits)
    with Inl that show ?thesis by blast
  next
    case (Inr response)
    with st show ?thesis
      by (simp add: status_def status_request_def [symmetric] Let_def split: sum.splits option.splits)
  qed
  from status_fallback [OF st e(1)] obtain l h1 where "tryLifetime s h (cfg_id cfg) = (Inr (Acquired l), h1)"
    by blast
  from lifetime.acquired [OF this] e show ?thesis by (auto simp: lifetime_path_def)
qed

lemma DeleteAllowed_means_offline_witness:
  "\<not> lock_held (after_lock sample_host) (p_lifetime_lock (store_paths sample_store sample_config)) \<and> \<not> lc_canceled sample_env"
proof -
  obtain r h' where run: "status sample_store sample_library sample_env sample_config (after_lock sample_host) = (Inr r, False, h')"
    using sample_status by blast
  obtain l h1 where "sr_state r = fst (offline_status sample_env sample_config (store_paths sample_store sample_config) h')"
    using status_fallback [OF run sample_control] by blast
  then have "sr_state r = RunStateStopped \<or> sr_state r = RunStateFailed"
    using offline_states by (metis insertE singletonD)
  then have "DeleteAllowed sample_store sample_library sample_env sample_config (after_lock sample_host) = (None, h')"
    by (simp add: DeleteAllowed_def run)
  from DeleteAllowed_means_offline [OF this] show ?thesis by blast
qed

text \<open>A stop that reports success is confirmed: the supervisor answered with success or that it is not
  running, or the transport failed and the lifetime lock was free; and what was asked for was a
  timeout of a whole number of seconds between one second and one hour.\<close>

lemma stop_success_is_confirmed:
  assumes "StopWithProgress s env cfg timeout force h = (None, progress, h')"
  shows "\<exists>seconds. stopTimeoutSeconds cfg timeout = Inr seconds \<and> 1 \<le> seconds \<and> seconds \<le> 3600
    \<and> (timeout \<noteq> 0 \<longrightarrow> timeout = seconds * second)
    \<and> (case Control (lc_requests env) (lc_responses env) (lc_exchange env) (stop_request cfg force seconds) of
         Inr _ \<Rightarrow> True
       | Inl (CtlResponse code _) \<Rightarrow> code = ErrorNotRunning
       | Inl _ \<Rightarrow> \<not> lock_held h (p_lifetime_lock (store_paths s cfg)))"
proof -
  from assms obtain seconds where seconds: "stopTimeoutSeconds cfg timeout = Inr seconds"
    by (auto simp: StopWithProgress_def split: sum.splits)
  have range: "1 \<le> seconds" "seconds \<le> 3600" "timeout \<noteq> 0 \<longrightarrow> timeout = seconds * second"
    using seconds by (auto simp: stopTimeoutSeconds_def second_def split: if_splits)
  obtain r ps where run: "ControlWithProgress (lc_requests env) (lc_responses env) (lc_exchange env)
      (stop_request cfg force seconds) = (r, ps)"
    by (metis prod.collapse)
  have free: "\<not> lock_held h (lifetime_path s (cfg_id cfg))"
    if "tryLifetime s h (cfg_id cfg) = (Inr (Acquired l), h1)" for l h1
    using lifetime.acquired [OF that] by blast
  have "case r of Inr _ \<Rightarrow> True | Inl (CtlResponse code _) \<Rightarrow> code = ErrorNotRunning
      | Inl _ \<Rightarrow> \<not> lock_held h (lifetime_path s (cfg_id cfg))"
  proof (cases r)
    case (Inl e)
    show ?thesis
    proof (cases "\<exists>code message. e = CtlResponse code message")
      case True
      with assms seconds run Inl show ?thesis
        by (auto simp: StopWithProgress_def split: if_splits)
    next
      case False
      with assms seconds run Inl obtain l h1 where "tryLifetime s h (cfg_id cfg) = (Inr (Acquired l), h1)"
        by (cases e) (auto simp: StopWithProgress_def split: prod.splits sum.splits lock_outcome.splits if_splits)
      from free [OF this] Inl False show ?thesis by (cases e) simp_all
    qed
  qed simp
  then have "case Control (lc_requests env) (lc_responses env) (lc_exchange env) (stop_request cfg force seconds) of
         Inr _ \<Rightarrow> True
       | Inl (CtlResponse code _) \<Rightarrow> code = ErrorNotRunning
       | Inl _ \<Rightarrow> \<not> lock_held h (p_lifetime_lock (store_paths s cfg))"
    by (simp only: Control_def run lifetime_path_of fst_conv)
  with seconds range show ?thesis by blast
qed

lemma stop_success_is_confirmed_witness:
  "\<exists>seconds. stopTimeoutSeconds sample_config (30 * second) = Inr seconds \<and> seconds \<le> 3600"
proof -
  obtain h1 where lock: "tryLifetime sample_store (after_lock sample_host) (cfg_id sample_config) = (Inr (Acquired 8), h1)"
    and fault: "h_fault h1 = (\<lambda>_ _. False)"
    using sample_tryLifetime by blast
  have valid: "request_validate (stop_request sample_config True 30) = None" by code_simp
  have "StopWithProgress sample_store sample_env sample_config (30 * second) True (after_lock sample_host)
      = (None, [], unlock 8 h1)"
    by (simp add: StopWithProgress_def stopTimeoutSeconds_def second_def ControlWithProgress_def valid lock fault)
      (simp add: sample_env_def)
  from stop_success_is_confirmed [OF this] show ?thesis by blast
qed

end
