(* ===== verification/SerialLog.thy ===== *)
theory SerialLog
  imports Host "HOL-Library.Sublist"
begin

text \<open>
  \<open>internal/supervisor/serial_log.go\<close> and \<open>serial_log_unix.go\<close>: the rotating log of the serial
  console. The files are nodes of the host; an open file is the node its path names, since only the
  rotation renames it, closed first. \<open>Write\<close> is a loop that could run forever on a zero limit, so
  it is a partial function and its termination is proved.
\<close>

datatype serial_error =
    InvalidLimits | SerialDirectory sys_error | SerialInspect string sys_error
  | SerialRemove string sys_error | SerialOpen sys_error | SerialTruncate | SerialClose
  | SerialRotate sys_error | SerialWrite

record rotatingSerialLog =
  sl_path :: string
  sl_open :: bool
  sl_size :: nat
  sl_max_size :: nat
  sl_max_backups :: nat

definition serialLogMaxSize :: nat where "serialLogMaxSize = 2 * 1024 * 1024"
definition serialLogMaxBackups :: nat where "serialLogMaxBackups = 3"

definition backup_path :: "string \<Rightarrow> nat \<Rightarrow> string" where
  "backup_path path i = path @ ''.'' @ itoa i"

section \<open>Inspection and opening (\<open>serial_log_unix.go\<close>)\<close>

definition inspectSerialLogDirectory :: "host \<Rightarrow> string \<Rightarrow> serial_error option" where
  "inspectSerialLogDirectory h path =
     (case lstat h (parent_dir path) of
        Inl e \<Rightarrow> Some (SerialDirectory e)
      | Inr (Dir uid mode) \<Rightarrow>
          if uid \<noteq> h_uid h then Some (SerialDirectory (WrongOwner uid))
          else if mode \<noteq> mode_dir then Some (SerialDirectory (WrongMode mode))
          else None
      | Inr _ \<Rightarrow> Some (SerialDirectory NotRealDirectory))"

text \<open>\<open>None\<close> when there is no file, else its sz.\<close>

definition inspectSerialLogFile :: "host \<Rightarrow> string \<Rightarrow> serial_error + nat option" where
  "inspectSerialLogFile h path =
     (case lstat h path of
        Inl e \<Rightarrow> if e = ENOENT then Inr None else Inl (SerialInspect path e)
      | Inr (File _ uid mode content) \<Rightarrow>
          if uid \<noteq> h_uid h then Inl (SerialInspect path (WrongOwner uid))
          else if mode \<noteq> mode_file then Inl (SerialInspect path (WrongMode mode))
          else Inr (Some (length content))
      | Inr _ \<Rightarrow> Inl (SerialInspect path NotRegular))"

definition openSecureSerialLog :: "host \<Rightarrow> string \<Rightarrow> (serial_error, nat) action" where
  "openSecureSerialLog h path =
     (if h_fault h SysOpen path then (Inl (SerialOpen (EFAULTED SysOpen)), h)
      else case h_fs h path of
        None \<Rightarrow>
          if \<not> is_dir_at h (parent_dir path) then (Inl (SerialOpen ENOENT), h)
          else let h' = h\<lparr>h_fs := (h_fs h)(path \<mapsto> File (h_inode h) (h_uid h) mode_file []),
                          h_inode := Suc (h_inode h)\<rparr>
               in if h_fault h SysFstat path then (Inl (SerialOpen (EFAULTED SysFstat)), h') else (Inr 0, h')
      | Some (File _ uid mode content) \<Rightarrow>
          if h_fault h SysFstat path then (Inl (SerialOpen (EFAULTED SysFstat)), h)
          else if uid \<noteq> h_uid h then (Inl (SerialOpen (WrongOwner uid)), h)
          else if mode \<noteq> mode_file then (Inl (SerialOpen (WrongMode mode)), h)
          else (Inr (length content), h)
      | Some (Dir _ _) \<Rightarrow> (Inl (SerialOpen EISDIR), h)
      | Some (Symlink _) \<Rightarrow> (Inl (SerialOpen ELOOP), h)
      | Some (Special _ _) \<Rightarrow> (Inl (SerialOpen NotRegular), h))"

definition remove_at :: "host \<Rightarrow> string \<Rightarrow> (sys_error, unit) action" where
  "remove_at h p =
     (if h_fault h SysRemove p then (Inl (EFAULTED SysRemove), h)
      else if h_fs h p = None then (Inl ENOENT, h)
      else (Inr (), h\<lparr>h_fs := (h_fs h)(p := None)\<rparr>))"

definition rename_at :: "host \<Rightarrow> string \<Rightarrow> string \<Rightarrow> (sys_error, unit) action" where
  "rename_at h a b =
     (if h_fault h SysRename a then (Inl (EFAULTED SysRename), h)
      else if h_fs h a = None then (Inl ENOENT, h)
      else (Inr (), h\<lparr>h_fs := ((h_fs h)(b := h_fs h a))(a := None)\<rparr>))"

definition ignore_absent :: "(sys_error, unit) action \<Rightarrow> (sys_error, unit) action" where
  "ignore_absent r = (if fst r = Inl ENOENT then (Inr (), snd r) else r)"

definition set_content :: "string \<Rightarrow> (string \<Rightarrow> string) \<Rightarrow> host \<Rightarrow> host" where
  "set_content path f h =
     (case h_fs h path of
        Some (File ino uid mode content) \<Rightarrow> h\<lparr>h_fs := (h_fs h)(path \<mapsto> File ino uid mode (f content))\<rparr>
      | _ \<Rightarrow> h)"

section \<open>Opening with the limits\<close>

text \<open>Backups below the limit are inspected from the first, the oversized ones removed.\<close>

function prune_backups :: "string \<Rightarrow> nat \<Rightarrow> nat \<Rightarrow> nat \<Rightarrow> host \<Rightarrow> (serial_error, unit) action" where
  "prune_backups path max_size n i h =
     (if n \<le> i then (Inr (), h)
      else case inspectSerialLogFile h (backup_path path i) of
        Inl e \<Rightarrow> (Inl e, h)
      | Inr info \<Rightarrow>
          if (case info of None \<Rightarrow> False | Some sz \<Rightarrow> max_size < sz)
          then then_do (wrap_err (SerialRemove (backup_path path i)) (remove_at h (backup_path path i)))
                 (\<lambda>_ h1. prune_backups path max_size n (Suc i) h1)
          else prune_backups path max_size n (Suc i) h)"
  by pat_completeness auto
termination
  by (relation "measure (\<lambda>(path, max_size, n, i, h). n - i)") auto

declare prune_backups.simps [simp del]

definition open_active ::
  "host \<Rightarrow> string \<Rightarrow> nat \<Rightarrow> nat \<Rightarrow> (serial_error, rotatingSerialLog) action" where
  "open_active h path max_size max_backups =
     then_do (openSecureSerialLog h path) (\<lambda>sz h3.
     let log = \<lparr>sl_path = path, sl_open = True, sl_size = sz, sl_max_size = max_size,
                sl_max_backups = max_backups\<rparr> in
     if max_size < sz
     then (if h_fault h3 SysTruncate path then (Inl SerialTruncate, h3)
           else (Inr (log\<lparr>sl_size := 0\<rparr>), set_content path (\<lambda>_. []) h3))
     else (Inr log, h3))"

definition openRotatingSerialLog ::
  "host \<Rightarrow> string \<Rightarrow> nat \<Rightarrow> nat \<Rightarrow> (serial_error, rotatingSerialLog) action" where
  "openRotatingSerialLog h path max_size max_backups =
     (if max_size = 0 \<or> max_backups = 0 then (Inl InvalidLimits, h)
      else case inspectSerialLogDirectory h path of
        Some e \<Rightarrow> (Inl e, h)
      | None \<Rightarrow>
          then_do (prune_backups path max_size max_backups 0 h) (\<lambda>_ h1.
          let stale = backup_path path max_backups in
          case inspectSerialLogFile h1 stale of
            Inl e \<Rightarrow> (Inl e, h1)
          | Inr info \<Rightarrow>
              then_do (if info = None then (Inr (), h1) else wrap_err (SerialRemove stale) (remove_at h1 stale)) (\<lambda>_ h2.
              open_active h2 path max_size max_backups)))"

section \<open>Rotation and writing\<close>

fun inspect_all :: "host \<Rightarrow> string list \<Rightarrow> serial_error option" where
  "inspect_all h [] = None"
| "inspect_all h (p # ps) =
     (case inspectSerialLogFile h p of Inl e \<Rightarrow> Some e | Inr _ \<Rightarrow> inspect_all h ps)"

text \<open>The renames of the backups from \<open>k - 1\<close> down to 0, each to the next number.\<close>

fun shift_backups :: "string \<Rightarrow> nat \<Rightarrow> host \<Rightarrow> (sys_error, unit) action" where
  "shift_backups path 0 h = (Inr (), h)"
| "shift_backups path (Suc k) h =
     then_do (ignore_absent (rename_at h (backup_path path k) (backup_path path (Suc k))))
       (\<lambda>_ h1. shift_backups path k h1)"

definition rotate :: "rotatingSerialLog \<Rightarrow> host \<Rightarrow> (serial_error, unit) action \<times> rotatingSerialLog" where
  "rotate w h =
     (let path = sl_path w; n = sl_max_backups w in
      case inspect_all h (List.map (backup_path path) [0..<n] @ [path]) of
        Some e \<Rightarrow> ((Inl e, h), w)
      | None \<Rightarrow>
          if h_fault h SysClose path then ((Inl SerialClose, h), w)
          else case (if n = 0 then (Inr (), h)
                     else wrap_err SerialRotate
                       (then_do (ignore_absent (remove_at h (backup_path path (n - 1)))) (\<lambda>_ h1.
                        then_do (shift_backups path (n - 1) h1) (\<lambda>_ h2.
                        rename_at h2 path (backup_path path 0))))) of
            (Inl e, h1) \<Rightarrow> ((Inl e, h1), w\<lparr>sl_open := False\<rparr>)
          | (Inr _, h1) \<Rightarrow>
              (case openSecureSerialLog h1 path of
                 (Inl e, h2) \<Rightarrow> ((Inl e, h2), w\<lparr>sl_open := False\<rparr>)
               | (Inr sz, h2) \<Rightarrow> ((Inr (), h2), w\<lparr>sl_open := True, sl_size := sz\<rparr>)))"

text \<open>The loop of \<open>Write\<close>: the bytes consumed, an error, the writer, the host.\<close>

partial_function (option) write_loop ::
  "rotatingSerialLog \<Rightarrow> host \<Rightarrow> string \<Rightarrow> nat \<Rightarrow> (nat \<times> serial_error option \<times> rotatingSerialLog \<times> host) option" where
  [code]: "write_loop w h input consumed =
     (if input = [] then Some (consumed, None, w, h)
      else case (if sl_size w = sl_max_size w then rotate w h else ((Inr (), h), w)) of
        ((Inl e, h1), w1) \<Rightarrow> Some (consumed, Some e, w1, h1)
      | ((Inr _, h1), w1) \<Rightarrow>
          let chunk = take (sl_max_size w1 - sl_size w1) input in
          if h_fault h1 SysWrite (sl_path w1) then Some (consumed, Some SerialWrite, w1, h1)
          else write_loop (w1\<lparr>sl_size := sl_size w1 + length chunk\<rparr>)
                 (set_content (sl_path w1) (\<lambda>s. s @ chunk) h1) (drop (length chunk) input)
                 (consumed + length chunk))"

definition serial_write ::
  "rotatingSerialLog \<Rightarrow> host \<Rightarrow> string \<Rightarrow> (nat \<times> serial_error option \<times> rotatingSerialLog \<times> host) option" where
  "serial_write w h input = write_loop w h input 0"

text \<open>\<open>copySerialLog\<close>: the reads in order and how they end; after a failed write the log is closed and
  the rest is drained. The result is the read error, whether durable logging was disabled, the host.\<close>

fun copySerialLog ::
  "string list \<Rightarrow> bool \<Rightarrow> rotatingSerialLog option \<Rightarrow> host \<Rightarrow> (bool \<times> bool \<times> host) option" where
  "copySerialLog [] eof output h =
     Some (\<not> eof \<or> (case output of None \<Rightarrow> False | Some w \<Rightarrow> sl_open w \<and> h_fault h SysClose (sl_path w)),
           output = None, h)"
| "copySerialLog (chunk # chunks) eof output h =
     (case output of
        None \<Rightarrow> copySerialLog chunks eof None h
      | Some w \<Rightarrow>
          (case serial_write w h chunk of
             None \<Rightarrow> None
           | Some (_, None, w1, h1) \<Rightarrow> copySerialLog chunks eof (Some w1) h1
           | Some (_, Some _, _, h1) \<Rightarrow> copySerialLog chunks eof None h1))"

section \<open>What the files hold\<close>

definition content_at :: "host \<Rightarrow> string \<Rightarrow> string" where
  "content_at h p = (case h_fs h p of Some (File _ _ _ content) \<Rightarrow> content | _ \<Rightarrow> [])"

text \<open>The retained log: the backups from the oldest, then the active file.\<close>

definition retained :: "rotatingSerialLog \<Rightarrow> host \<Rightarrow> string" where
  "retained w h =
     concat (List.map (\<lambda>i. content_at h (backup_path (sl_path w) i)) (rev [0..<sl_max_backups w]))
     @ content_at h (sl_path w)"

definition log_ok :: "rotatingSerialLog \<Rightarrow> host \<Rightarrow> bool" where
  "log_ok w h \<longleftrightarrow> 0 < sl_max_size w \<and> 0 < sl_max_backups w
     \<and> (\<exists>ino uid mode content. h_fs h (sl_path w) = Some (File ino uid mode content)
           \<and> length content = sl_size w)
     \<and> sl_size w \<le> sl_max_size w
     \<and> (\<forall>i < sl_max_backups w. length (content_at h (backup_path (sl_path w) i)) \<le> sl_max_size w)"

lemma backup_path_inj: "backup_path p i = backup_path p j \<longleftrightarrow> i = j"
  by (simp add: backup_path_def itoa_inj)

lemma backup_path_not [simp]: "backup_path p i \<noteq> p" "p \<noteq> backup_path p i"
  by (auto simp: backup_path_def)

lemma shift_backups_fs:
  assumes "shift_backups path k h = (Inr (), h')" and "h_fs h (backup_path path k) = None"
  shows "(\<forall>j < k. h_fs h' (backup_path path (Suc j)) = h_fs h (backup_path path j))
    \<and> h_fs h' (backup_path path 0) = None
    \<and> (\<forall>q. (\<forall>j \<le> k. q \<noteq> backup_path path j) \<longrightarrow> h_fs h' q = h_fs h q)
    \<and> h_fault h' = h_fault h \<and> h_uid h' = h_uid h"
  using assms
proof (induction k arbitrary: h)
  case (Suc k)
  from Suc.prems(1) obtain h1 where step: "ignore_absent (rename_at h (backup_path path k) (backup_path path (Suc k))) = (Inr (), h1)"
    and rest: "shift_backups path k h1 = (Inr (), h')"
    by (auto simp: then_do_Inr)
  have h1: "h_fs h1 = ((h_fs h)(backup_path path (Suc k) := h_fs h (backup_path path k)))(backup_path path k := None)"
    "h_fault h1 = h_fault h" "h_uid h1 = h_uid h"
    using step Suc.prems(2)
    by (auto simp: ignore_absent_def rename_at_def backup_path_inj fun_eq_iff split: if_splits)
  have "h_fs h1 (backup_path path k) = None" using h1(1) by simp
  note ih = Suc.IH [OF rest this]
  show ?case
  proof (intro conjI allI impI)
    fix j assume "j < Suc k"
    then consider "j < k" | "j = k" by linarith
    then show "h_fs h' (backup_path path (Suc j)) = h_fs h (backup_path path j)"
    proof cases
      case 1
      with ih h1(1) show ?thesis by (simp add: backup_path_inj)
    next
      case 2
      have "h_fs h' (backup_path path (Suc k)) = h_fs h1 (backup_path path (Suc k))"
        using ih by (auto simp: backup_path_inj)
      with h1(1) 2 show ?thesis by (simp add: backup_path_inj)
    qed
  next
    fix q assume "\<forall>j \<le> Suc k. q \<noteq> backup_path path j"
    with ih h1(1) show "h_fs h' q = h_fs h q" by auto
  qed (use ih h1 in auto)
qed simp

lemma content_at_length_le:
  "log_ok w h \<Longrightarrow> length (content_at h (sl_path w)) \<le> sl_max_size w"
  by (auto simp: log_ok_def content_at_def)

lemma remove_absent:
  assumes "ignore_absent (remove_at h p) = (Inr (), h1)"
  shows "h_fs h1 = (h_fs h)(p := None) \<and> h_fault h1 = h_fault h \<and> h_uid h1 = h_uid h"
  using assms by (auto simp: ignore_absent_def remove_at_def fun_eq_iff split: if_splits)

lemma rename_fs:
  assumes "rename_at h a b = (Inr (), h1)"
  shows "h_fs h1 = ((h_fs h)(b := h_fs h a))(a := None)"
  using assms by (auto simp: rename_at_def split: if_splits)

lemma open_fresh:
  assumes "openSecureSerialLog h path = (Inr sz, h1)" "h_fs h path = None"
  shows "sz = 0 \<and> h_fs h1 = (h_fs h)(path \<mapsto> File (h_inode h) (h_uid h) mode_file [])"
  using assms by (auto simp: openSecureSerialLog_def Let_def split: if_splits)

text \<open>What a successful rotation does to the files: each moves to the next number, the oldest is gone,
  the active file is new.\<close>

lemma rotate_fs:
  assumes "rotate w h = ((Inr (), h'), w')" "0 < sl_max_backups w"
  shows "(\<forall>j < sl_max_backups w - 1.
            h_fs h' (backup_path (sl_path w) (Suc j)) = h_fs h (backup_path (sl_path w) j))
    \<and> h_fs h' (backup_path (sl_path w) 0) = h_fs h (sl_path w)
    \<and> (\<exists>ino uid. h_fs h' (sl_path w) = Some (File ino uid mode_file []))
    \<and> w' = w\<lparr>sl_open := True, sl_size := 0\<rparr>"
proof -
  define p where "p = sl_path w"
  obtain k where k: "sl_max_backups w = Suc k" using assms(2) by (cases "sl_max_backups w") auto
  from assms(1) k obtain h1 h2 h3 sz where
    rm: "ignore_absent (remove_at h (backup_path p k)) = (Inr (), h1)"
    and sh: "shift_backups p k h1 = (Inr (), h2)"
    and mv: "rename_at h2 p (backup_path p 0) = (Inr (), h3)"
    and op: "openSecureSerialLog h3 p = (Inr sz, h')"
    and w': "w' = w\<lparr>sl_open := True, sl_size := sz\<rparr>"
    by (auto simp: rotate_def p_def Let_def then_do_Inr wrap_err_def
        split: option.splits if_splits prod.splits sum.splits)
  have h1: "h_fs h1 = (h_fs h)(backup_path p k := None)" using remove_absent [OF rm] by simp
  note h2 = shift_backups_fs [OF sh] and h3 = rename_fs [OF mv]
  have absent: "h_fs h3 p = None" using h3 by simp
  note h' = open_fresh [OF op absent]
  have all2: "(\<forall>j < k. h_fs h2 (backup_path p (Suc j)) = h_fs h1 (backup_path p j))
      \<and> h_fs h2 p = h_fs h1 p"
    using h2 h1 by simp
  have "\<forall>j < k. h_fs h' (backup_path p (Suc j)) = h_fs h (backup_path p j)"
    using all2 h' h3 h1 by (simp add: backup_path_inj)
  moreover have "h_fs h' (backup_path p 0) = h_fs h p"
    using all2 h' h3 h1 by simp
  ultimately show ?thesis using h' w' k by (simp add: p_def)
qed

lemma rotate_ok:
  assumes "rotate w h = ((Inr (), h'), w')" "log_ok w h"
  shows "log_ok w' h' \<and> sl_size w' = 0 \<and> sl_max_size w' = sl_max_size w
    \<and> sl_max_backups w' = sl_max_backups w \<and> suffix (retained w' h') (retained w h)"
proof -
  have pos: "0 < sl_max_backups w" using assms(2) by (simp add: log_ok_def)
  obtain k where k: "sl_max_backups w = Suc k" using pos by (cases "sl_max_backups w") auto
  define p where "p = sl_path w"
  note fs = rotate_fs [OF assms(1) pos, folded p_def]
  have w': "w' = w\<lparr>sl_open := True, sl_size := 0\<rparr>" using fs by blast
  have c0: "content_at h' (backup_path p 0) = content_at h p" using fs by (simp add: content_at_def)
  have cS: "content_at h' (backup_path p (Suc j)) = content_at h (backup_path p j)" if "j < k" for j
    using fs that k by (simp add: content_at_def)
  have cp: "content_at h' p = []" using fs by (auto simp: content_at_def)
  have bound: "length (content_at h' (backup_path p i)) \<le> sl_max_size w" if "i < Suc k" for i
  proof (cases i)
    case 0
    with c0 content_at_length_le [OF assms(2)] show ?thesis by (simp add: p_def)
  next
    case (Suc j)
    with that cS assms(2) k show ?thesis by (simp add: log_ok_def p_def)
  qed
  have "[0..<Suc k] = 0 # List.map Suc [0..<k]" by (simp add: map_Suc_upt upt_conv_Cons del: upt_Suc)
  then have "retained w' h' = concat (List.map (\<lambda>i. content_at h' (backup_path p (Suc i))) (rev [0..<k])) @ content_at h p"
    by (simp add: retained_def w' k c0 cp flip: p_def rev_map del: upt_Suc)
      (simp add: rev_map [symmetric] c0 comp_def)
  also have "\<dots> = concat (List.map (\<lambda>i. content_at h (backup_path p i)) (rev [0..<k])) @ content_at h p"
    by (intro arg_cong2 [where f = "(@)"] arg_cong [where f = concat] map_cong) (auto simp: cS)
  finally have "retained w h = content_at h (backup_path p k) @ retained w' h'"
    by (simp add: retained_def k p_def)
  then have "suffix (retained w' h') (retained w h)" by (simp add: suffix_def)
  moreover have "log_ok w' h'"
    using fs bound assms(2) k by (auto simp: log_ok_def w' p_def)
  ultimately show ?thesis by (simp add: w')
qed

text \<open>Appending a chunk that fits.\<close>

lemma append_ok:
  assumes "log_ok w h" "sl_size w + length chunk \<le> sl_max_size w"
  defines "h' \<equiv> set_content (sl_path w) (\<lambda>s. s @ chunk) h"
    and "w' \<equiv> w\<lparr>sl_size := sl_size w + length chunk\<rparr>"
  shows "log_ok w' h' \<and> retained w' h' = retained w h @ chunk"
proof -
  obtain ino uid mode content where f: "h_fs h (sl_path w) = Some (File ino uid mode content)"
    "length content = sl_size w" using assms(1) by (auto simp: log_ok_def)
  have h': "h' = h\<lparr>h_fs := (h_fs h)(sl_path w \<mapsto> File ino uid mode (content @ chunk))\<rparr>"
    by (simp add: h'_def set_content_def f)
  have c: "content_at h' (sl_path w) = content_at h (sl_path w) @ chunk" by (simp add: content_at_def h' f)
  have b: "content_at h' (backup_path (sl_path w) i) = content_at h (backup_path (sl_path w) i)" for i
    by (simp add: content_at_def h')
  have "log_ok w' h'" using assms(1,2) f b by (auto simp: log_ok_def w'_def h')
  then show ?thesis by (simp add: retained_def w'_def c b)
qed

lemma write_loop_log:
  "log_ok w h \<Longrightarrow> \<exists>c e w' h'. write_loop w h input consumed = Some (c, e, w', h')
     \<and> c \<le> consumed + length input
     \<and> (e = None \<longrightarrow> c = consumed + length input \<and> log_ok w' h' \<and> sl_max_size w' = sl_max_size w
          \<and> sl_max_backups w' = sl_max_backups w \<and> suffix (retained w' h') (retained w h @ input))"
proof (induction input arbitrary: w h consumed rule: length_induct)
  case (1 input)
  show ?case
  proof (cases "input = []")
    case True
    with 1 show ?thesis by (subst write_loop.simps) simp
  next
    case nonempty: False
    obtain r w1 where step: "(if sl_size w = sl_max_size w then rotate w h else ((Inr (), h), w)) = (r, w1)"
      by fastforce
    show ?thesis
    proof (cases r)
      case (Pair res h1)
      show ?thesis
      proof (cases res)
        case (Inl e)
        with step Pair nonempty show ?thesis by (subst write_loop.simps) simp
      next
        case (Inr u)
        have w1: "log_ok w1 h1 \<and> sl_size w1 < sl_max_size w1 \<and> sl_max_size w1 = sl_max_size w
            \<and> sl_max_backups w1 = sl_max_backups w \<and> suffix (retained w1 h1) (retained w h)"
          using step Pair Inr rotate_ok [of w h h1 w1] 1(2) by (auto simp: log_ok_def split: if_splits)
        define chunk where "chunk = take (sl_max_size w1 - sl_size w1) input"
        have chunk: "0 < length chunk" "sl_size w1 + length chunk \<le> sl_max_size w1" "length chunk \<le> length input"
          using w1 nonempty by (auto simp: chunk_def)
        show ?thesis
        proof (cases "h_fault h1 SysWrite (sl_path w1)")
          case True
          with step Pair Inr nonempty show ?thesis by (subst write_loop.simps) simp
        next
          case False
          define w2 h2 where "w2 = w1\<lparr>sl_size := sl_size w1 + length chunk\<rparr>"
            and "h2 = set_content (sl_path w1) (\<lambda>s. s @ chunk) h1"
          have ok2: "log_ok w2 h2 \<and> retained w2 h2 = retained w1 h1 @ chunk"
            unfolding w2_def h2_def using append_ok [of w1 h1 chunk] w1 chunk(2) by blast
          have split: "chunk @ drop (length chunk) input = input" by (auto simp: chunk_def min_def)
          have shorter: "length (drop (length chunk) input) < length input"
            using chunk(1,3) by (simp only: length_drop)
          have "write_loop w h input consumed
              = write_loop w2 h2 (drop (length chunk) input) (consumed + length chunk)"
            using step Pair Inr nonempty False
            by (subst write_loop.simps) (simp add: chunk_def w2_def h2_def Let_def)
          moreover obtain c e w' h' where
            rec: "write_loop w2 h2 (drop (length chunk) input) (consumed + length chunk) = Some (c, e, w', h')"
            and le: "c \<le> consumed + length chunk + length (drop (length chunk) input)"
            and fin: "e = None \<longrightarrow> c = consumed + length chunk + length (drop (length chunk) input)
              \<and> log_ok w' h' \<and> sl_max_size w' = sl_max_size w2 \<and> sl_max_backups w' = sl_max_backups w2
              \<and> suffix (retained w' h') (retained w2 h2 @ drop (length chunk) input)"
            using 1(1) shorter ok2 by blast
          moreover have "suffix (retained w2 h2 @ drop (length chunk) input) (retained w h @ input)"
            using ok2 w1 split by (auto simp: suffix_def)
          ultimately show ?thesis
            using chunk(3) w1 by (auto simp: w2_def intro: suffix_order.trans)
        qed
      qed
    qed
  qed
qed

lemma retained_length:
  assumes "log_ok w h"
  shows "length (retained w h) \<le> (sl_max_backups w + 1) * sl_max_size w"
proof -
  have "sum_list (List.map (\<lambda>i. length (content_at h (backup_path (sl_path w) i))) is) \<le> length is * sl_max_size w"
    if "set is \<subseteq> {..<sl_max_backups w}" for "is"
    using that assms by (induction "is") (auto simp: log_ok_def add_mono)
  from this [of "rev [0..<sl_max_backups w]"]
  have "length (concat (List.map (\<lambda>i. content_at h (backup_path (sl_path w) i)) (rev [0..<sl_max_backups w])))
      \<le> sl_max_backups w * sl_max_size w"
    by (simp add: length_concat comp_def atLeast0LessThan)
  with content_at_length_le [OF assms] show ?thesis by (simp add: retained_def)
qed

section \<open>Opening establishes the invariant\<close>

lemma prune_backups_small:
  assumes "prune_backups path m n i h = (Inr (), h')"
    and "\<forall>j < i. length (content_at h (backup_path path j)) \<le> m"
  shows "\<forall>j < max i n. length (content_at h' (backup_path path j)) \<le> m"
  using assms
proof (induction path m n i h rule: prune_backups.induct)
  case (1 path m n i h)
  show ?case
  proof (cases "n \<le> i")
    case True
    with "1.prems" show ?thesis by (simp add: prune_backups.simps max_def)
  next
    case False
    then have eq: "prune_backups path m n i h = (case inspectSerialLogFile h (backup_path path i) of
        Inl e \<Rightarrow> (Inl e, h)
      | Inr info \<Rightarrow>
          if (case info of None \<Rightarrow> False | Some sz \<Rightarrow> m < sz)
          then then_do (wrap_err (SerialRemove (backup_path path i)) (remove_at h (backup_path path i)))
                 (\<lambda>_ h1. prune_backups path m n (Suc i) h1)
          else prune_backups path m n (Suc i) h)"
      by (subst prune_backups.simps) simp
    from False have max: "max i n = max (Suc i) n" by simp
    from eq "1.prems"(1) obtain info where info: "inspectSerialLogFile h (backup_path path i) = Inr info"
      by (auto split: sum.splits)
    show ?thesis
    proof (cases "case info of None \<Rightarrow> False | Some sz \<Rightarrow> m < sz")
      case big: True
      with eq info "1.prems"(1) obtain h1 where rm: "remove_at h (backup_path path i) = (Inr (), h1)"
        and rest: "prune_backups path m n (Suc i) h1 = (Inr (), h')"
        by (auto simp: then_do_Inr wrap_err_def split: sum.splits prod.splits)
      have h1: "h_fs h1 = (h_fs h)(backup_path path i := None)"
        using rm by (auto simp: remove_at_def split: if_splits)
      have "\<forall>j < Suc i. length (content_at h1 (backup_path path j)) \<le> m"
        using "1.prems"(2) by (auto simp: less_Suc_eq content_at_def h1 backup_path_inj)
      from "1.IH"(1) [OF False info big rest this] max show ?thesis by simp
    next
      case small: False
      with eq info "1.prems"(1) have rest: "prune_backups path m n (Suc i) h = (Inr (), h')" by auto
      have "length (content_at h (backup_path path i)) \<le> m"
        using info small
        by (auto simp: inspectSerialLogFile_def content_at_def lstat_def split: option.splits node.splits if_splits)
      with "1.prems"(2) have "\<forall>j < Suc i. length (content_at h (backup_path path j)) \<le> m"
        by (auto simp: less_Suc_eq)
      from "1.IH"(2) [OF False info small rest this] max show ?thesis by simp
    qed
  qed
qed

lemma open_secure_ok:
  assumes "openSecureSerialLog h path = (Inr sz, h')"
  shows "\<exists>ino uid mode content. h_fs h' path = Some (File ino uid mode content) \<and> length content = sz
    \<and> (\<forall>q. q \<noteq> path \<longrightarrow> h_fs h' q = h_fs h q)"
  using assms by (auto simp: openSecureSerialLog_def Let_def split: option.splits node.splits if_splits)

lemma open_log_ok:
  assumes "openRotatingSerialLog h path m n = (Inr w, h')"
  shows "log_ok w h' \<and> sl_path w = path \<and> sl_max_size w = m \<and> sl_max_backups w = n"
proof -
  let ?b = "backup_path path"
  from assms have pos: "0 < m" "0 < n" by (auto simp: openRotatingSerialLog_def split: if_splits)
  from assms pos obtain h1 where prune: "prune_backups path m n 0 h = (Inr (), h1)"
    and rest1: "(case inspectSerialLogFile h1 (?b n) of
            Inl e \<Rightarrow> (Inl e, h1)
          | Inr info \<Rightarrow>
              then_do (if info = None then (Inr (), h1) else wrap_err (SerialRemove (?b n)) (remove_at h1 (?b n)))
                (\<lambda>_ h2. open_active h2 path m n)) = (Inr w, h')"
    unfolding openRotatingSerialLog_def Let_def
    by (auto simp: then_do_Inr split: option.splits if_splits)
  then obtain info :: "nat option" and h2 where
    gone: "(if info = None then (Inr (), h1) else wrap_err (SerialRemove (?b n)) (remove_at h1 (?b n))) = (Inr (), h2)"
    and rest2: "open_active h2 path m n = (Inr w, h')"
    by (simp add: then_do_Inr split: sum.splits) metis
  have stale: "h_fs h2 = h_fs h1 \<or> h_fs h2 = (h_fs h1)(?b n := None)"
    using gone by (auto simp: wrap_err_def remove_at_def split: if_splits prod.splits sum.splits)
  from rest2 obtain sz h3 where op: "openSecureSerialLog h2 path = (Inr sz, h3)"
    and fin: "m < sz \<longrightarrow> h' = set_content path (\<lambda>_. []) h3" "\<not> m < sz \<longrightarrow> h' = h3"
      "w = \<lparr>sl_path = path, sl_open = True, sl_size = (if m < sz then 0 else sz),
        sl_max_size = m, sl_max_backups = n\<rparr>"
    by (auto simp: open_active_def Let_def then_do_Inr split: if_splits)
  have small1: "length (content_at h1 (?b i)) \<le> m" if "i < n" for i
    using prune_backups_small [OF prune] that by simp
  have small2: "length (content_at h2 (?b i)) \<le> m" if "i < n" for i
    using small1 [OF that] stale that by (auto simp: content_at_def backup_path_inj)
  from open_secure_ok [OF op] obtain ino uid mode content where
    f: "h_fs h3 path = Some (File ino uid mode content)" "length content = sz"
    and others: "\<forall>q. q \<noteq> path \<longrightarrow> h_fs h3 q = h_fs h2 q" by blast
  have small3: "length (content_at h3 (?b i)) \<le> m" if "i < n" for i
    using small2 [OF that] others by (simp add: content_at_def)
  show ?thesis
  proof (cases "m < sz")
    case True
    with fin f small3 pos show ?thesis
      by (auto simp: log_ok_def set_content_def content_at_def)
  next
    case False
    with fin f small3 pos show ?thesis by (auto simp: log_ok_def)
  qed
qed

section \<open>Properties\<close>

text \<open>A host with the state directory \<open>/s\<close>, a log of three bytes and one backup.\<close>

definition sample_serial_host :: host where
  "sample_serial_host =
     \<lparr>h_fs = [''/s'' \<mapsto> Dir 501 mode_dir, ''/s/l'' \<mapsto> File 1 501 mode_file ''abc'',
              ''/s/l.0'' \<mapsto> File 2 501 mode_file ''xyz''],
      h_locks = {}, h_inode = 3, h_uid = 501, h_fault = \<lambda>_ _. False\<rparr>"

definition sample_serial_log :: rotatingSerialLog where
  "sample_serial_log = \<lparr>sl_path = ''/s/l'', sl_open = True, sl_size = 3, sl_max_size = 4, sl_max_backups = 2\<rparr>"

lemma sample_serial_open:
  "openRotatingSerialLog sample_serial_host ''/s/l'' 4 2 = (Inr sample_serial_log, sample_serial_host)"
  by (simp add: openRotatingSerialLog_def sample_serial_host_def sample_serial_log_def prune_backups.simps
      backup_path_def itoa.simps digit_char_def char_of_def open_active_def Let_def inspectSerialLogDirectory_def inspectSerialLogFile_def openSecureSerialLog_def
      lstat_def parent_dir_def mode_dir_def mode_file_def)

lemma sample_serial_retained: "retained sample_serial_log sample_serial_host = ''xyzabc''"
  by code_simp

text \<open>C25. A log that opened can be written to: every write returns, within the input's length, so the
  loop that fills the active file and rotates never runs forever.\<close>

theorem serial_write_terminates:
  assumes "openRotatingSerialLog h path max_size max_backups = (Inr w, h1)"
  shows "\<exists>c e w' h'. serial_write w h1 input = Some (c, e, w', h') \<and> c \<le> length input"
  using write_loop_log [of w h1 input 0] open_log_ok [OF assms] by (auto simp: serial_write_def)

theorem serial_write_terminates_witness:
  "\<exists>c e w' h'. serial_write sample_serial_log sample_serial_host ''defghij'' = Some (c, e, w', h') \<and> c \<le> length ''defghij''"
  by (rule serial_write_terminates [OF sample_serial_open])

text \<open>C24. A write without error consumed the whole input, left every file within the maximum and so the
  log within its total, and what is retained is an unbroken suffix of everything logged.\<close>

theorem serial_log_bounded_suffix:
  assumes "log_ok w h" and "serial_write w h input = Some (c, None, w', h')"
  shows "c = length input \<and> log_ok w' h'
    \<and> length (retained w' h') \<le> (sl_max_backups w + 1) * sl_max_size w
    \<and> suffix (retained w' h') (retained w h @ input)"
proof -
  from write_loop_log [OF assms(1), of input 0] assms(2)
  have "c = length input \<and> log_ok w' h' \<and> sl_max_size w' = sl_max_size w
      \<and> sl_max_backups w' = sl_max_backups w \<and> suffix (retained w' h') (retained w h @ input)"
    by (auto simp: serial_write_def)
  then show ?thesis using retained_length [of w' h'] by simp
qed

lemma sample_serial_write:
  "map_option (\<lambda>(c, e, w', h'). (c, e = None, retained w' h'))
     (serial_write sample_serial_log sample_serial_host ''defghij'') = Some (7, True, ''abcdefghij'')"
  by code_simp

theorem serial_log_bounded_suffix_witness:
  "\<exists>w' h'. serial_write sample_serial_log sample_serial_host ''defghij'' = Some (7, None, w', h')
     \<and> length (retained w' h') \<le> 12 \<and> suffix (retained w' h') (''xyzabc'' @ ''defghij'')"
proof -
  obtain w' h' where run: "serial_write sample_serial_log sample_serial_host ''defghij'' = Some (7, None, w', h')"
    using sample_serial_write by auto
  have "log_ok sample_serial_log sample_serial_host" using open_log_ok [OF sample_serial_open] by simp
  from serial_log_bounded_suffix [OF this run] run show ?thesis
    by (auto simp: sample_serial_retained)
     (simp add: sample_serial_log_def)
qed

end
