(* ===== verification/Backend.thy ===== *)
theory Backend
  imports Prelude
begin

text \<open>
  \<open>internal/backend/backend.go\<close>: path resolution, the rendered command, and the registry of
  backend constructors with the contract its clients rely on. \<open>Clean\<close> and \<open>path_join\<close> are the
  lexical path operations of \<open>path/filepath\<close> on a Unix host.
\<close>

section \<open>Lexical paths\<close>

text \<open>One path component against the reversed stack of the kept ones.\<close>

fun clean_step :: "bool \<Rightarrow> string list \<Rightarrow> string \<Rightarrow> string list" where
  "clean_step rooted stack w =
     (if w = [] \<or> w = ''.'' then stack
      else if w = ''..'' then
        (case stack of
           [] \<Rightarrow> if rooted then [] else [''..'']
         | t # rest \<Rightarrow> if t = ''..'' then ''..'' # stack else rest)
      else w # stack)"

definition Clean :: "string \<Rightarrow> string" where
  "Clean p =
     (if p = [] then ''.''
      else let rooted = is_abs_path p;
               ws = rev (foldl (clean_step rooted) [] (split_on CHR ''/'' p))
           in if rooted then CHR ''/'' # join_with ''/'' ws
              else if ws = [] then ''.'' else join_with ''/'' ws)"

definition path_join :: "string \<Rightarrow> string \<Rightarrow> string" where
  "path_join a b =
     (if a = [] then (if b = [] then [] else Clean b) else Clean (a @ ''/'' @ b))"

definition ResolvePath :: "string \<Rightarrow> string \<Rightarrow> string" where
  "ResolvePath vmDir configuredPath =
     (if is_abs_path configuredPath then Clean configuredPath else path_join vmDir configuredPath)"

definition plain_component :: "string \<Rightarrow> bool" where
  "plain_component w \<longleftrightarrow> w \<noteq> [] \<and> w \<noteq> ''.'' \<and> w \<noteq> ''..'' \<and> CHR ''/'' \<notin> set w"

lemma is_abs_path_iff: "is_abs_path p \<longleftrightarrow> (\<exists>q. p = CHR ''/'' # q)"
  by (auto simp: is_abs_path_def has_prefix_iff)

lemma clean_step_plain:
  "list_all plain_component stack \<Longrightarrow> CHR ''/'' \<notin> set w \<Longrightarrow> list_all plain_component (clean_step True stack w)"
  by (auto simp: plain_component_def split: list.splits)

lemma fold_clean_plain:
  "list_all plain_component stack \<Longrightarrow> (\<forall>w \<in> set ws. CHR ''/'' \<notin> set w)
   \<Longrightarrow> list_all plain_component (foldl (clean_step True) stack ws)"
  by (induction ws arbitrary: stack) (auto simp del: clean_step.simps intro: clean_step_plain)

text \<open>A clean absolute path is a slash and plain components.\<close>

lemma Clean_abs_shape:
  assumes "is_abs_path p"
  shows "\<exists>ws. list_all plain_component ws \<and> Clean p = CHR ''/'' # join_with ''/'' ws"
proof -
  let ?ws = "rev (foldl (clean_step True) [] (split_on CHR ''/'' p))"
  have "list_all plain_component ?ws"
    using fold_clean_plain [of "[]" "split_on CHR ''/'' p"] split_on_no_sep by (auto simp: list_all_rev)
  moreover have "Clean p = CHR ''/'' # join_with ''/'' ?ws"
    using assms by (auto simp: Clean_def is_abs_path_iff Let_def)
  ultimately show ?thesis by blast
qed

lemma Clean_abs [simp]: "is_abs_path p \<Longrightarrow> is_abs_path (Clean p)"
  using Clean_abs_shape [of p] by (auto simp: is_abs_path_iff)

lemma fold_clean_id:
  "list_all plain_component ws \<Longrightarrow> foldl (clean_step r) stack ws = rev ws @ stack"
  by (induction ws arbitrary: stack) (auto simp: plain_component_def)

lemma Clean_plain:
  assumes "list_all plain_component ws"
  shows "Clean (CHR ''/'' # join_with ''/'' ws) = CHR ''/'' # join_with ''/'' ws"
proof (cases "ws = []")
  case True
  then show ?thesis by (simp add: Clean_def is_abs_path_iff)
next
  case False
  then have "split_on CHR ''/'' (CHR ''/'' # join_with ''/'' ws) = [] # ws"
    using assms split_join [of ws "CHR ''/''"] by (auto simp: list_all_iff plain_component_def)
  then show ?thesis
    using fold_clean_id [OF assms] by (simp add: Clean_def is_abs_path_iff)
qed

lemma Clean_idem: "is_abs_path p \<Longrightarrow> Clean (Clean p) = Clean p"
  using Clean_abs_shape [of p] Clean_plain by auto

lemma ResolvePath_abs [simp]: "is_abs_path d \<Longrightarrow> is_abs_path (ResolvePath d p)"
  by (auto simp: ResolvePath_def path_join_def is_abs_path_iff)
     (use Clean_abs in \<open>auto simp: is_abs_path_iff\<close>)

section \<open>The rendered command\<close>

record RuntimePaths =
  rp_vm_dir :: string
  rp_qmp :: string
  rp_qmp_command :: string
  rp_qga :: string
  rp_console :: string
  rp_monitor :: string
  rp_qemu_log :: string
  rp_serial_log_pipe :: string
  rp_vnc_secret :: string

record Command =
  cmd_path :: string
  cmd_args :: "string list"

section \<open>The registry\<close>

text \<open>A factory is what calling it gives: an error, or an instance that may be nil.\<close>

type_synonym 'b factory = "string + 'b option"
type_synonym 'b Registry = "string \<rightharpoonup> 'b factory"

datatype registry_error =
    EmptyBackendName | NilFactory string | AlreadyRegistered string | NilInstance string
  | BackendUnavailable string | FactoryFailed string string | FactoryReturnedNil string

definition Register :: "'b Registry \<Rightarrow> string \<Rightarrow> 'b factory option \<Rightarrow> registry_error + 'b Registry" where
  "Register r name factory =
     (if name = [] then Inl EmptyBackendName
      else case factory of
        None \<Rightarrow> Inl (NilFactory name)
      | Some f \<Rightarrow> if r name \<noteq> None then Inl (AlreadyRegistered name) else Inr (r(name \<mapsto> f)))"

definition RegisterInstance :: "'b Registry \<Rightarrow> string \<Rightarrow> 'b option \<Rightarrow> registry_error + 'b Registry" where
  "RegisterInstance r name inst =
     (case inst of None \<Rightarrow> Inl (NilInstance name) | Some b \<Rightarrow> Register r name (Some (Inr (Some b))))"

definition Lookup :: "'b Registry \<Rightarrow> string \<Rightarrow> registry_error + 'b" where
  "Lookup r name =
     (case r name of
        None \<Rightarrow> Inl (BackendUnavailable name)
      | Some (Inl e) \<Rightarrow> Inl (FactoryFailed name e)
      | Some (Inr None) \<Rightarrow> Inl (FactoryReturnedNil name)
      | Some (Inr (Some b)) \<Rightarrow> Inr b)"

text \<open>Registrations in order, up to the first that is refused.\<close>

fun register_all ::
  "('r \<Rightarrow> string \<Rightarrow> 'b option \<Rightarrow> 'e + 'r) \<Rightarrow> (string \<times> 'b option) list \<Rightarrow> 'r \<Rightarrow> 'e + 'r" where
  "register_all reg [] r = Inr r"
| "register_all reg ((n, x) # regs) r =
     (case reg r n x of Inl e \<Rightarrow> Inl e | Inr r' \<Rightarrow> register_all reg regs r')"

text \<open>What the supervisor relies on: a successful registration is found, no other name changes, and a
  name that resolves is never replaced.\<close>

locale registrar =
  fixes reg :: "'r \<Rightarrow> string \<Rightarrow> 'b option \<Rightarrow> 'e + 'r" and look :: "'r \<Rightarrow> string \<Rightarrow> 'e + 'b"
  assumes look_same: "reg r n (Some b) = Inr r' \<Longrightarrow> look r' n = Inr b"
    and look_other: "reg r n x = Inr r' \<Longrightarrow> m \<noteq> n \<Longrightarrow> look r' m = look r m"
    and no_overwrite: "look r n = Inr b \<Longrightarrow> \<exists>e. reg r n x = Inl e"
begin

lemma keeps_resolved: "look r n = Inr b \<Longrightarrow> reg r m x = Inr r' \<Longrightarrow> look r' n = Inr b"
  using look_other [of r m x r' n] no_overwrite [of r n b x] by (cases "m = n") auto

lemma stays_resolved:
  "register_all reg regs r = Inr r' \<Longrightarrow> look r n = Inr b \<Longrightarrow> look r' n = Inr b"
  by (induction regs arbitrary: r) (auto split: sum.splits, metis keeps_resolved)

end

interpretation backends: registrar "RegisterInstance" "Lookup :: 'b Registry \<Rightarrow> string \<Rightarrow> registry_error + 'b"
proof
  fix r :: "'b Registry" and n m b x r'
  show "RegisterInstance r n (Some b) = Inr r' \<Longrightarrow> Lookup r' n = Inr b"
    by (auto simp: RegisterInstance_def Register_def Lookup_def split: if_splits)
  show "RegisterInstance r n x = Inr r' \<Longrightarrow> m \<noteq> n \<Longrightarrow> Lookup r' m = Lookup r m"
    by (auto simp: RegisterInstance_def Register_def Lookup_def split: if_splits option.splits)
  show "Lookup r n = Inr b \<Longrightarrow> \<exists>e. RegisterInstance r n x = Inl e"
    by (auto simp: RegisterInstance_def Register_def Lookup_def split: if_splits option.splits)
qed

end
