(* ===== verification/Command.thy ===== *)
theory Command
  imports Backend Model "HOL-Library.List_Lexorder" "HOL-Library.Char_ord"
    "HOL-Library.Product_Lexorder" "HOL-Library.Multiset"
begin

text \<open>
  \<open>internal/qemu/command.go\<close>: the argument vector of QEMU, rendered from a configuration and the
  runtime paths. Each group of arguments has its definition, in the order \<open>Render\<close> appends them.
\<close>

section \<open>Escaping and ordering\<close>

text \<open>\<open>strings.ReplaceAll(value, ",", ",,")\<close>.\<close>

fun keyval :: "string \<Rightarrow> string" where
  "keyval [] = []"
| "keyval (c # s) = (if c = CHR '','' then '',,'' @ keyval s else c # keyval s)"

definition forward_less :: "PortForward \<Rightarrow> PortForward \<Rightarrow> bool" where
  "forward_less a b =
     (if fwd_protocol a \<noteq> fwd_protocol b then fwd_protocol a < fwd_protocol b
      else if fwd_host_address a \<noteq> fwd_host_address b then fwd_host_address a < fwd_host_address b
      else if fwd_host_port a \<noteq> fwd_host_port b then fwd_host_port a < fwd_host_port b
      else fwd_guest_port a < fwd_guest_port b)"

definition forward_order :: "PortForward \<Rightarrow> string \<times> string \<times> u16 \<times> u16" where
  "forward_order f = (fwd_protocol f, fwd_host_address f, fwd_host_port f, fwd_guest_port f)"

definition sortedForwards :: "PortForward list \<Rightarrow> PortForward list" where
  "sortedForwards fs = sort_key forward_order fs"

lemma forward_less_key: "forward_less a b \<longleftrightarrow> forward_order a < forward_order b"
  by (auto simp: forward_less_def forward_order_def)

lemma forward_order_inj: "forward_order a = forward_order b \<longleftrightarrow> a = b"
  by (cases a, cases b) (auto simp: forward_order_def)

text \<open>The sorted list is ordered by the comparison of the code, and is the same for every order of
  the configuration.\<close>

lemma sortedForwards_sorted: "sorted_wrt (\<lambda>a b. \<not> forward_less b a) (sortedForwards fs)"
proof -
  have "sorted (List.map forward_order (sortedForwards fs))" by (simp add: sortedForwards_def)
  then show ?thesis by (simp add: sorted_wrt_map forward_less_key not_less)
qed

lemma sortedForwards_mset: "mset fs = mset gs \<Longrightarrow> sortedForwards fs = sortedForwards gs"
proof -
  assume "mset fs = mset gs"
  then have "mset (List.map forward_order (sortedForwards fs)) = mset (List.map forward_order (sortedForwards gs))"
    by (simp add: sortedForwards_def)
  moreover have "sorted (List.map forward_order (sortedForwards hs))" for hs
    by (simp add: sortedForwards_def)
  ultimately have "List.map forward_order (sortedForwards fs) = List.map forward_order (sortedForwards gs)"
    by (metis properties_for_sort)
  moreover have "inj forward_order" by (simp add: inj_def forward_order_inj)
  ultimately show ?thesis by (metis inj_map_eq_map)
qed

section \<open>Rendering\<close>

datatype render_error =
    BinaryNotAbsolute | QMPCommandNotAbsolute | MonitorNotAbsolute | ConsoleNotAbsolute
  | SerialLogPipeNotAbsolute | VNCSecretNotAbsolute | VMNetForwards | VMNetMissing
  | VMNetClientNotAbsolute | VMNetSocketNotAbsolute | VMNetInterfaceEmpty | UnsupportedNetwork string

definition validateSocketVMNet :: "NetworkConfig \<Rightarrow> render_error + SocketVMNetConfig" where
  "validateSocketVMNet network =
     (if net_forwards network \<noteq> [] then Inl VMNetForwards
      else case net_socket_vmnet network of
        None \<Rightarrow> Inl VMNetMissing
      | Some bridge \<Rightarrow>
          if \<not> is_abs_path (svm_client_path bridge) then Inl VMNetClientNotAbsolute
          else if \<not> is_abs_path (svm_socket_path bridge) then Inl VMNetSocketNotAbsolute
          else if svm_interface bridge = [] then Inl VMNetInterfaceEmpty
          else Inr bridge)"

definition effectiveMachine :: "string \<Rightarrow> string" where
  "effectiveMachine configured = (if configured = [] then ''virt'' else configured)"

definition base_args :: "Config \<Rightarrow> bool \<Rightarrow> string list" where
  "base_args c boot_menu =
     [''-nodefaults'', ''-display'', ''none'',
      ''-machine'', effectiveMachine (qemu_machine (cfg_qemu c)),
      ''-accel'', ''hvf'', ''-cpu'', ''host'',
      ''-smp'', ''cpus='' @ itoa_int (cfg_cpus c) @ '',sockets=1,cores='' @ itoa_int (cfg_cpus c) @ '',threads=1'',
      ''-m'', itoa_int (cfg_memory_mib c),
      ''-name'', keyval (cfg_name c),
      ''-uuid'', cfg_uuid c,
      ''-run-with'', ''exit-with-parent=on'']
     @ (if qemu_rtc_base (cfg_qemu c) \<noteq> [] then [''-rtc'', ''base='' @ qemu_rtc_base (cfg_qemu c)] else [])
     @ (if boot_menu then [''-boot'', ''menu=on''] else [])"

definition firmware_args :: "string \<Rightarrow> FirmwareConfig \<Rightarrow> string list" where
  "firmware_args vm fw =
     [''-drive'', ''if=pflash,unit=0,format=raw,readonly=on,file.locking=off,file.filename='' @ keyval (ResolvePath vm (fw_code fw)),
      ''-drive'', ''if=pflash,unit=1,format=raw,file.filename='' @ keyval (ResolvePath vm (fw_variables fw))]"

definition disk_id :: "nat \<Rightarrow> string" where "disk_id i = ''disk'' @ itoa i"

definition disk_drive :: "string \<Rightarrow> nat \<Rightarrow> DiskConfig \<Rightarrow> string" where
  "disk_drive vm i d =
     ''if=none,media=disk,id='' @ disk_id i @ '',file.filename='' @ keyval (ResolvePath vm (disk_path d))
     @ '',format='' @ keyval (disk_format d) @ '',aio=threads''
     @ (if disk_cache d \<noteq> [] then '',cache='' @ keyval (disk_cache d) else [])
     @ (if disk_read_only d then '',readonly=on'' else '',discard=unmap,detect-zeroes=unmap'')"

definition disk_device :: "nat \<Rightarrow> DiskConfig \<Rightarrow> string" where
  "disk_device i d =
     ''virtio-blk-pci,drive='' @ disk_id i @ '',serial='' @ keyval (disk_serial d)
     @ '',bootindex='' @ itoa_int (disk_boot_index d)"

fun disk_args :: "string \<Rightarrow> nat \<Rightarrow> DiskConfig list \<Rightarrow> string list" where
  "disk_args vm i [] = []"
| "disk_args vm i (d # ds) =
     [''-drive'', disk_drive vm i d, ''-device'', disk_device i d] @ disk_args vm (Suc i) ds"

definition installer_drive :: "string \<Rightarrow> InstallerConfig \<Rightarrow> string" where
  "installer_drive vm inst =
     ''if=none,media=cdrom,id=install,file.filename='' @ keyval (ResolvePath vm (inst_path inst)) @ '',format=raw,readonly=on''"

definition installer_args :: "string \<Rightarrow> InstallerConfig option \<Rightarrow> string list" where
  "installer_args vm x =
     (case x of
        None \<Rightarrow> []
      | Some inst \<Rightarrow>
          [''-device'', ''virtio-scsi-pci,id=scsi0'', ''-drive'', installer_drive vm inst,
           ''-device'', ''scsi-cd,drive=install,bus=scsi0.0,bootindex='' @ itoa_int (inst_boot_index inst)])"

definition socket_chardev :: "string \<Rightarrow> string \<Rightarrow> string" where
  "socket_chardev name path = ''socket,id='' @ name @ '',path='' @ keyval path @ '',server=on,wait=off''"

definition channel_args :: "RuntimePaths \<Rightarrow> string list" where
  "channel_args paths =
     [''-chardev'', socket_chardev ''console0'' (rp_console paths) @ '',logfile='' @ keyval (rp_serial_log_pipe paths) @ '',logappend=on'',
      ''-serial'', ''chardev:console0'',
      ''-qmp'', ''unix:'' @ keyval (rp_qmp paths) @ '',server=on,wait=off'',
      ''-chardev'', socket_chardev ''qmpcommand0'' (rp_qmp_command paths),
      ''-mon'', ''chardev=qmpcommand0,mode=control'',
      ''-chardev'', socket_chardev ''monitor0'' (rp_monitor paths),
      ''-mon'', ''chardev=monitor0,mode=readline'']"

definition vnc_display :: "VNCConfig \<Rightarrow> string" where
  "vnc_display v =
     vnc_bind v @ '':'' @ itoa_int (int (unat (vnc_port v)) - 5900) @ '',to='' @ itoa_int (int (unat (vnc_port_to v)) - 5900)
     @ '',password-secret=vnc-password''"

definition vnc_secret_object :: "RuntimePaths \<Rightarrow> string" where
  "vnc_secret_object paths = ''secret,id=vnc-password,file='' @ keyval (rp_vnc_secret paths)"

definition display_args :: "Config \<Rightarrow> RuntimePaths \<Rightarrow> render_error + string list" where
  "display_args c paths =
     (case cfg_vnc c of
        Some v \<Rightarrow>
          if \<not> is_abs_path (rp_vnc_secret paths) then Inl VNCSecretNotAbsolute
          else Inr ([''-device'', ''virtio-gpu-pci'', ''-device'', ''nec-usb-xhci,id=usb'',
                     ''-device'', ''usb-kbd,bus=usb.0'', ''-device'', ''usb-tablet,bus=usb.0'',
                     ''-object'', vnc_secret_object paths, ''-vnc'', vnc_display v]
                    @ (if vnc_keyboard_layout v \<noteq> [] then [''-k'', vnc_keyboard_layout v] else []))
      | None \<Rightarrow> Inr (if cfg_usb c \<noteq> [] then [''-device'', ''nec-usb-xhci,id=usb''] else []))"

definition usb_device :: "nat \<Rightarrow> USBDeviceConfig \<Rightarrow> string" where
  "usb_device i usb =
     ''usb-host,id=usb-host'' @ itoa i @ '',bus=usb.0''
     @ (if usb_vendor_id usb \<noteq> [] \<or> usb_product_id usb \<noteq> []
        then '',vendorid=0x'' @ keyval (usb_vendor_id usb) @ '',productid=0x'' @ keyval (usb_product_id usb)
        else '',hostbus='' @ itoa_int (usb_host_bus usb) @ '',hostaddr='' @ itoa_int (usb_host_address usb))"

fun usb_args :: "nat \<Rightarrow> USBDeviceConfig list \<Rightarrow> string list" where
  "usb_args i [] = []"
| "usb_args i (u # us) = [''-device'', usb_device i u] @ usb_args (Suc i) us"

definition agent_args :: "Config \<Rightarrow> RuntimePaths \<Rightarrow> string list" where
  "agent_args c paths =
     (if cfg_guest_agent_enabled c
      then [''-device'', ''virtio-serial-pci'', ''-chardev'', socket_chardev ''qga0'' (rp_qga paths),
            ''-device'', ''virtserialport,chardev=qga0,name=org.qemu.guest_agent.0'']
      else [])"

definition hostfwd :: "PortForward \<Rightarrow> string" where
  "hostfwd f = '',hostfwd='' @ keyval (fwd_protocol f) @ '':'' @ keyval (fwd_host_address f) @ '':''
     @ itoa (unat (fwd_host_port f)) @ ''-:'' @ itoa (unat (fwd_guest_port f))"

definition user_netdev :: "NetworkConfig \<Rightarrow> string" where
  "user_netdev n =
     ''user,id=net0'' @ concat (List.map hostfwd (sortedForwards (net_forwards n)))
     @ (if net_smb_folder n \<noteq> [] then '',smb='' @ keyval (net_smb_folder n) else [])"

definition net_device :: "NetworkConfig \<Rightarrow> string" where
  "net_device n = ''virtio-net-pci,netdev=net0,mac='' @ keyval (net_mac n)"

text \<open>The command path and the arguments around the network device.\<close>

definition with_network :: "NetworkConfig \<Rightarrow> string \<Rightarrow> string list \<Rightarrow> render_error + string \<times> string list" where
  "with_network n qemuPath args =
     (if net_mode n = NetworkUser
      then Inr (qemuPath, args @ [''-netdev'', user_netdev n, ''-device'', net_device n])
      else if net_mode n = NetworkSocketVMNet
      then bindE (validateSocketVMNet n) (\<lambda>bridge.
             Inr (Clean (svm_client_path bridge),
                  [Clean (svm_socket_path bridge), qemuPath]
                  @ args @ [''-netdev'', ''socket,id=net0,fd=3'', ''-device'', net_device n]))
      else Inl (UnsupportedNetwork (net_mode n)))"

definition Render :: "Config \<Rightarrow> RuntimePaths \<Rightarrow> bool \<Rightarrow> render_error + Command" where
  "Render c paths boot_menu =
     (let vm = rp_vm_dir paths; qemuPath = ResolvePath vm (qemu_binary (cfg_qemu c)) in
      if \<not> is_abs_path qemuPath then Inl BinaryNotAbsolute
      else if \<not> is_abs_path (rp_qmp_command paths) then Inl QMPCommandNotAbsolute
      else if \<not> is_abs_path (rp_monitor paths) then Inl MonitorNotAbsolute
      else if \<not> is_abs_path (rp_console paths) then Inl ConsoleNotAbsolute
      else if \<not> is_abs_path (rp_serial_log_pipe paths) then Inl SerialLogPipeNotAbsolute
      else bindE (display_args c paths) (\<lambda>display.
           bindE (with_network (cfg_network c) qemuPath
                    (base_args c boot_menu @ firmware_args vm (cfg_firmware c) @ disk_args vm 0 (cfg_disks c)
                     @ [''-device'', ''virtio-rng-pci''] @ installer_args vm (cfg_installer c)
                     @ channel_args paths @ display @ usb_args 0 (cfg_usb c) @ agent_args c paths)) (\<lambda>(path, args).
           Inr \<lparr>cmd_path = path, cmd_args = args @ qemu_extra_args (cfg_qemu c)\<rparr>)))"

section \<open>QEMU's option syntax\<close>

text \<open>The fields of an option as QEMU reads them: a single comma separates, a doubled one is literal.\<close>

definition prepend :: "string \<Rightarrow> string list \<Rightarrow> string list" where
  "prepend w ts = (case ts of [] \<Rightarrow> [w] | f # fs \<Rightarrow> (w @ f) # fs)"

fun qemu_fields :: "string \<Rightarrow> string list" where
  "qemu_fields [] = [[]]"
| "qemu_fields (c # s) =
     (if c \<noteq> CHR '','' then prepend [c] (qemu_fields s)
      else case s of
        [] \<Rightarrow> [[], []]
      | d # t \<Rightarrow> if d = CHR '','' then prepend [d] (qemu_fields t) else [] # qemu_fields s)"

lemma prepend_simps [simp]:
  "prepend w (f # fs) = (w @ f) # fs" "prepend v (prepend w fs) = prepend (v @ w) fs"
  "prepend [] (f # fs) = f # fs"
  by (auto simp: prepend_def split: list.splits)

lemma qemu_fields_not_Nil [simp]: "qemu_fields s \<noteq> []"
  by (induction s rule: qemu_fields.induct) (auto simp: prepend_def split: list.splits)

lemma prepend_Nil_fields [simp]: "prepend [] (qemu_fields s) = qemu_fields s"
  by (cases "qemu_fields s") (auto simp: prepend_def)

lemma qemu_fields_keyval: "qemu_fields (keyval v @ s) = prepend v (qemu_fields s)"
  by (induction v) auto

lemma qemu_fields_keyval_end: "qemu_fields (keyval v) = [v]"
  using qemu_fields_keyval [of v "[]"] by simp

lemma qemu_fields_plain: "CHR '','' \<notin> set w \<Longrightarrow> qemu_fields (w @ s) = prepend w (qemu_fields s)"
  by (induction w) auto

lemma qemu_fields_plain_end: "CHR '','' \<notin> set w \<Longrightarrow> qemu_fields w = [w]"
  using qemu_fields_plain [of w "[]"] by simp

lemma itoa_no_comma [simp]: "CHR '','' \<notin> set (itoa n)"
  using itoa_digits [of n] by (auto simp: list_all_iff is_digit_def byte_in_def)

lemma itoa_int_no_comma [simp]: "CHR '','' \<notin> set (itoa_int i)"
  by (simp add: itoa_int_def)

lemmas field_simps_qemu =
  qemu_fields_keyval qemu_fields_keyval_end qemu_fields_plain qemu_fields_plain_end

text \<open>A separator followed by a key.\<close>

lemma qemu_fields_comma: "c \<noteq> CHR '','' \<Longrightarrow> qemu_fields (CHR '','' # c # s) = [] # qemu_fields (c # s)"
  by simp

definition forward_field :: "PortForward \<Rightarrow> string" where
  "forward_field f = ''hostfwd='' @ fwd_protocol f @ '':'' @ fwd_host_address f @ '':''
     @ itoa (unat (fwd_host_port f)) @ ''-:'' @ itoa (unat (fwd_guest_port f))"

lemma hostfwd_fields: "qemu_fields (hostfwd f @ s) = [] # prepend (forward_field f) (qemu_fields s)"
  by (simp add: hostfwd_def forward_field_def field_simps_qemu)

lemma hostfwds_fields:
  assumes "qemu_fields s = [] # ts"
  shows "qemu_fields (concat (List.map hostfwd fs) @ s) = [] # List.map forward_field fs @ ts"
  using assms by (induction fs) (simp_all add: hostfwd_fields)

lemma user_netdev_fields:
  "qemu_fields (user_netdev n) = [''user'', ''id=net0''] @ List.map forward_field (sortedForwards (net_forwards n))
     @ (if net_smb_folder n \<noteq> [] then [''smb='' @ net_smb_folder n] else [])"
proof -
  let ?smb = "if net_smb_folder n \<noteq> [] then '',smb='' @ keyval (net_smb_folder n) else []"
  have "qemu_fields ?smb = [] # (if net_smb_folder n \<noteq> [] then [''smb='' @ net_smb_folder n] else [])"
    by (simp add: field_simps_qemu)
  note fields = hostfwds_fields [OF this, of "sortedForwards (net_forwards n)"]
  have pre: "qemu_fields (''user,id=net0'' @ t) = ''user'' # prepend ''id=net0'' (qemu_fields t)" for t by simp
  show ?thesis unfolding user_netdev_def pre fields by simp
qed

lemma disk_id_no_comma [simp]: "CHR '','' \<notin> set (disk_id i)"
  by (simp add: disk_id_def)

lemma disk_drive_fields:
  "qemu_fields (disk_drive vm i d) =
     [''if=none'', ''media=disk'', ''id='' @ disk_id i, ''file.filename='' @ ResolvePath vm (disk_path d),
      ''format='' @ disk_format d, ''aio=threads'']
     @ (if disk_cache d \<noteq> [] then [''cache='' @ disk_cache d] else [])
     @ (if disk_read_only d then [''readonly=on''] else [''discard=unmap'', ''detect-zeroes=unmap''])"
  by (simp add: disk_drive_def field_simps_qemu)

lemma disk_device_fields:
  "qemu_fields (disk_device i d) =
     [''virtio-blk-pci'', ''drive='' @ disk_id i, ''serial='' @ disk_serial d,
      ''bootindex='' @ itoa_int (disk_boot_index d)]"
  by (simp add: disk_device_def field_simps_qemu)

lemma installer_fields:
  "qemu_fields (installer_drive vm x) =
     [''if=none'', ''media=cdrom'', ''id=install'', ''file.filename='' @ ResolvePath vm (inst_path x),
      ''format=raw'', ''readonly=on'']"
  by (simp add: installer_drive_def field_simps_qemu)

lemma secret_fields:
  "qemu_fields (vnc_secret_object paths) = [''secret'', ''id=vnc-password'', ''file='' @ rp_vnc_secret paths]"
  by (simp add: vnc_secret_object_def field_simps_qemu)

section \<open>Success and failure of rendering\<close>

lemma with_network_ok:
  assumes "wf_network n" "is_abs_path q"
  shows "\<exists>path args. with_network n q as = Inr (path, args) \<and> is_abs_path path"
  using assms
  by (auto simp: wf_network_def network_mode_error_def with_network_def validateSocketVMNet_def
      split: if_splits option.splits)

definition paths_absolute :: "RuntimePaths \<Rightarrow> bool" where
  "paths_absolute p \<longleftrightarrow> is_abs_path (rp_vm_dir p) \<and> is_abs_path (rp_qmp_command p) \<and> is_abs_path (rp_monitor p)
     \<and> is_abs_path (rp_console p) \<and> is_abs_path (rp_serial_log_pipe p)"

lemma Render_vnc_needs_secret:
  "cfg_vnc c \<noteq> None \<Longrightarrow> \<not> is_abs_path (rp_vnc_secret p) \<Longrightarrow> \<exists>e. Render c p b = Inl e"
  by (auto simp: Render_def Let_def display_args_def)

section \<open>Properties\<close>

definition sample_runtime_paths :: RuntimePaths where
  "sample_runtime_paths = \<lparr>rp_vm_dir = ''/d/vm'', rp_qmp = ''/r/qmp'', rp_qmp_command = ''/r/cmd'', rp_qga = ''/r/qga'',
     rp_console = ''/r/con'', rp_monitor = ''/r/mon'', rp_qemu_log = ''/l/q'', rp_serial_log_pipe = ''/r/p'',
     rp_vnc_secret = ''/r/v''\<rparr>"

section \<open>The whole argument vector read back\<close>

text \<open>How QEMU reads its arguments: an option, then its value in fields; \<open>-nodefaults\<close> alone has no value.\<close>

fun qemu_options :: "string list \<Rightarrow> (string \<times> string list) list option" where
  "qemu_options [] = Some []"
| "qemu_options (a # as) =
     (if a = ''-nodefaults'' then map_option ((#) (a, [])) (qemu_options as)
      else if \<not> has_prefix a ''-'' then None
      else case as of
        [] \<Rightarrow> None
      | v # bs \<Rightarrow> map_option ((#) (a, qemu_fields v)) (qemu_options bs))"

text \<open>The options the configuration and the runtime paths mean, every text as it is.\<close>

definition meant_base :: "Config \<Rightarrow> bool \<Rightarrow> (string \<times> string list) list" where
  "meant_base c boot_menu =
     [(''-nodefaults'', []), (''-display'', [''none'']), (''-machine'', [effectiveMachine (qemu_machine (cfg_qemu c))]),
      (''-accel'', [''hvf'']), (''-cpu'', [''host'']),
      (''-smp'', [''cpus='' @ itoa_int (cfg_cpus c), ''sockets=1'', ''cores='' @ itoa_int (cfg_cpus c), ''threads=1'']),
      (''-m'', [itoa_int (cfg_memory_mib c)]), (''-name'', [cfg_name c]), (''-uuid'', [cfg_uuid c]),
      (''-run-with'', [''exit-with-parent=on''])]
     @ (if qemu_rtc_base (cfg_qemu c) = [] then [] else [(''-rtc'', [''base='' @ qemu_rtc_base (cfg_qemu c)])])
     @ (if boot_menu then [(''-boot'', [''menu=on''])] else [])"

definition meant_firmware :: "string \<Rightarrow> FirmwareConfig \<Rightarrow> (string \<times> string list) list" where
  "meant_firmware vm fw =
     [(''-drive'', [''if=pflash'', ''unit=0'', ''format=raw'', ''readonly=on'', ''file.locking=off'',
        ''file.filename='' @ ResolvePath vm (fw_code fw)]),
      (''-drive'', [''if=pflash'', ''unit=1'', ''format=raw'', ''file.filename='' @ ResolvePath vm (fw_variables fw)])]"

definition meant_disk :: "string \<Rightarrow> nat \<Rightarrow> DiskConfig \<Rightarrow> (string \<times> string list) list" where
  "meant_disk vm i d =
     [(''-drive'', [''if=none'', ''media=disk'', ''id=disk'' @ itoa i, ''file.filename='' @ ResolvePath vm (disk_path d),
        ''format='' @ disk_format d, ''aio=threads'']
        @ (if disk_cache d \<noteq> [] then [''cache='' @ disk_cache d] else [])
        @ (if disk_read_only d then [''readonly=on''] else [''discard=unmap'', ''detect-zeroes=unmap''])),
      (''-device'', [''virtio-blk-pci'', ''drive=disk'' @ itoa i, ''serial='' @ disk_serial d,
        ''bootindex='' @ itoa_int (disk_boot_index d)])]"

definition meant_installer :: "string \<Rightarrow> InstallerConfig option \<Rightarrow> (string \<times> string list) list" where
  "meant_installer vm x =
     (case x of
        None \<Rightarrow> []
      | Some inst \<Rightarrow>
          [(''-device'', [''virtio-scsi-pci'', ''id=scsi0'']),
           (''-drive'', [''if=none'', ''media=cdrom'', ''id=install'', ''file.filename='' @ ResolvePath vm (inst_path inst),
             ''format=raw'', ''readonly=on'']),
           (''-device'', [''scsi-cd'', ''drive=install'', ''bus=scsi0.0'', ''bootindex='' @ itoa_int (inst_boot_index inst)])])"

definition meant_socket :: "string \<Rightarrow> string \<Rightarrow> string list" where
  "meant_socket i path = [''socket'', ''id='' @ i, ''path='' @ path, ''server=on'', ''wait=off'']"

definition meant_channels :: "RuntimePaths \<Rightarrow> (string \<times> string list) list" where
  "meant_channels paths =
     [(''-chardev'', meant_socket ''console0'' (rp_console paths) @ [''logfile='' @ rp_serial_log_pipe paths, ''logappend=on'']),
      (''-serial'', [''chardev:console0'']),
      (''-qmp'', [''unix:'' @ rp_qmp paths, ''server=on'', ''wait=off'']),
      (''-chardev'', meant_socket ''qmpcommand0'' (rp_qmp_command paths)),
      (''-mon'', [''chardev=qmpcommand0'', ''mode=control'']),
      (''-chardev'', meant_socket ''monitor0'' (rp_monitor paths)),
      (''-mon'', [''chardev=monitor0'', ''mode=readline''])]"

definition meant_display :: "Config \<Rightarrow> RuntimePaths \<Rightarrow> (string \<times> string list) list" where
  "meant_display c paths =
     (case cfg_vnc c of
        Some v \<Rightarrow>
          [(''-device'', [''virtio-gpu-pci'']), (''-device'', [''nec-usb-xhci'', ''id=usb'']),
           (''-device'', [''usb-kbd'', ''bus=usb.0'']), (''-device'', [''usb-tablet'', ''bus=usb.0'']),
           (''-object'', [''secret'', ''id=vnc-password'', ''file='' @ rp_vnc_secret paths]),
           (''-vnc'', [vnc_bind v @ '':'' @ itoa_int (int (unat (vnc_port v)) - 5900),
             ''to='' @ itoa_int (int (unat (vnc_port_to v)) - 5900), ''password-secret=vnc-password''])]
          @ (if vnc_keyboard_layout v = [] then [] else [(''-k'', [vnc_keyboard_layout v])])
      | None \<Rightarrow> if cfg_usb c = [] then [] else [(''-device'', [''nec-usb-xhci'', ''id=usb''])])"

definition meant_usb :: "nat \<Rightarrow> USBDeviceConfig \<Rightarrow> (string \<times> string list) list" where
  "meant_usb i u =
     [(''-device'', [''usb-host'', ''id=usb-host'' @ itoa i, ''bus=usb.0'']
        @ (if usb_vendor_id u \<noteq> [] \<or> usb_product_id u \<noteq> []
           then [''vendorid=0x'' @ usb_vendor_id u, ''productid=0x'' @ usb_product_id u]
           else [''hostbus='' @ itoa_int (usb_host_bus u), ''hostaddr='' @ itoa_int (usb_host_address u)]))]"

definition meant_agent :: "Config \<Rightarrow> RuntimePaths \<Rightarrow> (string \<times> string list) list" where
  "meant_agent c paths =
     (if cfg_guest_agent_enabled c
      then [(''-device'', [''virtio-serial-pci'']), (''-chardev'', meant_socket ''qga0'' (rp_qga paths)),
            (''-device'', [''virtserialport'', ''chardev=qga0'', ''name=org.qemu.guest_agent.0''])]
      else [])"

definition meant_network :: "NetworkConfig \<Rightarrow> (string \<times> string list) list" where
  "meant_network n =
     [(''-netdev'',
        if net_mode n = NetworkUser
        then [''user'', ''id=net0''] @ List.map forward_field (sortedForwards (net_forwards n))
             @ (if net_smb_folder n \<noteq> [] then [''smb='' @ net_smb_folder n] else [])
        else [''socket'', ''id=net0'', ''fd=3'']),
      (''-device'', [''virtio-net-pci'', ''netdev=net0'', ''mac='' @ net_mac n])]"

fun meant_each :: "(nat \<Rightarrow> 'a \<Rightarrow> 'b list) \<Rightarrow> nat \<Rightarrow> 'a list \<Rightarrow> 'b list" where
  "meant_each f i [] = []"
| "meant_each f i (x # xs) = f i x @ meant_each f (Suc i) xs"

definition meant_options :: "Config \<Rightarrow> RuntimePaths \<Rightarrow> bool \<Rightarrow> (string \<times> string list) list" where
  "meant_options c paths boot_menu =
     meant_base c boot_menu @ meant_firmware (rp_vm_dir paths) (cfg_firmware c)
     @ meant_each (meant_disk (rp_vm_dir paths)) 0 (cfg_disks c) @ [(''-device'', [''virtio-rng-pci''])]
     @ meant_installer (rp_vm_dir paths) (cfg_installer c) @ meant_channels paths @ meant_display c paths
     @ meant_each meant_usb 0 (cfg_usb c) @ meant_agent c paths @ meant_network (cfg_network c)"

text \<open>The texts that are rendered without escaping.\<close>

definition plain_texts :: "Config \<Rightarrow> bool" where
  "plain_texts c \<longleftrightarrow>
     (\<forall>w \<in> {qemu_machine (cfg_qemu c), cfg_uuid c, qemu_rtc_base (cfg_qemu c)}
          \<union> (case cfg_vnc c of None \<Rightarrow> {} | Some v \<Rightarrow> {vnc_bind v, vnc_keyboard_layout v}). CHR '','' \<notin> set w)"

text \<open>What stands before the options: for socket_vmnet its socket and QEMU itself, which it runs.\<close>

definition before_options :: "Config \<Rightarrow> RuntimePaths \<Rightarrow> string list" where
  "before_options c paths =
     (case net_socket_vmnet (cfg_network c) of
        Some bridge \<Rightarrow>
          if net_mode (cfg_network c) = NetworkSocketVMNet
          then [Clean (svm_socket_path bridge), ResolvePath (rp_vm_dir paths) (qemu_binary (cfg_qemu c))] else []
      | None \<Rightarrow> [])"

lemma qemu_options_append:
  "qemu_options as = Some xs \<Longrightarrow> qemu_options (as @ bs) = map_option ((@) xs) (qemu_options bs)"
proof (induction as arbitrary: xs rule: qemu_options.induct)
  case (2 a as)
  then show ?case
    by (cases "qemu_options bs") (auto split: if_splits list.splits)
qed (cases "qemu_options bs"; simp)

lemma reads_append:
  "qemu_options as = Some xs \<Longrightarrow> qemu_options bs = Some ys \<Longrightarrow> qemu_options (as @ bs) = Some (xs @ ys)"
  by (simp add: qemu_options_append)

lemma has_dash [simp]: "has_prefix (CHR ''-'' # s) ''-''"
  using has_prefix_append [of "''-''" s] by simp

lemma reads_each:
  assumes "\<And>i x. x \<in> set xs \<Longrightarrow> qemu_options (f i x) = Some (g i x)"
  shows "qemu_options (meant_each f i xs) = Some (meant_each g i xs)"
  using assms by (induction xs arbitrary: i) (simp_all add: reads_append)

lemma socket_chardev_fields:
  "CHR '','' \<notin> set i \<Longrightarrow> qemu_fields (socket_chardev i p) = meant_socket i p"
  by (simp add: socket_chardev_def meant_socket_def field_simps_qemu)

lemma console_fields:
  "qemu_fields (socket_chardev ''console0'' p @ '',logfile='' @ keyval l @ '',logappend=on'')
   = meant_socket ''console0'' p @ [''logfile='' @ l, ''logappend=on'']"
  by (simp add: socket_chardev_def meant_socket_def field_simps_qemu)

lemma effectiveMachine_plain: "CHR '','' \<notin> set m \<Longrightarrow> CHR '','' \<notin> set (effectiveMachine m)"
  by (simp add: effectiveMachine_def)

lemma base_read:
  assumes "plain_texts c"
  shows "qemu_options (base_args c b) = Some (meant_base c b)"
proof -
  have plain: "CHR '','' \<notin> set (effectiveMachine (qemu_machine (cfg_qemu c)))" "CHR '','' \<notin> set (cfg_uuid c)"
    "CHR '','' \<notin> set (qemu_rtc_base (cfg_qemu c))"
    using assms by (simp_all add: plain_texts_def effectiveMachine_plain)
  have smp: "qemu_fields (''cpus='' @ itoa_int n @ '',sockets=1,cores='' @ itoa_int n @ '',threads=1'')
      = [''cpus='' @ itoa_int n, ''sockets=1'', ''cores='' @ itoa_int n, ''threads=1'']" for n
    by (simp add: field_simps_qemu)
  show ?thesis
    by (simp add: base_args_def meant_base_def plain smp qemu_fields_plain_end qemu_fields_keyval_end
        del: qemu_fields.simps)
       (simp add: field_simps_qemu plain)
qed

lemma firmware_read: "qemu_options (firmware_args vm fw) = Some (meant_firmware vm fw)"
  by (simp add: firmware_args_def meant_firmware_def field_simps_qemu)

lemma disk_args_each: "disk_args vm i ds = meant_each (\<lambda>i d. [''-drive'', disk_drive vm i d, ''-device'', disk_device i d]) i ds"
  by (induction ds arbitrary: i) simp_all

lemma disks_read: "qemu_options (disk_args vm i ds) = Some (meant_each (meant_disk vm) i ds)"
  unfolding disk_args_each
  by (rule reads_each) (simp add: meant_disk_def disk_drive_fields disk_device_fields disk_id_def)

lemma installer_read: "qemu_options (installer_args vm x) = Some (meant_installer vm x)"
  by (cases x) (simp_all add: installer_args_def meant_installer_def installer_fields field_simps_qemu)

lemma channels_read: "qemu_options (channel_args paths) = Some (meant_channels paths)"
  unfolding channel_args_def meant_channels_def
  by (simp add: console_fields [simplified] socket_chardev_fields)
     (simp add: field_simps_qemu)

lemma display_read:
  assumes "plain_texts c" and "display_args c paths = Inr as"
  shows "qemu_options as = Some (meant_display c paths)"
proof (cases "cfg_vnc c")
  case None
  with assms show ?thesis by (auto simp: display_args_def meant_display_def)
next
  case (Some v)
  then have plain: "CHR '','' \<notin> set (vnc_bind v)" "CHR '','' \<notin> set (vnc_keyboard_layout v)"
    using assms(1) by (simp_all add: plain_texts_def)
  have "qemu_fields (vnc_display v) = [vnc_bind v @ '':'' @ itoa_int (int (unat (vnc_port v)) - 5900),
      ''to='' @ itoa_int (int (unat (vnc_port_to v)) - 5900), ''password-secret=vnc-password'']"
    by (simp add: vnc_display_def field_simps_qemu plain)
  with assms(2) Some plain show ?thesis
    by (auto simp: display_args_def meant_display_def secret_fields qemu_fields_plain_end split: if_splits)
qed

lemma usb_args_each: "usb_args i us = meant_each (\<lambda>i u. [''-device'', usb_device i u]) i us"
  by (induction us arbitrary: i) simp_all

lemma usbs_read: "qemu_options (usb_args i us) = Some (meant_each meant_usb i us)"
  unfolding usb_args_each
  by (rule reads_each) (simp add: usb_device_def meant_usb_def field_simps_qemu)

lemma agent_read: "qemu_options (agent_args c paths) = Some (meant_agent c paths)"
  by (simp add: agent_args_def meant_agent_def socket_chardev_fields)

lemma net_device_fields: "qemu_fields (net_device n) = [''virtio-net-pci'', ''netdev=net0'', ''mac='' @ net_mac n]"
  by (simp add: net_device_def field_simps_qemu)

lemma with_network_read:
  assumes "with_network (cfg_network c) q as = Inr (path, args)" and "qemu_options as = Some xs"
    and "q = ResolvePath (rp_vm_dir paths) (qemu_binary (cfg_qemu c))"
  shows "\<exists>bs. args = before_options c paths @ bs \<and> qemu_options bs = Some (xs @ meant_network (cfg_network c))"
proof -
  let ?n = "cfg_network c"
  have net: "qemu_options [''-netdev'', if net_mode ?n = NetworkUser then user_netdev ?n else ''socket,id=net0,fd=3'',
      ''-device'', net_device ?n] = Some (meant_network ?n)"
    by (simp add: meant_network_def net_device_fields user_netdev_fields)
  show ?thesis
  proof (cases "net_mode ?n = NetworkUser")
    case True
    then have "before_options c paths = []"
      by (simp add: before_options_def NetworkUser_def NetworkSocketVMNet_def split: option.splits)
    with True assms reads_append [OF assms(2) net] show ?thesis by (simp add: with_network_def)
  next
    case False
    with assms obtain bridge where "validateSocketVMNet ?n = Inr bridge" "net_mode ?n = NetworkSocketVMNet"
      and args: "args = [Clean (svm_socket_path bridge), q] @ as @ [''-netdev'', ''socket,id=net0,fd=3'', ''-device'', net_device ?n]"
      by (auto simp: with_network_def bindE_def split: if_splits sum.splits)
    then have "before_options c paths = [Clean (svm_socket_path bridge), q]"
      using assms(3) by (auto simp: before_options_def validateSocketVMNet_def split: if_splits option.splits)
    with args False reads_append [OF assms(2) net] show ?thesis by simp
  qed
qed

lemma hex_decode_plain: "hex_decode s = Some bs \<Longrightarrow> CHR '','' \<notin> set s"
proof (induction s arbitrary: bs rule: hex_decode.induct)
  case (3 a b s)
  have "hex_value CHR '','' = None" by code_simp
  with 3 show ?case by (auto split: option.splits)
qed simp_all

lemma all_digits_plain: "list_all is_digit s \<Longrightarrow> CHR '','' \<notin> set s"
  by (auto simp: list_all_iff byte_class_defs)

lemma machine_plain: "validMachineType m \<Longrightarrow> CHR '','' \<notin> set m"
proof -
  have "CHR '','' \<notin> set m" if pattern: "machinePattern m"
  proof -
    from pattern obtain t where t: "m = ''virt-'' @ t" by (auto simp: machinePattern_def has_prefix_iff)
    with pattern obtain x y where "cut CHR ''.'' t = Some (x, y)" "list_all is_digit x" "list_all is_digit y"
      by (auto simp: machinePattern_def split: option.splits)
    with t cut_Some all_digits_plain show ?thesis by fastforce
  qed
  then show "validMachineType m \<Longrightarrow> CHR '','' \<notin> set m" by (auto simp: validMachineType_def)
qed

lemma ipv4_plain: "parse_ip4_literal s \<noteq> None \<Longrightarrow> CHR '','' \<notin> set s"
proof -
  assume "parse_ip4_literal s \<noteq> None"
  then obtain r where r: "s = ipv4_string r"
    by (auto simp: parse_ip4_literal_def dest: parse_ipv4_canonical split: if_splits)
  have "CHR '','' \<notin> set (ipv4_string r)"
    using join_with_set unfolding ipv4_string_def by fastforce
  with r show ?thesis by simp
qed

lemma layouts_plain: "w \<in> set keyboardLayouts \<Longrightarrow> CHR '','' \<notin> set w"
proof -
  have "list_all (\<lambda>w. \<not> contains_byte w CHR '','') keyboardLayouts" by code_simp
  then show "w \<in> set keyboardLayouts \<Longrightarrow> CHR '','' \<notin> set w" by (auto simp: list_all_iff contains_byte_def)
qed

lemma valid_plain_texts:
  assumes "Validate c = None"
  shows "plain_texts c"
proof -
  from assms have wf: "validMachineType (qemu_machine (cfg_qemu c))" "validUUIDv4 (cfg_uuid c)"
    "validRTCBase (qemu_rtc_base (cfg_qemu c))" "wf_vnc c"
    by (simp_all add: Validate_None_iff wf_config_def wf_scalars_def)
  from wf(2) obtain bs where "hex_decode (filter (\<lambda>c. c \<noteq> CHR ''-'') (cfg_uuid c)) = Some bs"
    by (auto simp: validUUIDv4_def split: if_splits option.splits)
  from hex_decode_plain [OF this] have uuid: "CHR '','' \<notin> set (cfg_uuid c)" by auto
  have rtc: "CHR '','' \<notin> set (qemu_rtc_base (cfg_qemu c))" using wf(3) by (auto simp: validRTCBase_def)
  have "CHR '','' \<notin> set (vnc_bind v) \<and> CHR '','' \<notin> set (vnc_keyboard_layout v)" if "cfg_vnc c = Some v" for v
    using wf(4) that ipv4_plain [of "vnc_bind v"] layouts_plain [of "vnc_keyboard_layout v"] by (auto simp: wf_vnc_def)
  with uuid rtc machine_plain [OF wf(1)] show ?thesis
    by (auto simp: plain_texts_def split: option.splits)
qed

text \<open>C18. The whole rendered command, read with QEMU's own syntax of options and comma-separated fields, is
  exactly the list of options that the configuration and the paths mean: machine, processors, name,
  firmware, disks, installer, channels, display, USB, guest agent and network, each with its fields in order and
  every text as configured, whatever commas it contains, so no name, path, serial, address or folder can add or
  split a field. It holds whenever the five texts that are not escaped have no comma, which \<open>Validate\<close> ensures; the
  extra arguments of the configuration follow unchanged.\<close>

theorem options_read_back:
  assumes "Render c paths boot_menu = Inr cmd"
  shows "(plain_texts c \<longrightarrow>
       (\<exists>as. cmd_args cmd = before_options c paths @ as @ qemu_extra_args (cfg_qemu c)
          \<and> qemu_options as = Some (meant_options c paths boot_menu)))
     \<and> (Validate c = None \<longrightarrow> plain_texts c)"
proof (intro conjI impI)
  show "plain_texts c" if "Validate c = None" using that by (rule valid_plain_texts)
next
  assume plain: "plain_texts c"
  let ?vm = "rp_vm_dir paths" and ?q = "ResolvePath (rp_vm_dir paths) (qemu_binary (cfg_qemu c))"
  from assms obtain display where d: "display_args c paths = Inr display"
    by (auto simp: Render_def Let_def bindE_def split: if_splits sum.splits)
  let ?as = "base_args c boot_menu @ firmware_args ?vm (cfg_firmware c) @ disk_args ?vm 0 (cfg_disks c)
     @ [''-device'', ''virtio-rng-pci''] @ installer_args ?vm (cfg_installer c)
     @ channel_args paths @ display @ usb_args 0 (cfg_usb c) @ agent_args c paths"
  from assms d obtain path args where net: "with_network (cfg_network c) ?q ?as = Inr (path, args)"
    "cmd_args cmd = args @ qemu_extra_args (cfg_qemu c)"
    by (auto simp: Render_def Let_def bindE_def split: if_splits sum.splits)
  have rng: "qemu_options [''-device'', ''virtio-rng-pci''] = Some [(''-device'', [''virtio-rng-pci''])]" by simp
  note parts = reads_append [OF base_read [OF plain] reads_append [OF firmware_read reads_append [OF disks_read
    reads_append [OF rng reads_append [OF installer_read reads_append [OF channels_read
    reads_append [OF display_read [OF plain d] reads_append [OF usbs_read agent_read]]]]]]]]
  from with_network_read [OF net(1) parts refl]
  show "\<exists>as. cmd_args cmd = before_options c paths @ as @ qemu_extra_args (cfg_qemu c)
      \<and> qemu_options as = Some (meant_options c paths boot_menu)"
    using net(2) by (auto simp: meant_options_def)
qed

text \<open>A machine whose folder is named with a comma and an option.\<close>

definition comma_paths :: RuntimePaths where
  "comma_paths = sample_runtime_paths\<lparr>rp_vm_dir := ''/d/a,readonly=off'', rp_monitor := ''/r,server=off/mon''\<rparr>"

theorem options_read_back_witness:
  "\<exists>cmd as. Render sample_config comma_paths True = Inr cmd
    \<and> cmd_args cmd = as @ [''-overcommit'', ''mem-lock=off''] \<and> qemu_options as = Some (meant_options sample_config comma_paths True)
    \<and> (''-drive'', [''if=pflash'', ''unit=1'', ''format=raw'', ''file.filename=/d/a,readonly=off/vars.fd''])
        \<in> set (meant_options sample_config comma_paths True)"
proof -
  have "case Render sample_config comma_paths True of Inl _ \<Rightarrow> False | Inr _ \<Rightarrow> True" by code_simp
  then obtain cmd where run: "Render sample_config comma_paths True = Inr cmd" by (auto split: sum.splits)
  have "before_options sample_config comma_paths = []" by (simp add: before_options_def sample_config_def)
  moreover have "qemu_extra_args (cfg_qemu sample_config) = [''-overcommit'', ''mem-lock=off'']" by (simp add: sample_config_def)
  moreover have "ResolvePath ''/d/a,readonly=off'' ''vars.fd'' = ''/d/a,readonly=off/vars.fd''" by code_simp
  then have "(''-drive'', [''if=pflash'', ''unit=1'', ''format=raw'', ''file.filename=/d/a,readonly=off/vars.fd''])
      \<in> set (meant_options sample_config comma_paths True)"
    by (simp add: meant_options_def meant_firmware_def comma_paths_def sample_config_def)
  ultimately show ?thesis using options_read_back [OF run] sample_config_valid run by auto
qed

text \<open>The rendered command does not depend on the order of the port forwards in the configuration.\<close>

lemma Render_forward_order:
  assumes "mset fs = mset (net_forwards (cfg_network c))"
  shows "Render (c\<lparr>cfg_network := (cfg_network c)\<lparr>net_forwards := fs\<rparr>\<rparr>) paths boot_menu
       = Render c paths boot_menu"
proof -
  let ?n = "(cfg_network c)\<lparr>net_forwards := fs\<rparr>"
  have empty: "fs = [] \<longleftrightarrow> net_forwards (cfg_network c) = []"
    using assms by (metis mset.simps(1) mset_zero_iff)
  have "user_netdev ?n = user_netdev (cfg_network c)"
    using sortedForwards_mset [OF assms] by (simp add: user_netdev_def)
  moreover have "validateSocketVMNet ?n = validateSocketVMNet (cfg_network c)"
    using empty by (simp add: validateSocketVMNet_def)
  moreover have "net_device ?n = net_device (cfg_network c)" by (simp add: net_device_def)
  ultimately have "with_network ?n = with_network (cfg_network c)"
    by (simp add: with_network_def fun_eq_iff)
  then show ?thesis by (simp add: Render_def base_args_def display_args_def agent_args_def Let_def)
qed

lemma Render_forward_order_witness:
  "Render (sample_config\<lparr>cfg_network := (cfg_network sample_config)\<lparr>net_forwards :=
     rev (net_forwards (cfg_network sample_config))\<rparr>\<rparr>) sample_runtime_paths False
   = Render sample_config sample_runtime_paths False"
  by (rule Render_forward_order) simp

text \<open>C17. A configuration that \<open>Validate\<close> accepts renders, given absolute runtime paths, to a command
  with an absolute path whose last arguments are the extra ones of the configuration.\<close>

theorem Render_valid_succeeds:
  assumes "Validate c = None" and "paths_absolute paths"
    and "cfg_vnc c = None \<or> is_abs_path (rp_vnc_secret paths)"
  shows "\<exists>cmd as. Render c paths boot_menu = Inr cmd \<and> is_abs_path (cmd_path cmd)
    \<and> cmd_args cmd = as @ qemu_extra_args (cfg_qemu c)"
proof -
  let ?q = "ResolvePath (rp_vm_dir paths) (qemu_binary (cfg_qemu c))"
  have net: "wf_network (cfg_network c)" using assms(1) by (simp add: Validate_None_iff wf_config_def)
  have q: "is_abs_path ?q" using assms(2) by (simp add: paths_absolute_def)
  have "\<exists>display. display_args c paths = Inr display"
    using assms(3) by (auto simp: display_args_def split: option.splits)
  then obtain display where d: "display_args c paths = Inr display" ..
  let ?as = "base_args c boot_menu @ firmware_args (rp_vm_dir paths) (cfg_firmware c)
     @ disk_args (rp_vm_dir paths) 0 (cfg_disks c) @ [''-device'', ''virtio-rng-pci'']
     @ installer_args (rp_vm_dir paths) (cfg_installer c) @ channel_args paths @ display
     @ usb_args 0 (cfg_usb c) @ agent_args c paths"
  obtain path args where "with_network (cfg_network c) ?q ?as = Inr (path, args)" "is_abs_path path"
    using with_network_ok [OF net q] by blast
  then show ?thesis using assms(2) q d by (simp add: Render_def Let_def paths_absolute_def)
qed

theorem Render_valid_succeeds_witness:
  "\<exists>cmd as. Render sample_config sample_runtime_paths True = Inr cmd \<and> is_abs_path (cmd_path cmd)
    \<and> cmd_args cmd = as @ [''-overcommit'', ''mem-lock=off'']"
  using Render_valid_succeeds [OF sample_config_valid, of sample_runtime_paths True]
  by (simp add: sample_runtime_paths_def paths_absolute_def is_abs_path_iff sample_config_def)

end
