(* ===== verification/Supervisor.thy ===== *)
theory Supervisor
  imports Lifecycle Run SerialLog Command "HOL-Library.Code_Target_Nat"
begin

text \<open>
  \<open>internal/supervisor/supervisor.go\<close>: one run of the supervisor of a machine, from the locks over
  the startup to the last-exit record. The state is the host and the variables the deferred
  functions look at; what the supervisor calls outside the host (the backend, sockets, signals, the
  readiness pipe) is an environment of results, and the calls made are a trace.
\<close>

section \<open>Paths and directories\<close>

definition backendPaths :: "Paths \<Rightarrow> RuntimePaths" where
  "backendPaths paths =
     \<lparr>rp_vm_dir = p_vm_dir paths, rp_qmp = p_qmp paths, rp_qmp_command = p_qmp_command paths,
      rp_qga = p_qga paths, rp_console = p_console paths, rp_monitor = p_monitor paths,
      rp_qemu_log = p_qemu_log paths, rp_serial_log_pipe = p_serial_log_pipe paths,
      rp_vnc_secret = []\<rparr>"

definition ensurePrivateDirectory :: "host \<Rightarrow> string \<Rightarrow> (sys_error, unit) action" where
  "ensurePrivateDirectory h path =
     then_do (mkdir_all h path) (\<lambda>_ h1.
     (case lstat h1 path of
        Inl e \<Rightarrow> Inl e
      | Inr (Dir uid mode) \<Rightarrow>
          if mode \<noteq> mode_dir then Inl (WrongMode mode)
          else if uid \<noteq> h_uid h1 then Inl (WrongOwner uid)
          else Inr ()
      | Inr _ \<Rightarrow> Inl NotRealDirectory, h1))"

text \<open>\<open>openSerialLogPipe\<close>: the FIFO is made, and removed again when it cannot be opened.\<close>

definition openSerialLogPipe :: "host \<Rightarrow> string \<Rightarrow> (sys_error, unit) action" where
  "openSerialLogPipe h path =
     (if h_fs h path \<noteq> None then (Inl EEXIST, h)
      else if \<not> is_dir_at h (parent_dir path) then (Inl ENOENT, h)
      else let h1 = h\<lparr>h_fs := (h_fs h)(path \<mapsto> Special (h_uid h) mode_file)\<rparr> in
        if h_fault h1 SysOpen path then (Inl (EFAULTED SysOpen), snd (remove_one h1 path))
        else (Inr (), h1))"

section \<open>The terminal outcome\<close>

record Exit =
  ex_code :: int
  ex_err :: "string option"

definition terminalOutcome :: "Exit \<Rightarrow> bool \<Rightarrow> bool \<Rightarrow> string option \<Rightarrow> int \<times> string" where
  "terminalOutcome exit intentional internalFailure forceErr =
     (let text = (case ex_err exit of None \<Rightarrow> '''' | Some e \<Rightarrow> e);
          exitCode = (if ex_err exit \<noteq> None \<and> ex_code exit = 0 then 1 else ex_code exit)
      in if internalFailure then (1, ''supervisor context canceled'')
         else case forceErr of
           Some e \<Rightarrow> (1, e)
         | None \<Rightarrow>
             if intentional \<or> (ex_err exit = None \<and> exitCode = 0) then (0, '''')
             else if exitCode \<noteq> 0 \<and> text = '''' then (exitCode, ''backend exited with code '' @ itoa_int exitCode)
             else (exitCode, text))"

text \<open>What wakes the supervisor of a ready machine, and what it then asks of the run: the stop, and the
  forced stop when the stop failed. The result says whether the failure is internal.\<close>

datatype wake = RunDone | ContextEnded | LifecycleSignal | LateSignal
datatype run_call = CallStop | CallForce

definition waitForTermination :: "wake \<Rightarrow> stop_error option \<Rightarrow> bool \<times> run_call list" where
  "waitForTermination w stop_err =
     (case w of
        RunDone \<Rightarrow> (False, [])
      | ContextEnded \<Rightarrow> (True, [CallForce])
      | LifecycleSignal \<Rightarrow> (False, CallStop # (if stop_err \<noteq> None then [CallForce] else []))
      | LateSignal \<Rightarrow> (False, CallStop # (if stop_err \<noteq> None then [CallForce] else [])))"

section \<open>Finalization\<close>

datatype sup_error =
    NotConfigured | BadExpectedID | NameLockFailed store_error | ConfigFailed store_error
  | IDMismatchAtStart | RuntimeDirectoryFailed sys_error | LogDirectoryFailed sys_error
  | LifetimeFailed store_error | AlreadyRunning | StaleCleanup "cleanup_error list" | IDChanged
  | PreflightFailed string | MetricsFailed string | MetadataFailed meta_error | ReadyDescriptor string
  | StaleSocket sys_error | BindFailed string | ControlDescriptor string | ChmodFailed sys_error
  | BackendFailed registry_error | RenderFailed render_error | SerialFailed serial_error | PipeFailed sys_error
  | StartFailed string | StartupCanceled | StatusFailed string | UnexpectedState run_state
  | HashFailed encode_error | MonitoringFailed string | ExitedDuringStartup Exit
  | ClearFailed meta_error | ReadyFailed send_error | ReadyPipe | ForceFailed string | AbortFailed string
  | CleanupFailed "cleanup_error list" | LastExitFailed meta_error | BackendExited int string
  | NameUnlockFailed string

record sup_env =
  se_last_exit :: "LastExitMetadata wire"
  se_runtime :: "RuntimeMetadata wire"
  se_ready :: "ReadyMessage wire"
  se_clock :: timestamp
  se_pid :: int
  se_error_text :: "sup_error \<Rightarrow> string"
  se_join :: "string \<Rightarrow> cleanup_error list \<Rightarrow> string"

definition sup_now :: "sup_env \<Rightarrow> timestamp" where
  "sup_now env = (se_clock env)\<lparr>ts_utc := True\<rparr>"

definition last_exit_of :: "sup_env \<Rightarrow> string \<Rightarrow> int \<Rightarrow> string \<Rightarrow> LastExitMetadata" where
  "last_exit_of env i code text =
     \<lparr>le_version = metadataVersion, le_id = i, le_timestamp = sup_now env, le_exit_code = code, le_error = text\<rparr>"

text \<open>Joined errors are a list; the empty list is success.\<close>

definition finalizeRun ::
  "sup_env \<Rightarrow> Paths \<Rightarrow> string \<Rightarrow> Exit \<Rightarrow> bool \<Rightarrow> bool \<Rightarrow> string option \<Rightarrow> host \<Rightarrow> sup_error list \<times> host" where
  "finalizeRun env paths i exit intentional internalFailure forceErr h =
     (case terminalOutcome exit intentional internalFailure forceErr of (code, text) \<Rightarrow>
      case CleanupRuntime paths h of (es, h1) \<Rightarrow>
        (let code' = (if es \<noteq> [] then 1 else code);
             text' = (if es \<noteq> [] then se_join env text es else text)
         in case WriteLastExit (se_last_exit env) h1 (p_last_exit_metadata paths) (last_exit_of env i code' text') of
              (Inl e, h2) \<Rightarrow> ([LastExitFailed e], h2)
            | (Inr _, h2) \<Rightarrow> (if code' \<noteq> 0 then [BackendExited code' text'] else [], h2)))"

definition recordFailure :: "sup_env \<Rightarrow> Paths \<Rightarrow> string \<Rightarrow> int \<Rightarrow> sup_error list \<Rightarrow> host \<Rightarrow> sup_error list \<times> host" where
  "recordFailure env paths i code cause h =
     (case WriteLastExit (se_last_exit env) h (p_last_exit_metadata paths)
             (last_exit_of env i code (join_with [newline] (List.map (se_error_text env) cause))) of
        (Inl e, h1) \<Rightarrow> (cause @ [LastExitFailed e], h1)
      | (Inr _, h1) \<Rightarrow> (cause, h1))"

section \<open>Starting up\<close>

text \<open>A backend as the registry gives it: its rendering, and its start, an error or a running instance.
  An instance that fails to start has already been stopped by \<open>Start\<close>.\<close>

record instance_of =
  in_pid :: int
  in_status :: "string + run_state"
  in_vnc :: "VNCEndpoint option"

record backend_impl =
  be_render :: "Config \<Rightarrow> RuntimePaths \<Rightarrow> bool \<Rightarrow> render_error + Command"
  be_start :: "Config \<Rightarrow> RuntimePaths \<Rightarrow> Command \<Rightarrow> host \<Rightarrow> (string + instance_of) \<times> host"

text \<open>What the outside decides during a startup.\<close>

record start_events =
  ev_preflight :: "string option"
  ev_metrics :: "string option"
  ev_ready_fd :: "string option"
  ev_bind :: "string option"
  ev_control_fd :: "string option"
  ev_chmod :: "sys_error option"
  ev_canceled_started :: bool
  ev_monitoring :: "string option"
  ev_exited :: "Exit option"
  ev_canceled_ready :: bool
  ev_exited_ready :: "Exit option"
  ev_ready_pipe :: bool
  ev_signal :: bool
  ev_force_err :: "string option"
  ev_abort_err :: "string option"
  ev_unlock :: "string option"

datatype sup_call =
    Bound | Tried Command | Started Command | AskedStatus | Forced | SinkAborted | MonitorStopped
  | ReadyOK string | ReadyFailure string | Served | Asked run_call | SinkFinished | ControlStopped

text \<open>The variables of \<open>Supervise\<close> that its deferred functions read.\<close>

record sup =
  su_host :: host
  su_paths :: Paths
  su_name_locked :: bool
  su_listener :: bool
  su_sink :: bool
  su_run :: bool
  su_calls :: "sup_call list"

type_synonym 'a step = "sup \<Rightarrow> (sup_error + 'a) \<times> sup"

definition on_host :: "(host \<Rightarrow> ('e, 'a) action) \<Rightarrow> ('e \<Rightarrow> sup_error) \<Rightarrow> 'a step" where
  "on_host f g s =
     (case f (su_host s) of
        (Inl e, h) \<Rightarrow> (Inl (g e), s\<lparr>su_host := h\<rparr>)
      | (Inr x, h) \<Rightarrow> (Inr x, s\<lparr>su_host := h\<rparr>))"

definition note_call :: "sup_call \<Rightarrow> unit step" where
  "note_call c s = (Inr (), s\<lparr>su_calls := su_calls s @ [c]\<rparr>)"

definition change :: "(sup \<Rightarrow> sup) \<Rightarrow> unit step" where "change f s = (Inr (), f s)"

definition cleanup_step :: "Paths \<Rightarrow> unit step" where
  "cleanup_step paths s =
     (case CleanupRuntime paths (su_host s) of
        (es, h) \<Rightarrow> (if es \<noteq> [] then Inl (StaleCleanup es) else Inr (), s\<lparr>su_host := h\<rparr>))"

text \<open>The configuration is loaded again once the machine is reserved.\<close>

definition reload_step :: "Store \<Rightarrow> library \<Rightarrow> string \<Rightarrow> string \<Rightarrow> (Config \<times> Paths) step" where
  "reload_step st L name expectedID s =
     (case loadUnlocked st L (su_host s) name of
        Inl e \<Rightarrow> (Inl (ConfigFailed e), s)
      | Inr c \<Rightarrow>
          if cfg_id c \<noteq> expectedID then (Inl IDChanged, s)
          else (Inr (c, store_paths st c), s\<lparr>su_paths := store_paths st c\<rparr>))"

definition remove_stale :: "host \<Rightarrow> string \<Rightarrow> (sys_error, unit) action" where
  "remove_stale h p = ignore_absent (remove_one h p)"

definition bind_step :: "start_events \<Rightarrow> string \<Rightarrow> unit step" where
  "bind_step ev path =
     bindS (on_host (\<lambda>h. remove_stale h path) StaleSocket) (\<lambda>_.
     bindS (reject (map_option BindFailed (ev_bind ev))) (\<lambda>_.
     bindS (change (\<lambda>s. s\<lparr>su_host := (su_host s)\<lparr>h_fs := (h_fs (su_host s))(path \<mapsto> Special (h_uid (su_host s)) mode_dir)\<rparr>,
                         su_listener := True\<rparr>)) (\<lambda>_.
     bindS (note_call Bound) (\<lambda>_.
     bindS (reject (map_option ControlDescriptor (ev_control_fd ev))) (\<lambda>_.
     bindS (reject (map_option ChmodFailed (ev_chmod ev))) (\<lambda>_.
     change (\<lambda>s. s\<lparr>su_host := (su_host s)\<lparr>h_fs := (h_fs (su_host s))(path \<mapsto> Special (h_uid (su_host s)) mode_file)\<rparr>\<rparr>)))))))"

definition sink_step :: "Paths \<Rightarrow> unit step" where
  "sink_step paths =
     bindS (on_host (\<lambda>h. openRotatingSerialLog h (p_serial_log paths) serialLogMaxSize serialLogMaxBackups) SerialFailed) (\<lambda>_.
     bindS (on_host (\<lambda>h. openSerialLogPipe h (p_serial_log_pipe paths)) PipeFailed) (\<lambda>_.
     change (\<lambda>s. s\<lparr>su_sink := True\<rparr>)))"

definition start_step :: "backend_impl \<Rightarrow> Config \<Rightarrow> Paths \<Rightarrow> Command \<Rightarrow> instance_of step" where
  "start_step b c paths cmd s =
     (case be_start b c (backendPaths paths) cmd (su_host s) of
        (Inl e, h) \<Rightarrow> (Inl (StartFailed e), s\<lparr>su_host := h, su_calls := su_calls s @ [Tried cmd]\<rparr>)
      | (Inr i, h) \<Rightarrow> (Inr i, s\<lparr>su_host := h, su_calls := su_calls s @ [Tried cmd, Started cmd], su_run := True\<rparr>))"

text \<open>The name lock is closed once, here or at the end of a run that did not come this far; its file is
  closed whatever happens, so the lock is gone even when an error is reported.\<close>

definition release_name :: "start_events \<Rightarrow> nat \<Rightarrow> unit step" where
  "release_name ev l =
     bindS (change (\<lambda>s. s\<lparr>su_host := unlock l (su_host s), su_name_locked := False\<rparr>)) (\<lambda>_.
     reject (map_option NameUnlockFailed (ev_unlock ev)))"

definition with_unlock :: "start_events \<Rightarrow> sup_error list \<Rightarrow> sup_error list" where
  "with_unlock ev es = es @ (case ev_unlock ev of None \<Rightarrow> [] | Some e \<Rightarrow> [NameUnlockFailed e])"

definition ready_state :: "instance_of \<Rightarrow> sup_error option" where
  "ready_state i =
     (case in_status i of
        Inl e \<Rightarrow> Some (StatusFailed e)
      | Inr st \<Rightarrow> if st \<noteq> RunStateRunning \<and> st \<noteq> RunStatePaused then Some (UnexpectedState st) else None)"

definition ready_step :: "sup_env \<Rightarrow> start_events \<Rightarrow> string \<Rightarrow> unit step" where
  "ready_step env ev i =
     bindS (reject (case WriteReady (se_ready env) \<lparr>rm_version = ProtocolVersion, rm_id = i, rm_ok = True, rm_error = None\<rparr> of
                      Inl e \<Rightarrow> Some (ReadyFailed e)
                    | Inr _ \<Rightarrow> guard (ev_ready_pipe ev) ReadyPipe)) (\<lambda>_.
     note_call (ReadyOK i))"

text \<open>From the reserved machine to the backend.\<close>

definition prepare ::
  "sup_env \<Rightarrow> start_events \<Rightarrow> backend_impl Registry \<Rightarrow> Config \<Rightarrow> Paths \<Rightarrow> bool \<Rightarrow> (backend_impl \<times> Command) step" where
  "prepare env ev reg c paths boot_menu =
     bindS (reject (map_option PreflightFailed (ev_preflight ev))) (\<lambda>_.
     bindS (reject (if cfg_metrics c = None then None else map_option MetricsFailed (ev_metrics ev))) (\<lambda>_.
     bindS (on_host (\<lambda>h. WriteRuntimeMetadata (se_runtime env) h (p_runtime_metadata paths)
              \<lparr>rt_version = metadataVersion, rt_id = cfg_id c, rt_name = cfg_name c, rt_supervisor_pid = se_pid env,
               rt_started_at = sup_now env, rt_boot_menu = boot_menu\<rparr>) MetadataFailed) (\<lambda>_.
     bindS (reject (map_option ReadyDescriptor (ev_ready_fd ev))) (\<lambda>_.
     bindS (bind_step ev (p_control_socket paths)) (\<lambda>_.
     bindS (lift_result (case Lookup reg (cfg_backend c) of Inl e \<Rightarrow> Inl (BackendFailed e) | Inr b \<Rightarrow> Inr b)) (\<lambda>b.
     bindS (lift_result (case be_render b c (backendPaths paths) boot_menu of Inl e \<Rightarrow> Inl (RenderFailed e) | Inr cmd \<Rightarrow> Inr cmd)) (\<lambda>cmd.
     bindS (sink_step paths) (\<lambda>_. lift_result (Inr (b, cmd))))))))))"

text \<open>From the backend to the ready message.\<close>

definition after_release ::
  "library \<Rightarrow> sup_env \<Rightarrow> start_events \<Rightarrow> Config \<Rightarrow> Paths \<Rightarrow> string \<Rightarrow> instance_of \<Rightarrow> unit step" where
  "after_release L env ev c paths expectedID i =
     bindS (reject (guard (ev_canceled_started ev) StartupCanceled)) (\<lambda>_.
     bindS (note_call AskedStatus) (\<lambda>_.
     bindS (reject (ready_state i)) (\<lambda>_.
     bindS (reject (case Hash L c of Inl e \<Rightarrow> Some (HashFailed e) | Inr _ \<Rightarrow> None)) (\<lambda>_.
     bindS (reject (if cfg_metrics c = None then None else map_option MonitoringFailed (ev_monitoring ev))) (\<lambda>_.
     bindS (reject (map_option ExitedDuringStartup (ev_exited ev))) (\<lambda>_.
     bindS (on_host (\<lambda>h. ClearFailedLastExit (se_last_exit env) h (p_last_exit_metadata paths)) ClearFailed) (\<lambda>_.
     bindS (reject (guard (ev_canceled_ready ev) StartupCanceled)) (\<lambda>_.
     bindS (reject (map_option ExitedDuringStartup (ev_exited_ready ev))) (\<lambda>_.
     ready_step env ev expectedID)))))))))"

definition publish_ready ::
  "library \<Rightarrow> sup_env \<Rightarrow> start_events \<Rightarrow> nat \<Rightarrow> Config \<Rightarrow> Paths \<Rightarrow> string \<Rightarrow> instance_of \<Rightarrow> unit step" where
  "publish_ready L env ev l c paths expectedID i =
     bindS (release_name ev l) (\<lambda>_. after_release L env ev c paths expectedID i)"

definition startup ::
  "Store \<Rightarrow> library \<Rightarrow> sup_env \<Rightarrow> start_events \<Rightarrow> backend_impl Registry \<Rightarrow> string \<Rightarrow> string \<Rightarrow> bool \<Rightarrow> nat \<Rightarrow> Paths \<Rightarrow> unit step" where
  "startup st L env ev reg name expectedID boot_menu l paths =
     bindS (cleanup_step paths) (\<lambda>_.
     bindS (reload_step st L name expectedID) (\<lambda>(c, paths').
     bindS (prepare env ev reg c paths' boot_menu) (\<lambda>(b, cmd).
     bindS (start_step b c paths' cmd) (\<lambda>i.
     publish_ready L env ev l c paths' expectedID i))))"

section \<open>Abandoning a startup\<close>

definition close_listener :: "sup \<Rightarrow> sup" where
  "close_listener s =
     (if su_listener s
      then s\<lparr>su_host := snd (remove_one (su_host s) (p_control_socket (su_paths s))), su_listener := False\<rparr>
      else s)"

text \<open>The deferred function of a startup that did not become ready: the child is forced down, the sink
  aborted, the runtime files removed, and the last exit recorded, as a clean one when a signal asked for
  the end and everything was cleaned up.\<close>

definition record_end ::
  "sup_env \<Rightarrow> string \<Rightarrow> bool \<Rightarrow> sup_error list \<Rightarrow> cleanup_error list \<Rightarrow> Paths \<Rightarrow> host \<Rightarrow> sup_error list \<times> host" where
  "record_end env expectedID intentional cause es paths h =
     (if intentional \<and> es = []
      then case WriteLastExit (se_last_exit env) h (p_last_exit_metadata paths) (last_exit_of env expectedID 0 '''') of
             (Inr _, h1) \<Rightarrow> ([], h1)
           | (Inl e, h1) \<Rightarrow> recordFailure env paths expectedID 1 [LastExitFailed e] h1
      else recordFailure env paths expectedID 1 (cause @ (if es = [] then [] else [CleanupFailed es])) h)"

definition abandon :: "sup_env \<Rightarrow> start_events \<Rightarrow> string \<Rightarrow> sup_error list \<Rightarrow> sup \<Rightarrow> sup_error list \<times> sup" where
  "abandon env ev expectedID cause s0 =
     (let s = close_listener s0;
          force = (if su_run s then ev_force_err ev else None);
          abort = (if su_sink s then ev_abort_err ev else None);
          calls = su_calls s @ [MonitorStopped] @ (if su_run s then [Forced] else []) @ (if su_sink s then [SinkAborted] else []);
          cause' = cause @ (case force of None \<Rightarrow> [] | Some e \<Rightarrow> [ForceFailed e]) @ (case abort of None \<Rightarrow> [] | Some e \<Rightarrow> [AbortFailed e])
      in case CleanupRuntime (su_paths s) (su_host s) of
        (es, h1) \<Rightarrow>
          (case record_end env expectedID (ev_signal ev \<and> force = None) cause' es (su_paths s) h1 of
             (r, h2) \<Rightarrow> (r, s\<lparr>su_host := h2, su_calls := calls, su_run := False, su_sink := False\<rparr>)))"

section \<open>The whole run\<close>

text \<open>How a ready machine ends: what woke the supervisor, the outcome of the stop it asked for, the exit
  of the backend, whether the run recorded an intent to stop, and the forced stop's error.\<close>

record end_events =
  en_wake :: wake
  en_stop_err :: "stop_error option"
  en_exit :: Exit
  en_intentional :: bool
  en_force_err :: "string option"

definition finish :: "sup_env \<Rightarrow> end_events \<Rightarrow> string \<Rightarrow> sup \<Rightarrow> sup_error list \<times> sup" where
  "finish env en expectedID s0 =
     (case waitForTermination (en_wake en) (en_stop_err en) of (internalFailure, asked) \<Rightarrow>
        (let s = close_listener s0 in
         case finalizeRun env (su_paths s) expectedID (en_exit en) (en_intentional en) internalFailure (en_force_err en) (su_host s) of
           (r, h) \<Rightarrow> (r, s\<lparr>su_host := h, su_run := False, su_sink := False,
             su_calls := su_calls s @ [Served] @ List.map Asked asked @ [SinkFinished, MonitorStopped, ControlStopped]\<rparr>)))"

definition reserved ::
  "Store \<Rightarrow> library \<Rightarrow> sup_env \<Rightarrow> start_events \<Rightarrow> end_events \<Rightarrow> backend_impl Registry \<Rightarrow> string \<Rightarrow> string \<Rightarrow> bool
   \<Rightarrow> nat \<Rightarrow> Paths \<Rightarrow> host \<Rightarrow> sup_error list \<times> sup" where
  "reserved st L env ev en reg name expectedID boot_menu l paths h =
     (case startup st L env ev reg name expectedID boot_menu l paths
             \<lparr>su_host = h, su_paths = paths, su_name_locked = True, su_listener = False, su_sink = False,
              su_run = False, su_calls = []\<rparr> of
        (Inl e, s) \<Rightarrow> abandon env ev expectedID [e] s
      | (Inr _, s) \<Rightarrow> finish env en expectedID s)"

text \<open>Errors before the reservation carry no state beyond the host: the calls are empty.\<close>

definition locked_run ::
  "Store \<Rightarrow> library \<Rightarrow> sup_env \<Rightarrow> start_events \<Rightarrow> end_events \<Rightarrow> backend_impl Registry \<Rightarrow> string \<Rightarrow> string \<Rightarrow> bool
   \<Rightarrow> nat \<Rightarrow> host \<Rightarrow> sup_error list \<times> sup_call list \<times> host" where
  "locked_run st L env ev en reg name expectedID boot_menu l h =
     (case loadUnlocked st L h name of
        Inl e \<Rightarrow> (with_unlock ev [ConfigFailed e], [], unlock l h)
      | Inr c \<Rightarrow>
          if cfg_id c \<noteq> expectedID then (with_unlock ev [IDMismatchAtStart], [], unlock l h)
          else let paths = store_paths st c in
            case ensurePrivateDirectory h (p_runtime_dir paths) of
              (Inl e, h1) \<Rightarrow> (with_unlock ev [RuntimeDirectoryFailed e], [], unlock l h1)
            | (Inr _, h1) \<Rightarrow>
                (case ensurePrivateDirectory h1 (parent_dir (p_qemu_log paths)) of
                   (Inl e, h2) \<Rightarrow> (with_unlock ev [LogDirectoryFailed e], [], unlock l h2)
                 | (Inr _, h2) \<Rightarrow>
                     (case tryLifetime st h2 (cfg_id c) of
                        (Inl e, h3) \<Rightarrow> (with_unlock ev [LifetimeFailed e], [], unlock l h3)
                      | (Inr (Acquired lf), h3) \<Rightarrow>
                          (case reserved st L env ev en reg name expectedID boot_menu l paths h3 of
                             (r, s) \<Rightarrow>
                               (let h4 = unlock lf (su_host s) in
                                if su_name_locked s then (with_unlock ev r, su_calls s, unlock l h4)
                                else (r, su_calls s, h4)))
                      | (Inr _, h3) \<Rightarrow> (with_unlock ev [AlreadyRunning], [], unlock l h3))))"

definition ready_sent :: "sup_call list \<Rightarrow> bool" where
  "ready_sent calls \<longleftrightarrow> (\<exists>c \<in> set calls. case c of ReadyOK _ \<Rightarrow> True | _ \<Rightarrow> False)"

definition Supervise ::
  "Store \<Rightarrow> library \<Rightarrow> sup_env \<Rightarrow> start_events \<Rightarrow> end_events \<Rightarrow> backend_impl Registry \<Rightarrow> string \<Rightarrow> string \<Rightarrow> bool
   \<Rightarrow> host \<Rightarrow> sup_error list \<times> sup_call list \<times> host" where
  "Supervise st L env ev en reg name expectedID boot_menu h =
     (if \<not> idPattern expectedID then ([BadExpectedID], [], h)
      else case (case LockName st h name of
                   (Inl e, h1) \<Rightarrow> ([NameLockFailed e], [], h1)
                 | (Inr l, h1) \<Rightarrow> locked_run st L env ev en reg name expectedID boot_menu l h1) of
        (r, calls, h2) \<Rightarrow>
          (r, if r \<noteq> [] \<and> \<not> ready_sent calls
              then calls @ [ReadyFailure (join_with [newline] (List.map (se_error_text env) r))] else calls, h2))"

section \<open>What the steps keep\<close>

text \<open>The locks, the user and the faults of the host.\<close>

definition steady :: "host \<Rightarrow> host \<Rightarrow> bool" where
  "steady h h' \<longleftrightarrow> h_locks h' = h_locks h \<and> h_uid h' = h_uid h \<and> h_fault h' = h_fault h"

lemma steady_refl [simp, intro]: "steady h h"
  by (simp add: steady_def)

lemma steady_trans: "steady a b \<Longrightarrow> steady b c \<Longrightarrow> steady a c"
  by (simp add: steady_def)

lemma grows_steady: "grows h h' \<Longrightarrow> steady h h'"
  by (simp add: steady_def grows_def)

lemma steady_then_do:
  "steady h (snd r) \<Longrightarrow> (\<And>x h1. steady h1 (snd (k x h1))) \<Longrightarrow> steady h (snd (then_do r k))"
  by (auto simp: snd_then_do split: sum.splits intro: steady_trans)

lemma run_write_ops_steady:
  "run_ops path h (write_ops tmp path d) = (e, t) \<Longrightarrow> steady h (last t)"
  by (auto simp: write_ops_def steady_def split: if_splits)

lemma steady_remove_file: "steady h (remove_file p g) = steady h g"
  by (simp add: steady_def remove_file_def)

lemma steady_remove_one [simp]: "steady h (snd (remove_one h p))"
  by (auto simp: steady_def remove_one_fs)

lemma steady_remove_at [simp]: "steady h (snd (remove_at h p))"
  by (auto simp: steady_def remove_at_def)

lemma steady_writeMetadata: "steady h (snd (writeMetadata W h p x))"
  by (auto simp: writeMetadata_def Let_def steady_remove_file split: option.splits prod.splits
      dest: run_write_ops_steady)

lemma steady_write_validated [simp]: "steady h (snd (write_validated V W h p x))"
  by (auto simp: write_validated_def steady_writeMetadata split: option.splits)

lemma steady_ClearFailed [simp]: "steady h (snd (ClearFailedLastExit W h p))"
proof -
  have "steady h g" if "remove_one h p = (r, g)" for r g using steady_remove_one [of h p] that by simp
  then show ?thesis
    by (auto simp: ClearFailedLastExit_def split: option.splits sum.splits prod.splits)
qed

lemma steady_cleanup [simp]: "steady h (snd (CleanupRuntime p h))"
  using cleanup_files_fs [of "p_runtime_dir p" "ephemeral p" h]
  by (auto simp: CleanupRuntime_def steady_def split: option.split prod.split)

lemma steady_prune: "steady h (snd (prune_backups p m n i h))"
proof (induction p m n i h rule: prune_backups.induct)
  case (1 path m n i h)
  show ?case
    by (subst prune_backups.simps)
      (auto split: sum.splits option.splits intro!: steady_then_do 1)
qed

lemma steady_open_serial [simp]: "steady h (snd (openSecureSerialLog h p))"
  by (auto simp: openSecureSerialLog_def Let_def steady_def split: option.splits node.splits)

lemma steady_set_content [simp]: "steady h (set_content p f g) = steady h g"
  by (auto simp: steady_def set_content_def split: option.splits node.splits)

lemma steady_openRotating [simp]: "steady h (snd (openRotatingSerialLog h p m n))"
  unfolding openRotatingSerialLog_def Let_def open_active_def
  by (auto split: option.splits sum.splits intro!: steady_then_do steady_prune)

lemma steady_pipe [simp]: "steady h (snd (openSerialLogPipe h p))"
  using steady_remove_one [of "h\<lparr>h_fs := (h_fs h)(p \<mapsto> Special (h_uid h) mode_file)\<rparr>" p]
  by (auto simp: openSerialLogPipe_def Let_def steady_def)

lemma steady_private [simp]: "steady h (snd (ensurePrivateDirectory h p))"
  using grows_steady [OF mkdir_all_grows [of h p]]
  by (auto simp: ensurePrivateDirectory_def snd_then_do split: sum.splits)

lemma private_run: "ensurePrivateDirectory h p = (r, h') \<Longrightarrow> steady h h'"
  using steady_private [of h p] by simp

text \<open>What a lock attempt does to the locks.\<close>

definition lock_effect :: "host \<Rightarrow> ('e + lock_outcome) \<times> host \<Rightarrow> bool" where
  "lock_effect h r \<longleftrightarrow>
     h_locks (snd r) = (case fst r of Inr (Acquired l) \<Rightarrow> insert l (h_locks h) | _ \<Rightarrow> h_locks h)
     \<and> (\<forall>l. fst r = Inr (Acquired l) \<longrightarrow> l \<notin> h_locks h)"

lemma openLock_effect: "lock_effect h (openLock h p nb)"
  by (auto simp: lock_effect_def openLock_def lock_validated_def Let_def split: option.splits node.splits)

lemma lock_effect_mono: "steady h g \<Longrightarrow> lock_effect g r \<Longrightarrow> lock_effect h r"
  by (auto simp: lock_effect_def steady_def split: sum.splits lock_outcome.splits)

lemma lock_effect_then_do:
  "steady h (snd r) \<Longrightarrow> (\<And>x h1. r = (Inr x, h1) \<Longrightarrow> lock_effect h1 (k x h1)) \<Longrightarrow> lock_effect h (then_do r k)"
  by (cases r; cases "fst r") (simp_all add: lock_effect_def steady_def cong: sum.case_cong lock_outcome.case_cong)

lemma lock_effect_wrap [simp]: "lock_effect h (wrap_err f r) = lock_effect h r"
  by (auto simp: lock_effect_def wrap_err_def split: prod.splits sum.splits)

lemma steady_roots [simp]: "steady h (snd (ensureRoots s h))"
  by (rule grows_steady) (rule ensureRoots_grows)

lemma steady_owned [simp]: "steady h (snd (ensureOwnedDirectory h p))"
  by (rule grows_steady) (rule ensureOwnedDirectory_grows)

lemma tryLifetime_effect: "lock_effect h (tryLifetime s h i)"
  unfolding tryLifetime_def
  by (auto split: option.split intro!: lock_effect_then_do openLock_effect)
    (simp add: lock_effect_def)

lemma LockName_effect:
  "(case LockName s h name of
      (Inl e, h1) \<Rightarrow> h_locks h1 = h_locks h
    | (Inr l, h1) \<Rightarrow> l \<notin> h_locks h \<and> h_locks h1 = insert l (h_locks h))"
proof -
  let ?d = "join_path (DataRoot s) locksDirectory"
  have open_end: "case (case out of Acquired l \<Rightarrow> (Inr l, h3) | _ \<Rightarrow> (Inl NameLockBusy, h3)) of
      (Inl e, h1) \<Rightarrow> h_locks h1 = h_locks h
    | (Inr l, h1) \<Rightarrow> l \<notin> h_locks h \<and> h_locks h1 = insert l (h_locks h)"
    if "openLock h2 p False = (Inr out, h3)" "steady h h2" for h2 p h3 out
    using openLock_effect [of h2 p False] that
    by (auto simp: lock_effect_def steady_def split: lock_outcome.splits)
  have open_err: "h_locks h3 = h_locks h" if "openLock h2 p False = (Inl e, h3)" "steady h h2" for h2 p h3 e
    using openLock_effect [of h2 p False] that by (auto simp: lock_effect_def steady_def)
  show ?thesis
  proof (cases "validateName name")
    case None
    obtain r1 h1 where r1: "ensureRoots s h = (r1, h1)" by fastforce
    obtain r2 h2 where r2: "ensureOwnedDirectory h1 ?d = (r2, h2)" by fastforce
    obtain r3 h3 where r3: "openLock h2 (join_path ?d (name @ ''.lock'')) False = (r3, h3)" by fastforce
    have s1: "steady h h1" using steady_roots [of h s] r1 by simp
    have s2: "steady h h2" using steady_owned [of h1 ?d] r2 s1 by (auto intro: steady_trans)
    show ?thesis
      using None r1 r2 r3 s1 s2 open_end [OF _ s2] open_err [OF _ s2]
      by (cases r1; cases r2; cases r3) (auto simp: LockName_def Let_def steady_def)
  qed (simp add: LockName_def)
qed

section \<open>The trace of a startup\<close>

text \<open>A step that only works on the host and notes the calls \<open>xs\<close>.\<close>

definition adds :: "sup_call list \<Rightarrow> sup \<Rightarrow> sup \<Rightarrow> bool" where
  "adds xs s t \<longleftrightarrow> steady (su_host s) (su_host t) \<and> su_name_locked t = su_name_locked s \<and> su_run t = su_run s
     \<and> su_paths t = su_paths s \<and> su_calls t = su_calls s @ xs"

lemma adds_refl [simp]: "adds [] s s"
  by (simp add: adds_def)

lemma adds_trans: "adds xs s t \<Longrightarrow> adds ys t u \<Longrightarrow> adds (xs @ ys) s u"
  by (auto simp: adds_def intro: steady_trans)

lemma adds_Nil_trans: "adds [] s t \<Longrightarrow> adds ys t u \<Longrightarrow> adds ys s u"
  using adds_trans [of "[]"] by simp

text \<open>Quiet steps note nothing, whatever their result.\<close>

definition quiet :: "'a step \<Rightarrow> bool" where "quiet m \<longleftrightarrow> (\<forall>s. adds [] s (snd (m s)))"

lemma quiet_run: "quiet m \<Longrightarrow> m s = (r, t) \<Longrightarrow> adds [] s t"
  by (auto simp: quiet_def) (metis snd_conv)

lemma quiet_bindS: "quiet m \<Longrightarrow> (\<And>x. quiet (k x)) \<Longrightarrow> quiet (bindS m k)"
  unfolding quiet_def bindS_def
  by (auto split: prod.splits sum.splits) (metis adds_Nil_trans snd_conv)+

lemma quiet_reject [simp]: "quiet (reject e)"
  by (auto simp: quiet_def reject_def split: option.splits)

lemma quiet_lift [simp]: "quiet (lift_result r)"
  by (simp add: quiet_def lift_result_def)

lemma quiet_on_host: "(\<And>h. steady h (snd (f h))) \<Longrightarrow> quiet (on_host f g)"
  by (auto simp: quiet_def on_host_def adds_def split: prod.splits sum.splits) (metis snd_conv)+

lemma quiet_cleanup [simp]: "quiet (cleanup_step p)"
  by (simp add: quiet_def cleanup_step_def adds_def case_prod_unfold)

lemma quiet_sink [simp]: "quiet (sink_step paths)"
  unfolding sink_step_def
  by (intro quiet_bindS quiet_on_host) (simp_all add: quiet_def change_def adds_def)

lemma store_paths_cong: "cfg_name a = cfg_name b \<Longrightarrow> cfg_id a = cfg_id b \<Longrightarrow> store_paths s a = store_paths s b"
  by (simp add: store_paths_def)

lemma loadUnlocked_name: "loadUnlocked s L h name = Inr c \<Longrightarrow> cfg_name c = name"
  by (auto simp: loadUnlocked_def Let_def split: option.splits sum.splits if_splits)

lemma reload_run:
  assumes "reload_step st L name i s = (r, t)" "su_paths s = store_paths st c0" "cfg_name c0 = name" "cfg_id c0 = i"
  shows "adds [] s t \<and> (\<forall>c q. r = Inr (c, q) \<longrightarrow> cfg_name c = name \<and> cfg_id c = i \<and> q = store_paths st c0)"
proof (cases "loadUnlocked st L (su_host s) name")
  case (Inr c)
  have "store_paths st c = store_paths st c0" if "cfg_id c = i"
    using loadUnlocked_name [OF Inr] assms(3,4) that by (intro store_paths_cong) auto
  with Inr assms(1) loadUnlocked_name [OF Inr] assms(2) show ?thesis
    by (auto simp: reload_step_def adds_def split: if_splits)
qed (use assms(1) in \<open>auto simp: reload_step_def\<close>)

text \<open>What a step notes on failure and on success.\<close>

definition emits :: "'a step \<Rightarrow> sup_call list set \<Rightarrow> sup_call list set \<Rightarrow> bool" where
  "emits m E S \<longleftrightarrow> (\<forall>s r t. m s = (r, t) \<longrightarrow>
     (case r of Inl _ \<Rightarrow> \<exists>xs \<in> E. adds xs s t | Inr _ \<Rightarrow> \<exists>xs \<in> S. adds xs s t))"

lemma quiet_emits: "quiet m \<Longrightarrow> emits m {[]} {[]}"
  by (auto simp: emits_def dest: quiet_run split: sum.splits)

lemma emits_quiet_first:
  assumes "quiet m" "\<And>x. emits (k x) E S" "[] \<in> E"
  shows "emits (bindS m k) E S"
  unfolding emits_def
proof (intro allI impI)
  fix s r t assume run: "bindS m k s = (r, t)"
  obtain r1 s1 where m: "m s = (r1, s1)" by fastforce
  have a: "adds [] s s1" by (rule quiet_run [OF assms(1) m])
  show "case r of Inl _ \<Rightarrow> \<exists>xs \<in> E. adds xs s t | Inr _ \<Rightarrow> \<exists>xs \<in> S. adds xs s t"
  proof (cases r1)
    case (Inl e)
    with run m a assms(3) show ?thesis by (auto simp: bindS_simps)
  next
    case (Inr x)
    with run m have "k x s1 = (r, t)" by (simp add: bindS_simps)
    with assms(2) [of x] have "case r of Inl _ \<Rightarrow> \<exists>xs \<in> E. adds xs s1 t | Inr _ \<Rightarrow> \<exists>xs \<in> S. adds xs s1 t"
      unfolding emits_def by blast
    then show ?thesis using adds_Nil_trans [OF a] by (cases r) auto
  qed
qed

lemma emits_quiet_last:
  assumes "emits m E S" "\<And>x. quiet (k x)" "S \<subseteq> E"
  shows "emits (bindS m k) E S"
  unfolding emits_def
proof (intro allI impI)
  fix s r t assume run: "bindS m k s = (r, t)"
  obtain r1 s1 where m: "m s = (r1, s1)" by fastforce
  show "case r of Inl _ \<Rightarrow> \<exists>xs \<in> E. adds xs s t | Inr _ \<Rightarrow> \<exists>xs \<in> S. adds xs s t"
  proof (cases r1)
    case (Inl e)
    with run m assms(1) show ?thesis unfolding emits_def by (fastforce simp: bindS_simps)
  next
    case (Inr x)
    with assms(1) m obtain xs where xs: "xs \<in> S" "adds xs s s1" unfolding emits_def by fastforce
    from run m Inr have "k x s1 = (r, t)" by (simp add: bindS_simps)
    then have "adds [] s1 t" by (rule quiet_run [OF assms(2)])
    with xs(2) have "adds xs s t" using adds_trans by fastforce
    with xs(1) assms(3) show ?thesis by (auto split: sum.splits)
  qed
qed

lemma steady_stale [simp]: "steady h (snd (remove_stale h p))"
  using steady_remove_one [of h p] by (auto simp: remove_stale_def ignore_absent_def)

lemma quiet_node [simp]: "quiet (change (\<lambda>s. s\<lparr>su_host := (su_host s)\<lparr>h_fs := (h_fs (su_host s))(p \<mapsto> Special (h_uid (su_host s)) m)\<rparr>\<rparr>))"
  "quiet (change (\<lambda>s. s\<lparr>su_host := (su_host s)\<lparr>h_fs := (h_fs (su_host s))(p \<mapsto> Special (h_uid (su_host s)) m)\<rparr>, su_listener := True\<rparr>))"
  by (simp_all add: quiet_def change_def adds_def steady_def)

lemma emits_note: "emits (note_call c) {[], [c]} {[c]}"
  by (auto simp: emits_def note_call_def adds_def)

lemma bind_emits: "emits (bind_step ev p) {[], [Bound]} {[Bound]}"
  unfolding bind_step_def
  by (intro emits_quiet_first emits_quiet_last [OF emits_note] quiet_bindS)
    (auto intro: quiet_on_host)

lemma prepare_emits: "emits (prepare env ev reg c paths b) {[], [Bound]} {[Bound]}"
  unfolding prepare_def
  by (intro emits_quiet_first emits_quiet_last [OF bind_emits] quiet_bindS quiet_reject quiet_lift quiet_sink
      quiet_on_host) (simp_all add: WriteRuntimeMetadata_def)

lemma emits_note_first:
  assumes "emits k E S"
  shows "emits (bindS (note_call c) (\<lambda>_. k)) ((#) c ` E) ((#) c ` S)"
  unfolding emits_def
proof (intro allI impI)
  fix s r t assume "bindS (note_call c) (\<lambda>_. k) s = (r, t)"
  then have run: "k (s\<lparr>su_calls := su_calls s @ [c]\<rparr>) = (r, t)" by (simp add: bindS_def note_call_def)
  have step: "adds [c] s (s\<lparr>su_calls := su_calls s @ [c]\<rparr>)" by (simp add: adds_def)
  from assms run have "case r of Inl _ \<Rightarrow> \<exists>xs \<in> E. adds xs (s\<lparr>su_calls := su_calls s @ [c]\<rparr>) t
      | Inr _ \<Rightarrow> \<exists>xs \<in> S. adds xs (s\<lparr>su_calls := su_calls s @ [c]\<rparr>) t"
    unfolding emits_def by blast
  then show "case r of Inl _ \<Rightarrow> \<exists>xs \<in> (#) c ` E. adds xs s t | Inr _ \<Rightarrow> \<exists>xs \<in> (#) c ` S. adds xs s t"
    using adds_trans [OF step] by (cases r) fastforce+
qed

lemma emits_weaken: "emits m E S \<Longrightarrow> E \<subseteq> E' \<Longrightarrow> emits m E' S"
  unfolding emits_def by (fastforce split: sum.splits)

lemma ready_emits: "emits (ready_step env ev i) {[]} {[ReadyOK i]}"
proof -
  have "emits (note_call (ReadyOK i)) {[]} {[ReadyOK i]}"
    by (auto simp: emits_def note_call_def adds_def)
  then show ?thesis unfolding ready_step_def by (intro emits_quiet_first) auto
qed

lemma after_release_emits:
  "emits (after_release L env ev c paths i inst) {[], [AskedStatus]} {[AskedStatus, ReadyOK i]}"
proof -
  have tail: "emits (bindS (reject (ready_state inst)) (\<lambda>_.
     bindS (reject (case Hash L c of Inl e \<Rightarrow> Some (HashFailed e) | Inr _ \<Rightarrow> None)) (\<lambda>_.
     bindS (reject (if cfg_metrics c = None then None else map_option MonitoringFailed (ev_monitoring ev))) (\<lambda>_.
     bindS (reject (map_option ExitedDuringStartup (ev_exited ev))) (\<lambda>_.
     bindS (on_host (\<lambda>h. ClearFailedLastExit (se_last_exit env) h (p_last_exit_metadata paths)) ClearFailed) (\<lambda>_.
     bindS (reject (guard (ev_canceled_ready ev) StartupCanceled)) (\<lambda>_.
     bindS (reject (map_option ExitedDuringStartup (ev_exited_ready ev))) (\<lambda>_.
     ready_step env ev i)))))))) {[]} {[ReadyOK i]}"
    by (intro emits_quiet_first ready_emits quiet_reject quiet_on_host) simp_all
  have "emits (after_release L env ev c paths i inst) {[], [AskedStatus]} ((#) AskedStatus ` {[ReadyOK i]})"
    unfolding after_release_def
    by (intro emits_quiet_first [OF quiet_reject] emits_weaken [OF emits_note_first [OF tail]]) auto
  then show ?thesis by simp
qed

lemma publish_ready_split:
  "publish_ready L env ev l c paths i inst s =
     bindS (reject (map_option NameUnlockFailed (ev_unlock ev))) (\<lambda>_. after_release L env ev c paths i inst)
       (s\<lparr>su_host := unlock l (su_host s), su_name_locked := False\<rparr>)"
  by (simp add: publish_ready_def release_name_def change_def bindS_def)

lemma released_emits:
  "emits (bindS (reject (map_option NameUnlockFailed (ev_unlock ev))) (\<lambda>_. after_release L env ev c paths i inst))
     {[], [AskedStatus]} {[AskedStatus, ReadyOK i]}"
  by (intro emits_quiet_first [OF quiet_reject] after_release_emits) simp

text \<open>A backend whose start does not touch the locks of the host.\<close>

definition lock_neutral :: "backend_impl Registry \<Rightarrow> bool" where
  "lock_neutral reg \<longleftrightarrow> (\<forall>n b. Lookup reg n = Inr b \<longrightarrow> (\<forall>c p cmd h. steady h (snd (be_start b c p cmd h))))"

text \<open>The whole startup: which calls it can have made, whether a child runs, and the locks.\<close>

definition locks_after :: "nat \<Rightarrow> host \<Rightarrow> sup \<Rightarrow> bool" where
  "locks_after l h t \<longleftrightarrow> h_uid (su_host t) = h_uid h \<and> h_fault (su_host t) = h_fault h
     \<and> h_locks (su_host t) = (if su_name_locked t then h_locks h else h_locks h - {l})"

lemma startup_run:
  assumes "startup st L env ev reg name i b l paths s = (r, t)" and "paths = store_paths st c0"
    and "cfg_name c0 = name" and "cfg_id c0 = i" and "su_paths s = paths" and "su_calls s = []"
    and "su_name_locked s" and "\<not> su_run s" and "lock_neutral reg"
  shows "su_paths t = paths \<and> locks_after l (su_host s) t
    \<and> (\<exists>cmd. (case r of
          Inl _ \<Rightarrow> su_calls t \<in> {[], [Bound], [Bound, Tried cmd]} \<and> \<not> su_run t
            \<or> su_calls t \<in> {[Bound, Tried cmd, Started cmd], [Bound, Tried cmd, Started cmd, AskedStatus]} \<and> su_run t
        | Inr _ \<Rightarrow> su_calls t = [Bound, Tried cmd, Started cmd, AskedStatus, ReadyOK i] \<and> su_run t))"
proof -
  obtain r1 s1 where 1: "cleanup_step paths s = (r1, s1)" by fastforce
  have a1: "adds [] s s1" by (rule quiet_run [OF quiet_cleanup 1])
  obtain r2 s2 where 2: "reload_step st L name i s1 = (r2, s2)" by fastforce
  have "su_paths s1 = store_paths st c0" using a1 assms(2,5) by (simp add: adds_def)
  note reload = reload_run [OF 2 this assms(3,4)]
  have a2: "adds [] s s2" using adds_Nil_trans [OF a1] reload by blast
  show ?thesis
  proof (cases "\<exists>e. r1 = Inl e \<or> r2 = Inl e")
    case True
    then have "(\<exists>e. r = Inl e) \<and> (t = s1 \<or> t = s2)"
      using assms(1) 1 2 by (cases r1) (auto simp: startup_def bindS_simps)
    then show ?thesis using a1 a2 assms(5-8) by (auto simp: adds_def locks_after_def steady_def)
  next
    case False
    then obtain x1 c where r12: "r1 = Inr x1" "r2 = Inr (c, paths)"
      using reload assms(2) by (cases r1; cases r2) auto
    obtain r3 s3 where 3: "prepare env ev reg c paths b s2 = (r3, s3)" by fastforce
    have prep: "case r3 of Inl _ \<Rightarrow> \<exists>xs \<in> {[], [Bound]}. adds xs s2 s3 | Inr _ \<Rightarrow> \<exists>xs \<in> {[Bound]}. adds xs s2 s3"
      using prepare_emits 3 unfolding emits_def by blast
    show ?thesis
    proof (cases r3)
      case (Inl e)
      then have "r = Inl e \<and> t = s3" using assms(1) 1 2 3 r12 by (simp add: startup_def bindS_simps)
      moreover have "adds [] s s3 \<or> adds [Bound] s s3" using prep Inl adds_Nil_trans [OF a2] by auto
      ultimately show ?thesis using assms(5-8) by (auto simp: adds_def locks_after_def steady_def)
    next
      case (Inr bc)
      obtain im cmd where bc: "bc = (im, cmd)" by fastforce
      have a3: "adds [Bound] s s3" using prep Inr adds_Nil_trans [OF a2] by auto
      obtain n where "Lookup reg n = Inr im"
        using 3 Inr bc by (auto simp: prepare_def bindS_Inr lift_result_def split: sum.splits)
      then have neutral: "steady h (snd (be_start im c' p cmd' h))" for c' p cmd' h
        using assms(9) unfolding lock_neutral_def by blast
      obtain r4 h4 where 4: "be_start im c (backendPaths paths) cmd (su_host s3) = (r4, h4)" by fastforce
      have st4: "steady (su_host s) h4"
        using neutral [of "su_host s3" c "backendPaths paths" cmd] 4 a3 by (auto simp: adds_def intro: steady_trans)
      show ?thesis
      proof (cases r4)
        case Inl4: (Inl e)
        then have "(\<exists>e. r = Inl e) \<and> t = s3\<lparr>su_host := h4, su_calls := su_calls s3 @ [Tried cmd]\<rparr>"
          using assms(1) 1 2 3 4 r12 Inr bc by (auto simp: startup_def bindS_simps start_step_def bindS_def)
        then show ?thesis using a3 st4 assms(5-8) by (auto simp: adds_def locks_after_def steady_def)
      next
        case Inr4: (Inr inst)
        define s4 where "s4 = s3\<lparr>su_host := h4, su_calls := su_calls s3 @ [Tried cmd, Started cmd], su_run := True\<rparr>"
        define s5 where "s5 = s4\<lparr>su_host := unlock l (su_host s4), su_name_locked := False\<rparr>"
        have run: "bindS (reject (map_option NameUnlockFailed (ev_unlock ev))) (\<lambda>_. after_release L env ev c paths i inst) s5 = (r, t)"
          using assms(1) 1 2 3 4 r12 Inr bc Inr4
          by (simp add: startup_def bindS_simps start_step_def publish_ready_split s4_def s5_def)
        have last: "case r of Inl _ \<Rightarrow> \<exists>xs \<in> {[], [AskedStatus]}. adds xs s5 t
            | Inr _ \<Rightarrow> \<exists>xs \<in> {[AskedStatus, ReadyOK i]}. adds xs s5 t"
          using released_emits run unfolding emits_def by blast
        have s5: "su_calls s5 = [Bound, Tried cmd, Started cmd]" "su_run s5" "\<not> su_name_locked s5" "su_paths s5 = paths"
          "h_locks (su_host s5) = h_locks (su_host s) - {l}" "h_uid (su_host s5) = h_uid (su_host s)"
          "h_fault (su_host s5) = h_fault (su_host s)"
          using a3 st4 assms(5-8) by (auto simp: s5_def s4_def adds_def unlock_def steady_def)
        show ?thesis
          by (cases r) (use last s5 in \<open>auto simp: adds_def locks_after_def steady_def\<close>)
      qed
    qed
  qed
qed

section \<open>Ending\<close>

lemma writeMetadata_frame:
  assumes "q \<noteq> path"
  shows "h_fs (snd (writeMetadata W h path x)) q = h_fs h q"
proof -
  let ?tmp = "metadata_temp h (parent_dir path)"
  have "h_fs (remove_file ?tmp (last t)) q = h_fs h q"
    if run: "run_ops path h (write_ops ?tmp path d) = (e, t)" and free: "h_fs h ?tmp = None" for d e t
  proof (cases "q = ?tmp \<or> ?tmp = path")
    case True
    then show ?thesis
    proof
      assume "?tmp = path"
      with run assms show ?thesis by (auto simp: write_ops_def remove_file_def split: if_splits)
    qed (simp add: remove_file_def free)
  next
    case False
    with run_write_ops [OF run] free assms show ?thesis by (auto simp: remove_file_def)
  qed
  then show ?thesis
    by (auto simp: writeMetadata_def Let_def split: option.splits prod.splits)
qed

lemma write_validated_frame: "q \<noteq> path \<Longrightarrow> h_fs (snd (write_validated V W h path x)) q = h_fs h q"
  by (auto simp: write_validated_def writeMetadata_frame split: option.splits)

lemma WriteLastExit_absent:
  "h_fs h q = None \<Longrightarrow> q \<noteq> path \<Longrightarrow> h_fs (snd (WriteLastExit W h path x)) q = None"
  by (simp add: WriteLastExit_def write_validated_frame)

lemma steady_last_exit [simp]: "steady h (snd (WriteLastExit W h p x))"
  by (simp add: WriteLastExit_def)

lemma last_exit_steady: "WriteLastExit W h p x = (r, h') \<Longrightarrow> steady h h'"
  using steady_last_exit [of h W p x] by simp

lemma cleanup_absent:
  "fst (CleanupRuntime (store_paths s c) h) = [] \<Longrightarrow> q \<in> set (ephemeral (store_paths s c)) \<Longrightarrow>
   h_fs (snd (CleanupRuntime (store_paths s c) h)) q = None"
  using CleanupRuntime_fs [of s c h q] CleanupRuntime_ok [of "store_paths s c" h] by auto

lemma recordFailure_run:
  assumes "recordFailure env p i code cause h = (r, h')"
  shows "steady h h' \<and> set cause \<subseteq> set r \<and> (\<forall>q. h_fs h q = None \<longrightarrow> q \<noteq> p_last_exit_metadata p \<longrightarrow> h_fs h' q = None)"
proof -
  obtain w h1 where w: "WriteLastExit (se_last_exit env) h (p_last_exit_metadata p)
      (last_exit_of env i code (join_with [newline] (List.map (se_error_text env) cause))) = (w, h1)" by fastforce
  have "steady h h1" "\<forall>q. h_fs h q = None \<longrightarrow> q \<noteq> p_last_exit_metadata p \<longrightarrow> h_fs h1 q = None"
    using steady_last_exit WriteLastExit_absent w by (metis snd_conv)+
  then show ?thesis using assms w by (auto simp: recordFailure_def split: sum.splits)
qed

lemma close_listener_run:
  "steady (su_host s) (su_host (close_listener s)) \<and> su_name_locked (close_listener s) = su_name_locked s
   \<and> su_run (close_listener s) = su_run s \<and> su_sink (close_listener s) = su_sink s
   \<and> su_paths (close_listener s) = su_paths s \<and> su_calls (close_listener s) = su_calls s"
  by (simp add: close_listener_def)

lemma record_end_run:
  assumes "record_end env i intentional cause es p h = (r, h')"
  shows "steady h h' \<and> (\<forall>q. h_fs h q = None \<longrightarrow> q \<noteq> p_last_exit_metadata p \<longrightarrow> h_fs h' q = None)
    \<and> (es \<noteq> [] \<longrightarrow> CleanupFailed es \<in> set r)"
proof (cases "intentional \<and> es = []")
  case True
  obtain w h1 where w: "WriteLastExit (se_last_exit env) h (p_last_exit_metadata p) (last_exit_of env i 0 '''') = (w, h1)"
    by fastforce
  have h1: "steady h h1" "\<forall>q. h_fs h q = None \<longrightarrow> q \<noteq> p_last_exit_metadata p \<longrightarrow> h_fs h1 q = None"
    using steady_last_exit WriteLastExit_absent w by (metis snd_conv)+
  show ?thesis
  proof (cases w)
    case (Inl e)
    with True assms w have "recordFailure env p i 1 [LastExitFailed e] h1 = (r, h')" by (simp add: record_end_def)
    from recordFailure_run [OF this] h1 True show ?thesis by (auto intro: steady_trans)
  next
    case (Inr u)
    with True assms w h1 show ?thesis by (simp add: record_end_def)
  qed
next
  case False
  then have "recordFailure env p i 1 (cause @ (if es = [] then [] else [CleanupFailed es])) h = (r, h')"
    using assms by (auto simp: record_end_def)
  from recordFailure_run [OF this] show ?thesis by auto
qed

lemma abandon_run:
  assumes "abandon env ev i cause s = (r, t)" and paths: "su_paths s = store_paths st c"
  shows "steady (su_host s) (su_host t) \<and> su_name_locked t = su_name_locked s
    \<and> su_calls t = su_calls s @ [MonitorStopped] @ (if su_run s then [Forced] else []) @ (if su_sink s then [SinkAborted] else [])
    \<and> ((\<forall>q \<in> set (ephemeral (su_paths s)). h_fs (su_host t) q = None) \<or> (\<exists>es. CleanupFailed es \<in> set r))"
proof -
  define u where "u = close_listener s"
  have u: "steady (su_host s) (su_host u)" "su_name_locked u = su_name_locked s" "su_run u = su_run s"
    "su_sink u = su_sink s" "su_paths u = store_paths st c" "su_calls u = su_calls s"
    using close_listener_run [of s] paths by (auto simp: u_def)
  obtain es h1 where cl: "CleanupRuntime (su_paths u) (su_host u) = (es, h1)" by fastforce
  have h1: "steady (su_host u) h1" using steady_cleanup [of "su_host u" "su_paths u"] cl by simp
  have gone: "h_fs h1 q = None \<and> q \<noteq> p_last_exit_metadata (store_paths st c)"
    if "es = []" "q \<in> set (ephemeral (store_paths st c))" for q
    using cleanup_absent [of st c "su_host u" q] that cl u(5) evidence_not_ephemeral(1) [of st c] by auto
  define intent where "intent \<longleftrightarrow> ev_signal ev \<and> (if su_run u then ev_force_err ev else None) = None"
  define more where "more = cause @ (case (if su_run u then ev_force_err ev else None) of None \<Rightarrow> [] | Some e \<Rightarrow> [ForceFailed e])
      @ (case (if su_sink u then ev_abort_err ev else None) of None \<Rightarrow> [] | Some e \<Rightarrow> [AbortFailed e])"
  obtain r2 h2 where last: "record_end env i intent more es (store_paths st c) h1 = (r2, h2)" by fastforce
  have t: "r = r2" "su_host t = h2" "su_name_locked t = su_name_locked u"
      "su_calls t = su_calls u @ [MonitorStopped] @ (if su_run u then [Forced] else []) @ (if su_sink u then [SinkAborted] else [])"
    using assms(1) cl last u(5)
    by (simp_all add: abandon_def Let_def u_def [symmetric] intent_def [symmetric] more_def [symmetric])
      (auto simp: u_def)
  note fin = record_end_run [OF last]
  have "steady (su_host s) h2" using u(1) h1 fin by (blast intro: steady_trans)
  moreover have "(\<forall>q \<in> set (ephemeral (store_paths st c)). h_fs h2 q = None) \<or> (\<exists>es. CleanupFailed es \<in> set r2)"
    using fin gone by (cases "es = []") blast+
  ultimately show ?thesis using t u paths by simp
qed

lemma finish_run:
  assumes "finish env en i s = (r, t)"
  shows "steady (su_host s) (su_host t) \<and> su_name_locked t = su_name_locked s
    \<and> su_calls t = su_calls s @ [Served] @ List.map Asked (snd (waitForTermination (en_wake en) (en_stop_err en)))
        @ [SinkFinished, MonitorStopped, ControlStopped]"
proof -
  define u where "u = close_listener s"
  note u = close_listener_run [of s, folded u_def]
  obtain f h where f: "finalizeRun env (su_paths u) i (en_exit en) (en_intentional en)
      (fst (waitForTermination (en_wake en) (en_stop_err en))) (en_force_err en) (su_host u) = (f, h)" by fastforce
  have "steady (su_host u) h"
  proof -
    obtain es h1 where cl: "CleanupRuntime (su_paths u) (su_host u) = (es, h1)" by fastforce
    have "steady (su_host u) h1" using steady_cleanup [of "su_host u" "su_paths u"] cl by simp
    moreover have "steady h1 h"
      using f cl by (auto simp: finalizeRun_def Let_def dest: last_exit_steady split: prod.splits sum.splits)
    ultimately show ?thesis by (rule steady_trans)
  qed
  with assms f u show ?thesis
    by (auto simp: finish_def Let_def u_def [symmetric] case_prod_unfold intro: steady_trans)
qed

text \<open>The two shapes of a reserved run.\<close>

definition served_calls :: "Command \<Rightarrow> string \<Rightarrow> end_events \<Rightarrow> sup_call list" where
  "served_calls cmd i en =
     [Bound, Tried cmd, Started cmd, AskedStatus, ReadyOK i, Served]
     @ List.map Asked (snd (waitForTermination (en_wake en) (en_stop_err en))) @ [SinkFinished, MonitorStopped, ControlStopped]"

definition abandoned_calls :: "Command \<Rightarrow> sup_call list \<Rightarrow> bool" where
  "abandoned_calls cmd calls \<longleftrightarrow> (\<exists>pre sink.
     pre \<in> {[], [Bound], [Bound, Tried cmd], [Bound, Tried cmd, Started cmd], [Bound, Tried cmd, Started cmd, AskedStatus]}
     \<and> sink \<in> {[], [SinkAborted]}
     \<and> calls = pre @ [MonitorStopped] @ (if Started cmd \<in> set pre then [Forced] else []) @ sink)"

definition undone :: "Paths \<Rightarrow> sup_error list \<Rightarrow> host \<Rightarrow> bool" where
  "undone p r h \<longleftrightarrow> (\<forall>q \<in> set (ephemeral p). h_fs h q = None) \<or> (\<exists>es. CleanupFailed es \<in> set r)"

lemma with_unlock_Nil [simp]: "with_unlock ev (e # es) \<noteq> []"
  by (simp add: with_unlock_def)



lemma reserved_run:
  assumes "reserved st L env ev en reg name i b l paths h = (r, t)" and "paths = store_paths st c0"
    and "cfg_name c0 = name" and "cfg_id c0 = i" and "lock_neutral reg"
  shows "locks_after l h t \<and> (\<exists>cmd. su_calls t = served_calls cmd i en
      \<or> abandoned_calls cmd (su_calls t) \<and> undone paths r (su_host t))"
proof -
  define s0 where "s0 = \<lparr>su_host = h, su_paths = paths, su_name_locked = True, su_listener = False, su_sink = False,
              su_run = False, su_calls = []\<rparr>"
  obtain r1 s where 1: "startup st L env ev reg name i b l paths s0 = (r1, s)" by fastforce
  have init: "su_paths s0 = paths" "su_calls s0 = []" "su_name_locked s0" "\<not> su_run s0" "su_host s0 = h"
    by (simp_all add: s0_def)
  note st = startup_run [OF 1 assms(2-4) init(1-4) assms(5), unfolded init(5)]
  show ?thesis
  proof (cases r1)
    case (Inl e)
    have run: "abandon env ev i [e] s = (r, t)" using assms(1) 1 Inl by (simp add: reserved_def s0_def)
    have "su_paths s = store_paths st c0" using st assms(2) by simp
    note ab = abandon_run [OF run this]
    have "locks_after l h t" using ab st by (simp add: locks_after_def steady_def)
    moreover have "undone paths r (su_host t)" using ab st by (simp add: undone_def)
    moreover have "\<exists>cmd. abandoned_calls cmd (su_calls t)"
    proof -
      from st Inl obtain cmd where pre: "su_calls s \<in> {[], [Bound], [Bound, Tried cmd]} \<and> \<not> su_run s
          \<or> su_calls s \<in> {[Bound, Tried cmd, Started cmd], [Bound, Tried cmd, Started cmd, AskedStatus]} \<and> su_run s"
        by auto
      then have "su_run s = (Started cmd \<in> set (su_calls s))" by auto
      with pre ab show ?thesis
        unfolding abandoned_calls_def
        by (intro exI [of _ cmd] exI [of _ "su_calls s"] exI [of _ "if su_sink s then [SinkAborted] else []"]) auto
    qed
    ultimately show ?thesis by blast
  next
    case (Inr u)
    have run: "finish env en i s = (r, t)" using assms(1) 1 Inr by (simp add: reserved_def s0_def)
    note fin = finish_run [OF run]
    have "locks_after l h t" using fin st by (simp add: locks_after_def steady_def)
    moreover have "\<exists>cmd. su_calls t = served_calls cmd i en" using fin st Inr by (auto simp: served_calls_def)
    ultimately show ?thesis by blast
  qed
qed

lemma locked_run_outcome:
  assumes "locked_run st L env ev en reg name i b l h = (r, calls, h')" and "lock_neutral reg" and "l \<in> h_locks h"
  shows "h_locks h' = h_locks h - {l}
    \<and> (calls = [] \<and> r \<noteq> []
       \<or> (\<exists>cmd. calls = served_calls cmd i en)
       \<or> (\<exists>cmd c. abandoned_calls cmd calls \<and> cfg_name c = name \<and> cfg_id c = i \<and> undone (store_paths st c) r h'))"
proof (cases "loadUnlocked st L h name")
  case (Inl e)
  with assms show ?thesis by (auto simp: locked_run_def unlock_def)
next
  case (Inr c)
  have name: "cfg_name c = name" by (rule loadUnlocked_name [OF Inr])
  show ?thesis
  proof (cases "cfg_id c = i")
    case False
    with Inr assms show ?thesis by (auto simp: locked_run_def unlock_def)
  next
    case i: True
    let ?p = "store_paths st c"
    obtain r1 h1 where 1: "ensurePrivateDirectory h (p_runtime_dir ?p) = (r1, h1)" by fastforce
    obtain r2 h2 where 2: "ensurePrivateDirectory h1 (parent_dir (p_qemu_log ?p)) = (r2, h2)" by fastforce
    obtain r3 h3 where 3: "tryLifetime st h2 (cfg_id c) = (r3, h3)" by fastforce
    have s1: "steady h h1" by (rule private_run [OF 1])
    have s2: "steady h h2" by (rule steady_trans [OF s1 private_run [OF 2]])
    have lt: "lock_effect h2 (r3, h3)" using tryLifetime_effect [of h2 st "cfg_id c"] 3 by simp
    consider (early) "calls = [] \<and> r \<noteq> [] \<and> (h' = unlock l h1 \<or> h' = unlock l h2 \<or> h' = unlock l h3 \<and> h_locks h3 = h_locks h2)"
      | (run) lf t r0 where "r3 = Inr (Acquired lf)" "reserved st L env ev en reg name i b l ?p h3 = (r0, t)" "calls = su_calls t"
        "h' = (if su_name_locked t then unlock l (unlock lf (su_host t)) else unlock lf (su_host t))"
        "r = (if su_name_locked t then with_unlock ev r0 else r0)"
      using assms(1) Inr i 1 2 3 lt
      by (auto simp: locked_run_def Let_def lock_effect_def split: sum.splits prod.splits lock_outcome.splits if_splits)
    then show ?thesis
    proof cases
      case early
      with s1 s2 show ?thesis by (auto simp: unlock_def steady_def)
    next
      case run
      note out = reserved_run [OF run(2) refl name i assms(2)]
      have lf: "lf \<notin> h_locks h" "h_locks h3 = insert lf (h_locks h)"
        using lt run(1) s2 by (auto simp: lock_effect_def steady_def)
      have "h_locks h' = h_locks h - {l}"
        using out lf run(4) assms(3) by (auto simp: locks_after_def unlock_def)
      moreover have "undone ?p r0 (su_host t) \<Longrightarrow> undone ?p r h'"
        using run(4,5) by (cases "su_name_locked t") (auto simp: undone_def unlock_def with_unlock_def)
      ultimately show ?thesis using out run(3) name i by blast
    qed
  qed
qed

lemma supervise_outcome:
  assumes "Supervise st L env ev en reg name i b h = (r, calls, h')" and "lock_neutral reg"
  shows "h_locks h' = h_locks h
    \<and> (r \<noteq> [] \<and> (calls = [] \<or> (\<exists>e. calls = [ReadyFailure e]))
       \<or> (\<exists>cmd. calls = served_calls cmd i en)
       \<or> (\<exists>cmd c calls'. abandoned_calls cmd calls' \<and> cfg_name c = name \<and> cfg_id c = i \<and> undone (store_paths st c) r h'
            \<and> (if r = [] then calls = calls' else \<exists>e. calls = calls' @ [ReadyFailure e])))
    \<and> (r \<noteq> [] \<and> idPattern i \<and> \<not> ready_sent calls \<longrightarrow> (\<exists>e. last calls = ReadyFailure e))"
proof (cases "idPattern i")
  case False
  with assms show ?thesis by (auto simp: Supervise_def)
next
  case True
  obtain r0 h1 where l: "LockName st h name = (r0, h1)" by fastforce
  have not_ready: "\<not> ready_sent calls'" if "abandoned_calls cmd calls'" for cmd calls'
    using that by (auto simp: abandoned_calls_def ready_sent_def)
  have ready: "ready_sent (served_calls cmd i en)" for cmd
    by (simp add: ready_sent_def served_calls_def)
  show ?thesis
  proof (cases r0)
    case (Inl e)
    with assms l True LockName_effect [of h st name] show ?thesis
      by (auto simp: Supervise_def ready_sent_def)
  next
    case (Inr lk)
    obtain r2 calls2 h2 where run: "locked_run st L env ev en reg name i b lk h1 = (r2, calls2, h2)"
      by (metis prod_cases3)
    have lk: "lk \<in> h_locks h1" "h_locks h1 - {lk} = h_locks h"
      using LockName_effect [of h st name] l Inr by auto
    note out = locked_run_outcome [OF run assms(2) lk(1)]
    have res: "r = r2" "h' = h2" "calls = (if r2 \<noteq> [] \<and> \<not> ready_sent calls2
        then calls2 @ [ReadyFailure (join_with [newline] (List.map (se_error_text env) r2))] else calls2)"
      using assms(1) True l Inr run by (auto simp: Supervise_def split: if_splits)
    from out consider (none) "calls2 = []" "r2 \<noteq> []" | (served) cmd where "calls2 = served_calls cmd i en"
      | (abandoned) cmd c where "abandoned_calls cmd calls2" "cfg_name c = name" "cfg_id c = i" "undone (store_paths st c) r2 h2"
      by blast
    then show ?thesis
    proof cases
      case none
      with res out lk show ?thesis by (auto simp: ready_sent_def)
    next
      case served
      with res out lk ready [of cmd] show ?thesis by auto
    next
      case abandoned
      with res out lk not_ready [OF abandoned(1)] show ?thesis by (cases "r2 = []") auto
    qed
  qed
qed

lemma grows_private: "grows h (snd (ensurePrivateDirectory h p))"
  using mkdir_all_grows [of h p] by (auto simp: ensurePrivateDirectory_def snd_then_do split: sum.splits)

lemma keeps_unlock [simp]: "keeps h (unlock l g) = keeps h g"
  by (simp add: keeps_def unlock_def)

text \<open>While the lifetime lock is held elsewhere nothing is done.\<close>

lemma locked_run_refused:
  assumes "lock_held h (lifetime_path st i)"
  shows "\<exists>r h'. locked_run st L env ev en reg name i b l h = (r, [], h') \<and> r \<noteq> [] \<and> keeps h h'"
proof (cases "loadUnlocked st L h name")
  case (Inl e)
  then show ?thesis by (simp add: locked_run_def)
next
  case (Inr c)
  let ?p = "store_paths st c"
  show ?thesis
  proof (cases "cfg_id c = i")
    case False
    with Inr show ?thesis by (simp add: locked_run_def)
  next
    case i: True
    obtain r1 h1 where 1: "ensurePrivateDirectory h (p_runtime_dir ?p) = (r1, h1)" by fastforce
    obtain r2 h2 where 2: "ensurePrivateDirectory h1 (parent_dir (p_qemu_log ?p)) = (r2, h2)" by fastforce
    obtain r3 h3 where 3: "tryLifetime st h2 (cfg_id c) = (r3, h3)" by fastforce
    have g1: "grows h h1" using grows_private 1 by (metis snd_conv)
    have g2: "grows h h2" using grows_private 2 g1 by (metis grows_trans snd_conv)
    have k3: "keeps h h3" using tryLifetime_keeps 3 grows_imp_keeps [OF g2] by (metis keeps_trans snd_conv)
    have "lock_held h2 (lifetime_path st (cfg_id c))" using grows_held [OF g2 assms] i by simp
    then have "r3 \<noteq> Inr (Acquired lf)" for lf using 3 lifetime.exclusive by metis
    then show ?thesis
      using Inr i 1 2 3 k3 grows_imp_keeps [OF g1] grows_imp_keeps [OF g2]
      by (auto simp: locked_run_def Let_def split: sum.splits lock_outcome.splits)
  qed
qed

section \<open>Properties\<close>

text \<open>C1. Every run of the supervisor gives back the locks it took: at its end, whatever happened, the
  host's locks are those of its beginning, provided the backend does not touch them.\<close>

theorem supervise_releases_locks:
  assumes "Supervise st L env ev en reg name i b h = (r, calls, h')" and "lock_neutral reg"
  shows "h_locks h' = h_locks h"
  using supervise_outcome [OF assms] by blast

text \<open>C3. Readiness is only reported for a machine whose control socket is bound, whose backend was started
  and asked for its state; then the run is served, and ends with the stop calls of what woke it.\<close>

theorem ready_means_started:
  assumes "Supervise st L env ev en reg name i b h = (r, calls, h')" and "lock_neutral reg"
    and "ready_sent calls"
  shows "\<exists>cmd. calls = [Bound, Tried cmd, Started cmd, AskedStatus, ReadyOK i, Served]
     @ List.map Asked (snd (waitForTermination (en_wake en) (en_stop_err en))) @ [SinkFinished, MonitorStopped, ControlStopped]"
proof -
  have "\<not> ready_sent (calls' @ [ReadyFailure e])" if "abandoned_calls cmd calls'" for cmd calls' e
    using that by (auto simp: abandoned_calls_def ready_sent_def)
  moreover have "\<not> ready_sent calls'" if "abandoned_calls cmd calls'" for cmd calls'
    using that by (auto simp: abandoned_calls_def ready_sent_def)
  moreover have "\<not> ready_sent []" "\<not> ready_sent [ReadyFailure e]" for e
    by (simp_all add: ready_sent_def)
  ultimately have "\<exists>cmd. calls = served_calls cmd i en"
    using supervise_outcome [OF assms(1,2)] assms(3) by (auto split: if_splits)
  then show ?thesis by (simp add: served_calls_def)
qed

text \<open>C2. A start that never became ready is undone: its child, if one was started, was forced down and
  never served; once the machine was reserved, its runtime files are gone or the failure to remove them
  is reported; and every error has been told to the parent on the readiness pipe.\<close>

theorem failed_start_is_undone:
  assumes "Supervise st L env ev en reg name i b h = (r, calls, h')" and "lock_neutral reg"
    and "\<not> ready_sent calls"
  shows "((\<exists>cmd. Started cmd \<in> set calls) = (Forced \<in> set calls)) \<and> Served \<notin> set calls
    \<and> (MonitorStopped \<in> set calls \<longrightarrow> (\<exists>c. cfg_name c = name \<and> cfg_id c = i \<and>
         ((\<forall>q \<in> set (ephemeral (store_paths st c)). h_fs h' q = None) \<or> (\<exists>es. CleanupFailed es \<in> set r))))
    \<and> (r \<noteq> [] \<and> idPattern i \<longrightarrow> (\<exists>e. last calls = ReadyFailure e))"
proof -
  have ready: "ready_sent (served_calls cmd i en)" for cmd
    by (simp add: ready_sent_def served_calls_def)
  have ab: "((\<exists>c. Started c \<in> set calls') = (Forced \<in> set calls')) \<and> Served \<notin> set calls'"
    if "abandoned_calls cmd calls'" for cmd calls'
    using that by (auto simp: abandoned_calls_def)
  note out = supervise_outcome [OF assms(1,2)]
  then consider (none) "calls = [] \<or> (\<exists>e. calls = [ReadyFailure e])"
    | (abandoned) cmd c calls' where "abandoned_calls cmd calls'" "cfg_name c = name" "cfg_id c = i"
        "undone (store_paths st c) r h'" "calls = calls' \<or> (\<exists>e. calls = calls' @ [ReadyFailure e])"
    using assms(3) ready by (metis (no_types, lifting))
  then show ?thesis
  proof cases
    case none
    moreover have "r \<noteq> [] \<and> idPattern i \<longrightarrow> (\<exists>e. last calls = ReadyFailure e)" using out assms(3) by blast
    ultimately show ?thesis by auto
  next
    case abandoned
    then have "((\<exists>c. Started c \<in> set calls) = (Forced \<in> set calls)) \<and> Served \<notin> set calls"
      using ab [OF abandoned(1)] by auto
    with abandoned out assms(3) show ?thesis unfolding undone_def by blast
  qed
qed

text \<open>Two supervisors never run one machine: while the lifetime lock is held, another run ends with an
  error without binding, starting or cleaning anything, and every node that existed is still there.\<close>

lemma second_supervisor_refused:
  assumes "lock_held h (lifetime_path st i)" and "Supervise st L env ev en reg name i b h = (r, calls, h')"
  shows "r \<noteq> [] \<and> (calls = [] \<or> (\<exists>e. calls = [ReadyFailure e])) \<and> keeps h h'"
proof (cases "idPattern i")
  case True
  obtain r0 h1 where l: "LockName st h name = (r0, h1)" by fastforce
  have k: "keeps h h1" using LockName_keeps [of h st name] l by simp
  have "lock_held h1 (lifetime_path st i)" using LockName_held [OF assms(1), of st name] l by simp
  note refused = locked_run_refused [OF this, of L env ev en reg name b]
  show ?thesis
  proof (cases r0)
    case (Inl e)
    with assms(2) True l k show ?thesis by (auto simp: Supervise_def ready_sent_def)
  next
    case (Inr lk)
    obtain r2 h2 where "locked_run st L env ev en reg name i b lk h1 = (r2, [], h2)" "r2 \<noteq> []" "keeps h1 h2"
      using refused by blast
    with assms(2) True l k Inr show ?thesis by (auto simp: Supervise_def ready_sent_def intro: keeps_trans)
  qed
qed (use assms(2) in \<open>auto simp: Supervise_def\<close>)

text \<open>C36. A machine with a VNC display never gets a command: the runtime paths the supervisor hands to QEMU
  have no secret path, so the rendering, and with it every start, fails before the backend is run.\<close>

theorem vnc_machine_never_starts:
  assumes "cfg_vnc c \<noteq> None" and "\<And>b. Lookup reg (cfg_backend c) = Inr b \<Longrightarrow> be_render b = Render"
  shows "\<exists>e. fst (prepare env ev reg c paths boot_menu s) = Inl e"
proof -
  have "\<exists>e. Render c (backendPaths paths) boot_menu = Inl e"
    by (rule Render_vnc_needs_secret [OF assms(1)]) (simp add: backendPaths_def is_abs_path_def has_prefix_def)
  then have "prepare env ev reg c paths boot_menu s \<noteq> (Inr x, t)" for x t
    using assms(2) by (auto simp: prepare_def bindS_Inr lift_result_def split: sum.splits)
  then show ?thesis by (metis prod.collapse sum.exhaust_sel)
qed

text \<open>A backend killed by a signal leaves no record: its exit code is negative, the last-exit metadata
  refuse it, and with no earlier record the machine that crashed is then reported as stopped.\<close>

lemma signal_death_unrecorded:
  assumes "finalizeRun env (store_paths st c) i exit False False None h = (r, h')"
    and "ex_code exit < 0" and "fst (CleanupRuntime (store_paths st c) h) = []"
    and "h_fs h (p_last_exit_metadata (store_paths st c)) = None" and "h_fault h = (\<lambda>_ _. False)"
  shows "(\<exists>e. r = [LastExitFailed (MetaInvalid e)]) \<and> offline_status lenv c (store_paths st c) h' = (RunStateStopped, NoNote)"
proof -
  let ?p = "store_paths st c"
  obtain h1 where cl: "CleanupRuntime ?p h = ([], h1)" using assms(3) by (metis prod.collapse)
  have code: "fst (terminalOutcome exit False False None) = ex_code exit"
    using assms(2) by (auto simp: terminalOutcome_def Let_def)
  have refused: "last_exit_validate (last_exit_of env i (ex_code exit) msg) \<noteq> None" for msg
    using assms(2) by (auto simp: last_exit_validate_def last_exit_of_def err_simps)
  obtain msg where out: "terminalOutcome exit False False None = (ex_code exit, msg)"
    using code by (metis prod.collapse)
  obtain e where "WriteLastExit (se_last_exit env) h1 (p_last_exit_metadata ?p) (last_exit_of env i (ex_code exit) msg)
      = (Inl (MetaInvalid e), h1)"
    using refused [of msg] by (cases "last_exit_validate (last_exit_of env i (ex_code exit) msg)")
      (simp_all add: WriteLastExit_def write_validated_def)
  then have r: "(\<exists>e. r = [LastExitFailed (MetaInvalid e)]) \<and> h' = h1"
    using assms(1) cl out by (auto simp: finalizeRun_def)
  have dir: "inspectRuntimeDirectory h (p_runtime_dir ?p) = None" using CleanupRuntime_ok [OF assms(3)] by simp
  have same: "h_fs h1 q = h_fs h q" if "q \<notin> set (ephemeral ?p)" for q
    using CleanupRuntime_fs [of st c h q] cl that by simp
  have env: "h_fault h1 = (\<lambda>_ _. False)" "h_uid h1 = h_uid h"
    using CleanupRuntime_fs [of st c h "[]"] cl assms(5) by simp_all
  have parent: "parent_dir (p_last_exit_metadata ?p) = p_runtime_dir ?p"
    by (simp add: store_paths_def Let_def parent_join)
  have "p_runtime_dir ?p \<notin> set (ephemeral ?p)"
    using ephemeral_parent [of "p_runtime_dir ?p" st c] by (auto simp: ephemeral_paths join_path_def)
  then have fs: "h_fs h1 (p_runtime_dir ?p) = h_fs h (p_runtime_dir ?p)" by (rule same)
  have "inspectRuntimeDirectory h1 (p_runtime_dir ?p) = inspectRuntimeDirectory h (p_runtime_dir ?p)"
    unfolding inspectRuntimeDirectory_def lstat_def env fs assms(5) by (rule refl)
  then have "inspectRuntimeDirectory h1 (p_runtime_dir ?p) = None" using dir by (simp only:)
  moreover have "h_fs h1 (p_last_exit_metadata ?p) = None"
    using same [OF evidence_not_ephemeral(1)] assms(4) by simp
  ultimately have "ReadLastExit W h1 (p_last_exit_metadata ?p) = Inl (MetaFile ENOENT)" for W
    using env by (simp add: ReadLastExit_def read_validated_def readMetadata_def parent open_metadata_def del: store_paths_dirs)
  then show ?thesis using r by (auto simp: offline_status_def not_exist_def)
qed

section \<open>A machine that starts\<close>

definition sample_instance :: instance_of where
  "sample_instance = \<lparr>in_pid = 200, in_status = Inr ''running'', in_vnc = None\<rparr>"

definition sample_backend :: backend_impl where
  "sample_backend = \<lparr>be_render = (\<lambda>_ _ _. Inr \<lparr>cmd_path = ''/bin/qemu'', cmd_args = []\<rparr>),
     be_start = (\<lambda>_ _ _ h. (Inr sample_instance, h))\<rparr>"

definition sample_registry :: "backend_impl Registry" where
  "sample_registry = [''qemu'' \<mapsto> Inr (Some sample_backend)]"

definition sample_runtime_metadata :: RuntimeMetadata where
  "sample_runtime_metadata = \<lparr>rt_version = 1, rt_id = cfg_id sample_config, rt_name = cfg_name sample_config,
     rt_supervisor_pid = 100, rt_started_at = \<lparr>ts_nanos = 1, ts_offset = 0, ts_utc = True\<rparr>, rt_boot_menu = False\<rparr>"

definition sample_sup_env :: sup_env where
  "sample_sup_env = \<lparr>se_last_exit = sample_wire sample_last_exit, se_runtime = sample_wire sample_runtime_metadata,
     se_ready = sample_wire \<lparr>rm_version = 1, rm_id = cfg_id sample_config, rm_ok = True, rm_error = None\<rparr>,
     se_clock = \<lparr>ts_nanos = 1, ts_offset = 0, ts_utc = True\<rparr>, se_pid = 100,
     se_error_text = (\<lambda>_. ''error''), se_join = (\<lambda>_ _. ''error'')\<rparr>"

definition sample_events :: "bool \<Rightarrow> start_events" where
  "sample_events b = \<lparr>ev_preflight = None, ev_metrics = None, ev_ready_fd = None, ev_bind = None, ev_control_fd = None,
     ev_chmod = None, ev_canceled_started = False, ev_monitoring = None, ev_exited = None, ev_canceled_ready = False,
     ev_exited_ready = None, ev_ready_pipe = b, ev_signal = False, ev_force_err = None, ev_abort_err = None,
     ev_unlock = None\<rparr>"

definition sample_end :: end_events where
  "sample_end = \<lparr>en_wake = LifecycleSignal, en_stop_err = Some ErrTimeout, en_exit = \<lparr>ex_code = 0, ex_err = None\<rparr>,
     en_intentional = True, en_force_err = None\<rparr>"

definition sample_supervise :: "start_events \<Rightarrow> sup_error list \<times> sup_call list \<times> host" where
  "sample_supervise ev = Supervise sample_store sample_library sample_sup_env ev sample_end sample_registry
     ''home-assistant'' ''0123456789abcdef0123456789abcdef'' False sample_host"

text \<open>The run on the sample store, stage by stage: each host is named, and the results are computed.\<close>

definition sample_paths :: Paths where "sample_paths = store_paths sample_store sample_config"

definition sh1 :: host where "sh1 = snd (LockName sample_store sample_host ''home-assistant'')"
definition sh2 :: host where "sh2 = snd (ensurePrivateDirectory sh1 (p_runtime_dir sample_paths))"
definition sh3 :: host where "sh3 = snd (ensurePrivateDirectory sh2 (parent_dir (p_qemu_log sample_paths)))"
definition sh4 :: host where "sh4 = snd (tryLifetime sample_store sh3 ''0123456789abcdef0123456789abcdef'')"
definition sh5 :: host where "sh5 = snd (CleanupRuntime sample_paths sh4)"
definition sh6 :: host where
  "sh6 = snd (WriteRuntimeMetadata (se_runtime sample_sup_env) sh5 (p_runtime_metadata sample_paths) sample_runtime_metadata)"

lemma stage1: "LockName sample_store sample_host ''home-assistant'' = (Inr 7, sh1)"
  by (simp add: sh1_def sample_LockName)

lemma stage2: "ensurePrivateDirectory sh1 (p_runtime_dir sample_paths) = (Inr (), sh2)"
proof -
  have "fst (ensurePrivateDirectory sh1 (p_runtime_dir sample_paths)) = Inr ()" by code_simp
  then show ?thesis by (simp add: sh2_def prod_eq_iff)
qed

lemma stage3: "ensurePrivateDirectory sh2 (parent_dir (p_qemu_log sample_paths)) = (Inr (), sh3)"
proof -
  have "fst (ensurePrivateDirectory sh2 (parent_dir (p_qemu_log sample_paths))) = Inr ()" by code_simp
  then show ?thesis by (simp add: sh3_def prod_eq_iff)
qed

lemma stage4: "tryLifetime sample_store sh3 ''0123456789abcdef0123456789abcdef'' = (Inr (Acquired 8), sh4)"
proof -
  have "fst (tryLifetime sample_store sh3 ''0123456789abcdef0123456789abcdef'') = Inr (Acquired 8)" by code_simp
  then show ?thesis by (simp add: sh4_def prod_eq_iff)
qed

lemma stage5: "CleanupRuntime sample_paths sh4 = ([], sh5)"
proof -
  have "fst (CleanupRuntime sample_paths sh4) = []" by code_simp
  then show ?thesis by (simp add: sh5_def prod_eq_iff)
qed

lemma stage6:
  "WriteRuntimeMetadata (se_runtime sample_sup_env) sh5 (p_runtime_metadata sample_paths) sample_runtime_metadata = (Inr (), sh6)"
proof -
  have "fst (WriteRuntimeMetadata (se_runtime sample_sup_env) sh5 (p_runtime_metadata sample_paths) sample_runtime_metadata) = Inr ()"
    by code_simp
  then show ?thesis by (simp add: sh6_def prod_eq_iff)
qed

text \<open>What is at the paths the rest of the startup uses.\<close>

lemma sh4_log: "h_fs sh4 (p_serial_log sample_paths) = None" by code_simp
lemma sh4_pipe: "h_fs sh4 (p_serial_log_pipe sample_paths) = None" by code_simp
lemma sh4_last: "h_fs sh4 (p_last_exit_metadata sample_paths) = None" by code_simp
lemma sh4_b0: "h_fs sh4 (backup_path (p_serial_log sample_paths) 0) = None" by code_simp
lemma sh4_b1: "h_fs sh4 (backup_path (p_serial_log sample_paths) 1) = None" by code_simp
lemma sh4_b2: "h_fs sh4 (backup_path (p_serial_log sample_paths) 2) = None" by code_simp
lemma sh4_b3: "h_fs sh4 (backup_path (p_serial_log sample_paths) 3) = None" by code_simp
lemma sh4_dirs: "h_fs sh4 (p_runtime_dir sample_paths) = Some (Dir 501 mode_dir)" by code_simp
lemma sh4_logs: "h_fs sh4 (parent_dir (p_serial_log sample_paths)) = Some (Dir 501 mode_dir)" by code_simp
lemma load5: "loadUnlocked sample_store sample_library sh5 ''home-assistant'' = Inr sample_config" by code_simp
lemma load1: "loadUnlocked sample_store sample_library sh1 ''home-assistant'' = Inr sample_config" by code_simp

definition later_paths :: "string list" where
  "later_paths = [p_serial_log sample_paths, p_last_exit_metadata sample_paths, parent_dir (p_serial_log sample_paths),
     p_runtime_dir sample_paths]
     @ List.map (backup_path (p_serial_log sample_paths)) [0, 1, 2, 3]"

lemma later_paths_other:
  "list_all (\<lambda>q. q \<notin> set (p_control_socket sample_paths # p_runtime_metadata sample_paths # p_serial_log_pipe sample_paths
     # ephemeral sample_paths)) later_paths"
  by code_simp

lemma pipe_other: "p_serial_log_pipe sample_paths \<noteq> p_control_socket sample_paths"
  "p_serial_log_pipe sample_paths \<noteq> p_runtime_metadata sample_paths"
  "p_serial_log_pipe sample_paths \<noteq> p_serial_log sample_paths"
  by code_simp+

lemma pipe_parent: "parent_dir (p_serial_log_pipe sample_paths) = p_runtime_dir sample_paths" by code_simp

lemma sh6_env: "h_uid sh6 = 501 \<and> h_fault sh6 = (\<lambda>_ _. False)"
proof -
  have 1: "keeps sample_host sh1" unfolding sh1_def by (rule LockName_keeps)
  have 2: "keeps sh1 sh2" unfolding sh2_def by (rule grows_imp_keeps [OF grows_private])
  have 3: "keeps sh2 sh3" unfolding sh3_def by (rule grows_imp_keeps [OF grows_private])
  have 4: "keeps sh3 sh4" unfolding sh4_def by (rule tryLifetime_keeps)
  have "keeps sample_host sh4" by (rule keeps_trans [OF keeps_trans [OF keeps_trans [OF 1 2] 3] 4])
  moreover have "steady sh4 sh6"
    unfolding sh6_def WriteRuntimeMetadata_def
    by (rule steady_trans [OF _ steady_write_validated]) (simp add: sh5_def)
  ultimately show ?thesis by (simp add: keeps_def steady_def sample_host_def empty_host_def)
qed

lemma sh6_frame: "q \<noteq> p_runtime_metadata sample_paths \<Longrightarrow> h_fs sh6 q = h_fs sh5 q"
  by (simp add: sh6_def WriteRuntimeMetadata_def write_validated_frame)

lemma sh5_frame: "h_fs sh5 q = h_fs sh4 q \<or> q \<in> set (ephemeral sample_paths) \<and> h_fs sh5 q = None"
  using CleanupRuntime_fs [of sample_store sample_config sh4 q] by (auto simp: sh5_def sample_paths_def)

lemma sh6_later: "q \<in> set later_paths \<Longrightarrow> h_fs sh6 q = h_fs sh4 q"
  using later_paths_other sh5_frame [of q] sh6_frame [of q] by (auto simp: list_all_iff)

lemma sh6_pipe: "h_fs sh6 (p_serial_log_pipe sample_paths) = None"
  using sh4_pipe sh5_frame [of "p_serial_log_pipe sample_paths"] sh6_frame [OF pipe_other(2)] by auto

text \<open>Removing the stale socket and opening the serial log, on a host without faults.\<close>

lemma stale_ok:
  assumes "h_fault h = (\<lambda>_ _. False)"
  shows "\<exists>h'. remove_stale h p = (Inr (), h') \<and> (\<forall>q. q \<noteq> p \<longrightarrow> h_fs h' q = h_fs h q) \<and> steady h h'"
  using assms by (auto simp: remove_stale_def ignore_absent_def remove_one_def remove_file_def steady_def)

lemma sink_ok:
  assumes env: "h_uid (su_host s) = 501" "h_fault (su_host s) = (\<lambda>_ _. False)"
    and free: "h_fs (su_host s) (p_serial_log sample_paths) = None" "h_fs (su_host s) (p_serial_log_pipe sample_paths) = None"
      "h_fs (su_host s) (backup_path (p_serial_log sample_paths) 0) = None"
      "h_fs (su_host s) (backup_path (p_serial_log sample_paths) 1) = None"
      "h_fs (su_host s) (backup_path (p_serial_log sample_paths) 2) = None"
      "h_fs (su_host s) (backup_path (p_serial_log sample_paths) 3) = None"
    and dirs: "h_fs (su_host s) (parent_dir (p_serial_log sample_paths)) = Some (Dir 501 mode_dir)"
      "h_fs (su_host s) (p_runtime_dir sample_paths) = Some (Dir 501 mode_dir)"
  shows "\<exists>t. sink_step sample_paths s = (Inr (), t) \<and> adds [] s t \<and> su_sink t
    \<and> (\<forall>q. q \<noteq> p_serial_log sample_paths \<longrightarrow> q \<noteq> p_serial_log_pipe sample_paths \<longrightarrow> h_fs (su_host t) q = h_fs (su_host s) q)"
proof -
  let ?h = "su_host s" and ?l = "p_serial_log sample_paths"
  have b: "h_fs ?h (backup_path ?l 0) = None" "h_fs ?h (backup_path ?l 1) = None"
    "h_fs ?h (backup_path ?l 2) = None" "h_fs ?h (backup_path ?l 3) = None" "h_fs ?h ?l = None"
    by (rule free)+
  have none: "inspectSerialLogFile ?h p = Inr None" if "h_fs ?h p = None" for p
    using that env by (simp add: inspectSerialLogFile_def lstat_def)
  have prune: "prune_backups ?l serialLogMaxSize 3 0 ?h = (Inr (), ?h)"
    using b(1-3) by (simp add: prune_backups.simps none numeral_eq_Suc)
  have dir: "inspectSerialLogDirectory ?h ?l = None"
    using dirs(1) env by (simp add: inspectSerialLogDirectory_def lstat_def)
  define g where "g = ?h\<lparr>h_fs := (h_fs ?h)(?l \<mapsto> File (h_inode ?h) 501 mode_file []), h_inode := Suc (h_inode ?h)\<rparr>"
  have "openSecureSerialLog ?h ?l = (Inr 0, g)"
    using env b(5) dirs(1) by (simp add: openSecureSerialLog_def is_dir_at_def Let_def g_def)
  then have open1: "\<exists>w. openRotatingSerialLog ?h ?l serialLogMaxSize serialLogMaxBackups = (Inr w, g)"
    using prune dir b(4) by (simp add: openRotatingSerialLog_def open_active_def none serialLogMaxSize_def serialLogMaxBackups_def Let_def)
  define g2 where "g2 = g\<lparr>h_fs := (h_fs g)(p_serial_log_pipe sample_paths \<mapsto> Special 501 mode_file)\<rparr>"
  have "h_fs g (p_serial_log_pipe sample_paths) = None"
    using free pipe_other by (simp add: g_def)
  moreover have "is_dir_at g (p_runtime_dir sample_paths)"
    using dirs(2) b(5) by (auto simp: g_def is_dir_at_def)
  ultimately have pipe: "openSerialLogPipe g (p_serial_log_pipe sample_paths) = (Inr (), g2)"
    using env by (simp add: openSerialLogPipe_def pipe_parent Let_def g2_def) (simp add: g_def)
  have "sink_step sample_paths s = (Inr (), s\<lparr>su_host := g2, su_sink := True\<rparr>)"
    using open1 pipe by (auto simp: sink_step_def bindS_def on_host_def change_def)
  then show ?thesis by (auto simp: adds_def steady_def g2_def g_def)
qed

lemma sample_events_simps:
  "ev_preflight (sample_events b) = None" "ev_metrics (sample_events b) = None" "ev_ready_fd (sample_events b) = None"
  "ev_canceled_started (sample_events b) = False" "ev_monitoring (sample_events b) = None" "ev_exited (sample_events b) = None"
  "ev_canceled_ready (sample_events b) = False" "ev_exited_ready (sample_events b) = None" "ev_ready_pipe (sample_events b) = b"
  by (simp_all add: sample_events_def)

lemma sample_prepare:
  assumes "su_host s = sh5"
  shows "\<exists>t. prepare sample_sup_env (sample_events b) sample_registry sample_config sample_paths False s
      = (Inr (sample_backend, \<lparr>cmd_path = ''/bin/qemu'', cmd_args = []\<rparr>), t)
    \<and> h_fs (su_host t) (p_last_exit_metadata sample_paths) = None
    \<and> h_fs (su_host t) (p_runtime_dir sample_paths) = Some (Dir 501 mode_dir)
    \<and> h_fault (su_host t) = (\<lambda>_ _. False) \<and> h_uid (su_host t) = 501"
proof -
  have md: "\<lparr>rt_version = metadataVersion, rt_id = cfg_id sample_config, rt_name = cfg_name sample_config,
      rt_supervisor_pid = se_pid sample_sup_env, rt_started_at = sup_now sample_sup_env, rt_boot_menu = False\<rparr>
      = sample_runtime_metadata"
    by (simp add: sample_runtime_metadata_def sample_sup_env_def sup_now_def metadataVersion_def)
  define s6 where "s6 = s\<lparr>su_host := sh6\<rparr>"
  let ?sock = "p_control_socket sample_paths"
  from stale_ok [of sh6 ?sock] sh6_env obtain sh7 where 7: "remove_stale sh6 ?sock = (Inr (), sh7)"
    "\<forall>q. q \<noteq> ?sock \<longrightarrow> h_fs sh7 q = h_fs sh6 q" "steady sh6 sh7" by auto
  define s8 where "s8 = s6\<lparr>su_listener := True, su_calls := su_calls s @ [Bound],
    su_host := sh7\<lparr>h_fs := (h_fs sh7)(?sock \<mapsto> Special (h_uid sh7) mode_file)\<rparr>\<rparr>"
  have bind: "bindS (bind_step (sample_events b) ?sock) k s6 = k () s8" for k :: "unit \<Rightarrow> 'a step"
    using 7(1) by (simp add: bind_step_def bindS_def on_host_def reject_def change_def note_call_def sample_events_def s6_def s8_def)
  have later: "h_fs (su_host s8) q = h_fs sh4 q" if "q \<in> set later_paths" for q
    using that later_paths_other 7(2) sh6_later [OF that] by (auto simp: s8_def list_all_iff)
  have pipe: "h_fs (su_host s8) (p_serial_log_pipe sample_paths) = None"
    using 7(2) sh6_pipe pipe_other by (simp add: s8_def)
  have env: "h_uid (su_host s8) = 501" "h_fault (su_host s8) = (\<lambda>_ _. False)"
    using 7(3) sh6_env by (simp_all add: s8_def steady_def)
  have "\<exists>t. sink_step sample_paths s8 = (Inr (), t) \<and> adds [] s8 t \<and> su_sink t
    \<and> (\<forall>q. q \<noteq> p_serial_log sample_paths \<longrightarrow> q \<noteq> p_serial_log_pipe sample_paths \<longrightarrow> h_fs (su_host t) q = h_fs (su_host s8) q)"
  proof (rule sink_ok [OF env])
    show "h_fs (su_host s8) (p_serial_log_pipe sample_paths) = None" by (rule pipe)
  qed (subst later; simp add: later_paths_def sh4_log sh4_b0 sh4_b1 [simplified] sh4_b2 sh4_b3 sh4_dirs sh4_logs del: store_paths_dirs)+
  then obtain t where t: "sink_step sample_paths s8 = (Inr (), t)" "adds [] s8 t"
    "\<forall>q. q \<noteq> p_serial_log sample_paths \<longrightarrow> q \<noteq> p_serial_log_pipe sample_paths \<longrightarrow> h_fs (su_host t) q = h_fs (su_host s8) q"
    by blast
  have meta: "bindS (on_host (\<lambda>h. WriteRuntimeMetadata (se_runtime sample_sup_env) h (p_runtime_metadata sample_paths)
      sample_runtime_metadata) MetadataFailed) k s = k () s6" for k :: "unit \<Rightarrow> 'a step"
    using stage6 assms by (simp add: bindS_def on_host_def s6_def)
  have sink: "bindS (sink_step sample_paths) k s8 = k () t" for k :: "unit \<Rightarrow> 'a step"
    using t(1) by (simp add: bindS_def)
  have reg: "Lookup sample_registry (cfg_backend sample_config) = Inr sample_backend"
    by (simp add: Lookup_def sample_registry_def sample_config_def)
  have "prepare sample_sup_env (sample_events b) sample_registry sample_config sample_paths False s
      = (Inr (sample_backend, \<lparr>cmd_path = ''/bin/qemu'', cmd_args = []\<rparr>), t)"
    unfolding prepare_def md
    by (simp add: bindS_reject sample_events_simps meta bind reg bindS_lift sink)
      (simp add: sample_backend_def bindS_lift sink lift_result_def)
  moreover have "p_last_exit_metadata sample_paths \<noteq> p_serial_log sample_paths"
    "p_last_exit_metadata sample_paths \<noteq> p_serial_log_pipe sample_paths"
    "p_runtime_dir sample_paths \<noteq> p_serial_log sample_paths" "p_runtime_dir sample_paths \<noteq> p_serial_log_pipe sample_paths"
    by code_simp+
  ultimately show ?thesis
    using t(2,3) later sh4_last sh4_dirs env by (auto simp: adds_def steady_def later_paths_def)
qed

lemma sample_ready_written:
  "\<exists>w. WriteReady (se_ready sample_sup_env) \<lparr>rm_version = ProtocolVersion, rm_id = ''0123456789abcdef0123456789abcdef'',
     rm_ok = True, rm_error = None\<rparr> = Inr w"
proof -
  have "ready_validate \<lparr>rm_version = ProtocolVersion, rm_id = ''0123456789abcdef0123456789abcdef'', rm_ok = True, rm_error = None\<rparr> = None"
    by code_simp
  then show ?thesis
    by (simp add: WriteReady_def) (simp add: encode_line_def sample_sup_env_def sample_wire_def MaxMessageBytes_def)
qed

lemma sample_config_hashes: "\<exists>x. Hash sample_library sample_config = Inr x"
  by (simp add: Hash_def ConfigSHA256_def CanonicalJSON_def sample_config_valid bindE_def)
    (simp add: sample_library_def)

lemma sample_after_release:
  assumes "h_fs (su_host s) (p_last_exit_metadata sample_paths) = None"
    and "h_fs (su_host s) (p_runtime_dir sample_paths) = Some (Dir 501 mode_dir)"
    and "h_fault (su_host s) = (\<lambda>_ _. False)" "h_uid (su_host s) = 501"
  shows "after_release sample_library sample_sup_env (sample_events b) sample_config sample_paths
      ''0123456789abcdef0123456789abcdef'' sample_instance s
    = (if b then (Inl ReadyPipe, s\<lparr>su_calls := su_calls s @ [AskedStatus]\<rparr>)
       else (Inr (), s\<lparr>su_calls := su_calls s @ [AskedStatus, ReadyOK ''0123456789abcdef0123456789abcdef'']\<rparr>))"
proof -
  have parent: "parent_dir (p_last_exit_metadata sample_paths) = p_runtime_dir sample_paths" by code_simp
  have absent: "ReadLastExit W (su_host s) (p_last_exit_metadata sample_paths) = Inl (MetaFile ENOENT)" for W
    using assms by (simp add: ReadLastExit_def read_validated_def readMetadata_def parent inspectRuntimeDirectory_def
        lstat_def open_metadata_def)
  have clear: "bindS (on_host (\<lambda>h. ClearFailedLastExit W h (p_last_exit_metadata sample_paths)) ClearFailed) k
      (s\<lparr>su_calls := c\<rparr>) = k () (s\<lparr>su_calls := c\<rparr>)" for W c and k :: "unit \<Rightarrow> 'a step"
    by (simp add: bindS_def on_host_def ClearFailedLastExit_def absent not_exist_def)
  have ready: "ready_state sample_instance = None"
    by (simp add: ready_state_def sample_instance_def RunStateRunning_def)
  have noted: "bindS (note_call c) k t = k () (t\<lparr>su_calls := su_calls t @ [c]\<rparr>)" for c t and k :: "unit \<Rightarrow> 'a step"
    by (simp add: bindS_def note_call_def)
  obtain x where x: "Hash sample_library sample_config = Inr x" using sample_config_hashes by blast
  obtain w where w: "WriteReady (se_ready sample_sup_env) \<lparr>rm_version = ProtocolVersion,
     rm_id = ''0123456789abcdef0123456789abcdef'', rm_ok = True, rm_error = None\<rparr> = Inr w"
    using sample_ready_written by blast
  show ?thesis
    by (cases b)
      (simp_all add: after_release_def sample_events_simps bindS_reject ready noted clear x w ready_step_def guard_def,
       simp_all add: note_call_def bindS_def reject_def)
qed

text \<open>The whole startup of the sample: it becomes ready, or fails on the readiness pipe with its child
  running.\<close>

lemma sample_startup:
  assumes "su_host s = sh4"
  shows "\<exists>t. startup sample_store sample_library sample_sup_env (sample_events b) sample_registry ''home-assistant''
      ''0123456789abcdef0123456789abcdef'' False 7 sample_paths s = (if b then Inl ReadyPipe else Inr (), t) \<and> su_run t"
proof -
  have clean: "bindS (cleanup_step sample_paths) k s = k () (s\<lparr>su_host := sh5\<rparr>)" for k :: "unit \<Rightarrow> 'a step"
    using stage5 assms by (simp add: bindS_def cleanup_step_def)
  define s5 where "s5 = s\<lparr>su_host := sh5, su_paths := sample_paths\<rparr>"
  have reload: "bindS (reload_step sample_store sample_library ''home-assistant'' ''0123456789abcdef0123456789abcdef'') k
      (s\<lparr>su_host := sh5\<rparr>) = k (sample_config, sample_paths) s5" for k :: "Config \<times> Paths \<Rightarrow> 'a step"
    using load5 by (simp add: bindS_def reload_step_def sample_name s5_def sample_paths_def)
  obtain t where t: "prepare sample_sup_env (sample_events b) sample_registry sample_config sample_paths False s5
      = (Inr (sample_backend, \<lparr>cmd_path = ''/bin/qemu'', cmd_args = []\<rparr>), t)"
    "h_fs (su_host t) (p_last_exit_metadata sample_paths) = None"
    "h_fs (su_host t) (p_runtime_dir sample_paths) = Some (Dir 501 mode_dir)"
    "h_fault (su_host t) = (\<lambda>_ _. False)" "h_uid (su_host t) = 501"
    using sample_prepare [of s5] by (auto simp: s5_def)
  have prep: "bindS (prepare sample_sup_env (sample_events b) sample_registry sample_config sample_paths False) k s5
      = k (sample_backend, \<lparr>cmd_path = ''/bin/qemu'', cmd_args = []\<rparr>) t" for k :: "backend_impl \<times> Command \<Rightarrow> 'a step"
    using t(1) by (simp add: bindS_def)
  have no_error: "reject (map_option NameUnlockFailed (ev_unlock (sample_events b))) u = (Inr (), u)" for b u
    by (simp add: reject_def sample_events_def)
  show ?thesis
    by (simp add: startup_def clean reload prep)
      (simp add: bindS_def start_step_def sample_backend_def publish_ready_split no_error sample_after_release t(2-5) unlock_def)
qed

lemma sample_neutral: "lock_neutral sample_registry"
  by (auto simp: lock_neutral_def Lookup_def sample_registry_def sample_backend_def split: if_splits)

lemma sample_identity: "idPattern ''0123456789abcdef0123456789abcdef''"
  by code_simp

lemma sample_supervise_calls:
  "ready_sent (fst (snd (sample_supervise (sample_events b)))) = (\<not> b)
   \<and> (\<exists>cmd. Started cmd \<in> set (fst (snd (sample_supervise (sample_events b)))))"
proof -
  let ?i = "''0123456789abcdef0123456789abcdef''"
  define s0 where "s0 = \<lparr>su_host = sh4, su_paths = sample_paths, su_name_locked = True, su_listener = False,
    su_sink = False, su_run = False, su_calls = []\<rparr>"
  obtain t where t: "startup sample_store sample_library sample_sup_env (sample_events b) sample_registry ''home-assistant''
      ?i False 7 sample_paths s0 = (if b then Inl ReadyPipe else Inr (), t)" "su_run t"
    using sample_startup [of s0] by (auto simp: s0_def)
  note st = startup_run [OF t(1), of sample_config]
  have paths: "su_paths t = store_paths sample_store sample_config"
    using st sample_neutral by (auto simp: s0_def sample_paths_def sample_name)
  have calls: "\<exists>cmd. Started cmd \<in> set (su_calls t)" "ready_sent (su_calls t) = (\<not> b)"
    using st sample_neutral t(2)
    by (cases b; auto simp: s0_def sample_paths_def sample_name ready_sent_def)+
  obtain r u where fin: "(if b then abandon sample_sup_env (sample_events b) ?i [ReadyPipe] t
      else finish sample_sup_env sample_end ?i t) = (r, u)" by fastforce
  have u: "ready_sent (su_calls u) = (\<not> b)" "\<exists>cmd. Started cmd \<in> set (su_calls u)"
    using fin calls abandon_run [OF _ paths, of sample_sup_env "sample_events b" ?i "[ReadyPipe]" r u]
      finish_run [of sample_sup_env sample_end ?i t r u]
    by (auto simp: ready_sent_def split: if_splits)
  have "reserved sample_store sample_library sample_sup_env (sample_events b) sample_end sample_registry ''home-assistant''
      ?i False 7 sample_paths sh4 = (r, u)"
    using t fin by (cases b) (simp_all add: reserved_def s0_def)
  then have "fst (snd (locked_run sample_store sample_library sample_sup_env (sample_events b) sample_end sample_registry
      ''home-assistant'' ?i False 7 sh1)) = su_calls u"
    by (simp add: locked_run_def load1 sample_name sample_paths_def [symmetric] stage2 stage3 stage4 Let_def)
  with u show ?thesis
    using sample_identity stage1 by (auto simp: sample_supervise_def Supervise_def ready_sent_def split: prod.splits)
qed

section \<open>Witnesses\<close>

lemma sample_supervise_run:
  "Supervise sample_store sample_library sample_sup_env (sample_events b) sample_end sample_registry
     ''home-assistant'' ''0123456789abcdef0123456789abcdef'' False sample_host
   = (fst (sample_supervise (sample_events b)), fst (snd (sample_supervise (sample_events b))),
      snd (snd (sample_supervise (sample_events b))))"
  by (simp add: sample_supervise_def)

theorem supervise_releases_locks_witness: "h_locks (snd (snd (sample_supervise (sample_events True)))) = {}"
  using supervise_releases_locks [OF sample_supervise_run [of True] sample_neutral] by (simp add: sample_defs)

theorem ready_means_started_witness:
  "\<exists>cmd. fst (snd (sample_supervise (sample_events False))) =
     [Bound, Tried cmd, Started cmd, AskedStatus, ReadyOK ''0123456789abcdef0123456789abcdef'', Served,
      Asked CallStop, Asked CallForce, SinkFinished, MonitorStopped, ControlStopped]"
proof -
  have "ready_sent (fst (snd (sample_supervise (sample_events False))))" by (simp add: sample_supervise_calls)
  from ready_means_started [OF sample_supervise_run [of False] sample_neutral this] show ?thesis
    by (simp add: waitForTermination_def sample_end_def)
qed

theorem failed_start_is_undone_witness:
  "Forced \<in> set (fst (snd (sample_supervise (sample_events True))))"
proof -
  have failed: "\<not> ready_sent (fst (snd (sample_supervise (sample_events True))))"
    and "\<exists>cmd. Started cmd \<in> set (fst (snd (sample_supervise (sample_events True))))"
    using sample_supervise_calls by auto
  with failed_start_is_undone [OF sample_supervise_run [of True] sample_neutral failed] show ?thesis by blast
qed

lemma second_supervisor_refused_witness:
  "fst (Supervise sample_store sample_library sample_sup_env (sample_events False) sample_end sample_registry
     ''home-assistant'' ''0123456789abcdef0123456789abcdef'' False sh4) \<noteq> []"
proof -
  have "lock_held sh4 (lifetime_path sample_store ''0123456789abcdef0123456789abcdef'')"
    using lifetime.acquired [OF stage4] by simp
  from second_supervisor_refused [OF this] show ?thesis by (metis prod_cases3 fst_conv)
qed

definition qemu_registry :: "backend_impl Registry" where
  "qemu_registry = [''qemu'' \<mapsto> Inr (Some (sample_backend\<lparr>be_render := Render\<rparr>))]"

theorem vnc_machine_never_starts_witness:
  "\<exists>e. fst (prepare sample_sup_env (sample_events False) qemu_registry sample_config sample_paths False
      \<lparr>su_host = sh5, su_paths = sample_paths, su_name_locked = True, su_listener = False, su_sink = False,
       su_run = False, su_calls = []\<rparr>) = Inl e"
proof (rule vnc_machine_never_starts)
  show "cfg_vnc sample_config \<noteq> None" by (simp add: sample_config_def)
next
  fix b assume "Lookup qemu_registry (cfg_backend sample_config) = Inr b"
  then show "be_render b = Render" by (auto simp: Lookup_def qemu_registry_def sample_config_def)
qed

text \<open>The sample after its cleanup, with a backend that was killed.\<close>

lemma sh4_env: "h_fault sh4 = (\<lambda>_ _. False)"
proof -
  have 1: "keeps sample_host sh1" unfolding sh1_def by (rule LockName_keeps)
  have 2: "keeps sh1 sh2" unfolding sh2_def by (rule grows_imp_keeps [OF grows_private])
  have 3: "keeps sh2 sh3" unfolding sh3_def by (rule grows_imp_keeps [OF grows_private])
  have 4: "keeps sh3 sh4" unfolding sh4_def by (rule tryLifetime_keeps)
  have "keeps sample_host sh4" by (rule keeps_trans [OF keeps_trans [OF keeps_trans [OF 1 2] 3] 4])
  then show ?thesis by (simp add: keeps_def sample_host_def empty_host_def)
qed

lemma signal_death_unrecorded_witness:
  "offline_status sample_env sample_config sample_paths
     (snd (finalizeRun sample_sup_env sample_paths ''0123456789abcdef0123456789abcdef''
        \<lparr>ex_code = -1, ex_err = Some ''signal: killed''\<rparr> False False None sh4)) = (RunStateStopped, NoNote)"
proof -
  let ?exit = "\<lparr>ex_code = -1, ex_err = Some ''signal: killed''\<rparr>"
  have run: "finalizeRun sample_sup_env (store_paths sample_store sample_config) ''0123456789abcdef0123456789abcdef'' ?exit
      False False None sh4 = (fst (finalizeRun sample_sup_env sample_paths ''0123456789abcdef0123456789abcdef'' ?exit
      False False None sh4), snd (finalizeRun sample_sup_env sample_paths ''0123456789abcdef0123456789abcdef'' ?exit
      False False None sh4))"
    by (simp add: sample_paths_def)
  have clean: "fst (CleanupRuntime (store_paths sample_store sample_config) sh4) = []"
    using stage5 by (simp add: sample_paths_def)
  have absent: "h_fs sh4 (p_last_exit_metadata (store_paths sample_store sample_config)) = None"
    using sh4_last by (simp only: sample_paths_def)
  from signal_death_unrecorded [OF run _ clean absent sh4_env] show ?thesis
    by (simp add: sample_paths_def)
qed

end
