(* ===== verification/Plist.thy ===== *)
theory Plist
  imports Model
begin

text \<open>
  \<open>internal/launchd/plist.go\<close>: the property list of a machine's launchd job, with the escaping of its
  texts (\<open>encoding/xml.EscapeText\<close>), and the two readers of \<open>manage.go\<close> that find the label and the
  program arguments in an installed list. The template is a list of lines, each with the tokens it
  stands for; the XML decoder is a parameter where a list is read.
\<close>

section \<open>Escaping (\<open>encoding/xml\<close>)\<close>

text \<open>\<open>isInCharacterRange\<close>: no control characters but tab, newline and carriage return, and not the
  two noncharacters U+FFFE and U+FFFF.\<close>

definition xml_rune_ok :: "string \<Rightarrow> bool" where
  "xml_rune_ok r =
     (case r of
        [c] \<Rightarrow> 32 \<le> byte c \<or> byte c = 9 \<or> byte c = 10 \<or> byte c = 13
      | [a, b, c] \<Rightarrow> \<not> (byte a = 239 \<and> byte b = 191 \<and> 190 \<le> byte c)
      | _ \<Rightarrow> True)"

text \<open>The text with everything that XML cannot hold replaced.\<close>

function xml_clean :: "string \<Rightarrow> string" where
  "xml_clean s =
     (if s = [] then []
      else if rune_len s = 0 then replacement_rune @ xml_clean (drop 1 s)
      else (if xml_rune_ok (take (rune_len s) s) then take (rune_len s) s else replacement_rune)
           @ xml_clean (drop (rune_len s) s))"
  by pat_completeness auto
termination
  by (relation "measure length") auto

declare xml_clean.simps [simp del]

definition escape_char :: "char \<Rightarrow> string" where
  "escape_char c =
     (if byte c = 34 then ''&#34;''
      else if byte c = 39 then ''&#39;''
      else if c = CHR ''&'' then ''&amp;''
      else if c = CHR ''<'' then ''&lt;''
      else if c = CHR ''>'' then ''&gt;''
      else if byte c = 9 then ''&#x9;''
      else if byte c = 10 then ''&#xA;''
      else if byte c = 13 then ''&#xD;''
      else [c])"

definition escapeXML :: "string \<Rightarrow> string" where
  "escapeXML value = concat (List.map escape_char (xml_clean value))"

text \<open>A reader of those references.\<close>

definition entities :: "(string \<times> string) list" where
  "entities = [(''&#34;'', [char_of (34::nat)]), (''&#39;'', [char_of (39::nat)]), (''&amp;'', ''&''),
     (''&lt;'', ''<''), (''&gt;'', ''>''), (''&#x9;'', [char_of (9::nat)]), (''&#xA;'', [char_of (10::nat)]),
     (''&#xD;'', [char_of (13::nat)])]"

function xml_unescape :: "string \<Rightarrow> string" where
  "xml_unescape [] = []"
| "xml_unescape (c # s) =
     (case List.find (\<lambda>(e, _). has_prefix (c # s) e) entities of
        Some (e, t) \<Rightarrow> t @ xml_unescape (drop (length e - 1) s)
      | None \<Rightarrow> c # xml_unescape s)"
  by pat_completeness auto
termination
  by (relation "measure length") auto

lemma unescape_char: "xml_unescape (escape_char c @ s) = c # xml_unescape s"
proof -
  have eq: "byte c = n \<longleftrightarrow> c = char_of n" if "n < 256" for n :: nat
    using that by (metis char_of_char of_char_of mod_less)
  show ?thesis
    by (simp add: escape_char_def eq entities_def has_prefix_def del: char_of_eq_iff split: if_splits)
qed

lemma unescape_concat: "xml_unescape (concat (List.map escape_char s)) = s"
  by (induction s) (simp_all add: unescape_char)

text \<open>The bytes that would end a text are never left in it.\<close>

lemma escape_char_plain: "x \<in> set (escape_char c) \<Longrightarrow> x \<noteq> CHR ''<'' \<and> x \<noteq> CHR ''>'' \<and> byte x \<noteq> 34"
  by (auto simp: escape_char_def split: if_splits)

section \<open>The property list\<close>

definition launchdPath :: string where
  "launchdPath = ''/opt/homebrew/bin:/usr/bin:/bin:/usr/sbin:/sbin''"

record plistData =
  pd_label :: string
  pd_executable :: string
  pd_name :: string
  pd_work_dir :: string
  pd_stdout_log :: string
  pd_stderr_log :: string
  pd_home :: string
  pd_data_root :: string
  pd_runtime_root :: string
  pd_log_root :: string
  pd_username :: string
  pd_socket_path :: string
  pd_exit_timeout :: int
  pd_keep_alive :: bool

datatype xml_token = StartElement string | EndElement string | CharData string | OtherToken

text \<open>A line of the template: its indentation, its text, and the tokens of that text.\<close>

type_synonym plist_line = "string \<times> string \<times> xml_token list"

definition tag_line :: "string \<Rightarrow> string \<Rightarrow> plist_line" where
  "tag_line indent name = (indent, ''<'' @ name @ ''>'', [StartElement name])"

definition end_line :: "string \<Rightarrow> string \<Rightarrow> plist_line" where
  "end_line indent name = (indent, ''</'' @ name @ ''>'', [EndElement name])"

definition flag_line :: "string \<Rightarrow> string \<Rightarrow> plist_line" where
  "flag_line indent name = (indent, ''<'' @ name @ ''/>'', [StartElement name, EndElement name])"

definition leaf_line :: "string \<Rightarrow> string \<Rightarrow> string \<Rightarrow> plist_line" where
  "leaf_line indent name value =
     (indent, ''<'' @ name @ ''>'' @ escapeXML value @ ''</'' @ name @ ''>'',
      StartElement name # (if xml_clean value = [] then [] else [CharData (xml_clean value)]) @ [EndElement name])"

definition key_line :: "string \<Rightarrow> string \<Rightarrow> plist_line" where
  "key_line indent key = leaf_line indent ''key'' key"

definition entry_lines :: "string \<Rightarrow> string \<Rightarrow> string \<Rightarrow> plist_line list" where
  "entry_lines indent key value = [key_line indent key, leaf_line indent ''string'' value]"

text \<open>The template below the XML declaration. The blank line after the watched paths belongs to the
  indentation of the next line.\<close>

definition plist_lines :: "plistData \<Rightarrow> plist_line list" where
  "plist_lines d =
     (let i = ''  ''; j = ''    ''; blank = newline # ''  '' in
      [([], ''<!DOCTYPE plist PUBLIC \"-//Apple//DTD PLIST 1.0//EN\" \"http://www.apple.com/DTDs/PropertyList-1.0.dtd\">'', [OtherToken]),
       ([], ''<plist version=\"1.0\">'', [StartElement ''plist'']),
       tag_line [] ''dict''] @
      entry_lines i ''Label'' (pd_label d) @
      [key_line i ''ProgramArguments'', tag_line i ''array'',
       leaf_line j ''string'' (pd_executable d), leaf_line j ''string'' ''start'',
       leaf_line j ''string'' (pd_name d), leaf_line j ''string'' ''--foreground'',
       end_line i ''array''] @
      entry_lines i ''WorkingDirectory'' (pd_work_dir d) @
      entry_lines i ''StandardOutPath'' (pd_stdout_log d) @
      entry_lines i ''StandardErrorPath'' (pd_stderr_log d) @
      [key_line i ''EnvironmentVariables'', tag_line i ''dict''] @
      entry_lines j ''HOME'' (pd_home d) @
      entry_lines j ''PATH'' launchdPath @
      entry_lines j ''QEMU_MANAGE_DATA_ROOT'' (pd_data_root d) @
      entry_lines j ''QEMU_MANAGE_RUNTIME_ROOT'' (pd_runtime_root d) @
      entry_lines j ''QEMU_MANAGE_LOG_ROOT'' (pd_log_root d) @
      [end_line i ''dict'', key_line i ''RunAtLoad'', flag_line i ''true''] @
      (if pd_socket_path d = '''' then []
       else [key_line i ''WatchPaths'', tag_line i ''array'', leaf_line j ''string'' (pd_socket_path d), end_line i ''array'']) @
      [key_line blank ''ThrottleInterval'', leaf_line i ''integer'' ''30'',
       key_line i ''ExitTimeOut'', leaf_line i ''integer'' (itoa_int (pd_exit_timeout d))] @
      entry_lines i ''ProcessType'' ''Background'' @
      [key_line i ''Umask'', leaf_line i ''integer'' ''63''] @
      (if pd_keep_alive d
       then [key_line i ''KeepAlive'', tag_line i ''dict'', key_line j ''SuccessfulExit'', flag_line j ''false'', end_line i ''dict'']
       else []) @
      (if pd_username d = '''' then [] else entry_lines i ''UserName'' (pd_username d)) @
      [end_line [] ''dict'', end_line [] ''plist''])"

definition plist_text :: "plistData \<Rightarrow> string" where
  "plist_text d =
     ''<?xml version=\"1.0\" encoding=\"UTF-8\"?>''
     @ concat (List.map (\<lambda>(indent, text, _). newline # indent @ text) (plist_lines d)) @ [newline]"

definition plist_tokens :: "plistData \<Rightarrow> xml_token list" where
  "plist_tokens d =
     OtherToken # concat (List.map (\<lambda>(indent, _, ts). CharData (newline # indent) # ts) (plist_lines d))
     @ [CharData [newline]]"

definition Label :: "string \<Rightarrow> string" where
  "Label i = ''io.qemu-manage.vm.'' @ (if 12 < length i then take 12 i else i)"

definition Filename :: "string \<Rightarrow> string" where "Filename i = Label i @ ''.plist''"

datatype plist_error =
    PlistConfig config_error | PlistNotAbsolute string | PlistScope | PlistNoUsername | PlistRootUsername
  | XMLSyntax | LabelNotString | DuplicateLabel | LabelNoValue | MissingLabel | MissingArguments

text \<open>What a rendering needs beside the configuration.\<close>

record plist_args =
  pa_executable :: string
  pa_work_dir :: string
  pa_stdout_log :: string
  pa_stderr_log :: string
  pa_username :: string
  pa_home :: string
  pa_data_root :: string
  pa_runtime_root :: string
  pa_log_root :: string

definition relative_path :: "plist_args \<Rightarrow> plist_error option" where
  "relative_path a = first_error
     (List.map (\<lambda>(field, value). guard (\<not> is_abs_path value) (PlistNotAbsolute field))
       [(''executable'', pa_executable a), (''working directory'', pa_work_dir a), (''stdout log'', pa_stdout_log a),
        (''stderr log'', pa_stderr_log a), (''home'', pa_home a), (''data root'', pa_data_root a),
        (''runtime root'', pa_runtime_root a), (''log root'', pa_log_root a)])"

definition plist_data :: "Config \<Rightarrow> plist_args \<Rightarrow> plistData" where
  "plist_data cfg a =
     \<lparr>pd_label = Label (cfg_id cfg), pd_executable = pa_executable a, pd_name = cfg_name cfg,
      pd_work_dir = pa_work_dir a, pd_stdout_log = pa_stdout_log a, pd_stderr_log = pa_stderr_log a,
      pd_home = pa_home a, pd_data_root = pa_data_root a, pd_runtime_root = pa_runtime_root a,
      pd_log_root = pa_log_root a,
      pd_username = (if cfg_autostart_scope cfg = AutostartBoot then pa_username a else ''''),
      pd_socket_path =
        (if net_mode (cfg_network cfg) = NetworkSocketVMNet
         then (case net_socket_vmnet (cfg_network cfg) of None \<Rightarrow> '''' | Some b \<Rightarrow> svm_socket_path b) else ''''),
      pd_exit_timeout = cfg_shutdown_timeout_seconds cfg + 15,
      pd_keep_alive = (cfg_restart_policy cfg = RestartOnFailure)\<rparr>"

definition render_plist :: "Config \<Rightarrow> plist_args \<Rightarrow> plist_error + string" where
  "render_plist cfg a =
     (case first_error
        [map_option PlistConfig (Validate cfg), relative_path a,
         guard (cfg_autostart_scope cfg \<noteq> AutostartBoot \<and> cfg_autostart_scope cfg \<noteq> AutostartLogin) PlistScope,
         guard (cfg_autostart_scope cfg = AutostartBoot \<and> pa_username a = '''') PlistNoUsername,
         guard (cfg_autostart_scope cfg = AutostartBoot \<and> pa_username a = ''root'') PlistRootUsername] of
        Some e \<Rightarrow> Inl e
      | None \<Rightarrow> Inr (plist_text (plist_data cfg a)))"

section \<open>Reading an installed list (\<open>manage.go\<close>)\<close>

text \<open>\<open>DecodeElement\<close> into a string: the text of the element up to its end, without that of nested
  elements. Nothing is returned when the tokens end first.\<close>

fun decode_element :: "nat \<Rightarrow> string \<Rightarrow> xml_token list \<Rightarrow> (string \<times> xml_token list) option" where
  "decode_element depth text [] = None"
| "decode_element depth text (CharData s # ts) = decode_element depth (if depth = 0 then text @ s else text) ts"
| "decode_element depth text (StartElement _ # ts) = decode_element (Suc depth) text ts"
| "decode_element depth text (EndElement _ # ts) =
     (if depth = 0 then Some (text, ts) else decode_element (depth - 1) text ts)"
| "decode_element depth text (OtherToken # ts) = decode_element depth text ts"

lemma decode_element_shorter: "decode_element depth acc ts = Some (s, ts') \<Longrightarrow> length ts' < length ts"
  by (induction depth acc ts rule: decode_element.induct) (auto split: if_splits)

record label_state =
  ls_in_dict :: bool
  ls_depth :: nat
  ls_want :: bool
  ls_found :: bool
  ls_label :: string

definition leave_element :: "bool \<Rightarrow> nat \<Rightarrow> bool \<times> nat" where
  "leave_element in_dict depth =
     (if in_dict then (if depth - 1 = 0 then (False, depth - 1) else (True, depth - 1)) else (False, depth))"

text \<open>The loop over the tokens; \<open>clean\<close> says that they end with the document, not with an error.\<close>

function label_loop :: "bool \<Rightarrow> label_state \<Rightarrow> xml_token list \<Rightarrow> plist_error + string" where
  "label_loop clean st [] =
     (if \<not> clean then Inl XMLSyntax
      else if ls_want st then Inl LabelNoValue
      else if \<not> ls_found st \<or> ls_label st = '''' then Inl MissingLabel
      else Inr (ls_label st))"
| "label_loop clean st (StartElement name # ts) =
     (if name = ''dict'' \<and> \<not> ls_in_dict st then label_loop clean (st\<lparr>ls_in_dict := True, ls_depth := 1\<rparr>) ts
      else if \<not> ls_in_dict st then label_loop clean st ts
      else if ls_depth st + 1 = 2 \<and> name = ''key'' then
        (case decode_element 0 [] ts of
           None \<Rightarrow> Inl XMLSyntax
         | Some (key, ts') \<Rightarrow> label_loop clean (st\<lparr>ls_want := (key = ''Label'')\<rparr>) ts')
      else if ls_depth st + 1 = 2 \<and> ls_want st then
        (if name \<noteq> ''string'' then Inl LabelNotString
         else if ls_found st then Inl DuplicateLabel
         else case decode_element 0 [] ts of
           None \<Rightarrow> Inl XMLSyntax
         | Some (value, ts') \<Rightarrow> label_loop clean (st\<lparr>ls_want := False, ls_found := True, ls_label := value\<rparr>) ts')
      else label_loop clean (st\<lparr>ls_depth := ls_depth st + 1\<rparr>) ts)"
| "label_loop clean st (EndElement name # ts) =
     (case leave_element (ls_in_dict st) (ls_depth st) of
        (in_dict, depth) \<Rightarrow> label_loop clean (st\<lparr>ls_in_dict := in_dict, ls_depth := depth\<rparr>) ts)"
| "label_loop clean st (CharData s # ts) = label_loop clean st ts"
| "label_loop clean st (OtherToken # ts) = label_loop clean st ts"
  by pat_completeness auto
termination
  by (relation "measure (\<lambda>(clean, st, ts). length ts)") (auto dest: decode_element_shorter)

type_synonym xml_decoder = "string \<Rightarrow> xml_token list \<times> bool"

definition plistLabel :: "xml_decoder \<Rightarrow> string \<Rightarrow> plist_error + string" where
  "plistLabel X data = (case X data of (ts, clean) \<Rightarrow>
     label_loop clean \<lparr>ls_in_dict = False, ls_depth = 0, ls_want = False, ls_found = False, ls_label = ''''\<rparr> ts)"

record args_state =
  as_in_dict :: bool
  as_depth :: nat
  as_want :: bool
  as_in_array :: bool
  as_args :: "string list"

text \<open>A nil slice is an empty one: it is only made by the first argument.\<close>

function args_loop :: "bool \<Rightarrow> args_state \<Rightarrow> xml_token list \<Rightarrow> plist_error + string list" where
  "args_loop clean st [] =
     (if \<not> clean then Inl XMLSyntax else if as_args st = [] then Inl MissingArguments else Inr (as_args st))"
| "args_loop clean st (StartElement name # ts) =
     (if name = ''dict'' \<and> \<not> as_in_dict st then args_loop clean (st\<lparr>as_in_dict := True, as_depth := 1\<rparr>) ts
      else if \<not> as_in_dict st then args_loop clean st ts
      else if \<not> as_in_array st \<and> as_depth st + 1 = 2 \<and> name = ''key'' then
        (case decode_element 0 [] ts of
           None \<Rightarrow> Inl XMLSyntax
         | Some (key, ts') \<Rightarrow> args_loop clean (st\<lparr>as_want := (key = ''ProgramArguments'')\<rparr>) ts')
      else if as_want st \<and> \<not> as_in_array st \<and> as_depth st + 1 = 2 \<and> name = ''array''
      then args_loop clean (st\<lparr>as_depth := as_depth st + 1, as_in_array := True\<rparr>) ts
      else if as_in_array st \<and> as_depth st + 1 = 3 \<and> name = ''string'' then
        (case decode_element 0 [] ts of
           None \<Rightarrow> Inl XMLSyntax
         | Some (arg, ts') \<Rightarrow> args_loop clean (st\<lparr>as_args := as_args st @ [arg]\<rparr>) ts')
      else args_loop clean (st\<lparr>as_depth := as_depth st + 1\<rparr>) ts)"
| "args_loop clean st (EndElement name # ts) =
     (case leave_element (as_in_dict st) (as_depth st) of
        (in_dict, depth) \<Rightarrow>
          let ended = as_in_dict st \<and> as_in_array st \<and> name = ''array'' in
          args_loop clean (st\<lparr>as_in_dict := in_dict, as_depth := depth,
            as_in_array := (as_in_array st \<and> \<not> ended), as_want := (as_want st \<and> \<not> ended)\<rparr>) ts)"
| "args_loop clean st (CharData s # ts) = args_loop clean st ts"
| "args_loop clean st (OtherToken # ts) = args_loop clean st ts"
  by pat_completeness auto
termination
  by (relation "measure (\<lambda>(clean, st, ts). length ts)") (auto dest: decode_element_shorter)

definition plistProgramArguments :: "xml_decoder \<Rightarrow> string \<Rightarrow> plist_error + string list" where
  "plistProgramArguments X data = (case X data of (ts, clean) \<Rightarrow>
     args_loop clean \<lparr>as_in_dict = False, as_depth = 0, as_want = False, as_in_array = False, as_args = []\<rparr> ts)"

section \<open>A rendered list is read back\<close>

lemma decode_leaf:
  "decode_element 0 [] ((if v = [] then [] else [CharData v]) @ EndElement n # ts) = Some (v, ts)"
  by simp

text \<open>Texts that XML holds as they are: printable ASCII.\<close>

definition xml_plain :: "string \<Rightarrow> bool" where
  "xml_plain = list_all (\<lambda>c. byte_in 32 126 c)"

lemma xml_clean_plain: "xml_plain s \<Longrightarrow> xml_clean s = s"
proof (induction s)
  case Nil
  show ?case by (subst xml_clean.simps) simp
next
  case (Cons c s)
  then have c: "utf8_valid [c]" "32 \<le> byte c" and s: "xml_clean s = s"
    by (auto simp: xml_plain_def byte_in_def)
  have len: "rune_len (c # s) = 1" using c(1) by (simp add: rune_len_def del: utf8_valid.simps)
  have "xml_rune_ok [c]" using c(2) by (simp add: xml_rune_ok_def)
  then show ?case by (subst xml_clean.simps) (simp add: len s)
qed

definition leaf_tokens :: "string \<Rightarrow> string \<Rightarrow> xml_token list" where
  "leaf_tokens name v = StartElement name # (if v = [] then [] else [CharData v]) @ [EndElement name]"

lemma leaf_line_tokens: "leaf_line indent name v = (indent, ''<'' @ name @ ''>'' @ escapeXML v @ ''</'' @ name @ ''>'', leaf_tokens name (xml_clean v))"
  by (simp add: leaf_line_def leaf_tokens_def)

lemma label_rules:
  "ls_in_dict st \<Longrightarrow> ls_depth st = 1 \<Longrightarrow>
     label_loop clean st (leaf_tokens ''key'' v @ ts) = label_loop clean (st\<lparr>ls_want := (v = ''Label'')\<rparr>) ts"
  "ls_in_dict st \<Longrightarrow> ls_depth st = 1 \<Longrightarrow> ls_want st \<Longrightarrow> \<not> ls_found st \<Longrightarrow>
     label_loop clean st (leaf_tokens ''string'' v @ ts)
     = label_loop clean (st\<lparr>ls_want := False, ls_found := True, ls_label := v\<rparr>) ts"
  "ls_in_dict st \<Longrightarrow> ls_depth st = 1 \<Longrightarrow> \<not> ls_want st \<Longrightarrow> n \<noteq> ''key'' \<Longrightarrow>
     label_loop clean st (leaf_tokens n v @ ts) = label_loop clean st ts"
  "ls_in_dict st \<Longrightarrow> 1 < ls_depth st \<Longrightarrow> label_loop clean st (leaf_tokens n v @ ts) = label_loop clean st ts"
  by (cases st; simp add: leaf_tokens_def leave_element_def)+

lemma args_rules:
  "as_in_dict st \<Longrightarrow> as_depth st = 1 \<Longrightarrow> \<not> as_in_array st \<Longrightarrow>
     args_loop clean st (leaf_tokens ''key'' v @ ts) = args_loop clean (st\<lparr>as_want := (v = ''ProgramArguments'')\<rparr>) ts"
  "as_in_dict st \<Longrightarrow> as_depth st = 2 \<Longrightarrow> as_in_array st \<Longrightarrow>
     args_loop clean st (leaf_tokens ''string'' v @ ts) = args_loop clean (st\<lparr>as_args := as_args st @ [v]\<rparr>) ts"
  "as_in_dict st \<Longrightarrow> as_depth st = 1 \<Longrightarrow> \<not> as_in_array st \<Longrightarrow> n \<notin> {''key'', ''array''} \<Longrightarrow>
     args_loop clean st (leaf_tokens n v @ ts) = args_loop clean st ts"
  "as_in_dict st \<Longrightarrow> 1 < as_depth st \<Longrightarrow> \<not> as_in_array st \<Longrightarrow>
     args_loop clean st (leaf_tokens n v @ ts) = args_loop clean st ts"
proof -
  show "args_loop clean st (leaf_tokens ''key'' v @ ts) = args_loop clean (st\<lparr>as_want := (v = ''ProgramArguments'')\<rparr>) ts"
    if "as_in_dict st" "as_depth st = 1" "\<not> as_in_array st" using that by (simp add: leaf_tokens_def)
  show "args_loop clean st (leaf_tokens ''string'' v @ ts) = args_loop clean (st\<lparr>as_args := as_args st @ [v]\<rparr>) ts"
    if "as_in_dict st" "as_depth st = 2" "as_in_array st" using that by (simp add: leaf_tokens_def)
  show "args_loop clean st (leaf_tokens n v @ ts) = args_loop clean st ts"
    if "as_in_dict st" "as_depth st = 1" "\<not> as_in_array st" "n \<notin> {''key'', ''array''}"
    using that by (cases st) (simp add: leaf_tokens_def leave_element_def)
  show "args_loop clean st (leaf_tokens n v @ ts) = args_loop clean st ts"
    if "as_in_dict st" "1 < as_depth st" "\<not> as_in_array st"
    using that by (cases st) (simp add: leaf_tokens_def leave_element_def)
qed

lemmas template_defs = plist_tokens_def plist_lines_def Let_def tag_line_def end_line_def flag_line_def
  key_line_def entry_lines_def leaf_line_tokens

lemma keys_plain:
  "xml_clean ''Label'' = ''Label''"
  "xml_clean ''ProgramArguments'' = ''ProgramArguments''"
  "xml_clean ''WorkingDirectory'' = ''WorkingDirectory''"
  "xml_clean ''StandardOutPath'' = ''StandardOutPath''"
  "xml_clean ''StandardErrorPath'' = ''StandardErrorPath''"
  "xml_clean ''EnvironmentVariables'' = ''EnvironmentVariables''"
  "xml_clean ''RunAtLoad'' = ''RunAtLoad''"
  "xml_clean ''WatchPaths'' = ''WatchPaths''"
  "xml_clean ''ThrottleInterval'' = ''ThrottleInterval''"
  "xml_clean ''ExitTimeOut'' = ''ExitTimeOut''"
  "xml_clean ''ProcessType'' = ''ProcessType''"
  "xml_clean ''Umask'' = ''Umask''"
  "xml_clean ''KeepAlive'' = ''KeepAlive''"
  "xml_clean ''UserName'' = ''UserName''"
  "xml_clean ''start'' = ''start''"
  "xml_clean ''--foreground'' = ''--foreground''"
  by (simp_all add: xml_clean_plain xml_plain_def byte_in_def)

lemma label_moves:
  "\<not> ls_in_dict st \<Longrightarrow> label_loop clean st (StartElement ''dict'' # ts)
     = label_loop clean (st\<lparr>ls_in_dict := True, ls_depth := 1\<rparr>) ts"
  "\<not> ls_in_dict st \<Longrightarrow> n \<noteq> ''dict'' \<Longrightarrow> label_loop clean st (StartElement n # ts) = label_loop clean st ts"
  "ls_in_dict st \<Longrightarrow> \<not> ls_want st \<Longrightarrow> n \<noteq> ''key'' \<Longrightarrow>
     label_loop clean st (StartElement n # ts) = label_loop clean (st\<lparr>ls_depth := ls_depth st + 1\<rparr>) ts"
  by simp_all

lemma args_moves:
  "\<not> as_in_dict st \<Longrightarrow> args_loop clean st (StartElement ''dict'' # ts)
     = args_loop clean (st\<lparr>as_in_dict := True, as_depth := 1\<rparr>) ts"
  "\<not> as_in_dict st \<Longrightarrow> n \<noteq> ''dict'' \<Longrightarrow> args_loop clean st (StartElement n # ts) = args_loop clean st ts"
  "as_in_dict st \<Longrightarrow> as_depth st = 1 \<Longrightarrow> \<not> as_in_array st \<Longrightarrow> as_want st \<Longrightarrow>
     args_loop clean st (StartElement ''array'' # ts) = args_loop clean (st\<lparr>as_depth := as_depth st + 1, as_in_array := True\<rparr>) ts"
  "as_in_dict st \<Longrightarrow> \<not> as_in_array st \<Longrightarrow> \<not> as_want st \<Longrightarrow> n \<noteq> ''key'' \<Longrightarrow>
     args_loop clean st (StartElement n # ts) = args_loop clean (st\<lparr>as_depth := as_depth st + 1\<rparr>) ts"
  by simp_all

lemma plist_label_read:
  assumes "xml_clean (pd_label d) \<noteq> []"
  shows "label_loop True \<lparr>ls_in_dict = False, ls_depth = 0, ls_want = False, ls_found = False, ls_label = ''''\<rparr> (plist_tokens d)
    = Inr (xml_clean (pd_label d))"
  using assms
  by (cases "pd_socket_path d = ''''"; cases "pd_keep_alive d"; cases "pd_username d = ''''";
      simp add: template_defs label_rules label_moves keys_plain leave_element_def del: label_loop.simps(2))

lemma plist_args_read:
  "args_loop True \<lparr>as_in_dict = False, as_depth = 0, as_want = False, as_in_array = False, as_args = []\<rparr> (plist_tokens d)
    = Inr [xml_clean (pd_executable d), ''start'', xml_clean (pd_name d), ''--foreground'']"
  by (cases "pd_socket_path d = ''''"; cases "pd_keep_alive d"; cases "pd_username d = ''''";
      simp add: template_defs args_rules args_moves keys_plain leave_element_def del: args_loop.simps(2))

section \<open>Properties of the property list\<close>

text \<open>No text of a machine can break out of its element: the escaped text holds no angle bracket and
  no quotation mark, and a reader of its references gets back the text itself, with what XML cannot
  hold replaced by U+FFFD.\<close>

lemma escaped_text_contained:
  "xml_unescape (escapeXML s) = xml_clean s \<and> CHR ''<'' \<notin> set (escapeXML s) \<and> CHR ''>'' \<notin> set (escapeXML s)"
  by (auto simp: escapeXML_def unescape_concat dest: escape_char_plain)

lemma byte_class_plain: "is_alnum c \<or> is_lower_hex c \<or> c \<in> {CHR ''.'', CHR ''_'', CHR ''-''} \<Longrightarrow> byte_in 32 126 c"
  by (auto simp: byte_class_defs)

lemma namePattern_plain: "namePattern s \<Longrightarrow> xml_plain s"
  by (cases s) (auto simp: namePattern_def xml_plain_def name_rest_byte_def list_all_iff byte_class_plain)

lemma idPattern_plain: "idPattern s \<Longrightarrow> xml_plain s"
  by (auto simp: idPattern_def xml_plain_def list_all_iff byte_class_plain)

lemma Label_plain: "idPattern i \<Longrightarrow> xml_plain (Label i)"
  using idPattern_plain [of i]
  by (auto simp: Label_def xml_plain_def byte_in_def dest: in_set_takeD simp: list_all_iff)

text \<open>C32. An installed list is recognised: where the XML decoder reads a rendered list as the elements it
  was written with, the label found in it is the machine's label, and its program arguments are the
  executable it was rendered for and the foreground start of the machine.\<close>

theorem rendered_plist_recognised:
  assumes "render_plist cfg a = Inr data" and "X data = (plist_tokens (plist_data cfg a), True)"
    and "xml_plain (pa_executable a)"
  shows "plistLabel X data = Inr (Label (cfg_id cfg))
    \<and> plistProgramArguments X data = Inr [pa_executable a, ''start'', cfg_name cfg, ''--foreground'']"
proof -
  have "Validate cfg = None"
    using assms(1) by (auto simp: render_plist_def first_error_Cons_None split: option.splits)
  then have ids: "idPattern (cfg_id cfg)" "namePattern (cfg_name cfg)"
    by (simp_all add: Validate_None_iff wf_config_def wf_scalars_def)
  have "xml_clean (Label (cfg_id cfg)) = Label (cfg_id cfg)" "xml_clean (cfg_name cfg) = cfg_name cfg"
    "xml_clean (pa_executable a) = pa_executable a" "Label (cfg_id cfg) \<noteq> []"
    using ids assms(3) by (simp_all add: xml_clean_plain Label_plain namePattern_plain) (simp add: Label_def)
  then show ?thesis
    using plist_label_read [of "plist_data cfg a"] plist_args_read [of "plist_data cfg a"] assms(2)
    by (simp add: plistLabel_def plistProgramArguments_def plist_data_def)
qed

definition sample_plist_args :: plist_args where
  "sample_plist_args =
     \<lparr>pa_executable = ''/opt/homebrew/bin/qemu-manage'', pa_work_dir = ''/data/vm'', pa_stdout_log = ''/log/out'',
      pa_stderr_log = ''/log/err'', pa_username = ''user'', pa_home = ''/Users/user'', pa_data_root = ''/data'',
      pa_runtime_root = ''/run'', pa_log_root = ''/log''\<rparr>"

theorem rendered_plist_recognised_witness:
  "\<exists>data. render_plist (sample_config\<lparr>cfg_autostart_scope := AutostartLogin\<rparr>) sample_plist_args = Inr data
     \<and> plistProgramArguments (\<lambda>_. (plist_tokens (plist_data (sample_config\<lparr>cfg_autostart_scope := AutostartLogin\<rparr>) sample_plist_args), True)) data
       = Inr [''/opt/homebrew/bin/qemu-manage'', ''start'', ''home-assistant'', ''--foreground'']"
proof -
  let ?c = "sample_config\<lparr>cfg_autostart_scope := AutostartLogin\<rparr>"
  have "Validate ?c = None"
    by code_simp
  then obtain data where data: "render_plist ?c sample_plist_args = Inr data"
    by (auto simp: render_plist_def relative_path_def sample_plist_args_def is_abs_path_def has_prefix_def
        AutostartLogin_def AutostartBoot_def)
  have "xml_plain (pa_executable sample_plist_args)"
    by (simp add: sample_plist_args_def xml_plain_def byte_in_def)
  from rendered_plist_recognised [OF data, of "\<lambda>_. (plist_tokens (plist_data ?c sample_plist_args), True)", OF refl this] data
  show ?thesis by (simp add: sample_plist_args_def sample_config_def)
qed

end
