(* ===== verification/Launchd.thy ===== *)
theory Launchd
  imports Store Backend Plist
begin

text \<open>
  Package \<open>internal/launchd\<close> without the bridge: inspecting, installing and removing the property list
  of a machine in the two launchd domains (\<open>manage.go\<close>), and the transactions that enable, disable
  and start its job (\<open>enable.go\<close>, \<open>disable.go\<close>, \<open>start.go\<close>). The world is the host of the store, the
  property lists, the loaded jobs and the commands that were run. The commands are external
  programs: what they do is a parameter, \<open>ln_run\<close>, and what the code relies on are named laws.
\<close>

section \<open>The world\<close>

datatype job_domain = DomainLogin | DomainSystem

datatype plist_node =
    PlistLink
  | PlistSpecial
  | PlistFile (pl_uid: nat) (pl_gid: nat) (pl_mode: nat) (pl_data: string)

text \<open>The commands, named by what they are given. A candidate file is named by its content.\<close>

datatype ld_command =
    Print string
  | Lint string
  | Bootstrap job_domain string
  | Bootout job_domain string
  | InstallFile string string
  | RemoveFile string

datatype cmd_outcome = CmdOK string | CmdFailed string string | CmdCanceled string

type_synonym plists = "string \<rightharpoonup> plist_node"

type_synonym runner = "ld_command \<Rightarrow> plists \<times> string set \<Rightarrow> cmd_outcome \<times> plists \<times> string set"

record world =
  wd_host :: host
  wd_files :: plists
  wd_jobs :: "string set"
  wd_cmds :: "ld_command list"

record manager =
  mg_store :: Store
  mg_executable :: string
  mg_username :: string
  mg_home :: string
  mg_uid :: nat
  mg_login_dir :: string
  mg_system_dir :: string

text \<open>The outside: the command runner, the XML decoder, the configuration library, \<open>os.Stat\<close> of the
  executable (regular or not, and its mode), the group of new files, the path of the candidate file and
  whether it can be made, and the system calls that fail.\<close>

record launchd_env =
  ln_run :: runner
  ln_decoder :: xml_decoder
  ln_library :: library
  ln_stat :: "string \<Rightarrow> sys_error + bool \<times> nat"
  ln_gid :: nat
  ln_candidate :: string
  ln_candidate_err :: "sys_error option"
  ln_fault :: "sysop \<Rightarrow> string \<Rightarrow> bool"

datatype ld_error =
    LdStore store_error | InvalidScope string | NoDoctor | InvalidVM config_error | LdPlist plist_error
  | InspectFailed sys_error | PlistNotRegular | WrongLoginOwner | WrongSystemOwner | ParsePlist plist_error
  | ForeignPlist string | CommandFailed ld_command cmd_outcome | ExecutableNotAbsolute | ExecutableStat sys_error
  | ExecutableNotRegular | CandidateFailed sys_error | AgentsDirFailed sys_error | InstallFailed sys_error
  | RemoveFailed sys_error | VerifyFailed sys_error | VerifyOwner | VerifyBytes | OtherScope string
  | DoctorFailed string | VMRunningDisable | PlistChanged | RollbackChanged | NoScope | VMAlreadyRunning string

type_synonym 'a ld = "world \<Rightarrow> (ld_error list + 'a) \<times> world"

definition fails :: "ld_error option \<Rightarrow> unit ld" where
  "fails e = reject (map_option (\<lambda>x. [x]) e)"

definition gives :: "(world \<Rightarrow> ld_error + 'a) \<Rightarrow> 'a ld" where
  "gives f w = (case f w of Inl e \<Rightarrow> (Inl [e], w) | Inr x \<Rightarrow> (Inr x, w))"

definition on_store :: "(host \<Rightarrow> (store_error, 'a) action) \<Rightarrow> 'a ld" where
  "on_store f w =
     (case f (wd_host w) of
        (Inl e, h) \<Rightarrow> (Inl [LdStore e], w\<lparr>wd_host := h\<rparr>)
      | (Inr x, h) \<Rightarrow> (Inr x, w\<lparr>wd_host := h\<rparr>))"

text \<open>\<open>errors.Join\<close> of an error with the outcome of the clean-up after it.\<close>

definition and_then :: "ld_error list \<Rightarrow> unit ld \<Rightarrow> 'a ld" where
  "and_then es m w = (case m w of (Inl es', w') \<Rightarrow> (Inl (es @ es'), w') | (Inr _, w') \<Rightarrow> (Inl es, w'))"

section \<open>Commands\<close>

definition run_cmd :: "launchd_env \<Rightarrow> ld_command \<Rightarrow> world \<Rightarrow> cmd_outcome \<times> world" where
  "run_cmd env c w =
     (case ln_run env c (wd_files w, wd_jobs w) of
        (out, fs, js) \<Rightarrow> (out, w\<lparr>wd_files := fs, wd_jobs := js, wd_cmds := wd_cmds w @ [c]\<rparr>))"

definition command :: "launchd_env \<Rightarrow> ld_command \<Rightarrow> unit ld" where
  "command env c w =
     (case run_cmd env c w of
        (CmdOK _, w') \<Rightarrow> (Inr (), w')
      | (out, w') \<Rightarrow> (Inl [CommandFailed c out], w'))"

definition plistPath :: "manager \<Rightarrow> job_domain \<Rightarrow> string \<Rightarrow> string" where
  "plistPath m d i = join_path (if d = DomainSystem then mg_system_dir m else mg_login_dir m) (Filename i)"

definition job_target :: "manager \<Rightarrow> job_domain \<Rightarrow> string \<Rightarrow> string" where
  "job_target m d i = (if d = DomainSystem then ''system/'' @ Label i else ''gui/'' @ itoa (mg_uid m) @ ''/'' @ Label i)"

definition domainTarget :: "manager \<Rightarrow> job_domain \<Rightarrow> string" where
  "domainTarget m d = (if d = DomainSystem then ''system'' else ''gui/'' @ itoa (mg_uid m))"

text \<open>The command line of a command: whether it is run with privileges, the program, its arguments.\<close>

definition command_line :: "manager \<Rightarrow> string \<Rightarrow> ld_command \<Rightarrow> bool \<times> string \<times> string list" where
  "command_line m candidate c =
     (case c of
        Print t \<Rightarrow> (False, ''/bin/launchctl'', [''print'', t])
      | Lint _ \<Rightarrow> (False, ''/usr/bin/plutil'', [''-lint'', candidate])
      | Bootstrap d p \<Rightarrow> (d = DomainSystem, ''/bin/launchctl'', [''bootstrap'', domainTarget m d, p])
      | Bootout d t \<Rightarrow> (d = DomainSystem, ''/bin/launchctl'', [''bootout'', t])
      | InstallFile _ dest \<Rightarrow>
          (True, ''/usr/bin/install'', [''-o'', ''root'', ''-g'', ''wheel'', ''-m'', ''0644'', candidate, dest])
      | RemoveFile p \<Rightarrow> (True, ''/bin/rm'', [''-f'', ''--'', p]))"

definition contains :: "string \<Rightarrow> string \<Rightarrow> bool" where
  "contains s sub = list_ex (\<lambda>i. has_prefix (drop i s) sub) [0..<Suc (length s)]"

definition not_found_text :: "string \<Rightarrow> string" where
  "not_found_text label = ''Could not find service '' @ [CHR 0x22] @ label @ [CHR 0x22] @ '' in domain for ''"

definition serviceNotFound :: "string \<Rightarrow> string \<Rightarrow> string \<Rightarrow> bool" where
  "serviceNotFound output err label = contains (output @ newline # err) (not_found_text label)"

definition printLoaded :: "manager \<Rightarrow> launchd_env \<Rightarrow> job_domain \<Rightarrow> string \<Rightarrow> bool ld" where
  "printLoaded m env d i w =
     (let c = Print (job_target m d i) in
      case run_cmd env c w of
        (CmdOK _, w') \<Rightarrow> (Inr True, w')
      | (CmdCanceled out, w') \<Rightarrow> (Inl [CommandFailed c (CmdCanceled out)], w')
      | (CmdFailed out err, w') \<Rightarrow>
          (if serviceNotFound out err (Label i) then Inr False else Inl [CommandFailed c (CmdFailed out err)], w'))"

definition lint :: "launchd_env \<Rightarrow> string \<Rightarrow> unit ld" where "lint env data = command env (Lint data)"

definition bootstrap :: "launchd_env \<Rightarrow> job_domain \<Rightarrow> string \<Rightarrow> unit ld" where
  "bootstrap env d path = command env (Bootstrap d path)"

definition bootout :: "manager \<Rightarrow> launchd_env \<Rightarrow> job_domain \<Rightarrow> string \<Rightarrow> unit ld" where
  "bootout m env d i = command env (Bootout d (job_target m d i))"

section \<open>Inspecting, installing and removing a list\<close>

record pathInspection =
  pi_path :: string
  pi_present :: bool
  pi_bytes :: string

definition owner_ok :: "manager \<Rightarrow> job_domain \<Rightarrow> nat \<Rightarrow> nat \<Rightarrow> nat \<Rightarrow> bool" where
  "owner_ok m d uid gid mode =
     (if d = DomainSystem then uid = 0 \<and> gid = 0 \<and> mode = 420 else uid = mg_uid m \<and> mode = mode_file)"

definition inspectPath :: "manager \<Rightarrow> launchd_env \<Rightarrow> job_domain \<Rightarrow> string \<Rightarrow> world \<Rightarrow> ld_error + pathInspection" where
  "inspectPath m env d i w =
     (let path = plistPath m d i in
      if ln_fault env SysOpen path then Inl (InspectFailed (EFAULTED SysOpen))
      else case wd_files w path of
        None \<Rightarrow> Inr \<lparr>pi_path = path, pi_present = False, pi_bytes = ''''\<rparr>
      | Some PlistLink \<Rightarrow> Inl (InspectFailed ELOOP)
      | Some PlistSpecial \<Rightarrow> Inl PlistNotRegular
      | Some (PlistFile uid gid mode data) \<Rightarrow>
          if ln_fault env SysFstat path then Inl (InspectFailed (EFAULTED SysFstat))
          else if \<not> owner_ok m d uid gid mode
          then Inl (if d = DomainSystem then WrongSystemOwner else WrongLoginOwner)
          else if ln_fault env SysRead path then Inl (InspectFailed (EFAULTED SysRead))
          else case plistLabel (ln_decoder env) data of
            Inl e \<Rightarrow> Inl (ParsePlist e)
          | Inr l \<Rightarrow> if l \<noteq> Label i then Inl (ForeignPlist l)
                     else Inr \<lparr>pi_path = path, pi_present = True, pi_bytes = data\<rparr>)"

definition inspectBoth :: "manager \<Rightarrow> launchd_env \<Rightarrow> string \<Rightarrow> (pathInspection \<times> pathInspection) ld" where
  "inspectBoth m env i =
     bindS (gives (inspectPath m env DomainLogin i)) (\<lambda>login.
     bindS (gives (inspectPath m env DomainSystem i)) (\<lambda>sys.
     lift_result (Inr (login, sys))))"

definition verifyInstalled :: "manager \<Rightarrow> launchd_env \<Rightarrow> job_domain \<Rightarrow> string \<Rightarrow> string \<Rightarrow> world \<Rightarrow> ld_error option" where
  "verifyInstalled m env d path expected w =
     (if ln_fault env SysOpen path then Some (VerifyFailed (EFAULTED SysOpen))
      else case wd_files w path of
        None \<Rightarrow> Some (VerifyFailed ENOENT)
      | Some PlistLink \<Rightarrow> Some (VerifyFailed ELOOP)
      | Some PlistSpecial \<Rightarrow> Some PlistNotRegular
      | Some (PlistFile uid gid mode data) \<Rightarrow>
          if ln_fault env SysFstat path then Some (VerifyFailed (EFAULTED SysFstat))
          else if \<not> owner_ok m d uid gid mode then Some VerifyOwner
          else if ln_fault env SysRead path then Some (VerifyFailed (EFAULTED SysRead))
          else if data \<noteq> expected then Some VerifyBytes
          else None)"

definition verify :: "manager \<Rightarrow> launchd_env \<Rightarrow> job_domain \<Rightarrow> string \<Rightarrow> string \<Rightarrow> unit ld" where
  "verify m env d path expected w = fails (verifyInstalled m env d path expected w) w"

definition set_file :: "string \<Rightarrow> plist_node option \<Rightarrow> world \<Rightarrow> world" where
  "set_file p n w = w\<lparr>wd_files := (wd_files w)(p := n)\<rparr>"

text \<open>A login list is written by the program itself: created exclusively, written, protected, synced and
  closed, and removed again when one of these fails.\<close>

definition abort_install :: "launchd_env \<Rightarrow> sysop \<Rightarrow> string \<Rightarrow> unit ld" where
  "abort_install env call dest w =
     (Inl [InstallFailed (EFAULTED call)], if ln_fault env SysRemove dest then w else set_file dest None w)"

definition install_login :: "manager \<Rightarrow> launchd_env \<Rightarrow> string \<Rightarrow> string \<Rightarrow> unit ld" where
  "install_login m env data dest w =
     (if ln_fault env SysMkdir (parent_dir dest) then (Inl [AgentsDirFailed (EFAULTED SysMkdir)], w)
      else if ln_fault env SysRead (ln_candidate env) then (Inl [CandidateFailed (EFAULTED SysRead)], w)
      else if ln_fault env SysOpen dest then (Inl [InstallFailed (EFAULTED SysOpen)], w)
      else if wd_files w dest \<noteq> None then (Inl [InstallFailed EEXIST], w)
      else let empty = set_file dest (Some (PlistFile (mg_uid m) (ln_gid env) mode_file '''')) w;
               full = set_file dest (Some (PlistFile (mg_uid m) (ln_gid env) mode_file data)) w in
        if ln_fault env SysWrite dest then abort_install env SysWrite dest empty
        else if ln_fault env SysFchmod dest then abort_install env SysFchmod dest full
        else if ln_fault env SysSync dest then abort_install env SysSync dest full
        else if ln_fault env SysClose dest then abort_install env SysClose dest full
        else (Inr (), full))"

definition installCandidate :: "manager \<Rightarrow> launchd_env \<Rightarrow> job_domain \<Rightarrow> string \<Rightarrow> string \<Rightarrow> unit ld" where
  "installCandidate m env d data dest =
     (if d = DomainSystem then command env (InstallFile data dest) else install_login m env data dest)"

definition removePlist :: "launchd_env \<Rightarrow> job_domain \<Rightarrow> string \<Rightarrow> unit ld" where
  "removePlist env d path w =
     (if d = DomainSystem then command env (RemoveFile path) w
      else if ln_fault env SysRemove path then (Inl [RemoveFailed (EFAULTED SysRemove)], w)
      else (Inr (), set_file path None w))"

definition removeInstalledIfExact :: "manager \<Rightarrow> launchd_env \<Rightarrow> job_domain \<Rightarrow> string \<Rightarrow> string \<Rightarrow> unit ld" where
  "removeInstalledIfExact m env d i expected =
     bindS (gives (inspectPath m env d i)) (\<lambda>p.
     if \<not> pi_present p then lift_result (Inr ())
     else bindS (verify m env d (pi_path p) expected) (\<lambda>_. removePlist env d (pi_path p)))"

text \<open>What \<open>installPlist\<close> and \<open>restorePlist\<close> share once the candidate is written.\<close>

definition put_plist :: "manager \<Rightarrow> launchd_env \<Rightarrow> job_domain \<Rightarrow> string \<Rightarrow> string \<Rightarrow> unit ld" where
  "put_plist m env d i data =
     (let dest = plistPath m d i in
      bindS (lint env data) (\<lambda>_ w.
      case installCandidate m env d data dest w of
        (Inl es, w1) \<Rightarrow> and_then es (removeInstalledIfExact m env d i data) w1
      | (Inr _, w1) \<Rightarrow>
          (case verifyInstalled m env d dest data w1 of
             Some e \<Rightarrow> and_then [e] (removePlist env d dest) w1
           | None \<Rightarrow> (Inr (), w1))))"

definition installPlist :: "manager \<Rightarrow> launchd_env \<Rightarrow> job_domain \<Rightarrow> string \<Rightarrow> string \<Rightarrow> unit ld" where
  "installPlist m env d i rendered =
     bindS (fails (map_option CandidateFailed (ln_candidate_err env))) (\<lambda>_. put_plist m env d i rendered)"

definition cleanup_installed :: "manager \<Rightarrow> launchd_env \<Rightarrow> job_domain \<Rightarrow> string \<Rightarrow> string \<Rightarrow> unit ld" where
  "cleanup_installed m env d i rendered =
     bindS (verify m env d (plistPath m d i) rendered) (\<lambda>_. removePlist env d (plistPath m d i))"

section \<open>Rendering\<close>

definition stableExecutable :: "launchd_env \<Rightarrow> string \<Rightarrow> ld_error + string" where
  "stableExecutable env path =
     (if \<not> is_abs_path path then Inl ExecutableNotAbsolute
      else case ln_stat env (Clean path) of
        Inl e \<Rightarrow> Inl (ExecutableStat e)
      | Inr (regular, mode) \<Rightarrow>
          if \<not> regular \<or> even (mode div 64) \<and> even (mode div 8) \<and> even mode then Inl ExecutableNotRegular
          else Inr (Clean path))"

definition plist_args_of :: "manager \<Rightarrow> Config \<Rightarrow> string \<Rightarrow> plist_args" where
  "plist_args_of m cfg executable =
     (let st = mg_store m; paths = store_paths st cfg in
      \<lparr>pa_executable = executable, pa_work_dir = p_vm_dir paths, pa_stdout_log = p_supervisor_stdout paths,
       pa_stderr_log = p_supervisor_stderr paths, pa_username = mg_username m, pa_home = mg_home m,
       pa_data_root = DataRoot st, pa_runtime_root = RuntimeRoot st, pa_log_root = LogRoot st\<rparr>)"

definition renderForConfig :: "manager \<Rightarrow> Config \<Rightarrow> string \<Rightarrow> ld_error + string" where
  "renderForConfig m cfg executable =
     (case render_plist cfg (plist_args_of m cfg executable) of Inl e \<Rightarrow> Inl (LdPlist e) | Inr t \<Rightarrow> Inr t)"

definition renderExpected :: "manager \<Rightarrow> launchd_env \<Rightarrow> Config \<Rightarrow> ld_error + string" where
  "renderExpected m env cfg = bindE (stableExecutable env (mg_executable m)) (renderForConfig m cfg)"

definition scope_domain :: "autostart_scope \<Rightarrow> job_domain" where
  "scope_domain scope = (if scope = AutostartBoot then DomainSystem else DomainLogin)"

text \<open>The executable an installed list names, if one is installed.\<close>

definition InstalledExecutable :: "manager \<Rightarrow> launchd_env \<Rightarrow> string \<Rightarrow> world \<Rightarrow> ld_error + string option" where
  "InstalledExecutable m env name w =
     (case Load (mg_store m) (ln_library env) (wd_host w) name of
        Inl e \<Rightarrow> Inl (LdStore e)
      | Inr cfg \<Rightarrow>
          (case inspectPath m env (scope_domain (cfg_autostart_scope cfg)) (cfg_id cfg) w of
             Inl e \<Rightarrow> Inl e
           | Inr p \<Rightarrow>
               if \<not> pi_present p then Inr None
               else (case plistProgramArguments (ln_decoder env) (pi_bytes p) of
                  Inl e \<Rightarrow> Inl (LdPlist e)
                | Inr [] \<Rightarrow> Inl (LdPlist MissingArguments)
                | Inr (a # _) \<Rightarrow> Inr (Some a))))"

section \<open>Enabling\<close>

record EnableResult =
  er_scope :: autostart_scope
  er_already :: bool
  er_reconciled :: bool
  er_loaded :: bool

text \<open>A list is replaced by its current rendering: the one that is there must still be the one that was
  inspected, it is removed, and the new one installed.\<close>

definition replace_plist :: "manager \<Rightarrow> launchd_env \<Rightarrow> job_domain \<Rightarrow> string \<Rightarrow> pathInspection \<Rightarrow> string \<Rightarrow> unit ld" where
  "replace_plist m env d i installed expected =
     bindS (if pi_present installed
            then bindS (verify m env d (pi_path installed) (pi_bytes installed)) (\<lambda>_. removePlist env d (pi_path installed))
            else lift_result (Inr ())) (\<lambda>_.
     installPlist m env d i expected)"

definition enable_same :: "manager \<Rightarrow> launchd_env \<Rightarrow> Config \<Rightarrow> autostart_scope \<Rightarrow> bool \<Rightarrow> EnableResult ld" where
  "enable_same m env cfg scope loaded =
     (let d = scope_domain scope;
          unchanged = \<lparr>er_scope = scope, er_already = True, er_reconciled = False, er_loaded = loaded\<rparr> in
      bindS (gives (inspectPath m env d (cfg_id cfg))) (\<lambda>installed.
      if \<not> pi_present installed then lift_result (Inr unchanged)
      else bindS (gives (\<lambda>_. renderExpected m env cfg)) (\<lambda>expected.
        if pi_bytes installed = expected then lift_result (Inr unchanged)
        else bindS (replace_plist m env d (cfg_id cfg) installed expected) (\<lambda>_.
          lift_result (Inr (unchanged\<lparr>er_already := False, er_reconciled := True\<rparr>))))))"

definition remove_orphan :: "manager \<Rightarrow> launchd_env \<Rightarrow> job_domain \<Rightarrow> pathInspection \<Rightarrow> unit ld" where
  "remove_orphan m env d p =
     (if pi_present p
      then bindS (verify m env d (pi_path p) (pi_bytes p)) (\<lambda>_. removePlist env d (pi_path p))
      else lift_result (Inr ()))"

definition save_config :: "manager \<Rightarrow> launchd_env \<Rightarrow> string \<Rightarrow> Config \<Rightarrow> unit ld" where
  "save_config m env name cfg = on_store (lockedSave (mg_store m) (ln_library env) name cfg)"

text \<open>The configuration is committed last. When that fails the list is removed again, and the old
  configuration is written back.\<close>

definition commit_scope :: "manager \<Rightarrow> launchd_env \<Rightarrow> string \<Rightarrow> job_domain \<Rightarrow> string \<Rightarrow> Config \<Rightarrow> Config \<Rightarrow> unit ld" where
  "commit_scope m env name d rendered cfg configured w =
     (case save_config m env name configured w of
        (Inr _, w1) \<Rightarrow> (Inr (), w1)
      | (Inl es, w1) \<Rightarrow>
          (case cleanup_installed m env d (cfg_id cfg) rendered w1 of
             (r, w2) \<Rightarrow>
               and_then (es @ (case r of Inl es' \<Rightarrow> es' | Inr _ \<Rightarrow> [])) (save_config m env name cfg) w2))"

definition enable_fresh ::
  "manager \<Rightarrow> launchd_env \<Rightarrow> string \<Rightarrow> Config \<Rightarrow> autostart_scope \<Rightarrow> (Config \<Rightarrow> string option)
   \<Rightarrow> pathInspection \<Rightarrow> pathInspection \<Rightarrow> bool \<Rightarrow> EnableResult ld" where
  "enable_fresh m env name cfg scope doctor login sys loaded =
     (let configured = cfg\<lparr>cfg_autostart_scope := scope\<rparr>; d = scope_domain scope in
      bindS (fails (map_option DoctorFailed (doctor cfg))) (\<lambda>_.
      bindS (gives (\<lambda>_. renderExpected m env configured)) (\<lambda>rendered.
      bindS (remove_orphan m env DomainLogin login) (\<lambda>_.
      bindS (remove_orphan m env DomainSystem sys) (\<lambda>_.
      bindS (installPlist m env d (cfg_id cfg) rendered) (\<lambda>_.
      bindS (commit_scope m env name d rendered cfg configured) (\<lambda>_.
      lift_result (Inr \<lparr>er_scope = scope, er_already = False, er_reconciled = False, er_loaded = loaded\<rparr>))))))))"

definition load_config :: "manager \<Rightarrow> launchd_env \<Rightarrow> string \<Rightarrow> Config ld" where
  "load_config m env name = gives (\<lambda>w.
     case loadUnlocked (mg_store m) (ln_library env) (wd_host w) name of Inl e \<Rightarrow> Inl (LdStore e) | Inr c \<Rightarrow> Inr c)"

definition enable_locked ::
  "manager \<Rightarrow> launchd_env \<Rightarrow> string \<Rightarrow> autostart_scope \<Rightarrow> (Config \<Rightarrow> string option) \<Rightarrow> EnableResult ld" where
  "enable_locked m env name scope doctor =
     bindS (load_config m env name) (\<lambda>cfg.
     bindS (fails (map_option InvalidVM (Validate cfg))) (\<lambda>_.
     bindS (inspectBoth m env (cfg_id cfg)) (\<lambda>(login, sys).
     bindS (printLoaded m env DomainLogin (cfg_id cfg)) (\<lambda>loginLoaded.
     bindS (printLoaded m env DomainSystem (cfg_id cfg)) (\<lambda>systemLoaded.
     if cfg_autostart_scope cfg = scope then enable_same m env cfg scope (loginLoaded \<or> systemLoaded)
     else if cfg_autostart_scope cfg \<noteq> AutostartNone
     then lift_result (Inl [OtherScope (cfg_autostart_scope cfg)])
     else enable_fresh m env name cfg scope doctor login sys (loginLoaded \<or> systemLoaded))))))"

text \<open>An operation under the name lock, which is given back whatever happens.\<close>

definition under_name_lock :: "manager \<Rightarrow> string \<Rightarrow> 'a ld \<Rightarrow> 'a ld" where
  "under_name_lock m name body w =
     (case LockName (mg_store m) (wd_host w) name of
        (Inl e, h) \<Rightarrow> (Inl [LdStore e], w\<lparr>wd_host := h\<rparr>)
      | (Inr l, h) \<Rightarrow>
          (case body (w\<lparr>wd_host := h\<rparr>) of (r, w') \<Rightarrow> (r, w'\<lparr>wd_host := unlock l (wd_host w')\<rparr>)))"

definition Enable ::
  "manager \<Rightarrow> launchd_env \<Rightarrow> string \<Rightarrow> autostart_scope \<Rightarrow> (Config \<Rightarrow> string option) option \<Rightarrow> EnableResult ld" where
  "Enable m env name scope doctor =
     (if scope \<noteq> AutostartBoot \<and> scope \<noteq> AutostartLogin then lift_result (Inl [InvalidScope scope])
      else case doctor of
        None \<Rightarrow> lift_result (Inl [NoDoctor])
      | Some check \<Rightarrow> under_name_lock m name (enable_locked m env name scope check))"

section \<open>Disabling\<close>

record disabledDomain =
  dd_domain :: job_domain
  dd_inspection :: pathInspection
  dd_backup :: pathInspection
  dd_loaded :: bool
  dd_removed :: bool
  dd_bootedOut :: bool

text \<open>What is known of a domain before anything is changed: the list, whether the job is loaded, and the
  list to put back, rendered when a loaded job has none.\<close>

definition observe_domain ::
  "manager \<Rightarrow> launchd_env \<Rightarrow> Config \<Rightarrow> job_domain \<Rightarrow> pathInspection \<Rightarrow> disabledDomain ld" where
  "observe_domain m env cfg d p =
     bindS (printLoaded m env d (cfg_id cfg)) (\<lambda>loaded.
     let state = \<lparr>dd_domain = d, dd_inspection = p, dd_backup = p, dd_loaded = loaded, dd_removed = False,
                  dd_bootedOut = False\<rparr> in
     if loaded \<and> \<not> pi_present p
     then bindS (gives (\<lambda>_. renderForConfig m
            (cfg\<lparr>cfg_autostart_scope := (if d = DomainSystem then AutostartBoot else AutostartLogin)\<rparr>) (mg_executable m)))
            (\<lambda>data. lift_result (Inr (state\<lparr>dd_backup := p\<lparr>pi_present := True, pi_bytes := data\<rparr>\<rparr>)))
     else lift_result (Inr state))"

definition still_inspected :: "pathInspection \<Rightarrow> pathInspection \<Rightarrow> bool" where
  "still_inspected current p \<longleftrightarrow>
     pi_present current = pi_present p \<and> (pi_present current \<longrightarrow> pi_bytes current = pi_bytes p)"

definition changed :: "pathInspection \<Rightarrow> pathInspection \<Rightarrow> ld_error option" where
  "changed current p = guard (\<not> still_inspected current p) PlistChanged"

text \<open>One domain is taken down: the error if there is one, and how far it came.\<close>

definition remove_checked :: "manager \<Rightarrow> launchd_env \<Rightarrow> string \<Rightarrow> disabledDomain \<Rightarrow> unit ld" where
  "remove_checked m env i s =
     (if \<not> pi_present (dd_inspection s) then lift_result (Inr ())
      else bindS (gives (inspectPath m env (dd_domain s) i)) (\<lambda>current.
        bindS (fails (changed current (dd_inspection s))) (\<lambda>_.
        removePlist env (dd_domain s) (pi_path (dd_inspection s)))))"

definition disable_domain ::
  "manager \<Rightarrow> launchd_env \<Rightarrow> string \<Rightarrow> disabledDomain \<Rightarrow> world \<Rightarrow> ld_error list \<times> disabledDomain \<times> world" where
  "disable_domain m env i s w =
     (case bindS (gives (inspectPath m env (dd_domain s) i)) (\<lambda>current. fails (changed current (dd_inspection s))) w of
        (Inl es, w1) \<Rightarrow> (es, s, w1)
      | (Inr _, w1) \<Rightarrow>
          (case (if dd_loaded s then bootout m env (dd_domain s) i w1 else (Inr (), w1)) of
             (Inl es, w2) \<Rightarrow> (es, s, w2)
           | (Inr _, w2) \<Rightarrow>
               (let s1 = s\<lparr>dd_bootedOut := dd_loaded s\<rparr> in
                case remove_checked m env i s w2 of
                  (Inl es, w3) \<Rightarrow> (es, s1, w3)
                | (Inr _, w3) \<Rightarrow> ([], s1\<lparr>dd_removed := pi_present (dd_inspection s)\<rparr>, w3))))"

fun disable_domains ::
  "manager \<Rightarrow> launchd_env \<Rightarrow> string \<Rightarrow> disabledDomain list \<Rightarrow> disabledDomain list \<Rightarrow> world
   \<Rightarrow> ld_error list \<times> disabledDomain list \<times> world" where
  "disable_domains m env i done_states [] w = ([], done_states, w)"
| "disable_domains m env i done_states (s # rest) w =
     (case disable_domain m env i s w of
        ([], s', w') \<Rightarrow> disable_domains m env i (done_states @ [s']) rest w'
      | (es, s', w') \<Rightarrow> (es, done_states @ s' # rest, w'))"

definition restorePlist :: "manager \<Rightarrow> launchd_env \<Rightarrow> job_domain \<Rightarrow> string \<Rightarrow> pathInspection \<Rightarrow> unit ld" where
  "restorePlist m env d i p =
     (if \<not> pi_present p then lift_result (Inr ())
      else bindS (fails (map_option CandidateFailed (ln_candidate_err env))) (\<lambda>_. put_plist m env d i (pi_bytes p)))"

definition reload_job :: "manager \<Rightarrow> launchd_env \<Rightarrow> string \<Rightarrow> disabledDomain \<Rightarrow> unit ld" where
  "reload_job m env i s =
     (if dd_bootedOut s \<and> dd_loaded s
      then bindS (gives (inspectPath m env (dd_domain s) i)) (\<lambda>current.
        bindS (fails (guard (\<not> pi_present current \<or> pi_bytes current \<noteq> pi_bytes (dd_backup s)) RollbackChanged)) (\<lambda>_.
        bootstrap env (dd_domain s) (pi_path (dd_backup s))))
      else lift_result (Inr ()))"

definition restore_domain :: "manager \<Rightarrow> launchd_env \<Rightarrow> string \<Rightarrow> disabledDomain \<Rightarrow> unit ld" where
  "restore_domain m env i s =
     bindS (if dd_removed s \<or> dd_bootedOut s \<and> dd_loaded s \<and> \<not> pi_present (dd_inspection s)
            then restorePlist m env (dd_domain s) i (dd_backup s) else lift_result (Inr ())) (\<lambda>_.
     reload_job m env i s)"

text \<open>Every domain is tried, the last one first; the errors add up.\<close>

fun restore_domains :: "manager \<Rightarrow> launchd_env \<Rightarrow> string \<Rightarrow> disabledDomain list \<Rightarrow> world \<Rightarrow> ld_error list \<times> world" where
  "restore_domains m env i [] w = ([], w)"
| "restore_domains m env i (s # ss) w =
     (case restore_domains m env i ss w of (es, w1) \<Rightarrow>
      case restore_domain m env i s w1 of
        (Inl es', w2) \<Rightarrow> (es @ es', w2)
      | (Inr _, w2) \<Rightarrow> (es, w2))"

definition rollback ::
  "manager \<Rightarrow> launchd_env \<Rightarrow> string \<Rightarrow> Config \<Rightarrow> bool \<Rightarrow> disabledDomain list \<Rightarrow> ld_error list \<Rightarrow> unit ld" where
  "rollback m env name cfg restoreConfig states primary w =
     (case (if restoreConfig then save_config m env name cfg w else (Inr (), w)) of (r, w1) \<Rightarrow>
      case restore_domains m env (cfg_id cfg) states w1 of
        (es, w2) \<Rightarrow> (Inl (primary @ (case r of Inl es' \<Rightarrow> es' | Inr _ \<Rightarrow> []) @ es), w2))"

definition running_refusal :: "(Config \<Rightarrow> string option) option \<Rightarrow> Config \<Rightarrow> disabledDomain list \<Rightarrow> ld_error option" where
  "running_refusal stopped cfg states =
     (case stopped of
        Some check \<Rightarrow> (case check cfg of None \<Rightarrow> None | Some _ \<Rightarrow> Some VMRunningDisable)
      | None \<Rightarrow> if list_ex dd_loaded states then Some VMRunningDisable else None)"

text \<open>The changes, with the commit of the scope at the end.\<close>

definition disable_changes ::
  "manager \<Rightarrow> launchd_env \<Rightarrow> string \<Rightarrow> Config \<Rightarrow> disabledDomain list \<Rightarrow> unit ld" where
  "disable_changes m env name cfg states w =
     (case disable_domains m env (cfg_id cfg) [] states w of
        (e # es, states', w1) \<Rightarrow> rollback m env name cfg False states' (e # es) w1
      | ([], states', w1) \<Rightarrow>
          if cfg_autostart_scope cfg = AutostartNone then (Inr (), w1)
          else (case save_config m env name (cfg\<lparr>cfg_autostart_scope := AutostartNone\<rparr>) w1 of
             (Inr _, w2) \<Rightarrow> (Inr (), w2)
           | (Inl es, w2) \<Rightarrow> rollback m env name cfg True states' es w2))"

definition disable_locked :: "manager \<Rightarrow> launchd_env \<Rightarrow> string \<Rightarrow> (Config \<Rightarrow> string option) option \<Rightarrow> unit ld" where
  "disable_locked m env name stopped =
     bindS (load_config m env name) (\<lambda>cfg.
     bindS (inspectBoth m env (cfg_id cfg)) (\<lambda>(login, sys).
     bindS (observe_domain m env cfg DomainLogin login) (\<lambda>s1.
     bindS (observe_domain m env cfg DomainSystem sys) (\<lambda>s2.
     bindS (fails (running_refusal stopped cfg [s1, s2])) (\<lambda>_.
     if cfg_autostart_scope cfg = AutostartNone \<and> \<not> pi_present login \<and> \<not> pi_present sys
     then lift_result (Inr ())
     else disable_changes m env name cfg [s1, s2])))))"

definition Disable :: "manager \<Rightarrow> launchd_env \<Rightarrow> string \<Rightarrow> (Config \<Rightarrow> string option) option \<Rightarrow> unit ld" where
  "Disable m env name stopped = under_name_lock m name (disable_locked m env name stopped)"

section \<open>Starting, and the report\<close>

definition start_locked :: "manager \<Rightarrow> launchd_env \<Rightarrow> string \<Rightarrow> (Config \<Rightarrow> string option) option \<Rightarrow> unit ld" where
  "start_locked m env name stopped =
     bindS (load_config m env name) (\<lambda>cfg.
     bindS (fails (guard (cfg_autostart_scope cfg \<noteq> AutostartBoot \<and> cfg_autostart_scope cfg \<noteq> AutostartLogin) NoScope)) (\<lambda>_.
     bindS (fails (case stopped of None \<Rightarrow> None | Some check \<Rightarrow> map_option VMAlreadyRunning (check cfg))) (\<lambda>_.
     let d = scope_domain (cfg_autostart_scope cfg); i = cfg_id cfg in
     bindS (gives (\<lambda>_. renderExpected m env cfg)) (\<lambda>expected.
     bindS (gives (inspectPath m env d i)) (\<lambda>installed.
     bindS (if pi_present installed \<and> pi_bytes installed = expected then lift_result (Inr ())
            else replace_plist m env d i installed expected) (\<lambda>_.
     bindS (printLoaded m env d i) (\<lambda>loaded.
     bindS (if loaded then bootout m env d i else lift_result (Inr ())) (\<lambda>_.
     bootstrap env d (plistPath m d i)))))))))"

definition Start :: "manager \<Rightarrow> launchd_env \<Rightarrow> string \<Rightarrow> (Config \<Rightarrow> string option) option \<Rightarrow> unit ld" where
  "Start m env name stopped = under_name_lock m name (start_locked m env name stopped)"

record DomainStatus =
  ds_file_present :: bool
  ds_file_match :: bool
  ds_loaded :: bool
  ds_error :: "ld_error list"

definition domain_status ::
  "manager \<Rightarrow> launchd_env \<Rightarrow> Config \<Rightarrow> string \<Rightarrow> job_domain \<Rightarrow> autostart_scope \<Rightarrow> DomainStatus ld" where
  "domain_status m env cfg executable d scope =
     bindS (gives (inspectPath m env d (cfg_id cfg))) (\<lambda>p.
     bindS (if pi_present p
            then bindS (gives (\<lambda>_. renderForConfig m (cfg\<lparr>cfg_autostart_scope := scope\<rparr>) executable))
                   (\<lambda>expected. lift_result (Inr (pi_bytes p = expected)))
            else lift_result (Inr False)) (\<lambda>same w.
     case printLoaded m env d (cfg_id cfg) w of
       (Inl es, w') \<Rightarrow> (Inr \<lparr>ds_file_present = pi_present p, ds_file_match = same, ds_loaded = False, ds_error = es\<rparr>, w')
     | (Inr loaded, w') \<Rightarrow>
         (Inr \<lparr>ds_file_present = pi_present p, ds_file_match = same, ds_loaded = loaded, ds_error = []\<rparr>, w')))"

definition launchd_status :: "manager \<Rightarrow> launchd_env \<Rightarrow> string \<Rightarrow> (autostart_scope \<times> DomainStatus \<times> DomainStatus) ld" where
  "launchd_status m env name =
     bindS (gives (\<lambda>w. case Load (mg_store m) (ln_library env) (wd_host w) name of Inl e \<Rightarrow> Inl (LdStore e) | Inr c \<Rightarrow> Inr c)) (\<lambda>cfg.
     bindS (gives (\<lambda>_. stableExecutable env (mg_executable m))) (\<lambda>executable.
     bindS (domain_status m env cfg executable DomainLogin AutostartLogin) (\<lambda>login.
     bindS (domain_status m env cfg executable DomainSystem AutostartBoot) (\<lambda>boot.
     lift_result (Inr (cfg_autostart_scope cfg, login, boot))))))"

section \<open>The commands an operation runs\<close>

text \<open>An operation whose new commands all satisfy a predicate, whatever the commands do.\<close>

definition runs_only :: "(ld_command \<Rightarrow> bool) \<Rightarrow> 'a ld \<Rightarrow> bool" where
  "runs_only P m \<longleftrightarrow> (\<forall>w. \<exists>cs. wd_cmds (snd (m w)) = wd_cmds w @ cs \<and> list_all P cs)"

named_theorems runs_intros "operations that only run commands of a kind"

lemma runs_pure: "(\<And>w. wd_cmds (snd (m w)) = wd_cmds w) \<Longrightarrow> runs_only P m"
  by (auto simp: runs_only_def)

lemma runs_bindS [runs_intros]: "runs_only P m \<Longrightarrow> (\<And>x. runs_only P (k x)) \<Longrightarrow> runs_only P (bindS m k)"
  unfolding runs_only_def bindS_def
proof (intro allI)
  fix w
  assume m: "\<forall>w. \<exists>cs. wd_cmds (snd (m w)) = wd_cmds w @ cs \<and> list_all P cs"
    and k: "\<And>x. \<forall>w. \<exists>cs. wd_cmds (snd (k x w)) = wd_cmds w @ cs \<and> list_all P cs"
  obtain r w1 where r: "m w = (r, w1)" by fastforce
  obtain cs where cs: "wd_cmds w1 = wd_cmds w @ cs" "list_all P cs" using m [rule_format, of w] r by auto
  show "\<exists>cs. wd_cmds (snd (case m w of (Inl e, t) \<Rightarrow> (Inl e, t) | (Inr x, t) \<Rightarrow> k x t)) = wd_cmds w @ cs \<and> list_all P cs"
  proof (cases r)
    case (Inr x)
    obtain cs' where "wd_cmds (snd (k x w1)) = wd_cmds w1 @ cs'" "list_all P cs'" using k [rule_format, of x w1] by auto
    with r cs Inr show ?thesis by auto
  qed (use r cs in auto)
qed

lemma runs_gives [runs_intros]: "runs_only P (gives f)"
  by (rule runs_pure) (auto simp: gives_def split: sum.splits)

lemma runs_fails [runs_intros]: "runs_only P (fails e)"
  by (rule runs_pure) (auto simp: fails_def reject_def split: option.splits)

lemma runs_lift [runs_intros]: "runs_only P (lift_result r)"
  by (rule runs_pure) (auto simp: lift_result_def)

lemma runs_verify [runs_intros]: "runs_only P (verify m env d p x)"
  by (rule runs_pure) (auto simp: verify_def fails_def reject_def split: option.splits)

lemma runs_store [runs_intros]: "runs_only P (save_config m env name cfg)"
  by (rule runs_pure) (auto simp: save_config_def on_store_def split: prod.splits sum.splits)

lemma runs_load [runs_intros]: "runs_only P (load_config m env name)"
  unfolding load_config_def by (rule runs_gives)

lemma runs_command [runs_intros]: "P c \<Longrightarrow> runs_only P (command env c)"
  by (auto simp: runs_only_def command_def run_cmd_def split: prod.splits cmd_outcome.splits)

lemma runs_print [runs_intros]: "(\<And>t. P (Print t)) \<Longrightarrow> runs_only P (printLoaded m env d i)"
  by (auto simp: runs_only_def printLoaded_def run_cmd_def Let_def split: prod.splits cmd_outcome.splits)

lemma runs_if [runs_intros]: "(b \<Longrightarrow> runs_only P x) \<Longrightarrow> (\<not> b \<Longrightarrow> runs_only P y) \<Longrightarrow> runs_only P (if b then x else y)"
  by simp

lemma runs_and_then [runs_intros]: "runs_only P m \<Longrightarrow> runs_only P (and_then es m)"
  unfolding runs_only_def and_then_def
  by (auto split: prod.splits sum.splits) (metis snd_conv)+

text \<open>A continuation that looks at the world.\<close>

lemma runs_world: "(\<And>w. \<exists>cs. wd_cmds (snd (m w)) = wd_cmds w @ cs \<and> list_all P cs) \<Longrightarrow> runs_only P m"
  by (simp add: runs_only_def)

lemma runs_onlyD: "runs_only P m \<Longrightarrow> m w = (r, w') \<Longrightarrow> \<exists>cs. wd_cmds w' = wd_cmds w @ cs \<and> list_all P cs"
  by (auto simp: runs_only_def) (metis snd_conv)

lemma runs_after:
  assumes "runs_only P a" "\<And>r w. a w = (r, w) \<Longrightarrow> True" "\<And>r. runs_only P (k r)"
  shows "runs_only P (\<lambda>w. case a w of (r, w1) \<Rightarrow> k r w1)"
proof (rule runs_world)
  fix w
  obtain r w1 where r: "a w = (r, w1)" by fastforce
  obtain cs where "wd_cmds w1 = wd_cmds w @ cs" "list_all P cs" using runs_onlyD [OF assms(1) r] by blast
  moreover obtain cs' where "wd_cmds (snd (k r w1)) = wd_cmds w1 @ cs'" "list_all P cs'"
    using assms(3) [of r] by (auto simp: runs_only_def)
  ultimately show "\<exists>cs. wd_cmds (snd (case a w of (r, w1) \<Rightarrow> k r w1)) = wd_cmds w @ cs \<and> list_all P cs"
    by (auto simp: r)
qed

definition file_cmd :: "ld_command \<Rightarrow> bool" where
  "file_cmd c = (case c of Bootstrap _ _ \<Rightarrow> False | Bootout _ _ \<Rightarrow> False | _ \<Rightarrow> True)"

definition print_cmd :: "ld_command \<Rightarrow> bool" where
  "print_cmd c = (case c of Print _ \<Rightarrow> True | _ \<Rightarrow> False)"

lemma cmd_kinds [simp]:
  "file_cmd (Print t)" "file_cmd (Lint x)" "file_cmd (InstallFile x p)" "file_cmd (RemoveFile p)" "print_cmd (Print t)"
  by (simp_all add: file_cmd_def print_cmd_def)

lemma runs_install_login: "runs_only P (install_login m env data dest)"
  by (rule runs_pure) (simp add: install_login_def Let_def set_file_def abort_install_def)

lemma runs_file_ops [runs_intros]:
  "runs_only file_cmd (installCandidate m env d data dest)" "runs_only file_cmd (removePlist env d path)"
  "runs_only file_cmd (lint env data)"
proof -
  show "runs_only file_cmd (installCandidate m env d data dest)"
    using runs_command [of file_cmd "InstallFile data dest" env] runs_install_login [of file_cmd m env data dest]
    by (simp add: installCandidate_def)
  show "runs_only file_cmd (removePlist env d path)"
  proof (cases "d = DomainSystem")
    case True
    then show ?thesis using runs_command [of file_cmd "RemoveFile path" env] by (simp add: removePlist_def runs_only_def)
  next
    case False
    then show ?thesis by (intro runs_pure) (simp add: removePlist_def set_file_def)
  qed
  show "runs_only file_cmd (lint env data)" by (simp add: lint_def runs_command)
qed

lemma runs_remove_exact [runs_intros]: "runs_only file_cmd (removeInstalledIfExact m env d i x)"
  unfolding removeInstalledIfExact_def by (intro runs_intros)

lemma runs_put_plist [runs_intros]: "runs_only file_cmd (put_plist m env d i data)"
proof -
  have "runs_only file_cmd (\<lambda>w. case installCandidate m env d data dest w of
        (r, w1) \<Rightarrow> (\<lambda>r w1. case r of Inl es \<Rightarrow> and_then es (removeInstalledIfExact m env d i data) w1
      | Inr _ \<Rightarrow> (case verifyInstalled m env d dest data w1 of
             Some e \<Rightarrow> and_then [e] (removePlist env d dest) w1 | None \<Rightarrow> (Inr (), w1))) r w1)" for dest
  proof (rule runs_after)
    fix r :: "ld_error list + unit"
    show "runs_only file_cmd (\<lambda>w1. case r of Inl es \<Rightarrow> and_then es (removeInstalledIfExact m env d i data) w1
      | Inr _ \<Rightarrow> (case verifyInstalled m env d dest data w1 of
             Some e \<Rightarrow> and_then [e] (removePlist env d dest) w1 | None \<Rightarrow> (Inr (), w1)))"
    proof (cases r)
      case (Inl es)
      then show ?thesis by (simp add: runs_intros)
    next
      case (Inr x)
      show ?thesis
      proof (rule runs_world)
        fix w
        show "\<exists>cs. wd_cmds (snd (case r of Inl es \<Rightarrow> and_then es (removeInstalledIfExact m env d i data) w
          | Inr _ \<Rightarrow> (case verifyInstalled m env d dest data w of
             Some e \<Rightarrow> and_then [e] (removePlist env d dest) w | None \<Rightarrow> (Inr (), w)))) = wd_cmds w @ cs \<and> list_all file_cmd cs"
          using runs_and_then [OF runs_file_ops(2) [of env d dest]] Inr
          by (auto simp: runs_only_def split: option.splits)
      qed
    qed
  qed (simp_all add: runs_intros)
  then have "runs_only file_cmd (\<lambda>w. case installCandidate m env d data dest w of
        (Inl es, w1) \<Rightarrow> and_then es (removeInstalledIfExact m env d i data) w1
      | (Inr _, w1) \<Rightarrow> (case verifyInstalled m env d dest data w1 of
             Some e \<Rightarrow> and_then [e] (removePlist env d dest) w1 | None \<Rightarrow> (Inr (), w1)))" for dest
    by (auto simp: runs_only_def split: prod.splits sum.splits)
  then show ?thesis
    unfolding put_plist_def Let_def by (intro runs_bindS) (simp_all add: runs_intros)
qed

lemma runs_install_plist [runs_intros]: "runs_only file_cmd (installPlist m env d i x)"
  unfolding installPlist_def by (intro runs_intros)

lemma runs_replace [runs_intros]: "runs_only file_cmd (replace_plist m env d i p x)"
  unfolding replace_plist_def by (intro runs_intros)

lemma runs_orphan [runs_intros]: "runs_only file_cmd (remove_orphan m env d p)"
  unfolding remove_orphan_def by (intro runs_intros)

lemma runs_cleanup [runs_intros]: "runs_only file_cmd (cleanup_installed m env d i x)"
  unfolding cleanup_installed_def by (intro runs_intros)

lemma runs_inspect_both [runs_intros]: "runs_only P (inspectBoth m env i)"
  unfolding inspectBoth_def by (intro runs_intros)

lemma runs_commit [runs_intros]: "runs_only file_cmd (commit_scope m env name d x cfg configured)"
proof -
  have tail: "runs_only file_cmd (\<lambda>w1. case cleanup_installed m env d (cfg_id cfg) x w1 of
     (r, w2) \<Rightarrow> (\<lambda>r w2. and_then (es @ (case r of Inl es' \<Rightarrow> es' | Inr _ \<Rightarrow> [])) (save_config m env name cfg) w2 :: (ld_error list + unit) \<times> world) r w2)" for es
    by (rule runs_after) (simp_all add: runs_intros)
  have "runs_only file_cmd (\<lambda>w. case save_config m env name configured w of (r, w1) \<Rightarrow>
     (\<lambda>r w1. case r of Inr _ \<Rightarrow> (Inr (), w1) | Inl es \<Rightarrow> (case cleanup_installed m env d (cfg_id cfg) x w1 of
     (r, w2) \<Rightarrow> and_then (es @ (case r of Inl es' \<Rightarrow> es' | Inr _ \<Rightarrow> [])) (save_config m env name cfg) w2)) r w1)"
  proof (rule runs_after)
    fix r :: "ld_error list + unit"
    show "runs_only file_cmd (\<lambda>w1. case r of Inr _ \<Rightarrow> (Inr (), w1) | Inl es \<Rightarrow> (case cleanup_installed m env d (cfg_id cfg) x w1 of
     (r, w2) \<Rightarrow> and_then (es @ (case r of Inl es' \<Rightarrow> es' | Inr _ \<Rightarrow> [])) (save_config m env name cfg) w2))"
      using tail by (cases r) (simp_all add: runs_pure)
  qed (simp_all add: runs_intros)
  then show ?thesis
    by (auto simp: runs_only_def commit_scope_def split: prod.splits sum.splits)
qed

lemma runs_prod [runs_intros]: "(\<And>a b. runs_only P (f a b)) \<Longrightarrow> runs_only P (case x of (a, b) \<Rightarrow> f a b)"
  by (cases x) simp

lemma runs_enable [runs_intros]:
  "runs_only file_cmd (enable_same m env cfg scope loaded)"
  "runs_only file_cmd (enable_fresh m env name cfg scope doctor login sys loaded)"
  unfolding enable_same_def enable_fresh_def Let_def by (intro runs_intros)+

lemma runs_enable_locked [runs_intros]: "runs_only file_cmd (enable_locked m env name scope doctor)"
  unfolding enable_locked_def by (intro runs_intros) simp_all

lemma runs_locked: "runs_only P body \<Longrightarrow> runs_only P (under_name_lock m name body)"
proof (rule runs_world)
  fix w assume body: "runs_only P body"
  show "\<exists>cs. wd_cmds (snd (under_name_lock m name body w)) = wd_cmds w @ cs \<and> list_all P cs"
  proof (cases "LockName (mg_store m) (wd_host w) name")
    case (Pair r h)
    then show ?thesis
      using body [unfolded runs_only_def, rule_format, of "w\<lparr>wd_host := h\<rparr>"]
      by (cases r) (auto simp: under_name_lock_def split: prod.splits)
  qed
qed

lemma runs_observe [runs_intros]: "runs_only print_cmd (observe_domain m env cfg d p)"
  unfolding observe_domain_def Let_def by (intro runs_intros) simp

text \<open>A refusal ends the operation.\<close>

lemma fails_Some: "bindS (fails (Some e)) k = fails (Some e)"
  by (rule ext) (simp add: bindS_def fails_def reject_def)

section \<open>What is asked of the commands\<close>

text \<open>The documented behaviour of the external programs, for the job \<open>i\<close>: a query and a check change
  nothing; loading, unloading, installing and removing concern the one job or file they are given,
  and a command that succeeds has done what it is for. Nothing is assumed of one that fails or is
  canceled: its job may be loaded or not, the file it was to install is arbitrary, and the file it was to
  remove is there or gone (it may have been killed after it had its effect).\<close>

definition print_law :: "manager \<Rightarrow> string \<Rightarrow> runner \<Rightarrow> bool" where
  "print_law m i run \<longleftrightarrow> (\<forall>fs js.
     (\<forall>t. snd (run (Print t) (fs, js)) = (fs, js)) \<and> (\<forall>x. snd (run (Lint x) (fs, js)) = (fs, js))
     \<and> (\<forall>d. case fst (run (Print (job_target m d i)) (fs, js)) of
          CmdOK _ \<Rightarrow> job_target m d i \<in> js
        | CmdFailed out err \<Rightarrow> serviceNotFound out err (Label i) \<longrightarrow> job_target m d i \<notin> js
        | CmdCanceled _ \<Rightarrow> True))"

definition load_law :: "manager \<Rightarrow> string \<Rightarrow> runner \<Rightarrow> bool" where
  "load_law m i run \<longleftrightarrow> (\<forall>fs js d.
     (\<forall>t. case run (Bootout d t) (fs, js) of (out, fs', js') \<Rightarrow>
        fs' = fs \<and> js' - {t} = js - {t} \<and> (case out of CmdOK _ \<Rightarrow> t \<notin> js' | _ \<Rightarrow> True))
     \<and> (case run (Bootstrap d (plistPath m d i)) (fs, js) of (out, fs', js') \<Rightarrow>
        fs' = fs \<and> js' - {job_target m d i} = js - {job_target m d i}
        \<and> (case out of CmdOK _ \<Rightarrow> job_target m d i \<in> js' | _ \<Rightarrow> True)))"

definition file_law :: "runner \<Rightarrow> bool" where
  "file_law run \<longleftrightarrow> (\<forall>fs js p.
     (\<forall>x. snd (snd (run (InstallFile x p) (fs, js))) = js
        \<and> (\<forall>q. q \<noteq> p \<longrightarrow> fst (snd (run (InstallFile x p) (fs, js))) q = fs q)
        \<and> (case fst (run (InstallFile x p) (fs, js)) of
             CmdOK _ \<Rightarrow> fst (snd (run (InstallFile x p) (fs, js))) p = Some (PlistFile 0 0 420 x) | _ \<Rightarrow> True))
     \<and> (case run (RemoveFile p) (fs, js) of (out, fs', js') \<Rightarrow>
        js' = js \<and> (fs' = fs(p := None) \<or> fs' = fs) \<and> (case out of CmdOK _ \<Rightarrow> fs' p = None | _ \<Rightarrow> True)))"

definition runner_laws :: "manager \<Rightarrow> string \<Rightarrow> runner \<Rightarrow> bool" where
  "runner_laws m i run \<longleftrightarrow> print_law m i run \<and> load_law m i run \<and> file_law run"

lemma run_cmd_eq:
  "run_cmd env c w = (out, w') \<Longrightarrow>
     out = fst (ln_run env c (wd_files w, wd_jobs w)) \<and> (wd_files w', wd_jobs w') = snd (ln_run env c (wd_files w, wd_jobs w))
     \<and> wd_host w' = wd_host w"
  by (auto simp: run_cmd_def split: prod.splits)

lemma run_print:
  assumes laws: "runner_laws m i (ln_run env)" and run: "run_cmd env (Print t) w = (out, w')"
  shows "wd_files w' = wd_files w \<and> wd_jobs w' = wd_jobs w \<and> wd_host w' = wd_host w"
  using run_cmd_eq [OF run] laws by (simp add: runner_laws_def print_law_def)

lemma run_lint:
  assumes laws: "runner_laws m i (ln_run env)" and run: "run_cmd env (Lint t) w = (out, w')"
  shows "wd_files w' = wd_files w \<and> wd_jobs w' = wd_jobs w \<and> wd_host w' = wd_host w"
  using run_cmd_eq [OF run] laws by (simp add: runner_laws_def print_law_def)

lemma run_bootout:
  assumes laws: "runner_laws m i (ln_run env)" and run: "run_cmd env (Bootout d t) w = (out, w')"
  shows "wd_files w' = wd_files w \<and> wd_host w' = wd_host w
    \<and> wd_jobs w' - {t} = wd_jobs w - {t} \<and> (case out of CmdOK _ \<Rightarrow> t \<notin> wd_jobs w' | _ \<Rightarrow> True)"
proof -
  obtain fs js where eq: "ln_run env (Bootout d t) (wd_files w, wd_jobs w) = (out, fs, js)"
    "wd_files w' = fs" "wd_jobs w' = js" "wd_host w' = wd_host w"
    using run by (auto simp: run_cmd_def split: prod.splits)
  have "load_law m i (ln_run env)" using laws by (simp add: runner_laws_def)
  then have "case ln_run env (Bootout d t) (wd_files w, wd_jobs w) of (out, fs', js') \<Rightarrow>
      fs' = wd_files w \<and> js' - {t} = wd_jobs w - {t} \<and> (case out of CmdOK _ \<Rightarrow> t \<notin> js' | _ \<Rightarrow> True)"
    unfolding load_law_def by (elim allE conjE) assumption
  with eq show ?thesis by (cases out) simp_all
qed

lemma run_bootstrap:
  assumes laws: "runner_laws m i (ln_run env)" and run: "run_cmd env (Bootstrap d (plistPath m d i)) w = (out, w')"
  shows "wd_files w' = wd_files w \<and> wd_host w' = wd_host w
    \<and> wd_jobs w' - {job_target m d i} = wd_jobs w - {job_target m d i}
    \<and> (case out of CmdOK _ \<Rightarrow> job_target m d i \<in> wd_jobs w' | _ \<Rightarrow> True)"
proof -
  let ?c = "Bootstrap d (plistPath m d i)"
  obtain fs js where eq: "ln_run env ?c (wd_files w, wd_jobs w) = (out, fs, js)"
    "wd_files w' = fs" "wd_jobs w' = js" "wd_host w' = wd_host w"
    using run by (auto simp: run_cmd_def split: prod.splits)
  have "load_law m i (ln_run env)" using laws by (simp add: runner_laws_def)
  then have "case ln_run env ?c (wd_files w, wd_jobs w) of (out, fs', js') \<Rightarrow>
      fs' = wd_files w \<and> js' - {job_target m d i} = wd_jobs w - {job_target m d i}
      \<and> (case out of CmdOK _ \<Rightarrow> job_target m d i \<in> js' | _ \<Rightarrow> True)"
    unfolding load_law_def by (elim allE conjE) assumption
  with eq show ?thesis by (cases out) simp_all
qed

lemma run_install:
  assumes laws: "runner_laws m i (ln_run env)" and run: "run_cmd env (InstallFile x p) w = (out, w')"
  shows "wd_jobs w' = wd_jobs w \<and> wd_host w' = wd_host w \<and> (\<forall>q. q \<noteq> p \<longrightarrow> wd_files w' q = wd_files w q)
    \<and> (case out of CmdOK _ \<Rightarrow> wd_files w' p = Some (PlistFile 0 0 420 x) | _ \<Rightarrow> True)"
proof -
  have "file_law (ln_run env)" using laws by (simp add: runner_laws_def)
  then have "snd (snd (ln_run env (InstallFile x p) (wd_files w, wd_jobs w))) = wd_jobs w
    \<and> (\<forall>q. q \<noteq> p \<longrightarrow> fst (snd (ln_run env (InstallFile x p) (wd_files w, wd_jobs w))) q = wd_files w q)
    \<and> (case fst (ln_run env (InstallFile x p) (wd_files w, wd_jobs w)) of
             CmdOK _ \<Rightarrow> fst (snd (ln_run env (InstallFile x p) (wd_files w, wd_jobs w))) p = Some (PlistFile 0 0 420 x) | _ \<Rightarrow> True)"
    unfolding file_law_def by blast
  then show ?thesis using run_cmd_eq [OF run] by (metis fst_conv snd_conv)
qed

lemma run_remove:
  assumes laws: "runner_laws m i (ln_run env)" and run: "run_cmd env (RemoveFile p) w = (out, w')"
  shows "wd_jobs w' = wd_jobs w \<and> wd_host w' = wd_host w
    \<and> (wd_files w' = (wd_files w)(p := None) \<or> wd_files w' = wd_files w)
    \<and> (case out of CmdOK _ \<Rightarrow> wd_files w' p = None | _ \<Rightarrow> True)"
proof -
  obtain fs js where eq: "ln_run env (RemoveFile p) (wd_files w, wd_jobs w) = (out, fs, js)"
    "wd_files w' = fs" "wd_jobs w' = js" "wd_host w' = wd_host w"
    using run by (auto simp: run_cmd_def split: prod.splits)
  have "file_law (ln_run env)" using laws by (simp add: runner_laws_def)
  then have "case ln_run env (RemoveFile p) (wd_files w, wd_jobs w) of (out, fs', js') \<Rightarrow>
      js' = wd_jobs w \<and> (fs' = (wd_files w)(p := None) \<or> fs' = wd_files w)
      \<and> (case out of CmdOK _ \<Rightarrow> fs' p = None | _ \<Rightarrow> True)"
    unfolding file_law_def by (elim allE conjE) assumption
  with eq show ?thesis by (cases out) simp_all
qed

lemma printLoaded_run:
  assumes laws: "runner_laws m i (ln_run env)" and printed: "printLoaded m env d i w = (r, w')"
  shows "wd_files w' = wd_files w \<and> wd_jobs w' = wd_jobs w \<and> wd_host w' = wd_host w
    \<and> (\<forall>b. r = Inr b \<longrightarrow> b = (job_target m d i \<in> wd_jobs w))"
proof -
  obtain out w1 where run: "run_cmd env (Print (job_target m d i)) w = (out, w1)" by fastforce
  have "print_law m i (ln_run env)" using laws by (simp add: runner_laws_def)
  then have "case fst (ln_run env (Print (job_target m d i)) (wd_files w, wd_jobs w)) of
      CmdOK _ \<Rightarrow> job_target m d i \<in> wd_jobs w
    | CmdFailed out err \<Rightarrow> serviceNotFound out err (Label i) \<longrightarrow> job_target m d i \<notin> wd_jobs w
    | CmdCanceled _ \<Rightarrow> True"
    unfolding print_law_def by blast
  then show ?thesis
    using run_print [OF laws run] run_cmd_eq [OF run] printed run
    by (auto simp: printLoaded_def Let_def split: cmd_outcome.splits if_splits)
qed

section \<open>One domain at a time\<close>

text \<open>The list and the job of a domain; what an operation on one domain leaves alone.\<close>

definition job_at :: "manager \<Rightarrow> string \<Rightarrow> job_domain \<Rightarrow> world \<Rightarrow> plist_node option \<times> bool" where
  "job_at m i d w = (wd_files w (plistPath m d i), job_target m d i \<in> wd_jobs w)"

definition touches :: "manager \<Rightarrow> string \<Rightarrow> job_domain \<Rightarrow> world \<Rightarrow> world \<Rightarrow> bool" where
  "touches m i d w w' \<longleftrightarrow> wd_host w' = wd_host w \<and> (\<forall>d'. d' \<noteq> d \<longrightarrow> job_at m i d' w' = job_at m i d' w)"

lemma touches_refl [simp, intro]: "touches m i d w w"
  by (simp add: touches_def)

lemma touches_trans: "touches m i d a b \<Longrightarrow> touches m i d b c \<Longrightarrow> touches m i d a c"
  by (simp add: touches_def)

lemma target_inj: "job_target m d i = job_target m d' i \<longleftrightarrow> d = d'"
  by (cases d; cases d') (auto simp: job_target_def)

lemma path_inj: "mg_login_dir m \<noteq> mg_system_dir m \<Longrightarrow> plistPath m d i = plistPath m d' i \<longleftrightarrow> d = d'"
  by (cases d; cases d') (auto simp: plistPath_def join_path_def)

lemma inspect_cong: "fst (job_at m i d w) = fst (job_at m i d w') \<Longrightarrow> inspectPath m env d i w = inspectPath m env d i w'"
  by (simp add: inspectPath_def job_at_def Let_def)

lemma inspect_absent: "inspectPath m env d i w = Inr p \<Longrightarrow> \<not> pi_present p \<Longrightarrow> fst (job_at m i d w) = None"
  by (auto simp: inspectPath_def job_at_def Let_def split: if_splits option.splits plist_node.splits sum.splits)

lemma inspect_path: "inspectPath m env d i w = Inr p \<Longrightarrow> pi_path p = plistPath m d i"
  by (auto simp: inspectPath_def Let_def split: if_splits option.splits plist_node.splits sum.splits)

text \<open>The bytes that were inspected are recognised again wherever they are verified to be.\<close>

lemma verified_inspect:
  assumes "inspectPath m env d i w0 = Inr p" "pi_present p"
    and "verifyInstalled m env d (plistPath m d i) (pi_bytes p) w = None"
  shows "inspectPath m env d i w = Inr p"
  using assms
  by (auto simp: inspectPath_def verifyInstalled_def Let_def split: if_splits option.splits plist_node.splits sum.splits)

lemma lists_separate:
  assumes "mg_login_dir m \<noteq> mg_system_dir m" "d' \<noteq> d" "\<And>q. q \<noteq> plistPath m d i \<Longrightarrow> fs q = gs q"
  shows "fs (plistPath m d' i) = gs (plistPath m d' i)"
  using assms path_inj by blast

text \<open>The commands whose failure leaves open whether they had their effect.\<close>

definition bootout_failed :: "manager \<Rightarrow> string \<Rightarrow> job_domain \<Rightarrow> ld_error list \<Rightarrow> bool" where
  "bootout_failed m i d es \<longleftrightarrow> (\<exists>out. es = [CommandFailed (Bootout d (job_target m d i)) out])"

definition removal_failed :: "manager \<Rightarrow> string \<Rightarrow> job_domain \<Rightarrow> ld_error list \<Rightarrow> bool" where
  "removal_failed m i d es \<longleftrightarrow> (\<exists>out. es = [CommandFailed (RemoveFile (plistPath m d i)) out])"

lemma inspect_gone: "fst (job_at m i d w) = None \<Longrightarrow> inspectPath m env d i w = Inr p \<Longrightarrow> \<not> pi_present p"
  by (auto simp: inspectPath_def job_at_def Let_def split: if_splits)

lemma verify_cong:
  "fst (job_at m i d w') = fst (job_at m i d w)
   \<Longrightarrow> verifyInstalled m env d (plistPath m d i) x w' = verifyInstalled m env d (plistPath m d i) x w"
  by (simp add: verifyInstalled_def job_at_def)

lemma other_targets:
  "js' - {job_target m d i} = js - {job_target m d i} \<Longrightarrow> d' \<noteq> d \<Longrightarrow> (job_target m d' i \<in> js') = (job_target m d' i \<in> js)"
  using target_inj [of m d' i d] by blast

lemma remove_effect:
  assumes laws: "runner_laws m i (ln_run env)" and dirs: "mg_login_dir m \<noteq> mg_system_dir m"
    and run: "removePlist env d (plistPath m d i) w = (r, w')"
  shows "touches m i d w w' \<and> snd (job_at m i d w') = snd (job_at m i d w)
    \<and> (r = Inr () \<longrightarrow> fst (job_at m i d w') = None)
    \<and> (\<forall>es. r = Inl es \<longrightarrow> fst (job_at m i d w') = fst (job_at m i d w)
          \<or> fst (job_at m i d w') = None \<and> removal_failed m i d es)"
proof (cases "d = DomainSystem")
  case True
  obtain out w1 where c: "run_cmd env (RemoveFile (plistPath m d i)) w = (out, w1)" by fastforce
  have "r = (case out of CmdOK _ \<Rightarrow> Inr () | _ \<Rightarrow> Inl [CommandFailed (RemoveFile (plistPath m d i)) out]) \<and> w' = w1"
    using run c True by (auto simp: removePlist_def command_def split: cmd_outcome.splits)
  moreover have "touches m i d w w1"
    using run_remove [OF laws c] path_inj [OF dirs] by (auto simp: touches_def job_at_def)
  ultimately show ?thesis
    using run_remove [OF laws c]
    by (cases out) (auto simp: job_at_def removal_failed_def)
next
  case False
  then show ?thesis
    using run path_inj [OF dirs] by (auto simp: removePlist_def touches_def job_at_def set_file_def split: if_splits)
qed

lemma bootout_effect:
  assumes laws: "runner_laws m i (ln_run env)" and run: "bootout m env d i w = (r, w')"
  shows "touches m i d w w' \<and> fst (job_at m i d w') = fst (job_at m i d w)
    \<and> (r = Inr () \<longrightarrow> \<not> snd (job_at m i d w')) \<and> (\<forall>es. r = Inl es \<longrightarrow> bootout_failed m i d es)"
proof -
  obtain out w1 where c: "run_cmd env (Bootout d (job_target m d i)) w = (out, w1)" by fastforce
  have "w' = w1" "r = (case out of CmdOK _ \<Rightarrow> Inr () | _ \<Rightarrow> Inl [CommandFailed (Bootout d (job_target m d i)) out])"
    using run c by (auto simp: bootout_def command_def split: cmd_outcome.splits)
  moreover have "touches m i d w w1"
    using run_bootout [OF laws c] other_targets [of "wd_jobs w1" m d i "wd_jobs w"] by (auto simp: touches_def job_at_def)
  ultimately show ?thesis
    using run_bootout [OF laws c] by (cases out) (auto simp: job_at_def bootout_failed_def)
qed

lemma bootstrap_effect:
  assumes laws: "runner_laws m i (ln_run env)" and run: "bootstrap env d (plistPath m d i) w = (r, w')"
  shows "touches m i d w w' \<and> fst (job_at m i d w') = fst (job_at m i d w)
    \<and> (r = Inr () \<longrightarrow> snd (job_at m i d w'))"
proof -
  obtain out w1 where c: "run_cmd env (Bootstrap d (plistPath m d i)) w = (out, w1)" by fastforce
  have "w' = w1" "r = (case out of CmdOK _ \<Rightarrow> Inr () | _ \<Rightarrow> Inl [CommandFailed (Bootstrap d (plistPath m d i)) out])"
    using run c by (auto simp: bootstrap_def command_def split: cmd_outcome.splits)
  moreover have "touches m i d w w1"
    using run_bootstrap [OF laws c] other_targets [of "wd_jobs w1" m d i "wd_jobs w"] by (auto simp: touches_def job_at_def)
  ultimately show ?thesis
    using run_bootstrap [OF laws c] by (cases out) (auto simp: job_at_def)
qed

lemma install_effect:
  assumes laws: "runner_laws m i (ln_run env)" and dirs: "mg_login_dir m \<noteq> mg_system_dir m"
    and run: "installCandidate m env d data (plistPath m d i) w = (r, w')"
  shows "touches m i d w w' \<and> snd (job_at m i d w') = snd (job_at m i d w)"
proof (cases "d = DomainSystem")
  case True
  obtain out w1 where c: "run_cmd env (InstallFile data (plistPath m d i)) w = (out, w1)" by fastforce
  have "w' = w1"
    using run c True by (auto simp: installCandidate_def command_def split: cmd_outcome.splits)
  then show ?thesis
    using run_install [OF laws c] lists_separate [OF dirs, of _ d i "wd_files w1" "wd_files w"]
    by (auto simp: touches_def job_at_def)
next
  case False
  have "touches m i d w w' \<and> snd (job_at m i d w') = snd (job_at m i d w)"
    if "wd_host w' = wd_host w" "wd_jobs w' = wd_jobs w" "\<And>q. q \<noteq> plistPath m d i \<Longrightarrow> wd_files w' q = wd_files w q"
    using that lists_separate [OF dirs, of _ d i "wd_files w'" "wd_files w"] by (auto simp: touches_def job_at_def)
  then show ?thesis
    using run False
    by (auto simp: installCandidate_def install_login_def abort_install_def Let_def set_file_def split: if_splits)
qed

lemma inspected_remove_effect:
  assumes laws: "runner_laws m i (ln_run env)" and dirs: "mg_login_dir m \<noteq> mg_system_dir m"
    and run: "removeInstalledIfExact m env d i x w = (r, w')"
  shows "touches m i d w w' \<and> snd (job_at m i d w') = snd (job_at m i d w)"
proof (cases "inspectPath m env d i w")
  case (Inr p)
  then show ?thesis
    using run remove_effect [OF laws dirs, of d w] inspect_path [OF Inr]
    by (auto simp: removeInstalledIfExact_def bindS_def gives_def lift_result_def verify_def fails_def reject_def
        split: if_splits option.splits)
qed (use run in \<open>auto simp: removeInstalledIfExact_def bindS_def gives_def\<close>)

lemma put_effect:
  assumes laws: "runner_laws m i (ln_run env)" and dirs: "mg_login_dir m \<noteq> mg_system_dir m"
    and run: "put_plist m env d i data w = (r, w')"
  shows "touches m i d w w' \<and> snd (job_at m i d w') = snd (job_at m i d w)
    \<and> (r = Inr () \<longrightarrow> verifyInstalled m env d (plistPath m d i) data w' = None)"
proof -
  obtain out w1 where c: "run_cmd env (Lint data) w = (out, w1)" by fastforce
  have w1: "touches m i d w w1" "snd (job_at m i d w1) = snd (job_at m i d w)"
    using run_lint [OF laws c] by (simp_all add: touches_def job_at_def)
  obtain r2 w2 where inst: "installCandidate m env d data (plistPath m d i) w1 = (r2, w2)" by fastforce
  note w2 = install_effect [OF laws dirs inst]
  show ?thesis
  proof (cases out)
    case (CmdOK x)
    have lint: "lint env data w = (Inr (), w1)" using c CmdOK by (simp add: lint_def command_def)
    show ?thesis
    proof (cases r2)
      case (Inl es)
      obtain r3 w3 where rm: "removeInstalledIfExact m env d i data w2 = (r3, w3)" by fastforce
      have "(r, w') = (case r3 of Inl es' \<Rightarrow> (Inl (es @ es'), w3) | Inr _ \<Rightarrow> (Inl es, w3))"
        using run lint inst Inl rm by (simp add: put_plist_def Let_def bindS_def and_then_def split: sum.splits)
      then show ?thesis
        using inspected_remove_effect [OF laws dirs rm] w1 w2 by (auto intro: touches_trans split: sum.splits)
    next
      case (Inr u)
      obtain r3 w3 where rm: "removePlist env d (plistPath m d i) w2 = (r3, w3)" by fastforce
      show ?thesis
        using run lint inst Inr rm remove_effect [OF laws dirs rm] w1 w2
        by (auto simp: put_plist_def Let_def bindS_def and_then_def intro: touches_trans split: sum.splits option.splits)
    qed
  qed (use run c w1 in \<open>auto simp: put_plist_def Let_def bindS_def lint_def command_def\<close>)
qed

text \<open>The list that is put in the place of the missing one of a loaded job.\<close>

definition stand_in :: "manager \<Rightarrow> Config \<Rightarrow> job_domain \<Rightarrow> ld_error + string" where
  "stand_in m cfg d = renderForConfig m
     (cfg\<lparr>cfg_autostart_scope := (if d = DomainSystem then AutostartBoot else AutostartLogin)\<rparr>) (mg_executable m)"

text \<open>How far a domain was taken down from the world \<open>w0\<close> it was observed in, when the taking down has
  ended with the errors \<open>es\<close>.\<close>

definition progress ::
  "manager \<Rightarrow> launchd_env \<Rightarrow> Config \<Rightarrow> world \<Rightarrow> ld_error list \<Rightarrow> disabledDomain \<Rightarrow> world \<Rightarrow> bool" where
  "progress m env cfg w0 es s w \<longleftrightarrow>
     (let d = dd_domain s; p = dd_inspection s; i = cfg_id cfg in
      inspectPath m env d i w0 = Inr p \<and> dd_loaded s = snd (job_at m i d w0)
      \<and> pi_path (dd_backup s) = plistPath m d i \<and> (pi_present p \<longrightarrow> dd_backup s = p)
      \<and> (dd_loaded s \<longrightarrow> pi_present (dd_backup s))
      \<and> (dd_removed s \<longrightarrow> pi_present p) \<and> (dd_bootedOut s \<longrightarrow> dd_loaded s)
      \<and> (dd_loaded s \<and> \<not> pi_present p \<longrightarrow> stand_in m cfg d = Inr (pi_bytes (dd_backup s)))
      \<and> (\<not> dd_removed s \<longrightarrow> fst (job_at m i d w) = fst (job_at m i d w0)
           \<or> fst (job_at m i d w) = None \<and> removal_failed m i d es \<and> dd_bootedOut s = dd_loaded s)
      \<and> (\<not> dd_bootedOut s \<longrightarrow> snd (job_at m i d w) = snd (job_at m i d w0)
           \<or> snd (job_at m i d w0) \<and> bootout_failed m i d es))"

lemma progress_other:
  "progress m env cfg w0 es s w \<Longrightarrow> touches m (cfg_id cfg) d w w' \<Longrightarrow> dd_domain s \<noteq> d \<Longrightarrow> progress m env cfg w0 es s w'"
  by (auto simp: progress_def touches_def Let_def)

lemma progress_same:
  "progress m env cfg w0 es s w \<Longrightarrow> job_at m (cfg_id cfg) (dd_domain s) w' = job_at m (cfg_id cfg) (dd_domain s) w
   \<Longrightarrow> progress m env cfg w0 es s w'"
  by (auto simp: progress_def Let_def)

lemma progress_weaken: "progress m env cfg w0 [] s w \<Longrightarrow> progress m env cfg w0 es s w"
  by (auto simp: progress_def Let_def bootout_failed_def removal_failed_def)

text \<open>What a rollback without errors of its own leaves of a domain, after the errors \<open>es\<close>.\<close>

definition put_back :: "manager \<Rightarrow> launchd_env \<Rightarrow> Config \<Rightarrow> world \<Rightarrow> ld_error list \<Rightarrow> world \<Rightarrow> job_domain \<Rightarrow> bool" where
  "put_back m env cfg w0 es w d \<longleftrightarrow>
     (let i = cfg_id cfg in
      (snd (job_at m i d w) = snd (job_at m i d w0) \<or> snd (job_at m i d w0) \<and> bootout_failed m i d es)
      \<and> (\<forall>p. inspectPath m env d i w0 = Inr p \<longrightarrow>
           (if pi_present p
            then inspectPath m env d i w = Inr p
              \<or> fst (job_at m i d w) = None \<and> removal_failed m i d es \<and> \<not> snd (job_at m i d w0)
            else fst (job_at m i d w) = None
              \<or> snd (job_at m i d w0) \<and> (\<exists>data. stand_in m cfg d = Inr data
                  \<and> verifyInstalled m env d (plistPath m d i) data w = None))))"

lemma checked_run:
  "bindS (gives (inspectPath m env d i)) (\<lambda>current. fails (changed current p)) w = (r, w') \<Longrightarrow> w' = w"
  by (auto simp: bindS_def gives_def fails_def reject_def split: sum.splits option.splits)

lemma remove_checked_effect:
  assumes laws: "runner_laws m i (ln_run env)" and dirs: "mg_login_dir m \<noteq> mg_system_dir m"
    and path: "pi_path (dd_inspection s) = plistPath m (dd_domain s) i"
    and run: "remove_checked m env i s w = (r, w')"
  shows "touches m i (dd_domain s) w w' \<and> snd (job_at m i (dd_domain s) w') = snd (job_at m i (dd_domain s) w)
    \<and> (r = Inr () \<longrightarrow> fst (job_at m i (dd_domain s) w') =
        (if pi_present (dd_inspection s) then None else fst (job_at m i (dd_domain s) w)))
    \<and> (\<forall>es. r = Inl es \<longrightarrow> fst (job_at m i (dd_domain s) w') = fst (job_at m i (dd_domain s) w)
         \<or> fst (job_at m i (dd_domain s) w') = None \<and> removal_failed m i (dd_domain s) es)"
proof (cases "pi_present (dd_inspection s)")
  case True
  obtain r1 w1 where rm: "removePlist env (dd_domain s) (plistPath m (dd_domain s) i) w = (r1, w1)" by fastforce
  show ?thesis
    using run True path rm remove_effect [OF laws dirs rm]
    by (auto simp: remove_checked_def bindS_def gives_def fails_def reject_def split: sum.splits option.splits if_splits)
qed (use run in \<open>simp add: remove_checked_def lift_result_def\<close>)

lemma disable_domain_effect:
  assumes laws: "runner_laws m (cfg_id cfg) (ln_run env)" and dirs: "mg_login_dir m \<noteq> mg_system_dir m"
    and start: "progress m env cfg w0 [] s w" "\<not> dd_removed s" "\<not> dd_bootedOut s"
    and run: "disable_domain m env (cfg_id cfg) s w = (es, s', w')"
  shows "touches m (cfg_id cfg) (dd_domain s) w w' \<and> dd_domain s' = dd_domain s \<and> progress m env cfg w0 es s' w'
    \<and> (es = [] \<longrightarrow> job_at m (cfg_id cfg) (dd_domain s) w' = (None, False))"
proof -
  let ?i = "cfg_id cfg" and ?d = "dd_domain s" and ?p = "dd_inspection s"
  have fresh: "fst (job_at m ?i ?d w) = fst (job_at m ?i ?d w0)" "snd (job_at m ?i ?d w) = snd (job_at m ?i ?d w0)"
    "dd_loaded s = snd (job_at m ?i ?d w0)" "inspectPath m env ?d ?i w0 = Inr ?p"
    using start by (auto simp: progress_def Let_def bootout_failed_def removal_failed_def)
  have path: "pi_path ?p = plistPath m ?d ?i" by (rule inspect_path [OF fresh(4)])
  obtain r1 w1 where c: "bindS (gives (inspectPath m env ?d ?i)) (\<lambda>current. fails (changed current ?p)) w = (r1, w1)" by fastforce
  have "w1 = w" by (rule checked_run [OF c])
  show ?thesis
  proof (cases r1)
    case (Inl es1)
    have "s' = s \<and> w' = w \<and> es = es1" using run c Inl \<open>w1 = w\<close> by (simp add: disable_domain_def)
    moreover have "es1 \<noteq> []"
      using c Inl by (auto simp: bindS_def gives_def fails_def reject_def split: sum.splits option.splits)
    ultimately show ?thesis using progress_weaken [OF start(1)] by simp
  next
    case (Inr u)
    obtain r2 w2 where b: "(if dd_loaded s then bootout m env ?d ?i w else (Inr (), w)) = (r2, w2)" by fastforce
    have w2: "touches m ?i ?d w w2" "fst (job_at m ?i ?d w2) = fst (job_at m ?i ?d w)"
      "r2 = Inr () \<longrightarrow> \<not> snd (job_at m ?i ?d w2)" "\<And>es. r2 = Inl es \<Longrightarrow> dd_loaded s \<and> bootout_failed m ?i ?d es"
      using b bootout_effect [OF laws, of ?d w r2 w2] fresh by (auto split: if_splits)
    show ?thesis
    proof (cases r2)
      case (Inl es2)
      have "es = es2 \<and> s' = s \<and> w' = w2"
        using run c b \<open>r1 = Inr u\<close> \<open>w1 = w\<close> Inl by (simp add: disable_domain_def)
      then show ?thesis
        using start w2(1,2) w2(4) [OF Inl] fresh by (auto simp: progress_def Let_def bootout_failed_def)
    next
      case (Inr v)
      obtain r3 w3 where rm: "remove_checked m env ?i s w2 = (r3, w3)" by fastforce
      note w3 = remove_checked_effect [OF laws dirs path rm]
      have tch: "touches m ?i ?d w w3" using w2(1) w3 touches_trans by blast
      have J: "\<not> snd (job_at m ?i ?d w3)" using w2(3) w3 Inr by simp
      show ?thesis
      proof (cases r3)
        case (Inl es3)
        have "es3 \<noteq> []"
          using rm Inl by (auto simp: remove_checked_def bindS_def gives_def fails_def reject_def lift_result_def
              removePlist_def command_def split: sum.splits option.splits if_splits prod.splits cmd_outcome.splits)
        moreover have "es = es3 \<and> s' = s\<lparr>dd_bootedOut := dd_loaded s\<rparr> \<and> w' = w3"
          using run c b rm \<open>r1 = Inr u\<close> \<open>w1 = w\<close> \<open>r2 = Inr v\<close> Inl by (simp add: disable_domain_def Let_def)
        moreover have "fst (job_at m ?i ?d w3) = fst (job_at m ?i ?d w0)
            \<or> fst (job_at m ?i ?d w3) = None \<and> removal_failed m ?i ?d es3"
          using w3 Inl w2(2) fresh(1) by simp
        ultimately show ?thesis
          using start tch J fresh(3) by (auto simp: progress_def Let_def)
      next
        case (Inr x)
        have "es = [] \<and> s' = s\<lparr>dd_bootedOut := dd_loaded s, dd_removed := pi_present ?p\<rparr> \<and> w' = w3"
          using run c b rm \<open>r1 = Inr u\<close> \<open>w1 = w\<close> \<open>r2 = Inr v\<close> Inr by (simp add: disable_domain_def Let_def)
        moreover have "fst (job_at m ?i ?d w3) = None"
          using w3 Inr w2(2) fresh(1) inspect_absent [OF fresh(4)] by (cases "pi_present ?p") simp_all
        ultimately show ?thesis
          using start tch J fresh inspect_absent [OF fresh(4)] by (auto simp: progress_def Let_def prod_eq_iff)
      qed
    qed
  qed
qed

lemma reload_effect:
  assumes laws: "runner_laws m i (ln_run env)" and path: "pi_path (dd_backup s) = plistPath m (dd_domain s) i"
    and run: "reload_job m env i s w = (r, w')"
  shows "touches m i (dd_domain s) w w' \<and> fst (job_at m i (dd_domain s) w') = fst (job_at m i (dd_domain s) w)
    \<and> (r = Inr () \<longrightarrow> snd (job_at m i (dd_domain s) w') = (dd_bootedOut s \<and> dd_loaded s \<or> snd (job_at m i (dd_domain s) w)))
    \<and> (r = Inr () \<longrightarrow> dd_bootedOut s \<and> dd_loaded s \<longrightarrow> fst (job_at m i (dd_domain s) w) \<noteq> None)"
proof (cases "dd_bootedOut s \<and> dd_loaded s")
  case True
  obtain r1 w1 where b: "bootstrap env (dd_domain s) (plistPath m (dd_domain s) i) w = (r1, w1)" by fastforce
  show ?thesis
    using run True path b bootstrap_effect [OF laws b] inspect_gone [of m i "dd_domain s" w env]
    by (auto simp: reload_job_def bindS_def gives_def fails_def reject_def split: sum.splits option.splits)
next
  case False
  then show ?thesis using run by (auto simp: reload_job_def lift_result_def)
qed

lemma restore_domain_effect:
  assumes laws: "runner_laws m (cfg_id cfg) (ln_run env)" and dirs: "mg_login_dir m \<noteq> mg_system_dir m"
    and start: "progress m env cfg w0 es s w" and run: "restore_domain m env (cfg_id cfg) s w = (r, w')"
  shows "touches m (cfg_id cfg) (dd_domain s) w w' \<and> (r = Inr () \<longrightarrow> put_back m env cfg w0 es w' (dd_domain s))"
proof -
  let ?i = "cfg_id cfg" and ?d = "dd_domain s" and ?p = "dd_inspection s"
  let ?again = "dd_removed s \<or> dd_bootedOut s \<and> dd_loaded s \<and> \<not> pi_present ?p"
  have p: "inspectPath m env ?d ?i w0 = Inr ?p" "pi_path (dd_backup s) = plistPath m ?d ?i"
    "dd_loaded s = snd (job_at m ?i ?d w0)"
    using start by (simp_all add: progress_def Let_def)
  obtain r1 w1 where rs: "(if ?again then restorePlist m env ?d ?i (dd_backup s) else lift_result (Inr ())) w = (r1, w1)"
    by fastforce
  have w1: "touches m ?i ?d w w1 \<and> snd (job_at m ?i ?d w1) = snd (job_at m ?i ?d w)
    \<and> (r1 = Inr () \<longrightarrow> ?again \<longrightarrow> verifyInstalled m env ?d (plistPath m ?d ?i) (pi_bytes (dd_backup s)) w1 = None)
    \<and> (\<not> ?again \<longrightarrow> w1 = w)"
  proof (cases ?again)
    case True
    then have b: "pi_present (dd_backup s)" using start by (auto simp: progress_def Let_def)
    obtain r2 w2 where put: "put_plist m env ?d ?i (pi_bytes (dd_backup s)) w = (r2, w2)" by fastforce
    show ?thesis
      using rs True b put put_effect [OF laws dirs put]
      by (auto simp: restorePlist_def bindS_def fails_def reject_def split: option.splits)
  qed (use rs in \<open>auto simp: lift_result_def split: if_splits\<close>)
  obtain r2 w2 where rl: "reload_job m env ?i s w1 = (r2, w2)" by fastforce
  note w2 = reload_effect [OF laws p(2) rl]
  have out: "(r, w') = (case r1 of Inl e \<Rightarrow> (Inl e, w1) | Inr _ \<Rightarrow> (r2, w2))"
    using run unfolding restore_domain_def bindS_def rs by (cases r1) (auto simp: rl)
  show ?thesis
  proof (cases "r = Inr ()")
    case False
    then show ?thesis using out w1 w2 touches_trans by (auto split: sum.splits)
  next
    case True
    then have ok: "r1 = Inr ()" "r2 = Inr ()" "w' = w2" using out by (auto split: sum.splits)
    have J: "snd (job_at m ?i ?d w') = snd (job_at m ?i ?d w0) \<or> snd (job_at m ?i ?d w0) \<and> bootout_failed m ?i ?d es"
      using start w1 w2 ok by (auto simp: progress_def Let_def)
    have same: "fst (job_at m ?i ?d w') = fst (job_at m ?i ?d w1)" using w2 ok by simp
    have seen: "inspectPath m env ?d ?i w' = inspectPath m env ?d ?i w1" by (rule inspect_cong [OF same])
    have F: "if pi_present ?p
        then inspectPath m env ?d ?i w' = Inr ?p
          \<or> fst (job_at m ?i ?d w') = None \<and> removal_failed m ?i ?d es \<and> \<not> snd (job_at m ?i ?d w0)
        else fst (job_at m ?i ?d w') = None
          \<or> snd (job_at m ?i ?d w0) \<and> (\<exists>data. stand_in m cfg ?d = Inr data
              \<and> verifyInstalled m env ?d (plistPath m ?d ?i) data w' = None)"
    proof (cases ?again)
      case True
      then have ver: "verifyInstalled m env ?d (plistPath m ?d ?i) (pi_bytes (dd_backup s)) w' = None"
        using w1 ok verify_cong [OF same] by simp
      have "pi_present ?p \<longrightarrow> dd_backup s = ?p" "\<not> pi_present ?p \<longrightarrow> dd_loaded s \<and> stand_in m cfg ?d = Inr (pi_bytes (dd_backup s))"
        using start True by (auto simp: progress_def Let_def)
      then show ?thesis using ver verified_inspect [OF p(1)] p(3) by auto
    next
      case False
      then have w: "w1 = w" using w1 by simp
      have "fst (job_at m ?i ?d w) = fst (job_at m ?i ?d w0)
          \<or> fst (job_at m ?i ?d w) = None \<and> removal_failed m ?i ?d es \<and> dd_bootedOut s = dd_loaded s"
        using False start by (auto simp: progress_def Let_def)
      then show ?thesis
      proof
        assume "fst (job_at m ?i ?d w) = fst (job_at m ?i ?d w0)"
        then show ?thesis
          using inspect_cong [of m ?i ?d w w0 env] p(1) seen w same inspect_absent [OF p(1)] by auto
      next
        assume gone: "fst (job_at m ?i ?d w) = None \<and> removal_failed m ?i ?d es \<and> dd_bootedOut s = dd_loaded s"
        then have "\<not> dd_loaded s" using w2 ok w by auto
        then show ?thesis using gone p(3) same w by auto
      qed
    qed
    have "put_back m env cfg w0 es w' ?d"
      unfolding put_back_def Let_def
    proof (intro conjI allI impI)
      show "snd (job_at m ?i ?d w') = snd (job_at m ?i ?d w0) \<or> snd (job_at m ?i ?d w0) \<and> bootout_failed m ?i ?d es"
        by (rule J)
    next
      fix q assume "inspectPath m env ?d ?i w0 = Inr q"
      with p(1) have "q = ?p" by simp
      with F show "if pi_present q
          then inspectPath m env ?d ?i w' = Inr q
            \<or> fst (job_at m ?i ?d w') = None \<and> removal_failed m ?i ?d es \<and> \<not> snd (job_at m ?i ?d w0)
          else fst (job_at m ?i ?d w') = None
            \<or> snd (job_at m ?i ?d w0) \<and> (\<exists>data. stand_in m cfg ?d = Inr data
                \<and> verifyInstalled m env ?d (plistPath m ?d ?i) data w' = None)"
        by (simp only:)
    qed
    then show ?thesis using w1 w2 ok touches_trans by blast
  qed
qed

section \<open>The whole transaction\<close>

text \<open>An operation that fails says why.\<close>

definition explains :: "'a ld \<Rightarrow> bool" where "explains m \<longleftrightarrow> (\<forall>w. fst (m w) \<noteq> Inl [])"

named_theorems explain_intros "operations whose errors are never empty"

lemma explains_bindS [explain_intros]: "explains m \<Longrightarrow> (\<And>x. explains (k x)) \<Longrightarrow> explains (bindS m k)"
  unfolding explains_def bindS_def by (auto split: prod.splits sum.splits) (metis fst_conv)+

lemma explains_basic [explain_intros]:
  "explains (gives f)" "explains (fails e)" "explains (lift_result (Inr y))" "explains (command env c)"
  "explains (verify m env d p x)" "explains (install_login m env x p)" "explains (save_config m env name cfg)"
  "explains (printLoaded m env d i)"
  by (auto simp: explains_def gives_def fails_def reject_def lift_result_def command_def verify_def install_login_def
      abort_install_def save_config_def on_store_def printLoaded_def Let_def
      split: sum.splits option.splits prod.splits cmd_outcome.splits)

lemma explains_if [explain_intros]: "(b \<Longrightarrow> explains x) \<Longrightarrow> (\<not> b \<Longrightarrow> explains y) \<Longrightarrow> explains (if b then x else y)"
  by simp

lemma explainsD: "explains m \<Longrightarrow> m w = (Inl es, w') \<Longrightarrow> es \<noteq> []"
  by (auto simp: explains_def) (metis fst_conv)

lemma explains_remove [explain_intros]: "explains (removePlist env d p)"
  using explains_basic(4) [of env "RemoveFile p"] by (auto simp: explains_def removePlist_def)

lemma explains_put [explain_intros]: "explains (put_plist m env d i x)"
proof -
  have "explains (installCandidate m env d x p)" for p
    unfolding installCandidate_def by (intro explain_intros)
  then have "explains (\<lambda>w. case installCandidate m env d x p w of
        (Inl es, w1) \<Rightarrow> and_then es (removeInstalledIfExact m env d i x) w1
      | (Inr _, w1) \<Rightarrow> (case verifyInstalled m env d p x w1 of
             Some e \<Rightarrow> and_then [e] (removePlist env d p) w1 | None \<Rightarrow> (Inr (), w1)))" for p
    by (auto simp: explains_def and_then_def split: prod.splits sum.splits option.splits) (metis fst_conv)+
  then show ?thesis
    unfolding put_plist_def Let_def lint_def by (intro explain_intros)
qed

lemma explains_restore [explain_intros]: "explains (restore_domain m env i s)"
  unfolding restore_domain_def restorePlist_def reload_job_def bootstrap_def by (intro explain_intros)

lemma explains_observe [explain_intros]: "explains (observe_domain m env cfg d p)"
  unfolding observe_domain_def Let_def by (intro explain_intros)

lemma observe_effect:
  assumes laws: "runner_laws m i (ln_run env)" and i: "cfg_id cfg = i"
    and p: "inspectPath m env d i w0 = Inr p" and same: "job_at m i d w = job_at m i d w0"
    and run: "observe_domain m env cfg d p w = (Inr s, w')"
  shows "progress m env cfg w0 [] s w' \<and> dd_domain s = d \<and> dd_inspection s = p \<and> \<not> dd_removed s \<and> \<not> dd_bootedOut s"
proof -
  obtain r1 w1 where pr: "printLoaded m env d i w = (r1, w1)" by fastforce
  note w1 = printLoaded_run [OF laws pr]
  obtain loaded where l: "r1 = Inr loaded" using run pr i by (cases r1) (auto simp: observe_domain_def bindS_def)
  have w': "w' = w1" using run pr l i
    by (auto simp: observe_domain_def Let_def bindS_def gives_def lift_result_def split: if_splits sum.splits)
  have at: "job_at m i d w' = job_at m i d w0" using same w1 w' by (simp add: job_at_def)
  have loaded: "loaded = snd (job_at m i d w0)" using same w1 l by (simp add: job_at_def)
  show ?thesis
    using run pr l i at loaded p inspect_path [OF p]
    by (auto simp: observe_domain_def Let_def bindS_def gives_def lift_result_def progress_def stand_in_def
        split: if_splits sum.splits)
qed

lemma observe_world:
  assumes laws: "runner_laws m (cfg_id cfg) (ln_run env)" and run: "observe_domain m env cfg d p w = (r, w')"
  shows "wd_files w' = wd_files w \<and> wd_jobs w' = wd_jobs w \<and> wd_host w' = wd_host w"
proof -
  obtain r1 w1 where pr: "printLoaded m env d (cfg_id cfg) w = (r1, w1)" by fastforce
  then show ?thesis
    using run printLoaded_run [OF laws pr]
    by (auto simp: observe_domain_def Let_def bindS_def gives_def lift_result_def split: if_splits sum.splits)
qed

lemma put_back_same:
  assumes "job_at m (cfg_id cfg) d w' = job_at m (cfg_id cfg) d w" and "put_back m env cfg w0 es w d"
  shows "put_back m env cfg w0 es w' d"
  using assms inspect_cong [of m "cfg_id cfg" d w' w env] verify_cong [of m "cfg_id cfg" d w' w env]
  by (simp add: put_back_def Let_def)

lemma put_back_other:
  "put_back m env cfg w0 es w d \<Longrightarrow> touches m (cfg_id cfg) d' w w' \<Longrightarrow> d \<noteq> d' \<Longrightarrow> put_back m env cfg w0 es w' d"
  by (rule put_back_same) (auto simp: touches_def)

lemma put_back_refl [simp]: "put_back m env cfg w es w d"
  using inspect_absent by (auto simp: put_back_def Let_def)

text \<open>Two domains, restored in the reverse order: where nothing failed both are as they were.\<close>

lemma restore_both:
  assumes laws: "runner_laws m (cfg_id cfg) (ln_run env)" and dirs: "mg_login_dir m \<noteq> mg_system_dir m"
    and start: "progress m env cfg w0 es s1 w" "progress m env cfg w0 es s2 w" "dd_domain s1 \<noteq> dd_domain s2"
    and run: "restore_domains m env (cfg_id cfg) [s1, s2] w = ([], w')"
  shows "put_back m env cfg w0 es w' (dd_domain s1) \<and> put_back m env cfg w0 es w' (dd_domain s2)"
proof -
  obtain r2 w2 where r2: "restore_domain m env (cfg_id cfg) s2 w = (r2, w2)" by fastforce
  obtain r1 w1 where r1: "restore_domain m env (cfg_id cfg) s1 w2 = (r1, w1)" by fastforce
  note e2 = restore_domain_effect [OF laws dirs start(2) r2]
  have p1: "progress m env cfg w0 es s1 w2" using progress_other [OF start(1)] e2 start(3) by blast
  note e1 = restore_domain_effect [OF laws dirs p1 r1]
  have "r2 = Inr () \<and> r1 = Inr () \<and> w' = w1"
    using run r1 r2 explainsD [OF explains_restore, of m env "cfg_id cfg" s2 w] explainsD [OF explains_restore, of m env "cfg_id cfg" s1 w2]
    by (cases r1; cases r2) auto
  then show ?thesis
    using e1 e2 put_back_other [of m env cfg w0 es w2 "dd_domain s2" "dd_domain s1" w1] start(3) by auto
qed

lemma save_world:
  "save_config m env name cfg w = (r, w') \<Longrightarrow> wd_files w' = wd_files w \<and> wd_jobs w' = wd_jobs w"
  by (auto simp: save_config_def on_store_def split: prod.splits sum.splits)

lemma rollback_effect:
  assumes laws: "runner_laws m (cfg_id cfg) (ln_run env)" and dirs: "mg_login_dir m \<noteq> mg_system_dir m"
    and start: "progress m env cfg w0 primary s1 w" "progress m env cfg w0 primary s2 w" "dd_domain s1 \<noteq> dd_domain s2"
    and run: "rollback m env name cfg again [s1, s2] primary w = (r, w')" and primary: "primary \<noteq> []"
  shows "\<exists>es. r = Inl es \<and> (length es = 1 \<longrightarrow> es = primary \<and> (\<forall>d. put_back m env cfg w0 primary w' d))"
proof -
  obtain r1 w1 where sv: "(if again then save_config m env name cfg w else (Inr (), w)) = (r1, w1)" by fastforce
  have "wd_files w1 = wd_files w \<and> wd_jobs w1 = wd_jobs w"
    using sv save_world [of m env name cfg w r1 w1] by (auto split: if_splits)
  then have "job_at m (cfg_id cfg) d w1 = job_at m (cfg_id cfg) d w" for d by (simp add: job_at_def)
  then have p: "progress m env cfg w0 primary s1 w1" "progress m env cfg w0 primary s2 w1"
    using start progress_same by blast+
  obtain es w2 where rs: "restore_domains m env (cfg_id cfg) [s1, s2] w1 = (es, w2)" by fastforce
  have r: "r = Inl (primary @ (case r1 of Inl es' \<Rightarrow> es' | Inr _ \<Rightarrow> []) @ es)" "w' = w2"
    using run sv rs by (simp_all add: rollback_def)
  have "\<forall>d. put_back m env cfg w0 primary w' d" if "es = []"
    using restore_both [OF laws dirs p start(3)] rs that r(2) start(3)
    by (metis (full_types) job_domain.exhaust)
  then show ?thesis using r primary by (cases primary) auto
qed

lemma disable_changes_effect:
  assumes laws: "runner_laws m (cfg_id cfg) (ln_run env)" and dirs: "mg_login_dir m \<noteq> mg_system_dir m"
    and start: "progress m env cfg w0 [] s1 w" "progress m env cfg w0 [] s2 w" "dd_domain s1 \<noteq> dd_domain s2"
    and fresh: "\<not> dd_removed s1" "\<not> dd_bootedOut s1" "\<not> dd_removed s2" "\<not> dd_bootedOut s2"
    and run: "disable_changes m env name cfg [s1, s2] w = (r, w')"
  shows "(r = Inr () \<longrightarrow> (\<forall>d. job_at m (cfg_id cfg) d w' = (None, False)))
    \<and> (\<forall>es. r = Inl es \<longrightarrow> es \<noteq> [] \<and> (length es = 1 \<longrightarrow> (\<forall>d. put_back m env cfg w0 es w' d)))"
proof -
  let ?i = "cfg_id cfg"
  obtain es1 t1 w1 where d1: "disable_domain m env ?i s1 w = (es1, t1, w1)" by (metis prod_cases3)
  note e1 = disable_domain_effect [OF laws dirs start(1) fresh(1,2) d1]
  have p2: "progress m env cfg w0 [] s2 w1" using e1 progress_other [OF start(2)] start(3) by metis
  obtain es2 t2 w2 where d2: "disable_domain m env ?i s2 w1 = (es2, t2, w2)" by (metis prod_cases3)
  note e2 = disable_domain_effect [OF laws dirs p2 fresh(3,4) d2]
  have p1: "es1 = [] \<Longrightarrow> progress m env cfg w0 [] t1 w2" using e1 e2 progress_other start(3) by metis
  have rolled: "(\<forall>es. r = Inl es \<longrightarrow> es \<noteq> [] \<and> (length es = 1 \<longrightarrow> (\<forall>d. put_back m env cfg w0 es w' d))) \<and> r \<noteq> Inr ()"
    if "rollback m env name cfg again [a, b] primary v = (r, w')" "primary \<noteq> []" "dd_domain a \<noteq> dd_domain b"
      "progress m env cfg w0 primary a v" "progress m env cfg w0 primary b v" for again a b primary v
  proof -
    have "r \<noteq> Inl []" using that(1,2) by (auto simp: rollback_def split: prod.splits)
    then show ?thesis using rollback_effect [OF laws dirs that(4,5,3,1,2)] by auto
  qed
  show ?thesis
  proof (cases es1)
    case (Cons e es)
    then have "rollback m env name cfg False [t1, s2] es1 w1 = (r, w')" using run d1 by (simp add: disable_changes_def)
    then show ?thesis using rolled [of False t1 s2 es1 w1] Cons e1 progress_weaken [OF p2] start(3) by auto
  next
    case Nil
    show ?thesis
    proof (cases es2)
      case (Cons e es)
      then have "rollback m env name cfg False [t1, t2] es2 w2 = (r, w')" using run d1 d2 Nil by (simp add: disable_changes_def)
      then show ?thesis using rolled [of False t1 t2 es2 w2] Cons e1 e2 progress_weaken [OF p1 [OF Nil]] start(3) by auto
    next
      case Nil2: Nil
      have "job_at m ?i (dd_domain s1) w2 = (None, False)" "job_at m ?i (dd_domain s2) w2 = (None, False)"
        using e1 e2 Nil Nil2 start(3) by (auto simp: touches_def)
      then have down: "job_at m ?i d w2 = (None, False)" for d using start(3) by (metis (full_types) job_domain.exhaust)
      show ?thesis
      proof (cases "cfg_autostart_scope cfg = AutostartNone")
        case True
        then show ?thesis using run d1 d2 Nil Nil2 down by (auto simp: disable_changes_def)
      next
        case False
        obtain r3 w3 where sv: "save_config m env name (cfg\<lparr>cfg_autostart_scope := AutostartNone\<rparr>) w2 = (r3, w3)" by fastforce
        have at: "job_at m ?i d w3 = job_at m ?i d w2" for d using save_world [OF sv] by (simp add: job_at_def)
        show ?thesis
        proof (cases r3)
          case (Inr u)
          then show ?thesis using run d1 d2 Nil Nil2 False sv down at by (auto simp: disable_changes_def)
        next
          case (Inl es)
          then have "rollback m env name cfg True [t1, t2] es w3 = (r, w')"
            using run d1 d2 Nil Nil2 False sv by (simp add: disable_changes_def)
          moreover have "es \<noteq> []" using explainsD [OF explains_basic(7) sv [unfolded Inl]] .
          moreover have "progress m env cfg w0 es t1 w3" "progress m env cfg w0 es t2 w3"
            using progress_same progress_weaken p1 [OF Nil] e2 Nil2 at by blast+
          ultimately show ?thesis using rolled [of True t1 t2 es w3] e1 e2 start(3) by auto
        qed
      qed
    qed
  qed
qed

text \<open>Before anything is changed, an error leaves the lists and the jobs as they are.\<close>

definition same_jobs :: "world \<Rightarrow> world \<Rightarrow> bool" where
  "same_jobs w w' \<longleftrightarrow> wd_files w' = wd_files w \<and> wd_jobs w' = wd_jobs w"

lemma same_jobs_back: "same_jobs w w' \<Longrightarrow> put_back m env cfg w es w' d"
  by (rule put_back_same [where w = w]) (simp_all add: same_jobs_def job_at_def)

lemma inspectBoth_run:
  "inspectBoth m env i w = (r, w') \<Longrightarrow> w' = w \<and> (\<forall>login sys. r = Inr (login, sys) \<longrightarrow>
     inspectPath m env DomainLogin i w = Inr login \<and> inspectPath m env DomainSystem i w = Inr sys)"
  by (auto simp: inspectBoth_def bindS_def gives_def lift_result_def split: sum.splits)

lemma explains_both: "explains (inspectBoth m env i)"
  unfolding inspectBoth_def by (intro explain_intros)

lemma disable_locked_effect:
  assumes laws: "runner_laws m (cfg_id cfg) (ln_run env)" and dirs: "mg_login_dir m \<noteq> mg_system_dir m"
    and load: "load_config m env name w = (Inr cfg, w)" and run: "disable_locked m env name stopped w = (r, w')"
  shows "(r = Inr () \<longrightarrow> (\<forall>d. fst (job_at m (cfg_id cfg) d w') = None)
      \<and> (cfg_autostart_scope cfg \<noteq> AutostartNone \<longrightarrow> (\<forall>d. \<not> snd (job_at m (cfg_id cfg) d w'))))
    \<and> (\<forall>es. r = Inl es \<longrightarrow> es \<noteq> [] \<and> (length es = 1 \<longrightarrow> (\<forall>d. put_back m env cfg w es w' d)))"
proof -
  let ?i = "cfg_id cfg"
  obtain rb wb where b: "inspectBoth m env ?i w = (rb, wb)" by fastforce
  note eb = inspectBoth_run [OF b]
  show ?thesis
  proof (cases rb)
    case (Inl es)
    then have "r = Inl es \<and> w' = w" using run load b eb by (simp add: disable_locked_def bindS_def)
    then show ?thesis using explainsD [OF explains_both, of m env ?i w es wb] b Inl by simp
  next
    case (Inr pair)
    obtain login sys where ls: "pair = (login, sys)" by fastforce
    have insp: "inspectPath m env DomainLogin ?i w = Inr login" "inspectPath m env DomainSystem ?i w = Inr sys" "wb = w"
      using eb Inr ls by simp_all
    obtain r1 w1 where o1: "observe_domain m env cfg DomainLogin login w = (r1, w1)" by fastforce
    have s1: "same_jobs w w1" using observe_world [OF laws o1] by (simp add: same_jobs_def)
    show ?thesis
    proof (cases r1)
      case (Inl es)
      then have "r = Inl es \<and> w' = w1" using run load b \<open>rb = Inr pair\<close> ls insp o1 by (simp add: disable_locked_def bindS_def)
      then show ?thesis using explainsD [OF explains_observe o1 [unfolded Inl]] same_jobs_back [OF s1] by simp
    next
      case (Inr t1)
      obtain r2 w2 where o2: "observe_domain m env cfg DomainSystem sys w1 = (r2, w2)" by fastforce
      have s2: "same_jobs w w2" using observe_world [OF laws o2] s1 by (simp add: same_jobs_def)
      show ?thesis
      proof (cases r2)
        case (Inl es)
        then have "r = Inl es \<and> w' = w2"
          using run load b \<open>rb = Inr pair\<close> ls insp o1 \<open>r1 = Inr t1\<close> o2 by (simp add: disable_locked_def bindS_def)
        then show ?thesis using explainsD [OF explains_observe o2 [unfolded Inl]] same_jobs_back [OF s2] by simp
      next
        case (Inr t2)
        have at: "job_at m ?i d v = job_at m ?i d w" if "v \<in> {w1, w2}" for d v
          using s1 s2 that by (auto simp: same_jobs_def job_at_def)
        note p1 = observe_effect [OF laws refl insp(1) refl o1 [unfolded \<open>r1 = Inr t1\<close>]]
        have p2': "progress m env cfg w [] t2 w2 \<and> dd_domain t2 = DomainSystem \<and> dd_inspection t2 = sys
            \<and> \<not> dd_removed t2 \<and> \<not> dd_bootedOut t2"
          using observe_effect [OF laws refl insp(2) _ o2 [unfolded Inr]] at by simp
        have p1': "progress m env cfg w [] t1 w2" using p1 at progress_same [of m env cfg w "[]" t1 w1 w2] by simp
        have rest: "(r, w') = bindS (fails (running_refusal stopped cfg [t1, t2])) (\<lambda>_.
            if cfg_autostart_scope cfg = AutostartNone \<and> \<not> pi_present login \<and> \<not> pi_present sys
            then lift_result (Inr ()) else disable_changes m env name cfg [t1, t2]) w2"
          using run load b \<open>rb = Inr pair\<close> ls insp o1 \<open>r1 = Inr t1\<close> o2 Inr by (simp add: disable_locked_def bindS_def)
        show ?thesis
        proof (cases "running_refusal stopped cfg [t1, t2]")
          case (Some e)
          then show ?thesis using rest same_jobs_back [OF s2] by (simp add: fails_Some) (simp add: fails_def reject_def)
        next
          case None
          show ?thesis
          proof (cases "cfg_autostart_scope cfg = AutostartNone \<and> \<not> pi_present login \<and> \<not> pi_present sys")
            case True
            have "fst (job_at m ?i d w) = None" for d
              using inspect_absent [OF insp(1)] inspect_absent [OF insp(2)] True by (cases d) auto
            then show ?thesis using rest None True at by (auto simp: bindS_def fails_def reject_def lift_result_def)
          next
            case False
            then have "disable_changes m env name cfg [t1, t2] w2 = (r, w')"
              using rest None by (auto simp: bindS_def fails_def reject_def)
            from disable_changes_effect [OF laws dirs p1' _ _ _ _ _ _ this] p1 p2' show ?thesis by auto
          qed
        qed
      qed
    qed
  qed
qed

section \<open>Properties of the transactions\<close>

lemma locked_body:
  assumes "LockName (mg_store m) (wd_host w) name = (Inr l, h)" and "under_name_lock m name body w = (r, w')"
  shows "\<exists>w1. body (w\<lparr>wd_host := h\<rparr>) = (r, w1) \<and> w' = w1\<lparr>wd_host := unlock l (wd_host w1)\<rparr>"
  using assms by (auto simp: under_name_lock_def split: prod.splits)

lemma load_config_run:
  "loadUnlocked (mg_store m) (ln_library env) h name = Inr cfg \<Longrightarrow>
     load_config m env name (w\<lparr>wd_host := h\<rparr>) = (Inr cfg, w\<lparr>wd_host := h\<rparr>)"
  by (simp add: load_config_def gives_def)

lemma job_at_host [simp]: "job_at m i d (w\<lparr>wd_host := h\<rparr>) = job_at m i d w"
  by (simp add: job_at_def)

lemma inspect_host [simp]: "inspectPath m env d i (w\<lparr>wd_host := h\<rparr>) = inspectPath m env d i w"
  by (rule inspect_cong) simp

lemma verify_host [simp]: "verifyInstalled m env d p x (w\<lparr>wd_host := h\<rparr>) = verifyInstalled m env d p x w"
  by (simp add: verifyInstalled_def)

text \<open>C22. Enabling autostart never starts or stops a machine: whatever the commands do and whatever goes
  wrong, the commands it runs are queries, checks, and the installation and removal of lists, never a
  bootstrap or a bootout.\<close>

theorem enable_never_loads:
  "\<exists>cs. wd_cmds (snd (Enable m env name scope doctor w)) = wd_cmds w @ cs \<and> list_all file_cmd cs"
proof -
  have "runs_only file_cmd (Enable m env name scope doctor)"
    by (cases doctor) (auto simp: Enable_def intro: runs_intros runs_locked)
  then show ?thesis by (simp add: runs_only_def)
qed

text \<open>A running machine is not touched by disabling: when it is not known to be stopped, the
  operation fails, and the only commands it has run are queries.\<close>

lemma disable_refuses_running:
  assumes "check cfg \<noteq> None" and "LockName (mg_store m) (wd_host w) name = (Inr l, h)"
    and "loadUnlocked (mg_store m) (ln_library env) h name = Inr cfg"
    and "Disable m env name (Some check) w = (r, w')"
  shows "(\<exists>es. r = Inl es) \<and> (\<exists>cs. wd_cmds w' = wd_cmds w @ cs \<and> list_all print_cmd cs)"
proof -
  let ?w = "w\<lparr>wd_host := h\<rparr>"
  define k where "k = (\<lambda>c. bindS (inspectBoth m env (cfg_id c)) (\<lambda>(login, sys).
     bindS (observe_domain m env c DomainLogin login) (\<lambda>s1.
     bindS (observe_domain m env c DomainSystem sys) (\<lambda>s2.
     bindS (fails (running_refusal (Some check) c [s1, s2])) (\<lambda>_.
     if cfg_autostart_scope c = AutostartNone \<and> \<not> pi_present login \<and> \<not> pi_present sys
     then lift_result (Inr ()) else disable_changes m env name c [s1, s2])))))"
  have refusal: "running_refusal (Some check) cfg ss = Some VMRunningDisable" for ss
    using assms(1) by (auto simp: running_refusal_def)
  have k: "k cfg = bindS (inspectBoth m env (cfg_id cfg)) (\<lambda>(login, sys).
     bindS (observe_domain m env cfg DomainLogin login) (\<lambda>s1.
     bindS (observe_domain m env cfg DomainSystem sys) (\<lambda>s2. fails (Some VMRunningDisable))))"
    by (simp only: k_def refusal fails_Some)
  have only: "runs_only print_cmd (k cfg)" unfolding k by (intro runs_intros)
  obtain w1 where body: "disable_locked m env name (Some check) ?w = (r, w1)"
    and w': "w' = w1\<lparr>wd_host := unlock l (wd_host w1)\<rparr>"
    using locked_body [OF assms(2)] assms(4) unfolding Disable_def by blast
  have run: "k cfg ?w = (r, w1)"
    using body load_config_run [OF assms(3), of w] unfolding disable_locked_def k_def by (simp add: bindS_simps(2))
  have "\<nexists>x. r = Inr x"
    using run unfolding k by (auto simp: bindS_def fails_def reject_def split: prod.splits sum.splits)
  then have "\<exists>es. r = Inl es" by (cases r) auto
  with runs_onlyD [OF only run] w' show ?thesis by simp
qed

text \<open>C21. What a disabling that fails leaves behind, when its clean-up reported nothing of its own, for each of the two
  domains. A job that was not loaded is not loaded. A job that was loaded is loaded again, unless the failure is that
  of the very command that was to unload it, which may have had its effect before it failed or was
  canceled. A list that was installed is installed with the same bytes, unless its job was not loaded and the
  failure is that of the very command that was to remove it. Where there was no list there is none, except that a loaded job
  without a list, which has to be loaded again from a file, gets the rendering of its machine installed
  and verified. Of the commands it is only assumed that a successful one has its effect and that each concerns
  what it is given.\<close>

theorem disable_rolls_back:
  assumes "Disable m env name stopped w = (Inl [e], w')" and "LockName (mg_store m) (wd_host w) name = (Inr l, h)"
    and "loadUnlocked (mg_store m) (ln_library env) h name = Inr cfg"
    and "runner_laws m (cfg_id cfg) (ln_run env)" and "mg_login_dir m \<noteq> mg_system_dir m"
  shows "(job_target m d (cfg_id cfg) \<in> wd_jobs w' \<longrightarrow> job_target m d (cfg_id cfg) \<in> wd_jobs w)
    \<and> (job_target m d (cfg_id cfg) \<in> wd_jobs w \<longrightarrow> job_target m d (cfg_id cfg) \<in> wd_jobs w'
         \<or> (\<exists>out. e = CommandFailed (Bootout d (job_target m d (cfg_id cfg))) out))
    \<and> (\<forall>p. inspectPath m env d (cfg_id cfg) w = Inr p \<longrightarrow>
         (if pi_present p
          then inspectPath m env d (cfg_id cfg) w' = Inr p
            \<or> wd_files w' (plistPath m d (cfg_id cfg)) = None \<and> job_target m d (cfg_id cfg) \<notin> wd_jobs w
              \<and> (\<exists>out. e = CommandFailed (RemoveFile (plistPath m d (cfg_id cfg))) out)
          else wd_files w' (plistPath m d (cfg_id cfg)) = None
            \<or> job_target m d (cfg_id cfg) \<in> wd_jobs w
              \<and> (\<exists>data. stand_in m cfg d = Inr data
                  \<and> verifyInstalled m env d (plistPath m d (cfg_id cfg)) data w' = None)))"
proof -
  obtain w1 where body: "disable_locked m env name stopped (w\<lparr>wd_host := h\<rparr>) = (Inl [e], w1)"
    and w': "w' = w1\<lparr>wd_host := unlock l (wd_host w1)\<rparr>"
    using locked_body [OF assms(2)] assms(1) unfolding Disable_def by blast
  from disable_locked_effect [OF assms(4,5) load_config_run [OF assms(3)] body]
  have "put_back m env cfg (w\<lparr>wd_host := h\<rparr>) [e] w1 d" by simp
  then show ?thesis
    by (auto simp: put_back_def Let_def job_at_def w' bootout_failed_def removal_failed_def)
qed

text \<open>A successful disabling leaves no list in either domain, and no loaded job either unless the
  machine had no scope to begin with.\<close>

lemma disable_success:
  assumes "Disable m env name stopped w = (Inr (), w')" and "LockName (mg_store m) (wd_host w) name = (Inr l, h)"
    and "loadUnlocked (mg_store m) (ln_library env) h name = Inr cfg"
    and "runner_laws m (cfg_id cfg) (ln_run env)" and "mg_login_dir m \<noteq> mg_system_dir m"
  shows "wd_files w' (plistPath m d (cfg_id cfg)) = None
    \<and> (cfg_autostart_scope cfg \<noteq> AutostartNone \<longrightarrow> job_target m d (cfg_id cfg) \<notin> wd_jobs w')"
proof -
  obtain w1 where body: "disable_locked m env name stopped (w\<lparr>wd_host := h\<rparr>) = (Inr (), w1)"
    and w': "w' = w1\<lparr>wd_host := unlock l (wd_host w1)\<rparr>"
    using locked_body [OF assms(2)] assms(1) unfolding Disable_def by blast
  from disable_locked_effect [OF assms(4,5) load_config_run [OF assms(3)] body]
  show ?thesis by (auto simp: job_at_def w')
qed

text \<open>What an installation leaves: the list that was verified.\<close>

lemma installPlist_verified:
  "installPlist m env d i x w = (Inr u, w') \<Longrightarrow> verifyInstalled m env d (plistPath m d i) x w' = None"
  by (auto simp: installPlist_def put_plist_def Let_def bindS_def and_then_def fails_def reject_def
      split: prod.splits sum.splits option.splits)

lemma replace_verified:
  "replace_plist m env d i p x w = (Inr u, w') \<Longrightarrow> verifyInstalled m env d (plistPath m d i) x w' = None"
  unfolding replace_plist_def bindS_Inr by (blast dest: installPlist_verified)

lemma verify_files: "wd_files w' = wd_files w \<Longrightarrow> verifyInstalled m env d p x w' = verifyInstalled m env d p x w"
  by (simp add: verifyInstalled_def)

lemma gives_Inr: "gives f w = (Inr x, w') \<longleftrightarrow> w' = w \<and> f w = Inr x"
  by (auto simp: gives_def split: sum.splits)

lemma fails_Inr: "fails e w = (Inr u, w') \<longleftrightarrow> e = None \<and> w' = w"
  by (auto simp: fails_def reject_def split: option.splits)

lemma lift_Inr: "lift_result r w = (Inr x, w') \<longleftrightarrow> r = Inr x \<and> w' = w"
  by (auto simp: lift_result_def)

lemmas step_simps = bindS_Inr gives_Inr fails_Inr lift_Inr

text \<open>C23. An enabling that made a change has left the current rendering of the machine's list in its
  domain, with the required owner, mode and bytes, whatever the commands did; and unless it only
  reconciled the list, the configuration with the scope is what is stored.\<close>

theorem enable_installs:
  assumes "Enable m env name scope doctor w = (Inr res, w')" and "\<not> er_already res"
    and "LockName (mg_store m) (wd_host w) name = (Inr l, h)"
    and "loadUnlocked (mg_store m) (ln_library env) h name = Inr cfg"
  shows "(\<exists>x. renderExpected m env (cfg\<lparr>cfg_autostart_scope := scope\<rparr>) = Inr x
      \<and> verifyInstalled m env (scope_domain scope) (plistPath m (scope_domain scope) (cfg_id cfg)) x w' = None)
    \<and> (\<not> er_reconciled res \<longrightarrow> (\<exists>data ino. CanonicalJSON (ln_library env) (cfg\<lparr>cfg_autostart_scope := scope\<rparr>) = Inr data
        \<and> h_fs (wd_host w') (p_config (store_paths (mg_store m) cfg))
          = Some (File ino (h_uid (wd_host w')) mode_file data)))"
proof -
  let ?w = "w\<lparr>wd_host := h\<rparr>" and ?c = "cfg\<lparr>cfg_autostart_scope := scope\<rparr>" and ?d = "scope_domain scope"
  obtain check where doc: "doctor = Some check" and locked: "under_name_lock m name (enable_locked m env name scope check) w = (Inr res, w')"
    using assms(1) by (auto simp: Enable_def lift_result_def split: if_splits option.splits)
  obtain w1 where body: "enable_locked m env name scope check ?w = (Inr res, w1)"
    and w': "w' = w1\<lparr>wd_host := unlock l (wd_host w1)\<rparr>"
    using locked_body [OF assms(3) locked] by blast
  have ver: "verifyInstalled m env ?d (plistPath m ?d (cfg_id cfg)) x w' = verifyInstalled m env ?d (plistPath m ?d (cfg_id cfg)) x w1" for x
    by (simp add: w')
  obtain login sys loaded w2 where rest:
    "(if cfg_autostart_scope cfg = scope then enable_same m env cfg scope loaded
      else if cfg_autostart_scope cfg \<noteq> AutostartNone then lift_result (Inl [OtherScope (cfg_autostart_scope cfg)])
      else enable_fresh m env name cfg scope check login sys loaded) w2 = (Inr res, w1)"
    using body unfolding enable_locked_def
    by (auto simp: bindS_Inr load_config_run [OF assms(4)] fails_Inr split: prod.splits)
  show ?thesis
  proof (cases "cfg_autostart_scope cfg = scope")
    case True
    then have c: "?c = cfg" by simp
    obtain p x w3 where "renderExpected m env cfg = Inr x" "replace_plist m env ?d (cfg_id cfg) p x w3 = (Inr (), w1)" "er_reconciled res"
      using rest True assms(2) by (auto simp: enable_same_def Let_def step_simps split: if_splits)
    then show ?thesis using replace_verified [of m env ?d "cfg_id cfg" p x w3 "()" w1] c ver by auto
  next
    case False
    then have fresh: "enable_fresh m env name cfg scope check login sys loaded w2 = (Inr res, w1)"
      using rest by (auto simp: lift_result_def split: if_splits)
    obtain x w3 w4 where x: "renderExpected m env ?c = Inr x" and inst: "installPlist m env ?d (cfg_id cfg) x w3 = (Inr (), w4)"
      and commit: "commit_scope m env name ?d x cfg ?c w4 = (Inr (), w1)"
      using fresh by (auto simp: enable_fresh_def Let_def step_simps)
    have save: "save_config m env name ?c w4 = (Inr (), w1)"
      using commit by (auto simp: commit_scope_def and_then_def split: prod.splits sum.splits)
    have "lockedSave (mg_store m) (ln_library env) name ?c (wd_host w4) = (Inr (), wd_host w1)"
      using save by (auto simp: save_config_def on_store_def split: prod.splits sum.splits)
    moreover have "cfg_name cfg = name" using assms(4) by (auto simp: loadUnlocked_def Let_def split: option.splits sum.splits if_splits)
    ultimately obtain data ino where "CanonicalJSON (ln_library env) ?c = Inr data"
      "h_fs (wd_host w1) (p_config (store_paths (mg_store m) ?c)) = Some (File ino (h_uid (wd_host w1)) mode_file data)"
      using lockedSave_stored [of "mg_store m" "ln_library env" ?c "wd_host w4" "wd_host w1"] by auto
    moreover have "p_config (store_paths (mg_store m) ?c) = p_config (store_paths (mg_store m) cfg)" by simp
    moreover have "verifyInstalled m env ?d (plistPath m ?d (cfg_id cfg)) x w1 = None"
      using installPlist_verified [OF inst] verify_files save_world [OF save] by metis
    ultimately show ?thesis using x ver by (simp add: w' unlock_def)
  qed
qed

text \<open>A successful start of a machine with a scope has loaded its job, and the list it was loaded
  from is the current rendering: a list that was missing or stale was replaced before.\<close>

lemma start_loads_current:
  assumes "Start m env name stopped w = (Inr (), w')" and "LockName (mg_store m) (wd_host w) name = (Inr l, h)"
    and "loadUnlocked (mg_store m) (ln_library env) h name = Inr cfg" and "runner_laws m (cfg_id cfg) (ln_run env)"
  shows "\<exists>x gid uid mode. renderExpected m env cfg = Inr x
    \<and> wd_files w' (plistPath m (scope_domain (cfg_autostart_scope cfg)) (cfg_id cfg)) = Some (PlistFile uid gid mode x)
    \<and> job_target m (scope_domain (cfg_autostart_scope cfg)) (cfg_id cfg) \<in> wd_jobs w'"
proof -
  let ?w = "w\<lparr>wd_host := h\<rparr>" and ?d = "scope_domain (cfg_autostart_scope cfg)" and ?i = "cfg_id cfg"
  note laws = assms(4)
  obtain w1 where body: "start_locked m env name stopped ?w = (Inr (), w1)"
    and w': "w' = w1\<lparr>wd_host := unlock l (wd_host w1)\<rparr>"
    using locked_body [OF assms(2)] assms(1) unfolding Start_def by blast
  obtain x p loaded w2 w3 w4 where x: "renderExpected m env cfg = Inr x" and p: "inspectPath m env ?d ?i ?w = Inr p"
    and put: "(if pi_present p \<and> pi_bytes p = x then lift_result (Inr ()) else replace_plist m env ?d ?i p x) ?w = (Inr (), w2)"
    and pr: "printLoaded m env ?d ?i w2 = (Inr loaded, w3)"
    and out: "(if loaded then bootout m env ?d ?i else lift_result (Inr ())) w3 = (Inr (), w4)"
    and boot: "bootstrap env ?d (plistPath m ?d ?i) w4 = (Inr (), w1)"
    using body by (auto simp: start_locked_def Let_def step_simps load_config_run [OF assms(3)])
  have "\<exists>uid gid mode. fst (job_at m ?i ?d w2) = Some (PlistFile uid gid mode x)"
  proof (cases "pi_present p \<and> pi_bytes p = x")
    case True
    then have "w2 = ?w" using put by (simp add: lift_result_def)
    then show ?thesis using p True
      by (auto simp: inspectPath_def job_at_def Let_def split: if_splits option.splits plist_node.splits sum.splits)
  next
    case False
    then have "replace_plist m env ?d ?i p x ?w = (Inr (), w2)" using put by auto
    then have "verifyInstalled m env ?d (plistPath m ?d ?i) x w2 = None" by (rule replace_verified)
    then show ?thesis by (auto simp: verifyInstalled_def job_at_def split: if_splits option.splits plist_node.splits)
  qed
  moreover have "fst (job_at m ?i ?d w3) = fst (job_at m ?i ?d w2)"
    using printLoaded_run [OF laws pr] by (simp add: job_at_def)
  moreover have "fst (job_at m ?i ?d w4) = fst (job_at m ?i ?d w3)"
    using out bootout_effect [OF laws, of ?d w3 "Inr ()" w4] by (auto simp: lift_result_def split: if_splits)
  ultimately show ?thesis using bootstrap_effect [OF laws boot] x by (auto simp: job_at_def w')
qed

section \<open>Witnesses\<close>

text \<open>Commands that behave as their manuals say, for the sample's job, and never fail.\<close>

definition sample_manager :: manager where
  "sample_manager =
     \<lparr>mg_store = sample_store, mg_executable = ''/opt/qemu-manage'', mg_username = ''user'', mg_home = ''/u'',
      mg_uid = 501, mg_login_dir = ''/u/agents'', mg_system_dir = ''/daemons''\<rparr>"

definition sample_run :: runner where
  "sample_run c st =
     (case st of (fs, js) \<Rightarrow>
      case c of
        Print t \<Rightarrow> (if t \<in> js then CmdOK '''' else CmdFailed '''' (not_found_text (Label (cfg_id sample_config))), fs, js)
      | Lint _ \<Rightarrow> (CmdOK '''', fs, js)
      | Bootstrap d _ \<Rightarrow> (CmdOK '''', fs, insert (job_target sample_manager d (cfg_id sample_config)) js)
      | Bootout _ t \<Rightarrow> (CmdOK '''', fs, js - {t})
      | InstallFile x p \<Rightarrow> (CmdOK '''', fs(p \<mapsto> PlistFile 0 0 420 x), js)
      | RemoveFile p \<Rightarrow> (CmdOK '''', fs(p := None), js))"

definition sample_tokens :: "xml_token list" where
  "sample_tokens =
     [StartElement ''dict'', StartElement ''key'', CharData ''Label'', EndElement ''key'', StartElement ''string'',
      CharData (Label (cfg_id sample_config)), EndElement ''string'', EndElement ''dict'']"

definition sample_launchd :: "sysop option \<Rightarrow> launchd_env" where
  "sample_launchd broken =
     \<lparr>ln_run = sample_run, ln_decoder = (\<lambda>_. (sample_tokens, True)), ln_library = sample_library,
      ln_stat = (\<lambda>_. Inr (True, 493)), ln_gid = 20, ln_candidate = ''/tmp/c'', ln_candidate_err = None,
      ln_fault = (\<lambda>call _. broken = Some call)\<rparr>"

lemma sample_runner_laws: "runner_laws sample_manager (cfg_id sample_config) (ln_run (sample_launchd b))"
  by (auto simp: runner_laws_def print_law_def load_law_def file_law_def sample_launchd_def sample_run_def)

definition sample_world :: world where
  "sample_world =
     \<lparr>wd_host = sample_host,
      wd_files = [plistPath sample_manager DomainLogin (cfg_id sample_config) \<mapsto> PlistFile 501 20 mode_file ''list''],
      wd_jobs = {job_target sample_manager DomainLogin (cfg_id sample_config)}, wd_cmds = []\<rparr>"

lemma sample_label: "label_loop True \<lparr>ls_in_dict = False, ls_depth = 0, ls_want = False, ls_found = False, ls_label = ''''\<rparr>
    sample_tokens = Inr (Label (cfg_id sample_config))"
  by (simp add: sample_tokens_def leave_element_def) (simp add: Label_def)

lemma sample_not_found: "serviceNotFound [] (not_found_text l) l"
proof -
  have "has_prefix (drop 1 ([] @ newline # not_found_text l)) (not_found_text l)" by (simp add: has_prefix_def)
  moreover have "1 \<in> set [0..<Suc (length ([] @ newline # not_found_text l))]" by (simp del: upt_Suc)
  ultimately show ?thesis unfolding serviceNotFound_def contains_def list_ex_iff by (rule bexI)
qed

lemma sample_print:
  "printLoaded sample_manager (sample_launchd b) d (cfg_id sample_config) w =
     (Inr (job_target sample_manager d (cfg_id sample_config) \<in> wd_jobs w),
      w\<lparr>wd_cmds := wd_cmds w @ [Print (job_target sample_manager d (cfg_id sample_config))]\<rparr>)"
  by (simp add: printLoaded_def Let_def run_cmd_def sample_launchd_def sample_run_def sample_not_found)

lemma sample_dirs_differ: "mg_login_dir sample_manager \<noteq> mg_system_dir sample_manager"
  by (simp add: sample_manager_def)

lemma sample_paths_differ [simp]:
  "plistPath sample_manager DomainSystem i \<noteq> plistPath sample_manager DomainLogin i"
  "job_target sample_manager DomainSystem i \<noteq> job_target sample_manager DomainLogin i"
  by (simp_all add: path_inj [OF sample_dirs_differ] target_inj)

lemma sample_inspect:
  assumes "b \<notin> {Some SysOpen, Some SysFstat, Some SysRead}" "wd_files w = wd_files sample_world"
  shows "inspectPath sample_manager (sample_launchd b) d (cfg_id sample_config) w =
     Inr \<lparr>pi_path = plistPath sample_manager d (cfg_id sample_config), pi_present = (d = DomainLogin),
          pi_bytes = (if d = DomainLogin then ''list'' else '''')\<rparr>"
  using assms by (cases d)
    (auto simp: inspectPath_def Let_def sample_launchd_def sample_world_def plistLabel_def sample_label owner_ok_def,
     simp_all add: sample_manager_def)

text \<open>The commands of the sample, one by one.\<close>

lemma sample_commands:
  "bootout sample_manager (sample_launchd b) d (cfg_id sample_config) w =
     (Inr (), w\<lparr>wd_jobs := wd_jobs w - {job_target sample_manager d (cfg_id sample_config)},
       wd_cmds := wd_cmds w @ [Bootout d (job_target sample_manager d (cfg_id sample_config))]\<rparr>)"
  "bootstrap (sample_launchd b) d p w =
     (Inr (), w\<lparr>wd_jobs := insert (job_target sample_manager d (cfg_id sample_config)) (wd_jobs w),
       wd_cmds := wd_cmds w @ [Bootstrap d p]\<rparr>)"
  "removePlist (sample_launchd b) DomainLogin p w =
     (if b = Some SysRemove then (Inl [RemoveFailed (EFAULTED SysRemove)], w) else (Inr (), set_file p None w))"
  by (auto simp: bootout_def bootstrap_def command_def run_cmd_def sample_launchd_def sample_run_def removePlist_def)

lemma sample_load_config:
  "load_config sample_manager (sample_launchd b) ''home-assistant'' (sample_world\<lparr>wd_host := after_lock sample_host\<rparr>)
   = (Inr sample_config, sample_world\<lparr>wd_host := after_lock sample_host\<rparr>)"
  by (rule load_config_run) (simp add: sample_manager_def sample_launchd_def sample_load)

lemma sample_inspect_system:
  assumes "b \<notin> {Some SysOpen, Some SysFstat, Some SysRead}" "wd_files w (plistPath sample_manager DomainSystem (cfg_id sample_config)) = None"
  shows "inspectPath sample_manager (sample_launchd b) DomainSystem (cfg_id sample_config) w =
     Inr \<lparr>pi_path = plistPath sample_manager DomainSystem (cfg_id sample_config), pi_present = False, pi_bytes = ''''\<rparr>"
  using assms by (auto simp: inspectPath_def Let_def sample_launchd_def)

definition sample_state :: "job_domain \<Rightarrow> disabledDomain" where
  "sample_state d =
     (let p = \<lparr>pi_path = plistPath sample_manager d (cfg_id sample_config), pi_present = (d = DomainLogin),
               pi_bytes = (if d = DomainLogin then ''list'' else '''')\<rparr>
      in \<lparr>dd_domain = d, dd_inspection = p, dd_backup = p, dd_loaded = (d = DomainLogin), dd_removed = False, dd_bootedOut = False\<rparr>)"

lemma sample_observe:
  assumes "wd_jobs w = wd_jobs sample_world"
  shows "observe_domain sample_manager (sample_launchd b) sample_config d (dd_inspection (sample_state d)) w
    = (Inr (sample_state d), w\<lparr>wd_cmds := wd_cmds w @ [Print (job_target sample_manager d (cfg_id sample_config))]\<rparr>)"
  using assms by (cases d)
    (simp_all add: observe_domain_def bindS_def sample_print sample_world_def sample_state_def Let_def lift_result_def)

lemma sample_disable_locked:
  assumes b: "b = None \<or> b = Some SysRemove"
  defines "w0 \<equiv> sample_world\<lparr>wd_host := after_lock sample_host\<rparr>"
  shows "fst (disable_locked sample_manager (sample_launchd b) ''home-assistant'' (Some (\<lambda>_. None)) w0)
    = (if b = Some SysRemove then Inl [RemoveFailed (EFAULTED SysRemove)] else Inr ())"
proof -
  let ?m = sample_manager and ?e = "sample_launchd b" and ?i = "cfg_id sample_config"
  have fine: "b \<notin> {Some SysOpen, Some SysFstat, Some SysRead}" using b by auto
  have insp: "inspectPath ?m ?e d ?i w = Inr (dd_inspection (sample_state d))" if "wd_files w = wd_files sample_world" for d w
    using sample_inspect [OF fine that] by (simp add: sample_state_def Let_def)
  define w2 where "w2 = w0\<lparr>wd_cmds := [Print (job_target ?m DomainLogin ?i), Print (job_target ?m DomainSystem ?i)]\<rparr>"
  have files: "wd_files w0 = wd_files sample_world" "wd_jobs w0 = wd_jobs sample_world" "wd_cmds w0 = []"
    by (simp_all add: w0_def sample_world_def)
  have start: "disable_locked ?m ?e ''home-assistant'' (Some (\<lambda>_. None)) w0
     = disable_changes ?m ?e ''home-assistant'' sample_config [sample_state DomainLogin, sample_state DomainSystem] w2"
    by (simp add: disable_locked_def bindS_def sample_load_config [of b, folded w0_def] inspectBoth_def gives_def insp files
        lift_result_def sample_observe running_refusal_def fails_def reject_def w2_def)
      (simp add: sample_state_def Let_def)
  have checked: "bindS (gives (inspectPath ?m ?e d ?i)) (\<lambda>current. fails (changed current (dd_inspection (sample_state d)))) w
      = (Inr (), w)" if "inspectPath ?m ?e d ?i w = Inr (dd_inspection (sample_state d))" for d w
    using that by (simp add: bindS_def gives_def fails_def reject_def changed_def still_inspected_def)
  have f2: "wd_files w2 = wd_files sample_world" by (simp add: w2_def files)
  define w3 where "w3 = w2\<lparr>wd_jobs := wd_jobs w2 - {job_target ?m DomainLogin ?i},
    wd_cmds := wd_cmds w2 @ [Bootout DomainLogin (job_target ?m DomainLogin ?i)]\<rparr>"
  have f3: "wd_files w3 = wd_files sample_world" by (simp add: w3_def f2)
  have fields: "dd_domain (sample_state d) = d" "dd_loaded (sample_state d) = (d = DomainLogin)"
    "pi_present (dd_inspection (sample_state d)) = (d = DomainLogin)" "dd_removed (sample_state d) = False"
    "dd_bootedOut (sample_state d) = False" "dd_backup (sample_state d) = dd_inspection (sample_state d)"
    "pi_path (dd_inspection (sample_state d)) = plistPath ?m d ?i" for d
    by (simp_all add: sample_state_def Let_def)
  have rm: "remove_checked ?m ?e ?i (sample_state DomainLogin) w3 =
      (if b = Some SysRemove then (Inl [RemoveFailed (EFAULTED SysRemove)], w3)
       else (Inr (), set_file (plistPath ?m DomainLogin ?i) None w3))"
    by (simp add: remove_checked_def fields bindS_def gives_def insp [OF f3] fails_def reject_def changed_def
        still_inspected_def sample_commands)
  have login: "disable_domain ?m ?e ?i (sample_state DomainLogin) w2 =
      (if b = Some SysRemove then ([RemoveFailed (EFAULTED SysRemove)], (sample_state DomainLogin)\<lparr>dd_bootedOut := True\<rparr>, w3)
       else ([], (sample_state DomainLogin)\<lparr>dd_bootedOut := True, dd_removed := True\<rparr>, set_file (plistPath ?m DomainLogin ?i) None w3))"
    using checked [OF insp [OF f2]] by (simp add: disable_domain_def fields sample_commands w3_def [symmetric] rm Let_def)
  show ?thesis
  proof (cases "b = Some SysRemove")
    case True
    have "restore_domain ?m ?e ?i (sample_state DomainSystem) w3 = (Inr (), w3)"
      by (simp add: restore_domain_def reload_job_def fields bindS_def lift_result_def)
    moreover have "fst (restore_domain ?m ?e ?i ((sample_state DomainLogin)\<lparr>dd_bootedOut := True\<rparr>) w3) = Inr ()"
      by (simp add: restore_domain_def reload_job_def fields bindS_def lift_result_def gives_def insp [OF f3]
          fails_def reject_def sample_commands)
    ultimately show ?thesis
      unfolding start disable_changes_def
      by (auto simp: login [unfolded if_P [OF True]] if_P [OF True] rollback_def split: prod.splits sum.splits)
  next
    case False
    let ?w4 = "set_file (plistPath ?m DomainLogin ?i) None w3"
    have none: "wd_files ?w4 (plistPath ?m DomainSystem ?i) = None"
      by (simp add: set_file_def f3 sample_world_def)
    have "inspectPath ?m ?e DomainSystem ?i ?w4 = Inr (dd_inspection (sample_state DomainSystem))"
      using sample_inspect_system [OF fine none] by (simp add: sample_state_def Let_def)
    then have clear: "bindS (gives (inspectPath ?m ?e DomainSystem ?i)) (\<lambda>current. fails (changed current (dd_inspection (sample_state DomainSystem)))) ?w4
      = (Inr (), ?w4)" by (rule checked)
    have idle: "(sample_state DomainSystem)\<lparr>dd_bootedOut := False, dd_removed := False\<rparr> = sample_state DomainSystem"
      by (simp add: sample_state_def Let_def)
    have "disable_domain ?m ?e ?i (sample_state DomainSystem) ?w4 = ([], (sample_state DomainSystem), ?w4)"
      by (simp add: disable_domain_def fields clear remove_checked_def lift_result_def idle)
    then show ?thesis
      unfolding start disable_changes_def
      by (simp add: login [unfolded if_not_P [OF False]] if_not_P [OF False] sample_name(3))
  qed
qed

lemma sample_disable:
  assumes "b = None \<or> b = Some SysRemove"
  shows "fst (Disable sample_manager (sample_launchd b) ''home-assistant'' (Some (\<lambda>_. None)) sample_world)
    = (if b = Some SysRemove then Inl [RemoveFailed (EFAULTED SysRemove)] else Inr ())"
proof -
  have store: "mg_store sample_manager = sample_store" "wd_host sample_world = sample_host"
    by (simp_all add: sample_manager_def sample_world_def)
  have "fst (Disable sample_manager (sample_launchd b) ''home-assistant'' (Some (\<lambda>_. None)) sample_world)
      = fst (disable_locked sample_manager (sample_launchd b) ''home-assistant'' (Some (\<lambda>_. None)) (sample_world\<lparr>wd_host := after_lock sample_host\<rparr>))"
    by (simp add: Disable_def under_name_lock_def store sample_LockName(1) split: prod.splits)
  with sample_disable_locked [OF assms] show ?thesis by simp
qed

lemma sample_locked:
  "LockName (mg_store sample_manager) (wd_host sample_world) ''home-assistant'' = (Inr 7, after_lock sample_host)"
  "loadUnlocked (mg_store sample_manager) (ln_library (sample_launchd b)) (after_lock sample_host) ''home-assistant'' = Inr sample_config"
  by (simp_all add: sample_manager_def sample_launchd_def sample_world_def sample_LockName sample_load)

lemma disable_refuses_running_witness:
  "\<exists>es. fst (Disable sample_manager (sample_launchd None) ''home-assistant'' (Some (\<lambda>_. Some ''running'')) sample_world) = Inl es"
proof -
  obtain r w' where run: "Disable sample_manager (sample_launchd None) ''home-assistant'' (Some (\<lambda>_. Some ''running'')) sample_world = (r, w')"
    by fastforce
  from disable_refuses_running [OF _ sample_locked run] run show ?thesis by simp
qed

theorem disable_rolls_back_witness:
  "\<exists>w'. Disable sample_manager (sample_launchd (Some SysRemove)) ''home-assistant'' (Some (\<lambda>_. None)) sample_world
       = (Inl [RemoveFailed (EFAULTED SysRemove)], w')
     \<and> job_target sample_manager DomainLogin (cfg_id sample_config) \<in> wd_jobs w'"
proof -
  obtain w' where run: "Disable sample_manager (sample_launchd (Some SysRemove)) ''home-assistant'' (Some (\<lambda>_. None)) sample_world
      = (Inl [RemoveFailed (EFAULTED SysRemove)], w')"
    using sample_disable [of "Some SysRemove"] by (auto simp: prod_eq_iff)
  from disable_rolls_back [OF run sample_locked sample_runner_laws sample_dirs_differ, of DomainLogin] run show ?thesis
    by (auto simp: sample_world_def)
qed

lemma disable_success_witness:
  "wd_files (snd (Disable sample_manager (sample_launchd None) ''home-assistant'' (Some (\<lambda>_. None)) sample_world))
     (plistPath sample_manager DomainLogin (cfg_id sample_config)) = None"
proof -
  obtain w' where run: "Disable sample_manager (sample_launchd None) ''home-assistant'' (Some (\<lambda>_. None)) sample_world = (Inr (), w')"
    using sample_disable [of None] by (auto simp: prod_eq_iff)
  from disable_success [OF run sample_locked sample_runner_laws sample_dirs_differ] run show ?thesis by simp
qed

text \<open>Enabling the sample at login, where nothing is installed yet.\<close>

definition bare_world :: world where
  "bare_world = sample_world\<lparr>wd_files := \<lambda>_. None, wd_jobs := {}\<rparr>"

lemma sample_renders: "\<exists>x. renderExpected sample_manager (sample_launchd None) (sample_config\<lparr>cfg_autostart_scope := AutostartLogin\<rparr>) = Inr x"
proof -
  have valid: "Validate (sample_config\<lparr>cfg_autostart_scope := AutostartLogin\<rparr>) = None" by code_simp
  have exe: "stableExecutable (sample_launchd None) (mg_executable sample_manager) = Inr ''/opt/qemu-manage''"
  proof -
    have "Clean ''/opt/qemu-manage'' = ''/opt/qemu-manage''" by code_simp
    then show ?thesis by (simp add: stableExecutable_def sample_launchd_def sample_manager_def is_abs_path_def has_prefix_def)
  qed
  have "AutostartLogin \<noteq> AutostartBoot" by (simp add: AutostartLogin_def AutostartBoot_def)
  with valid show ?thesis
    by (simp add: renderExpected_def exe renderForConfig_def render_plist_def relative_path_def)
      (simp add: plist_args_of_def Let_def store_paths_def sample_manager_def sample_store_def is_abs_path_def has_prefix_def join_path_def)
qed

definition login_config :: Config where "login_config = sample_config\<lparr>cfg_autostart_scope := AutostartLogin\<rparr>"

lemma login_config_valid: "Validate login_config = None"
  by code_simp

lemma sample_save: "\<exists>h. lockedSave sample_store sample_library ''home-assistant'' login_config (after_lock sample_host) = (Inr (), h)"
proof -
  have parent: "parent_dir ''/d/home-assistant/config.json'' = ''/d/home-assistant''" by code_simp
  have ens: "ensureOwnedDirectory (after_lock sample_host) ''/d/home-assistant'' = (Inr (), after_lock sample_host)"
    by (rule ensureOwnedDirectory_owned) (simp_all add: after_lock_def sample_defs)
  have paths: "p_config (store_paths sample_store login_config) = ''/d/home-assistant/config.json''"
    "cfg_name login_config = ''home-assistant''" "cfg_id login_config = cfg_id sample_config"
    by (simp_all add: login_config_def sample_store_def sample_name join_path_def configFilename_def)
  have "fst (writeConfigAtomic sample_library (after_lock sample_host) ''/d/home-assistant/config.json'' login_config) = Inr ()"
    by (simp add: writeConfigAtomic_def CanonicalJSON_def login_config_valid sample_library_def parent
        Let_def ens) (simp add: write_ops_def temp_path_def join_path_def after_lock_def sample_defs)
  then have "fst (lockedSave sample_store sample_library ''home-assistant'' login_config (after_lock sample_host)) = Inr ()"
    by (simp only: lockedSave_def paths sample_load) simp
  then show ?thesis by (simp add: prod_eq_iff)
qed

lemma sample_enable_locked:
  "\<exists>w'. enable_locked sample_manager (sample_launchd None) ''home-assistant'' AutostartLogin (\<lambda>_. None)
      (bare_world\<lparr>wd_host := after_lock sample_host\<rparr>)
    = (Inr \<lparr>er_scope = AutostartLogin, er_already = False, er_reconciled = False, er_loaded = False\<rparr>, w')"
proof -
  let ?m = sample_manager and ?e = "sample_launchd None" and ?i = "cfg_id sample_config"
  obtain x where x: "renderExpected ?m ?e (sample_config\<lparr>cfg_autostart_scope := AutostartLogin\<rparr>) = Inr x"
    using sample_renders by blast
  have load: "load_config ?m ?e ''home-assistant'' (bare_world\<lparr>wd_host := after_lock sample_host\<rparr>)
      = (Inr sample_config, bare_world\<lparr>wd_host := after_lock sample_host\<rparr>)"
    by (rule load_config_run) (simp add: sample_manager_def sample_launchd_def sample_load)
  have insp: "inspectPath ?m ?e d ?i w = Inr \<lparr>pi_path = plistPath ?m d ?i, pi_present = False, pi_bytes = ''''\<rparr>"
    if "wd_files w = (\<lambda>_. None)" for d w
    using that by (simp add: inspectPath_def sample_launchd_def Let_def)
  have inst: "installPlist ?m ?e DomainLogin ?i x w = (Inr (), set_file (plistPath ?m DomainLogin ?i)
      (Some (PlistFile 501 20 mode_file x)) (w\<lparr>wd_cmds := wd_cmds w @ [Lint x]\<rparr>))" if "wd_files w = (\<lambda>_. None)" for w
    using that by (simp add: installPlist_def put_plist_def bindS_def fails_def reject_def lint_def command_def run_cmd_def
        sample_launchd_def sample_run_def installCandidate_def install_login_def Let_def set_file_def verifyInstalled_def owner_ok_def)
      (simp add: sample_manager_def)
  obtain h where h: "lockedSave sample_store sample_library ''home-assistant'' login_config (after_lock sample_host) = (Inr (), h)"
    using sample_save by blast
  have commit: "commit_scope ?m ?e ''home-assistant'' DomainLogin x sample_config (sample_config\<lparr>cfg_autostart_scope := AutostartLogin\<rparr>) w
      = (Inr (), w\<lparr>wd_host := h\<rparr>)" if "wd_host w = after_lock sample_host" for w
  proof -
    have "mg_store ?m = sample_store" "ln_library ?e = sample_library" by (simp_all add: sample_manager_def sample_launchd_def)
    then show ?thesis using h that by (simp add: commit_scope_def save_config_def on_store_def login_config_def)
  qed
  have scopes: "AutostartNone \<noteq> AutostartLogin" "scope_domain AutostartLogin = DomainLogin"
    by (simp_all add: scope_domain_def AutostartLogin_def AutostartBoot_def AutostartNone_def)
  define W where "W = bare_world\<lparr>wd_host := after_lock sample_host\<rparr>"
  have W: "wd_files W = (\<lambda>_. None)" "wd_jobs W = {}" "wd_host W = after_lock sample_host"
    by (simp_all add: W_def bare_world_def)
  have "\<exists>w'. enable_locked ?m ?e ''home-assistant'' AutostartLogin (\<lambda>_. None) W
      = (Inr \<lparr>er_scope = AutostartLogin, er_already = False, er_reconciled = False, er_loaded = False\<rparr>, w')"
    by (simp add: enable_locked_def bindS_def load [folded W_def] fails_def reject_def sample_config_valid inspectBoth_def gives_def
        W insp lift_result_def sample_print sample_name(3) scopes enable_fresh_def Let_def x remove_orphan_def inst)
      (simp add: commit set_file_def W lift_result_def)
  then show ?thesis by (simp only: W_def)
qed

lemma bare_locked:
  "LockName (mg_store sample_manager) (wd_host bare_world) ''home-assistant'' = (Inr 7, after_lock sample_host)"
  using sample_locked(1) by (simp add: bare_world_def)

theorem enable_installs_witness:
  "\<exists>x. verifyInstalled sample_manager (sample_launchd None) DomainLogin
     (plistPath sample_manager DomainLogin (cfg_id sample_config)) x
     (snd (Enable sample_manager (sample_launchd None) ''home-assistant'' AutostartLogin (Some (\<lambda>_. None)) bare_world)) = None"
proof -
  let ?res = "\<lparr>er_scope = AutostartLogin, er_already = False, er_reconciled = False, er_loaded = False\<rparr>"
  obtain w1 where "enable_locked sample_manager (sample_launchd None) ''home-assistant'' AutostartLogin (\<lambda>_. None)
      (bare_world\<lparr>wd_host := after_lock sample_host\<rparr>) = (Inr ?res, w1)"
    using sample_enable_locked by blast
  then obtain w' where run: "Enable sample_manager (sample_launchd None) ''home-assistant'' AutostartLogin (Some (\<lambda>_. None)) bare_world
      = (Inr ?res, w')"
    by (simp add: Enable_def under_name_lock_def bare_locked split: prod.splits)
  from enable_installs [OF run _ bare_locked sample_locked(2)] run show ?thesis
    by (auto simp: scope_domain_def AutostartLogin_def AutostartBoot_def)
qed

text \<open>The host with a machine that starts at login: its library reads the login configuration.\<close>

definition login_library :: library where
  "login_library = sample_library\<lparr>js_strict := (\<lambda>s. Some (Some ConfigSchemaURL, login_config))\<rparr>"

definition login_launchd :: launchd_env where "login_launchd = (sample_launchd None)\<lparr>ln_library := login_library\<rparr>"

lemma login_loaded: "loadUnlocked (mg_store sample_manager) (ln_library login_launchd) (after_lock sample_host) ''home-assistant'' = Inr login_config"
proof -
  have raw: "validateRawJSONUnicode ''{}'' = None" by code_simp
  have trim: "trim_space ''{}'' = ''{}''" by code_simp
  have dec: "Decode login_library ''{}'' = Inr login_config"
    by (simp add: Decode_def raw login_library_def sample_library_def trim schema_accepted_def login_config_valid)
  have data: "openOwnedRegular (after_lock sample_host) ''/d/home-assistant/config.json'' = Inr ''{}''"
    by (simp add: openOwnedRegular_def after_lock_def sample_defs)
  have dir: "inspectOwnedDirectory (after_lock sample_host) ''/d/home-assistant'' = None"
    by (simp add: inspectOwnedDirectory_def lstat_def after_lock_def sample_defs)
  have paths: "join_path (DataRoot sample_store) ''home-assistant'' = ''/d/home-assistant''"
    "join_path ''/d/home-assistant'' configFilename = ''/d/home-assistant/config.json''"
    by (simp_all add: sample_store_def join_path_def configFilename_def)
  show ?thesis
    by (simp add: loadUnlocked_def paths dir data dec login_launchd_def sample_manager_def) (simp add: login_config_def sample_name)
qed

lemma login_env:
  "ln_run login_launchd = sample_run" "ln_decoder login_launchd = (\<lambda>_. (sample_tokens, True))"
  "ln_stat login_launchd = (\<lambda>_. Inr (True, 493))" "ln_gid login_launchd = 20" "ln_candidate_err login_launchd = None"
  "ln_fault login_launchd = (\<lambda>_ _. False)"
  by (simp_all add: login_launchd_def sample_launchd_def)

lemma login_ids: "cfg_id login_config = cfg_id sample_config" "cfg_autostart_scope login_config = AutostartLogin"
  by (simp_all add: login_config_def)

lemma sample_start: "\<exists>w'. start_locked sample_manager login_launchd ''home-assistant'' (Some (\<lambda>_. None))
    (bare_world\<lparr>wd_host := after_lock sample_host\<rparr>) = (Inr (), w')"
proof -
  let ?m = sample_manager and ?e = login_launchd and ?i = "cfg_id sample_config"
  define W where "W = bare_world\<lparr>wd_host := after_lock sample_host\<rparr>"
  have W: "wd_files W = (\<lambda>_. None)" "wd_jobs W = {}" by (simp_all add: W_def bare_world_def)
  have "renderExpected ?m ?e c = renderExpected ?m (sample_launchd None) c" for c
    by (simp add: renderExpected_def stableExecutable_def login_env) (simp add: sample_launchd_def)
  then obtain x where x: "renderExpected ?m ?e login_config = Inr x"
    using sample_renders by (auto simp: login_config_def)
  have load: "load_config ?m ?e ''home-assistant'' W = (Inr login_config, W)"
    unfolding W_def by (rule load_config_run [OF login_loaded])
  have insp: "inspectPath ?m ?e d ?i W = Inr \<lparr>pi_path = plistPath ?m d ?i, pi_present = False, pi_bytes = ''''\<rparr>" for d
    by (simp add: inspectPath_def login_env Let_def W)
  have inst: "installPlist ?m ?e DomainLogin ?i x W = (Inr (), set_file (plistPath ?m DomainLogin ?i)
      (Some (PlistFile 501 20 mode_file x)) (W\<lparr>wd_cmds := wd_cmds W @ [Lint x]\<rparr>))"
    by (simp add: installPlist_def put_plist_def bindS_def fails_def reject_def lint_def command_def run_cmd_def
        login_env sample_run_def installCandidate_def install_login_def Let_def set_file_def verifyInstalled_def owner_ok_def W)
      (simp add: sample_manager_def)
  have print: "printLoaded ?m ?e d ?i w = (Inr (job_target ?m d ?i \<in> wd_jobs w),
      w\<lparr>wd_cmds := wd_cmds w @ [Print (job_target ?m d ?i)]\<rparr>)" for d w
    by (simp add: printLoaded_def Let_def run_cmd_def login_env sample_run_def sample_not_found)
  have scopes: "AutostartLogin \<noteq> AutostartBoot" "scope_domain AutostartLogin = DomainLogin"
    by (simp_all add: scope_domain_def AutostartLogin_def AutostartBoot_def)
  have "\<exists>w'. start_locked ?m ?e ''home-assistant'' (Some (\<lambda>_. None)) W = (Inr (), w')"
    by (simp add: start_locked_def bindS_def load fails_def reject_def login_ids scopes Let_def gives_def x insp
        replace_plist_def lift_result_def inst print set_file_def W bootstrap_def command_def run_cmd_def login_env sample_run_def)
  then show ?thesis by (simp only: W_def)
qed

lemma start_loads_current_witness:
  "job_target sample_manager DomainLogin (cfg_id sample_config)
     \<in> wd_jobs (snd (Start sample_manager login_launchd ''home-assistant'' (Some (\<lambda>_. None)) bare_world))"
proof -
  obtain w' where run: "Start sample_manager login_launchd ''home-assistant'' (Some (\<lambda>_. None)) bare_world = (Inr (), w')"
    using sample_start by (auto simp: Start_def under_name_lock_def bare_locked)
  have laws: "runner_laws sample_manager (cfg_id login_config) (ln_run login_launchd)"
    using sample_runner_laws [of None] by (simp add: login_ids login_env) (simp add: sample_launchd_def)
  from start_loads_current [OF run bare_locked login_loaded laws] run show ?thesis
    by (auto simp: login_ids scope_domain_def AutostartLogin_def AutostartBoot_def)
qed

section \<open>A loaded job without a list\<close>

text \<open>The early return of \<open>Disable\<close> looks at the scope and the lists, not at the jobs: a job that is still
  loaded from a list that is gone stays loaded, and the operation succeeds.\<close>

lemma disable_leaves_orphan_loaded:
  assumes "load_config m env name w = (Inr cfg, w)" and "cfg_autostart_scope cfg = AutostartNone"
    and "\<And>d. inspectPath m env d (cfg_id cfg) w = Inr (p d)" and "\<And>d. \<not> pi_present (p d)"
    and "observe_domain m env cfg DomainLogin (p DomainLogin) w = (Inr s1, w1)"
    and "observe_domain m env cfg DomainSystem (p DomainSystem) w1 = (Inr s2, w2)" and "check cfg = None"
  shows "disable_locked m env name (Some check) w = (Inr (), w2)"
  using assms
  by (simp add: disable_locked_def bindS_def inspectBoth_def gives_def lift_result_def fails_def reject_def running_refusal_def)

end
