(* ===== verification/Json.thy ===== *)
theory Json
  imports Prelude
begin

text \<open>
  JSON values and the part of \<open>encoding/json\<close> the QEMU clients use: a value decoded into a struct,
  field by field, with Go's rules for absent members, \<open>null\<close>, repeated and differently cased names,
  and integers that do not fit. A number keeps its literal. Reading text into values is not modelled.
\<close>

section \<open>Values\<close>

datatype json =
    JNull | JBool bool | JNumber string | JString string | JArray "json list"
  | JObject "(string \<times> json) list"

section \<open>Blank text (\<open>strings.TrimSpace\<close>)\<close>

text \<open>The length in bytes of a white space character at the head of a text, or 0.\<close>

definition space_len :: "string \<Rightarrow> nat" where
  "space_len s =
     (case List.map byte (take 3 s) of
        [] \<Rightarrow> 0
      | b # bs \<Rightarrow>
          if b \<in> {9 .. 13} \<or> b = 32 then 1
          else if b = 194 \<and> bs \<noteq> [] \<and> hd bs \<in> {133, 160} then 2
          else if length bs = 2 \<and>
            (b = 225 \<and> bs = [154, 128]
             \<or> b = 226 \<and> bs ! 0 = 128 \<and> (bs ! 1 \<in> {128 .. 138} \<or> bs ! 1 \<in> {168, 169, 175})
             \<or> b = 226 \<and> bs = [129, 159] \<or> b = 227 \<and> bs = [128, 128]) then 3
          else 0)"

function trim_left :: "string \<Rightarrow> string" where
  "trim_left s = (if space_len s = 0 \<or> s = [] then s else trim_left (drop (space_len s) s))"
  by pat_completeness auto
termination by (relation "measure length") auto

declare trim_left.simps [simp del]

definition blank :: "string \<Rightarrow> bool" where
  "blank s \<longleftrightarrow> trim_left s = []"

text \<open>The same at the end of a text (\<open>bytes.TrimSpace\<close> trims both ends).\<close>

definition space_tail :: "string \<Rightarrow> nat" where
  "space_tail s =
     (case List.find (\<lambda>n. n \<le> length s \<and> space_len (drop (length s - n) s) = n) [1, 2, 3] of
        None \<Rightarrow> 0 | Some n \<Rightarrow> n)"

function trim_right :: "string \<Rightarrow> string" where
  "trim_right s = (if space_tail s = 0 \<or> s = [] then s else trim_right (take (length s - space_tail s) s))"
  by pat_completeness auto
termination by (relation "measure length") auto

declare trim_right.simps [simp del]

definition TrimSpace :: "string \<Rightarrow> string" where "TrimSpace s = trim_right (trim_left s)"

lemma trim_left_length: "length (trim_left s) \<le> length s"
proof (induction s rule: trim_left.induct)
  case (1 s)
  then show ?case by (subst trim_left.simps) auto
qed

lemma trim_right_length: "length (trim_right s) \<le> length s"
proof (induction s rule: trim_right.induct)
  case (1 s)
  then show ?case by (subst trim_right.simps) auto
qed

lemma TrimSpace_length: "length (TrimSpace s) \<le> length s"
  unfolding TrimSpace_def using trim_left_length trim_right_length order_trans by blast

lemma blank_Nil [simp]: "blank []"
  by (simp add: blank_def trim_left.simps)

lemma printable_not_blank: "33 \<le> byte c \<Longrightarrow> byte c < 128 \<Longrightarrow> \<not> blank (c # s)"
  by (simp add: blank_def trim_left.simps [of "c # s"] space_len_def)

section \<open>Members of an object\<close>

text \<open>The folding of names: ASCII letters, and the two other characters that fold to one.\<close>

fun fold_name :: "string \<Rightarrow> string" where
  "fold_name (a # b # c # s) =
     (if byte a = 226 \<and> byte b = 132 \<and> byte c = 170 then CHR ''k'' # fold_name s
      else if byte a = 197 \<and> byte b = 191 then CHR ''s'' # fold_name (c # s)
      else to_lower_byte a # fold_name (b # c # s))"
| "fold_name [a, b] = (if byte a = 197 \<and> byte b = 191 then ''s'' else [to_lower_byte a, to_lower_byte b])"
| "fold_name [a] = [to_lower_byte a]"
| "fold_name [] = []"

definition members :: "string \<Rightarrow> (string \<times> json) list \<Rightarrow> json list" where
  "members name kvs = [v. (k, v) \<leftarrow> kvs, fold_name k = fold_name name]"

definition known_only :: "string list \<Rightarrow> (string \<times> json) list \<Rightarrow> bool" where
  "known_only names kvs \<longleftrightarrow> list_all (\<lambda>(k, _). fold_name k \<in> set (List.map fold_name names)) kvs"

section \<open>Decoding into a Go variable\<close>

text \<open>The variable's value before and, unless the types do not fit, after. \<open>null\<close> leaves a plain
  variable as it is and makes a pointer, a slice or a map nil.\<close>

type_synonym 'a into = "'a \<Rightarrow> json \<Rightarrow> 'a option"

fun into_all :: "'a into \<Rightarrow> 'a \<Rightarrow> json list \<Rightarrow> 'a option" where
  "into_all d x [] = Some x"
| "into_all d x (v # vs) = (case d x v of None \<Rightarrow> None | Some y \<Rightarrow> into_all d y vs)"

definition field :: "'a into \<Rightarrow> 'a \<Rightarrow> string \<Rightarrow> (string \<times> json) list \<Rightarrow> 'a option" where
  "field d x name kvs = into_all d x (members name kvs)"

fun into_string :: "string into" where
  "into_string x JNull = Some x"
| "into_string x (JString s) = Some s"
| "into_string x _ = None"

fun into_bool :: "bool into" where
  "into_bool x JNull = Some x"
| "into_bool x (JBool b) = Some b"
| "into_bool x _ = None"

definition int_literal :: "string \<Rightarrow> int option" where
  "int_literal lit =
     (if has_prefix lit ''-'' then map_option (\<lambda>n. - int n) (parse_dec (drop 1 lit))
      else map_option int (parse_dec lit))"

fun into_int64 :: "int into" where
  "into_int64 x JNull = Some x"
| "into_int64 x (JNumber lit) =
     (case int_literal lit of
        None \<Rightarrow> None
      | Some i \<Rightarrow> if - (2 ^ 63) \<le> i \<and> i < 2 ^ 63 then Some i else None)"
| "into_int64 x _ = None"

text \<open>\<open>json.RawMessage\<close>: any value, \<open>null\<close> included; \<open>None\<close> is the empty message.\<close>

definition into_raw :: "json option into" where "into_raw x v = Some (Some v)"

definition into_pointer :: "'a \<Rightarrow> 'a into \<Rightarrow> 'a option into" where
  "into_pointer zero d x v =
     (if v = JNull then Some None
      else map_option Some (d (case x of None \<Rightarrow> zero | Some y \<Rightarrow> y) v))"

fun decode_each :: "'a \<Rightarrow> 'a into \<Rightarrow> json list \<Rightarrow> 'a list option" where
  "decode_each zero d [] = Some []"
| "decode_each zero d (v # vs) =
     (case d zero v of
        None \<Rightarrow> None
      | Some x \<Rightarrow> map_option ((#) x) (decode_each zero d vs))"

text \<open>A slice, \<open>None\<close> when nil; a repeated member replaces it.\<close>

fun into_slice :: "'a \<Rightarrow> 'a into \<Rightarrow> 'a list option into" where
  "into_slice zero d x JNull = Some None"
| "into_slice zero d x (JArray vs) = map_option Some (decode_each zero d vs)"
| "into_slice zero d x _ = None"

text \<open>A struct, from the function that decodes its members.\<close>

fun into_struct :: "('a \<Rightarrow> (string \<times> json) list \<Rightarrow> 'a option) \<Rightarrow> 'a into" where
  "into_struct f x JNull = Some x"
| "into_struct f x (JObject kvs) = f x kvs"
| "into_struct f x _ = None"

text \<open>\<open>json.Number\<close>: a number, or a string with the text of one.\<close>

definition exponent_ok :: "string \<Rightarrow> bool" where
  "exponent_ok s \<longleftrightarrow>
     s = [] \<or> (hd s \<in> {CHR ''e'', CHR ''E''} \<and>
       (let t = tl s; u = (if t \<noteq> [] \<and> hd t \<in> {CHR ''+'', CHR ''-''} then tl t else t)
        in u \<noteq> [] \<and> list_all is_digit u))"

definition fraction_ok :: "string \<Rightarrow> bool" where
  "fraction_ok s \<longleftrightarrow>
     (if has_prefix s ''.'' then s \<noteq> ''.'' \<and> is_digit (hd (tl s)) \<and> exponent_ok (dropWhile is_digit (tl s))
      else exponent_ok s)"

definition isValidNumber :: "string \<Rightarrow> bool" where
  "isValidNumber lit \<longleftrightarrow>
     (let s = trim_prefix ''-'' lit
      in s \<noteq> [] \<and> (if hd s = CHR ''0'' then fraction_ok (tl s)
                    else is_digit (hd s) \<and> fraction_ok (dropWhile is_digit s)))"

fun into_number :: "string into" where
  "into_number x JNull = Some x"
| "into_number x (JNumber lit) = Some lit"
| "into_number x (JString s) = (if isValidNumber s then Some s else None)"
| "into_number x _ = None"

lemma into_int64_range:
  "into_int64 x v = Some i \<Longrightarrow> - (2 ^ 63) \<le> x \<Longrightarrow> x < 2 ^ 63 \<Longrightarrow> - (2 ^ 63) \<le> i \<and> i < 2 ^ 63"
  by (cases v) (auto split: option.splits if_splits)

lemma into_all_invariant:
  "into_all d x vs = Some y \<Longrightarrow> P x \<Longrightarrow> (\<And>x v y. d x v = Some y \<Longrightarrow> P x \<Longrightarrow> P y) \<Longrightarrow> P y"
  by (induction vs arbitrary: x) (auto split: option.splits)

lemma field_invariant:
  "field d x name kvs = Some y \<Longrightarrow> P x \<Longrightarrow> (\<And>x v y. d x v = Some y \<Longrightarrow> P x \<Longrightarrow> P y) \<Longrightarrow> P y"
  unfolding field_def by (rule into_all_invariant)

lemma decode_each_length: "decode_each zero d vs = Some xs \<Longrightarrow> length xs = length vs"
  by (induction vs arbitrary: xs) (auto split: option.splits)

lemma decode_each_in:
  "decode_each zero d vs = Some xs \<Longrightarrow> x \<in> set xs \<Longrightarrow> \<exists>v \<in> set vs. d zero v = Some x"
  by (induction vs arbitrary: xs) (auto split: option.splits)

section \<open>Counters in a Go map\<close>

text \<open>An association list with one entry for each key; \<open>m[k]++\<close> on 64-bit counters.\<close>

fun bump :: "'k \<Rightarrow> ('k \<times> u64) list \<Rightarrow> ('k \<times> u64) list" where
  "bump k [] = [(k, 1)]"
| "bump k ((j, n) # kvs) = (if k = j then (j, n + 1) # kvs else (j, n) # bump k kvs)"

definition count_of :: "'k \<Rightarrow> ('k \<times> u64) list \<Rightarrow> u64" where
  "count_of k kvs = (case map_of kvs k of None \<Rightarrow> 0 | Some n \<Rightarrow> n)"

lemma bump_keys: "fst ` set (bump k kvs) = insert k (fst ` set kvs)"
proof (induction kvs)
  case (Cons p kvs)
  then show ?case by (cases p) (simp add: insert_commute)
qed simp

lemma bump_present: "k \<in> fst ` set kvs \<Longrightarrow> List.map fst (bump k kvs) = List.map fst kvs"
proof (induction kvs)
  case (Cons p kvs)
  then show ?case by (cases p) (auto simp: image_iff)
qed simp

lemma bump_distinct: "distinct (List.map fst kvs) \<Longrightarrow> distinct (List.map fst (bump k kvs))"
proof (induction kvs)
  case (Cons p kvs)
  then show ?case using bump_keys [of k kvs] by (cases p) auto
qed simp

lemma bump_count: "count_of j (bump k kvs) = count_of j kvs + (if j = k then 1 else 0)"
proof (induction kvs)
  case (Cons p kvs)
  then show ?case by (cases p) (auto simp: count_of_def)
qed (simp add: count_of_def)

end
