(* ===== verification/Qmp.thy ===== *)
theory Qmp
  imports Json Model "HOL-Library.List_Lexorder" "HOL-Library.Char_ord" "HOL-Library.Product_Lexorder" "HOL-Library.AList" Complex_Main
begin

text \<open>
  The QMP client of \<open>internal/qemu/qmp.go\<close> and \<open>qmp_monitoring.go\<close>: one persistent stream on which
  commands are answered by number while events arrive between the answers. What arrives, and when
  reading breaks, is an arbitrary list; a caller's context is done from some check on, or never.
\<close>

section \<open>The connection\<close>

datatype ctx_error = CtxCanceled | CtxDeadlineExceeded

type_synonym ctx = "(nat \<times> ctx_error) option"

text \<open>\<open>ctx.Err()\<close> at the \<open>k\<close>-th check of a call: once it is not nil it stays so.\<close>

definition ctx_err :: "ctx \<Rightarrow> nat \<Rightarrow> ctx_error option" where
  "ctx_err cx k = (case cx of None \<Rightarrow> None | Some (n, e) \<Rightarrow> if n \<le> k then Some e else None)"

text \<open>What a read gives: the next value, or a failure (the peer closed, a deadline passed).\<close>

datatype arrival = Arrives json | Breaks string

record QEMUVersion =
  qv_major :: int
  qv_minor :: int
  qv_micro :: int
  qv_package :: string

type_synonym block_key = "string \<times> string \<times> bool"

text \<open>\<open>qm_stuck\<close> is the error field of \<open>json.Decoder\<close>, which keeps the first read failure for good;
  \<open>qm_sent\<close> lists the commands that were written, with their numbers.\<close>

record QMPClient =
  qm_arrivals :: "arrival list"
  qm_stuck :: "string option"
  qm_next :: u64
  qm_closed :: bool
  qm_version :: QEMUVersion
  qm_lifecycle :: "(string \<times> u64) list"
  qm_block :: "(block_key \<times> u64) list"
  qm_sent :: "(string \<times> json option \<times> u64) list"

record qmp_call =
  qc_ctx :: ctx
  qc_deadline_fails :: "string option"
  qc_write_fails :: "string option"

datatype qmp_error =
    QmpContext ctx_error | QmpClosed | QmpDeadline string | QmpWrite string | QmpDecode string
  | QmpOneOf | QmpBadError | QMPError string string json
  | QmpConnect string | QmpGreeting | QmpCapabilities | QmpNegotiate qmp_error
  | QmpBadStatus | UnexpectedStatusError string
  | QmpResponseDecode string | QmpNull | QmpMissingVNC | QmpVNCClients
  | QmpEmptyCommand | QmpNotString
  | QmpNotArray string | QmpBadDevice string string | QmpNoStats string | QmpNegative string string
  | QmpEmptyIOStatus string

type_synonym 'a qmp = "QMPClient \<Rightarrow> (qmp_error + 'a) \<times> QMPClient"

section \<open>Events\<close>

definition qmpDeviceLabelPattern :: "string \<Rightarrow> bool" where
  "qmpDeviceLabelPattern s \<longleftrightarrow>
     1 \<le> length s \<and> length s \<le> 128 \<and> list_all (\<lambda>c. is_alnum c \<or> c \<in> set ''._-'') s"

definition qmpLifecycleEventNames :: "(string \<times> string) list" where
  "qmpLifecycleEventNames =
     [(''SHUTDOWN'', ''shutdown''), (''POWERDOWN'', ''powerdown''), (''RESET'', ''reset''),
      (''STOP'', ''stop''), (''RESUME'', ''resume''), (''SUSPEND'', ''suspend''),
      (''SUSPEND_DISK'', ''suspend_disk''), (''WAKEUP'', ''wakeup''),
      (''GUEST_PANICKED'', ''guest_panicked''), (''WATCHDOG'', ''watchdog'')]"

record qmpResponse =
  qr_return :: "json option"
  qr_error :: "json option"
  qr_event :: string
  qr_id :: "json option"
  qr_data :: "json option"

definition decode_qmpResponse :: "json \<Rightarrow> qmpResponse option" where
  "decode_qmpResponse =
     into_struct (\<lambda>_ kvs.
       Option.bind (field into_raw None ''return'' kvs) (\<lambda>r.
       Option.bind (field into_raw None ''error'' kvs) (\<lambda>e.
       Option.bind (field into_string [] ''event'' kvs) (\<lambda>v.
       Option.bind (field into_raw None ''id'' kvs) (\<lambda>i.
       Option.bind (field into_raw None ''data'' kvs) (\<lambda>d.
         Some \<lparr>qr_return = r, qr_error = e, qr_event = v, qr_id = i, qr_data = d\<rparr>))))))
       \<lparr>qr_return = None, qr_error = None, qr_event = [], qr_id = None, qr_data = None\<rparr>"

definition block_operations :: "string list" where
  "block_operations = [''read'', ''write'', ''flush'', ''unmap'']"

text \<open>The key an event of a block device is counted under, if it is well formed. An absent \<open>data\<close>
  is no JSON text and is refused.\<close>

definition block_event_key :: "json option \<Rightarrow> block_key option" where
  "block_event_key data =
     (case data of
        None \<Rightarrow> None
      | Some v \<Rightarrow>
          Option.bind
            (into_struct (\<lambda>_ kvs.
               Option.bind (field into_string [] ''device'' kvs) (\<lambda>d.
               Option.bind (field into_string [] ''operation'' kvs) (\<lambda>opn.
               Option.bind (field into_bool False ''nospace'' kvs) (\<lambda>n. Some (d, opn, n)))))
               ([], [], False) v)
            (\<lambda>(d, opn, n).
               if (d \<noteq> [] \<and> \<not> qmpDeviceLabelPattern d) \<or> opn \<notin> set block_operations then None
               else Some (d, opn, n)))"

definition recordEvent :: "qmpResponse \<Rightarrow> QMPClient \<Rightarrow> QMPClient" where
  "recordEvent r c =
     (case map_of qmpLifecycleEventNames (qr_event r) of
        Some event \<Rightarrow> c\<lparr>qm_lifecycle := bump event (qm_lifecycle c)\<rparr>
      | None \<Rightarrow>
          if qr_event r \<noteq> ''BLOCK_IO_ERROR'' then c
          else (case block_event_key (qr_data r) of
                  None \<Rightarrow> c
                | Some key \<Rightarrow> c\<lparr>qm_block := bump key (qm_block c)\<rparr>))"

section \<open>Commands\<close>

definition numericID :: "json option \<Rightarrow> int option" where
  "numericID raw = (case raw of None \<Rightarrow> None | Some v \<Rightarrow> into_int64 0 v)"

definition has_error :: "qmpResponse \<Rightarrow> bool" where
  "has_error r \<longleftrightarrow> qr_error r \<noteq> None \<and> qr_error r \<noteq> Some JNull"

definition has_return :: "qmpResponse \<Rightarrow> bool" where "has_return r \<longleftrightarrow> qr_return r \<noteq> None"

text \<open>The structured error object; \<open>None\<close> when it does not decode or has no class.\<close>

definition qmp_error_object :: "json \<Rightarrow> qmp_error option" where
  "qmp_error_object v =
     Option.bind
       (into_struct (\<lambda>_ kvs.
          Option.bind (field into_string [] ''class'' kvs) (\<lambda>k.
          Option.bind (field into_string [] ''desc'' kvs) (\<lambda>d. Some (k, d)))) ([], []) v)
       (\<lambda>(k, d). if k = [] then None else Some (QMPError k d v))"

definition response_result :: "qmpResponse \<Rightarrow> qmp_error + json" where
  "response_result r =
     (if has_error r = has_return r then Inl QmpOneOf
      else if has_error r then
        Inl (case qmp_error_object (the (qr_error r)) of None \<Rightarrow> QmpBadError | Some e \<Rightarrow> e)
      else Inr (the (qr_return r)))"

definition read_failed :: "ctx \<Rightarrow> string \<Rightarrow> qmp_error" where
  "read_failed cx e = (case ctx_err cx 5 of Some ce \<Rightarrow> QmpContext ce | None \<Rightarrow> QmpDecode e)"

text \<open>The loop that drains the stream up to the answer with number \<open>i\<close>.\<close>

fun await_response :: "ctx \<Rightarrow> int \<Rightarrow> arrival list \<Rightarrow> json qmp" where
  "await_response cx i [] c =
     (Inl (read_failed cx ''EOF''), c\<lparr>qm_arrivals := [], qm_stuck := Some ''EOF''\<rparr>)"
| "await_response cx i (Breaks e # rest) c =
     (Inl (read_failed cx e), c\<lparr>qm_arrivals := rest, qm_stuck := Some e\<rparr>)"
| "await_response cx i (Arrives v # rest) c =
     (case decode_qmpResponse v of
        None \<Rightarrow> (Inl (read_failed cx ''type''), c\<lparr>qm_arrivals := rest\<rparr>)
      | Some r \<Rightarrow>
          if qr_event r \<noteq> [] then await_response cx i rest (recordEvent r c)
          else if numericID (qr_id r) \<noteq> Some i then await_response cx i rest c
          else (response_result r, c\<lparr>qm_arrivals := rest\<rparr>))"

definition setContextDeadline :: "qmp_call \<Rightarrow> nat \<Rightarrow> qmp_error option" where
  "setContextDeadline x k =
     (case ctx_err (qc_ctx x) k of
        Some e \<Rightarrow> Some (QmpContext e)
      | None \<Rightarrow> map_option QmpDeadline (qc_deadline_fails x))"

definition executeLocked :: "qmp_call \<Rightarrow> string \<Rightarrow> json option \<Rightarrow> json qmp" where
  "executeLocked x command arguments c =
     (if qm_closed c then (Inl QmpClosed, c)
      else case ctx_err (qc_ctx x) 2 of
        Some e \<Rightarrow> (Inl (QmpContext e), c)
      | None \<Rightarrow>
          (case setContextDeadline x 3 of
             Some e \<Rightarrow> (Inl e, c)
           | None \<Rightarrow>
               let i = qm_next c + 1; c = c\<lparr>qm_next := i\<rparr>
               in case qc_write_fails x of
                    Some e \<Rightarrow>
                      (Inl (case ctx_err (qc_ctx x) 4 of Some ce \<Rightarrow> QmpContext ce | None \<Rightarrow> QmpWrite e), c)
                  | None \<Rightarrow>
                      let c = c\<lparr>qm_sent := qm_sent c @ [(command, arguments, i)]\<rparr>
                      in case qm_stuck c of
                           Some e \<Rightarrow> (Inl (read_failed (qc_ctx x) e), c)
                         | None \<Rightarrow> await_response (qc_ctx x) (sint i) (qm_arrivals c) c))"

definition qmp_execute :: "qmp_call \<Rightarrow> string \<Rightarrow> json option \<Rightarrow> json qmp" where
  "qmp_execute x command arguments c =
     (case ctx_err (qc_ctx x) 0 of
        Some e \<Rightarrow> (Inl (QmpContext e), c)
      | None \<Rightarrow>
          (case ctx_err (qc_ctx x) 1 of
             Some e \<Rightarrow> (Inl (QmpContext e), c)
           | None \<Rightarrow> executeLocked x command arguments c))"

text \<open>\<open>Close\<close>: the error is that of closing the socket.\<close>

definition qmp_close :: "string option \<Rightarrow> QMPClient \<Rightarrow> string option \<times> QMPClient" where
  "qmp_close err c = (if qm_closed c then (None, c) else (err, c\<lparr>qm_closed := True\<rparr>))"

section \<open>Opening a client\<close>

type_synonym greeting = "((int \<times> int \<times> int) \<times> string) \<times> string list option"

definition into_qemu_version :: "(int \<times> int \<times> int) into" where
  "into_qemu_version =
     into_struct (\<lambda>(a, b, c) kvs.
       Option.bind (field into_int64 a ''major'' kvs) (\<lambda>a.
       Option.bind (field into_int64 b ''minor'' kvs) (\<lambda>b.
       Option.bind (field into_int64 c ''micro'' kvs) (\<lambda>c. Some (a, b, c)))))"

definition into_version :: "((int \<times> int \<times> int) \<times> string) into" where
  "into_version =
     into_struct (\<lambda>(q, p) kvs.
       Option.bind (field into_qemu_version q ''qemu'' kvs) (\<lambda>q.
       Option.bind (field into_string p ''package'' kvs) (\<lambda>p. Some (q, p))))"

definition into_greeting :: "greeting into" where
  "into_greeting =
     into_struct (\<lambda>g kvs.
       field (into_struct (\<lambda>(v, caps) kvs.
                Option.bind (field into_version v ''version'' kvs) (\<lambda>v.
                Option.bind (field (into_slice [] into_string) caps ''capabilities'' kvs) (\<lambda>caps.
                  Some (v, caps))))) g ''QMP'' kvs)"

definition greeting_version :: "greeting \<Rightarrow> qmp_error + QEMUVersion" where
  "greeting_version g =
     (case g of (((major, minor, micro), package), caps) \<Rightarrow>
        if major \<le> 0 \<or> minor < 0 \<or> micro < 0 \<or> caps = None then Inl QmpGreeting
        else Inr \<lparr>qv_major = major, qv_minor = minor, qv_micro = micro, qv_package = package\<rparr>)"

definition decode_greeting :: "qmp_call \<Rightarrow> greeting qmp" where
  "decode_greeting x c =
     (let failed = (\<lambda>e. Inl (case ctx_err (qc_ctx x) 1 of Some ce \<Rightarrow> QmpContext ce | None \<Rightarrow> QmpDecode e))
      in case qm_arrivals c of
           [] \<Rightarrow> (failed ''EOF'', c\<lparr>qm_stuck := Some ''EOF''\<rparr>)
         | Breaks e # rest \<Rightarrow> (failed e, c\<lparr>qm_arrivals := rest, qm_stuck := Some e\<rparr>)
         | Arrives v # rest \<Rightarrow>
             (case into_greeting (((0, 0, 0), []), None) v of
                None \<Rightarrow> (failed ''type'', c\<lparr>qm_arrivals := rest\<rparr>)
              | Some g \<Rightarrow> (Inr g, c\<lparr>qm_arrivals := rest\<rparr>)))"

definition is_object :: "json \<Rightarrow> bool" where
  "is_object v \<longleftrightarrow> (case v of JObject _ \<Rightarrow> True | _ \<Rightarrow> False)"

definition initialize :: "qmp_call \<Rightarrow> unit qmp" where
  "initialize x =
     bindS (reject (setContextDeadline x 0)) (\<lambda>_.
     bindS (decode_greeting x) (\<lambda>g.
     bindS (lift_result (greeting_version g)) (\<lambda>version.
     bindS (\<lambda>c. (Inr (), c\<lparr>qm_version := version\<rparr>)) (\<lambda>_.
     bindS (\<lambda>c. case executeLocked x ''qmp_capabilities'' None c of
                  (Inl e, c) \<Rightarrow> (Inl (QmpNegotiate e), c) | (Inr v, c) \<Rightarrow> (Inr v, c)) (\<lambda>v.
       if is_object v then lift_result (Inr ()) else lift_result (Inl QmpCapabilities))))))"

definition fresh_client :: "arrival list \<Rightarrow> QMPClient" where
  "fresh_client arrivals =
     \<lparr>qm_arrivals = arrivals, qm_stuck = None, qm_next = 0, qm_closed = False,
      qm_version = \<lparr>qv_major = 0, qv_minor = 0, qv_micro = 0, qv_package = []\<rparr>,
      qm_lifecycle = List.map (\<lambda>(_, event). (event, 0)) qmpLifecycleEventNames,
      qm_block = [], qm_sent = []\<rparr>"

text \<open>The dial either fails or gives a connection on which \<open>arrivals\<close> arrive.\<close>

definition NewQMPClientContext :: "qmp_call \<Rightarrow> string + arrival list \<Rightarrow> qmp_error + QMPClient" where
  "NewQMPClientContext x dial =
     (case dial of
        Inl e \<Rightarrow> Inl (QmpConnect e)
      | Inr arrivals \<Rightarrow>
          (case initialize x (fresh_client arrivals) of
             (Inl e, _) \<Rightarrow> Inl e
           | (Inr _, c) \<Rightarrow> Inr c))"

section \<open>Queries\<close>

definition status_of :: "json \<Rightarrow> qmp_error + string" where
  "status_of v =
     (case into_struct (\<lambda>_ kvs. field (into_pointer [] into_string) None ''status'' kvs) None v of
        None \<Rightarrow> Inl (QmpResponseDecode ''query-status'')
      | Some None \<Rightarrow> Inl QmpBadStatus
      | Some (Some s) \<Rightarrow> if s = [] then Inl QmpBadStatus else Inr s)"

definition RawStatus :: "qmp_call \<Rightarrow> string qmp" where
  "RawStatus x = bindS (qmp_execute x ''query-status'' None) (\<lambda>v. lift_result (status_of v))"

text \<open>The state is reported with an error as well: \<open>failed\<close>.\<close>

definition qmp_status :: "qmp_call \<Rightarrow> QMPClient \<Rightarrow> (run_state \<times> qmp_error option) \<times> QMPClient" where
  "qmp_status x c =
     (case RawStatus x c of
        (Inl e, c) \<Rightarrow> ((RunStateFailed, Some e), c)
      | (Inr status, c) \<Rightarrow>
          (if status = RunStateRunning then (RunStateRunning, None)
           else if status = RunStatePaused then (RunStatePaused, None)
           else (RunStateFailed, Some (UnexpectedStatusError status)), c))"

record VNCInfo =
  vi_enabled :: bool
  vi_host :: string
  vi_service :: string
  vi_family :: string
  vi_auth :: string

definition vnc_members :: "string list" where
  "vnc_members = [''enabled'', ''host'', ''service'', ''family'', ''auth'', ''clients'']"

text \<open>\<open>None\<close>: it does not decode; \<open>Some None\<close>: it is null. A raw message is one value, so nothing
  trails it.\<close>

definition decode_vnc :: "json \<Rightarrow> (VNCInfo \<times> json option list option) option option" where
  "decode_vnc =
     into_pointer (\<lparr>vi_enabled = False, vi_host = [], vi_service = [], vi_family = [], vi_auth = []\<rparr>, None)
       (into_struct (\<lambda>_ kvs.
          if \<not> known_only vnc_members kvs then None
          else
          Option.bind (field into_bool False ''enabled'' kvs) (\<lambda>en.
          Option.bind (field into_string [] ''host'' kvs) (\<lambda>h.
          Option.bind (field into_string [] ''service'' kvs) (\<lambda>s.
          Option.bind (field into_string [] ''family'' kvs) (\<lambda>f.
          Option.bind (field into_string [] ''auth'' kvs) (\<lambda>a.
          Option.bind (field (into_slice None into_raw) None ''clients'' kvs) (\<lambda>cl.
            Some (\<lparr>vi_enabled = en, vi_host = h, vi_service = s, vi_family = f, vi_auth = a\<rparr>, cl)))))))))
       None"

definition vnc_of :: "json \<Rightarrow> qmp_error + VNCInfo" where
  "vnc_of v =
     (case decode_vnc v of
        None \<Rightarrow> Inl (QmpResponseDecode ''query-vnc'')
      | Some None \<Rightarrow> Inl QmpNull
      | Some (Some (info, clients)) \<Rightarrow>
          if vi_enabled info \<and> (vi_host info = [] \<or> vi_service info = [] \<or> vi_family info = [] \<or> vi_auth info = [])
          then Inl QmpMissingVNC
          else if vi_enabled info \<and> clients \<noteq> None \<and> clients \<noteq> Some [] then Inl QmpVNCClients
          else Inr info)"

definition QueryVNC :: "qmp_call \<Rightarrow> VNCInfo qmp" where
  "QueryVNC x = bindS (qmp_execute x ''query-vnc'' None) (\<lambda>v. lift_result (vnc_of v))"

definition output_of :: "json \<Rightarrow> qmp_error + string" where
  "output_of v =
     (case into_pointer [] into_string None v of
        None \<Rightarrow> Inl (QmpResponseDecode ''human-monitor-command'')
      | Some None \<Rightarrow> Inl QmpNotString
      | Some (Some s) \<Rightarrow> Inr s)"

definition HumanMonitorCommand :: "qmp_call \<Rightarrow> string \<Rightarrow> string qmp" where
  "HumanMonitorCommand x line =
     (if blank line then lift_result (Inl QmpEmptyCommand)
      else bindS (qmp_execute x ''human-monitor-command'' (Some (JObject [(''command-line'', JString line)])))
             (\<lambda>v. lift_result (output_of v)))"

definition SystemPowerdown :: "qmp_call \<Rightarrow> unit qmp" where
  "SystemPowerdown x = bindS (qmp_execute x ''system_powerdown'' None) (\<lambda>_. lift_result (Inr ()))"

definition qmp_quit :: "qmp_call \<Rightarrow> unit qmp" where
  "qmp_quit x = bindS (qmp_execute x ''quit'' None) (\<lambda>_. lift_result (Inr ()))"

record QEMUEventCounters =
  ec_lifecycle :: "(string \<times> u64) list"
  ec_block :: "(block_key \<times> u64) list"

definition EventCounters :: "qmp_call \<Rightarrow> QEMUEventCounters qmp" where
  "EventCounters x c =
     (case ctx_err (qc_ctx x) 0 of
        Some e \<Rightarrow> (Inl (QmpContext e), c)
      | None \<Rightarrow> (Inr \<lparr>ec_lifecycle = qm_lifecycle c, ec_block = sort_key fst (qm_block c)\<rparr>, c))"

section \<open>Block devices (\<open>qmp_monitoring.go\<close>)\<close>

text \<open>The counters of a record by their member name; absent ones are nil.\<close>

definition counter_members :: "string list" where
  "counter_members =
     [''rd_bytes'', ''wr_bytes'', ''unmap_bytes'', ''rd_operations'', ''wr_operations'',
      ''flush_operations'', ''unmap_operations'']"

definition time_members :: "string list" where
  "time_members = [''rd_total_time_ns'', ''wr_total_time_ns'', ''flush_total_time_ns'', ''unmap_total_time_ns'']"

definition operation_members :: "(string \<times> string) list" where
  "operation_members =
     [(''read'', ''rd_operations''), (''write'', ''wr_operations''), (''flush'', ''flush_operations''),
      (''unmap'', ''unmap_operations'')]"

definition stat_members :: "string list" where
  "stat_members =
     counter_members @ time_members @ List.map (\<lambda>(_, m). ''failed_'' @ m) operation_members
     @ List.map (\<lambda>(_, m). ''invalid_'' @ m) operation_members"

type_synonym qmpBlockStats = "string \<Rightarrow> int option"

fun decode_stats :: "string list \<Rightarrow> qmpBlockStats into" where
  "decode_stats ms s JNull = Some s"
| "decode_stats [] s (JObject kvs) = Some s"
| "decode_stats (m # ms) s (JObject kvs) =
     Option.bind (field (into_pointer 0 into_int64) (s m) m kvs)
       (\<lambda>v. decode_stats ms (s(m := v)) (JObject kvs))"
| "decode_stats ms s _ = None"

record qmpBlockStatsRecord =
  br_device :: string
  br_stats :: "qmpBlockStats option"
  br_idle :: "int option"

definition into_stats_record :: "qmpBlockStatsRecord into" where
  "into_stats_record =
     into_struct (\<lambda>r kvs.
       Option.bind (field into_string (br_device r) ''device'' kvs) (\<lambda>d.
       Option.bind (field (into_pointer (\<lambda>_. None) (decode_stats stat_members)) (br_stats r) ''stats'' kvs) (\<lambda>s.
       Option.bind (field (into_pointer 0 into_int64) (br_idle r) ''idle_time_ns'' kvs) (\<lambda>i.
         Some \<lparr>br_device = d, br_stats = s, br_idle = i\<rparr>))))"

definition empty_stats_record :: qmpBlockStatsRecord where
  "empty_stats_record = \<lparr>br_device = [], br_stats = None, br_idle = None\<rparr>"

record QEMUBlockDevice =
  bd_device :: string
  bd_read_bytes :: "u64 option"
  bd_write_bytes :: "u64 option"
  bd_unmap_bytes :: "u64 option"
  bd_read_operations :: "u64 option"
  bd_write_operations :: "u64 option"
  bd_flush_operations :: "u64 option"
  bd_unmap_operations :: "u64 option"
  bd_read_seconds :: "rat option"
  bd_write_seconds :: "rat option"
  bd_flush_seconds :: "rat option"
  bd_unmap_seconds :: "rat option"
  bd_failed :: "(string \<times> u64) list"
  bd_invalid :: "(string \<times> u64) list"
  bd_idle_seconds :: "rat option"
  bd_io_status :: "string option"

definition optionalUint64 :: "string \<Rightarrow> int option \<Rightarrow> string + u64 option" where
  "optionalUint64 name value =
     (case value of
        None \<Rightarrow> Inr None
      | Some v \<Rightarrow> if v < 0 then Inl name else Inr (Some (word_of_int v)))"

text \<open>The quotient is exact here; the code rounds it to a \<open>float64\<close>.\<close>

definition optionalNanoseconds :: "string \<Rightarrow> int option \<Rightarrow> string + rat option" where
  "optionalNanoseconds name value =
     bindE (optionalUint64 name value) (\<lambda>v. Inr (map_option (\<lambda>n. of_int (uint n) / 1000000000) v))"

fun counter_map :: "string \<Rightarrow> qmpBlockStats \<Rightarrow> (string \<times> string) list \<Rightarrow> string + (string \<times> u64) list" where
  "counter_map kind s [] = Inr []"
| "counter_map kind s ((operation, m) # ms) =
     bindE (optionalUint64 (kind @ operation @ ''_operations'') (s (kind @ m))) (\<lambda>v.
     bindE (counter_map kind s ms) (\<lambda>rest.
       Inr (case v of None \<Rightarrow> rest | Some n \<Rightarrow> (operation, n) # rest)))"

definition normalizeBlockStats :: "string \<Rightarrow> qmpBlockStats \<Rightarrow> int option \<Rightarrow> string + QEMUBlockDevice" where
  "normalizeBlockStats device s idle =
     bindE (optionalUint64 ''rd_bytes'' (s ''rd_bytes'')) (\<lambda>rb.
     bindE (optionalUint64 ''wr_bytes'' (s ''wr_bytes'')) (\<lambda>wb.
     bindE (optionalUint64 ''unmap_bytes'' (s ''unmap_bytes'')) (\<lambda>ub.
     bindE (optionalUint64 ''rd_operations'' (s ''rd_operations'')) (\<lambda>ro.
     bindE (optionalUint64 ''wr_operations'' (s ''wr_operations'')) (\<lambda>wo.
     bindE (optionalUint64 ''flush_operations'' (s ''flush_operations'')) (\<lambda>fo.
     bindE (optionalUint64 ''unmap_operations'' (s ''unmap_operations'')) (\<lambda>uo.
     bindE (optionalNanoseconds ''rd_total_time_ns'' (s ''rd_total_time_ns'')) (\<lambda>rt.
     bindE (optionalNanoseconds ''wr_total_time_ns'' (s ''wr_total_time_ns'')) (\<lambda>wt.
     bindE (optionalNanoseconds ''flush_total_time_ns'' (s ''flush_total_time_ns'')) (\<lambda>ft.
     bindE (optionalNanoseconds ''unmap_total_time_ns'' (s ''unmap_total_time_ns'')) (\<lambda>ut.
     bindE (optionalNanoseconds ''idle_time_ns'' idle) (\<lambda>idle.
     bindE (counter_map ''failed_'' s operation_members) (\<lambda>failed.
     bindE (counter_map ''invalid_'' s operation_members) (\<lambda>invalid.
       Inr \<lparr>bd_device = device, bd_read_bytes = rb, bd_write_bytes = wb, bd_unmap_bytes = ub,
            bd_read_operations = ro, bd_write_operations = wo, bd_flush_operations = fo,
            bd_unmap_operations = uo, bd_read_seconds = rt, bd_write_seconds = wt,
            bd_flush_seconds = ft, bd_unmap_seconds = ut, bd_failed = failed, bd_invalid = invalid,
            bd_idle_seconds = idle, bd_io_status = None\<rparr>))))))))))))))"

fun stats_devices ::
  "qmpBlockStatsRecord list \<Rightarrow> (string \<times> QEMUBlockDevice) list \<Rightarrow> qmp_error + (string \<times> QEMUBlockDevice) list" where
  "stats_devices [] devices = Inr devices"
| "stats_devices (r # rs) devices =
     (if br_device r = [] then stats_devices rs devices
      else if \<not> qmpDeviceLabelPattern (br_device r) then Inl (QmpBadDevice ''query-blockstats'' (br_device r))
      else case br_stats r of
        None \<Rightarrow> Inl (QmpNoStats (br_device r))
      | Some s \<Rightarrow>
          (case normalizeBlockStats (br_device r) s (br_idle r) of
             Inl m \<Rightarrow> Inl (QmpNegative (br_device r) m)
           | Inr device \<Rightarrow> stats_devices rs (AList.update (br_device r) device devices)))"

definition into_block_record :: "(string \<times> string option) into" where
  "into_block_record =
     into_struct (\<lambda>(d, st) kvs.
       Option.bind (field into_string d ''device'' kvs) (\<lambda>d.
       Option.bind (field (into_pointer [] into_string) st ''io-status'' kvs) (\<lambda>st. Some (d, st))))"

fun block_statuses ::
  "(string \<times> string option) list \<Rightarrow> (string \<times> QEMUBlockDevice) list \<Rightarrow> qmp_error + (string \<times> QEMUBlockDevice) list" where
  "block_statuses [] devices = Inr devices"
| "block_statuses ((d, st) # rs) devices =
     (if d = [] then block_statuses rs devices
      else if \<not> qmpDeviceLabelPattern d then Inl (QmpBadDevice ''query-block'' d)
      else case (map_of devices d, st) of
        (Some device, Some s) \<Rightarrow>
          if s = [] then Inl (QmpEmptyIOStatus d)
          else block_statuses rs (AList.update d (device\<lparr>bd_io_status := Some s\<rparr>) devices)
      | _ \<Rightarrow> block_statuses rs devices)"

definition decode_array :: "string \<Rightarrow> 'a \<Rightarrow> 'a into \<Rightarrow> json \<Rightarrow> qmp_error + 'a list" where
  "decode_array command zero d v =
     (case into_slice zero d None v of
        None \<Rightarrow> Inl (QmpResponseDecode command)
      | Some None \<Rightarrow> Inl (QmpNotArray command)
      | Some (Some xs) \<Rightarrow> Inr xs)"

definition QueryBlocks :: "qmp_call \<Rightarrow> QEMUBlockDevice list qmp" where
  "QueryBlocks x =
     bindS (qmp_execute x ''query-blockstats'' None) (\<lambda>v.
     bindS (lift_result (decode_array ''query-blockstats'' empty_stats_record into_stats_record v)) (\<lambda>records.
     bindS (lift_result (stats_devices records [])) (\<lambda>devices.
     bindS (qmp_execute x ''query-block'' None) (\<lambda>v.
     bindS (lift_result (decode_array ''query-block'' ([], None) into_block_record v)) (\<lambda>records.
     bindS (lift_result (block_statuses records devices)) (\<lambda>devices.
       lift_result (Inr (sort_key bd_device (List.map snd devices)))))))))"

section \<open>Replies and events\<close>

lemma recordEvent_simps [simp]:
  "qm_arrivals (recordEvent r c) = qm_arrivals c" "qm_stuck (recordEvent r c) = qm_stuck c"
  "qm_next (recordEvent r c) = qm_next c" "qm_closed (recordEvent r c) = qm_closed c"
  "qm_sent (recordEvent r c) = qm_sent c" "qm_version (recordEvent r c) = qm_version c"
  by (simp_all add: recordEvent_def split: option.split)

text \<open>An arrival that is not the answer to command \<open>i\<close>, and what it adds to the counters.\<close>

definition passed_over :: "int \<Rightarrow> arrival \<Rightarrow> bool" where
  "passed_over i a \<longleftrightarrow>
     (case a of
        Breaks _ \<Rightarrow> False
      | Arrives v \<Rightarrow>
          (case decode_qmpResponse v of
             None \<Rightarrow> False | Some r \<Rightarrow> qr_event r \<noteq> [] \<or> numericID (qr_id r) \<noteq> Some i))"

definition note_arrival :: "arrival \<Rightarrow> QMPClient \<Rightarrow> QMPClient" where
  "note_arrival a c =
     (case a of
        Breaks _ \<Rightarrow> c
      | Arrives v \<Rightarrow>
          (case decode_qmpResponse v of
             None \<Rightarrow> c | Some r \<Rightarrow> if qr_event r \<noteq> [] then recordEvent r c else c))"

lemma note_arrival_simps [simp]:
  "qm_arrivals (note_arrival a c) = qm_arrivals c" "qm_stuck (note_arrival a c) = qm_stuck c"
  "qm_next (note_arrival a c) = qm_next c" "qm_closed (note_arrival a c) = qm_closed c"
  "qm_sent (note_arrival a c) = qm_sent c" "qm_version (note_arrival a c) = qm_version c"
  by (simp_all add: note_arrival_def split: arrival.split option.split)

lemma await_passed_over:
  "list_all (passed_over i) pre \<Longrightarrow>
   await_response cx i (pre @ rest) c = await_response cx i rest (fold note_arrival pre c)"
proof (induction pre arbitrary: c)
  case (Cons a pre)
  then show ?case by (cases a) (auto simp: passed_over_def note_arrival_def split: option.splits)
qed simp

lemma fold_note_simps [simp]:
  "qm_arrivals (fold note_arrival as c) = qm_arrivals c" "qm_stuck (fold note_arrival as c) = qm_stuck c"
  "qm_next (fold note_arrival as c) = qm_next c" "qm_closed (fold note_arrival as c) = qm_closed c"
  "qm_sent (fold note_arrival as c) = qm_sent c"
  by (induction as arbitrary: c) simp_all

text \<open>What the loop did: it passed over a part of the stream, then stopped.\<close>

lemma await_response_shape:
  "\<exists>pre rest. as = pre @ rest \<and> list_all (passed_over i) pre
     \<and> (rest = [] \<or> \<not> passed_over i (hd rest))"
proof -
  have "as = takeWhile (passed_over i) as @ dropWhile (passed_over i) as" by simp
  moreover have "list_all (passed_over i) (takeWhile (passed_over i) as)"
    by (auto simp: list_all_iff dest: set_takeWhileD)
  moreover have "dropWhile (passed_over i) as = [] \<or> \<not> passed_over i (hd (dropWhile (passed_over i) as))"
    using hd_dropWhile by blast
  ultimately show ?thesis by blast
qed

lemma await_response_success:
  assumes "await_response cx i as c = (Inr v, c')"
  shows "\<exists>pre w r post. as = pre @ Arrives w # post \<and> list_all (passed_over i) pre
     \<and> decode_qmpResponse w = Some r \<and> qr_event r = [] \<and> numericID (qr_id r) = Some i
     \<and> response_result r = Inr v \<and> c' = (fold note_arrival pre c)\<lparr>qm_arrivals := post\<rparr>"
proof -
  obtain pre rest where pre: "as = pre @ rest" "list_all (passed_over i) pre"
    "rest = [] \<or> \<not> passed_over i (hd rest)" using await_response_shape by metis
  with assms have run: "await_response cx i rest (fold note_arrival pre c) = (Inr v, c')"
    using await_passed_over by metis
  show ?thesis
  proof (cases rest)
    case Nil
    with run show ?thesis by simp
  next
    case (Cons a post)
    then show ?thesis using run pre
      by (cases a) (auto simp: passed_over_def split: option.splits if_splits)
  qed
qed

lemma executeLocked_success:
  assumes "executeLocked x command arguments c = (Inr v, c')"
  shows "qm_closed c = False \<and> qm_stuck c = None
    \<and> await_response (qc_ctx x) (sint (qm_next c + 1)) (qm_arrivals c)
        (c\<lparr>qm_next := qm_next c + 1, qm_sent := qm_sent c @ [(command, arguments, qm_next c + 1)]\<rparr>) = (Inr v, c')"
  using assms by (auto simp: executeLocked_def Let_def split: if_splits option.splits)

lemma qmp_execute_success:
  "qmp_execute x command arguments c = (Inr v, c') \<Longrightarrow> executeLocked x command arguments c = (Inr v, c')"
  by (auto simp: qmp_execute_def split: option.splits)

text \<open>C12. A command that succeeds returns the answer with its own number, which is one more than
  that of the last command: everything that arrived before that answer was an event or the answer
  to another command, the events among it are counted, and what arrived after it stays for the
  next command.\<close>

theorem qmp_reply_is_own:
  assumes "qmp_execute x command arguments c = (Inr v, c')"
  shows "\<exists>pre w r post. qm_arrivals c = pre @ Arrives w # post
     \<and> list_all (passed_over (sint (qm_next c + 1))) pre
     \<and> decode_qmpResponse w = Some r \<and> qr_event r = [] \<and> numericID (qr_id r) = Some (sint (qm_next c + 1))
     \<and> qr_return r = Some v \<and> \<not> has_error r
     \<and> c' = (fold note_arrival pre c)\<lparr>qm_arrivals := post, qm_next := qm_next c + 1,
              qm_sent := qm_sent c @ [(command, arguments, qm_next c + 1)]\<rparr>"
proof -
  let ?c = "c\<lparr>qm_next := qm_next c + 1, qm_sent := qm_sent c @ [(command, arguments, qm_next c + 1)]\<rparr>"
  have commute: "fold note_arrival pre ?c
      = (fold note_arrival pre c)\<lparr>qm_next := qm_next c + 1, qm_sent := qm_sent c @ [(command, arguments, qm_next c + 1)]\<rparr>"
    for pre
  proof (induction pre rule: rev_induct)
    case (snoc a pre)
    then show ?case
      by (simp add: note_arrival_def recordEvent_def split: arrival.split option.split)
  qed simp
  obtain pre w r post where *: "qm_arrivals c = pre @ Arrives w # post"
    "list_all (passed_over (sint (qm_next c + 1))) pre" "decode_qmpResponse w = Some r" "qr_event r = []"
    "numericID (qr_id r) = Some (sint (qm_next c + 1))" "response_result r = Inr v"
    "c' = (fold note_arrival pre ?c)\<lparr>qm_arrivals := post\<rparr>"
    using await_response_success executeLocked_success [OF qmp_execute_success [OF assms]] by meson
  moreover from *(6) have "qr_return r = Some v \<and> \<not> has_error r"
    by (auto simp: response_result_def has_return_def split: if_splits)
  ultimately show ?thesis unfolding commute by (intro exI conjI) (auto simp: commute)
qed

definition live_call :: qmp_call where
  "live_call = \<lparr>qc_ctx = None, qc_deadline_fails = None, qc_write_fails = None\<rparr>"

definition answer :: "string \<Rightarrow> json \<Rightarrow> arrival" where
  "answer i v = Arrives (JObject [(''return'', v), (''id'', JNumber i)])"

definition event_arrival :: "string \<Rightarrow> arrival" where
  "event_arrival name = Arrives (JObject [(''event'', JString name)])"

definition sample_stream :: "arrival list" where
  "sample_stream = [event_arrival ''STOP'', answer ''7'' (JBool False), answer ''1'' (JBool True), event_arrival ''RESUME'']"

lemma sample_execute:
  "fst (qmp_execute live_call ''query-status'' None (fresh_client sample_stream)) = Inr (JBool True)"
  "qm_arrivals (snd (qmp_execute live_call ''query-status'' None (fresh_client sample_stream))) = [event_arrival ''RESUME'']"
  by code_simp+

lemma qmp_reply_is_own_witness:
  "\<exists>pre w r post. sample_stream = pre @ Arrives w # post \<and> list_all (passed_over 1) pre
     \<and> decode_qmpResponse w = Some r \<and> qr_return r = Some (JBool True)"
proof -
  let ?c = "fresh_client sample_stream"
  obtain c' where "qmp_execute live_call ''query-status'' None ?c = (Inr (JBool True), c')"
    using sample_execute(1) by (metis prod.collapse)
  from qmp_reply_is_own [OF this] show ?thesis by (auto simp: fresh_client_def)
qed

section \<open>The counters keep their shape\<close>

definition block_key_ok :: "block_key \<Rightarrow> bool" where
  "block_key_ok k = (case k of (d, opn, _) \<Rightarrow> (d = [] \<or> qmpDeviceLabelPattern d) \<and> opn \<in> set block_operations)"

definition wf_qmp :: "QMPClient \<Rightarrow> bool" where
  "wf_qmp c \<longleftrightarrow> List.map fst (qm_lifecycle c) = List.map snd qmpLifecycleEventNames
     \<and> distinct (List.map fst (qm_block c)) \<and> list_all (\<lambda>(k, _). block_key_ok k) (qm_block c)"

lemma wf_qmp_fresh [simp]: "wf_qmp (fresh_client as)"
  by (simp add: wf_qmp_def fresh_client_def comp_def case_prod_beta)

lemma wf_qmp_update [simp]:
  "wf_qmp (c\<lparr>qm_arrivals := as\<rparr>) = wf_qmp c" "wf_qmp (c\<lparr>qm_stuck := st\<rparr>) = wf_qmp c"
  "wf_qmp (c\<lparr>qm_next := n\<rparr>) = wf_qmp c" "wf_qmp (c\<lparr>qm_sent := ss\<rparr>) = wf_qmp c"
  "wf_qmp (c\<lparr>qm_closed := b\<rparr>) = wf_qmp c" "wf_qmp (c\<lparr>qm_version := v\<rparr>) = wf_qmp c"
  by (simp_all add: wf_qmp_def)

lemma block_event_key_ok: "block_event_key data = Some k \<Longrightarrow> block_key_ok k"
  by (auto simp: block_event_key_def block_key_ok_def bind_eq_Some_conv split: option.splits if_splits)

lemma list_all_bump:
  "list_all (\<lambda>(k, _). P k) kvs \<Longrightarrow> P k \<Longrightarrow> list_all (\<lambda>(k, _). P k) (bump k kvs)"
  by (induction k kvs rule: bump.induct) auto

lemma wf_qmp_recordEvent [simp]: "wf_qmp c \<Longrightarrow> wf_qmp (recordEvent r c)"
proof -
  assume wf: "wf_qmp c"
  have "map_of qmpLifecycleEventNames (qr_event r) = Some event \<Longrightarrow> event \<in> fst ` set (qm_lifecycle c)" for event
    using wf by (metis (no_types, lifting) wf_qmp_def image_set map_of_SomeD list.set_map imageI snd_conv)
  with wf show ?thesis
    by (auto simp: recordEvent_def wf_qmp_def bump_present bump_distinct block_event_key_ok list_all_bump
        split: option.splits)
qed

lemma wf_qmp_await [simp]: "wf_qmp c \<Longrightarrow> wf_qmp (snd (await_response cx i as c))"
  by (induction cx i as c rule: await_response.induct) (auto split: option.splits)

lemma wf_qmp_executeLocked [simp]: "wf_qmp c \<Longrightarrow> wf_qmp (snd (executeLocked x command arguments c))"
  by (auto simp: executeLocked_def Let_def split: option.splits)

lemma wf_qmp_execute [simp]: "wf_qmp c \<Longrightarrow> wf_qmp (snd (qmp_execute x command arguments c))"
  by (auto simp: qmp_execute_def split: option.splits)

lemma bindS_keeps:
  "(P s \<Longrightarrow> P (snd (m s))) \<Longrightarrow> (\<And>a t. P t \<Longrightarrow> P (snd (k a t))) \<Longrightarrow> P s \<Longrightarrow> P (snd (bindS m k s))"
  by (auto simp: bindS_def split: prod.splits sum.splits)

lemma wf_qmp_decode_greeting: "wf_qmp c \<Longrightarrow> wf_qmp (snd (decode_greeting x c))"
  by (auto simp: decode_greeting_def Let_def split: list.splits arrival.splits option.splits)

lemma wf_qmp_negotiate:
  "wf_qmp c \<Longrightarrow> wf_qmp (snd (case executeLocked x m a c of
     (Inl e, c) \<Rightarrow> (Inl (QmpNegotiate e), c) | (Inr v, c) \<Rightarrow> (Inr v, c)))"
  using wf_qmp_executeLocked [of c x m a] by (auto simp del: wf_qmp_executeLocked split: prod.splits sum.splits)

lemma wf_qmp_initialize: "wf_qmp c \<Longrightarrow> wf_qmp (snd (initialize x c))"
  unfolding initialize_def
  by (intro bindS_keeps [where P = wf_qmp] wf_qmp_decode_greeting wf_qmp_negotiate)
     (auto simp: lift_result_def reject_def split: option.splits)

lemma NewQMPClientContext_wf: "NewQMPClientContext x dial = Inr c \<Longrightarrow> wf_qmp c"
  using wf_qmp_initialize [OF wf_qmp_fresh]
  by (auto simp: NewQMPClientContext_def split: sum.splits prod.splits) (metis snd_conv)

text \<open>Any calls on a client, one after another.\<close>

definition qmp_calls :: "(qmp_call \<times> string \<times> json option) list \<Rightarrow> QMPClient \<Rightarrow> QMPClient" where
  "qmp_calls = fold (\<lambda>(x, command, arguments) c. snd (qmp_execute x command arguments c))"

lemma qmp_calls_keeps: "(\<And>x m a c. P c \<Longrightarrow> P (snd (qmp_execute x m a c))) \<Longrightarrow> P c \<Longrightarrow> P (qmp_calls xs c)"
  unfolding qmp_calls_def by (induction xs arbitrary: c) auto

text \<open>C34. Whatever a server sends, the counters reported to monitoring keep their type: exactly the
  ten life cycle names, and block errors in strictly increasing order, each for a well formed
  device label or none and one of the four operations.\<close>

theorem event_counters_typed:
  assumes "NewQMPClientContext x dial = Inr c" and "EventCounters y (qmp_calls xs c) = (Inr ec, c')"
  shows "List.map fst (ec_lifecycle ec) = List.map snd qmpLifecycleEventNames
     \<and> sorted_wrt (<) (List.map fst (ec_block ec)) \<and> (\<forall>(k, n) \<in> set (ec_block ec). block_key_ok k)"
proof -
  have "wf_qmp (qmp_calls xs c)"
    using NewQMPClientContext_wf [OF assms(1)] by (rule qmp_calls_keeps [rotated]) simp
  moreover have "ec_lifecycle ec = qm_lifecycle (qmp_calls xs c)" "ec_block ec = sort_key fst (qm_block (qmp_calls xs c))"
    using assms(2) by (auto simp: EventCounters_def split: option.splits)
  ultimately show ?thesis
    by (auto simp: wf_qmp_def list_all_iff strict_sorted_iff distinct_map)
qed

definition sample_greeting :: arrival where
  "sample_greeting =
     Arrives (JObject [(''QMP'', JObject
       [(''version'', JObject [(''qemu'', JObject [(''major'', JNumber ''9''), (''minor'', JNumber ''2''), (''micro'', JNumber ''0'')]),
                               (''package'', JString '''')]),
        (''capabilities'', JArray [JString ''oob''])])])"

definition sample_block_event :: arrival where
  "sample_block_event =
     Arrives (JObject [(''event'', JString ''BLOCK_IO_ERROR''),
       (''data'', JObject [(''device'', JString ''disk0''), (''operation'', JString ''write''), (''nospace'', JBool True)])])"

definition sample_client :: QMPClient where
  "sample_client =
     (case NewQMPClientContext live_call (Inr [sample_greeting, answer ''1'' (JObject []), sample_block_event,
        event_arrival ''STOP'', answer ''2'' (JObject [(''status'', JString ''running'')])]) of
        Inr c \<Rightarrow> c | Inl _ \<Rightarrow> fresh_client [])"

lemma sample_client_opens:
  "isl (NewQMPClientContext live_call (Inr [sample_greeting, answer ''1'' (JObject []), sample_block_event,
     event_arrival ''STOP'', answer ''2'' (JObject [(''status'', JString ''running'')])])) = False"
  by code_simp

lemma event_counters_typed_witness:
  "\<exists>ec c'. EventCounters live_call (qmp_calls [(live_call, ''query-status'', None)] sample_client) = (Inr ec, c')
     \<and> List.map fst (ec_block ec) = [(''disk0'', ''write'', True)]
     \<and> List.map fst (ec_lifecycle ec) = List.map snd qmpLifecycleEventNames"
proof -
  have new: "\<exists>d. NewQMPClientContext live_call d = Inr sample_client"
    using sample_client_opens unfolding sample_client_def by (auto split: sum.splits)
  obtain ec c' where ec: "EventCounters live_call (qmp_calls [(live_call, ''query-status'', None)] sample_client) = (Inr ec, c')"
    by (simp add: EventCounters_def live_call_def ctx_err_def)
  moreover have "List.map fst (qm_block (qmp_calls [(live_call, ''query-status'', None)] sample_client)) = [(''disk0'', ''write'', True)]"
    by code_simp
  then have "List.map fst (ec_block ec) = [(''disk0'', ''write'', True)]"
    using ec by (auto simp: EventCounters_def live_call_def ctx_err_def sort_key_simps)
  moreover obtain d where "NewQMPClientContext live_call d = Inr sample_client" using new by blast
  from event_counters_typed [OF this ec]
  have "List.map fst (ec_lifecycle ec) = List.map snd qmpLifecycleEventNames" by (rule conjunct1)
  ultimately show ?thesis by (intro exI [of _ ec] exI [of _ c'] conjI)
qed

section \<open>A read failure is final\<close>

lemma stuck_executeLocked:
  "qm_stuck c = Some e \<Longrightarrow> isl (fst (executeLocked x m a c)) \<and> qm_stuck (snd (executeLocked x m a c)) = Some e"
  by (auto simp: executeLocked_def Let_def split: option.splits)

lemma stuck_execute:
  "qm_stuck c = Some e \<Longrightarrow> isl (fst (qmp_execute x m a c)) \<and> qm_stuck (snd (qmp_execute x m a c)) = Some e"
  using stuck_executeLocked by (auto simp: qmp_execute_def split: option.splits)

text \<open>C35. Once a read on the stream has failed while a command waits for its answer, for instance
  because the deadline of that one command passed, every later command on the client fails,
  whatever arrives later and whatever time its caller allows.\<close>

theorem read_failure_is_final:
  assumes "\<not> qm_closed c" and "qm_stuck c = None" and "qm_arrivals c = pre @ Breaks e # rest"
    and "list_all (passed_over (sint (qm_next c + 1))) pre"
    and "ctx_err (qc_ctx x) 3 = None" and "qc_deadline_fails x = None" and "qc_write_fails x = None"
  shows "isl (fst (qmp_execute y command' arguments' (qmp_calls xs (snd (qmp_execute x command arguments c)))))"
proof -
  let ?c = "snd (qmp_execute x command arguments c)"
  have early: "ctx_err (qc_ctx x) k = None" if "k \<le> 3" for k
    using assms(5) that by (auto simp: ctx_err_def split: option.splits if_splits)
  have "qm_stuck ?c = Some e"
    using assms early
    by (simp add: qmp_execute_def executeLocked_def setContextDeadline_def Let_def await_passed_over)
  then have "qm_stuck (qmp_calls xs ?c) = Some e"
    by (rule qmp_calls_keeps [where P = "\<lambda>c. qm_stuck c = Some e", rotated]) (simp add: stuck_execute)
  then show ?thesis using stuck_execute by blast
qed

text \<open>A status query times out; the answer to it and to the power down command then arrive in time.\<close>

theorem read_failure_is_final_witness:
  "isl (fst (qmp_execute live_call ''system_powerdown'' None
     (qmp_calls [] (snd (qmp_execute live_call ''query-status'' None
        (fresh_client [event_arrival ''STOP'', Breaks ''i/o timeout'', answer ''1'' (JBool True), answer ''2'' (JObject [])]))))))"
proof (rule read_failure_is_final [where pre = "[event_arrival ''STOP'']" and e = "''i/o timeout''"
        and rest = "[answer ''1'' (JBool True), answer ''2'' (JObject [])]"])
  show "list_all (passed_over (sint (qm_next (fresh_client [event_arrival ''STOP'', Breaks ''i/o timeout'',
    answer ''1'' (JBool True), answer ''2'' (JObject [])]) + 1))) [event_arrival ''STOP'']" by code_simp
qed (simp_all add: fresh_client_def live_call_def ctx_err_def)

section \<open>Queries\<close>

lemma optionalUint64_value:
  "optionalUint64 m v = Inr r \<Longrightarrow> (\<forall>i. v = Some i \<longrightarrow> i < 2 ^ 64) \<Longrightarrow> map_option uint r = v"
  by (auto simp: optionalUint64_def uint_word_of_int_eq take_bit_int_eq_self split: option.splits if_splits)

lemma normalizeBlockStats_fields:
  assumes "normalizeBlockStats device s idle = Inr d"
  shows "bd_device d = device \<and> bd_io_status d = None"
    and "optionalUint64 ''rd_bytes'' (s ''rd_bytes'') = Inr (bd_read_bytes d)"
    and "optionalUint64 ''wr_bytes'' (s ''wr_bytes'') = Inr (bd_write_bytes d)"
    and "optionalNanoseconds ''idle_time_ns'' idle = Inr (bd_idle_seconds d)"
  using assms by (auto simp: normalizeBlockStats_def bindE_Inr_iff)

definition device_ok :: "string \<times> QEMUBlockDevice \<Rightarrow> bool" where
  "device_ok p \<longleftrightarrow> bd_device (snd p) = fst p \<and> qmpDeviceLabelPattern (fst p) \<and> bd_io_status (snd p) \<noteq> Some []"

definition devices_ok :: "(string \<times> QEMUBlockDevice) list \<Rightarrow> bool" where
  "devices_ok ds \<longleftrightarrow> distinct (List.map fst ds) \<and> (\<forall>p \<in> set ds. device_ok p)"

lemma update_set: "set (AList.update k v al) \<subseteq> insert (k, v) (set al)"
  by (induction al) auto

lemma devices_ok_update: "devices_ok ds \<Longrightarrow> device_ok (k, v) \<Longrightarrow> devices_ok (AList.update k v ds)"
  using update_set [of k v ds] by (auto simp: devices_ok_def distinct_update)

lemma stats_devices_ok: "stats_devices rs ds = Inr es \<Longrightarrow> devices_ok ds \<Longrightarrow> devices_ok es"
proof (induction rs ds rule: stats_devices.induct)
  case (2 r rs ds)
  then show ?case
    by (auto simp: device_ok_def devices_ok_update normalizeBlockStats_fields(1)
        split: if_splits option.splits sum.splits)
qed simp

lemma block_statuses_ok: "block_statuses rs ds = Inr es \<Longrightarrow> devices_ok ds \<Longrightarrow> devices_ok es"
proof (induction rs ds rule: block_statuses.induct)
  case (2 d st rs ds)
  have "map_of ds d = Some b \<Longrightarrow> bd_device b = d" for b
    using 2(6) by (auto simp: devices_ok_def device_ok_def dest!: map_of_SomeD)
  with 2 show ?case
    by (auto simp: device_ok_def devices_ok_update split: if_splits option.splits)
qed simp

text \<open>A block query that succeeds reports each device once, in the order of their labels, each
  label well formed, and never an empty I/O status; devices without a label are left out.\<close>

lemma QueryBlocks_sorted_labels:
  assumes "QueryBlocks x c = (Inr ds, c')"
  shows "sorted_wrt (<) (List.map bd_device ds)
     \<and> (\<forall>d \<in> set ds. qmpDeviceLabelPattern (bd_device d) \<and> bd_io_status d \<noteq> Some [])"
proof -
  obtain rs ds0 rs' ds1 where *: "stats_devices rs [] = Inr ds0" "block_statuses rs' ds0 = Inr ds1"
    "ds = sort_key bd_device (List.map snd ds1)"
    using assms unfolding QueryBlocks_def bindS_Inr lift_result_def by blast
  have ok: "devices_ok ds1"
    by (rule block_statuses_ok [OF *(2) stats_devices_ok [OF *(1)]]) (simp add: devices_ok_def)
  have "bd_device (snd p) = fst p" if "p \<in> set ds1" for p
    using ok that unfolding devices_ok_def device_ok_def by blast
  then have keys: "List.map bd_device (List.map snd ds1) = List.map fst ds1" by simp
  have sorted_distinct: "distinct (List.map f xs) \<Longrightarrow> distinct (List.map f (sort_key f xs))"
    for f :: "QEMUBlockDevice \<Rightarrow> string" and xs
    by (simp add: distinct_map)
  have "distinct (List.map bd_device ds)"
    unfolding *(3)
  proof (rule sorted_distinct)
    show "distinct (List.map bd_device (List.map snd ds1))"
      unfolding keys using ok by (simp add: devices_ok_def)
  qed
  moreover have "sorted (List.map bd_device ds)" by (simp add: *(3))
  moreover have "\<forall>d \<in> set ds. qmpDeviceLabelPattern (bd_device d) \<and> bd_io_status d \<noteq> Some []"
    using ok by (auto simp: *(3) devices_ok_def device_ok_def)
  ultimately show ?thesis by (simp add: strict_sorted_iff)
qed


lemma QueryBlocks_sorted_labels_witness:
  "\<exists>ds c'. QueryBlocks live_call (fresh_client
       [answer ''1'' (JArray [JObject [(''device'', JString ''disk1''), (''stats'', JObject [(''rd_bytes'', JNumber ''5'')])], JObject []]),
        answer ''2'' (JArray [JObject [(''device'', JString ''disk1''), (''io-status'', JString ''ok'')]])]) = (Inr ds, c')
     \<and> List.map bd_device ds = [''disk1'']
     \<and> (\<forall>d \<in> set ds. qmpDeviceLabelPattern (bd_device d) \<and> bd_io_status d \<noteq> Some [])"
proof -
  let ?r = "QueryBlocks live_call (fresh_client
       [answer ''1'' (JArray [JObject [(''device'', JString ''disk1''), (''stats'', JObject [(''rd_bytes'', JNumber ''5'')])], JObject []]),
        answer ''2'' (JArray [JObject [(''device'', JString ''disk1''), (''io-status'', JString ''ok'')]])])"
  have labels: "(case fst ?r of Inr ds \<Rightarrow> List.map bd_device ds | Inl _ \<Rightarrow> []) = [''disk1'']" by code_simp
  then obtain ds c' where r: "?r = (Inr ds, c')" by (cases "fst ?r") (auto simp: prod_eq_iff)
  from QueryBlocks_sorted_labels [OF r] labels show ?thesis unfolding r by simp
qed

end
