(* ===== verification/Qga.thy ===== *)
theory Qga
  imports Qmp "HOL-Library.Sublist" "HOL-Library.Code_Target_Nat"
begin

text \<open>
  The guest agent client of \<open>internal/qemu/qga.go\<close>: a connection for each command, synchronised by
  discarding what an earlier client left behind, framed by newlines with a bound on what is read,
  and closed after one answer. A connection is the bytes that arrive on it and how reading ends.
\<close>

section \<open>Requests\<close>

definition maxQGAFrameBytes :: nat where "maxQGAFrameBytes = 65 * 2 ^ 20"

text \<open>The standard JSON reader: the first value of a text and what follows it, the attempt to read
  another value (\<open>None\<close>: there is one).\<close>

record json_text =
  jt_first :: "string \<Rightarrow> string + json \<times> string"
  jt_next :: "string \<Rightarrow> string option"

datatype qga_read = ReadEOF | ReadClosed | ReadDeadline | ReadReset | ReadAborted | ReadTimeout | ReadOther string

record QGAError =
  ge_class :: string
  ge_desc :: string

datatype qga_error =
    QgaNotObject | QgaDecode string | QgaTrailing | QgaTrailer string
  | QgaNoExecute | QgaExecuteType | QgaExecuteBlank | QgaArguments | QgaUnknown string
  | QgaNoPath | QgaConnect string | QgaContext ctx_error | QgaDeadline string
  | QgaDelimiter string | QgaSendSync string | QgaSync qga_error | QgaSend string string
  | QgaTooLarge | QgaRead qga_read | QgaOneOf | QgaBadID string | QgaCommand QGAError

record GuestAgentRequest =
  ga_execute :: string
  ga_arguments :: "json option"

text \<open>The arguments are a raw message of the reader, so they are one value and nothing trails them.\<close>

definition validateGuestAgentArguments :: "json option \<Rightarrow> qga_error + json option" where
  "validateGuestAgentArguments raw =
     (case raw of
        None \<Rightarrow> Inr None
      | Some v \<Rightarrow> if is_object v then Inr (Some v) else Inl QgaArguments)"

definition object_members :: "json \<Rightarrow> (string \<times> json) list option" where
  "object_members v = (case v of JObject kvs \<Rightarrow> Some kvs | _ \<Rightarrow> None)"

text \<open>The members as a Go map: the last of those with one name.\<close>

definition member_of :: "(string \<times> json) list \<Rightarrow> string \<Rightarrow> json option" where
  "member_of kvs name = map_of (rev kvs) name"

definition unknown_members :: "(string \<times> json) list \<Rightarrow> string list" where
  "unknown_members kvs = sort (List.filter (\<lambda>k. k \<noteq> ''execute'' \<and> k \<noteq> ''arguments'') (List.map fst kvs))"

definition request_of_members :: "(string \<times> json) list \<Rightarrow> qga_error + GuestAgentRequest" where
  "request_of_members kvs =
     (case member_of kvs ''execute'' of
        None \<Rightarrow> Inl QgaNoExecute
      | Some v \<Rightarrow>
          (case into_string [] v of
             None \<Rightarrow> Inl QgaExecuteType
           | Some execute \<Rightarrow>
               if blank execute then Inl QgaExecuteBlank
               else bindE (validateGuestAgentArguments (member_of kvs ''arguments'')) (\<lambda>arguments.
                 case unknown_members kvs of
                   k # _ \<Rightarrow> Inl (QgaUnknown k)
                 | [] \<Rightarrow> Inr \<lparr>ga_execute = execute, ga_arguments = arguments\<rparr>)))"

text \<open>A value and nothing but white space after it.\<close>

definition single_value :: "json_text \<Rightarrow> string \<Rightarrow> qga_error + json" where
  "single_value J s =
     (case jt_first J s of
        Inl e \<Rightarrow> Inl (QgaDecode e)
      | Inr (v, rest) \<Rightarrow>
          (case jt_next J rest of
             None \<Rightarrow> Inl QgaTrailing
           | Some e \<Rightarrow> if e = ''EOF'' then Inr v else Inl (QgaTrailer e)))"

definition DecodeGuestAgentRequest :: "json_text \<Rightarrow> string \<Rightarrow> qga_error + GuestAgentRequest" where
  "DecodeGuestAgentRequest J data =
     (let trimmed = TrimSpace data
      in if trimmed = [] \<or> hd trimmed \<noteq> CHR ''{'' then Inl QgaNotObject
         else bindE (single_value J trimmed) (\<lambda>v.
           case object_members v of
             None \<Rightarrow> Inl QgaNotObject
           | Some kvs \<Rightarrow> request_of_members kvs))"

section \<open>Frames\<close>

text \<open>\<open>bytes.TrimLeft(frame, "\xff")\<close>: the cut set is the replacement character, so every leading
  byte that starts no character goes, and so does the replacement character itself.\<close>

function trim_invalid :: "string \<Rightarrow> string" where
  "trim_invalid s =
     (if s = [] then []
      else if rune_len s = 0 then trim_invalid (drop 1 s)
      else if take 3 s = replacement_rune then trim_invalid (drop 3 s)
      else s)"
  by pat_completeness auto
termination by (relation "measure length") auto

declare trim_invalid.simps [simp del]

text \<open>\<open>readUntilQGADelimiter\<close>: the bytes after the first delimiter.\<close>

definition delimiter :: char where "delimiter = char_of (255::nat)"

definition readUntilQGADelimiter :: "nat \<Rightarrow> qga_read \<Rightarrow> string \<Rightarrow> qga_error + string" where
  "readUntilQGADelimiter maximum ending s =
     (let n = length (takeWhile (\<lambda>c. c \<noteq> delimiter) s)
      in if maximum < (if n < length s then n + 1 else n) then Inl QgaTooLarge
         else if n < length s then Inr (drop (n + 1) s)
         else Inl (QgaRead ending))"

text \<open>\<open>readQGAFrame\<close>: the next frame that is not blank and the bytes after it; \<open>count\<close> bytes have
  been read before.\<close>

function read_frame :: "nat \<Rightarrow> qga_read \<Rightarrow> nat \<Rightarrow> string \<Rightarrow> qga_error + string \<times> string" where
  "read_frame maximum ending count s =
     (let n = length (takeWhile (\<lambda>c. c \<noteq> newline) s);
          whole = n < length s;
          frame = take (n + 1) s; rest = drop (n + 1) s;
          trimmed = TrimSpace (trim_invalid frame)
      in if maximum < count + length frame then Inl QgaTooLarge
         else if trimmed \<noteq> [] then Inr (trimmed, rest)
         else if \<not> whole then Inl (QgaRead ending)
         else read_frame maximum ending (count + length frame) rest)"
  by pat_completeness auto
termination by (relation "measure (\<lambda>(_, _, _, s). length s)") (auto simp: Let_def)

declare read_frame.simps [simp del]

definition readQGAFrame :: "nat \<Rightarrow> qga_read \<Rightarrow> string \<Rightarrow> qga_error + string \<times> string" where
  "readQGAFrame maximum ending s = read_frame maximum ending 0 s"

record qgaResponse =
  gr_return :: "json option"
  gr_error :: "QGAError option"
  gr_event :: string
  gr_id :: string

definition into_QGAError :: "QGAError into" where
  "into_QGAError =
     into_struct (\<lambda>e kvs.
       Option.bind (field into_string (ge_class e) ''class'' kvs) (\<lambda>k.
       Option.bind (field into_string (ge_desc e) ''desc'' kvs) (\<lambda>d.
         Some \<lparr>ge_class = k, ge_desc = d\<rparr>)))"

definition into_qgaResponse :: "qgaResponse into" where
  "into_qgaResponse =
     into_struct (\<lambda>r kvs.
       Option.bind (field into_raw (gr_return r) ''return'' kvs) (\<lambda>ret.
       Option.bind (field (into_pointer \<lparr>ge_class = [], ge_desc = []\<rparr> into_QGAError) (gr_error r) ''error'' kvs) (\<lambda>err.
       Option.bind (field into_string (gr_event r) ''event'' kvs) (\<lambda>ev.
       Option.bind (field into_number (gr_id r) ''id'' kvs) (\<lambda>i.
         Some \<lparr>gr_return = ret, gr_error = err, gr_event = ev, gr_id = i\<rparr>)))))"

definition empty_response :: qgaResponse where
  "empty_response = \<lparr>gr_return = None, gr_error = None, gr_event = [], gr_id = []\<rparr>"

text \<open>A type error of the first value is reported before what trails it is looked at.\<close>

definition decodeQGAResponse :: "json_text \<Rightarrow> string \<Rightarrow> qga_error + qgaResponse" where
  "decodeQGAResponse J frame =
     (case jt_first J frame of
        Inl e \<Rightarrow> Inl (QgaDecode e)
      | Inr (v, rest) \<Rightarrow>
          (case into_qgaResponse empty_response v of
             None \<Rightarrow> Inl (QgaDecode ''type'')
           | Some r \<Rightarrow>
               (case jt_next J rest of
                  None \<Rightarrow> Inl QgaTrailing
                | Some e \<Rightarrow> if e = ''EOF'' then Inr r else Inl (QgaTrailer e))))"

definition parse_uint64 :: "string \<Rightarrow> u64 option" where
  "parse_uint64 s =
     (case parse_dec s of None \<Rightarrow> None | Some n \<Rightarrow> if n < 2 ^ 64 then Some (word_of_nat n) else None)"

definition qgaResponseMatches :: "qgaResponse \<Rightarrow> u64 \<Rightarrow> qga_error + bool" where
  "qgaResponseMatches r expected =
     (if gr_id r = [] then Inr False
      else case parse_uint64 (gr_id r) of
        None \<Rightarrow> Inl (QgaBadID (gr_id r))
      | Some i \<Rightarrow> Inr (i = expected))"

definition qgaSyncReturnMatches :: "json option \<Rightarrow> u64 \<Rightarrow> bool" where
  "qgaSyncReturnMatches raw expected =
     (case raw of Some (JNumber lit) \<Rightarrow> parse_uint64 lit = Some expected | _ \<Rightarrow> False)"

text \<open>The next answer: events are skipped. A read that fails reports the context when that is done.\<close>

definition readDecodedQGAResponse ::
  "json_text \<Rightarrow> ctx \<Rightarrow> qga_read \<Rightarrow> string \<Rightarrow> qga_error + qgaResponse \<times> string" where
  "readDecodedQGAResponse J cx ending s =
     (case readQGAFrame maxQGAFrameBytes ending s of
        Inl e \<Rightarrow> Inl (case ctx_err cx 1 of Some ce \<Rightarrow> QgaContext ce | None \<Rightarrow> e)
      | Inr (frame, rest) \<Rightarrow>
          (case decodeQGAResponse J frame of Inl e \<Rightarrow> Inl e | Inr r \<Rightarrow> Inr (r, rest)))"

lemma trim_Nil [simp]: "TrimSpace (trim_invalid []) = []"
  by (simp add: TrimSpace_def trim_invalid.simps trim_left.simps trim_right.simps)

lemma read_frame_shorter: "read_frame maximum ending count s = Inr (frame, rest) \<Longrightarrow> length rest < length s"
proof (induction maximum ending count s rule: read_frame.induct)
  case (1 maximum ending count s)
  let ?n = "length (takeWhile (\<lambda>c. c \<noteq> newline) s)"
  show ?case
  proof (cases "s = []")
    case True
    with 1(2) show ?thesis by (subst (asm) read_frame.simps) (simp split: if_splits)
  next
    case False
    then have drop: "length (drop (?n + 1) s) < length s" by (cases s) auto
    note run = 1(2) [unfolded read_frame.simps [of maximum ending count s] Let_def]
    show ?thesis
    proof (cases "TrimSpace (trim_invalid (take (?n + 1) s)) \<noteq> []")
      case True
      with run drop show ?thesis by (auto split: if_splits)
    next
      case False
      with run have "\<not> maximum < count + length (take (?n + 1) s)" "?n < length s"
        "read_frame maximum ending (count + length (take (?n + 1) s)) (drop (?n + 1) s) = Inr (frame, rest)"
        by (auto split: if_splits)
      with 1(1) [OF refl refl refl refl refl] False drop show ?thesis by fastforce
    qed
  qed
qed

lemma readDecodedQGAResponse_shorter [simp]:
  "readDecodedQGAResponse J cx ending s = Inr (r, rest) \<Longrightarrow> length rest < length s"
  by (auto simp: readDecodedQGAResponse_def readQGAFrame_def dest: read_frame_shorter split: sum.splits)

lemma readDecodedQGAResponse_pair [simp]:
  "readDecodedQGAResponse J cx ending s = Inr p \<Longrightarrow> (r, rest) = p \<Longrightarrow> length rest < length s"
  using readDecodedQGAResponse_shorter by blast

section \<open>Waiting for an answer\<close>

definition one_of :: "qgaResponse \<Rightarrow> bool" where
  "one_of r \<longleftrightarrow> (gr_error r \<noteq> None) \<noteq> (gr_return r \<noteq> None)"

function sync_loop :: "json_text \<Rightarrow> ctx \<Rightarrow> qga_read \<Rightarrow> u64 \<Rightarrow> string \<Rightarrow> qga_error + string" where
  "sync_loop J cx ending expected s =
     (case readDecodedQGAResponse J cx ending s of
        Inl e \<Rightarrow> Inl e
      | Inr (r, rest) \<Rightarrow>
          if gr_event r \<noteq> [] then sync_loop J cx ending expected rest
          else (case qgaResponseMatches r expected of
            Inl e \<Rightarrow> Inl e
          | Inr matches \<Rightarrow>
              if \<not> one_of r then Inl QgaOneOf
              else (case gr_error r of
                Some e \<Rightarrow> if matches then Inl (QgaCommand e) else sync_loop J cx ending expected rest
              | None \<Rightarrow>
                  if \<not> matches \<or> \<not> qgaSyncReturnMatches (gr_return r) expected
                  then sync_loop J cx ending expected rest else Inr rest)))"
  by pat_completeness auto
termination by (relation "measure (\<lambda>(_, _, _, _, s). length s)") simp_all

function awaitQGAResult :: "json_text \<Rightarrow> ctx \<Rightarrow> qga_read \<Rightarrow> u64 \<Rightarrow> string \<Rightarrow> qga_error + json" where
  "awaitQGAResult J cx ending expected s =
     (case readDecodedQGAResponse J cx ending s of
        Inl e \<Rightarrow> Inl e
      | Inr (r, rest) \<Rightarrow>
          if gr_event r \<noteq> [] then awaitQGAResult J cx ending expected rest
          else (case qgaResponseMatches r expected of
            Inl e \<Rightarrow> Inl e
          | Inr matches \<Rightarrow>
              if \<not> matches then awaitQGAResult J cx ending expected rest
              else if \<not> one_of r then Inl QgaOneOf
              else (case gr_error r of
                Some e \<Rightarrow> Inl (QgaCommand e)
              | None \<Rightarrow> Inr (the (gr_return r)))))"
  by pat_completeness auto
termination by (relation "measure (\<lambda>(_, _, _, _, s). length s)") simp_all

declare sync_loop.simps [simp del] awaitQGAResult.simps [simp del]

definition awaitQGASync :: "json_text \<Rightarrow> ctx \<Rightarrow> qga_read \<Rightarrow> u64 \<Rightarrow> string \<Rightarrow> qga_error + string" where
  "awaitQGASync J cx ending expected s =
     (case readUntilQGADelimiter maxQGAFrameBytes ending s of
        Inl e \<Rightarrow> Inl (case ctx_err cx 1 of Some ce \<Rightarrow> QgaContext ce | None \<Rightarrow> e)
      | Inr rest \<Rightarrow> sync_loop J cx ending expected rest)"

section \<open>A connection\<close>

text \<open>What the socket does: whether each call on it fails, the bytes that arrive, how reading ends.
  The writes are the delimiter, the synchronisation request and the command.\<close>

record qga_link =
  gl_dial :: "string option"
  gl_deadline :: "string option"
  gl_write :: "nat \<Rightarrow> string option"
  gl_probe_deadline :: "string option"
  gl_bytes :: string
  gl_end :: qga_read
  gl_ctx :: ctx

record qgaRequest =
  gq_execute :: string
  gq_arguments :: "json option"
  gq_id :: u64

text \<open>The counter of request numbers of the process, and the requests written.\<close>

record qga_state =
  gs_id :: u64
  gs_sent :: "qgaRequest list"

type_synonym 'a qga = "qga_state \<Rightarrow> (qga_error + 'a) \<times> qga_state"

definition next_id :: "u64 qga" where
  "next_id st = (Inr (gs_id st + 1), st\<lparr>gs_id := gs_id st + 1\<rparr>)"

definition writeQGARequest :: "qga_link \<Rightarrow> nat \<Rightarrow> (string \<Rightarrow> qga_error) \<Rightarrow> qgaRequest \<Rightarrow> unit qga" where
  "writeQGARequest link k wrap request st =
     (case gl_write link k of
        Some e \<Rightarrow> (Inl (wrap e), st)
      | None \<Rightarrow> (Inr (), st\<lparr>gs_sent := gs_sent st @ [request]\<rparr>))"

definition synchronize :: "json_text \<Rightarrow> qga_link \<Rightarrow> string qga" where
  "synchronize J link =
     bindS (reject (map_option QgaDelimiter (gl_write link 0))) (\<lambda>_.
     bindS next_id (\<lambda>i.
     bindS (writeQGARequest link 1 QgaSendSync
       \<lparr>gq_execute = ''guest-sync-delimited'', gq_arguments = Some (JObject [(''id'', JNumber (itoa (unat i)))]), gq_id = i\<rparr>) (\<lambda>_.
       lift_result (case awaitQGASync J (gl_ctx link) (gl_end link) i (gl_bytes link) of
         Inl e \<Rightarrow> Inl (QgaSync e) | Inr rest \<Rightarrow> Inr rest))))"

definition openQGAConnection :: "json_text \<Rightarrow> qga_link \<Rightarrow> string \<Rightarrow> string qga" where
  "openQGAConnection J link path =
     bindS (reject (first_error
       [guard (path = []) QgaNoPath, map_option QgaConnect (gl_dial link),
        map_option QgaContext (ctx_err (gl_ctx link) 0), map_option QgaDeadline (gl_deadline link)])) (\<lambda>_.
     synchronize J link)"

definition qgaNoResponseSuccess :: "qga_error \<Rightarrow> bool" where
  "qgaNoResponseSuccess e =
     (case e of
        QgaRead r \<Rightarrow> (case r of ReadOther _ \<Rightarrow> False | _ \<Rightarrow> True)
      | QgaContext CtxDeadlineExceeded \<Rightarrow> True
      | QgaDecode d \<Rightarrow> d = ''EOF''
      | _ \<Rightarrow> False)"

definition qgaCommandMayNotReply :: "string \<Rightarrow> bool" where
  "qgaCommandMayNotReply command \<longleftrightarrow>
     command \<in> {''guest-shutdown'', ''guest-suspend-disk'', ''guest-suspend-ram'', ''guest-suspend-hybrid''}"

definition awaitQGANoResponseResult :: "json_text \<Rightarrow> qga_link \<Rightarrow> u64 \<Rightarrow> string \<Rightarrow> qga_error + json" where
  "awaitQGANoResponseResult J link expected s =
     (case gl_probe_deadline link of
        Some e \<Rightarrow> Inl (QgaDeadline e)
      | None \<Rightarrow>
          (case awaitQGAResult J (gl_ctx link) (gl_end link) expected s of
             Inr v \<Rightarrow> Inr v
           | Inl e \<Rightarrow> if qgaNoResponseSuccess e then Inr JNull else Inl e))"

definition GuestShutdown :: "json_text \<Rightarrow> qga_link \<Rightarrow> string \<Rightarrow> unit qga" where
  "GuestShutdown J link path =
     bindS (openQGAConnection J link path) (\<lambda>rest.
     bindS next_id (\<lambda>i.
     bindS (writeQGARequest link 2 (QgaSend ''guest-shutdown'')
       \<lparr>gq_execute = ''guest-shutdown'', gq_arguments = Some (JObject [(''mode'', JString ''powerdown'')]), gq_id = i\<rparr>) (\<lambda>_.
     bindS (lift_result (awaitQGANoResponseResult J link i rest)) (\<lambda>_. lift_result (Inr ())))))"

definition GuestAgentCommand :: "json_text \<Rightarrow> qga_link \<Rightarrow> string \<Rightarrow> GuestAgentRequest \<Rightarrow> json qga" where
  "GuestAgentCommand J link path request =
     bindS (reject (guard (blank (ga_execute request)) QgaExecuteBlank)) (\<lambda>_.
     bindS (lift_result (validateGuestAgentArguments (ga_arguments request))) (\<lambda>arguments.
     bindS (openQGAConnection J link path) (\<lambda>rest.
     bindS next_id (\<lambda>i.
     bindS (writeQGARequest link 2 (QgaSend (ga_execute request))
       \<lparr>gq_execute = ga_execute request, gq_arguments = arguments, gq_id = i\<rparr>) (\<lambda>_.
       lift_result (if qgaCommandMayNotReply (ga_execute request)
                    then awaitQGANoResponseResult J link i rest
                    else awaitQGAResult J (gl_ctx link) (gl_end link) i rest))))))"

section \<open>Properties of the framing\<close>

text \<open>The bytes a connection reads: frames are no longer than the bound.\<close>

lemma trim_invalid_length: "length (trim_invalid s) \<le> length s"
proof (induction s rule: trim_invalid.induct)
  case (1 s)
  then show ?case by (subst trim_invalid.simps) (auto simp del: length_drop elim!: order_trans, auto)
qed

lemma read_frame_bound:
  "read_frame maximum ending count s = Inr (frame, rest) \<Longrightarrow>
   frame \<noteq> [] \<and> count + length frame + length rest \<le> count + length s \<and> length frame \<le> maximum"
proof (induction maximum ending count s rule: read_frame.induct)
  case (1 maximum ending count s)
  let ?n = "length (takeWhile (\<lambda>c. c \<noteq> newline) s)"
  let ?t = "TrimSpace (trim_invalid (take (?n + 1) s))"
  note run = 1(2) [unfolded read_frame.simps [of maximum ending count s] Let_def]
  have len: "length ?t \<le> length (take (?n + 1) s)"
    using TrimSpace_length trim_invalid_length order_trans by blast
  show ?case
  proof (cases "?t \<noteq> []")
    case True
    with run have "frame = ?t" "rest = drop (?n + 1) s" "\<not> maximum < count + length (take (?n + 1) s)"
      by (auto split: if_splits)
    with len True show ?thesis by auto
  next
    case False
    with run have *: "\<not> maximum < count + length (take (?n + 1) s)" "?n < length s"
      "read_frame maximum ending (count + length (take (?n + 1) s)) (drop (?n + 1) s) = Inr (frame, rest)"
      by (auto split: if_splits)
    from 1(1) [OF refl refl refl refl refl] * False show ?thesis by fastforce
  qed
qed

lemma read_frame_suffix: "read_frame maximum ending count s = Inr (frame, rest) \<Longrightarrow> suffix rest s"
proof (induction maximum ending count s rule: read_frame.induct)
  case (1 maximum ending count s)
  let ?n = "length (takeWhile (\<lambda>c. c \<noteq> newline) s)"
  note run = 1(2) [unfolded read_frame.simps [of maximum ending count s] Let_def]
  show ?case
  proof (cases "TrimSpace (trim_invalid (take (?n + 1) s)) \<noteq> []")
    case True
    with run show ?thesis by (auto simp: suffix_drop split: if_splits)
  next
    case False
    with run have *: "\<not> maximum < count + length (take (?n + 1) s)" "?n < length s"
      "read_frame maximum ending (count + length (take (?n + 1) s)) (drop (?n + 1) s) = Inr (frame, rest)"
      by (auto split: if_splits)
    from 1(1) [OF refl refl refl refl refl] * False have "suffix rest (drop (?n + 1) s)" by fastforce
    then show ?thesis using suffix_drop suffix_order.trans by blast
  qed
qed

text \<open>A frame read somewhere on a connection.\<close>

definition framed :: "qga_read \<Rightarrow> string \<Rightarrow> string \<Rightarrow> bool" where
  "framed ending s frame \<longleftrightarrow>
     (\<exists>s' rest. suffix s' s \<and> readQGAFrame maxQGAFrameBytes ending s' = Inr (frame, rest))"

lemma readDecoded_framed:
  assumes "readDecodedQGAResponse J cx ending s = Inr (r, rest)"
  shows "\<exists>frame. framed ending s frame \<and> decodeQGAResponse J frame = Inr r" and "suffix rest s"
proof -
  obtain frame where *: "readQGAFrame maxQGAFrameBytes ending s = Inr (frame, rest)" "decodeQGAResponse J frame = Inr r"
    using assms by (auto simp: readDecodedQGAResponse_def split: sum.splits)
  then show "\<exists>frame. framed ending s frame \<and> decodeQGAResponse J frame = Inr r"
    unfolding framed_def by (intro exI [of _ frame] conjI exI [of _ s] exI [of _ rest]) simp_all
  from * show "suffix rest s" unfolding readQGAFrame_def by (blast dest: read_frame_suffix)
qed

lemma framed_suffix: "framed ending s frame \<Longrightarrow> suffix s t \<Longrightarrow> framed ending t frame"
  unfolding framed_def using suffix_order.trans by blast

lemma sync_loop_suffix: "sync_loop J cx ending i s = Inr rest \<Longrightarrow> suffix rest s"
proof (induction J cx ending i s rule: sync_loop.induct)
  case (1 J cx ending i s)
  obtain r t where read: "readDecodedQGAResponse J cx ending s = Inr (r, t)"
    using 1(4) by (subst (asm) sync_loop.simps) (auto split: sum.splits prod.splits)
  then have "suffix t s" by (rule readDecoded_framed)
  moreover have "suffix rest t"
    using 1(4) 1(1-3) [OF read refl]
    by (subst (asm) sync_loop.simps) (auto simp: read split: sum.splits option.splits if_splits)
  ultimately show ?case by (rule suffix_order.trans [rotated])
qed

lemma awaitQGASync_suffix: "awaitQGASync J cx ending i s = Inr rest \<Longrightarrow> suffix rest s"
proof -
  assume "awaitQGASync J cx ending i s = Inr rest"
  then obtain t where "readUntilQGADelimiter maxQGAFrameBytes ending s = Inr t" "sync_loop J cx ending i t = Inr rest"
    by (auto simp: awaitQGASync_def split: sum.splits)
  moreover from this(1) have "suffix t s"
    by (auto simp: readUntilQGADelimiter_def Let_def suffix_drop split: if_splits)
  ultimately show ?thesis using sync_loop_suffix suffix_order.trans by blast
qed

definition answers :: "qgaResponse \<Rightarrow> u64 \<Rightarrow> json \<Rightarrow> bool" where
  "answers r i v \<longleftrightarrow>
     gr_event r = [] \<and> parse_uint64 (gr_id r) = Some i \<and> gr_error r = None \<and> gr_return r = Some v"

lemma awaitQGAResult_answers:
  "awaitQGAResult J cx ending i s = Inr v \<Longrightarrow>
   \<exists>frame r. framed ending s frame \<and> decodeQGAResponse J frame = Inr r \<and> answers r i v"
proof (induction J cx ending i s rule: awaitQGAResult.induct)
  case (1 J cx ending i s)
  obtain r t where read: "readDecodedQGAResponse J cx ending s = Inr (r, t)"
    using 1(3) by (subst (asm) awaitQGAResult.simps) (auto split: sum.splits prod.splits)
  note step = 1(3) [unfolded awaitQGAResult.simps [of J cx ending i s] read sum.case prod.case]
  show ?case
  proof (cases "gr_event r \<noteq> [] \<or> qgaResponseMatches r i = Inr False")
    case True
    with step have "awaitQGAResult J cx ending i t = Inr v" by (auto split: if_splits)
    with 1(1,2) [OF read refl] True
    have "\<exists>frame r. framed ending t frame \<and> decodeQGAResponse J frame = Inr r \<and> answers r i v" by auto
    then show ?thesis using readDecoded_framed(2) [OF read] framed_suffix by blast
  next
    case False
    with step have "answers r i v"
      by (auto simp: answers_def one_of_def qgaResponseMatches_def split: if_splits sum.splits option.splits)
    then show ?thesis using readDecoded_framed(1) [OF read] by blast
  qed
qed

lemma openQGAConnection_ok:
  assumes "openQGAConnection J link path st = (Inr rest, st')"
  shows "gs_id st' = gs_id st + 1" and "suffix rest (gl_bytes link)"
    and "\<exists>q. gs_sent st' = gs_sent st @ [q] \<and> gq_execute q = ''guest-sync-delimited''"
  using assms awaitQGASync_suffix
  by (auto simp: openQGAConnection_def synchronize_def bindS_Inr reject_def lift_result_def next_id_def
      writeQGARequest_def split: option.splits sum.splits)

text \<open>A guest agent command that must be answered returns, when it succeeds, the result of an
  answer that carries the number of this very request, read from this connection within the frame
  bound; the requests written are the synchronisation and then the command, with that number.\<close>

lemma qga_answer_is_own:
  assumes "GuestAgentCommand J link path request st = (Inr v, st')"
    and "\<not> qgaCommandMayNotReply (ga_execute request)"
  shows "(\<exists>frame r. framed (gl_end link) (gl_bytes link) frame \<and> length frame \<le> maxQGAFrameBytes
       \<and> decodeQGAResponse J frame = Inr r \<and> answers r (gs_id st + 2) v)
     \<and> (\<exists>q. gq_execute q = ''guest-sync-delimited'' \<and> gs_sent st' = gs_sent st @ [q,
          \<lparr>gq_execute = ga_execute request, gq_arguments = ga_arguments request, gq_id = gs_id st + 2\<rparr>])"
proof -
  obtain rest t where opens: "openQGAConnection J link path st = (Inr rest, t)"
    and res: "awaitQGAResult J (gl_ctx link) (gl_end link) (gs_id t + 1) rest = Inr v"
    and st': "gs_sent st' = gs_sent t @ [\<lparr>gq_execute = ga_execute request, gq_arguments = ga_arguments request, gq_id = gs_id t + 1\<rparr>]"
    using assms
    by (auto simp: GuestAgentCommand_def bindS_Inr lift_result_def next_id_def writeQGARequest_def reject_def
        validateGuestAgentArguments_def split: option.splits if_splits)
  note opened = openQGAConnection_ok [OF opens]
  have num: "gs_id t + 1 = gs_id st + 2" by (simp add: opened(1))
  obtain frame r where "framed (gl_end link) rest frame" "decodeQGAResponse J frame = Inr r" "answers r (gs_id st + 2) v"
    using awaitQGAResult_answers [OF res] num by auto
  moreover have "framed (gl_end link) (gl_bytes link) frame" using calculation(1) opened(2) by (rule framed_suffix)
  moreover have "length frame \<le> maxQGAFrameBytes"
    using calculation(1) read_frame_bound unfolding framed_def readQGAFrame_def by blast
  moreover from opened(3) st' have "\<exists>q. gq_execute q = ''guest-sync-delimited'' \<and> gs_sent st' = gs_sent st @ [q,
          \<lparr>gq_execute = ga_execute request, gq_arguments = ga_arguments request, gq_id = gs_id st + 2\<rparr>]"
    unfolding num by auto
  ultimately show ?thesis by blast
qed

text \<open>A reader for the witnesses: a frame of one letter stands for a value.\<close>

definition sample_reader :: json_text where
  "sample_reader =
     \<lparr>jt_first = (\<lambda>s.
        if s = ''s'' then Inr (JObject [(''return'', JNumber ''1''), (''id'', JNumber ''1'')], [])
        else if s = ''e'' then Inr (JObject [(''event'', JString ''X'')], [])
        else if s = ''o'' then Inr (JObject [(''return'', JBool False), (''id'', JNumber ''9'')], [])
        else if s = ''r'' then Inr (JObject [(''return'', JBool True), (''id'', JNumber ''2'')], [])
        else if s = ''{}'' then Inr (JObject [(''execute'', JString ''guest-ping'')], [])
        else Inl ''syntax''),
      jt_next = (\<lambda>s. if s = [] then Some ''EOF'' else None)\<rparr>"

definition sample_link :: "string \<Rightarrow> qga_link" where
  "sample_link noise =
     \<lparr>gl_dial = None, gl_deadline = None, gl_write = (\<lambda>_. None), gl_probe_deadline = None,
      gl_bytes = noise @ [delimiter] @ concat (List.map (\<lambda>f. f @ [newline]) [''s'', ''e'', ''o'', ''r'']),
      gl_end = ReadEOF, gl_ctx = None\<rparr>"

definition ping :: GuestAgentRequest where "ping = \<lparr>ga_execute = ''guest-ping'', ga_arguments = None\<rparr>"

definition first_state :: qga_state where "first_state = \<lparr>gs_id = 0, gs_sent = []\<rparr>"

lemma sample_command:
  "fst (GuestAgentCommand sample_reader (sample_link ''old'') ''/q'' ping first_state) = Inr (JBool True)"
  by code_simp

lemma qga_answer_is_own_witness:
  "\<exists>frame r. framed ReadEOF (gl_bytes (sample_link ''old'')) frame
     \<and> decodeQGAResponse sample_reader frame = Inr r \<and> answers r 2 (JBool True)"
proof -
  obtain st' where "GuestAgentCommand sample_reader (sample_link ''old'') ''/q'' ping first_state = (Inr (JBool True), st')"
    using sample_command by (metis prod.collapse)
  from qga_answer_is_own [OF this] show ?thesis
    by (auto simp: qgaCommandMayNotReply_def ping_def sample_link_def first_state_def)
qed

lemma link_bytes:
  "writeQGARequest (link\<lparr>gl_bytes := b\<rparr>) = writeQGARequest link"
  "awaitQGANoResponseResult J (link\<lparr>gl_bytes := b\<rparr>) = awaitQGANoResponseResult J link"
  by (intro ext, simp add: writeQGARequest_def) (intro ext, simp add: awaitQGANoResponseResult_def cong: option.case_cong sum.case_cong)

text \<open>C13. What an earlier client left unread cannot influence a command: whatever precedes the first
  delimiter, partial or not JSON at all, is discarded within the bound, and the outcome, answer or
  error, is that of a connection without it.\<close>

theorem qga_sync_discards_noise:
  assumes "delimiter \<notin> set noise" and "length noise < maxQGAFrameBytes"
  shows "GuestAgentCommand J (link\<lparr>gl_bytes := noise @ delimiter # s\<rparr>) path request st
       = GuestAgentCommand J (link\<lparr>gl_bytes := delimiter # s\<rparr>) path request st"
proof -
  have until: "readUntilQGADelimiter maxQGAFrameBytes ending (n @ delimiter # s) = Inr s"
    if "delimiter \<notin> set n" "length n < maxQGAFrameBytes" for n ending
  proof -
    have "takeWhile (\<lambda>c. c \<noteq> delimiter) (n @ delimiter # s) = n"
      using that(1) by (induction n) auto
    with that(2) show ?thesis by (simp add: readUntilQGADelimiter_def Let_def)
  qed
  have "awaitQGASync J cx ending i (noise @ delimiter # s) = awaitQGASync J cx ending i (delimiter # s)"
    for cx ending i
    using until [OF assms] until [of "[]"] assms(2) by (simp add: awaitQGASync_def)
  then have "openQGAConnection J (link\<lparr>gl_bytes := noise @ delimiter # s\<rparr>)
      = openQGAConnection J (link\<lparr>gl_bytes := delimiter # s\<rparr>)"
    by (simp add: openQGAConnection_def synchronize_def link_bytes fun_eq_iff)
  then show ?thesis by (simp add: GuestAgentCommand_def link_bytes cong: if_cong)
qed

lemma qga_sync_discards_noise_witness:
  "GuestAgentCommand sample_reader (sample_link ''{half'') ''/q'' ping first_state
     = GuestAgentCommand sample_reader (sample_link []) ''/q'' ping first_state"
proof -
  let ?s = "concat (List.map (\<lambda>f. f @ [newline]) [''s'', ''e'', ''o'', ''r''])"
  have bytes: "(sample_link [])\<lparr>gl_bytes := n @ delimiter # ?s\<rparr> = sample_link n"
    "(sample_link [])\<lparr>gl_bytes := delimiter # ?s\<rparr> = sample_link []" for n
    by (simp_all add: sample_link_def)
  have "delimiter \<notin> set ''{half''" by code_simp
  moreover have "length ''{half'' < maxQGAFrameBytes" by (simp add: maxQGAFrameBytes_def)
  ultimately show ?thesis
    by (rule qga_sync_discards_noise [where link = "sample_link []" and s = ?s, unfolded bytes])
qed

section \<open>External requests\<close>

lemma member_of_keys: "member_of kvs k \<noteq> None \<longleftrightarrow> k \<in> fst ` set kvs"
  unfolding member_of_def by (metis map_of_eq_None_iff set_rev)

lemma object_members_iff: "object_members v = Some kvs \<longleftrightarrow> v = JObject kvs"
  by (cases v) (simp_all add: object_members_def)

text \<open>C28. A request from outside is accepted exactly when it is one JSON object whose only members are
  a name that is not blank and, if present, arguments that are an object.\<close>

theorem guest_request_strict:
  "DecodeGuestAgentRequest J data = Inr q \<longleftrightarrow>
     (\<exists>kvs. has_prefix (TrimSpace data) ''{'' \<and> single_value J (TrimSpace data) = Inr (JObject kvs)
        \<and> fst ` set kvs \<subseteq> {''execute'', ''arguments''}
        \<and> member_of kvs ''execute'' = Some (JString (ga_execute q)) \<and> \<not> blank (ga_execute q)
        \<and> member_of kvs ''arguments'' = ga_arguments q
        \<and> pred_option is_object (ga_arguments q))"
    (is "?lhs \<longleftrightarrow> ?rhs")
proof -
  have brace: "has_prefix s ''{'' \<longleftrightarrow> s \<noteq> [] \<and> hd s = CHR ''{''" for s
    by (cases s) (auto simp: has_prefix_def)
  have unknown: "unknown_members kvs = [] \<longleftrightarrow> fst ` set kvs \<subseteq> {''execute'', ''arguments''}" for kvs
  proof -
    have "unknown_members kvs = [] \<longleftrightarrow> List.filter (\<lambda>k. k \<noteq> ''execute'' \<and> k \<noteq> ''arguments'') (List.map fst kvs) = []"
      unfolding unknown_members_def by (simp only: set_empty [symmetric] set_sort)
    also have "\<dots> \<longleftrightarrow> fst ` set kvs \<subseteq> {''execute'', ''arguments''}" by (auto simp: filter_empty_conv)
    finally show ?thesis .
  qed
  have str: "into_string [] v = Some s \<and> \<not> blank s \<longleftrightarrow> v = JString s \<and> \<not> blank s" for v s
    by (cases v) auto
  have args: "validateGuestAgentArguments a = Inr b \<longleftrightarrow> a = b \<and> pred_option is_object b" for a b
    by (auto simp: validateGuestAgentArguments_def split: option.splits if_splits)
  have members: "request_of_members kvs = Inr q \<longleftrightarrow>
      fst ` set kvs \<subseteq> {''execute'', ''arguments''}
      \<and> member_of kvs ''execute'' = Some (JString (ga_execute q)) \<and> \<not> blank (ga_execute q)
      \<and> member_of kvs ''arguments'' = ga_arguments q
      \<and> pred_option is_object (ga_arguments q)" for kvs
  proof -
    have "request_of_members kvs = Inr q \<longleftrightarrow> (\<exists>v. member_of kvs ''execute'' = Some v
        \<and> (into_string [] v = Some (ga_execute q) \<and> \<not> blank (ga_execute q))
        \<and> validateGuestAgentArguments (member_of kvs ''arguments'') = Inr (ga_arguments q)
        \<and> unknown_members kvs = [])"
      by (cases q; cases "unknown_members kvs") (auto simp: request_of_members_def bindE_Inr_iff split: option.splits list.splits if_splits)
    then show ?thesis unfolding str unknown args by auto
  qed
  have "?lhs \<longleftrightarrow> (\<exists>kvs. has_prefix (TrimSpace data) ''{'' \<and> single_value J (TrimSpace data) = Inr (JObject kvs)
      \<and> request_of_members kvs = Inr q)"
    unfolding brace
    by (auto simp: DecodeGuestAgentRequest_def Let_def bindE_Inr_iff object_members_iff
        split: option.splits if_splits)
  then show ?thesis unfolding members .
qed

end
