(* ===== verification/Guest.thy ===== *)
theory Guest
  imports Qga
begin

text \<open>
  The guest observations of \<open>internal/qemu/qga_monitoring.go\<close>: what the guest agent's answers are
  decoded to, family by family, and one round of collection. Quotients of counters are exact where
  the code rounds them to \<open>float64\<close>; addresses are those of \<open>net/netip\<close>, a parameter.
\<close>

section \<open>Observations\<close>

record ObservationResult =
  or_code :: string
  or_failed :: bool

definition ok_result :: ObservationResult where "ok_result = \<lparr>or_code = [], or_failed = False\<rparr>"

definition failed_with :: "string \<Rightarrow> ObservationResult" where
  "failed_with code = \<lparr>or_code = code, or_failed = True\<rparr>"

definition result_OK :: "ObservationResult \<Rightarrow> bool" where
  "result_OK r \<longleftrightarrow> \<not> or_failed r \<and> or_code r = []"

record GuestInfo =
  gi_version :: string
  gi_capabilities :: "(string \<times> bool) list"

record GuestCPU =
  gc_cpu :: int
  gc_seconds :: "(string \<times> rat) list"

record GuestLoad =
  gl_load1 :: "rat option"
  gl_load5 :: "rat option"
  gl_load15 :: "rat option"

record GuestVCPU =
  gv_logical_id :: int
  gv_online :: bool

record GuestFilesystem =
  gf_mountpoint :: string
  gf_type :: string
  gf_size :: "u64 option"
  gf_used :: "u64 option"

record GuestIPAddress =
  ip_address :: string
  ip_family :: string
  ip_prefix :: int

record GuestNetworkInterface =
  gn_name :: string
  gn_addresses_present :: bool
  gn_addresses :: "GuestIPAddress list"
  gn_counters :: "(string \<times> u64) list"

record GuestDisk =
  gd_device :: string
  gd_counters :: "(string \<times> u64) list"
  gd_seconds :: "(string \<times> rat) list"

text \<open>The counters of an interface and of a disk are kept under the agent's own names.\<close>

record GuestObservation =
  go_info :: GuestInfo
  go_cpu :: "GuestCPU list"
  go_load :: "GuestLoad option"
  go_vcpus :: "GuestVCPU list"
  go_clock :: "rat option"
  go_frozen :: "bool option"
  go_filesystems :: "GuestFilesystem list"
  go_networks :: "GuestNetworkInterface list"
  go_disks :: "GuestDisk list"
  go_results :: "(string \<times> ObservationResult) list"

section \<open>Answers\<close>

definition into_members :: "(string \<times> json) list option into" where
  "into_members x v =
     (case v of
        JNull \<Rightarrow> Some None
      | JObject kvs \<Rightarrow> Some (Some ((case x of None \<Rightarrow> [] | Some old \<Rightarrow> old) @ kvs))
      | _ \<Rightarrow> None)"

text \<open>A slice of records; \<open>None\<close> when it does not decode or is null.\<close>

definition records :: "'a \<Rightarrow> 'a into \<Rightarrow> json \<Rightarrow> 'a list option" where
  "records zero d v = Option.bind (into_slice zero d None v) id"

text \<open>Every element, or nothing.\<close>

fun all_of :: "('a \<Rightarrow> 'b option) \<Rightarrow> 'a list \<Rightarrow> 'b list option" where
  "all_of f [] = Some []"
| "all_of f (x # xs) = (case f x of None \<Rightarrow> None | Some y \<Rightarrow> map_option ((#) y) (all_of f xs))"

definition decodeGuestInfo :: "json \<Rightarrow> GuestInfo option" where
  "decodeGuestInfo v =
     Option.bind
       (into_struct (\<lambda>_ kvs.
          Option.bind (field (into_pointer [] into_string) None ''version'' kvs) (\<lambda>ver.
          Option.bind (field (into_slice (None, None) (into_struct (\<lambda>(n, e) kvs.
              Option.bind (field (into_pointer [] into_string) n ''name'' kvs) (\<lambda>n.
              Option.bind (field (into_pointer False into_bool) e ''enabled'' kvs) (\<lambda>e. Some (n, e))))))
            None ''supported_commands'' kvs) (\<lambda>cs. Some (ver, cs)))) (None, None) v)
       (\<lambda>(ver, cs).
          case (ver, cs) of
            (Some ver, Some cs) \<Rightarrow>
              map_option (\<lambda>caps. \<lparr>gi_version = ver, gi_capabilities = fold (\<lambda>(n, e). AList.update n e) caps []\<rparr>)
                (all_of (\<lambda>(n, e). case (n, e) of
                   (Some n, Some e) \<Rightarrow> if n = [] then None else Some (n, e) | _ \<Rightarrow> None) cs)
          | _ \<Rightarrow> None)"

definition nonnegative :: "json \<Rightarrow> int option" where
  "nonnegative v = Option.bind (into_int64 0 v) (\<lambda>i. if i < 0 then None else Some i)"

definition cpu_modes :: "string list" where
  "cpu_modes = [''user'', ''nice'', ''system'', ''idle'', ''iowait'', ''irq'', ''softirq'', ''steal'', ''guest'', ''guestnice'']"

text \<open>The named members that are present, in the order of the names, each decoded; nothing if one
  does not decode.\<close>

fun present :: "(json \<Rightarrow> 'b option) \<Rightarrow> (string \<times> json) list \<Rightarrow> string list \<Rightarrow> (string \<times> 'b) list option" where
  "present d kvs [] = Some []"
| "present d kvs (m # ms) =
     (case member_of kvs m of
        None \<Rightarrow> present d kvs ms
      | Some v \<Rightarrow> Option.bind (d v) (\<lambda>x. map_option ((#) (m, x)) (present d kvs ms)))"

definition thousandths :: "json \<Rightarrow> rat option" where
  "thousandths v = map_option (\<lambda>i. of_int i / 1000) (nonnegative v)"

definition decode_cpu :: "(string \<times> json) list option \<Rightarrow> GuestCPU option" where
  "decode_cpu found =
     (let kvs = (case found of None \<Rightarrow> [] | Some kvs \<Rightarrow> kvs)
      in Option.bind (member_of kvs ''cpu'') (\<lambda>v.
         Option.bind (nonnegative v) (\<lambda>cpu.
         Option.bind (present thousandths kvs cpu_modes) (\<lambda>seconds.
           Some \<lparr>gc_cpu = cpu, gc_seconds = seconds\<rparr>))))"

definition decodeGuestCPU :: "json \<Rightarrow> GuestCPU list option" where
  "decodeGuestCPU v =
     Option.bind (records None into_members v) (\<lambda>rs.
       map_option (sort_key gc_cpu) (all_of decode_cpu rs))"

text \<open>A number as \<open>float64\<close>, which is a parameter; \<open>None\<close> when it is out of range or no number.\<close>

definition decodeGuestLoad :: "(string \<Rightarrow> rat option) \<Rightarrow> json \<Rightarrow> GuestLoad option" where
  "decodeGuestLoad F v =
     (let number = (\<lambda>v. case v of
            JNull \<Rightarrow> Some 0
          | JNumber lit \<Rightarrow> Option.bind (F lit) (\<lambda>r. if r < 0 then None else Some r)
          | _ \<Rightarrow> None)
      in Option.bind (object_members v) (\<lambda>kvs.
           map_option (\<lambda>ps. \<lparr>gl_load1 = map_of ps ''load1'', gl_load5 = map_of ps ''load5'', gl_load15 = map_of ps ''load15''\<rparr>)
             (present number kvs [''load1'', ''load5'', ''load15''])))"

definition decodeGuestVCPUs :: "json \<Rightarrow> GuestVCPU list option" where
  "decodeGuestVCPUs v =
     Option.bind
       (records (None, None) (into_struct (\<lambda>(i, e) kvs.
          Option.bind (field (into_pointer 0 into_int64) i ''logical-id'' kvs) (\<lambda>i.
          Option.bind (field (into_pointer False into_bool) e ''online'' kvs) (\<lambda>e. Some (i, e))))) v)
       (\<lambda>rs. map_option (sort_key gv_logical_id)
          (all_of (\<lambda>(i, e). case (i, e) of
             (Some i, Some e) \<Rightarrow> if i < 0 then None else Some \<lparr>gv_logical_id = i, gv_online = e\<rparr>
           | _ \<Rightarrow> None) rs))"

definition decodeGuestFilesystems :: "json \<Rightarrow> GuestFilesystem list option" where
  "decodeGuestFilesystems v =
     Option.bind
       (records (None, None, None, None) (into_struct (\<lambda>(m, t, s, u) kvs.
          Option.bind (field (into_pointer [] into_string) m ''mountpoint'' kvs) (\<lambda>m.
          Option.bind (field (into_pointer [] into_string) t ''type'' kvs) (\<lambda>t.
          Option.bind (field (into_pointer 0 into_int64) s ''total-bytes'' kvs) (\<lambda>s.
          Option.bind (field (into_pointer 0 into_int64) u ''used-bytes'' kvs) (\<lambda>u. Some (m, t, s, u))))))) v)
       (\<lambda>rs. map_option (sort_key (\<lambda>f. (gf_mountpoint f, gf_type f)))
          (all_of (\<lambda>(m, t, s, u). case (m, t, optionalUint64 ''total-bytes'' s, optionalUint64 ''used-bytes'' u) of
             (Some m, Some t, Inr s, Inr u) \<Rightarrow> Some \<lparr>gf_mountpoint = m, gf_type = t, gf_size = s, gf_used = u\<rparr>
           | _ \<Rightarrow> None) rs))"

definition interface_counters :: "string list" where
  "interface_counters =
     [''rx-bytes'', ''tx-bytes'', ''rx-packets'', ''tx-packets'', ''rx-errs'', ''tx-errs'', ''rx-dropped'', ''tx-dropped'']"

text \<open>\<open>net/netip\<close>: whether an address is an IPv4 one, its canonical text, and its rank among those of
  its family.\<close>

type_synonym netip = "string \<Rightarrow> (bool \<times> string \<times> nat \<times> string) option"

definition decode_address ::
  "netip \<Rightarrow> string option \<times> string option \<times> int option \<Rightarrow> (GuestIPAddress \<times> nat \<times> string) option" where
  "decode_address N r =
     (case r of
        (Some a, Some t, Some p) \<Rightarrow>
          Option.bind (N a) (\<lambda>(is4, canonical, rank).
            let fam = (if is4 then ''ipv4'' else ''ipv6''); maximum = (if is4 then 32 else 128)
            in if t \<noteq> fam \<or> p < 0 \<or> maximum < p then None
               else Some (\<lparr>ip_address = canonical, ip_family = fam, ip_prefix = p\<rparr>, rank))
      | _ \<Rightarrow> None)"

text \<open>The first of each set of equal addresses is kept.\<close>

definition keep_new ::
  "GuestIPAddress \<times> nat \<times> string \<Rightarrow> (GuestIPAddress \<times> nat \<times> string) list \<Rightarrow> (GuestIPAddress \<times> nat \<times> string) list" where
  "keep_new x kept = (if fst x \<in> fst ` set kept then kept else x # kept)"

definition first_of_each :: "(GuestIPAddress \<times> nat \<times> string) list \<Rightarrow> (GuestIPAddress \<times> nat \<times> string) list" where
  "first_of_each xs = rev (fold keep_new xs [])"

definition decodeGuestAddresses :: "netip \<Rightarrow> json \<Rightarrow> GuestIPAddress list option" where
  "decodeGuestAddresses N v =
     Option.bind
       (records (None, None, None) (into_struct (\<lambda>(a, t, p) kvs.
          Option.bind (field (into_pointer [] into_string) a ''ip-address'' kvs) (\<lambda>a.
          Option.bind (field (into_pointer [] into_string) t ''ip-address-type'' kvs) (\<lambda>t.
          Option.bind (field (into_pointer 0 into_int64) p ''prefix'' kvs) (\<lambda>p. Some (a, t, p)))))) v)
       (\<lambda>rs. map_option
          (\<lambda>xs. List.map fst (sort_key (\<lambda>(a, rank). (ip_family a, rank, ip_prefix a)) (first_of_each xs)))
          (all_of (decode_address N) rs))"

fun decode_pointers :: "string list \<Rightarrow> qmpBlockStats \<Rightarrow> (string \<times> json) list \<Rightarrow> qmpBlockStats option" where
  "decode_pointers [] s kvs = Some s"
| "decode_pointers (m # ms) s kvs =
     Option.bind (field (into_pointer 0 into_int64) (s m) m kvs) (\<lambda>v. decode_pointers ms (s(m := v)) kvs)"

fun unsigned_counters :: "(string \<Rightarrow> int option) \<Rightarrow> string list \<Rightarrow> (string \<times> u64) list option" where
  "unsigned_counters s [] = Some []"
| "unsigned_counters s (m # ms) =
     (case optionalUint64 m (s m) of
        Inl _ \<Rightarrow> None
      | Inr v \<Rightarrow> map_option (\<lambda>rest. case v of None \<Rightarrow> rest | Some n \<Rightarrow> (m, n) # rest) (unsigned_counters s ms))"

text \<open>An interface, or \<open>None\<close> for one that reports neither addresses nor counters.\<close>

definition decode_interface ::
  "netip \<Rightarrow> string option \<times> json option \<times> (string \<Rightarrow> int option) option \<Rightarrow> GuestNetworkInterface option option" where
  "decode_interface N r =
     (case r of (name, addresses, statistics) \<Rightarrow>
        (case name of
           None \<Rightarrow> None
         | Some n \<Rightarrow>
             if n = [] then None
             else Option.bind (case addresses of None \<Rightarrow> Some [] | Some v \<Rightarrow> decodeGuestAddresses N v) (\<lambda>as.
                  Option.bind (case statistics of None \<Rightarrow> Some [] | Some s \<Rightarrow> unsigned_counters s interface_counters) (\<lambda>cs.
                    Some (if statistics \<noteq> None \<or> addresses \<noteq> None
                          then Some \<lparr>gn_name = n, gn_addresses_present = (addresses \<noteq> None), gn_addresses = as, gn_counters = cs\<rparr>
                          else None)))))"

definition decodeGuestNetworks :: "netip \<Rightarrow> json \<Rightarrow> GuestNetworkInterface list option" where
  "decodeGuestNetworks N v =
     Option.bind
       (records (None, None, None) (into_struct (\<lambda>(n, a, s) kvs.
          Option.bind (field (into_pointer [] into_string) n ''name'' kvs) (\<lambda>n.
          Option.bind (field into_raw a ''ip-addresses'' kvs) (\<lambda>a.
          Option.bind (field (into_pointer (\<lambda>_. None) (into_struct (decode_pointers interface_counters))) s ''statistics'' kvs)
            (\<lambda>s. Some (n, a, s)))))) v)
       (\<lambda>rs. map_option (\<lambda>xs. sort_key gn_name (List.map_filter id xs)) (all_of (decode_interface N) rs))"

definition disk_counters :: "string list" where
  "disk_counters =
     [''read-sectors'', ''write-sectors'', ''discard-sectors'', ''read-ios'', ''write-ios'', ''discard-ios'',
      ''flush-ios'', ''read-merges'', ''write-merges'', ''discard-merges'', ''ios-progress'']"

definition disk_times :: "string list" where
  "disk_times = [''read-ticks'', ''write-ticks'', ''discard-ticks'', ''flush-ticks'', ''weighted-times'']"

definition decode_disk :: "string option \<times> (string \<times> json) list option \<Rightarrow> GuestDisk option" where
  "decode_disk r =
     (case r of
        (Some name, Some kvs) \<Rightarrow>
          if \<not> qmpDeviceLabelPattern name then None
          else Option.bind (present (\<lambda>v. map_option word_of_int (nonnegative v)) kvs disk_counters) (\<lambda>cs.
               Option.bind (present thousandths kvs disk_times) (\<lambda>ts.
                 Some \<lparr>gd_device = name, gd_counters = cs, gd_seconds = ts\<rparr>))
      | _ \<Rightarrow> None)"

definition decodeGuestDisks :: "json \<Rightarrow> GuestDisk list option" where
  "decodeGuestDisks v =
     Option.bind
       (records (None, None) (into_struct (\<lambda>(n, s) kvs.
          Option.bind (field (into_pointer [] into_string) n ''name'' kvs) (\<lambda>n.
          Option.bind (field into_members s ''stats'' kvs) (\<lambda>s. Some (n, s))))) v)
       (\<lambda>rs. map_option (sort_key gd_device) (all_of decode_disk rs))"

section \<open>One round of collection\<close>

definition guestCommands :: "(string \<times> string) list" where
  "guestCommands =
     [(''clock'', ''guest-get-time''), (''cpu'', ''guest-get-cpustats''), (''disk'', ''guest-get-diskstats''),
      (''filesystem_freeze'', ''guest-fsfreeze-status''), (''filesystems'', ''guest-get-fsinfo''),
      (''load'', ''guest-get-load''), (''network'', ''guest-network-get-interfaces''), (''vcpus'', ''guest-get-vcpus'')]"

fun root_error :: "qga_error \<Rightarrow> qga_error" where
  "root_error (QgaSync e) = root_error e"
| "root_error e = e"

definition qgaObservationResult :: "qga_error \<Rightarrow> ObservationResult" where
  "qgaObservationResult e =
     (case root_error e of
        QgaContext CtxDeadlineExceeded \<Rightarrow> failed_with ''guest_agent_timeout''
      | QgaConnect d \<Rightarrow>
          failed_with (if d = ''i/o timeout'' then ''guest_agent_timeout'' else ''guest_agent_unavailable'')
      | QgaCommand _ \<Rightarrow> failed_with ''guest_agent_command_failed''
      | _ \<Rightarrow> failed_with ''guest_agent_unavailable'')"

text \<open>What the decoders need beside the answer: number literals, addresses, and the host's clock, in
  nanoseconds, in the middle of the call.\<close>

record guest_lib =
  gb_number :: "string \<Rightarrow> rat option"
  gb_netip :: netip
  gb_midpoint :: int

text \<open>The observation after decoding the answer of one family; whether it decoded.\<close>

definition decodeGuestFamily :: "guest_lib \<Rightarrow> string \<Rightarrow> json \<Rightarrow> GuestObservation \<Rightarrow> bool \<times> GuestObservation" where
  "decodeGuestFamily G key v ob =
     (if key = ''cpu'' then
        (decodeGuestCPU v \<noteq> None, ob\<lparr>go_cpu := (case decodeGuestCPU v of None \<Rightarrow> [] | Some x \<Rightarrow> x)\<rparr>)
      else if key = ''load'' then
        (decodeGuestLoad (gb_number G) v \<noteq> None, ob\<lparr>go_load := decodeGuestLoad (gb_number G) v\<rparr>)
      else if key = ''vcpus'' then
        (decodeGuestVCPUs v \<noteq> None, ob\<lparr>go_vcpus := (case decodeGuestVCPUs v of None \<Rightarrow> [] | Some x \<Rightarrow> x)\<rparr>)
      else if key = ''clock'' then
        (case nonnegative v of
           None \<Rightarrow> (False, ob)
         | Some n \<Rightarrow> (True, ob\<lparr>go_clock := Some (of_int (n - gb_midpoint G) / 1000000000)\<rparr>))
      else if key = ''filesystem_freeze'' then
        (case into_string [] v of
           None \<Rightarrow> (False, ob)
         | Some status \<Rightarrow>
             if status = ''frozen'' \<or> status = ''thawed'' then (True, ob\<lparr>go_frozen := Some (status = ''frozen'')\<rparr>)
             else (False, ob))
      else if key = ''filesystems'' then
        (decodeGuestFilesystems v \<noteq> None,
         ob\<lparr>go_filesystems := (case decodeGuestFilesystems v of None \<Rightarrow> [] | Some x \<Rightarrow> x)\<rparr>)
      else if key = ''network'' then
        (decodeGuestNetworks (gb_netip G) v \<noteq> None,
         ob\<lparr>go_networks := (case decodeGuestNetworks (gb_netip G) v of None \<Rightarrow> [] | Some x \<Rightarrow> x)\<rparr>)
      else if key = ''disk'' then
        (decodeGuestDisks v \<noteq> None, ob\<lparr>go_disks := (case decodeGuestDisks v of None \<Rightarrow> [] | Some x \<Rightarrow> x)\<rparr>)
      else (False, ob))"

definition add_result :: "string \<Rightarrow> ObservationResult \<Rightarrow> GuestObservation \<Rightarrow> GuestObservation" where
  "add_result key r ob = ob\<lparr>go_results := go_results ob @ [(key, r)]\<rparr>"

text \<open>One family: left alone when the agent does not offer the command.\<close>

definition collect_family ::
  "(string \<Rightarrow> guest_lib) \<Rightarrow> (GuestAgentRequest \<Rightarrow> 's \<Rightarrow> (qga_error + json) \<times> 's) \<Rightarrow> string \<times> string
   \<Rightarrow> GuestObservation \<times> 's \<Rightarrow> GuestObservation \<times> 's" where
  "collect_family G call kc p =
     (case (kc, p) of ((key, command), (ob, st)) \<Rightarrow>
        if map_of (gi_capabilities (go_info ob)) command \<noteq> Some True then
          (add_result key \<lparr>or_code = ''guest_agent_command_disabled'', or_failed = False\<rparr> ob, st)
        else (case call \<lparr>ga_execute = command, ga_arguments = None\<rparr> st of
          (Inl e, st) \<Rightarrow> (add_result key (qgaObservationResult e) ob, st)
        | (Inr v, st) \<Rightarrow>
            (case decodeGuestFamily (G key) key v ob of
               (ok, ob) \<Rightarrow> (add_result key (if ok then ok_result else failed_with ''guest_agent_protocol_error'') ob, st))))"

definition no_guest :: GuestObservation where
  "no_guest =
     \<lparr>go_info = \<lparr>gi_version = [], gi_capabilities = []\<rparr>, go_cpu = [], go_load = None, go_vcpus = [], go_clock = None,
      go_frozen = None, go_filesystems = [], go_networks = [], go_disks = [], go_results = []\<rparr>"

definition CollectGuest ::
  "(string \<Rightarrow> guest_lib) \<Rightarrow> bool \<Rightarrow> (GuestAgentRequest \<Rightarrow> 's \<Rightarrow> (qga_error + json) \<times> 's) \<Rightarrow> 's \<Rightarrow> GuestObservation \<times> 's" where
  "CollectGuest G useQGA call st =
     (if \<not> useQGA then (add_result ''info'' (failed_with ''guest_agent_not_configured'') no_guest, st)
      else case call \<lparr>ga_execute = ''guest-info'', ga_arguments = None\<rparr> st of
        (Inl e, st) \<Rightarrow> (add_result ''info'' (qgaObservationResult e) no_guest, st)
      | (Inr v, st) \<Rightarrow>
          (case decodeGuestInfo v of
             None \<Rightarrow> (add_result ''info'' (failed_with ''guest_agent_protocol_error'') no_guest, st)
           | Some info \<Rightarrow> fold (collect_family G call) guestCommands (no_guest\<lparr>go_info := info\<rparr>, st)))"

definition PingGuest ::
  "bool \<Rightarrow> (GuestAgentRequest \<Rightarrow> 's \<Rightarrow> (qga_error + json) \<times> 's) \<Rightarrow> 's \<Rightarrow> ObservationResult \<times> 's" where
  "PingGuest useQGA call st =
     (if \<not> useQGA then (failed_with ''guest_agent_not_configured'', st)
      else case call \<lparr>ga_execute = ''guest-ping'', ga_arguments = None\<rparr> st of
        (Inl e, st) \<Rightarrow>
          (let r = qgaObservationResult e
           in (if or_code r = ''guest_agent_command_failed'' then r\<lparr>or_code := ''guest_agent_unavailable''\<rparr> else r, st))
      | (Inr v, st) \<Rightarrow> (if is_object v then ok_result else failed_with ''guest_agent_protocol_error'', st))"

section \<open>What is reported\<close>

lemma all_of_in: "all_of f xs = Some ys \<Longrightarrow> y \<in> set ys \<Longrightarrow> \<exists>x \<in> set xs. f x = Some y"
  by (induction xs arbitrary: ys) (auto split: option.splits)

lemma keep_new_distinct:
  "distinct (List.map fst kept) \<Longrightarrow> distinct (List.map fst (fold keep_new xs kept))"
  by (induction xs arbitrary: kept) (simp_all add: keep_new_def)

lemma keep_new_set: "set (fold keep_new xs kept) \<subseteq> set xs \<union> set kept"
proof (induction xs arbitrary: kept)
  case (Cons x xs)
  from Cons.IH [of "keep_new x kept"] show ?case by (auto simp: keep_new_def split: if_splits)
qed simp

lemma first_of_each_distinct: "distinct (List.map fst (first_of_each xs))"
  using keep_new_distinct [of "[]" xs] by (simp add: first_of_each_def rev_map [symmetric])

lemma first_of_each_set: "set (first_of_each xs) \<subseteq> set xs"
  using keep_new_set [of xs "[]"] by (simp add: first_of_each_def)

definition address_ok :: "GuestIPAddress \<Rightarrow> bool" where
  "address_ok a \<longleftrightarrow> 0 \<le> ip_prefix a
     \<and> (ip_family a = ''ipv4'' \<and> ip_prefix a \<le> 32 \<or> ip_family a = ''ipv6'' \<and> ip_prefix a \<le> 128)"

lemma decodeGuestAddresses_ok:
  assumes "decodeGuestAddresses N v = Some as"
  shows "distinct as \<and> list_all address_ok as"
proof -
  obtain rs xs where *: "all_of (decode_address N) rs = Some xs"
    "as = List.map fst (sort_key (\<lambda>(a, rank). (ip_family a, rank, ip_prefix a)) (first_of_each xs))"
    using assms by (auto simp: decodeGuestAddresses_def bind_eq_Some_conv)
  have ok: "decode_address N r = Some x \<Longrightarrow> address_ok (fst x)" for r x
    by (auto simp: decode_address_def address_ok_def bind_eq_Some_conv Let_def split: prod.splits option.splits if_splits)
  have "address_ok a" if "a \<in> set as" for a
  proof -
    from that obtain x where "x \<in> set xs" "a = fst x"
      using first_of_each_set by (auto simp: *(2)) blast
    then show ?thesis using all_of_in [OF *(1)] ok by blast
  qed
  moreover have "distinct as"
    using first_of_each_distinct [of xs] by (simp add: *(2) distinct_map)
  ultimately show ?thesis by (simp add: list_all_iff)
qed

lemma add_result_simps [simp]:
  "go_info (add_result k r ob) = go_info ob" "go_results (add_result k r ob) = go_results ob @ [(k, r)]"
  by (simp_all add: add_result_def)

lemma decodeGuestFamily_keeps [simp]:
  "go_info (snd (decodeGuestFamily G key v ob)) = go_info ob"
  "go_results (snd (decodeGuestFamily G key v ob)) = go_results ob"
  by (auto simp: decodeGuestFamily_def split: option.splits)

definition enabled_requests :: "GuestInfo \<Rightarrow> (string \<times> string) list \<Rightarrow> GuestAgentRequest list" where
  "enabled_requests info kcs =
     List.map (\<lambda>(_, command). \<lparr>ga_execute = command, ga_arguments = None\<rparr>)
       (List.filter (\<lambda>(_, command). map_of (gi_capabilities info) command = Some True) kcs)"

text \<open>What an agent that answers by \<open>reply\<close> contributes to a family: its answer when the command is
  enabled and did not fail, the decoded value or nothing, and the family's one result.\<close>

definition answer_of :: "(GuestAgentRequest \<Rightarrow> qga_error + json) \<Rightarrow> GuestInfo \<Rightarrow> string \<Rightarrow> json option" where
  "answer_of reply info command =
     (if map_of (gi_capabilities info) command = Some True
      then (case reply \<lparr>ga_execute = command, ga_arguments = None\<rparr> of Inl _ \<Rightarrow> None | Inr v \<Rightarrow> Some v)
      else None)"

definition listed :: "'a list option \<Rightarrow> 'a list" where
  "listed x = (case x of None \<Rightarrow> [] | Some xs \<Rightarrow> xs)"

definition clock_offset :: "int \<Rightarrow> json \<Rightarrow> rat option" where
  "clock_offset midpoint v = map_option (\<lambda>n. of_int (n - midpoint) / 1000000000) (nonnegative v)"

definition frozen_status :: "json \<Rightarrow> bool option" where
  "frozen_status v =
     Option.bind (into_string [] v) (\<lambda>s. if s = ''frozen'' then Some True else if s = ''thawed'' then Some False else None)"

definition decodable :: "guest_lib \<Rightarrow> string \<Rightarrow> json \<Rightarrow> bool" where
  "decodable G key v \<longleftrightarrow>
     (key = ''cpu'' \<and> decodeGuestCPU v \<noteq> None) \<or> (key = ''load'' \<and> decodeGuestLoad (gb_number G) v \<noteq> None)
     \<or> (key = ''vcpus'' \<and> decodeGuestVCPUs v \<noteq> None) \<or> (key = ''clock'' \<and> nonnegative v \<noteq> None)
     \<or> (key = ''filesystem_freeze'' \<and> frozen_status v \<noteq> None)
     \<or> (key = ''filesystems'' \<and> decodeGuestFilesystems v \<noteq> None)
     \<or> (key = ''network'' \<and> decodeGuestNetworks (gb_netip G) v \<noteq> None)
     \<or> (key = ''disk'' \<and> decodeGuestDisks v \<noteq> None)"

definition family_result ::
  "(string \<Rightarrow> guest_lib) \<Rightarrow> (GuestAgentRequest \<Rightarrow> qga_error + json) \<Rightarrow> GuestInfo \<Rightarrow> string \<times> string \<Rightarrow> ObservationResult" where
  "family_result G reply info kc =
     (if map_of (gi_capabilities info) (snd kc) \<noteq> Some True
      then \<lparr>or_code = ''guest_agent_command_disabled'', or_failed = False\<rparr>
      else case reply \<lparr>ga_execute = snd kc, ga_arguments = None\<rparr> of
        Inl e \<Rightarrow> qgaObservationResult e
      | Inr v \<Rightarrow> if decodable (G (fst kc)) (fst kc) v then ok_result else failed_with ''guest_agent_protocol_error'')"

text \<open>The observation after a family, field by field.\<close>

definition with_family ::
  "(string \<Rightarrow> guest_lib) \<Rightarrow> (GuestAgentRequest \<Rightarrow> qga_error + json) \<Rightarrow> string \<times> string \<Rightarrow> GuestObservation \<Rightarrow> GuestObservation" where
  "with_family G reply kc ob =
     (case answer_of reply (go_info ob) (snd kc) of
        None \<Rightarrow> ob
      | Some v \<Rightarrow> snd (decodeGuestFamily (G (fst kc)) (fst kc) v ob))"

lemma decodeGuestFamily_decodable: "fst (decodeGuestFamily G key v ob) = decodable G key v"
proof -
  have frozen: "fst (case into_string [] v of None \<Rightarrow> (False, ob)
      | Some status \<Rightarrow> if status = ''frozen'' \<or> status = ''thawed'' then (True, f status) else (False, ob)) = (frozen_status v \<noteq> None)"
    for f by (cases "into_string [] v") (auto simp: frozen_status_def)
  have clock: "fst (case nonnegative v of None \<Rightarrow> (False, ob) | Some n \<Rightarrow> (True, f n)) = (nonnegative v \<noteq> None)" for f
    by (simp split: option.split)
  show ?thesis unfolding decodeGuestFamily_def decodable_def
    by (simp only: if_distrib [of fst] frozen clock fst_conv) simp
qed

lemma collect_family_step:
  "collect_family G (\<lambda>r asked. (reply r, asked @ [r])) kc (ob, asked) =
     (add_result (fst kc) (family_result G reply (go_info ob) kc) (with_family G reply kc ob),
      asked @ enabled_requests (go_info ob) [kc])"
proof (cases kc)
  case (Pair key command)
  show ?thesis
  proof (cases "reply \<lparr>ga_execute = command, ga_arguments = None\<rparr>")
    case (Inl e)
    then show ?thesis
      by (simp add: Pair collect_family_def family_result_def with_family_def answer_of_def enabled_requests_def)
  next
    case (Inr v)
    obtain ob' where "decodeGuestFamily (G key) key v ob = (decodable (G key) key v, ob')"
      using decodeGuestFamily_decodable [of "G key" key v ob] by (cases "decodeGuestFamily (G key) key v ob") auto
    with Inr show ?thesis
      by (simp add: Pair collect_family_def family_result_def with_family_def answer_of_def enabled_requests_def)
  qed
qed

lemma with_family_simps [simp]:
  "go_info (with_family G reply kc ob) = go_info ob" "go_results (with_family G reply kc ob) = go_results ob"
  by (simp_all add: with_family_def split: option.splits)

lemma collect_families:
  "fold (collect_family G (\<lambda>r asked. (reply r, asked @ [r]))) kcs (ob, asked) =
     (fold (\<lambda>kc ob. add_result (fst kc) (family_result G reply (go_info ob) kc) (with_family G reply kc ob)) kcs ob,
      asked @ enabled_requests (go_info ob) kcs)"
proof (induction kcs arbitrary: ob asked)
  case (Cons kc kcs)
  have "enabled_requests info (kc # kcs) = enabled_requests info [kc] @ enabled_requests info kcs" for info
    by (simp add: enabled_requests_def)
  with Cons show ?case by (simp add: collect_family_step)
qed (simp add: enabled_requests_def)

lemma collected_results:
  "go_info (fold (\<lambda>kc ob. add_result (fst kc) (family_result G reply (go_info ob) kc) (with_family G reply kc ob)) kcs ob) = go_info ob"
  "go_results (fold (\<lambda>kc ob. add_result (fst kc) (family_result G reply (go_info ob) kc) (with_family G reply kc ob)) kcs ob)
     = go_results ob @ List.map (\<lambda>kc. (fst kc, family_result G reply (go_info ob) kc)) kcs"
  by (induction kcs arbitrary: ob) simp_all

lemma with_family_fields:
  "go_cpu (with_family G reply (k, c) ob) =
     (if k = ''cpu'' \<and> answer_of reply (go_info ob) c \<noteq> None
      then listed (Option.bind (answer_of reply (go_info ob) c) decodeGuestCPU) else go_cpu ob)"
  "go_load (with_family G reply (k, c) ob) =
     (if k = ''load'' \<and> answer_of reply (go_info ob) c \<noteq> None
      then Option.bind (answer_of reply (go_info ob) c) (decodeGuestLoad (gb_number (G k))) else go_load ob)"
  "go_vcpus (with_family G reply (k, c) ob) =
     (if k = ''vcpus'' \<and> answer_of reply (go_info ob) c \<noteq> None
      then listed (Option.bind (answer_of reply (go_info ob) c) decodeGuestVCPUs) else go_vcpus ob)"
  "go_filesystems (with_family G reply (k, c) ob) =
     (if k = ''filesystems'' \<and> answer_of reply (go_info ob) c \<noteq> None
      then listed (Option.bind (answer_of reply (go_info ob) c) decodeGuestFilesystems) else go_filesystems ob)"
  "go_networks (with_family G reply (k, c) ob) =
     (if k = ''network'' \<and> answer_of reply (go_info ob) c \<noteq> None
      then listed (Option.bind (answer_of reply (go_info ob) c) (decodeGuestNetworks (gb_netip (G k)))) else go_networks ob)"
  "go_disks (with_family G reply (k, c) ob) =
     (if k = ''disk'' \<and> answer_of reply (go_info ob) c \<noteq> None
      then listed (Option.bind (answer_of reply (go_info ob) c) decodeGuestDisks) else go_disks ob)"
  by (auto simp: with_family_def decodeGuestFamily_def listed_def split: option.splits)

lemma with_family_clock:
  "go_clock (with_family G reply (k, c) ob) =
     (if k = ''clock'' \<and> Option.bind (answer_of reply (go_info ob) c) (clock_offset (gb_midpoint (G k))) \<noteq> None
      then Option.bind (answer_of reply (go_info ob) c) (clock_offset (gb_midpoint (G k))) else go_clock ob)"
  by (auto simp: with_family_def decodeGuestFamily_def clock_offset_def split: option.splits)

lemma with_family_frozen:
  "go_frozen (with_family G reply (k, c) ob) =
     (if k = ''filesystem_freeze'' \<and> Option.bind (answer_of reply (go_info ob) c) frozen_status \<noteq> None
      then Option.bind (answer_of reply (go_info ob) c) frozen_status else go_frozen ob)"
  by (auto simp: with_family_def decodeGuestFamily_def frozen_status_def split: option.splits)

lemma add_result_fields [simp]:
  "go_cpu (add_result k r ob) = go_cpu ob" "go_load (add_result k r ob) = go_load ob"
  "go_vcpus (add_result k r ob) = go_vcpus ob" "go_clock (add_result k r ob) = go_clock ob"
  "go_frozen (add_result k r ob) = go_frozen ob" "go_filesystems (add_result k r ob) = go_filesystems ob"
  "go_networks (add_result k r ob) = go_networks ob" "go_disks (add_result k r ob) = go_disks ob"
  by (simp_all add: add_result_def)

text \<open>C20. A round of collection follows what the agent answers. It asks for its information first. If that fails, or is
  not understood, nothing else is asked and the only result is that failure. If the agent answers with
  information, that is kept, exactly the families whose commands it says are enabled are asked for, in a fixed order
  and without arguments, every family gets exactly one result (disabled, failed by the answer's error, not
  understood, or good), and its data is what its answer decodes to, and nothing when there is no good
  answer.\<close>

theorem guest_collection_complete:
  assumes "CollectGuest G True (\<lambda>r asked. (reply r, asked @ [r])) [] = (ob, asked)"
  shows "case reply \<lparr>ga_execute = ''guest-info'', ga_arguments = None\<rparr> of
       Inl e \<Rightarrow> asked = [\<lparr>ga_execute = ''guest-info'', ga_arguments = None\<rparr>]
         \<and> go_results ob = [(''info'', qgaObservationResult e)]
     | Inr v \<Rightarrow>
         (case decodeGuestInfo v of
            None \<Rightarrow> asked = [\<lparr>ga_execute = ''guest-info'', ga_arguments = None\<rparr>]
              \<and> go_results ob = [(''info'', failed_with ''guest_agent_protocol_error'')]
          | Some info \<Rightarrow>
              asked = \<lparr>ga_execute = ''guest-info'', ga_arguments = None\<rparr> # enabled_requests info guestCommands
            \<and> go_info ob = info
            \<and> go_results ob = List.map (\<lambda>kc. (fst kc, family_result G reply info kc)) guestCommands
            \<and> go_cpu ob = listed (Option.bind (answer_of reply info ''guest-get-cpustats'') decodeGuestCPU)
            \<and> go_load ob = Option.bind (answer_of reply info ''guest-get-load'') (decodeGuestLoad (gb_number (G ''load'')))
            \<and> go_vcpus ob = listed (Option.bind (answer_of reply info ''guest-get-vcpus'') decodeGuestVCPUs)
            \<and> go_clock ob = Option.bind (answer_of reply info ''guest-get-time'') (clock_offset (gb_midpoint (G ''clock'')))
            \<and> go_frozen ob = Option.bind (answer_of reply info ''guest-fsfreeze-status'') frozen_status
            \<and> go_filesystems ob = listed (Option.bind (answer_of reply info ''guest-get-fsinfo'') decodeGuestFilesystems)
            \<and> go_networks ob = listed (Option.bind (answer_of reply info ''guest-network-get-interfaces'')
                (decodeGuestNetworks (gb_netip (G ''network''))))
            \<and> go_disks ob = listed (Option.bind (answer_of reply info ''guest-get-diskstats'') decodeGuestDisks))"
proof (cases "case reply \<lparr>ga_execute = ''guest-info'', ga_arguments = None\<rparr> of Inl _ \<Rightarrow> None | Inr v \<Rightarrow> decodeGuestInfo v")
  case None
  then show ?thesis using assms by (auto simp: CollectGuest_def no_guest_def split: sum.splits)
next
  case (Some info)
  let ?ob = "fold (\<lambda>kc ob. add_result (fst kc) (family_result G reply (go_info ob) kc) (with_family G reply kc ob))
    guestCommands (no_guest\<lparr>go_info := info\<rparr>)"
  from Some obtain v where v: "reply \<lparr>ga_execute = ''guest-info'', ga_arguments = None\<rparr> = Inr v" "decodeGuestInfo v = Some info"
    by (auto split: sum.splits)
  with assms have run: "ob = ?ob" "asked = \<lparr>ga_execute = ''guest-info'', ga_arguments = None\<rparr> # enabled_requests info guestCommands"
    by (simp_all add: CollectGuest_def collect_families)
  have results: "go_info ?ob = info"
    "go_results ?ob = List.map (\<lambda>kc. (fst kc, family_result G reply info kc)) guestCommands"
    by (simp_all add: collected_results no_guest_def)
  have fields: "go_cpu ?ob = listed (Option.bind (answer_of reply info ''guest-get-cpustats'') decodeGuestCPU)"
    "go_load ?ob = Option.bind (answer_of reply info ''guest-get-load'') (decodeGuestLoad (gb_number (G ''load'')))"
    "go_vcpus ?ob = listed (Option.bind (answer_of reply info ''guest-get-vcpus'') decodeGuestVCPUs)"
    "go_clock ?ob = Option.bind (answer_of reply info ''guest-get-time'') (clock_offset (gb_midpoint (G ''clock'')))"
    "go_frozen ?ob = Option.bind (answer_of reply info ''guest-fsfreeze-status'') frozen_status"
    "go_filesystems ?ob = listed (Option.bind (answer_of reply info ''guest-get-fsinfo'') decodeGuestFilesystems)"
    "go_networks ?ob = listed (Option.bind (answer_of reply info ''guest-network-get-interfaces'')
        (decodeGuestNetworks (gb_netip (G ''network''))))"
    "go_disks ?ob = listed (Option.bind (answer_of reply info ''guest-get-diskstats'') decodeGuestDisks)"
    by (simp_all add: guestCommands_def with_family_fields with_family_clock with_family_frozen no_guest_def listed_def)
  show ?thesis unfolding v(1) sum.case v(2) option.case run(1) using run(2) results fields by blast
qed

theorem guest_collection_complete_witness:
  "\<exists>ob asked. CollectGuest (\<lambda>_. \<lparr>gb_number = (\<lambda>_. None), gb_netip = (\<lambda>_. None), gb_midpoint = 0\<rparr>) True
       (\<lambda>r asked. (if ga_execute r = ''guest-info''
                 then Inr (JObject [(''version'', JString ''9''), (''supported_commands'',
                   JArray [JObject [(''name'', JString ''guest-get-time''), (''enabled'', JBool True)]])])
                 else Inr (JNumber ''5''), asked @ [r])) [] = (ob, asked)
     \<and> List.map ga_execute asked = [''guest-info'', ''guest-get-time''] \<and> length (go_results ob) = 8
     \<and> map_of (go_results ob) ''clock'' = Some ok_result \<and> go_clock ob = Some (5 / 1000000000) \<and> go_cpu ob = []"
proof -
  let ?info = "JObject [(''version'', JString ''9''), (''supported_commands'',
       JArray [JObject [(''name'', JString ''guest-get-time''), (''enabled'', JBool True)]])]"
  let ?a = "\<lambda>r. if ga_execute r = ''guest-info'' then Inr ?info else Inr (JNumber ''5'') :: qga_error + json"
  let ?i = "\<lparr>gi_version = ''9'', gi_capabilities = [(''guest-get-time'', True)]\<rparr>"
  let ?G = "\<lambda>_. \<lparr>gb_number = (\<lambda>_. None), gb_netip = (\<lambda>_. None), gb_midpoint = 0\<rparr>"
  obtain ob asked where run: "CollectGuest ?G True (\<lambda>r asked. (?a r, asked @ [r])) [] = (ob, asked)" by fastforce
  have info: "decodeGuestInfo ?info = Some ?i" by code_simp
  have time: "nonnegative (JNumber ''5'') = Some 5" by code_simp
  from guest_collection_complete [OF run] info
  have complete: "asked = \<lparr>ga_execute = ''guest-info'', ga_arguments = None\<rparr> # enabled_requests ?i guestCommands"
    "go_results ob = List.map (\<lambda>kc. (fst kc, family_result ?G ?a ?i kc)) guestCommands"
    "go_cpu ob = listed (Option.bind (answer_of ?a ?i ''guest-get-cpustats'') decodeGuestCPU)"
    "go_clock ob = Option.bind (answer_of ?a ?i ''guest-get-time'') (clock_offset 0)"
    by simp_all
  have "List.map ga_execute asked = [''guest-info'', ''guest-get-time'']"
    by (simp add: complete(1) enabled_requests_def guestCommands_def)
  moreover have "length (go_results ob) = 8" by (simp add: complete(2) guestCommands_def)
  moreover have "map_of (go_results ob) ''clock'' = Some ok_result"
    by (simp add: complete(2) guestCommands_def family_result_def decodable_def time)
  moreover have "go_cpu ob = []" "go_clock ob = Some (5 / 1000000000)"
    by (simp_all add: complete(3,4) answer_of_def listed_def clock_offset_def time)
  ultimately show ?thesis using run by (intro exI [of _ ob] exI [of _ asked] conjI)
qed

end
