(* ===== verification/Instance.thy ===== *)
theory Instance
  imports Supervisor Guest
begin

text \<open>
  The QEMU backend instance of \<open>internal/qemu/instance.go\<close> and \<open>instance_monitoring.go\<close>: the phases of
  \<open>Start\<close> with the password file and its removal, the forced stop that every failed start ends in,
  the shutdown request with its fallback, and the observation of QEMU. It ends with the backend the
  supervisor finds in its registry.
\<close>

section \<open>The password file\<close>

datatype inst_error =
    NoCommandPath | LogOpen sys_error | LogSecure sys_error | SecretNotAbsolute | SecretCreate sys_error
  | SecretWrite sys_error | SecretRemove sys_error | SecretSync sys_error
  | ForkFailed string | QmpTimedOut ctx_error | QmpNotReady qmp_error | ExitedEarly | BadState run_state
  | VNCQuery qmp_error | VNCDisabled | VNCFamily string | VNCAuth string | VNCHost string
  | VNCService string | VNCPortRange u16 | KillFailed string | QmpUnavailable | QmpFailed qmp_error
  | InstContext ctx_error | AgentFailed qga_error

text \<open>The file is created by this process alone, so it is a regular file, and the mode is the one that
  was set.\<close>

definition secret_ops :: "string \<Rightarrow> string \<Rightarrow> (sysop \<times> (host \<Rightarrow> host)) list" where
  "secret_ops path password =
     [(SysFchmod, \<lambda>h. h), (SysFstat, \<lambda>h. h),
      (SysWrite, set_content path (\<lambda>_. password)),
      (SysSync, \<lambda>h. h), (SysClose, \<lambda>h. h)]"

definition create_secret :: "string \<Rightarrow> host \<Rightarrow> host" where
  "create_secret path h =
     h\<lparr>h_fs := (h_fs h)(path \<mapsto> File (h_inode h) (h_uid h) mode_file []), h_inode := Suc (h_inode h)\<rparr>"

definition writeVNCSecret :: "host \<Rightarrow> string \<Rightarrow> string \<Rightarrow> (inst_error, unit) action" where
  "writeVNCSecret h path password =
     (if \<not> is_abs_path path then (Inl SecretNotAbsolute, h)
      else if h_fault h SysOpen path then (Inl (SecretCreate (EFAULTED SysOpen)), h)
      else if h_fs h path \<noteq> None then (Inl (SecretCreate EEXIST), h)
      else if \<not> is_dir_at h (parent_dir path) then (Inl (SecretCreate ENOENT), h)
      else case run_ops path (create_secret path h) (secret_ops path password) of
        (Some e, t) \<Rightarrow> (Inl (SecretWrite e), snd (remove_one (last t) path))
      | (None, t) \<Rightarrow> (Inr (), last t))"

definition removeVNCSecret :: "host \<Rightarrow> string \<Rightarrow> (inst_error, unit) action" where
  "removeVNCSecret h path =
     (if \<not> is_abs_path path then (Inl SecretNotAbsolute, h)
      else then_do (wrap_err SecretRemove (remove_one h path)) (\<lambda>_ h1.
        case syncDirectory h1 (parent_dir path) of
          Some e \<Rightarrow> (Inl (SecretSync e), h1)
        | None \<Rightarrow> (Inr (), h1)))"

section \<open>The log\<close>

text \<open>An existing file keeps its text; a symbolic link is followed out of the modelled tree.\<close>

definition open_qemu_log :: "host \<Rightarrow> string \<Rightarrow> (inst_error, unit) action" where
  "open_qemu_log h path =
     (if h_fault h SysOpen path then (Inl (LogOpen (EFAULTED SysOpen)), h)
      else case h_fs h path of
        None \<Rightarrow>
          if \<not> is_dir_at h (parent_dir path) then (Inl (LogOpen ENOENT), h)
          else let h1 = create_secret path h
               in if h_fault h SysFchmod path then (Inl (LogSecure (EFAULTED SysFchmod)), h1) else (Inr (), h1)
      | Some (Dir _ _) \<Rightarrow> (Inl (LogOpen EISDIR), h)
      | Some (File ino uid mode content) \<Rightarrow>
          if h_fault h SysFchmod path then (Inl (LogSecure (EFAULTED SysFchmod)), h)
          else (Inr (), h\<lparr>h_fs := (h_fs h)(path \<mapsto> File ino uid mode_file content)\<rparr>)
      | Some _ \<Rightarrow>
          if h_fault h SysFchmod path then (Inl (LogSecure (EFAULTED SysFchmod)), h) else (Inr (), h))"

section \<open>The process\<close>

text \<open>What is done to the child, in order.\<close>

datatype inst_call = Forked | QuitSent | KillSent

record proc =
  pr_alive :: bool
  pr_qmp :: "QMPClient option"
  pr_calls :: "inst_call list"

text \<open>The child has exited and \<open>reap\<close> has seen it: the QMP connection the instance holds is closed.\<close>

definition child_exits :: "proc \<Rightarrow> proc" where
  "child_exits p = p\<lparr>pr_alive := False, pr_qmp := map_option (\<lambda>q. snd (qmp_close None q)) (pr_qmp p)\<rparr>"

datatype kill_result = KillOK | KillProcessDone | KillError string

text \<open>A forced stop as the outside decides it: whether the child exits by itself before the stop looks
  for it, the call that asks QEMU to quit, whether the child exits within the grace period after a
  delivered quit, what the kill gives, and whether the child is ever reaped after it.\<close>

record force_events =
  fe_exits :: bool
  fe_quit :: qmp_call
  fe_quits :: bool
  fe_kill :: kill_result
  fe_reaped :: bool

definition send_quit :: "force_events \<Rightarrow> proc \<Rightarrow> bool \<times> proc" where
  "send_quit f p =
     (case pr_qmp p of
        None \<Rightarrow> (False, p)
      | Some q \<Rightarrow>
          (case qmp_quit (fe_quit f) q of
             (r, q') \<Rightarrow> (\<not> isl r, p\<lparr>pr_qmp := Some q', pr_calls := pr_calls p @ [QuitSent]\<rparr>)))"

text \<open>\<open>None\<close>: it waits for the child for ever.\<close>

definition forceStop :: "force_events \<Rightarrow> proc \<Rightarrow> (inst_error option \<times> proc) option" where
  "forceStop f p =
     (let p = (if fe_exits f then child_exits p else p)
      in if \<not> pr_alive p then Some (None, p)
         else case send_quit f p of
           (delivered, p) \<Rightarrow>
             if delivered \<and> fe_quits f then Some (None, child_exits p)
             else if \<not> fe_reaped f then None
             else Some (case fe_kill f of KillError e \<Rightarrow> Some (KillFailed e) | _ \<Rightarrow> None,
                        (child_exits p)\<lparr>pr_calls := pr_calls p @ [KillSent]\<rparr>))"

section \<open>Start\<close>

text \<open>The child may exit by itself, and be reaped, at any point of the start: while QMP is being connected, before
  the state is asked for, before VNC is asked for, or after the checks.\<close>

datatype start_phase = Connecting | AskingState | AskingVNC | Checked

record launch =
  la_fork :: "string option"
  la_pid :: int
  la_attempts :: "(qmp_error + QMPClient) list"
  la_ctx_end :: ctx_error
  la_exit :: "start_phase option"
  la_status :: qmp_call
  la_vnc :: qmp_call
  la_force :: force_events

text \<open>Connection attempts until one succeeds or the readiness context ends.\<close>

fun waitForQMP :: "ctx_error \<Rightarrow> (qmp_error + QMPClient) list \<Rightarrow> ctx_error + QMPClient" where
  "waitForQMP e [] = Inl e"
| "waitForQMP e (Inr q # _) = Inr q"
| "waitForQMP e (Inl _ # rest) = waitForQMP e rest"

definition check_vnc :: "VNCConfig \<Rightarrow> VNCInfo \<Rightarrow> inst_error + VNCEndpoint" where
  "check_vnc v info =
     (if \<not> vi_enabled info then Inl VNCDisabled
      else if vi_family info \<noteq> ''ipv4'' then Inl (VNCFamily (vi_family info))
      else if vi_auth info \<noteq> ''vnc'' then Inl (VNCAuth (vi_auth info))
      else if vi_host info \<noteq> vnc_bind v then Inl (VNCHost (vi_host info))
      else case parse_dec (vi_service info) of
        None \<Rightarrow> Inl (VNCService (vi_service info))
      | Some n \<Rightarrow>
          if n = 0 \<or> 65535 < n then Inl (VNCService (vi_service info))
          else let port = word_of_nat n :: u16
               in if port < vnc_port v \<or> vnc_port_to v < port then Inl (VNCPortRange port)
                  else Inr \<lparr>ep_host = vi_host info, ep_port = port\<rparr>)"

text \<open>The instance with its connection; the reaper may run before the phase.\<close>

definition connected :: "QMPClient \<Rightarrow> proc" where
  "connected q = \<lparr>pr_alive = True, pr_qmp = Some q, pr_calls = [Forked]\<rparr>"

definition exits_at :: "launch \<Rightarrow> start_phase \<Rightarrow> proc \<Rightarrow> proc" where
  "exits_at L ph p = (if la_exit L = Some ph then child_exits p else p)"

text \<open>A call on the connection the instance holds.\<close>

definition on_qmp :: "(QMPClient \<Rightarrow> 'a \<times> QMPClient) \<Rightarrow> 'a \<Rightarrow> proc \<Rightarrow> 'a \<times> proc" where
  "on_qmp f none p =
     (case pr_qmp p of None \<Rightarrow> (none, p) | Some q \<Rightarrow> (case f q of (r, q) \<Rightarrow> (r, p\<lparr>pr_qmp := Some q\<rparr>)))"

text \<open>The checks once QMP is connected: the state, and the VNC server when there is one.\<close>

definition verify_ready :: "launch \<Rightarrow> Config \<Rightarrow> proc \<Rightarrow> (inst_error + VNCEndpoint option) \<times> proc" where
  "verify_ready L c p =
     (case on_qmp (qmp_status (la_status L)) (RunStateFailed, Some QmpClosed) (exits_at L AskingState p) of
        ((_, Some e), p) \<Rightarrow> (Inl (QmpNotReady e), p)
      | ((state, None), p) \<Rightarrow>
          if state \<noteq> RunStateRunning \<and> state \<noteq> RunStatePaused then (Inl (BadState state), p)
          else case cfg_vnc c of
            None \<Rightarrow> (Inr None, p)
          | Some v \<Rightarrow>
              (case on_qmp (QueryVNC (la_vnc L)) (Inl QmpClosed) (exits_at L AskingVNC p) of
                 (Inl e, p) \<Rightarrow> (Inl (VNCQuery e), p)
               | (Inr info, p) \<Rightarrow> (map_sum id Some (check_vnc v info), p)))"

record qemu_instance =
  qi_pid :: int
  qi_qga_path :: string
  qi_use_qga :: bool
  qi_vnc :: "VNCEndpoint option"

type_synonym start_result = "(inst_error list + qemu_instance) \<times> host \<times> proc"

text \<open>\<open>cleanupPreparedSecret\<close>, after the forced stop when there is a child.\<close>

definition cleanup_prepared :: "bool \<Rightarrow> string \<Rightarrow> inst_error list \<Rightarrow> host \<Rightarrow> inst_error list \<times> host" where
  "cleanup_prepared prepared path es h =
     (if \<not> prepared then (es, h)
      else case removeVNCSecret h path of (Inl e, h) \<Rightarrow> (es @ [e], h) | (Inr _, h) \<Rightarrow> (es, h))"

definition startup_failure ::
  "launch \<Rightarrow> bool \<Rightarrow> string \<Rightarrow> inst_error \<Rightarrow> host \<Rightarrow> proc \<Rightarrow> start_result option" where
  "startup_failure L prepared path e h p =
     (case forceStop (la_force L) p of
        None \<Rightarrow> None
      | Some (fe, p) \<Rightarrow>
          (case cleanup_prepared prepared path (e # (case fe of None \<Rightarrow> [] | Some x \<Rightarrow> [x])) h of
             (es, h) \<Rightarrow> Some (Inl es, h, p)))"

definition no_proc :: proc where "no_proc = \<lparr>pr_alive = False, pr_qmp = None, pr_calls = []\<rparr>"

definition forked :: proc where "forked = \<lparr>pr_alive = True, pr_qmp = None, pr_calls = [Forked]\<rparr>"

text \<open>From the forked child to the verified instance.\<close>

definition await_ready :: "launch \<Rightarrow> Config \<Rightarrow> RuntimePaths \<Rightarrow> host \<Rightarrow> start_result option" where
  "await_ready L c paths h =
     (let prepared = (cfg_vnc c \<noteq> None); secret = rp_vnc_secret paths; born = exits_at L Connecting forked
      in case waitForQMP (la_ctx_end L) (la_attempts L) of
           Inl e \<Rightarrow> startup_failure L prepared secret (QmpTimedOut e) h born
         | Inr q \<Rightarrow>
             if \<not> pr_alive born then startup_failure L prepared secret ExitedEarly h born
             else case verify_ready L c (connected q) of
               (Inl e, p) \<Rightarrow> startup_failure L prepared secret e h p
             | (Inr vnc, p) \<Rightarrow>
                 let p = exits_at L Checked p;
                     i = \<lparr>qi_pid = la_pid L, qi_qga_path = rp_qga paths, qi_use_qga = cfg_guest_agent_enabled c, qi_vnc = vnc\<rparr>
                 in if \<not> prepared then Some (Inr i, h, p)
                    else case removeVNCSecret h secret of
                      (Inr _, h) \<Rightarrow> Some (Inr i, h, p)
                    | (Inl e, h) \<Rightarrow>
                        (case forceStop (la_force L) p of
                           None \<Rightarrow> None
                         | Some (fe, p) \<Rightarrow> Some (Inl (e # (case fe of None \<Rightarrow> [] | Some x \<Rightarrow> [x])), h, p)))"

definition qemu_start :: "launch \<Rightarrow> Config \<Rightarrow> RuntimePaths \<Rightarrow> Command \<Rightarrow> host \<Rightarrow> start_result option" where
  "qemu_start L c paths cmd h =
     (if cmd_path cmd = [] then Some (Inl [NoCommandPath], h, no_proc)
      else case open_qemu_log h (rp_qemu_log paths) of
        (Inl e, h) \<Rightarrow> Some (Inl [e], h, no_proc)
      | (Inr _, h) \<Rightarrow>
          (case (case cfg_vnc c of None \<Rightarrow> (Inr (), h)
                 | Some v \<Rightarrow> writeVNCSecret h (rp_vnc_secret paths) (vnc_password v)) of
             (Inl e, h) \<Rightarrow> Some (Inl [e], h, no_proc)
           | (Inr _, h) \<Rightarrow>
               (case la_fork L of
                  Some e \<Rightarrow>
                    (case cleanup_prepared (cfg_vnc c \<noteq> None) (rp_vnc_secret paths) [ForkFailed e] h of
                       (es, h) \<Rightarrow> Some (Inl es, h, no_proc))
                | None \<Rightarrow> await_ready L c paths h)))"

section \<open>A running instance\<close>

record live =
  lv_inst :: qemu_instance
  lv_proc :: proc
  lv_forced :: "inst_error option option"
  lv_exit :: "Exit option"
  lv_published :: "Exit list"
  lv_qga :: qga_state

text \<open>\<open>reap\<close>: the exit code if the process has a state, else 1, and the error of waiting.\<close>

definition reap :: "int option \<Rightarrow> string option \<Rightarrow> live \<Rightarrow> live" where
  "reap code err l =
     (let e = \<lparr>ex_code = (case code of None \<Rightarrow> 1 | Some n \<Rightarrow> n), ex_err = err\<rparr>; p = lv_proc l
      in l\<lparr>lv_exit := Some e, lv_proc := child_exits p, lv_published := lv_published l @ [e]\<rparr>)"

text \<open>\<open>ForceStop\<close> stops once; later callers get the first result.\<close>

definition ForceStop :: "force_events \<Rightarrow> live \<Rightarrow> (inst_error option \<times> live) option" where
  "ForceStop f l =
     (case lv_forced l of
        Some r \<Rightarrow> Some (r, l)
      | None \<Rightarrow> map_option (\<lambda>(r, p). (r, l\<lparr>lv_proc := p, lv_forced := Some r\<rparr>)) (forceStop f (lv_proc l)))"

definition VNCEndpoint_of :: "live \<Rightarrow> VNCEndpoint option" where
  "VNCEndpoint_of l = qi_vnc (lv_inst l)"

definition qmpClient :: "live \<Rightarrow> inst_error + QMPClient" where
  "qmpClient l = (case pr_qmp (lv_proc l) of None \<Rightarrow> Inl QmpUnavailable | Some q \<Rightarrow> Inr q)"

definition set_qmp :: "QMPClient \<Rightarrow> live \<Rightarrow> live" where
  "set_qmp q l = l\<lparr>lv_proc := (lv_proc l)\<lparr>pr_qmp := Some q\<rparr>\<rparr>"

definition inst_status :: "qmp_call \<Rightarrow> live \<Rightarrow> (run_state \<times> inst_error option) \<times> live" where
  "inst_status x l =
     (case qmpClient l of
        Inl e \<Rightarrow> ((RunStateFailed, Some e), l)
      | Inr q \<Rightarrow> (case qmp_status x q of ((state, e), q) \<Rightarrow> ((state, map_option QmpFailed e), set_qmp q l)))"

text \<open>The guest agent behind its gate.\<close>

definition gated :: "ctx \<Rightarrow> 'a qga \<Rightarrow> live \<Rightarrow> (qga_error + 'a) \<times> live" where
  "gated cx m l =
     (case first_error [ctx_err cx 0, ctx_err cx 1] of
        Some e \<Rightarrow> (Inl (QgaContext e), l)
      | None \<Rightarrow> (case m (lv_qga l) of (r, st) \<Rightarrow> (r, l\<lparr>lv_qga := st\<rparr>)))"

definition qgaCommand :: "json_text \<Rightarrow> ctx \<Rightarrow> qga_link \<Rightarrow> GuestAgentRequest \<Rightarrow> live \<Rightarrow> (qga_error + json) \<times> live" where
  "qgaCommand J cx link request l = gated cx (GuestAgentCommand J link (qi_qga_path (lv_inst l)) request) l"

definition qgaShutdown :: "json_text \<Rightarrow> ctx \<Rightarrow> qga_link \<Rightarrow> live \<Rightarrow> (qga_error + unit) \<times> live" where
  "qgaShutdown J cx link l = gated cx (GuestShutdown J link (qi_qga_path (lv_inst l))) l"

text \<open>A shutdown request as the outside decides it: the agent's context and connection, whether the
  caller's context is done after it, and the call of the power button.\<close>

record shutdown_events =
  sd_agent_ctx :: ctx
  sd_link :: qga_link
  sd_ctx :: "ctx_error option"
  sd_power :: qmp_call

definition press_power :: "shutdown_events \<Rightarrow> live \<Rightarrow> inst_error option \<times> live" where
  "press_power d l =
     (case qmpClient l of
        Inl e \<Rightarrow> (Some e, l)
      | Inr q \<Rightarrow>
          (case SystemPowerdown (sd_power d) q of
             (Inl e, q) \<Rightarrow> (Some (QmpFailed e), set_qmp q l)
           | (Inr _, q) \<Rightarrow> (None, set_qmp q l)))"

definition RequestShutdown :: "json_text \<Rightarrow> shutdown_events \<Rightarrow> live \<Rightarrow> inst_error option \<times> live" where
  "RequestShutdown J d l =
     (if \<not> qi_use_qga (lv_inst l) then press_power d l
      else case qgaShutdown J (sd_agent_ctx d) (sd_link d) l of
        (Inr _, l) \<Rightarrow> (None, l)
      | (Inl _, l) \<Rightarrow>
          (case sd_ctx d of Some e \<Rightarrow> (Some (InstContext e), l) | None \<Rightarrow> press_power d l))"

section \<open>Observing QEMU (\<open>instance_monitoring.go\<close>)\<close>

record QEMUObservation =
  ob_version :: "QEMUVersion option"
  ob_state :: string
  ob_events :: "QEMUEventCounters option"
  ob_blocks :: "QEMUBlockDevice list"
  ob_qmp :: ObservationResult
  ob_block :: ObservationResult

definition qmpObservationResult :: "inst_error option \<Rightarrow> ObservationResult" where
  "qmpObservationResult err =
     (case err of
        None \<Rightarrow> ok_result
      | Some (QmpFailed (QmpContext CtxDeadlineExceeded)) \<Rightarrow> failed_with ''qmp_timeout''
      | Some _ \<Rightarrow> failed_with ''qmp_protocol_error'')"

definition nothing_observed :: QEMUObservation where
  "nothing_observed =
     \<lparr>ob_version = None, ob_state = [], ob_events = None, ob_blocks = [], ob_qmp = ok_result, ob_block = ok_result\<rparr>"

definition CollectQEMU :: "qmp_call \<Rightarrow> live \<Rightarrow> QEMUObservation \<times> live" where
  "CollectQEMU x l =
     (case qmpClient l of
        Inl e \<Rightarrow> (nothing_observed\<lparr>ob_qmp := qmpObservationResult (Some e)\<rparr>, l)
      | Inr q \<Rightarrow>
          let ob = nothing_observed\<lparr>ob_version := Some (qm_version q)\<rparr>
          in case RawStatus x q of
               (Inl e, q) \<Rightarrow> (ob\<lparr>ob_qmp := qmpObservationResult (Some (QmpFailed e))\<rparr>, set_qmp q l)
             | (Inr state, q) \<Rightarrow>
                 (case QueryBlocks x q of
                    (blocks, q) \<Rightarrow>
                      let ob = ob\<lparr>ob_state := state,
                                 ob_blocks := (case blocks of Inl _ \<Rightarrow> [] | Inr bs \<Rightarrow> bs),
                                 ob_block := (if isl blocks then failed_with ''block_query_failed'' else ok_result)\<rparr>
                      in case EventCounters x q of
                           (Inl e, q) \<Rightarrow> (ob\<lparr>ob_qmp := qmpObservationResult (Some (QmpFailed e))\<rparr>, set_qmp q l)
                         | (Inr ec, q) \<Rightarrow> (ob\<lparr>ob_events := Some ec\<rparr>, set_qmp q l)))"

section \<open>A start that fails leaves nothing behind\<close>

lemma child_exits_simps [simp]: "\<not> pr_alive (child_exits p)" "pr_calls (child_exits p) = pr_calls p"
  by (simp_all add: child_exits_def)

lemma forceStop_stops: "forceStop f p = Some (e, p') \<Longrightarrow> \<not> pr_alive p'"
  by (auto simp: forceStop_def Let_def child_exits_def split: if_splits prod.splits)

lemma forceStop_returns: "fe_reaped f \<Longrightarrow> forceStop f p \<noteq> None"
  by (auto simp: forceStop_def Let_def split: prod.splits)

lemma removeVNCSecret_fs:
  assumes "removeVNCSecret h path = (r, h')" and "is_abs_path path" and "\<not> h_fault h SysRemove path"
  shows "h_fs h' = (h_fs h)(path := None) \<and> steady h h'"
  using assms
  by (auto simp: removeVNCSecret_def remove_one_def remove_file_def then_do_def wrap_err_def steady_def
      split: if_splits option.splits)

lemma secret_ops_frame:
  assumes "run_ops path h0 (secret_ops path pw) = (e, t)"
  shows "steady h0 (last t) \<and> (\<forall>q. q \<noteq> path \<longrightarrow> h_fs (last t) q = h_fs h0 q) \<and> (h_fs h0 path \<noteq> None \<longrightarrow> h_fs (last t) path \<noteq> None)"
  using assms by (auto simp: secret_ops_def set_content_def steady_def split: if_splits option.splits node.splits)

lemma writeVNCSecret_fs:
  assumes "writeVNCSecret h path pw = (r, h')" and "\<not> h_fault h SysRemove path"
  shows "steady h h' \<and> (\<forall>q. q \<noteq> path \<longrightarrow> h_fs h' q = h_fs h q)
    \<and> (case r of Inl _ \<Rightarrow> h_fs h' path = h_fs h path | Inr _ \<Rightarrow> is_abs_path path \<and> h_fs h path = None)"
proof -
  have "steady h (create_secret path h)" "\<forall>q. q \<noteq> path \<longrightarrow> h_fs (create_secret path h) q = h_fs h q"
    "h_fs (create_secret path h) path \<noteq> None"
    by (simp_all add: create_secret_def steady_def)
  then show ?thesis
    using assms secret_ops_frame [of path "create_secret path h" pw]
    by (auto simp: writeVNCSecret_def remove_one_def remove_file_def steady_def
        split: if_splits prod.splits option.splits)
qed

lemma open_qemu_log_frame:
  "open_qemu_log h path = (r, h') \<Longrightarrow> steady h h' \<and> (\<forall>q. q \<noteq> path \<longrightarrow> h_fs h' q = h_fs h q)"
  by (auto simp: open_qemu_log_def create_secret_def steady_def Let_def split: if_splits option.splits node.splits)

lemma cleanup_prepared_fs:
  assumes "cleanup_prepared prepared path es h = (es', h')"
    and "prepared \<longrightarrow> is_abs_path path \<and> \<not> h_fault h SysRemove path"
  shows "steady h h' \<and> h_fs h' = (if prepared then (h_fs h)(path := None) else h_fs h) \<and> (es \<noteq> [] \<longrightarrow> es' \<noteq> [])"
  using assms removeVNCSecret_fs
  by (auto simp: cleanup_prepared_def split: if_splits prod.splits sum.splits)

lemma startup_failure_outcome:
  assumes "startup_failure L prepared path e h p = Some (r, h', p')"
    and "prepared \<longrightarrow> is_abs_path path \<and> \<not> h_fault h SysRemove path"
  shows "steady h h' \<and> h_fs h' = (if prepared then (h_fs h)(path := None) else h_fs h)
    \<and> (\<exists>es. r = Inl es \<and> es \<noteq> []) \<and> \<not> pr_alive p'"
proof -
  obtain fe es where f: "forceStop (la_force L) p = Some (fe, p')"
    "cleanup_prepared prepared path (e # (case fe of None \<Rightarrow> [] | Some x \<Rightarrow> [x])) h = (es, h')" "r = Inl es"
    using assms(1) by (auto simp: startup_failure_def split: option.splits prod.splits)
  from cleanup_prepared_fs [OF f(2) assms(2)] forceStop_stops [OF f(1)] f(3) show ?thesis by simp
qed

text \<open>What \<open>Start\<close> has verified of an instance it returns.\<close>

definition verified :: "launch \<Rightarrow> Config \<Rightarrow> qemu_instance \<Rightarrow> proc \<Rightarrow> bool" where
  "verified L c i p \<longleftrightarrow>
     (\<exists>q p'. waitForQMP (la_ctx_end L) (la_attempts L) = Inr q \<and> la_exit L \<noteq> Some Connecting
        \<and> verify_ready L c (connected q) = (Inr (qi_vnc i), p') \<and> p = exits_at L Checked p')"

lemma await_ready_outcome:
  assumes "await_ready L c paths h = Some (r, h', p)"
    and "cfg_vnc c \<noteq> None \<longrightarrow> is_abs_path (rp_vnc_secret paths) \<and> \<not> h_fault h SysRemove (rp_vnc_secret paths)"
  shows "steady h h' \<and> h_fs h' = (if cfg_vnc c \<noteq> None then (h_fs h)(rp_vnc_secret paths := None) else h_fs h)
    \<and> (case r of Inl es \<Rightarrow> es \<noteq> [] \<and> \<not> pr_alive p | Inr i \<Rightarrow> verified L c i p)"
proof -
  let ?prep = "cfg_vnc c \<noteq> None" and ?s = "rp_vnc_secret paths"
  note fail = startup_failure_outcome [OF _ assms(2)]
  show ?thesis
  proof (cases "waitForQMP (la_ctx_end L) (la_attempts L)")
    case (Inl e)
    then show ?thesis using assms(1) fail by (fastforce simp: await_ready_def Let_def)
  next
    case wait: (Inr q)
    show ?thesis
    proof (cases "la_exit L = Some Connecting")
      case True
      then have "\<not> pr_alive (exits_at L Connecting forked)" by (simp add: exits_at_def)
      then show ?thesis using assms(1) wait fail by (fastforce simp: await_ready_def Let_def)
    next
      case False
      obtain v p0 where verify: "verify_ready L c (connected q) = (v, p0)" by fastforce
      have alive: "pr_alive (exits_at L Connecting forked)" using False by (simp add: exits_at_def forked_def)
      show ?thesis
      proof (cases v)
        case (Inl e)
        then show ?thesis using assms(1) wait alive verify fail by (fastforce simp: await_ready_def Let_def)
      next
        case (Inr vnc)
        let ?i = "\<lparr>qi_pid = la_pid L, qi_qga_path = rp_qga paths, qi_use_qga = cfg_guest_agent_enabled c, qi_vnc = vnc\<rparr>"
        have ok: "verified L c ?i (exits_at L Checked p0)"
          using wait False verify Inr by (simp add: verified_def)
        have run: "(if \<not> ?prep then Some (Inr ?i, h, exits_at L Checked p0)
            else case removeVNCSecret h ?s of
              (Inr _, h) \<Rightarrow> Some (Inr ?i, h, exits_at L Checked p0)
            | (Inl e, h) \<Rightarrow>
                (case forceStop (la_force L) (exits_at L Checked p0) of
                   None \<Rightarrow> None
                 | Some (fe, p) \<Rightarrow> Some (Inl (e # (case fe of None \<Rightarrow> [] | Some x \<Rightarrow> [x])), h, p))) = Some (r, h', p)"
          using assms(1) wait alive verify Inr by (simp add: await_ready_def Let_def)
        show ?thesis
        proof (cases ?prep)
          case True
          obtain rm h1 where rm: "removeVNCSecret h ?s = (rm, h1)" by fastforce
          from removeVNCSecret_fs [OF this] assms(2) True
          have "steady h h1" "h_fs h1 = (h_fs h)(?s := None)" by auto
          with True run rm ok show ?thesis
            using forceStop_stops by (auto split: sum.splits option.splits)
        next
          case False
          with run ok show ?thesis by auto
        qed
      qed
    qed
  qed
qed

text \<open>The whole start: what it leaves of the child and of the password file, whatever happens.\<close>

lemma qemu_start_outcome:
  assumes "qemu_start L c paths cmd h = Some (r, h', p)"
    and "\<not> h_fault h SysRemove (rp_vnc_secret paths)" and "rp_qemu_log paths \<noteq> rp_vnc_secret paths"
  shows "steady h h' \<and> h_fs h' (rp_vnc_secret paths) = h_fs h (rp_vnc_secret paths)
    \<and> (\<forall>q. q \<noteq> rp_vnc_secret paths \<and> q \<noteq> rp_qemu_log paths \<longrightarrow> h_fs h' q = h_fs h q)
    \<and> (case r of Inl es \<Rightarrow> es \<noteq> [] \<and> \<not> pr_alive p | Inr i \<Rightarrow> verified L c i p)"
proof (cases "cmd_path cmd = []")
  case True
  then show ?thesis using assms(1) by (auto simp: qemu_start_def no_proc_def)
next
  case path: False
  let ?s = "rp_vnc_secret paths"
  obtain lr h1 where log: "open_qemu_log h (rp_qemu_log paths) = (lr, h1)" by fastforce
  note frame1 = open_qemu_log_frame [OF log]
  obtain sr h2 where secret: "(case cfg_vnc c of None \<Rightarrow> (Inr (), h1)
      | Some v \<Rightarrow> writeVNCSecret h1 ?s (vnc_password v)) = (sr, h2)" by fastforce
  have frame2: "steady h1 h2 \<and> (\<forall>q. q \<noteq> ?s \<longrightarrow> h_fs h2 q = h_fs h1 q)
      \<and> (case sr of Inl _ \<Rightarrow> h_fs h2 ?s = h_fs h1 ?s
          | Inr _ \<Rightarrow> if cfg_vnc c = None then h2 = h1 else is_abs_path ?s \<and> h_fs h1 ?s = None)"
    using secret writeVNCSecret_fs [of h1 ?s _ sr h2] assms(2) frame1
    by (auto simp: steady_def split: option.splits)
  have fault: "\<not> h_fault h2 SysRemove ?s" using frame1 frame2 assms(2) by (simp add: steady_def)
  show ?thesis
  proof (cases "isl lr \<or> isl sr")
    case True
    then show ?thesis using assms(1,3) path log secret frame1 frame2
      by (auto simp: qemu_start_def no_proc_def steady_def isl_def split: sum.splits)
  next
    case False
    then obtain a b where ok: "lr = Inr a" "sr = Inr b" by (cases lr; cases sr) auto
    have prep: "cfg_vnc c \<noteq> None \<longrightarrow> is_abs_path ?s \<and> \<not> h_fault h2 SysRemove ?s"
      using frame2 fault ok by auto
    have rest: "(case la_fork L of
          Some e \<Rightarrow> (case cleanup_prepared (cfg_vnc c \<noteq> None) ?s [ForkFailed e] h2 of (es, h) \<Rightarrow> Some (Inl es, h, no_proc))
        | None \<Rightarrow> await_ready L c paths h2) = Some (r, h', p)"
      using assms(1) path log secret ok by (simp add: qemu_start_def)
    have "steady h2 h' \<and> h_fs h' = (if cfg_vnc c \<noteq> None then (h_fs h2)(?s := None) else h_fs h2)
        \<and> (case r of Inl es \<Rightarrow> es \<noteq> [] \<and> \<not> pr_alive p | Inr i \<Rightarrow> verified L c i p)"
    proof (cases "la_fork L")
      case None
      with rest await_ready_outcome [OF _ prep] show ?thesis by simp
    next
      case (Some e)
      with rest cleanup_prepared_fs [OF _ prep] show ?thesis
        by (auto simp: no_proc_def split: prod.splits)
    qed
    then show ?thesis using frame1 frame2 ok assms(3)
      by (auto simp: steady_def split: if_splits)
  qed
qed

text \<open>C4. A start of QEMU that fails leaves no child running, and the password file as it was before,
  so normally none, whatever failed; beside the log no other file has changed.\<close>

theorem failed_start_leaves_nothing:
  assumes "qemu_start L c paths cmd h = Some (Inl es, h', p)"
    and "\<not> h_fault h SysRemove (rp_vnc_secret paths)" and "rp_qemu_log paths \<noteq> rp_vnc_secret paths"
  shows "\<not> pr_alive p \<and> es \<noteq> [] \<and> h_fs h' (rp_vnc_secret paths) = h_fs h (rp_vnc_secret paths)
     \<and> (\<forall>q. q \<noteq> rp_qemu_log paths \<longrightarrow> h_fs h' q = h_fs h q)"
  using qemu_start_outcome [OF assms] by auto metis

lemma closed_client_fails: "qm_closed q \<Longrightarrow> \<exists>e q'. qmp_execute x m a q = (Inl e, q')"
  by (auto simp: qmp_execute_def executeLocked_def split: option.splits)

lemma status_needs_open:
  assumes "qmp_status x q = ((state, None), q')"
  shows "\<not> qm_closed q \<and> state \<in> {RunStateRunning, RunStatePaused}"
  using assms closed_client_fails [of q x "''query-status''" None]
  by (auto simp: qmp_status_def RawStatus_def bindS_def split: prod.splits sum.splits if_splits)

lemma vnc_needs_open:
  assumes "QueryVNC x q = (Inr info, q')"
  shows "\<not> qm_closed q"
  using assms closed_client_fails [of q x "''query-vnc''" None]
  by (auto simp: QueryVNC_def bindS_def split: prod.splits sum.splits)

text \<open>What the VNC check has seen of the server it accepts.\<close>

lemma check_vnc_accepts:
  assumes "check_vnc v info = Inr ep"
  shows "vi_enabled info \<and> vi_family info = ''ipv4'' \<and> vi_auth info = ''vnc'' \<and> vi_host info = vnc_bind v
    \<and> parse_dec (vi_service info) = Some (unat (ep_port ep)) \<and> ep_host ep = vnc_bind v \<and> ep_port ep \<noteq> 0
    \<and> vnc_port v \<le> ep_port ep \<and> ep_port ep \<le> vnc_port_to v"
proof -
  from assms obtain n where n: "parse_dec (vi_service info) = Some n" "0 < n" "n \<le> 65535" "ep_port ep = word_of_nat n"
    "\<not> (word_of_nat n :: u16) < vnc_port v" "\<not> vnc_port_to v < (word_of_nat n :: u16)" "ep_host ep = vi_host info"
    and seen: "vi_enabled info" "vi_family info = ''ipv4''" "vi_auth info = ''vnc''" "vi_host info = vnc_bind v"
    by (auto simp: check_vnc_def Let_def split: if_splits option.splits)
  then have "unat (word_of_nat n :: u16) = n" by (simp add: unat_of_nat)
  with n have "(word_of_nat n :: u16) \<noteq> 0" by auto
  with n seen \<open>unat (word_of_nat n :: u16) = n\<close> show ?thesis by auto
qed

lemma verify_ready_accepts:
  assumes "verify_ready L c (connected q) = (Inr vnc, p)"
  shows "la_exit L \<noteq> Some AskingState \<and> (cfg_vnc c = None \<or> la_exit L \<noteq> Some AskingVNC)
    \<and> pr_alive p \<and> pr_calls p = [Forked] \<and> pr_qmp p \<noteq> None
    \<and> fst (qmp_status (la_status L) q) \<in> {(RunStateRunning, None), (RunStatePaused, None)}
    \<and> (case cfg_vnc c of
         None \<Rightarrow> vnc = None
       | Some v \<Rightarrow> \<exists>info ep. fst (QueryVNC (la_vnc L) (snd (qmp_status (la_status L) q))) = Inr info
           \<and> check_vnc v info = Inr ep \<and> vnc = Some ep)"
proof -
  have closed: "\<exists>q0. pr_qmp (exits_at L ph p) = Some q0 \<and> (la_exit L = Some ph \<longrightarrow> qm_closed q0)
      \<and> (la_exit L \<noteq> Some ph \<longrightarrow> exits_at L ph p = p \<and> q0 = q)" if "pr_qmp p = Some q" for ph p q
    using that by (auto simp: exits_at_def child_exits_def qmp_close_def)
  obtain q0 where q0: "pr_qmp (exits_at L AskingState (connected q)) = Some q0"
    "la_exit L = Some AskingState \<longrightarrow> qm_closed q0"
    "la_exit L \<noteq> Some AskingState \<longrightarrow> exits_at L AskingState (connected q) = connected q \<and> q0 = q"
    using closed [of "connected q" q AskingState] by (auto simp: connected_def)
  obtain state e q1 where st: "qmp_status (la_status L) q0 = ((state, e), q1)" by (metis prod.collapse)
  have e: "e = None" using assms q0(1) st by (auto simp: verify_ready_def on_qmp_def split: option.splits)
  with status_needs_open st have open0: "\<not> qm_closed q0" "state \<in> {RunStateRunning, RunStatePaused}" by auto
  then have same: "la_exit L \<noteq> Some AskingState" "exits_at L AskingState (connected q) = connected q" "q0 = q"
    using q0 by auto
  let ?p = "(connected q)\<lparr>pr_qmp := Some q1\<rparr>"
  show ?thesis
  proof (cases "cfg_vnc c")
    case None
    with assms st e same open0 show ?thesis
      by (auto simp: verify_ready_def on_qmp_def connected_def)
  next
    case (Some v)
    obtain q2 where q2: "pr_qmp (exits_at L AskingVNC ?p) = Some q2" "la_exit L = Some AskingVNC \<longrightarrow> qm_closed q2"
      "la_exit L \<noteq> Some AskingVNC \<longrightarrow> exits_at L AskingVNC ?p = ?p \<and> q2 = q1"
      using closed [of ?p q1 AskingVNC] by (auto simp: connected_def)
    obtain r q3 where qv: "QueryVNC (la_vnc L) q2 = (r, q3)" by fastforce
    have run: "verify_ready L c (connected q) = (case r of
        Inl e \<Rightarrow> (Inl (VNCQuery e), (exits_at L AskingVNC ?p)\<lparr>pr_qmp := Some q3\<rparr>)
      | Inr info \<Rightarrow> (map_sum id Some (check_vnc v info), (exits_at L AskingVNC ?p)\<lparr>pr_qmp := Some q3\<rparr>))"
      using st e same open0 Some q2(1) qv
      by (auto simp: verify_ready_def on_qmp_def connected_def split: sum.splits)
    then obtain info ep where ok: "r = Inr info" "check_vnc v info = Inr ep" "vnc = Some ep"
      "p = (exits_at L AskingVNC ?p)\<lparr>pr_qmp := Some q3\<rparr>"
      using assms by (cases r) (auto simp: map_sum_def split: sum.splits)
    with vnc_needs_open qv q2 have "la_exit L \<noteq> Some AskingVNC" "q2 = q1" "exits_at L AskingVNC ?p = ?p" by auto
    with ok qv st same Some open0 e show ?thesis by (auto simp: connected_def)
  qed
qed

text \<open>C5. A start of QEMU that succeeds started one child, which had not ended before QMP answered for its state, and
  on that connection QEMU reported to be running or paused. For a machine with VNC it reported, on the same
  connection and before the child ended, an enabled IPv4 server with password authentication, on the configured
  address, with a service that is a port of the configured range; that port is the instance's. The
  password file is gone again. The child is alive unless it ended after the last check.\<close>

theorem started_instance_verified:
  assumes "qemu_start L c paths cmd h = Some (Inr i, h', p)"
    and "\<not> h_fault h SysRemove (rp_vnc_secret paths)" and "rp_qemu_log paths \<noteq> rp_vnc_secret paths"
  shows "la_exit L \<notin> {Some Connecting, Some AskingState} \<and> (cfg_vnc c = None \<or> la_exit L \<noteq> Some AskingVNC)
     \<and> pr_alive p = (la_exit L \<noteq> Some Checked) \<and> pr_calls p = [Forked] \<and> pr_qmp p \<noteq> None
     \<and> h_fs h' (rp_vnc_secret paths) = h_fs h (rp_vnc_secret paths)
     \<and> (\<exists>q. waitForQMP (la_ctx_end L) (la_attempts L) = Inr q
          \<and> fst (qmp_status (la_status L) q) \<in> {(RunStateRunning, None), (RunStatePaused, None)}
          \<and> (case cfg_vnc c of
               None \<Rightarrow> qi_vnc i = None
             | Some v \<Rightarrow> \<exists>info ep. fst (QueryVNC (la_vnc L) (snd (qmp_status (la_status L) q))) = Inr info
                 \<and> vi_enabled info \<and> vi_family info = ''ipv4'' \<and> vi_auth info = ''vnc'' \<and> vi_host info = vnc_bind v
                 \<and> qi_vnc i = Some ep \<and> ep_host ep = vi_host info
                 \<and> parse_dec (vi_service info) = Some (unat (ep_port ep)) \<and> ep_port ep \<noteq> 0
                 \<and> vnc_port v \<le> ep_port ep \<and> ep_port ep \<le> vnc_port_to v))"
proof -
  from qemu_start_outcome [OF assms] obtain q p0 where out: "waitForQMP (la_ctx_end L) (la_attempts L) = Inr q"
    "la_exit L \<noteq> Some Connecting" "verify_ready L c (connected q) = (Inr (qi_vnc i), p0)" "p = exits_at L Checked p0"
    "h_fs h' (rp_vnc_secret paths) = h_fs h (rp_vnc_secret paths)"
    by (auto simp: verified_def)
  note seen = verify_ready_accepts [OF out(3)]
  have "pr_alive p = (la_exit L \<noteq> Some Checked) \<and> pr_calls p = [Forked] \<and> pr_qmp p \<noteq> None"
    using seen out(4) by (simp add: exits_at_def child_exits_def)
  moreover have "case cfg_vnc c of None \<Rightarrow> qi_vnc i = None
      | Some v \<Rightarrow> \<exists>info ep. fst (QueryVNC (la_vnc L) (snd (qmp_status (la_status L) q))) = Inr info
          \<and> vi_enabled info \<and> vi_family info = ''ipv4'' \<and> vi_auth info = ''vnc'' \<and> vi_host info = vnc_bind v
          \<and> qi_vnc i = Some ep \<and> ep_host ep = vi_host info
          \<and> parse_dec (vi_service info) = Some (unat (ep_port ep)) \<and> ep_port ep \<noteq> 0
          \<and> vnc_port v \<le> ep_port ep \<and> ep_port ep \<le> vnc_port_to v"
    using seen check_vnc_accepts by (auto split: option.splits)
  ultimately show ?thesis using seen out by auto
qed

text \<open>A start returns whenever the child is reaped once it has been killed.\<close>

lemma startup_failure_returns: "fe_reaped (la_force L) \<Longrightarrow> startup_failure L b path e h p \<noteq> None"
  using forceStop_returns [of "la_force L" p] by (auto simp: startup_failure_def split: prod.splits)

lemma await_ready_returns:
  assumes "fe_reaped (la_force L)"
  shows "await_ready L c paths h \<noteq> None"
proof -
  have "\<exists>r. startup_failure L b path e g p = Some r" "\<exists>r. forceStop (la_force L) p = Some r" for b path e g p
    using assms startup_failure_returns [of L b path e g p] forceStop_returns [of "la_force L" p] by auto
  note some = this
  show ?thesis
  proof (cases "waitForQMP (la_ctx_end L) (la_attempts L)")
    case (Inl e)
    then show ?thesis using some(1) by (simp add: await_ready_def Let_def)
  next
    case (Inr q)
    obtain v p where "verify_ready L c (connected q) = (v, p)" by fastforce
    then show ?thesis using Inr some(1) some(2) [of "exits_at L Checked p"]
      by (cases v) (auto simp: await_ready_def Let_def split: prod.splits sum.splits)
  qed
qed

lemma qemu_start_returns: "fe_reaped (la_force L) \<Longrightarrow> qemu_start L c paths cmd h \<noteq> None"
  using await_ready_returns [of L c paths]
  unfolding qemu_start_def by (auto split: option.splits sum.splits prod.splits)

section \<open>Stopping\<close>

text \<open>A shutdown request that succeeds was delivered: the guest agent took it and QMP was not used,
  or the power button was pressed through QMP.\<close>

lemma shutdown_request_delivered:
  assumes "RequestShutdown J d l = (None, l')"
  shows "(qi_use_qga (lv_inst l) \<and> fst (qgaShutdown J (sd_agent_ctx d) (sd_link d) l) = Inr () \<and> lv_proc l' = lv_proc l)
    \<or> (\<exists>q q'. pr_qmp (lv_proc l) = Some q \<and> pr_qmp (lv_proc l') = Some q'
         \<and> qm_sent q' = qm_sent q @ [(''system_powerdown'', None, qm_next q + 1)])"
proof -
  have gate: "lv_proc (snd (qgaShutdown J cx link l)) = lv_proc l" for cx link
    by (auto simp: qgaShutdown_def gated_def split: option.splits prod.splits)
  have press: "\<exists>q q'. pr_qmp (lv_proc m) = Some q \<and> pr_qmp (lv_proc l') = Some q'
      \<and> qm_sent q' = qm_sent q @ [(''system_powerdown'', None, qm_next q + 1)]"
    if run: "press_power d m = (None, l')" for m
  proof -
    from run obtain q q' v where q: "pr_qmp (lv_proc m) = Some q" "l' = set_qmp q' m"
      and x: "qmp_execute (sd_power d) ''system_powerdown'' None q = (Inr v, q')"
      by (auto simp: press_power_def qmpClient_def SystemPowerdown_def bindS_Inr lift_result_def
          split: option.splits prod.splits sum.splits)
    from executeLocked_success [OF qmp_execute_success [OF x]] await_response_success
    have "qm_sent q' = qm_sent q @ [(''system_powerdown'', None, qm_next q + 1)]" by fastforce
    with q show ?thesis by (simp add: set_qmp_def)
  qed
  show ?thesis
  proof (cases "qi_use_qga (lv_inst l)")
    case False
    with assms press [of l] show ?thesis by (simp add: RequestShutdown_def)
  next
    case True
    obtain r m where agent: "qgaShutdown J (sd_agent_ctx d) (sd_link d) l = (r, m)" by fastforce
    have "lv_proc m = lv_proc l" using gate [of "sd_agent_ctx d" "sd_link d"] agent by simp
    then show ?thesis using assms True agent press [of m]
      by (cases r) (auto simp: RequestShutdown_def split: option.splits)
  qed
qed

text \<open>Only the first forced stop acts; every caller gets its result.\<close>

lemma ForceStop_once:
  assumes "ForceStop f l = Some (r, l')"
  shows "ForceStop g l' = Some (r, l')" and "lv_forced l = None \<longrightarrow> \<not> pr_alive (lv_proc l')"
  using assms forceStop_stops by (auto simp: ForceStop_def split: option.splits)

section \<open>QEMU as the supervisor's backend\<close>

text \<open>The instance the supervisor sees: its state is asked for once, after the start. A start that
  waits for ever is out of scope here: the child is reaped once it was killed.\<close>

definition instance_view :: "(inst_error list \<Rightarrow> string) \<Rightarrow> qmp_call \<Rightarrow> qemu_instance \<Rightarrow> proc \<Rightarrow> instance_of" where
  "instance_view text x i p =
     \<lparr>in_pid = qi_pid i,
      in_status = (case pr_qmp p of
          None \<Rightarrow> Inl (text [QmpUnavailable])
        | Some q \<Rightarrow> (case fst (qmp_status x q) of
            (_, Some e) \<Rightarrow> Inl (text [QmpFailed e]) | (state, None) \<Rightarrow> Inr state)),
      in_vnc = qi_vnc i\<rparr>"

definition qemu_backend :: "(inst_error list \<Rightarrow> string) \<Rightarrow> launch \<Rightarrow> qmp_call \<Rightarrow> backend_impl" where
  "qemu_backend text L x =
     \<lparr>be_render = Render,
      be_start = (\<lambda>c paths cmd h.
        case qemu_start (L\<lparr>la_force := (la_force L)\<lparr>fe_reaped := True\<rparr>\<rparr>) c paths cmd h of
          None \<Rightarrow> (Inl (text []), h)
        | Some (Inl es, h', _) \<Rightarrow> (Inl (text es), h')
        | Some (Inr i, h', p) \<Rightarrow> (Inr (instance_view text x i p), h'))\<rparr>"

lemma steady_remove_one_eq: "remove_one h p = (r, h') \<Longrightarrow> steady h h'"
  using steady_remove_one [of h p] by (metis snd_conv)

lemma steady_removeVNCSecret: "removeVNCSecret h path = (r, h') \<Longrightarrow> steady h h'"
  by (auto simp: removeVNCSecret_def then_do_def wrap_err_def dest: steady_remove_one_eq
      split: if_splits prod.splits sum.splits option.splits)

lemma steady_writeVNCSecret: "writeVNCSecret h path pw = (r, h') \<Longrightarrow> steady h h'"
proof -
  assume w: "writeVNCSecret h path pw = (r, h')"
  have "steady h (last t)" if "run_ops path (create_secret path h) (secret_ops path pw) = (e, t)" for e t
    using secret_ops_frame [OF that] by (simp add: create_secret_def steady_def)
  moreover have "steady g (snd (remove_one g path))" for g by (rule steady_remove_one)
  ultimately show ?thesis using w
    by (auto simp: writeVNCSecret_def simp del: steady_remove_one split: if_splits prod.splits option.splits)
       (metis steady_trans)
qed

lemma steady_cleanup_prepared: "cleanup_prepared b path es g = (es', g') \<Longrightarrow> steady g g'"
  using steady_removeVNCSecret by (auto simp: cleanup_prepared_def split: if_splits prod.splits sum.splits)

lemma steady_startup_failure: "startup_failure L b path e g p = Some (r, g', p') \<Longrightarrow> steady g g'"
  using steady_cleanup_prepared by (auto simp: startup_failure_def split: option.splits prod.splits)

lemma steady_await_ready: "await_ready L c paths g = Some (r, g', p) \<Longrightarrow> steady g g'"
  using steady_startup_failure steady_removeVNCSecret
  by (auto simp: await_ready_def Let_def split: sum.splits if_splits prod.splits option.splits)

lemma steady_qemu_start:
  assumes "qemu_start L c paths cmd h = Some (r, h', p)"
  shows "steady h h'"
proof (cases "cmd_path cmd = []")
  case True
  with assms show ?thesis by (simp add: qemu_start_def)
next
  case path: False
  obtain lr h1 where log: "open_qemu_log h (rp_qemu_log paths) = (lr, h1)" by fastforce
  have 1: "steady h h1" using open_qemu_log_frame [OF log] by simp
  obtain sr h2 where secret: "(case cfg_vnc c of None \<Rightarrow> (Inr (), h1)
      | Some v \<Rightarrow> writeVNCSecret h1 (rp_vnc_secret paths) (vnc_password v)) = (sr, h2)" by fastforce
  have 2: "steady h1 h2" using secret steady_writeVNCSecret by (auto split: option.splits)
  have "steady h2 h' \<or> h' = h1 \<or> h' = h2"
    using assms path log secret steady_cleanup_prepared steady_await_ready
    by (cases lr; cases sr) (auto simp: qemu_start_def split: option.splits prod.splits)
  with 1 2 show ?thesis using steady_trans by blast
qed

lemma qemu_backend_neutral: "lock_neutral [n \<mapsto> Inr (Some (qemu_backend text L x))]"
  using steady_qemu_start
  by (auto simp: lock_neutral_def Lookup_def qemu_backend_def split: option.splits sum.splits prod.splits if_splits)

text \<open>A supervisor of QEMU machines gives back every lock it took, however the start, the run and the
  stop of QEMU go: the QEMU backend needs no assumption about it.\<close>

lemma supervise_qemu_releases_locks:
  "h_locks (snd (snd (Supervise st Lb env ev en [''qemu'' \<mapsto> Inr (Some (qemu_backend text L x))] name i b h))) = h_locks h"
  using supervise_outcome [OF _ qemu_backend_neutral] by (metis prod.collapse)

section \<open>Witnesses\<close>

text \<open>A machine with a password on VNC, on a host where every call works.\<close>

definition inst_paths :: RuntimePaths where
  "inst_paths = \<lparr>rp_vm_dir = ''/vm'', rp_qmp = ''/q'', rp_qmp_command = ''/qc'', rp_qga = ''/g'', rp_console = ''/c'',
     rp_monitor = ''/m'', rp_qemu_log = ''/l'', rp_serial_log_pipe = ''/p'', rp_vnc_secret = ''/s''\<rparr>"

definition inst_host :: host where
  "inst_host = \<lparr>h_fs = (\<lambda>_. None), h_locks = {}, h_inode = 1, h_uid = 501, h_fault = (\<lambda>_ _. False)\<rparr>"

definition inst_client :: QMPClient where
  "inst_client = fresh_client
     [answer ''1'' (JObject [(''status'', JString ''running'')]),
      answer ''2'' (JObject [(''enabled'', JBool True), (''host'', JString ''127.0.0.1''), (''service'', JString ''5901''),
                          (''family'', JString ''ipv4''), (''auth'', JString ''vnc''), (''clients'', JArray [])])]"

definition inst_force :: force_events where
  "inst_force = \<lparr>fe_exits = False, fe_quit = live_call, fe_quits = False, fe_kill = KillOK, fe_reaped = True\<rparr>"

definition inst_launch :: "(qmp_error + QMPClient) list \<Rightarrow> launch" where
  "inst_launch attempts =
     \<lparr>la_fork = None, la_pid = 42, la_attempts = attempts, la_ctx_end = CtxDeadlineExceeded, la_exit = None,
      la_status = live_call, la_vnc = live_call, la_force = inst_force\<rparr>"

definition inst_start :: "(qmp_error + QMPClient) list \<Rightarrow> start_result option" where
  "inst_start attempts = qemu_start (inst_launch attempts) sample_config inst_paths \<lparr>cmd_path = ''/bin/qemu'', cmd_args = []\<rparr> inst_host"

lemma inst_start_ends:
  "(case inst_start [Inl (QmpConnect ''refused'')] of Some (Inl es, _, p) \<Rightarrow> pr_calls p = [Forked, KillSent] | _ \<Rightarrow> False)"
  "(case inst_start [Inl (QmpConnect ''refused''), Inr inst_client] of Some (Inr i, _, _) \<Rightarrow> qi_vnc i \<noteq> None | _ \<Rightarrow> False)"
  by code_simp+

theorem failed_start_leaves_nothing_witness:
  "\<exists>es h' p. inst_start [Inl (QmpConnect ''refused'')] = Some (Inl es, h', p) \<and> \<not> pr_alive p \<and> h_fs h' ''/s'' = None"
proof -
  obtain es h' p where "inst_start [Inl (QmpConnect ''refused'')] = Some (Inl es, h', p)"
    using inst_start_ends(1) by (auto split: option.splits prod.splits sum.splits)
  with failed_start_leaves_nothing [OF this [unfolded inst_start_def]] show ?thesis
    by (auto simp: inst_host_def inst_paths_def)
qed

theorem started_instance_verified_witness:
  "\<exists>i h' p ep. inst_start [Inl (QmpConnect ''refused''), Inr inst_client] = Some (Inr i, h', p) \<and> pr_alive p
     \<and> h_fs h' ''/s'' = None \<and> qi_vnc i = Some ep \<and> ep_host ep = ''127.0.0.1'' \<and> unat (ep_port ep) = 5901"
proof -
  obtain i h' p where "inst_start [Inl (QmpConnect ''refused''), Inr inst_client] = Some (Inr i, h', p)"
    using inst_start_ends(2) by (auto split: option.splits prod.splits sum.splits)
  note run = this
  from started_instance_verified [OF this [unfolded inst_start_def]]
  have ok: "pr_alive p" "h_fs h' ''/s'' = None"
    by (simp_all add: inst_host_def inst_paths_def inst_launch_def)
  have "case cfg_vnc sample_config of None \<Rightarrow> False | Some v \<Rightarrow> vnc_bind v = ''127.0.0.1''"
    by (simp add: sample_config_def)
  then obtain v where v: "cfg_vnc sample_config = Some v" "vnc_bind v = ''127.0.0.1''" by (auto split: option.splits)
  have seen: "waitForQMP (la_ctx_end (inst_launch [Inl (QmpConnect ''refused''), Inr inst_client]))
      (la_attempts (inst_launch [Inl (QmpConnect ''refused''), Inr inst_client])) = Inr inst_client"
    by (simp add: inst_launch_def)
  have service: "case fst (QueryVNC live_call (snd (qmp_status live_call inst_client))) of
      Inl _ \<Rightarrow> False | Inr info \<Rightarrow> vi_service info = ''5901''" by code_simp
  have "parse_dec ''5901'' = Some 5901" by code_simp
  with started_instance_verified [OF run [unfolded inst_start_def]] v seen service
  show ?thesis using run ok by (auto simp: inst_host_def inst_paths_def inst_launch_def)
qed

definition inst_live :: live where
  "inst_live =
     \<lparr>lv_inst = \<lparr>qi_pid = 42, qi_qga_path = ''/g'', qi_use_qga = True, qi_vnc = None\<rparr>,
      lv_proc = \<lparr>pr_alive = True, pr_qmp = Some (fresh_client [answer ''1'' (JObject [])]), pr_calls = [Forked]\<rparr>,
      lv_forced = None, lv_exit = None, lv_published = [], lv_qga = first_state\<rparr>"

text \<open>The agent does not answer in time, so the power button is pressed.\<close>

definition inst_shutdown :: shutdown_events where
  "inst_shutdown =
     \<lparr>sd_agent_ctx = Some (0, CtxDeadlineExceeded), sd_link = sample_link [], sd_ctx = None, sd_power = live_call\<rparr>"

lemma shutdown_request_delivered_witness:
  "\<exists>l' q'. RequestShutdown sample_reader inst_shutdown inst_live = (None, l') \<and> pr_qmp (lv_proc l') = Some q'
     \<and> qm_sent q' = [(''system_powerdown'', None, 1)]"
proof -
  have "fst (RequestShutdown sample_reader inst_shutdown inst_live) = None" by code_simp
  then obtain l' where run: "RequestShutdown sample_reader inst_shutdown inst_live = (None, l')" by (metis prod.collapse)
  have "fst (qgaShutdown sample_reader (sd_agent_ctx inst_shutdown) (sd_link inst_shutdown) inst_live) \<noteq> Inr ()"
    by (simp add: qgaShutdown_def gated_def inst_shutdown_def ctx_err_def)
  with shutdown_request_delivered [OF run] show ?thesis
    using run by (auto simp: inst_live_def fresh_client_def)
qed

end
