(* ===== verification/Doctor.thy ===== *)
theory Doctor
  imports Command Json
begin

text \<open>
  \<open>internal/qemu/doctor.go\<close> and \<open>defaults.go\<close>: the checks of a QEMU installation and of a machine's
  files, what their passing means, and the discovery of installed defaults. What the host answers
  (files, credentials, programs, sockets) is a record of functions.
\<close>

section \<open>The host\<close>

record stat_info =
  si_regular :: bool
  si_socket :: bool
  si_mode :: nat
  si_uid :: nat
  si_gid :: nat

record run_outcome =
  ro_output :: string
  ro_error :: "string option"
  ro_timeout :: bool

record probe_env =
  pe_stat :: "string \<Rightarrow> string + stat_info"
  pe_readable :: "string \<Rightarrow> string option"
  pe_executable :: "string \<Rightarrow> string option"
  pe_opens :: "string \<Rightarrow> bool"
  pe_lookpath :: "string \<Rightarrow> string option"
  pe_abs :: "string \<Rightarrow> string + string"
  pe_symlinks :: "string \<Rightarrow> string + string"
  pe_connect :: "string \<Rightarrow> string option"
  pe_run :: "string \<Rightarrow> string list \<Rightarrow> run_outcome"
  pe_uid :: nat
  pe_gid :: nat
  pe_groups :: "nat list option"

section \<open>Checks\<close>

datatype check_status = CheckPass | CheckWarn | CheckFail

record check =
  ck_name :: string
  ck_status :: check_status
  ck_evidence :: string

definition mk_check :: "string \<Rightarrow> check_status \<Rightarrow> string \<Rightarrow> check" where
  "mk_check n s e = \<lparr>ck_name = n, ck_status = s, ck_evidence = e\<rparr>"

definition qemuInstallInstruction :: string where
  "qemuInstallInstruction = ''install with: `brew install qemu`''"

definition socketVMNetInstallInstruction :: string where
  "socketVMNetInstallInstruction =
     ''install with: `brew install socket_vmnet`; start the shared service with: `sudo '' @ [CHR 0x22]
     @ ''$(brew --prefix)/bin/brew'' @ [CHR 0x22] @ '' services start socket_vmnet`''"

definition socketVMNetRootOwnedInstruction :: string where
  "socketVMNetRootOwnedInstruction =
     ''create a root-owned client copy with: `sudo install -d -o root -g wheel -m 0755 /opt/socket_vmnet/bin && sudo install -o root -g wheel -m 0755 $(brew --prefix socket_vmnet)/bin/socket_vmnet_client /opt/socket_vmnet/bin/socket_vmnet_client` (repeat the second command after Homebrew upgrades)''"

definition sambaInstallInstruction :: string where
  "sambaInstallInstruction =
     ''install with: `brew install samba` (provides /opt/homebrew/sbin/samba-dot-org-smbd on Apple Silicon, which QEMU'' @ [CHR 0x27] @ ''s user-network SMB server invokes)''"

text \<open>\<open>mode & 0111\<close>, \<open>0200\<close>, \<open>0002\<close>, \<open>0020\<close>.\<close>

definition any_exec :: "nat \<Rightarrow> bool" where "any_exec m \<longleftrightarrow> bit m 6 \<or> bit m 3 \<or> bit m 0"

definition executableError :: "probe_env \<Rightarrow> string \<Rightarrow> string option" where
  "executableError E path =
     (case pe_stat E path of
        Inl e \<Rightarrow> Some e
      | Inr i \<Rightarrow>
          if \<not> si_regular i then Some ''not a regular file''
          else if \<not> any_exec (si_mode i) then Some ''not executable''
          else map_option (\<lambda>e. ''not executable for current credentials: '' @ e) (pe_executable E path))"

definition resolveExecutable :: "probe_env \<Rightarrow> string \<Rightarrow> string \<Rightarrow> string \<Rightarrow> string \<times> string option" where
  "resolveExecutable E vmDir configured fallback =
     (let candidate = (if configured = [] then fallback else configured)
      in if vmDir \<noteq> [] then
           (let p = ResolvePath vmDir candidate
            in if \<not> is_abs_path p then (p, Some (''path is not absolute: '' @ p)) else (p, executableError E p))
         else if is_abs_path candidate then (Clean candidate, executableError E (Clean candidate))
         else case pe_lookpath E candidate of
           None \<Rightarrow> (candidate, Some (candidate @ '' was not found in PATH''))
         | Some r \<Rightarrow>
             (case pe_abs E r of
                Inl e \<Rightarrow> ([], Some (''resolve '' @ candidate @ '': '' @ e))
              | Inr a \<Rightarrow> (a, executableError E a)))"

definition executableCheck :: "string \<Rightarrow> string \<Rightarrow> string option \<Rightarrow> check" where
  "executableCheck name path err =
     (case err of
        Some e \<Rightarrow>
          mk_check name CheckFail (path @ '': '' @ e @
            (if name = ''qemu_binary'' \<or> name = ''qemu_img'' then ''; '' @ qemuInstallInstruction else []))
      | None \<Rightarrow> mk_check name CheckPass path)"

section \<open>Probing QEMU\<close>

text \<open>\<open>strings.Fields\<close>.\<close>

function fields_of :: "string \<Rightarrow> string \<Rightarrow> string list" where
  "fields_of w s =
     (if s = [] then (if w = [] then [] else [w])
      else if space_len s \<noteq> 0 then (if w = [] then [] else [w]) @ fields_of [] (drop (space_len s) s)
      else fields_of (w @ [hd s]) (tl s))"
  by pat_completeness auto
termination by (relation "measure (\<lambda>(w, s). length s)") auto

declare fields_of.simps [simp del]

datatype probe_error = ProbeTimeout string | ProbeFailed string

definition probe_error_text :: "probe_error \<Rightarrow> string" where
  "probe_error_text e = (case e of ProbeTimeout m \<Rightarrow> m | ProbeFailed m \<Rightarrow> m)"

definition probe :: "probe_env \<Rightarrow> string \<Rightarrow> string list \<Rightarrow> string \<times> probe_error option" where
  "probe E binary args =
     (let r = pe_run E binary args; text = join_with '' '' (fields_of [] (ro_output r));
          what = binary @ '' '' @ join_with '' '' args
      in (text,
          if ro_timeout r then Some (ProbeTimeout (what @ '' timed out after 5s''))
          else map_option (\<lambda>e. ProbeFailed (what @ '' failed: '' @ e @ (if text = [] then [] else '': '' @ text))) (ro_error r)))"

text \<open>The version pattern: case is ignored, so a long s is an s.\<close>

fun eat_word :: "string \<Rightarrow> string \<Rightarrow> string option" where
  "eat_word [] s = Some s"
| "eat_word (p # ps) [] = None"
| "eat_word (p # ps) (c # s) =
     (if to_lower_byte c = p then eat_word ps s
      else if p = CHR ''s'' \<and> byte c = 197 \<and> s \<noteq> [] \<and> byte (hd s) = 191 then eat_word ps (tl s)
      else None)"

definition re_space :: "char \<Rightarrow> bool" where
  "re_space c \<longleftrightarrow> byte c \<in> {9, 10, 12, 13, 32}"

definition eat_digits :: "string \<Rightarrow> (string \<times> string) option" where
  "eat_digits s = (if takeWhile is_digit s = [] then None else Some (takeWhile is_digit s, dropWhile is_digit s))"

definition eat_dot :: "string \<Rightarrow> string option" where
  "eat_dot s = (if has_prefix s ''.'' then Some (tl s) else None)"

record qemuVersion =
  qver_major :: string
  qver_minor :: string
  qver_patch :: string

definition version_at :: "string \<Rightarrow> qemuVersion option" where
  "version_at s =
     Option.bind (eat_word ''qemu emulator version'' s) (\<lambda>s.
     if s = [] \<or> \<not> re_space (hd s) then None
     else Option.bind (eat_digits (dropWhile re_space s)) (\<lambda>(major, s).
     Option.bind (eat_dot s) (\<lambda>s.
     Option.bind (eat_digits s) (\<lambda>(minor, s).
     Option.bind (eat_dot s) (\<lambda>s.
     Option.bind (eat_digits s) (\<lambda>(patch, s).
       if s = [] \<or> re_space (hd s) then Some \<lparr>qver_major = major, qver_minor = minor, qver_patch = patch\<rparr>
       else None))))))"

fun parseQEMUVersion :: "string \<Rightarrow> qemuVersion option" where
  "parseQEMUVersion [] = None"
| "parseQEMUVersion (c # s) = (case version_at (c # s) of Some v \<Rightarrow> Some v | None \<Rightarrow> parseQEMUVersion s)"

definition version_string :: "qemuVersion \<Rightarrow> string" where
  "version_string v = join_with ''.'' [qver_major v, qver_minor v, qver_patch v]"

definition version_machine :: "qemuVersion \<Rightarrow> string" where
  "version_machine v = ''virt-'' @ qver_major v @ ''.'' @ qver_minor v"

definition trim_token :: "string \<Rightarrow> string" where
  "trim_token s = rev (dropWhile (\<lambda>c. c \<in> set '' ,:()[]'') (rev (dropWhile (\<lambda>c. c \<in> set '' ,:()[]'') s)))"

definition probeHasToken :: "string \<Rightarrow> string \<Rightarrow> bool" where
  "probeHasToken output token \<longleftrightarrow>
     list_ex (\<lambda>w. trim_token w = token \<or> has_prefix (trim_token w) (token @ ''='')) (fields_of [] output)"

definition checkVersion :: "probe_env \<Rightarrow> string \<Rightarrow> check" where
  "checkVersion E binary =
     (case probe E binary [''--version''] of
        (_, Some e) \<Rightarrow> mk_check ''qemu_version'' CheckFail (probe_error_text e)
      | (output, None) \<Rightarrow>
          (case parseQEMUVersion output of
             None \<Rightarrow> mk_check ''qemu_version'' CheckFail (''unrecognized version output: '' @ output)
           | Some v \<Rightarrow>
               if version_string v = ''11.0.0'' then
                 mk_check ''qemu_version'' CheckFail
                   ''QEMU 11.0.0 has a known macOS AArch64 HVF regression; upgrade with: `brew upgrade qemu` (11.0.1 fixes this regression)''
               else mk_check ''qemu_version'' CheckPass (''QEMU '' @ version_string v)))"

definition DiscoverVersionedMachine :: "probe_env \<Rightarrow> string \<Rightarrow> string + string" where
  "DiscoverVersionedMachine E binary =
     (case probe E binary [''--version''] of
        (_, Some e) \<Rightarrow> Inl (''qemu: probe version: '' @ probe_error_text e)
      | (output, None) \<Rightarrow>
          (case parseQEMUVersion output of
             None \<Rightarrow> Inl (''qemu: unrecognized version output: '' @ output)
           | Some v \<Rightarrow>
               (case probe E binary [''-machine'', ''help''] of
                  (_, Some e) \<Rightarrow> Inl (''qemu: probe machine help: '' @ probe_error_text e)
                | (help, None) \<Rightarrow>
                    if \<not> probeHasToken help (version_machine v)
                    then Inl (''qemu: machine type '' @ [CHR 0x22] @ version_machine v @ [CHR 0x22] @ '' is absent from -machine help'')
                    else Inr (version_machine v))))"

definition capabilityCheck :: "probe_env \<Rightarrow> string \<Rightarrow> string \<Rightarrow> string list \<Rightarrow> string \<Rightarrow> check" where
  "capabilityCheck E binary name args capability =
     (case probe E binary args of (output, err) \<Rightarrow>
        if (case err of Some (ProbeTimeout _) \<Rightarrow> False | _ \<Rightarrow> True) \<and> probeHasToken output capability
        then mk_check name CheckPass (capability @ '' is supported'')
        else (case err of
          Some e \<Rightarrow> mk_check name CheckFail (probe_error_text e)
        | None \<Rightarrow> mk_check name CheckFail (capability @ '' is absent from '' @ join_with '' '' args)))"

section \<open>Files and sockets\<close>

definition configuredPath :: "string \<Rightarrow> string \<Rightarrow> string" where
  "configuredPath vmDir configured =
     (if configured = [] then [] else if vmDir = [] then Clean configured else ResolvePath vmDir configured)"

definition artifactCheck :: "probe_env \<Rightarrow> string \<Rightarrow> string \<Rightarrow> string \<Rightarrow> bool \<Rightarrow> check" where
  "artifactCheck E name path configured executable =
     (if configured = [] then mk_check name CheckFail ''path is not configured''
      else case pe_stat E path of
        Inl e \<Rightarrow> mk_check name CheckFail (path @ '': '' @ e)
      | Inr i \<Rightarrow>
          if \<not> si_regular i then mk_check name CheckFail (path @ '': not a regular file'')
          else if \<not> executable then
            (case pe_readable E path of
               Some e \<Rightarrow> mk_check name CheckFail (path @ '': not readable for current credentials: '' @ e)
             | None \<Rightarrow> mk_check name CheckPass path)
          else if \<not> any_exec (si_mode i) then mk_check name CheckFail (path @ '': not executable'')
          else (case pe_executable E path of
               Some e \<Rightarrow> mk_check name CheckFail (path @ '': not executable for current credentials: '' @ e)
             | None \<Rightarrow> mk_check name CheckPass path))"

definition contains_text :: "string \<Rightarrow> string \<Rightarrow> bool" where
  "contains_text s t \<longleftrightarrow> list_ex (\<lambda>n. has_prefix (drop n s) t) [0 ..< length s + 1]"

definition isHomebrewPath :: "string \<Rightarrow> bool" where
  "isHomebrewPath path \<longleftrightarrow>
     (let clean = Clean path
      in clean = ''/opt/homebrew'' \<or> has_prefix clean ''/opt/homebrew/''
         \<or> clean = ''/usr/local/Homebrew'' \<or> has_prefix clean ''/usr/local/Homebrew/''
         \<or> contains_text clean ''/homebrew/'')"

definition processInGroup :: "probe_env \<Rightarrow> nat \<Rightarrow> bool" where
  "processInGroup E gid \<longleftrightarrow>
     pe_gid E = gid \<or> (case pe_groups E of None \<Rightarrow> False | Some gs \<Rightarrow> gid \<in> set gs)"

definition writable_entry :: "probe_env \<Rightarrow> stat_info \<Rightarrow> bool" where
  "writable_entry E i \<longleftrightarrow>
     si_uid i = pe_uid E \<and> bit (si_mode i) 7 \<or> bit (si_mode i) 1
     \<or> bit (si_mode i) 4 \<and> processInGroup E (si_gid i)"

text \<open>The clean path and the directories above it, nearest first, as \<open>filepath.Dir\<close> gives them.\<close>

definition ancestors :: "string \<Rightarrow> string list" where
  "ancestors p =
     (let c = Clean p; rooted = is_abs_path c;
          ws = List.filter (\<lambda>w. w \<noteq> []) (split_on CHR ''/'' c);
          ns = rev [1 ..< length ws + 1]
      in if rooted then List.map (\<lambda>n. CHR ''/'' # join_with ''/'' (take n ws)) ns @ [''/'']
         else if c = ''.'' then [''.''] else List.map (\<lambda>n. join_with ''/'' (take n ws)) ns @ [''.''])"

fun writable_walk :: "probe_env \<Rightarrow> string list \<Rightarrow> bool" where
  "writable_walk E [] = False"
| "writable_walk E (p # ps) =
     (case pe_stat E p of
        Inl _ \<Rightarrow> False
      | Inr i \<Rightarrow> if writable_entry E i then True else writable_walk E ps)"

definition userWritable :: "probe_env \<Rightarrow> string \<Rightarrow> bool" where
  "userWritable E path = writable_walk E (ancestors path)"

definition socketVMNetClientCheck :: "probe_env \<Rightarrow> string \<Rightarrow> string \<Rightarrow> check" where
  "socketVMNetClientCheck E path configured =
     (let c = artifactCheck E ''socket_vmnet_client'' path configured True
      in if ck_status c \<noteq> CheckPass then
           c\<lparr>ck_evidence := ck_evidence c @ ''; '' @ socketVMNetInstallInstruction @ ''; '' @ socketVMNetRootOwnedInstruction\<rparr>
         else case pe_symlinks E path of
           Inl e \<Rightarrow> mk_check ''socket_vmnet_client'' CheckFail (path @ '': resolve symlinks: '' @ e)
         | Inr resolved \<Rightarrow>
             if isHomebrewPath path \<or> isHomebrewPath resolved \<or> userWritable E path \<or> userWritable E resolved then
               mk_check ''socket_vmnet_client'' CheckWarn
                 ((if resolved \<noteq> path then path @ '' (resolves to '' @ resolved @ '')'' else path)
                  @ '' is in a Homebrew prefix or user-writable; '' @ socketVMNetRootOwnedInstruction)
             else c)"

definition serviceHint :: string where
  "serviceHint =
     ''; start the configured socket_vmnet service; for Homebrew shared networking run: `sudo '' @ [CHR 0x22]
     @ ''$(brew --prefix)/bin/brew'' @ [CHR 0x22] @ '' services start socket_vmnet`''"

definition socketVMNetSocketCheck :: "probe_env \<Rightarrow> string \<Rightarrow> string \<Rightarrow> check" where
  "socketVMNetSocketCheck E path configured =
     (let fail = (\<lambda>e. mk_check ''socket_vmnet_socket'' CheckFail (e @ serviceHint))
      in if configured = [] then fail ''path is not configured''
         else case pe_stat E path of
           Inl e \<Rightarrow> fail (path @ '': '' @ e)
         | Inr i \<Rightarrow>
             if \<not> si_socket i then fail (path @ '': not a Unix socket'')
             else (case pe_connect E path of
               Some e \<Rightarrow> fail (path @ '' is not connectable: '' @ e)
             | None \<Rightarrow> mk_check ''socket_vmnet_socket'' CheckPass (path @ '' is connectable'')))"

section \<open>Installed defaults (\<open>defaults.go\<close>)\<close>

record firmwareInstallation =
  fi_code :: string
  fi_variables :: "string list"

definition qemu_share :: "string \<Rightarrow> firmwareInstallation" where
  "qemu_share dir =
     \<lparr>fi_code = dir @ ''/edk2-aarch64-code.fd'',
      fi_variables = [dir @ ''/edk2-arm-vars.fd'', dir @ ''/edk2-aarch64-vars.fd'']\<rparr>"

definition firmwareInstallations :: "firmwareInstallation list" where
  "firmwareInstallations =
     List.map qemu_share
       [''/opt/homebrew/share/qemu'', ''/opt/homebrew/opt/qemu/share/qemu'',
        ''/usr/local/share/qemu'', ''/usr/local/opt/qemu/share/qemu'']"

text \<open>\<open>readableRegularFile\<close>: the open succeeds and the file is regular.\<close>

definition readableRegularFile :: "probe_env \<Rightarrow> string \<Rightarrow> bool" where
  "readableRegularFile E path \<longleftrightarrow>
     pe_opens E path \<and> (case pe_stat E path of Inl _ \<Rightarrow> False | Inr i \<Rightarrow> si_regular i)"

fun discoverFirmware :: "probe_env \<Rightarrow> firmwareInstallation list \<Rightarrow> string \<times> string" where
  "discoverFirmware E [] = ([], [])"
| "discoverFirmware E (i # is) =
     (if \<not> readableRegularFile E (fi_code i) then discoverFirmware E is
      else case List.find (readableRegularFile E) (fi_variables i) of
        Some v \<Rightarrow> (fi_code i, v)
      | None \<Rightarrow> discoverFirmware E is)"

definition DiscoverFirmware :: "probe_env \<Rightarrow> string \<times> string" where
  "DiscoverFirmware E = discoverFirmware E firmwareInstallations"

record socketVMNetInstallation =
  vi_client_path :: string
  vi_daemon_path :: string
  vi_socket_path :: string

definition socketVMNetInstallations :: "socketVMNetInstallation list" where
  "socketVMNetInstallations =
     [\<lparr>vi_client_path = ''/opt/socket_vmnet/bin/socket_vmnet_client'',
       vi_daemon_path = ''/opt/socket_vmnet/bin/socket_vmnet'', vi_socket_path = ''/var/run/socket_vmnet''\<rparr>,
      \<lparr>vi_client_path = ''/opt/homebrew/opt/socket_vmnet/bin/socket_vmnet_client'',
       vi_daemon_path = ''/opt/homebrew/opt/socket_vmnet/bin/socket_vmnet'',
       vi_socket_path = ''/opt/homebrew/var/run/socket_vmnet''\<rparr>,
      \<lparr>vi_client_path = ''/usr/local/opt/socket_vmnet/bin/socket_vmnet_client'',
       vi_daemon_path = ''/usr/local/opt/socket_vmnet/bin/socket_vmnet'',
       vi_socket_path = ''/usr/local/var/run/socket_vmnet''\<rparr>,
      \<lparr>vi_client_path = ''/opt/local/bin/socket_vmnet_client'',
       vi_daemon_path = ''/opt/local/bin/socket_vmnet'', vi_socket_path = ''/var/run/socket_vmnet''\<rparr>]"

definition executableAvailable :: "probe_env \<Rightarrow> string \<Rightarrow> bool" where
  "executableAvailable E path \<longleftrightarrow> ck_status (artifactCheck E ''default'' path path True) = CheckPass"

definition first_path :: "('a \<Rightarrow> bool) \<Rightarrow> ('a \<Rightarrow> string) \<Rightarrow> 'a list \<Rightarrow> string" where
  "first_path ok path xs = (case List.find ok xs of None \<Rightarrow> [] | Some x \<Rightarrow> path x)"

definition discoverSocketVMNet :: "probe_env \<Rightarrow> socketVMNetInstallation list \<Rightarrow> SocketVMNetConfig option" where
  "discoverSocketVMNet E is =
     (let client = first_path (\<lambda>i. executableAvailable E (vi_client_path i)) vi_client_path is;
          socket = first_path (\<lambda>i. executableAvailable E (vi_daemon_path i)) vi_socket_path is
      in if client = [] \<and> socket = [] then None
         else Some \<lparr>svm_client_path = client, svm_socket_path = socket, svm_interface = ''shared''\<rparr>)"

definition DiscoverSocketVMNet :: "probe_env \<Rightarrow> SocketVMNetConfig option" where
  "DiscoverSocketVMNet E = discoverSocketVMNet E socketVMNetInstallations"

definition smbdInstallations :: "string list" where
  "smbdInstallations = [''/opt/homebrew/sbin/samba-dot-org-smbd'', ''/usr/local/sbin/samba-dot-org-smbd'']"

definition DiscoverSMBD :: "probe_env \<Rightarrow> string" where
  "DiscoverSMBD E = first_path (readableRegularFile E) id smbdInstallations"

section \<open>The doctor\<close>

definition sambaSMBDCheck :: "probe_env \<Rightarrow> check" where
  "sambaSMBDCheck E =
     (if DiscoverSMBD E \<noteq> [] then mk_check ''samba_smbd'' CheckPass (DiscoverSMBD E)
      else mk_check ''samba_smbd'' CheckFail (''QEMU user-network SMB helper not found; '' @ sambaInstallInstruction))"

definition discoveredFirmwareChecks :: "probe_env \<Rightarrow> firmwareInstallation list \<Rightarrow> check \<times> check" where
  "discoveredFirmwareChecks E is =
     (case discoverFirmware E is of (code, variables) \<Rightarrow>
        let evidence = ''checked coherent pairs: ''
              @ join_with '', '' (List.map (\<lambda>i. fi_code i @ '' + '' @ join_with ''|'' (fi_variables i)) is)
        in if code = [] \<or> variables = [] then
             (let failure = ''no readable firmware code and variables pair found in one QEMU installation; '' @ evidence
                    @ ''; '' @ qemuInstallInstruction
              in (mk_check ''firmware_code'' CheckFail failure, mk_check ''firmware_vars'' CheckFail failure))
           else (mk_check ''firmware_code'' CheckPass (code @ ''; paired with '' @ variables),
                 mk_check ''firmware_vars'' CheckPass (variables @ ''; paired with '' @ code)))"

definition qemu_checks :: "probe_env \<Rightarrow> Config \<Rightarrow> string \<Rightarrow> check list" where
  "qemu_checks E c vmDir =
     (case resolveExecutable E vmDir (qemu_binary (cfg_qemu c)) ''qemu-system-aarch64'' of (path, err) \<Rightarrow>
        executableCheck ''qemu_binary'' path err #
        (if err \<noteq> None then
           [mk_check ''qemu_version'' CheckFail ''qemu binary unavailable; version probe not run'',
            mk_check ''machine'' CheckFail ''qemu binary unavailable; -machine help probe not run'',
            mk_check ''hvf'' CheckFail ''qemu binary unavailable; -accel help probe not run'',
            mk_check ''run_with_parent'' CheckFail ''qemu binary unavailable; -run-with help probe not run'']
         else
           [checkVersion E path,
            capabilityCheck E path ''machine'' [''-machine'', ''help''] (effectiveMachine (qemu_machine (cfg_qemu c))),
            capabilityCheck E path ''hvf'' [''-accel'', ''help''] ''hvf'',
            capabilityCheck E path ''run_with_parent'' [''-run-with'', ''help''] ''exit-with-parent'']))"

definition image_tool_check :: "probe_env \<Rightarrow> Config \<Rightarrow> string \<Rightarrow> check" where
  "image_tool_check E c vmDir =
     (case resolveExecutable E vmDir (qemu_image_tool (cfg_qemu c)) ''qemu-img'' of (path, err) \<Rightarrow>
        let k = executableCheck ''qemu_img'' path err
        in if vmDir \<noteq> [] \<and> ck_status k = CheckFail then k\<lparr>ck_status := CheckWarn\<rparr> else k)"

definition firmware_checks :: "probe_env \<Rightarrow> Config \<Rightarrow> string \<Rightarrow> check list" where
  "firmware_checks E c vmDir =
     (let code = fw_code (cfg_firmware c); vars = fw_variables (cfg_firmware c)
      in if vmDir = [] \<and> code = [] \<and> vars = [] then
           (case discoveredFirmwareChecks E firmwareInstallations of (a, b) \<Rightarrow> [a, b])
         else [artifactCheck E ''firmware_code'' (configuredPath vmDir code) code False,
               artifactCheck E ''firmware_vars'' (configuredPath vmDir vars) vars False])"

definition disk_check :: "probe_env \<Rightarrow> string \<Rightarrow> nat \<times> DiskConfig \<Rightarrow> check" where
  "disk_check E vmDir p =
     (case p of (n, d) \<Rightarrow> artifactCheck E (''disk_'' @ itoa n) (configuredPath vmDir (disk_path d)) (disk_path d) False)"

definition vmnet_checks :: "probe_env \<Rightarrow> Config \<Rightarrow> string \<Rightarrow> check list" where
  "vmnet_checks E c vmDir =
     (let n = cfg_network c
      in if net_mode n = NetworkSocketVMNet then
           (case net_socket_vmnet n of
              None \<Rightarrow>
                [mk_check ''socket_vmnet_client'' CheckFail (''socket_vmnet configuration is missing; '' @ socketVMNetInstallInstruction),
                 mk_check ''socket_vmnet_socket'' CheckFail (''socket_vmnet configuration is missing; '' @ socketVMNetInstallInstruction)]
            | Some s \<Rightarrow>
                [socketVMNetClientCheck E (configuredPath vmDir (svm_client_path s)) (svm_client_path s),
                 socketVMNetSocketCheck E (configuredPath vmDir (svm_socket_path s)) (svm_socket_path s)])
         else [])"

definition Doctor :: "probe_env \<Rightarrow> Config \<Rightarrow> string \<Rightarrow> check list" where
  "Doctor E c vmDir =
     qemu_checks E c vmDir @ [image_tool_check E c vmDir] @ firmware_checks E c vmDir
     @ List.map (disk_check E vmDir) (List.enumerate 0 (cfg_disks c))
     @ (case cfg_installer c of
          None \<Rightarrow> []
        | Some i \<Rightarrow> [artifactCheck E ''installer'' (configuredPath vmDir (inst_path i)) (inst_path i) False])
     @ vmnet_checks E c vmDir
     @ (if net_mode (cfg_network c) = NetworkUser \<and> net_smb_folder (cfg_network c) \<noteq> [] then [sambaSMBDCheck E] else [])"

definition RequiredPassed :: "check list \<Rightarrow> string option" where
  "RequiredPassed checks =
     map_option (\<lambda>c. ''qemu: doctor check '' @ ck_name c @ '' failed: '' @ ck_evidence c)
       (List.find (\<lambda>c. ck_status c = CheckFail) checks)"

section \<open>What passing means\<close>

definition file_ready :: "probe_env \<Rightarrow> string \<Rightarrow> bool" where
  "file_ready E path \<longleftrightarrow> (\<exists>i. pe_stat E path = Inr i \<and> si_regular i \<and> pe_readable E path = None)"

definition runnable :: "probe_env \<Rightarrow> string \<Rightarrow> bool" where
  "runnable E path \<longleftrightarrow>
     (\<exists>i. pe_stat E path = Inr i \<and> si_regular i \<and> any_exec (si_mode i) \<and> pe_executable E path = None)"

lemma mk_check_simps [simp]:
  "ck_name (mk_check n s e) = n" "ck_status (mk_check n s e) = s" "ck_evidence (mk_check n s e) = e"
  by (simp_all add: mk_check_def)

lemma RequiredPassed_iff: "RequiredPassed ks = None \<longleftrightarrow> list_all (\<lambda>k. ck_status k \<noteq> CheckFail) ks"
  by (induction ks) (auto simp: RequiredPassed_def)

lemma executableError_runnable: "executableError E p = None \<longleftrightarrow> runnable E p"
  by (auto simp: executableError_def runnable_def split: sum.splits)

lemma executableCheck_status [simp]: "ck_status (executableCheck n p e) = CheckFail \<longleftrightarrow> e \<noteq> None"
  by (auto simp: executableCheck_def split: option.splits)

lemma artifactCheck_status:
  "ck_status (artifactCheck E n p c False) \<noteq> CheckFail \<longleftrightarrow> c \<noteq> [] \<and> file_ready E p"
  "ck_status (artifactCheck E n p c True) = CheckPass \<longleftrightarrow> c \<noteq> [] \<and> runnable E p"
  "ck_status (artifactCheck E n p c b) \<noteq> CheckWarn"
  by (auto simp: artifactCheck_def file_ready_def runnable_def split: sum.splits option.splits)

lemma capabilityCheck_status:
  "ck_status (capabilityCheck E b n as t) \<noteq> CheckFail \<longleftrightarrow>
     \<not> ro_timeout (pe_run E b as) \<and> probeHasToken (fst (probe E b as)) t"
  by (auto simp: capabilityCheck_def probe_def Let_def split: prod.splits option.splits probe_error.splits)

lemma checkVersion_status:
  "ck_status (checkVersion E b) \<noteq> CheckFail \<longleftrightarrow>
     snd (probe E b [''--version'']) = None
     \<and> (\<exists>v. parseQEMUVersion (fst (probe E b [''--version''])) = Some v \<and> version_string v \<noteq> ''11.0.0'')"
  by (auto simp: checkVersion_def split: prod.splits option.splits)

lemma resolveExecutable_vm:
  "vmDir \<noteq> [] \<Longrightarrow> resolveExecutable E vmDir configured fallback = (p, None) \<Longrightarrow>
   p = ResolvePath vmDir (if configured = [] then fallback else configured) \<and> is_abs_path p \<and> runnable E p"
  by (auto simp: resolveExecutable_def Let_def executableError_runnable split: if_splits)

lemma enumerate_in: "x \<in> set xs \<Longrightarrow> \<exists>n. (n, x) \<in> set (List.enumerate k xs)"
proof (induction xs arbitrary: k)
  case (Cons y ys)
  show ?case
  proof (cases "x = y")
    case True
    then show ?thesis by (intro exI [of _ k]) simp
  next
    case False
    with Cons.prems have "x \<in> set ys" by simp
    from Cons.IH [OF this, of "Suc k"] obtain n where "(n, x) \<in> set (List.enumerate (Suc k) ys)" ..
    then show ?thesis by (intro exI [of _ n]) simp
  qed
qed simp

lemma doctor_pass:
  assumes "RequiredPassed (Doctor E c vmDir) = None" and "vmDir \<noteq> []"
  shows "\<exists>q v. q = ResolvePath vmDir (if qemu_binary (cfg_qemu c) = [] then ''qemu-system-aarch64'' else qemu_binary (cfg_qemu c))
       \<and> is_abs_path q \<and> runnable E q
       \<and> parseQEMUVersion (fst (probe E q [''--version''])) = Some v \<and> version_string v \<noteq> ''11.0.0''
       \<and> probeHasToken (fst (probe E q [''-machine'', ''help''])) (effectiveMachine (qemu_machine (cfg_qemu c)))"
    and "file_ready E (configuredPath vmDir (fw_code (cfg_firmware c)))
       \<and> file_ready E (configuredPath vmDir (fw_variables (cfg_firmware c)))
       \<and> (\<forall>d \<in> set (cfg_disks c). disk_path d \<noteq> [] \<and> file_ready E (configuredPath vmDir (disk_path d)))
       \<and> (\<forall>i. cfg_installer c = Some i \<longrightarrow> file_ready E (configuredPath vmDir (inst_path i)))"
proof -
  have all: "list_all (\<lambda>k. ck_status k \<noteq> CheckFail) (qemu_checks E c vmDir)"
    "list_all (\<lambda>k. ck_status k \<noteq> CheckFail) (firmware_checks E c vmDir)"
    "list_all (\<lambda>k. ck_status k \<noteq> CheckFail) (List.map (disk_check E vmDir) (List.enumerate 0 (cfg_disks c)))"
    "cfg_installer c = Some i \<Longrightarrow>
       ck_status (artifactCheck E ''installer'' (configuredPath vmDir (inst_path i)) (inst_path i) False) \<noteq> CheckFail" for i
    using assms(1) unfolding RequiredPassed_iff Doctor_def by auto
  obtain q err where res: "resolveExecutable E vmDir (qemu_binary (cfg_qemu c)) ''qemu-system-aarch64'' = (q, err)" by fastforce
  with all(1) have err: "err = None" by (auto simp: qemu_checks_def)
  with all(1) res have probes: "ck_status (checkVersion E q) \<noteq> CheckFail"
    "ck_status (capabilityCheck E q ''machine'' [''-machine'', ''help''] (effectiveMachine (qemu_machine (cfg_qemu c)))) \<noteq> CheckFail"
    by (auto simp: qemu_checks_def)
  show "\<exists>q v. q = ResolvePath vmDir (if qemu_binary (cfg_qemu c) = [] then ''qemu-system-aarch64'' else qemu_binary (cfg_qemu c))
       \<and> is_abs_path q \<and> runnable E q
       \<and> parseQEMUVersion (fst (probe E q [''--version''])) = Some v \<and> version_string v \<noteq> ''11.0.0''
       \<and> probeHasToken (fst (probe E q [''-machine'', ''help''])) (effectiveMachine (qemu_machine (cfg_qemu c)))"
    using resolveExecutable_vm [OF assms(2) res [unfolded err]] probes
    unfolding checkVersion_status capabilityCheck_status by blast
  have "\<forall>d \<in> set (cfg_disks c). disk_path d \<noteq> [] \<and> file_ready E (configuredPath vmDir (disk_path d))"
  proof
    fix d assume "d \<in> set (cfg_disks c)"
    then obtain n where "(n, d) \<in> set (List.enumerate 0 (cfg_disks c))"
      using enumerate_in [of d "cfg_disks c" 0] by auto
    with all(3) have "ck_status (disk_check E vmDir (n, d)) \<noteq> CheckFail" by (auto simp: list_all_iff)
    then show "disk_path d \<noteq> [] \<and> file_ready E (configuredPath vmDir (disk_path d))"
      by (simp add: disk_check_def artifactCheck_status)
  qed
  then show "file_ready E (configuredPath vmDir (fw_code (cfg_firmware c)))
       \<and> file_ready E (configuredPath vmDir (fw_variables (cfg_firmware c)))
       \<and> (\<forall>d \<in> set (cfg_disks c). disk_path d \<noteq> [] \<and> file_ready E (configuredPath vmDir (disk_path d)))
       \<and> (\<forall>i. cfg_installer c = Some i \<longrightarrow> file_ready E (configuredPath vmDir (inst_path i)))"
    using all(2,4) assms(2) by (auto simp: firmware_checks_def Let_def artifactCheck_status)
qed

text \<open>C19. When no check of a machine has failed, QEMU can be run, is not the release with the known
  regression and knows the machine type, and the firmware, every disk and the installer are
  regular files that can be read.\<close>

theorem doctor_pass_means_ready:
  assumes "RequiredPassed (Doctor E c vmDir) = None" and "vmDir \<noteq> []"
  shows "(\<exists>q v. q = ResolvePath vmDir (if qemu_binary (cfg_qemu c) = [] then ''qemu-system-aarch64'' else qemu_binary (cfg_qemu c))
       \<and> is_abs_path q \<and> runnable E q
       \<and> parseQEMUVersion (fst (probe E q [''--version''])) = Some v \<and> version_string v \<noteq> ''11.0.0''
       \<and> probeHasToken (fst (probe E q [''-machine'', ''help''])) (effectiveMachine (qemu_machine (cfg_qemu c))))
     \<and> file_ready E (configuredPath vmDir (fw_code (cfg_firmware c)))
     \<and> file_ready E (configuredPath vmDir (fw_variables (cfg_firmware c)))
     \<and> (\<forall>d \<in> set (cfg_disks c). disk_path d \<noteq> [] \<and> file_ready E (configuredPath vmDir (disk_path d)))
     \<and> (\<forall>i. cfg_installer c = Some i \<longrightarrow> file_ready E (configuredPath vmDir (inst_path i)))"
  using doctor_pass [OF assms] by (intro conjI) simp_all

definition sample_doctor :: probe_env where
  "sample_doctor =
     \<lparr>pe_stat = (\<lambda>_. Inr \<lparr>si_regular = True, si_socket = False, si_mode = 493, si_uid = 0, si_gid = 0\<rparr>),
      pe_readable = (\<lambda>_. None), pe_executable = (\<lambda>_. None), pe_opens = (\<lambda>_. True), pe_lookpath = (\<lambda>_. None),
      pe_abs = Inr, pe_symlinks = Inr, pe_connect = (\<lambda>_. None),
      pe_run = (\<lambda>_ args. \<lparr>ro_output = (if args = [''--version''] then ''QEMU emulator version 9.2.1''
                                      else ''virt-9.2: hvf exit-with-parent=on''),
                         ro_error = None, ro_timeout = False\<rparr>),
      pe_uid = 501, pe_gid = 20, pe_groups = None\<rparr>"

theorem doctor_pass_means_ready_witness:
  "runnable sample_doctor ''/d/qemu-system-aarch64'' \<and> file_ready sample_doctor ''/fw/code.fd''"
proof -
  have "RequiredPassed (Doctor sample_doctor sample_config ''/d'') = None" by code_simp
  from doctor_pass_means_ready [OF this] have
    "runnable sample_doctor (ResolvePath ''/d'' ''qemu-system-aarch64'')
     \<and> file_ready sample_doctor (configuredPath ''/d'' ''/fw/code.fd'')"
    by (simp add: sample_config_def)
  moreover have "ResolvePath ''/d'' ''qemu-system-aarch64'' = ''/d/qemu-system-aarch64''"
    "configuredPath ''/d'' ''/fw/code.fd'' = ''/fw/code.fd''" by code_simp+
  ultimately show ?thesis by simp
qed

text \<open>A pair of firmware images always comes from one installation, and both can be read.\<close>

lemma discoverFirmware_coherent:
  "discoverFirmware E is = (code, variables) \<Longrightarrow> code \<noteq> [] \<Longrightarrow>
   \<exists>i \<in> set is. code = fi_code i \<and> variables \<in> set (fi_variables i)
     \<and> readableRegularFile E code \<and> readableRegularFile E variables"
proof (induction "is" arbitrary: code variables)
  case (Cons i "is")
  then show ?case
    by (fastforce split: if_splits option.splits simp: find_Some_iff)
qed simp

end
