(* ===== verification/Monitor.thy ===== *)
theory Monitor
  imports Instance "HOL-Library.List_Lexorder" "HOL-Library.Char_ord"
begin

text \<open>
  The monitoring cache of \<open>internal/monitoring\<close>: \<open>snapshot.go\<close>, \<open>service.go\<close>, \<open>process.go\<close> and
  \<open>process_darwin.go\<close>, and the coalesced ping of \<open>handler.go\<close>. An instant is a number of
  nanoseconds, \<open>None\<close> the zero \<open>time.Time\<close>. Every refresh gets the instants its clock reads and the
  observation it made; the refreshes come in any order, as the tick channels and the requests give
  them, each with its update in one step, under the mutex. Values are copied, so the deep copies of
  the source are the identity.
\<close>

section \<open>Snapshots (\<open>snapshot.go\<close>, \<open>process.go\<close>)\<close>

text \<open>\<open>CollectorAbsent\<close> is the empty status of a missing key.\<close>

datatype CollectorStatus =
    CollectorAbsent | CollectorOK | CollectorPending | CollectorUnsupported | CollectorFailed | CollectorStale

record CollectorState =
  cs_status :: CollectorStatus
  cs_code :: string
  cs_observed :: "int option"
  cs_success :: "int option"
  cs_duration :: int

record VMIdentity =
  vm_id :: string
  vm_name :: string
  vm_backend :: string
  vm_architecture :: string
  vm_cpus :: int
  vm_memory :: int
  vm_guest_agent :: bool
  vm_started :: int
  vm_build :: string

record QMPState =
  qs_version :: "QEMUVersion option"
  qs_state :: string
  qs_events :: "QEMUEventCounters option"
  qs_blocks :: "QEMUBlockDevice list"

record ProcessStats =
  ps_user_cpu :: rat
  ps_system_cpu :: rat
  ps_resident :: u64
  ps_wired :: u64
  ps_footprint :: u64
  ps_footprint_peak :: u64
  ps_disk_read :: u64
  ps_disk_written :: u64
  ps_pageins :: u64
  ps_idle_wakeups :: u64
  ps_interrupt_wakeups :: u64
  ps_instructions :: u64
  ps_cycles :: u64
  ps_threads :: u64

record ProcessState =
  pr_pid :: int
  pr_stats :: ProcessStats

record GuestState =
  gs_observation :: GuestObservation
  gs_probe_duration :: int
  gs_probe_at :: "int option"

record Snapshot =
  sn_observed :: "int option"
  sn_vm :: VMIdentity
  sn_qmp :: QMPState
  sn_process :: ProcessState
  sn_guest :: GuestState
  sn_collectors :: "(string \<times> CollectorState) list"

definition no_collector :: CollectorState where
  "no_collector = \<lparr>cs_status = CollectorAbsent, cs_code = [], cs_observed = None, cs_success = None, cs_duration = 0\<rparr>"

definition collector :: "Snapshot \<Rightarrow> string \<Rightarrow> CollectorState" where
  "collector s key = (case map_of (sn_collectors s) key of None \<Rightarrow> no_collector | Some c \<Rightarrow> c)"

definition set_collector :: "string \<Rightarrow> CollectorState \<Rightarrow> Snapshot \<Rightarrow> Snapshot" where
  "set_collector key c s = s\<lparr>sn_collectors := AList.update key c (sn_collectors s)\<rparr>"

definition no_stats :: ProcessStats where
  "no_stats =
     \<lparr>ps_user_cpu = 0, ps_system_cpu = 0, ps_resident = 0, ps_wired = 0, ps_footprint = 0,
      ps_footprint_peak = 0, ps_disk_read = 0, ps_disk_written = 0, ps_pageins = 0, ps_idle_wakeups = 0,
      ps_interrupt_wakeups = 0, ps_instructions = 0, ps_cycles = 0, ps_threads = 0\<rparr>"

definition no_identity :: VMIdentity where
  "no_identity =
     \<lparr>vm_id = [], vm_name = [], vm_backend = [], vm_architecture = [], vm_cpus = 0, vm_memory = 0,
      vm_guest_agent = False, vm_started = 0, vm_build = []\<rparr>"

definition empty_snapshot :: Snapshot where
  "empty_snapshot =
     \<lparr>sn_observed = None, sn_vm = no_identity,
      sn_qmp = \<lparr>qs_version = None, qs_state = [], qs_events = None, qs_blocks = []\<rparr>,
      sn_process = \<lparr>pr_pid = 0, pr_stats = no_stats\<rparr>,
      sn_guest = \<lparr>gs_observation = no_guest, gs_probe_duration = 0, gs_probe_at = None\<rparr>,
      sn_collectors = []\<rparr>"

text \<open>The copy of what is published; without anything published, an empty snapshot.\<close>

definition cloneSnapshot :: "Snapshot option \<Rightarrow> Snapshot" where
  "cloneSnapshot s = (case s of None \<Rightarrow> empty_snapshot | Some s \<Rightarrow> s)"

text \<open>The copies make an empty list of block devices nil, so the two are one here.\<close>

section \<open>Collector states (\<open>service.go\<close>)\<close>

definition qmpStaleAfter :: int where "qmpStaleAfter = 30 * 1000000000"

definition guestStaleAfter :: int where "guestStaleAfter = 90 * 1000000000"

definition succeeded :: "int \<Rightarrow> int \<Rightarrow> CollectorState" where
  "succeeded started finished =
     \<lparr>cs_status = CollectorOK, cs_code = [], cs_observed = Some finished, cs_success = Some finished,
      cs_duration = finished - started\<rparr>"

definition collectorFromResult :: "ObservationResult \<Rightarrow> int \<Rightarrow> int \<Rightarrow> CollectorState" where
  "collectorFromResult r started finished =
     (if result_OK r then succeeded started finished
      else (succeeded started finished)
        \<lparr>cs_status :=
           (if or_code r = ''guest_agent_not_configured'' \<or> or_code r = ''guest_agent_command_disabled''
            then CollectorUnsupported else CollectorFailed),
         cs_code := or_code r, cs_success := None\<rparr>)"

definition preserveSuccess :: "CollectorState \<Rightarrow> CollectorState \<Rightarrow> CollectorState" where
  "preserveSuccess previous current =
     (if cs_status current \<noteq> CollectorOK \<and> cs_success previous \<noteq> None
      then current\<lparr>cs_success := cs_success previous\<rparr> else current)"

definition stale_state :: "int \<Rightarrow> string \<Rightarrow> CollectorState \<Rightarrow> CollectorState" where
  "stale_state now key c =
     (let threshold = (if has_prefix key ''guest_'' then guestStaleAfter else qmpStaleAfter)
      in case cs_success c of
           Some t \<Rightarrow>
             if (cs_status c = CollectorOK \<or> cs_status c = CollectorFailed) \<and> threshold < now - t
             then c\<lparr>cs_status := CollectorStale, cs_code := (if key = ''qmp'' then ''qmp_stale'' else cs_code c)\<rparr>
             else c
         | None \<Rightarrow> c)"

definition markStale :: "Snapshot \<Rightarrow> int \<Rightarrow> Snapshot" where
  "markStale s now = s\<lparr>sn_collectors := List.map (\<lambda>(k, c). (k, stale_state now k c)) (sn_collectors s)\<rparr>"

section \<open>Sampling the child (\<open>process_darwin.go\<close>)\<close>

datatype process_error =
    ProcessStatsUnsupported | ProcessBadPID int | ProcessRusage string | ProcessTaskInfo string
  | ProcessTaskSize nat | ProcessThreads int

text \<open>The fields of the kernel's two records that are read.\<close>

record rusageInfoV4 =
  ru_user_time :: u64
  ru_system_time :: u64
  ru_idle_wakeups :: u64
  ru_interrupt_wakeups :: u64
  ru_pageins :: u64
  ru_wired :: u64
  ru_resident :: u64
  ru_footprint :: u64
  ru_disk_read :: u64
  ru_disk_written :: u64
  ru_footprint_peak :: u64
  ru_instructions :: u64
  ru_cycles :: u64

record procTaskInfo =
  ti_thread_count :: "32 word"

definition task_info_size :: nat where "task_info_size = 96"

text \<open>The two calls give an error or what they wrote, the second also the number of bytes.\<close>

definition collectProcessWith ::
  "int \<Rightarrow> string + rusageInfoV4 \<Rightarrow> string + nat \<times> procTaskInfo \<Rightarrow> process_error + ProcessStats" where
  "collectProcessWith pid rusage taskinfo =
     (if pid \<le> 0 then Inl (ProcessBadPID pid)
      else case rusage of
        Inl e \<Rightarrow> Inl (ProcessRusage e)
      | Inr u \<Rightarrow>
          (case taskinfo of
             Inl e \<Rightarrow> Inl (ProcessTaskInfo e)
           | Inr (copied, t) \<Rightarrow>
               if copied \<noteq> task_info_size then Inl (ProcessTaskSize copied)
               else if sint (ti_thread_count t) < 0 then Inl (ProcessThreads (sint (ti_thread_count t)))
               else Inr
                 \<lparr>ps_user_cpu = of_int (uint (ru_user_time u)) / 1000000000,
                  ps_system_cpu = of_int (uint (ru_system_time u)) / 1000000000,
                  ps_resident = ru_resident u, ps_wired = ru_wired u, ps_footprint = ru_footprint u,
                  ps_footprint_peak = ru_footprint_peak u, ps_disk_read = ru_disk_read u,
                  ps_disk_written = ru_disk_written u, ps_pageins = ru_pageins u,
                  ps_idle_wakeups = ru_idle_wakeups u, ps_interrupt_wakeups = ru_interrupt_wakeups u,
                  ps_instructions = ru_instructions u, ps_cycles = ru_cycles u,
                  ps_threads = word_of_int (sint (ti_thread_count t))\<rparr>))"

text \<open>Elsewhere there is nothing to sample (\<open>process_unsupported.go\<close>).\<close>

definition collectProcess ::
  "bool \<Rightarrow> int \<Rightarrow> string + rusageInfoV4 \<Rightarrow> string + nat \<times> procTaskInfo \<Rightarrow> process_error + ProcessStats" where
  "collectProcess darwin pid rusage taskinfo =
     (if darwin then collectProcessWith pid rusage taskinfo else Inl ProcessStatsUnsupported)"

section \<open>The service\<close>

record Service =
  sv_pid :: int
  sv_vm :: VMIdentity
  sv_snapshot :: "Snapshot option"

definition update_cache :: "(Snapshot \<Rightarrow> Snapshot) \<Rightarrow> int \<Rightarrow> Service \<Rightarrow> Service" where
  "update_cache f published sv =
     sv\<lparr>sv_snapshot := Some ((f (cloneSnapshot (sv_snapshot sv)))\<lparr>sn_observed := Some published\<rparr>)\<rparr>"

definition take_qmp :: "QEMUObservation \<Rightarrow> int \<Rightarrow> int \<Rightarrow> Snapshot \<Rightarrow> Snapshot" where
  "take_qmp ob started finished s =
     (let state = collectorFromResult (ob_qmp ob) started finished;
          s = (if cs_status state = CollectorOK
               then s\<lparr>sn_qmp := (sn_qmp s)\<lparr>qs_version := ob_version ob, qs_state := ob_state ob, qs_events := ob_events ob\<rparr>\<rparr>
               else s);
          s = set_collector ''qmp'' state s;
          block =
            (if cs_status state \<noteq> CollectorOK \<and> result_OK (ob_block ob)
             then \<lparr>cs_status = CollectorFailed, cs_code = cs_code state, cs_observed = Some finished,
                   cs_success = None, cs_duration = finished - started\<rparr>
             else collectorFromResult (ob_block ob) started finished);
          s = (if cs_status block = CollectorOK then s\<lparr>sn_qmp := (sn_qmp s)\<lparr>qs_blocks := ob_blocks ob\<rparr>\<rparr> else s)
      in set_collector ''block'' (preserveSuccess (collector s ''block'') block) s)"

definition take_process :: "process_error + ProcessStats \<Rightarrow> int \<Rightarrow> int \<Rightarrow> Snapshot \<Rightarrow> Snapshot" where
  "take_process r started finished s =
     (let ok = succeeded started finished;
          state =
            (case r of
               Inl ProcessStatsUnsupported \<Rightarrow> ok\<lparr>cs_status := CollectorUnsupported\<rparr>
             | Inl _ \<Rightarrow> ok\<lparr>cs_status := CollectorFailed, cs_code := ''process_stats_unavailable''\<rparr>
             | Inr _ \<Rightarrow> ok);
          s = (case r of Inl _ \<Rightarrow> s | Inr stats \<Rightarrow> s\<lparr>sn_process := (sn_process s)\<lparr>pr_stats := stats\<rparr>\<rparr>)
      in set_collector ''process'' (preserveSuccess (collector s ''process'') state) s)"

definition take_family :: "int \<Rightarrow> int \<Rightarrow> string \<times> ObservationResult \<Rightarrow> Snapshot \<Rightarrow> Snapshot" where
  "take_family started finished p s =
     (case p of (key, r) \<Rightarrow>
        if key = ''info'' then s
        else set_collector (''guest_'' @ key)
               (preserveSuccess (collector s (''guest_'' @ key)) (collectorFromResult r started finished)) s)"

definition take_guest :: "GuestObservation \<Rightarrow> int \<Rightarrow> int \<Rightarrow> Snapshot \<Rightarrow> Snapshot" where
  "take_guest ob started finished s =
     (case map_of (go_results ob) ''info'' of
        Some r \<Rightarrow>
          if \<not> result_OK r then
            set_collector ''guest_info''
              (preserveSuccess (collector s ''guest_info'') (collectorFromResult r started finished)) s
          else fold (take_family started finished) (go_results ob)
                 (set_collector ''guest_info'' (succeeded started finished)
                    (s\<lparr>sn_guest := (sn_guest s)\<lparr>gs_observation := ob\<rparr>\<rparr>))
      | None \<Rightarrow> fold (take_family started finished) (go_results ob)
                 (set_collector ''guest_info'' (succeeded started finished)
                    (s\<lparr>sn_guest := (sn_guest s)\<lparr>gs_observation := ob\<rparr>\<rparr>)))"

definition take_ping :: "ObservationResult \<Rightarrow> int \<Rightarrow> int \<Rightarrow> Snapshot \<Rightarrow> Snapshot" where
  "take_ping r started finished s =
     set_collector ''guest_ping'' (collectorFromResult r started finished)
       (s\<lparr>sn_guest := (sn_guest s)\<lparr>gs_probe_at := Some finished, gs_probe_duration := finished - started\<rparr>\<rparr>)"

definition seed_snapshot :: "Service \<Rightarrow> string \<Rightarrow> int \<Rightarrow> Snapshot" where
  "seed_snapshot sv fallback now =
     (let pending = no_collector\<lparr>cs_status := CollectorPending\<rparr>
      in empty_snapshot
        \<lparr>sn_observed := Some now, sn_vm := sv_vm sv,
         sn_qmp := \<lparr>qs_version = None, qs_state = fallback, qs_events = None, qs_blocks = []\<rparr>,
         sn_process := \<lparr>pr_pid = sv_pid sv, pr_stats = no_stats\<rparr>,
         sn_collectors :=
           [(''qmp'', pending), (''block'', pending), (''process'', pending),
            (''guest_info'',
             if vm_guest_agent (sv_vm sv) then pending
             else no_collector\<lparr>cs_status := CollectorUnsupported, cs_code := ''guest_agent_not_configured''\<rparr>)]\<rparr>)"

text \<open>What happens to the cache: the instants are when the call started, finished and was published.\<close>

datatype mon_event =
    SeedStore string int
  | RefreshQMP QEMUObservation int int int
  | RefreshProcess "process_error + ProcessStats" int int int
  | RefreshGuest GuestObservation int int int
  | PingDone ObservationResult int int int

fun apply_event :: "mon_event \<Rightarrow> Service \<Rightarrow> Service" where
  "apply_event (SeedStore fallback now) sv = sv\<lparr>sv_snapshot := Some (seed_snapshot sv fallback now)\<rparr>"
| "apply_event (RefreshQMP ob a b p) sv = update_cache (take_qmp ob a b) p sv"
| "apply_event (RefreshProcess r a b p) sv = update_cache (take_process r a b) p sv"
| "apply_event (RefreshGuest ob a b p) sv = update_cache (take_guest ob a b) p sv"
| "apply_event (PingDone r a b p) sv = update_cache (take_ping r a b) p sv"

definition new_service :: "int \<Rightarrow> VMIdentity \<Rightarrow> Service" where
  "new_service pid vm = \<lparr>sv_pid = pid, sv_vm = vm, sv_snapshot = None\<rparr>"

definition Seed ::
  "string \<Rightarrow> int \<Rightarrow> QEMUObservation \<times> int \<times> int \<times> int \<Rightarrow> (process_error + ProcessStats) \<times> int \<times> int \<times> int
   \<Rightarrow> Service \<Rightarrow> Service" where
  "Seed fallback now q r sv =
     (case (q, r) of ((ob, a, b, p), (stats, c, d, e)) \<Rightarrow>
        apply_event (RefreshProcess stats c d e)
          (apply_event (RefreshQMP ob a b p) (apply_event (SeedStore fallback now) sv)))"

definition Snapshot_at :: "Service \<Rightarrow> int \<Rightarrow> Snapshot option" where
  "Snapshot_at sv now = map_option (\<lambda>s. markStale s now) (sv_snapshot sv)"

section \<open>Health\<close>

definition unhealthy_states :: "string list" where
  "unhealthy_states =
     [''inmigrate'', ''internal-error'', ''io-error'', ''postmigrate'', ''prelaunch'', ''finish-migrate'',
      ''restore-vm'', ''save-vm'', ''shutdown'', ''watchdog'', ''guest-panicked'', ''colo'']"

text \<open>Whether the platform samples processes is an argument.\<close>

definition healthPolicy :: "bool \<Rightarrow> string \<Rightarrow> CollectorState \<Rightarrow> CollectorState \<Rightarrow> string \<times> string \<times> nat" where
  "healthPolicy supported state qmp process =
     (if cs_status qmp = CollectorStale then (''unhealthy'', ''qmp_stale'', 503)
      else if cs_status qmp \<noteq> CollectorOK then (''unhealthy'', ''qmp_unavailable'', 503)
      else if state = ''running'' then
        (if supported \<and> (cs_status process = CollectorFailed \<or> cs_status process = CollectorStale)
         then (''degraded'', ''process_stats_unavailable'', 200) else (''healthy'', [], 200))
      else if state \<in> {''paused'', ''suspended'', ''debug''} then (''degraded'', [], 200)
      else if state \<in> set unhealthy_states then (''unhealthy'', ''state_'' @ state, 503)
      else (''unhealthy'', ''unsupported_state'', 503))"

definition snapshot_health :: "bool \<Rightarrow> Snapshot \<Rightarrow> string \<times> string \<times> nat" where
  "snapshot_health supported s =
     healthPolicy supported (qs_state (sn_qmp s)) (collector s ''qmp'') (collector s ''process'')"

section \<open>Freshness\<close>

text \<open>A successful QMP round that finished at an instant and saw a state.\<close>

definition qmp_success :: "mon_event list \<Rightarrow> int \<Rightarrow> string \<Rightarrow> bool" where
  "qmp_success es finished state \<longleftrightarrow>
     list_ex (\<lambda>e. case e of
        RefreshQMP ob a b p \<Rightarrow> b = finished \<and> result_OK (ob_qmp ob) \<and> ob_state ob = state | _ \<Rightarrow> False) es"

definition qmp_fresh :: "mon_event list \<Rightarrow> Snapshot \<Rightarrow> bool" where
  "qmp_fresh es s \<longleftrightarrow>
     (cs_status (collector s ''qmp'') = CollectorOK \<longrightarrow>
        (\<exists>t. cs_success (collector s ''qmp'') = Some t \<and> qmp_success es t (qs_state (sn_qmp s))))
     \<and> cs_status (collector s ''qmp'') \<noteq> CollectorStale"

lemma collector_set [simp]:
  "collector (set_collector k c s) k' = (if k' = k then c else collector s k')"
  by (simp add: collector_def set_collector_def update_conv')

lemma collector_update [simp]:
  "collector (s\<lparr>sn_qmp := q\<rparr>) k = collector s k"
  "collector (s\<lparr>sn_process := p\<rparr>) k = collector s k"
  "collector (s\<lparr>sn_guest := g\<rparr>) k = collector s k"
  "collector (s\<lparr>sn_observed := ob\<rparr>) k = collector s k"
  by (simp_all add: collector_def)

lemma set_collector_fields [simp]:
  "sn_qmp (set_collector k c s) = sn_qmp s"
  "sn_process (set_collector k c s) = sn_process s"
  "sn_guest (set_collector k c s) = sn_guest s"
  by (simp_all add: set_collector_def)

lemma take_family_qmp [simp]:
  "sn_qmp (take_family a b p s) = sn_qmp s"
  "collector (take_family a b p s) ''qmp'' = collector s ''qmp''"
  "collector (take_family a b p s) ''process'' = collector s ''process''"
  "sn_process (take_family a b p s) = sn_process s"
  by (auto simp: take_family_def split: prod.splits)

lemma fold_family_qmp [simp]:
  "sn_qmp (fold (take_family a b) ps s) = sn_qmp s"
  "collector (fold (take_family a b) ps s) ''qmp'' = collector s ''qmp''"
  "collector (fold (take_family a b) ps s) ''process'' = collector s ''process''"
  "sn_process (fold (take_family a b) ps s) = sn_process s"
  by (induction ps arbitrary: s) simp_all

lemma take_guest_qmp [simp]:
  "sn_qmp (take_guest ob a b s) = sn_qmp s"
  "collector (take_guest ob a b s) ''qmp'' = collector s ''qmp''"
  "collector (take_guest ob a b s) ''process'' = collector s ''process''"
  "sn_process (take_guest ob a b s) = sn_process s"
  by (auto simp: take_guest_def split: option.splits)

lemma take_ping_qmp [simp]:
  "sn_qmp (take_ping r a b s) = sn_qmp s"
  "collector (take_ping r a b s) ''qmp'' = collector s ''qmp''"
  "collector (take_ping r a b s) ''process'' = collector s ''process''"
  by (simp_all add: take_ping_def)

lemma take_process_qmp [simp]:
  "sn_qmp (take_process r a b s) = sn_qmp s"
  "collector (take_process r a b s) ''qmp'' = collector s ''qmp''"
  by (auto simp: take_process_def Let_def split: sum.splits)

lemma succeeded_simps [simp]:
  "cs_status (succeeded a b) = CollectorOK" "cs_success (succeeded a b) = Some b"
  by (simp_all add: succeeded_def)

lemma collectorFromResult_status:
  "cs_status (collectorFromResult r a b) = CollectorOK \<longleftrightarrow> result_OK r"
  "cs_status (collectorFromResult r a b) \<noteq> CollectorStale"
  "result_OK r \<Longrightarrow> collectorFromResult r a b = succeeded a b"
  by (auto simp: collectorFromResult_def succeeded_def)

lemma take_qmp_qmp:
  "collector (take_qmp ob a b s) ''qmp'' = collectorFromResult (ob_qmp ob) a b"
  "qs_state (sn_qmp (take_qmp ob a b s)) = (if result_OK (ob_qmp ob) then ob_state ob else qs_state (sn_qmp s))"
  by (auto simp: take_qmp_def Let_def collectorFromResult_status)

lemma qmp_success_simps [simp]:
  "\<not> qmp_success [] t st"
  "qmp_success (es @ [RefreshQMP ob a b p]) t st \<longleftrightarrow>
     qmp_success es t st \<or> b = t \<and> result_OK (ob_qmp ob) \<and> ob_state ob = st"
  "qmp_success es t st \<Longrightarrow> qmp_success (es @ fs) t st"
  by (auto simp: qmp_success_def list_ex_append)

lemma qmp_fresh_same:
  "qmp_fresh es s \<Longrightarrow> collector s' ''qmp'' = collector s ''qmp'' \<Longrightarrow> sn_qmp s' = sn_qmp s \<Longrightarrow> qmp_fresh (es @ [e]) s'"
  by (auto simp: qmp_fresh_def)

definition run_events :: "mon_event list \<Rightarrow> Service \<Rightarrow> Service" where
  "run_events es sv = fold apply_event es sv"

lemma run_events_snoc: "run_events (es @ [e]) sv = apply_event e (run_events es sv)"
  by (simp add: run_events_def)

lemma qmp_fresh_empty: "qmp_fresh es empty_snapshot"
  by (simp add: qmp_fresh_def empty_snapshot_def collector_def no_collector_def)

lemma qmp_fresh_clone: "(\<And>s. x = Some s \<Longrightarrow> qmp_fresh es s) \<Longrightarrow> qmp_fresh es (cloneSnapshot x)"
  by (cases x) (auto simp: cloneSnapshot_def qmp_fresh_empty)

lemma qmp_fresh_reachable:
  "sv_snapshot (run_events es (new_service pid vm)) = Some s \<Longrightarrow> qmp_fresh es s"
proof (induction es arbitrary: s rule: rev_induct)
  case Nil
  then show ?case by (simp add: run_events_def new_service_def)
next
  case (snoc e es)
  let ?old = "cloneSnapshot (sv_snapshot (run_events es (new_service pid vm)))"
  have old: "qmp_fresh es ?old" using qmp_fresh_clone snoc.IH by blast
  have same: "qmp_fresh (es @ [e]) s" if "collector s ''qmp'' = collector ?old ''qmp''" "sn_qmp s = sn_qmp ?old"
    using qmp_fresh_same [OF old] that by blast
  show ?case
  proof (cases e)
    case (SeedStore fallback now)
    with snoc.prems show ?thesis
      by (auto simp: run_events_snoc qmp_fresh_def seed_snapshot_def Let_def collector_def no_collector_def)
  next
    case (RefreshQMP ob a b p)
    with snoc.prems have s: "s = (take_qmp ob a b ?old)\<lparr>sn_observed := Some p\<rparr>"
      by (auto simp: run_events_snoc update_cache_def)
    show ?thesis
      unfolding s RefreshQMP qmp_fresh_def
      by (simp add: take_qmp_qmp collectorFromResult_status)
  next
    case (RefreshProcess r a b p)
    with snoc.prems have "s = (take_process r a b ?old)\<lparr>sn_observed := Some p\<rparr>"
      by (auto simp: run_events_snoc update_cache_def)
    then show ?thesis by (intro same) simp_all
  next
    case (RefreshGuest ob a b p)
    with snoc.prems have "s = (take_guest ob a b ?old)\<lparr>sn_observed := Some p\<rparr>"
      by (auto simp: run_events_snoc update_cache_def)
    then show ?thesis by (intro same) simp_all
  next
    case (PingDone r a b p)
    with snoc.prems have "s = (take_ping r a b ?old)\<lparr>sn_observed := Some p\<rparr>"
      by (auto simp: run_events_snoc update_cache_def)
    then show ?thesis by (intro same) simp_all
  qed
qed

lemma map_of_map_keyed: "map_of (List.map (\<lambda>(k, c). (k, f k c)) xs) k = map_option (f k) (map_of xs k)"
  by (induction xs) auto

lemma collector_markStale: "collector (markStale s now) k = stale_state now k (collector s k)"
  by (auto simp: collector_def markStale_def map_of_map_keyed stale_state_def no_collector_def split: option.splits)

lemma stale_state_ok:
  "cs_status (stale_state now ''qmp'' c) = CollectorOK \<Longrightarrow>
   cs_status c = CollectorOK \<and> (\<forall>t. cs_success c = Some t \<longrightarrow> now - t \<le> qmpStaleAfter)"
  by (auto simp: stale_state_def Let_def has_prefix_def split: option.splits if_splits)

lemma healthPolicy_ok:
  "healthPolicy supported state q p = (health, code, 200) \<Longrightarrow>
   cs_status q = CollectorOK \<and> state \<in> {''running'', ''paused'', ''suspended'', ''debug''}"
  by (auto simp: healthPolicy_def split: if_splits)

text \<open>Whatever refreshes have run and in whatever order, the health route answers 200 only when
  some QMP round succeeded no more than thirty seconds before, and the state it then saw, which is
  the state reported, is running, paused, suspended or debug.\<close>

lemma health_ok_means_fresh:
  assumes "Snapshot_at (run_events es (new_service pid vm)) now = Some s"
    and "snapshot_health supported s = (health, code, 200)"
  shows "\<exists>t. qmp_success es t (qs_state (sn_qmp s)) \<and> now - t \<le> 30 * 1000000000
           \<and> qs_state (sn_qmp s) \<in> {''running'', ''paused'', ''suspended'', ''debug''}"
proof -
  obtain c where c: "sv_snapshot (run_events es (new_service pid vm)) = Some c" and s: "s = markStale c now"
    using assms(1) by (auto simp: Snapshot_at_def)
  from assms(2) have ok: "cs_status (collector s ''qmp'') = CollectorOK"
    and state: "qs_state (sn_qmp s) \<in> {''running'', ''paused'', ''suspended'', ''debug''}"
    using healthPolicy_ok unfolding snapshot_health_def by blast+
  from stale_state_ok [OF ok [unfolded s collector_markStale]]
  have "cs_status (collector c ''qmp'') = CollectorOK"
    and fresh: "\<And>t. cs_success (collector c ''qmp'') = Some t \<Longrightarrow> now - t \<le> qmpStaleAfter" by blast+
  moreover have "qs_state (sn_qmp s) = qs_state (sn_qmp c)" by (simp add: s markStale_def)
  ultimately show ?thesis
    using qmp_fresh_reachable [OF c] state fresh unfolding qmp_fresh_def qmpStaleAfter_def by fastforce
qed

definition sample_identity :: VMIdentity where
  "sample_identity = no_identity\<lparr>vm_name := ''dev'', vm_guest_agent := True, vm_started := 5\<rparr>"

definition sample_observation :: QEMUObservation where
  "sample_observation = nothing_observed\<lparr>ob_state := ''running''\<rparr>"

lemma health_ok_means_fresh_witness:
  "\<exists>t. qmp_success [SeedStore ''running'' 5, RefreshQMP sample_observation 6 7 8] t ''running'' \<and> 20 - t \<le> 30 * 1000000000"
proof -
  let ?es = "[SeedStore ''running'' 5, RefreshQMP sample_observation 6 7 8]"
  obtain s where s: "Snapshot_at (run_events ?es (new_service 9 sample_identity)) 20 = Some s"
    by (simp add: Snapshot_at_def run_events_def update_cache_def)
  have "the (Snapshot_at (run_events ?es (new_service 9 sample_identity)) 20) = s" using s by simp
  moreover have "snapshot_health True (the (Snapshot_at (run_events ?es (new_service 9 sample_identity)) 20)) = (''healthy'', [], 200)"
    "qs_state (sn_qmp (the (Snapshot_at (run_events ?es (new_service 9 sample_identity)) 20))) = ''running''"
    by code_simp+
  ultimately have "snapshot_health True s = (''healthy'', [], 200)" "qs_state (sn_qmp s) = ''running''" by simp_all
  with health_ok_means_fresh [OF s] show ?thesis by auto
qed

section \<open>What the cache says of failures\<close>

text \<open>A failed sampling of the process leaves the instant of the failure as its last success when
  there was none before, so the status route shows the zero statistics as if they had been read.\<close>

lemma process_failure_counts_as_success:
  "cs_success (collector s ''process'') = None \<Longrightarrow>
   cs_success (collector (take_process (Inl e) a b s) ''process'') = Some b
   \<and> pr_stats (sn_process (take_process (Inl e) a b s)) = pr_stats (sn_process s)"
  by (cases e) (simp_all add: take_process_def Let_def preserveSuccess_def)

text \<open>A failed QMP round forgets when the last one succeeded; a failed block or guest round does
  not.\<close>

lemma qmp_failure_forgets_success:
  "\<not> result_OK (ob_qmp ob) \<Longrightarrow> cs_success (collector (take_qmp ob a b s) ''qmp'') = None"
  by (simp add: take_qmp_qmp collectorFromResult_def)

lemma preserveSuccess_keeps:
  "cs_success previous = Some t \<Longrightarrow> cs_status current \<noteq> CollectorOK \<Longrightarrow>
   cs_success (preserveSuccess previous current) = Some t \<and> cs_status (preserveSuccess previous current) = cs_status current"
  by (simp add: preserveSuccess_def)

end
