(* ===== verification/MonitorHttp.thy ===== *)
theory MonitorHttp
  imports Monitor
begin

text \<open>
  The HTTP surface of \<open>internal/monitoring\<close>: \<open>handler.go\<close> (routes, JSON payloads, the ping) and
  \<open>metrics.go\<close> (the Prometheus text). The texts of numbers, instants and JSON values are parameters,
  as is which runes beyond ASCII are printable.
\<close>

section \<open>The standard library\<close>

record monitor_lib =
  mt_marshal :: "json \<Rightarrow> string option"
  mt_time :: "int \<Rightarrow> string"
  mt_float :: "rat \<Rightarrow> string"
  mt_json_float :: "rat \<Rightarrow> string"
  mt_printable :: "string \<Rightarrow> bool"

text \<open>\<open>strconv.Quote\<close>, rune by rune.\<close>

definition code_point :: "string \<Rightarrow> nat" where
  "code_point r =
     (case List.map byte r of
        [a, b] \<Rightarrow> (a mod 32) * 64 + b mod 64
      | [a, b, c] \<Rightarrow> (a mod 16) * 4096 + (b mod 64) * 64 + c mod 64
      | [a, b, c, d] \<Rightarrow> (a mod 8) * 262144 + (b mod 64) * 4096 + (c mod 64) * 64 + d mod 64
      | _ \<Rightarrow> 0)"

fun hex_text :: "nat \<Rightarrow> nat \<Rightarrow> string" where
  "hex_text 0 n = []"
| "hex_text (Suc k) n = hex_text k (n div 16) @ [hex_digit (n mod 16)]"

definition backslash :: char where "backslash = CHR 0x5C"

definition quote_ascii :: "char \<Rightarrow> string" where
  "quote_ascii c =
     (if byte c = 34 \<or> byte c = 92 then [backslash, c]
      else if 32 \<le> byte c \<and> byte c \<le> 126 then [c]
      else case map_of [(7::nat, CHR ''a''), (8, CHR ''b''), (12, CHR ''f''), (10, CHR ''n''), (13, CHR ''r''),
                        (9, CHR ''t''), (11, CHR ''v'')] (byte c) of
        Some e \<Rightarrow> [backslash, e]
      | None \<Rightarrow> [backslash, CHR ''x''] @ hex_text 2 (byte c))"

definition quote_rune :: "(string \<Rightarrow> bool) \<Rightarrow> string \<Rightarrow> string" where
  "quote_rune P r =
     (if length r = 1 then quote_ascii (hd r)
      else if P r then r
      else if code_point r < 65536 then [backslash, CHR ''u''] @ hex_text 4 (code_point r)
      else [backslash, CHR ''U''] @ hex_text 8 (code_point r))"

function quote_body :: "(string \<Rightarrow> bool) \<Rightarrow> string \<Rightarrow> string" where
  "quote_body P s =
     (if s = [] then []
      else if rune_len s = 0 then [backslash, CHR ''x''] @ hex_text 2 (byte (hd s)) @ quote_body P (tl s)
      else quote_rune P (take (rune_len s) s) @ quote_body P (drop (rune_len s) s))"
  by pat_completeness auto
termination by (relation "measure (\<lambda>(P, s). length s)") auto

declare quote_body.simps [simp del]

definition Quote :: "(string \<Rightarrow> bool) \<Rightarrow> string \<Rightarrow> string" where
  "Quote P s = [CHR 0x22] @ quote_body P s @ [CHR 0x22]"

section \<open>Metrics (\<open>metrics.go\<close>)\<close>

type_synonym sample = "string \<times> (string \<times> string) list \<times> string"

definition metricDefinitions :: "(string \<times> string \<times> string) list" where
  "metricDefinitions =
     [(''qemu_manage_qmp_up'', ''Whether the QMP collector has a fresh observation.'', ''gauge''),
      (''qemu_manage_vm_state_info'', ''Current raw QEMU run state.'', ''gauge''),
      (''qemu_manage_vm_uptime_seconds'', ''Seconds since this supervisor started the VM.'', ''gauge''),
      (''qemu_manage_qmp_events_total'', ''QMP lifecycle events observed by this supervisor.'', ''counter''),
      (''qemu_manage_qemu_process_stats_up'', ''Whether macOS process statistics are fresh.'', ''gauge''),
      (''qemu_manage_qemu_process_cpu_seconds_total'', ''QEMU child CPU time in seconds.'', ''counter''),
      (''qemu_manage_qemu_process_resident_memory_bytes'', ''QEMU child resident memory in bytes.'', ''gauge''),
      (''qemu_manage_qemu_process_physical_footprint_bytes'', ''QEMU child physical footprint in bytes.'', ''gauge''),
      (''qemu_manage_qemu_process_physical_footprint_peak_bytes'', ''QEMU child lifetime peak physical footprint in bytes.'', ''gauge''),
      (''qemu_manage_qemu_process_wired_memory_bytes'', ''QEMU child wired memory in bytes.'', ''gauge''),
      (''qemu_manage_qemu_process_threads'', ''QEMU child thread count.'', ''gauge''),
      (''qemu_manage_qemu_process_disk_read_bytes_total'', ''Bytes read by the QEMU child.'', ''counter''),
      (''qemu_manage_qemu_process_disk_written_bytes_total'', ''Bytes written by the QEMU child.'', ''counter''),
      (''qemu_manage_qemu_process_pageins_total'', ''Page-ins by the QEMU child.'', ''counter''),
      (''qemu_manage_qemu_process_idle_wakeups_total'', ''Package idle wakeups by the QEMU child.'', ''counter''),
      (''qemu_manage_qemu_process_interrupt_wakeups_total'', ''Interrupt wakeups by the QEMU child.'', ''counter''),
      (''qemu_manage_qemu_process_instructions_total'', ''Instructions executed by the QEMU child.'', ''counter''),
      (''qemu_manage_qemu_process_cycles_total'', ''CPU cycles used by the QEMU child.'', ''counter''),
      (''qemu_manage_block_io_bytes_total'', ''QMP block I/O bytes.'', ''counter''),
      (''qemu_manage_block_io_operations_total'', ''QMP block I/O operations.'', ''counter''),
      (''qemu_manage_block_io_seconds_total'', ''QMP block I/O duration in seconds.'', ''counter''),
      (''qemu_manage_block_failed_operations_total'', ''QMP failed block operations.'', ''counter''),
      (''qemu_manage_block_invalid_operations_total'', ''QMP invalid block operations.'', ''counter''),
      (''qemu_manage_block_idle_seconds'', ''QMP block device idle duration in seconds.'', ''gauge''),
      (''qemu_manage_block_io_status_info'', ''QMP block device I/O status.'', ''gauge''),
      (''qemu_manage_block_io_errors_total'', ''Structured QMP block I/O error events.'', ''counter''),
      (''qemu_manage_guest_agent_configured'', ''Whether the QEMU guest agent is configured.'', ''gauge''),
      (''qemu_manage_guest_agent_up'', ''Whether the guest agent has a fresh successful observation.'', ''gauge''),
      (''qemu_manage_guest_agent_probe_duration_seconds'', ''Duration of the latest completed guest-agent probe.'', ''gauge''),
      (''qemu_manage_guest_cpu_seconds_total'', ''Guest CPU time in seconds.'', ''counter''),
      (''qemu_manage_guest_load1'', ''Guest one-minute load average.'', ''gauge''),
      (''qemu_manage_guest_load5'', ''Guest five-minute load average.'', ''gauge''),
      (''qemu_manage_guest_load15'', ''Guest fifteen-minute load average.'', ''gauge''),
      (''qemu_manage_guest_vcpus'', ''Guest vCPU count by online state.'', ''gauge''),
      (''qemu_manage_guest_filesystem_size_bytes'', ''Guest filesystem size in bytes.'', ''gauge''),
      (''qemu_manage_guest_filesystem_used_bytes'', ''Guest filesystem used bytes.'', ''gauge''),
      (''qemu_manage_guest_network_receive_bytes_total'', ''Guest network bytes received.'', ''counter''),
      (''qemu_manage_guest_network_transmit_bytes_total'', ''Guest network bytes transmitted.'', ''counter''),
      (''qemu_manage_guest_network_receive_packets_total'', ''Guest network packets received.'', ''counter''),
      (''qemu_manage_guest_network_transmit_packets_total'', ''Guest network packets transmitted.'', ''counter''),
      (''qemu_manage_guest_network_receive_errors_total'', ''Guest network receive errors.'', ''counter''),
      (''qemu_manage_guest_network_transmit_errors_total'', ''Guest network transmit errors.'', ''counter''),
      (''qemu_manage_guest_network_receive_dropped_total'', ''Guest network receive drops.'', ''counter''),
      (''qemu_manage_guest_network_transmit_dropped_total'', ''Guest network transmit drops.'', ''counter''),
      (''qemu_manage_guest_disk_sectors_total'', ''Guest disk sectors processed.'', ''counter''),
      (''qemu_manage_guest_disk_operations_total'', ''Guest disk operations.'', ''counter''),
      (''qemu_manage_guest_disk_merged_operations_total'', ''Guest merged disk operations.'', ''counter''),
      (''qemu_manage_guest_disk_io_seconds_total'', ''Guest disk I/O duration in seconds.'', ''counter''),
      (''qemu_manage_guest_disk_weighted_io_seconds_total'', ''Guest weighted disk I/O duration in seconds.'', ''counter''),
      (''qemu_manage_guest_disk_io_in_flight'', ''Guest disk operations currently in flight.'', ''gauge''),
      (''qemu_manage_guest_clock_offset_seconds'', ''Guest clock offset from the host midpoint in seconds.'', ''gauge''),
      (''qemu_manage_guest_filesystems_frozen'', ''Whether guest filesystems are frozen.'', ''gauge'')]"

definition metricHeader :: "string \<times> string \<times> string \<Rightarrow> string" where
  "metricHeader d =
     (case d of (name, help, kind) \<Rightarrow>
        ''# HELP '' @ name @ '' '' @ help @ [newline] @ ''# TYPE '' @ name @ '' '' @ kind @ [newline])"

definition metricLabel :: "monitor_lib \<Rightarrow> string \<Rightarrow> string" where
  "metricLabel M v = Quote (mt_printable M) v"

definition metricSample :: "monitor_lib \<Rightarrow> sample \<Rightarrow> string" where
  "metricSample M p =
     (case p of (name, labels, v) \<Rightarrow>
        if labels = [] then name @ '' '' @ v @ [newline]
        else name @ ''{'' @ join_with '','' (List.map (\<lambda>(k, l). k @ ''='' @ metricLabel M l) (sort_key fst labels))
             @ ''} '' @ v @ [newline])"

definition metricUint :: "u64 \<Rightarrow> string" where "metricUint n = itoa (unat n)"

definition boolMetric :: "bool \<Rightarrow> string" where "boolMetric b = (if b then ''1'' else ''0'')"

definition boolString :: "bool \<Rightarrow> string" where "boolString b = (if b then ''true'' else ''false'')"

definition seconds :: "int \<Rightarrow> rat" where "seconds d = of_int d / 1000000000"

definition nonnegativeSeconds :: "int \<Rightarrow> rat" where
  "nonnegativeSeconds d = (if d < 0 then 0 else seconds d)"

definition collectorOK :: "Snapshot \<Rightarrow> string \<Rightarrow> bool" where
  "collectorOK s key \<longleftrightarrow> cs_status (collector s key) = CollectorOK"

definition uint_sample :: "string \<Rightarrow> (string \<times> string) list \<Rightarrow> u64 option \<Rightarrow> sample list" where
  "uint_sample name labels v = (case v of None \<Rightarrow> [] | Some n \<Rightarrow> [(name, labels, metricUint n)])"

definition float_sample :: "monitor_lib \<Rightarrow> string \<Rightarrow> (string \<times> string) list \<Rightarrow> rat option \<Rightarrow> sample list" where
  "float_sample M name labels v = (case v of None \<Rightarrow> [] | Some r \<Rightarrow> [(name, labels, mt_float M r)])"

definition sample_events :: "Snapshot \<Rightarrow> sample list" where
  "sample_events s =
     (if \<not> collectorOK s ''qmp'' then []
      else case qs_events (sn_qmp s) of None \<Rightarrow> []
      | Some ev \<Rightarrow>
          List.map (\<lambda>(e, n). (''qemu_manage_qmp_events_total'', [(''event'', e)], metricUint n)) (sort_key fst (ec_lifecycle ev))
          @ List.map (\<lambda>((d, opn, ns), n).
              (''qemu_manage_block_io_errors_total'',
               [(''device'', d), (''operation'', opn), (''nospace'', boolString ns)], metricUint n)) (ec_block ev))"

definition renderProcessMetrics :: "monitor_lib \<Rightarrow> Snapshot \<Rightarrow> sample list" where
  "renderProcessMetrics M s =
     (''qemu_manage_qemu_process_stats_up'', [], boolMetric (collectorOK s ''process'')) #
     (if \<not> collectorOK s ''process'' then []
      else let p = pr_stats (sn_process s) in
        [(''qemu_manage_qemu_process_cpu_seconds_total'', [(''mode'', ''user'')], mt_float M (ps_user_cpu p)),
         (''qemu_manage_qemu_process_cpu_seconds_total'', [(''mode'', ''system'')], mt_float M (ps_system_cpu p)),
         (''qemu_manage_qemu_process_resident_memory_bytes'', [], metricUint (ps_resident p)),
         (''qemu_manage_qemu_process_physical_footprint_bytes'', [], metricUint (ps_footprint p)),
         (''qemu_manage_qemu_process_physical_footprint_peak_bytes'', [], metricUint (ps_footprint_peak p)),
         (''qemu_manage_qemu_process_wired_memory_bytes'', [], metricUint (ps_wired p)),
         (''qemu_manage_qemu_process_threads'', [], metricUint (ps_threads p)),
         (''qemu_manage_qemu_process_disk_read_bytes_total'', [], metricUint (ps_disk_read p)),
         (''qemu_manage_qemu_process_disk_written_bytes_total'', [], metricUint (ps_disk_written p)),
         (''qemu_manage_qemu_process_pageins_total'', [], metricUint (ps_pageins p)),
         (''qemu_manage_qemu_process_idle_wakeups_total'', [], metricUint (ps_idle_wakeups p)),
         (''qemu_manage_qemu_process_interrupt_wakeups_total'', [], metricUint (ps_interrupt_wakeups p)),
         (''qemu_manage_qemu_process_instructions_total'', [], metricUint (ps_instructions p)),
         (''qemu_manage_qemu_process_cycles_total'', [], metricUint (ps_cycles p))])"

definition block_samples :: "monitor_lib \<Rightarrow> QEMUBlockDevice \<Rightarrow> sample list" where
  "block_samples M d =
     (let lab = (\<lambda>k v. [(''device'', bd_device d), (k, v)]) in
      uint_sample ''qemu_manage_block_io_bytes_total'' (lab ''direction'' ''read'') (bd_read_bytes d)
      @ uint_sample ''qemu_manage_block_io_bytes_total'' (lab ''direction'' ''write'') (bd_write_bytes d)
      @ uint_sample ''qemu_manage_block_io_bytes_total'' (lab ''direction'' ''unmap'') (bd_unmap_bytes d)
      @ uint_sample ''qemu_manage_block_io_operations_total'' (lab ''operation'' ''read'') (bd_read_operations d)
      @ uint_sample ''qemu_manage_block_io_operations_total'' (lab ''operation'' ''write'') (bd_write_operations d)
      @ uint_sample ''qemu_manage_block_io_operations_total'' (lab ''operation'' ''flush'') (bd_flush_operations d)
      @ uint_sample ''qemu_manage_block_io_operations_total'' (lab ''operation'' ''unmap'') (bd_unmap_operations d)
      @ float_sample M ''qemu_manage_block_io_seconds_total'' (lab ''operation'' ''read'') (bd_read_seconds d)
      @ float_sample M ''qemu_manage_block_io_seconds_total'' (lab ''operation'' ''write'') (bd_write_seconds d)
      @ float_sample M ''qemu_manage_block_io_seconds_total'' (lab ''operation'' ''flush'') (bd_flush_seconds d)
      @ float_sample M ''qemu_manage_block_io_seconds_total'' (lab ''operation'' ''unmap'') (bd_unmap_seconds d)
      @ List.map (\<lambda>(k, n). (''qemu_manage_block_failed_operations_total'', lab ''operation'' k, metricUint n)) (bd_failed d)
      @ List.map (\<lambda>(k, n). (''qemu_manage_block_invalid_operations_total'', lab ''operation'' k, metricUint n)) (bd_invalid d)
      @ float_sample M ''qemu_manage_block_idle_seconds'' [(''device'', bd_device d)] (bd_idle_seconds d)
      @ (case bd_io_status d of None \<Rightarrow> []
         | Some st \<Rightarrow> [(''qemu_manage_block_io_status_info'', [(''device'', bd_device d), (''status'', st)], ''1'')]))"

definition renderBlockMetrics :: "monitor_lib \<Rightarrow> Snapshot \<Rightarrow> sample list" where
  "renderBlockMetrics M s = concat (List.map (block_samples M) (qs_blocks (sn_qmp s)))"

definition counter_sample :: "(string \<times> string) list \<Rightarrow> (string \<times> u64) list \<Rightarrow> string \<Rightarrow> string \<Rightarrow> sample list" where
  "counter_sample labels cs name member = uint_sample name labels (map_of cs member)"

definition network_samples :: "GuestNetworkInterface \<Rightarrow> sample list" where
  "network_samples n =
     (let lab = counter_sample [(''interface'', gn_name n)] (gn_counters n) in
      lab ''qemu_manage_guest_network_receive_bytes_total'' ''rx-bytes''
      @ lab ''qemu_manage_guest_network_transmit_bytes_total'' ''tx-bytes''
      @ lab ''qemu_manage_guest_network_receive_packets_total'' ''rx-packets''
      @ lab ''qemu_manage_guest_network_transmit_packets_total'' ''tx-packets''
      @ lab ''qemu_manage_guest_network_receive_errors_total'' ''rx-errs''
      @ lab ''qemu_manage_guest_network_transmit_errors_total'' ''tx-errs''
      @ lab ''qemu_manage_guest_network_receive_dropped_total'' ''rx-dropped''
      @ lab ''qemu_manage_guest_network_transmit_dropped_total'' ''tx-dropped'')"

definition disk_samples :: "monitor_lib \<Rightarrow> GuestDisk \<Rightarrow> sample list" where
  "disk_samples M d =
     (let labels = (\<lambda>opn. [(''device'', gd_device d), (''operation'', opn)]);
          count = (\<lambda>name opn member. counter_sample (labels opn) (gd_counters d) name member);
          time = (\<lambda>name opn member. float_sample M name (labels opn) (map_of (gd_seconds d) member)) in
      count ''qemu_manage_guest_disk_sectors_total'' ''read'' ''read-sectors''
      @ count ''qemu_manage_guest_disk_sectors_total'' ''write'' ''write-sectors''
      @ count ''qemu_manage_guest_disk_sectors_total'' ''discard'' ''discard-sectors''
      @ count ''qemu_manage_guest_disk_operations_total'' ''read'' ''read-ios''
      @ count ''qemu_manage_guest_disk_operations_total'' ''write'' ''write-ios''
      @ count ''qemu_manage_guest_disk_operations_total'' ''discard'' ''discard-ios''
      @ count ''qemu_manage_guest_disk_operations_total'' ''flush'' ''flush-ios''
      @ count ''qemu_manage_guest_disk_merged_operations_total'' ''read'' ''read-merges''
      @ count ''qemu_manage_guest_disk_merged_operations_total'' ''write'' ''write-merges''
      @ count ''qemu_manage_guest_disk_merged_operations_total'' ''discard'' ''discard-merges''
      @ time ''qemu_manage_guest_disk_io_seconds_total'' ''read'' ''read-ticks''
      @ time ''qemu_manage_guest_disk_io_seconds_total'' ''write'' ''write-ticks''
      @ time ''qemu_manage_guest_disk_io_seconds_total'' ''discard'' ''discard-ticks''
      @ time ''qemu_manage_guest_disk_io_seconds_total'' ''flush'' ''flush-ticks''
      @ float_sample M ''qemu_manage_guest_disk_weighted_io_seconds_total'' [(''device'', gd_device d)]
          (map_of (gd_seconds d) ''weighted-times'')
      @ counter_sample [(''device'', gd_device d)] (gd_counters d) ''qemu_manage_guest_disk_io_in_flight'' ''ios-progress'')"

definition only_if :: "bool \<Rightarrow> 'a list \<Rightarrow> 'a list" where "only_if b xs = (if b then xs else [])"

definition vcpu_samples :: "GuestVCPU list \<Rightarrow> sample list" where
  "vcpu_samples vs =
     (let online = length (List.filter gv_online vs) in
      [(''qemu_manage_guest_vcpus'', [(''state'', ''online'')], itoa online),
       (''qemu_manage_guest_vcpus'', [(''state'', ''offline'')], itoa (length vs - online))])"

definition filesystem_samples :: "GuestFilesystem \<Rightarrow> sample list" where
  "filesystem_samples f =
     (let labels = [(''mountpoint'', gf_mountpoint f), (''fstype'', gf_type f)] in
      uint_sample ''qemu_manage_guest_filesystem_size_bytes'' labels (gf_size f)
      @ uint_sample ''qemu_manage_guest_filesystem_used_bytes'' labels (gf_used f))"

definition cpu_samples :: "monitor_lib \<Rightarrow> GuestCPU \<Rightarrow> sample list" where
  "cpu_samples M c =
     List.map (\<lambda>(mode, r). (''qemu_manage_guest_cpu_seconds_total'',
       [(''cpu'', metricUint (word_of_int (gc_cpu c))), (''mode'', mode)], mt_float M r)) (gc_seconds c)"

definition load_samples :: "monitor_lib \<Rightarrow> GuestLoad option \<Rightarrow> sample list" where
  "load_samples M l =
     (case l of None \<Rightarrow> []
      | Some l \<Rightarrow> float_sample M ''qemu_manage_guest_load1'' [] (gl_load1 l)
                @ float_sample M ''qemu_manage_guest_load5'' [] (gl_load5 l)
                @ float_sample M ''qemu_manage_guest_load15'' [] (gl_load15 l))"

definition renderGuestMetrics :: "monitor_lib \<Rightarrow> Snapshot \<Rightarrow> sample list" where
  "renderGuestMetrics M s =
     (let g = gs_observation (sn_guest s) in
      [(''qemu_manage_guest_agent_configured'', [], boolMetric (vm_guest_agent (sn_vm s))),
       (''qemu_manage_guest_agent_up'', [], boolMetric (collectorOK s ''guest_info''))]
      @ only_if (gs_probe_at (sn_guest s) \<noteq> None)
          [(''qemu_manage_guest_agent_probe_duration_seconds'', [], mt_float M (seconds (gs_probe_duration (sn_guest s))))]
      @ only_if (collectorOK s ''guest_cpu'') (concat (List.map (cpu_samples M) (go_cpu g)))
      @ only_if (collectorOK s ''guest_load'') (load_samples M (go_load g))
      @ only_if (collectorOK s ''guest_vcpus'') (vcpu_samples (go_vcpus g))
      @ only_if (collectorOK s ''guest_filesystems'') (concat (List.map filesystem_samples (go_filesystems g)))
      @ only_if (collectorOK s ''guest_network'') (concat (List.map network_samples (go_networks g)))
      @ only_if (collectorOK s ''guest_disk'') (concat (List.map (disk_samples M) (go_disks g)))
      @ only_if (collectorOK s ''guest_clock'') (float_sample M ''qemu_manage_guest_clock_offset_seconds'' [] (go_clock g))
      @ only_if (collectorOK s ''guest_filesystem_freeze'')
          (case go_frozen g of None \<Rightarrow> []
           | Some b \<Rightarrow> [(''qemu_manage_guest_filesystems_frozen'', [], boolMetric b)]))"

text \<open>What is written before the sort, in the order it is written.\<close>

definition uptime :: "Snapshot \<Rightarrow> int \<Rightarrow> rat" where
  "uptime s now = nonnegativeSeconds (now - vm_started (sn_vm s))"

text \<open>The zero \<open>time.Time\<close>, in nanoseconds since 1970.\<close>

definition zero_time :: int where "zero_time = - 62135596800 * 1000000000"

definition observed_at :: "Snapshot \<Rightarrow> int" where
  "observed_at s = (case sn_observed s of None \<Rightarrow> zero_time | Some t \<Rightarrow> t)"

definition all_samples :: "monitor_lib \<Rightarrow> Snapshot \<Rightarrow> sample list" where
  "all_samples M s =
     [(''qemu_manage_qmp_up'', [], boolMetric (collectorOK s ''qmp'')),
      (''qemu_manage_vm_state_info'',
       [(''state'', if qs_state (sn_qmp s) = [] then ''unknown'' else qs_state (sn_qmp s))], ''1''),
      (''qemu_manage_vm_uptime_seconds'', [], mt_float M (uptime s (observed_at s)))]
     @ sample_events s
     @ renderProcessMetrics M s
     @ only_if (collectorOK s ''block'') (renderBlockMetrics M s)
     @ renderGuestMetrics M s"

definition trim_newline :: "string \<Rightarrow> string" where
  "trim_newline s = (if s \<noteq> [] \<and> last s = newline then butlast s else s)"

definition renderMetrics :: "monitor_lib \<Rightarrow> Snapshot \<Rightarrow> string" where
  "renderMetrics M s =
     (let written = concat (List.map (metricSample M) (all_samples M s))
      in concat (List.map metricHeader metricDefinitions)
         @ join_with [newline] (sort (split_on newline (trim_newline written))) @ [newline])"

section \<open>Payloads (\<open>handler.go\<close>)\<close>

text \<open>\<open>encoding/json\<close> writes the members of a map in the order of their names.\<close>

definition jmap :: "(string \<times> json) list \<Rightarrow> json" where "jmap kvs = JObject (sort_key fst kvs)"

definition jint :: "int \<Rightarrow> json" where "jint i = JNumber (itoa_int i)"

definition juint :: "u64 \<Rightarrow> json" where "juint n = JNumber (itoa (unat n))"

definition jfloat :: "monitor_lib \<Rightarrow> rat \<Rightarrow> json" where "jfloat M r = JNumber (mt_json_float M r)"

definition formatTime :: "monitor_lib \<Rightarrow> int \<Rightarrow> json" where "formatTime M t = JString (mt_time M t)"

definition nullableTime :: "monitor_lib \<Rightarrow> int option \<Rightarrow> json" where
  "nullableTime M t = (case t of None \<Rightarrow> JNull | Some t \<Rightarrow> formatTime M t)"

definition optional_member :: "string \<Rightarrow> ('a \<Rightarrow> json) \<Rightarrow> 'a option \<Rightarrow> (string \<times> json) list" where
  "optional_member name f v = (case v of None \<Rightarrow> [] | Some x \<Rightarrow> [(name, f x)])"

definition code_member :: "string \<Rightarrow> (string \<times> json) list" where
  "code_member code = only_if (code \<noteq> []) [(''code'', JString code)]"

definition CollectorStatus_text :: "CollectorStatus \<Rightarrow> string" where
  "CollectorStatus_text c =
     (case c of CollectorAbsent \<Rightarrow> [] | CollectorOK \<Rightarrow> ''ok'' | CollectorPending \<Rightarrow> ''pending''
      | CollectorUnsupported \<Rightarrow> ''unsupported'' | CollectorFailed \<Rightarrow> ''failed'' | CollectorStale \<Rightarrow> ''stale'')"

definition healthCheck :: "monitor_lib \<Rightarrow> CollectorState \<Rightarrow> json" where
  "healthCheck M c =
     jmap ([(''status'', JString (CollectorStatus_text (cs_status c))), (''observed_at'', nullableTime M (cs_observed c))]
           @ code_member (cs_code c))"

definition renderHealth :: "monitor_lib \<Rightarrow> bool \<Rightarrow> Snapshot \<Rightarrow> nat \<times> json" where
  "renderHealth M supported s =
     (case snapshot_health supported s of (health, code, http) \<Rightarrow>
        (http, jmap ([(''api_version'', jint 1), (''ok'', JBool (http \<noteq> 503)), (''status'', JString health),
                      (''state'', JString (qs_state (sn_qmp s))), (''observed_at'', formatTime M (observed_at s)),
                      (''checks'', jmap [(''qmp'', healthCheck M (collector s ''qmp'')),
                                        (''process'', healthCheck M (collector s ''process''))])]
                     @ code_member code)))"

definition version_json :: "QEMUVersion option \<Rightarrow> json" where
  "version_json v =
     (let q = (case v of None \<Rightarrow> \<lparr>qv_major = 0, qv_minor = 0, qv_micro = 0, qv_package = []\<rparr> | Some q \<Rightarrow> q)
      in jmap [(''major'', jint (qv_major q)), (''minor'', jint (qv_minor q)), (''micro'', jint (qv_micro q)),
               (''package'', JString (qv_package q))])"

text \<open>Structs are written in the order of their fields; an empty copied list is nil, hence \<open>null\<close>.\<close>

definition slice_json :: "('a \<Rightarrow> json) \<Rightarrow> 'a list \<Rightarrow> json" where
  "slice_json f xs = (if xs = [] then JNull else JArray (List.map f xs))"

definition map_json :: "('a \<Rightarrow> json) \<Rightarrow> (string \<times> 'a) list \<Rightarrow> json" where
  "map_json f m = jmap (List.map (\<lambda>(k, v). (k, f v)) m)"

definition events_json :: "QEMUEventCounters option \<Rightarrow> json" where
  "events_json ev =
     (case ev of
        None \<Rightarrow> JObject [(''lifecycle'', JNull), (''block_io_errors'', JNull)]
      | Some ev \<Rightarrow>
          JObject
            [(''lifecycle'', map_json juint (ec_lifecycle ev)),
             (''block_io_errors'',
              slice_json (\<lambda>((d, opn, ns), n). JObject
                [(''device'', JString d), (''operation'', JString opn), (''nospace'', JBool ns), (''count'', juint n)])
                (ec_block ev))])"

definition block_json :: "monitor_lib \<Rightarrow> QEMUBlockDevice \<Rightarrow> json" where
  "block_json M d =
     JObject
       ([(''device'', JString (bd_device d))]
        @ optional_member ''read_bytes'' juint (bd_read_bytes d)
        @ optional_member ''write_bytes'' juint (bd_write_bytes d)
        @ optional_member ''unmap_bytes'' juint (bd_unmap_bytes d)
        @ optional_member ''read_operations'' juint (bd_read_operations d)
        @ optional_member ''write_operations'' juint (bd_write_operations d)
        @ optional_member ''flush_operations'' juint (bd_flush_operations d)
        @ optional_member ''unmap_operations'' juint (bd_unmap_operations d)
        @ optional_member ''read_seconds'' (jfloat M) (bd_read_seconds d)
        @ optional_member ''write_seconds'' (jfloat M) (bd_write_seconds d)
        @ optional_member ''flush_seconds'' (jfloat M) (bd_flush_seconds d)
        @ optional_member ''unmap_seconds'' (jfloat M) (bd_unmap_seconds d)
        @ only_if (bd_failed d \<noteq> []) [(''failed_operations'', map_json juint (bd_failed d))]
        @ only_if (bd_invalid d \<noteq> []) [(''invalid_operations'', map_json juint (bd_invalid d))]
        @ optional_member ''idle_seconds'' (jfloat M) (bd_idle_seconds d)
        @ optional_member ''io_status'' JString (bd_io_status d))"

definition renderQMPStatus :: "monitor_lib \<Rightarrow> Snapshot \<Rightarrow> json" where
  "renderQMPStatus M s =
     (let c = collector s ''qmp'' in
      jmap [(''up'', JBool (cs_status c = CollectorOK)), (''state'', JString (qs_state (sn_qmp s))),
            (''duration_seconds'', jfloat M (seconds (cs_duration c))), (''observed_at'', nullableTime M (cs_observed c)),
            (''version'', version_json (qs_version (sn_qmp s))), (''events'', events_json (qs_events (sn_qmp s)))])"

definition renderProcessStatus :: "monitor_lib \<Rightarrow> Snapshot \<Rightarrow> json" where
  "renderProcessStatus M s =
     (let c = collector s ''process''; p = pr_stats (sn_process s) in
      jmap ([(''stats_up'', JBool (cs_status c = CollectorOK)), (''pid'', jint (pr_pid (sn_process s))),
             (''observed_at'', nullableTime M (cs_observed c))]
            @ only_if (cs_success c \<noteq> None)
                [(''cpu_seconds'', jmap [(''user'', jfloat M (ps_user_cpu p)), (''system'', jfloat M (ps_system_cpu p))]),
                 (''resident_memory_bytes'', juint (ps_resident p)), (''wired_memory_bytes'', juint (ps_wired p)),
                 (''physical_footprint_bytes'', juint (ps_footprint p)),
                 (''physical_footprint_peak_bytes'', juint (ps_footprint_peak p)),
                 (''disk_read_bytes'', juint (ps_disk_read p)), (''disk_written_bytes'', juint (ps_disk_written p)),
                 (''pageins'', juint (ps_pageins p)), (''idle_wakeups'', juint (ps_idle_wakeups p)),
                 (''interrupt_wakeups'', juint (ps_interrupt_wakeups p)), (''instructions'', juint (ps_instructions p)),
                 (''cycles'', juint (ps_cycles p)), (''threads'', juint (ps_threads p))]))"

definition renderGuestAgentStatus :: "monitor_lib \<Rightarrow> Snapshot \<Rightarrow> json" where
  "renderGuestAgentStatus M s =
     (let c = collector s ''guest_info''; g = sn_guest s; v = gi_version (go_info (gs_observation g)) in
      jmap ([(''configured'', JBool (vm_guest_agent (sn_vm s))), (''up'', JBool (cs_status c = CollectorOK)),
             (''observed_at'', nullableTime M (cs_observed c))]
            @ only_if (v \<noteq> []) [(''version'', JString v)]
            @ (case gs_probe_at g of None \<Rightarrow> []
               | Some t \<Rightarrow> [(''probe_duration_seconds'', jfloat M (seconds (gs_probe_duration g))),
                           (''probe_observed_at'', formatTime M t)])))"

definition cpu_json :: "monitor_lib \<Rightarrow> GuestCPU \<Rightarrow> json" where
  "cpu_json M c = JObject [(''cpu'', jint (gc_cpu c)), (''seconds'', map_json (jfloat M) (gc_seconds c))]"

definition load_json :: "monitor_lib \<Rightarrow> GuestLoad \<Rightarrow> json" where
  "load_json M l =
     JObject (optional_member ''load1'' (jfloat M) (gl_load1 l) @ optional_member ''load5'' (jfloat M) (gl_load5 l)
              @ optional_member ''load15'' (jfloat M) (gl_load15 l))"

definition vcpu_json :: "GuestVCPU \<Rightarrow> json" where
  "vcpu_json v = JObject [(''logical_id'', jint (gv_logical_id v)), (''online'', JBool (gv_online v))]"

definition filesystem_json :: "GuestFilesystem \<Rightarrow> json" where
  "filesystem_json f =
     JObject ([(''mountpoint'', JString (gf_mountpoint f)), (''fstype'', JString (gf_type f))]
              @ optional_member ''size_bytes'' juint (gf_size f) @ optional_member ''used_bytes'' juint (gf_used f))"

definition address_json :: "GuestIPAddress \<Rightarrow> json" where
  "address_json a =
     JObject [(''address'', JString (ip_address a)), (''family'', JString (ip_family a)), (''prefix'', jint (ip_prefix a))]"

definition statistic_names :: "(string \<times> string) list" where
  "statistic_names =
     [(''receive_bytes'', ''rx-bytes''), (''transmit_bytes'', ''tx-bytes''), (''receive_packets'', ''rx-packets''),
      (''transmit_packets'', ''tx-packets''), (''receive_errors'', ''rx-errs''), (''transmit_errors'', ''tx-errs''),
      (''receive_dropped'', ''rx-dropped''), (''transmit_dropped'', ''tx-dropped'')]"

definition renderGuestNetwork :: "GuestNetworkInterface \<Rightarrow> json" where
  "renderGuestNetwork n =
     (let statistics = concat (List.map (\<lambda>(name, m). optional_member name juint (map_of (gn_counters n) m)) statistic_names) in
      jmap ([(''name'', JString (gn_name n))]
            @ only_if (gn_addresses_present n) [(''addresses'', slice_json address_json (gn_addresses n))]
            @ only_if (statistics \<noteq> []) [(''statistics'', jmap statistics)]))"

definition disk_members :: "(string \<times> string \<times> bool) list" where
  "disk_members =
     [(''read_sectors'', ''read-sectors'', False), (''write_sectors'', ''write-sectors'', False),
      (''discard_sectors'', ''discard-sectors'', False), (''read_operations'', ''read-ios'', False),
      (''write_operations'', ''write-ios'', False), (''discard_operations'', ''discard-ios'', False),
      (''flush_operations'', ''flush-ios'', False), (''read_merged_operations'', ''read-merges'', False),
      (''write_merged_operations'', ''write-merges'', False), (''discard_merged_operations'', ''discard-merges'', False),
      (''read_seconds'', ''read-ticks'', True), (''write_seconds'', ''write-ticks'', True),
      (''discard_seconds'', ''discard-ticks'', True), (''flush_seconds'', ''flush-ticks'', True),
      (''weighted_io_seconds'', ''weighted-times'', True), (''io_in_flight'', ''ios-progress'', False)]"

definition disk_json :: "monitor_lib \<Rightarrow> GuestDisk \<Rightarrow> json" where
  "disk_json M d =
     JObject ((''device'', JString (gd_device d)) #
       concat (List.map (\<lambda>(name, m, time).
         if time then optional_member name (jfloat M) (map_of (gd_seconds d) m)
         else optional_member name juint (map_of (gd_counters d) m)) disk_members))"

definition renderGuestStatus :: "monitor_lib \<Rightarrow> Snapshot \<Rightarrow> json option" where
  "renderGuestStatus M s =
     (let g = gs_observation (sn_guest s) in
      if go_load g = None \<and> go_clock g = None \<and> go_frozen g = None \<and> go_cpu g = [] \<and> go_vcpus g = []
         \<and> go_filesystems g = [] \<and> go_networks g = [] \<and> go_disks g = [] then None
      else Some (jmap
        (only_if (go_cpu g \<noteq> []) [(''cpus'', JArray (List.map (cpu_json M) (go_cpu g)))]
         @ optional_member ''load'' (load_json M) (go_load g)
         @ only_if (go_vcpus g \<noteq> []) [(''vcpus'', JArray (List.map vcpu_json (go_vcpus g)))]
         @ optional_member ''clock_offset_seconds'' (jfloat M) (go_clock g)
         @ optional_member ''filesystems_frozen'' JBool (go_frozen g)
         @ only_if (go_filesystems g \<noteq> []) [(''filesystems'', JArray (List.map filesystem_json (go_filesystems g)))]
         @ only_if (go_networks g \<noteq> []) [(''network_interfaces'', JArray (List.map renderGuestNetwork (go_networks g)))]
         @ only_if (go_disks g \<noteq> []) [(''disks'', JArray (List.map (disk_json M) (go_disks g)))])))"

definition renderCollectors :: "monitor_lib \<Rightarrow> (string \<times> CollectorState) list \<Rightarrow> int \<Rightarrow> json" where
  "renderCollectors M cs now =
     map_json (\<lambda>c. jmap
       ([(''status'', JString (CollectorStatus_text (cs_status c))),
         (''age_seconds'',
          case cs_success c of None \<Rightarrow> JNull | Some t \<Rightarrow> jfloat M (nonnegativeSeconds (now - t)))]
        @ code_member (cs_code c))) cs"

definition renderStatus :: "monitor_lib \<Rightarrow> bool \<Rightarrow> Snapshot \<Rightarrow> int \<Rightarrow> json" where
  "renderStatus M supported s now =
     (case snapshot_health supported s of (health, code, _) \<Rightarrow>
        let vm = sn_vm s in
        jmap ([(''api_version'', jint 1), (''observed_at'', formatTime M (observed_at s)),
               (''health'', jmap ((''status'', JString health) # code_member code)),
               (''vm'', jmap
                  [(''id'', JString (vm_id vm)), (''name'', JString (vm_name vm)), (''backend'', JString (vm_backend vm)),
                   (''architecture'', JString (vm_architecture vm)), (''state'', JString (qs_state (sn_qmp s))),
                   (''started_at'', formatTime M (vm_started vm)), (''uptime_seconds'', jfloat M (uptime s now))]),
               (''qmp'', renderQMPStatus M s), (''process'', renderProcessStatus M s),
               (''block_devices'', slice_json (block_json M) (qs_blocks (sn_qmp s))),
               (''guest_agent'', renderGuestAgentStatus M s),
               (''collectors'', renderCollectors M (sn_collectors s) now)]
              @ optional_member ''guest'' id (renderGuestStatus M s)))"

definition capability_names :: "(string \<times> string) list" where
  "capability_names =
     [(''ping'', ''guest-ping''), (''cpu'', ''guest-get-cpustats''), (''load'', ''guest-get-load''),
      (''vcpus'', ''guest-get-vcpus''), (''clock'', ''guest-get-time''), (''filesystem_freeze'', ''guest-fsfreeze-status''),
      (''filesystems'', ''guest-get-fsinfo''), (''network'', ''guest-network-get-interfaces''),
      (''disk'', ''guest-get-diskstats'')]"

definition monitor_routes :: "string list" where
  "monitor_routes = sort [''/health'', ''/info'', ''/metrics'', ''/ping'', ''/status'']"

definition renderInfo :: "Snapshot \<Rightarrow> json" where
  "renderInfo s =
     (let vm = sn_vm s; info = go_info (gs_observation (sn_guest s)) in
      jmap [(''api_version'', jint 1),
            (''service'', jmap
               [(''name'', JString ''qemu-manage''), (''version'', JString (vm_build vm)),
                (''metrics_format'', JString ''prometheus''), (''metrics_format_version'', JString ''0.0.4'')]),
            (''vm'', jmap
               [(''id'', JString (vm_id vm)), (''name'', JString (vm_name vm)), (''backend'', JString (vm_backend vm)),
                (''architecture'', JString (vm_architecture vm)), (''cpus'', jint (vm_cpus vm)),
                (''memory_mib'', jint (vm_memory vm))]),
            (''qemu'', jmap [(''version'', version_json (qs_version (sn_qmp s))), (''accelerator'', JString ''hvf'')]),
            (''guest_agent'', jmap
               [(''configured'', JBool (vm_guest_agent vm)), (''version'', JString (gi_version info)),
                (''capabilities'', jmap (concat (List.map (\<lambda>(name, key).
                   optional_member name JBool (map_of (gi_capabilities info) key)) capability_names)))]),
            (''routes'', JArray (List.map JString monitor_routes))])"

section \<open>Routes\<close>

definition failure :: "string \<Rightarrow> string \<Rightarrow> (string \<times> json) list" where
  "failure code message =
     [(''api_version'', jint 1), (''ok'', JBool False), (''code'', JString code), (''message'', JString message)]"

definition pingFailure :: "monitor_lib \<Rightarrow> nat \<Rightarrow> string \<Rightarrow> string \<Rightarrow> int \<Rightarrow> nat \<times> json" where
  "pingFailure M http code message t = (http, jmap (failure code message @ [(''observed_at'', formatTime M t)]))"

text \<open>How a wait for the shared probe ended: the request was given up at an instant, or the probe
  finished, with its result, how long it took and when.\<close>

datatype ping_wait = PingGivenUp int | PingFinished ObservationResult int int

definition ping_message :: "string \<Rightarrow> string" where
  "ping_message code =
     (if code = ''guest_agent_protocol_error'' then ''guest agent returned an invalid response''
      else if code = ''guest_agent_timeout'' then ''guest agent ping timed out''
      else ''guest agent is unavailable'')"

text \<open>The answer, and whether a probe was joined.\<close>

definition renderPing :: "monitor_lib \<Rightarrow> Snapshot \<Rightarrow> int \<Rightarrow> ping_wait \<Rightarrow> (nat \<times> json) \<times> bool" where
  "renderPing M s now w =
     (if \<not> vm_guest_agent (sn_vm s) then
        (pingFailure M 409 ''guest_agent_not_configured'' ''guest agent is not configured'' now, False)
      else if map_of (gi_capabilities (go_info (gs_observation (sn_guest s)))) ''guest-ping'' = Some False then
        (pingFailure M 409 ''guest_agent_command_disabled'' ''guest agent ping command is disabled'' now, False)
      else (case w of
        PingGivenUp t \<Rightarrow> pingFailure M 503 ''guest_agent_timeout'' ''guest agent ping timed out'' t
      | PingFinished r duration t \<Rightarrow>
          if result_OK r then
            (200, jmap [(''api_version'', jint 1), (''ok'', JBool True), (''guest_agent'', JString ''available''),
                        (''round_trip_seconds'', jfloat M (seconds duration)), (''observed_at'', formatTime M t)])
          else pingFailure M 503 (or_code r) (ping_message (or_code r)) t, True))"

text \<open>Joining a probe: the one in flight, or a new one. Its end takes it away.\<close>

record ping_gate =
  pg_current :: "nat option"
  pg_started :: nat

definition joinPing :: "ping_gate \<Rightarrow> nat \<times> ping_gate" where
  "joinPing g =
     (case pg_current g of
        Some call \<Rightarrow> (call, g)
      | None \<Rightarrow> (pg_started g, \<lparr>pg_current = Some (pg_started g), pg_started = pg_started g + 1\<rparr>))"

definition ping_ended :: "ping_gate \<Rightarrow> ping_gate" where
  "ping_ended g = g\<lparr>pg_current := None\<rparr>"

record http_response =
  hr_status :: nat
  hr_headers :: "(string \<times> string) list"
  hr_body :: string

definition write_response ::
  "string \<Rightarrow> (string \<times> string) list \<Rightarrow> nat \<Rightarrow> string \<Rightarrow> string \<Rightarrow> http_response" where
  "write_response verb headers http contentType body =
     \<lparr>hr_status = http,
      hr_headers = headers @ [(''Content-Type'', contentType), (''Content-Length'', itoa (length body))],
      hr_body = (if verb = ''HEAD'' then [] else body)\<rparr>"

definition jsonContentType :: string where "jsonContentType = ''application/json; charset=utf-8''"

definition prometheusContentType :: string where
  "prometheusContentType = ''text/plain; version=0.0.4; charset=utf-8''"

definition render_failed_body :: string where
  "render_failed_body =
     (let q = [CHR 0x22] in
      ''{'' @ q @ ''api_version'' @ q @ '':1,'' @ q @ ''ok'' @ q @ '':false,'' @ q @ ''code'' @ q @ '':'' @ q @ ''render_failed'' @ q
      @ '','' @ q @ ''message'' @ q @ '':'' @ q @ ''response rendering failed'' @ q @ ''}'' @ [newline])"

definition writeJSON ::
  "monitor_lib \<Rightarrow> string \<Rightarrow> (string \<times> string) list \<Rightarrow> nat \<times> json \<Rightarrow> http_response" where
  "writeJSON M verb headers p =
     (case mt_marshal M (snd p) of
        None \<Rightarrow> write_response verb headers 500 jsonContentType render_failed_body
      | Some body \<Rightarrow> write_response verb headers (fst p) jsonContentType (body @ [newline]))"

text \<open>A request: its method and path, when the cache is read, when the clock is read again, and how a
  wait for a probe would end.\<close>

definition serveHTTP ::
  "monitor_lib \<Rightarrow> bool \<Rightarrow> Service \<Rightarrow> string \<Rightarrow> string \<Rightarrow> int \<Rightarrow> int \<Rightarrow> ping_wait \<Rightarrow> http_response" where
  "serveHTTP M supported sv verb path read now w =
     (let headers = [(''Cache-Control'', ''no-store'')] in
      if verb \<noteq> ''GET'' \<and> verb \<noteq> ''HEAD'' then
        writeJSON M verb (headers @ [(''Allow'', ''GET, HEAD'')])
          (405, jmap (failure ''method_not_allowed'' ''method must be GET or HEAD''))
      else case Snapshot_at sv read of
        None \<Rightarrow> writeJSON M verb headers
          (503, jmap (failure ''snapshot_unavailable'' ''monitoring snapshot is unavailable''))
      | Some s \<Rightarrow>
          if path = ''/metrics'' then write_response verb headers 200 prometheusContentType (renderMetrics M s)
          else if path = ''/health'' then writeJSON M verb headers (renderHealth M supported s)
          else if path = ''/status'' then writeJSON M verb headers (200, renderStatus M supported s now)
          else if path = ''/ping'' then writeJSON M verb headers (fst (renderPing M s now w))
          else if path = ''/info'' then writeJSON M verb headers (200, renderInfo s)
          else writeJSON M verb headers (404, jmap (failure ''not_found'' ''route not found'')))"

section \<open>What a scrape may say\<close>

text \<open>The collector a declared family depends on; \<open>[]\<close> for the families that are always written.\<close>

definition always_families :: "string list" where
  "always_families =
     [''qemu_manage_qmp_up'', ''qemu_manage_vm_state_info'', ''qemu_manage_vm_uptime_seconds'',
      ''qemu_manage_qemu_process_stats_up'', ''qemu_manage_guest_agent_configured'', ''qemu_manage_guest_agent_up'',
      ''qemu_manage_guest_agent_probe_duration_seconds'']"

definition family_prefixes :: "(string \<times> string) list" where
  "family_prefixes =
     [(''qemu_manage_qmp_'', ''qmp''), (''qemu_manage_block_io_errors_'', ''qmp''),
      (''qemu_manage_qemu_process_'', ''process''), (''qemu_manage_block_'', ''block''),
      (''qemu_manage_guest_cpu_'', ''guest_cpu''), (''qemu_manage_guest_load'', ''guest_load''),
      (''qemu_manage_guest_vcpus'', ''guest_vcpus''), (''qemu_manage_guest_filesystems_frozen'', ''guest_filesystem_freeze''),
      (''qemu_manage_guest_filesystem_'', ''guest_filesystems''), (''qemu_manage_guest_network_'', ''guest_network''),
      (''qemu_manage_guest_disk_'', ''guest_disk''), (''qemu_manage_guest_clock_'', ''guest_clock'')]"

definition metric_family :: "string \<Rightarrow> string option" where
  "metric_family name =
     (if map_of metricDefinitions name = None then None
      else if name \<in> set always_families then Some []
      else map_option snd (List.find (\<lambda>(p, _). has_prefix name p) family_prefixes))"

definition one_line :: "string \<Rightarrow> bool" where "one_line s \<longleftrightarrow> newline \<notin> set s"

definition sample_sound :: "Snapshot \<Rightarrow> sample \<Rightarrow> bool" where
  "sample_sound s p \<longleftrightarrow>
     (\<exists>key. metric_family (fst p) = Some key \<and> (key = [] \<or> collectorOK s key))
     \<and> one_line (fst p) \<and> list_all (\<lambda>(k, _). one_line k) (fst (snd p)) \<and> one_line (snd (snd p))"

lemma metric_families [simp]:
  "metric_family ''qemu_manage_qmp_up'' = Some []"
  "metric_family ''qemu_manage_vm_state_info'' = Some []"
  "metric_family ''qemu_manage_vm_uptime_seconds'' = Some []"
  "metric_family ''qemu_manage_qmp_events_total'' = Some ''qmp''"
  "metric_family ''qemu_manage_qemu_process_stats_up'' = Some []"
  "metric_family ''qemu_manage_qemu_process_cpu_seconds_total'' = Some ''process''"
  "metric_family ''qemu_manage_qemu_process_resident_memory_bytes'' = Some ''process''"
  "metric_family ''qemu_manage_qemu_process_physical_footprint_bytes'' = Some ''process''"
  "metric_family ''qemu_manage_qemu_process_physical_footprint_peak_bytes'' = Some ''process''"
  "metric_family ''qemu_manage_qemu_process_wired_memory_bytes'' = Some ''process''"
  "metric_family ''qemu_manage_qemu_process_threads'' = Some ''process''"
  "metric_family ''qemu_manage_qemu_process_disk_read_bytes_total'' = Some ''process''"
  "metric_family ''qemu_manage_qemu_process_disk_written_bytes_total'' = Some ''process''"
  "metric_family ''qemu_manage_qemu_process_pageins_total'' = Some ''process''"
  "metric_family ''qemu_manage_qemu_process_idle_wakeups_total'' = Some ''process''"
  "metric_family ''qemu_manage_qemu_process_interrupt_wakeups_total'' = Some ''process''"
  "metric_family ''qemu_manage_qemu_process_instructions_total'' = Some ''process''"
  "metric_family ''qemu_manage_qemu_process_cycles_total'' = Some ''process''"
  "metric_family ''qemu_manage_block_io_bytes_total'' = Some ''block''"
  "metric_family ''qemu_manage_block_io_operations_total'' = Some ''block''"
  "metric_family ''qemu_manage_block_io_seconds_total'' = Some ''block''"
  "metric_family ''qemu_manage_block_failed_operations_total'' = Some ''block''"
  "metric_family ''qemu_manage_block_invalid_operations_total'' = Some ''block''"
  "metric_family ''qemu_manage_block_idle_seconds'' = Some ''block''"
  "metric_family ''qemu_manage_block_io_status_info'' = Some ''block''"
  "metric_family ''qemu_manage_block_io_errors_total'' = Some ''qmp''"
  "metric_family ''qemu_manage_guest_agent_configured'' = Some []"
  "metric_family ''qemu_manage_guest_agent_up'' = Some []"
  "metric_family ''qemu_manage_guest_agent_probe_duration_seconds'' = Some []"
  "metric_family ''qemu_manage_guest_cpu_seconds_total'' = Some ''guest_cpu''"
  "metric_family ''qemu_manage_guest_load1'' = Some ''guest_load''"
  "metric_family ''qemu_manage_guest_load5'' = Some ''guest_load''"
  "metric_family ''qemu_manage_guest_load15'' = Some ''guest_load''"
  "metric_family ''qemu_manage_guest_vcpus'' = Some ''guest_vcpus''"
  "metric_family ''qemu_manage_guest_filesystem_size_bytes'' = Some ''guest_filesystems''"
  "metric_family ''qemu_manage_guest_filesystem_used_bytes'' = Some ''guest_filesystems''"
  "metric_family ''qemu_manage_guest_network_receive_bytes_total'' = Some ''guest_network''"
  "metric_family ''qemu_manage_guest_network_transmit_bytes_total'' = Some ''guest_network''"
  "metric_family ''qemu_manage_guest_network_receive_packets_total'' = Some ''guest_network''"
  "metric_family ''qemu_manage_guest_network_transmit_packets_total'' = Some ''guest_network''"
  "metric_family ''qemu_manage_guest_network_receive_errors_total'' = Some ''guest_network''"
  "metric_family ''qemu_manage_guest_network_transmit_errors_total'' = Some ''guest_network''"
  "metric_family ''qemu_manage_guest_network_receive_dropped_total'' = Some ''guest_network''"
  "metric_family ''qemu_manage_guest_network_transmit_dropped_total'' = Some ''guest_network''"
  "metric_family ''qemu_manage_guest_disk_sectors_total'' = Some ''guest_disk''"
  "metric_family ''qemu_manage_guest_disk_operations_total'' = Some ''guest_disk''"
  "metric_family ''qemu_manage_guest_disk_merged_operations_total'' = Some ''guest_disk''"
  "metric_family ''qemu_manage_guest_disk_io_seconds_total'' = Some ''guest_disk''"
  "metric_family ''qemu_manage_guest_disk_weighted_io_seconds_total'' = Some ''guest_disk''"
  "metric_family ''qemu_manage_guest_disk_io_in_flight'' = Some ''guest_disk''"
  "metric_family ''qemu_manage_guest_clock_offset_seconds'' = Some ''guest_clock''"
  "metric_family ''qemu_manage_guest_filesystems_frozen'' = Some ''guest_filesystem_freeze''"
  by code_simp+

lemma one_line_texts [simp]:
  "one_line (metricUint n)" "one_line (itoa k)" "one_line (boolMetric b)"
proof -
  have digits: "newline \<notin> set (itoa k)" for k
    using itoa_digits [of k] by (auto simp: list_all_iff is_digit_def byte_in_def)
  then show "one_line (metricUint n)" "one_line (itoa k)" by (simp_all add: one_line_def metricUint_def)
  show "one_line (boolMetric b)" by (simp add: one_line_def boolMetric_def)
qed

lemma one_line_literal: "list_all (\<lambda>c. c \<noteq> newline) s \<Longrightarrow> one_line s"
  by (auto simp: one_line_def list_all_iff)

lemma declared_one_line: "list_all one_line (List.map fst metricDefinitions)"
  unfolding one_line_def by code_simp

lemma metric_family_one_line: "metric_family name = Some key \<Longrightarrow> one_line name"
  using declared_one_line map_of_SomeD [of metricDefinitions name]
  unfolding metric_family_def list_all_iff by (fastforce split: if_splits)

lemma sample_soundI:
  "metric_family name = Some key \<Longrightarrow> key = [] \<or> collectorOK s key \<Longrightarrow> list_all (\<lambda>(k, _). one_line k) labels
   \<Longrightarrow> one_line v \<Longrightarrow> sample_sound s (name, labels, v)"
  by (auto simp: sample_sound_def intro: metric_family_one_line)

text \<open>The names of the labels.\<close>

lemma label_names [simp]:
  "one_line ''event''" "one_line ''device''" "one_line ''operation''" "one_line ''nospace''" "one_line ''mode''"
  "one_line ''direction''" "one_line ''status''" "one_line ''cpu''" "one_line ''state''" "one_line ''mountpoint''"
  "one_line ''fstype''" "one_line ''interface''" "one_line ''1''"
  by (simp_all add: one_line_def)

lemma uint_sample_ok:
  "metric_family name = Some key \<Longrightarrow> collectorOK s key \<Longrightarrow> list_all (\<lambda>(k, _). one_line k) labels
   \<Longrightarrow> list_all (sample_sound s) (uint_sample name labels v)"
  by (auto simp: uint_sample_def split: option.splits intro: sample_soundI)

lemma float_sample_ok:
  "metric_family name = Some key \<Longrightarrow> collectorOK s key \<Longrightarrow> list_all (\<lambda>(k, _). one_line k) labels
   \<Longrightarrow> (\<And>r. one_line (mt_float M r)) \<Longrightarrow> list_all (sample_sound s) (float_sample M name labels v)"
  by (auto simp: float_sample_def split: option.splits intro: sample_soundI)

lemma list_all_only_if: "(b \<Longrightarrow> list_all P xs) \<Longrightarrow> list_all P (only_if b xs)"
  by (simp add: only_if_def)

lemma list_all_concat_map: "(\<And>x. x \<in> set xs \<Longrightarrow> list_all P (f x)) \<Longrightarrow> list_all P (concat (List.map f xs))"
  by (induction xs) auto

lemma events_samples_ok: "list_all (sample_sound s) (sample_events s)"
proof (cases "collectorOK s ''qmp''")
  case True
  then show ?thesis
    by (auto simp: sample_events_def list_all_iff split: option.splits intro!: sample_soundI)
qed (simp add: sample_events_def)

lemma process_samples_ok:
  assumes "\<And>r. one_line (mt_float M r)"
  shows "list_all (sample_sound s) (renderProcessMetrics M s)"
proof -
  have "sample_sound s (''qemu_manage_qemu_process_stats_up'', [], boolMetric b)" for b
    by (rule sample_soundI [where key = "[]"]) simp_all
  moreover have "collectorOK s ''process'' \<Longrightarrow> metric_family name = Some ''process'' \<Longrightarrow>
    list_all (\<lambda>(k, _). one_line k) labels \<Longrightarrow> one_line v \<Longrightarrow> sample_sound s (name, labels, v)" for name labels v
    by (rule sample_soundI [where key = "''process''"]) simp_all
  ultimately show ?thesis using assms by (simp add: renderProcessMetrics_def Let_def)
qed

lemma block_samples_ok:
  assumes "\<And>r. one_line (mt_float M r)" and "collectorOK s ''block''"
  shows "list_all (sample_sound s) (block_samples M d)"
proof -
  have uint: "metric_family name = Some ''block'' \<Longrightarrow> list_all (\<lambda>(k, _). one_line k) labels \<Longrightarrow>
      list_all (sample_sound s) (uint_sample name labels v)" for name labels v
    using uint_sample_ok assms(2) by blast
  have float: "metric_family name = Some ''block'' \<Longrightarrow> list_all (\<lambda>(k, _). one_line k) labels \<Longrightarrow>
      list_all (sample_sound s) (float_sample M name labels v)" for name labels v
    using float_sample_ok assms by blast
  have one: "metric_family name = Some ''block'' \<Longrightarrow> list_all (\<lambda>(k, _). one_line k) labels \<Longrightarrow> one_line v \<Longrightarrow>
      sample_sound s (name, labels, v)" for name labels v
    using sample_soundI assms(2) by blast
  have several: "list_all (sample_sound s) (List.map (\<lambda>(k, n). (name, [(''device'', dev), (''operation'', k)], metricUint n)) xs)"
    if "metric_family name = Some ''block''" for name dev and xs :: "(string \<times> u64) list"
    using that by (auto simp: list_all_iff intro!: one)
  show ?thesis
    by (simp add: block_samples_def Let_def uint float several split: option.split) (simp add: one)
qed

lemma network_samples_ok:
  assumes "collectorOK s ''guest_network''"
  shows "list_all (sample_sound s) (network_samples n)"
proof -
  have "metric_family name = Some ''guest_network'' \<Longrightarrow>
      list_all (sample_sound s) (uint_sample name [(''interface'', i)] v)" for name i v
    using uint_sample_ok [of name "''guest_network''" s "[(''interface'', i)]"] assms by simp
  then show ?thesis by (simp add: network_samples_def counter_sample_def Let_def)
qed

lemma disk_samples_ok:
  assumes "\<And>r. one_line (mt_float M r)" and "collectorOK s ''guest_disk''"
  shows "list_all (sample_sound s) (disk_samples M d)"
proof -
  have uint: "metric_family name = Some ''guest_disk'' \<Longrightarrow> list_all (\<lambda>(k, _). one_line k) labels \<Longrightarrow>
      list_all (sample_sound s) (uint_sample name labels v)" for name labels v
    using uint_sample_ok assms(2) by blast
  have float: "metric_family name = Some ''guest_disk'' \<Longrightarrow> list_all (\<lambda>(k, _). one_line k) labels \<Longrightarrow>
      list_all (sample_sound s) (float_sample M name labels v)" for name labels v
    using float_sample_ok assms by blast
  show ?thesis by (simp add: disk_samples_def counter_sample_def Let_def uint float)
qed

lemma guest_samples_ok:
  assumes float: "\<And>r. one_line (mt_float M r)"
  shows "list_all (sample_sound s) (renderGuestMetrics M s)"
proof -
  have plain: "metric_family name = Some [] \<Longrightarrow> one_line v \<Longrightarrow> sample_sound s (name, [], v)" for name v
    by (rule sample_soundI [where key = "[]"]) simp_all
  have cpu: "list_all (sample_sound s) (cpu_samples M c)" if "collectorOK s ''guest_cpu''" for c
    using that float by (auto simp: cpu_samples_def list_all_iff intro!: sample_soundI)
  have load: "list_all (sample_sound s) (load_samples M l)" if "collectorOK s ''guest_load''" for l
  proof -
    have "list_all (sample_sound s) (float_sample M name [] v)" if "metric_family name = Some ''guest_load''" for name v
      using float_sample_ok [OF that, of s "[]" M v] float \<open>collectorOK s ''guest_load''\<close> by simp
    then show ?thesis by (auto simp: load_samples_def split: option.split)
  qed
  have vcpu: "list_all (sample_sound s) (vcpu_samples vs)" if "collectorOK s ''guest_vcpus''" for vs
    using that by (auto simp: vcpu_samples_def Let_def intro!: sample_soundI)
  have filesystem: "list_all (sample_sound s) (filesystem_samples f)" if "collectorOK s ''guest_filesystems''" for f
    using that by (simp add: filesystem_samples_def Let_def uint_sample_ok)
  have clock: "list_all (sample_sound s) (float_sample M ''qemu_manage_guest_clock_offset_seconds'' [] v)"
    if "collectorOK s ''guest_clock''" for v
    using float_sample_ok [of "''qemu_manage_guest_clock_offset_seconds''" "''guest_clock''" s "[]" M v] that float by simp
  have frozen: "sample_sound s (''qemu_manage_guest_filesystems_frozen'', [], boolMetric b)"
    if "collectorOK s ''guest_filesystem_freeze''" for b
    using that by (intro sample_soundI [where key = "''guest_filesystem_freeze''"]) simp_all
  show ?thesis
    unfolding renderGuestMetrics_def Let_def list_all_append
    by (intro conjI list_all_only_if list_all_concat_map)
       (simp_all add: plain float cpu load vcpu filesystem network_samples_ok disk_samples_ok clock frozen split: option.split)
qed

lemma all_samples_ok:
  assumes float: "\<And>r. one_line (mt_float M r)"
  shows "list_all (sample_sound s) (all_samples M s)"
proof -
  have plain: "metric_family name = Some [] \<Longrightarrow> list_all (\<lambda>(k, _). one_line k) labels \<Longrightarrow> one_line v \<Longrightarrow>
      sample_sound s (name, labels, v)" for name labels v
    by (rule sample_soundI [where key = "[]"]) simp_all
  have blocks: "collectorOK s ''block'' \<Longrightarrow> list_all (sample_sound s) (renderBlockMetrics M s)"
    unfolding renderBlockMetrics_def by (intro list_all_concat_map block_samples_ok float)
  show ?thesis
    unfolding all_samples_def list_all_append
    by (intro conjI events_samples_ok process_samples_ok guest_samples_ok float list_all_only_if blocks)
       (simp_all add: plain float)
qed

section \<open>Lines\<close>

lemma hex_digit_line: "d < 16 \<Longrightarrow> hex_digit d \<noteq> newline"
proof
  assume "d < 16" and "hex_digit d = newline"
  then have "byte (hex_digit d) = 10" by simp
  with \<open>d < 16\<close> show False by (auto simp: hex_digit_def split: if_splits)
qed

lemma hex_text_line: "newline \<notin> set (hex_text k n)"
proof (induction k arbitrary: n)
  case (Suc k)
  have "hex_digit (n mod 16) \<noteq> newline" by (rule hex_digit_line) simp
  with Suc show ?case by auto
qed simp

lemma quote_ascii_line: "newline \<notin> set (quote_ascii c)"
proof -
  have "c \<noteq> newline" if "32 \<le> byte c" using that by auto
  moreover have "c \<noteq> newline" if "byte c = 34 \<or> byte c = 92" using that by auto
  ultimately show ?thesis
    using hex_text_line [of 2 "byte c"]
    by (auto simp: quote_ascii_def backslash_def split: option.split if_splits)
qed

lemma high_bytes: "128 \<le> byte c \<Longrightarrow> c \<noteq> newline"
  by auto

lemma is_cont_high: "is_cont c \<Longrightarrow> 128 \<le> byte c"
  by (simp add: is_cont_def byte_in_def)

lemma utf8_two: "utf8_valid [a, b] \<Longrightarrow> 128 \<le> byte a \<Longrightarrow> 128 \<le> byte b"
  by (auto dest: is_cont_high split: if_splits)

lemma utf8_three:
  "utf8_valid [a, b, c] \<Longrightarrow> \<not> utf8_valid [a, b] \<Longrightarrow> 128 \<le> byte a \<Longrightarrow> 128 \<le> byte b \<and> 128 \<le> byte c"
  by (auto simp: byte_in_def dest: is_cont_high split: if_splits)

lemma utf8_four:
  "utf8_valid [a, b, c, d] \<Longrightarrow> \<not> utf8_valid [a, b] \<Longrightarrow> \<not> utf8_valid [a, b, c] \<Longrightarrow> 128 \<le> byte a \<Longrightarrow>
   128 \<le> byte b \<and> 128 \<le> byte c \<and> 128 \<le> byte d"
  by (auto simp: byte_in_def dest: is_cont_high split: if_splits)

lemma rune_len_le: "rune_len s \<le> length s"
  by (simp add: rune_len_def)

lemma rune_line:
  assumes "rune_len s \<noteq> 1"
  shows "newline \<notin> set (take (rune_len s) s)"
proof -
  have first: "128 \<le> byte a" if "s = a # r" for a r
    using assms that by (simp add: rune_len_def split: if_splits)
  consider "rune_len s = 0" | "2 \<le> length s" "utf8_valid (take 2 s)" "rune_len s = 2"
    | "3 \<le> length s" "utf8_valid (take 3 s)" "\<not> utf8_valid (take 2 s)" "rune_len s = 3"
    | "4 \<le> length s" "utf8_valid (take 4 s)" "\<not> utf8_valid (take 2 s)" "\<not> utf8_valid (take 3 s)" "rune_len s = 4"
    using assms unfolding rune_len_def by (simp split: if_splits)
  then show ?thesis
  proof cases
    case 2
    then obtain a b r where s: "s = a # b # r" by (auto simp: numeral_eq_Suc Suc_le_length_iff)
    from 2 s first [OF s] utf8_two [of a b] have "128 \<le> byte b" by (simp add: numeral_eq_Suc)
    with 2 s first [OF s] show ?thesis by (auto simp: numeral_2_eq_2)
  next
    case 3
    then obtain a b c r where s: "s = a # b # c # r" by (auto simp: numeral_eq_Suc Suc_le_length_iff)
    have "take 3 s = [a, b, c]" "take 2 s = [a, b]" by (simp_all add: s numeral_eq_Suc)
    with 3 first [OF s] utf8_three [of a b c] have "128 \<le> byte b \<and> 128 \<le> byte c" by metis
    with \<open>take 3 s = [a, b, c]\<close> 3 first [OF s] show ?thesis by auto
  next
    case 4
    then obtain a b c d r where s: "s = a # b # c # d # r" by (auto simp: numeral_eq_Suc Suc_le_length_iff)
    have "take 4 s = [a, b, c, d]" "take 3 s = [a, b, c]" "take 2 s = [a, b]" by (simp_all add: s numeral_eq_Suc)
    with 4 first [OF s] utf8_four [of a b c d] have "128 \<le> byte b \<and> 128 \<le> byte c \<and> 128 \<le> byte d" by metis
    with \<open>take 4 s = [a, b, c, d]\<close> 4 first [OF s] show ?thesis by auto
  qed simp
qed

lemma quote_rune_line: "newline \<notin> set (quote_rune P (take (rune_len s) s))"
proof (cases "length (take (rune_len s) s) = 1")
  case True
  then show ?thesis using quote_ascii_line by (simp add: quote_rune_def)
next
  case False
  then have "rune_len s \<noteq> 1" using rune_len_le [of s] by auto
  from rune_line [OF this] show ?thesis
    using False hex_text_line [of 4] hex_text_line [of 8] by (simp add: quote_rune_def backslash_def del: length_take)
qed

lemma quote_body_line: "newline \<notin> set (quote_body P s)"
proof (induction P s rule: quote_body.induct)
  case (1 P s)
  then show ?case
    using hex_text_line [of 2] quote_rune_line [of P s] by (subst quote_body.simps) (simp add: backslash_def)
qed

lemma Quote_line: "one_line (Quote P s)"
  using quote_body_line [of P s] by (simp add: Quote_def one_line_def)

definition header_lines :: "string list" where
  "header_lines =
     concat (List.map (\<lambda>(name, help, kind). [''# HELP '' @ name @ '' '' @ help, ''# TYPE '' @ name @ '' '' @ kind])
       metricDefinitions)"

lemma lines_join: "ls \<noteq> [] \<Longrightarrow> concat (List.map (\<lambda>l. l @ [newline]) ls) = join_with [newline] ls @ [newline]"
proof (induction ls)
  case (Cons l ls)
  then show ?case by (cases ls) (simp_all add: join_Cons)
qed simp

lemma split_lines:
  "list_all one_line ls \<Longrightarrow> split_on newline (concat (List.map (\<lambda>l. l @ [newline]) ls) @ t) = ls @ split_on newline t"
  by (induction ls) (auto simp: one_line_def split_on_append)

lemma split_written:
  assumes "ls \<noteq> []" and "list_all one_line ls"
  shows "split_on newline (trim_newline (concat (List.map (\<lambda>l. l @ [newline]) ls))) = ls"
  using assms by (simp add: lines_join trim_newline_def split_join list_all_iff one_line_def)

lemma headers_are_lines:
  "concat (List.map metricHeader metricDefinitions) = concat (List.map (\<lambda>l. l @ [newline]) header_lines)"
proof -
  have "concat (List.map metricHeader ds) = concat (List.map (\<lambda>l. l @ [newline])
    (concat (List.map (\<lambda>(name, help, kind). [''# HELP '' @ name @ '' '' @ help, ''# TYPE '' @ name @ '' '' @ kind]) ds)))" for ds
    by (induction ds) (auto simp: metricHeader_def)
  then show ?thesis by (simp add: header_lines_def)
qed

lemma header_lines_one_line: "list_all one_line header_lines"
  unfolding one_line_def by code_simp

lemma sample_line:
  assumes "sample_sound s p"
  shows "one_line (butlast (metricSample M p)) \<and> metricSample M p = butlast (metricSample M p) @ [newline]"
proof -
  obtain name labels v where p: "p = (name, labels, v)" by (cases p)
  have labels: "newline \<notin> set (join_with '','' (List.map (\<lambda>(k, l). k @ ''='' @ metricLabel M l) (sort_key fst labels)))"
  proof
    assume "newline \<in> set (join_with '','' (List.map (\<lambda>(k, l). k @ ''='' @ metricLabel M l) (sort_key fst labels)))"
    then have "\<exists>w \<in> set (List.map (\<lambda>(k, l). k @ ''='' @ metricLabel M l) (sort_key fst labels)). newline \<in> set w"
      using join_with_set by fastforce
    then obtain k l where "(k, l) \<in> set labels" "newline \<in> set (k @ ''='' @ metricLabel M l)" by auto
    moreover have "newline \<notin> set (metricLabel M l)" using Quote_line by (simp add: metricLabel_def one_line_def)
    moreover have "one_line k" using assms p \<open>(k, l) \<in> set labels\<close> by (auto simp: sample_sound_def list_all_iff)
    ultimately show False by (simp add: one_line_def)
  qed
  with assms p show ?thesis
    by (auto simp: sample_sound_def metricSample_def one_line_def butlast_append)
qed

text \<open>C30. The text of a scrape is the headers of the declared families and then one line for each
  sample, sorted; every sample is of a declared family, and unless the family is always written its
  collector is in the state ok.\<close>

theorem metrics_lines:
  assumes "\<And>r. newline \<notin> set (mt_float M r)"
  shows "split_on newline (renderMetrics M s)
           = header_lines @ sort (List.map (\<lambda>p. butlast (metricSample M p)) (all_samples M s)) @ [[]]
         \<and> list_all (\<lambda>(name, _). \<exists>key. metric_family name = Some key \<and> (key = [] \<or> cs_status (collector s key) = CollectorOK))
             (all_samples M s)"
proof -
  let ?ls = "List.map (\<lambda>p. butlast (metricSample M p)) (all_samples M s)"
  have ok: "list_all (sample_sound s) (all_samples M s)" using all_samples_ok assms by (simp add: one_line_def)
  then have lines: "list_all one_line ?ls" using sample_line [of s] by (auto simp: list_all_iff)
  have written: "concat (List.map (metricSample M) (all_samples M s)) = concat (List.map (\<lambda>l. l @ [newline]) ?ls)"
    using ok sample_line [of s] by (auto simp: list_all_iff comp_def intro!: arg_cong [where f = concat] map_cong)
  have some: "?ls \<noteq> []" by (simp add: all_samples_def)
  from some have sorted: "sort ?ls \<noteq> []" by (metis length_0_conv length_sort)
  have "renderMetrics M s = concat (List.map (\<lambda>l. l @ [newline]) header_lines)
          @ concat (List.map (\<lambda>l. l @ [newline]) (sort ?ls)) @ []"
    unfolding renderMetrics_def Let_def written split_written [OF some lines] headers_are_lines lines_join [OF sorted] by simp
  moreover have "list_all one_line (sort ?ls)" using lines by (simp add: list_all_iff)
  ultimately have "split_on newline (renderMetrics M s) = header_lines @ sort ?ls @ [[]]"
    using split_lines [OF header_lines_one_line] split_lines [of "sort ?ls" "[]"] by simp
  then show ?thesis using ok by (auto simp: list_all_iff sample_sound_def collectorOK_def)
qed

definition sample_monitor_lib :: monitor_lib where
  "sample_monitor_lib =
     \<lparr>mt_marshal = (\<lambda>_. Some ''{}''), mt_time = (\<lambda>_. ''t''), mt_float = (\<lambda>_. ''0''), mt_json_float = (\<lambda>_. ''0''),
      mt_printable = (\<lambda>_. True)\<rparr>"

theorem metrics_lines_witness:
  "length (split_on newline (renderMetrics sample_monitor_lib empty_snapshot)) = 111"
proof -
  have "\<And>r. newline \<notin> set (mt_float sample_monitor_lib r)" by (simp add: sample_monitor_lib_def)
  from metrics_lines [OF this, of empty_snapshot]
  have "split_on newline (renderMetrics sample_monitor_lib empty_snapshot)
    = header_lines @ sort (List.map (\<lambda>p. butlast (metricSample sample_monitor_lib p)) (all_samples sample_monitor_lib empty_snapshot)) @ [[]]"
    by (rule conjunct1)
  moreover have "length header_lines = 104" "length (all_samples sample_monitor_lib empty_snapshot) = 6" by code_simp+
  ultimately show ?thesis by simp
qed

section \<open>The health route\<close>

text \<open>C29. Whatever refreshes have run and in whatever order, the health route answers 200 only when
  some QMP round succeeded no more than thirty seconds before, and the state it then saw is
  running, paused, suspended or debug.\<close>

theorem health_200_means_fresh:
  assumes "hr_status (serveHTTP M supported (run_events es (new_service pid vm)) verb ''/health'' read now w) = 200"
  shows "\<exists>t state. qmp_success es t state \<and> read - t \<le> 30 * 1000000000
           \<and> state \<in> {''running'', ''paused'', ''suspended'', ''debug''}"
proof -
  obtain s where s: "Snapshot_at (run_events es (new_service pid vm)) read = Some s"
    and "hr_status (writeJSON M verb [(''Cache-Control'', ''no-store'')] (renderHealth M supported s)) = 200"
    using assms
    by (auto simp: serveHTTP_def Let_def writeJSON_def write_response_def split: option.splits if_splits)
  then have "fst (renderHealth M supported s) = 200"
    by (simp add: writeJSON_def write_response_def split: option.splits)
  then obtain health code where "snapshot_health supported s = (health, code, 200)"
    by (cases "snapshot_health supported s") (auto simp: renderHealth_def)
  with health_ok_means_fresh [OF s] show ?thesis by blast
qed

theorem health_200_means_fresh_witness:
  "\<exists>t state. qmp_success [SeedStore ''running'' 5, RefreshQMP sample_observation 6 7 8] t state \<and> 20 - t \<le> 30 * 1000000000"
proof -
  have "hr_status (serveHTTP sample_monitor_lib True
      (run_events [SeedStore ''running'' 5, RefreshQMP sample_observation 6 7 8] (new_service 9 sample_identity))
      ''GET'' ''/health'' 20 21 (PingGivenUp 0)) = 200" by code_simp
  from health_200_means_fresh [OF this] show ?thesis by blast
qed

text \<open>A HEAD request gets what GET gets, without the body.\<close>

lemma head_is_get:
  "serveHTTP M supported sv ''HEAD'' path read now w
     = (serveHTTP M supported sv ''GET'' path read now w)\<lparr>hr_body := []\<rparr>"
  by (simp add: serveHTTP_def Let_def writeJSON_def write_response_def split: option.split)

text \<open>The quoting is Go's, not that of the exposition format, which knows only three escapes.\<close>

lemma label_tab_escape: "metricLabel sample_monitor_lib [char_of (9::nat)] = [CHR 0x22, CHR 0x5C, CHR ''t'', CHR 0x22]"
  by code_simp

text \<open>An interface whose known list of addresses is empty reports \<open>null\<close>.\<close>

lemma known_empty_addresses_null:
  "renderGuestNetwork \<lparr>gn_name = ''eth0'', gn_addresses_present = True, gn_addresses = [], gn_counters = []\<rparr>
     = JObject [(''addresses'', JNull), (''name'', JString ''eth0'')]"
  by code_simp

end
