(* ===== verification/Cli.thy ===== *)
theory Cli
  imports Model Backend
begin

text \<open>
  The command line of \<open>internal/cli\<close>: what \<open>app.go\<close>, \<open>config.go\<close> and \<open>create.go\<close> use of Go's \<open>flag\<close>,
  \<open>strconv\<close> and \<open>time\<close> packages, and the parsers of option values. An error message is a constructor
  with its arguments where the code only reports it.
\<close>

section \<open>The \<open>flag\<close> package\<close>

datatype flag_error =
    FlagSyntax string | FlagHelp | FlagUndefined string | FlagNeedsArgument string
  | FlagBadValue string string string | FlagBadBool string string string

text \<open>A flag: its name, whether it is boolean, and its \<open>Set\<close> on the values parsed so far.\<close>

record 's flag =
  fl_name :: string
  fl_bool :: bool
  fl_set :: "string \<Rightarrow> 's \<Rightarrow> string + 's"

definition mk_flag :: "string \<Rightarrow> (string \<Rightarrow> 's \<Rightarrow> string + 's) \<Rightarrow> 's flag" where
  "mk_flag name f = \<lparr>fl_name = name, fl_bool = False, fl_set = f\<rparr>"

definition parse_bool :: "string \<Rightarrow> bool option" where
  "parse_bool s =
     (if s \<in> {''1'', ''t'', ''T'', ''TRUE'', ''true'', ''True''} then Some True
      else if s \<in> {''0'', ''f'', ''F'', ''FALSE'', ''false'', ''False''} then Some False
      else None)"

definition bool_flag :: "string \<Rightarrow> (bool \<Rightarrow> 's \<Rightarrow> 's) \<Rightarrow> 's flag" where
  "bool_flag name f =
     \<lparr>fl_name = name, fl_bool = True,
      fl_set = (\<lambda>v st. case parse_bool v of None \<Rightarrow> Inl ''parse error'' | Some b \<Rightarrow> Inr (f b st))\<rparr>"

text \<open>The name of a flag and the value after its first equals sign, which is not its first byte.\<close>

fun split_flag :: "string \<Rightarrow> string \<times> string option" where
  "split_flag [] = ([], None)"
| "split_flag (c # r) = (case cut CHR ''='' r of None \<Rightarrow> (c # r, None) | Some (a, v) \<Rightarrow> (c # a, Some v))"

definition flag_body :: "string \<Rightarrow> string" where
  "flag_body a = (if a ! 1 = CHR ''-'' then drop 2 a else drop 1 a)"

definition is_flag :: "string \<Rightarrow> bool" where
  "is_flag a \<longleftrightarrow> 2 \<le> length a \<and> hd a = CHR ''-''"

text \<open>\<open>FlagSet.Parse\<close>: the values, the names that were given, and the arguments that are left.\<close>

function parse_flags ::
  "'s flag list \<Rightarrow> 's \<Rightarrow> string list \<Rightarrow> string list \<Rightarrow> flag_error + 's \<times> string list \<times> string list" where
  "parse_flags fs st seen [] = Inr (st, seen, [])"
| "parse_flags fs st seen (a # as) =
     (if \<not> is_flag a then Inr (st, seen, a # as)
      else if a = ''--'' then Inr (st, seen, as)
      else if flag_body a = [] \<or> hd (flag_body a) = CHR ''-'' \<or> hd (flag_body a) = CHR ''='' then Inl (FlagSyntax a)
      else case split_flag (flag_body a) of (name, v) \<Rightarrow>
        (case List.find (\<lambda>f. fl_name f = name) fs of
           None \<Rightarrow> Inl (if name = ''help'' \<or> name = ''h'' then FlagHelp else FlagUndefined name)
         | Some f \<Rightarrow>
             if fl_bool f then
               (case fl_set f (case v of None \<Rightarrow> ''true'' | Some x \<Rightarrow> x) st of
                  Inl e \<Rightarrow> Inl (FlagBadBool (case v of None \<Rightarrow> ''true'' | Some x \<Rightarrow> x) name e)
                | Inr st \<Rightarrow> parse_flags fs st (List.insert name seen) as)
             else
               (case v of
                  Some x \<Rightarrow>
                    (case fl_set f x st of
                       Inl e \<Rightarrow> Inl (FlagBadValue x name e)
                     | Inr st \<Rightarrow> parse_flags fs st (List.insert name seen) as)
                | None \<Rightarrow>
                    (case as of
                       [] \<Rightarrow> Inl (FlagNeedsArgument name)
                     | x # rest \<Rightarrow>
                         (case fl_set f x st of
                            Inl e \<Rightarrow> Inl (FlagBadValue x name e)
                          | Inr st \<Rightarrow> parse_flags fs st (List.insert name seen) rest)))))"
  by pat_completeness auto
termination by (relation "measure (\<lambda>(fs, st, seen, as). length as)") auto

section \<open>Numbers (\<open>strconv\<close>)\<close>

definition parse_uint :: "nat \<Rightarrow> string \<Rightarrow> nat option" where
  "parse_uint bits s = (case parse_dec s of None \<Rightarrow> None | Some v \<Rightarrow> if v < 2 ^ bits then Some v else None)"

definition signed_text :: "string \<Rightarrow> bool \<times> string" where
  "signed_text s =
     (case s of [] \<Rightarrow> (False, [])
      | c # r \<Rightarrow> if c = CHR ''-'' then (True, r) else if c = CHR ''+'' then (False, r) else (False, s))"

definition int64_of :: "bool \<Rightarrow> nat \<Rightarrow> int option" where
  "int64_of neg v =
     (if neg then if v \<le> 2 ^ 63 then Some (- int v) else None
      else if v < 2 ^ 63 then Some (int v) else None)"

definition Atoi :: "string \<Rightarrow> int option" where
  "Atoi s = (case signed_text s of (neg, d) \<Rightarrow> Option.bind (parse_dec d) (int64_of neg))"

text \<open>\<open>ParseInt\<close> with base 0, as integer flags are read: a prefix gives the base, and single
  underscores may stand between digits.\<close>

definition lower_bit :: "char \<Rightarrow> nat" where
  "lower_bit c = (if 65 \<le> byte c \<and> byte c \<le> 90 then byte c + 32 else byte c)"

definition digit_of :: "char \<Rightarrow> nat option" where
  "digit_of c =
     (if is_digit c then Some (byte c - 48)
      else if 97 \<le> lower_bit c \<and> lower_bit c \<le> 122 then Some (lower_bit c - 87)
      else None)"

fun digits_value :: "nat \<Rightarrow> nat \<Rightarrow> string \<Rightarrow> nat option" where
  "digits_value b v [] = Some v"
| "digits_value b v (c # s) =
     (if c = CHR ''_'' then digits_value b v s
      else case digit_of c of
        None \<Rightarrow> None
      | Some d \<Rightarrow> if b \<le> d then None else digits_value b (v * b + d) s)"

definition base_prefix :: "string \<Rightarrow> nat option" where
  "base_prefix s =
     (if 2 \<le> length s \<and> hd s = CHR ''0'' then
        (if lower_bit (s ! 1) = 98 then Some 2 else if lower_bit (s ! 1) = 111 then Some 8
         else if lower_bit (s ! 1) = 120 then Some 16 else None)
      else None)"

datatype under_state = UnderStart | UnderDigit | UnderScore | UnderOther

fun underscores_ok :: "bool \<Rightarrow> under_state \<Rightarrow> string \<Rightarrow> bool" where
  "underscores_ok hex i [] = (i \<noteq> UnderScore)"
| "underscores_ok hex i (c # s) =
     (if is_digit c \<or> hex \<and> 97 \<le> lower_bit c \<and> lower_bit c \<le> 102 then underscores_ok hex UnderDigit s
      else if c = CHR ''_'' then i = UnderDigit \<and> underscores_ok hex UnderScore s
      else i \<noteq> UnderScore \<and> underscores_ok hex UnderOther s)"

definition underscoreOK :: "string \<Rightarrow> bool" where
  "underscoreOK s =
     (case base_prefix s of
        Some b \<Rightarrow> underscores_ok (b = 16) UnderDigit (drop 2 s)
      | None \<Rightarrow> underscores_ok False UnderStart s)"

definition parse_uint0 :: "string \<Rightarrow> nat option" where
  "parse_uint0 s =
     (if s = [] then None
      else
        let (b, body) =
          (if hd s \<noteq> CHR ''0'' then (10, s)
           else case (if 3 \<le> length s then base_prefix s else None) of
             Some b \<Rightarrow> (b, drop 2 s)
           | None \<Rightarrow> (8, tl s))
        in if CHR ''_'' \<in> set body \<and> \<not> underscoreOK s then None else digits_value b 0 body)"

definition ParseInt0 :: "string \<Rightarrow> int option" where
  "ParseInt0 s = (case signed_text s of (neg, d) \<Rightarrow> Option.bind (parse_uint0 d) (int64_of neg))"

section \<open>Durations (\<open>time.ParseDuration\<close>)\<close>

text \<open>Nanoseconds. The contribution of a fraction is computed with \<open>float64\<close> in Go; here it is a
  parameter of the digits after the point and the unit.\<close>

type_synonym fraction = "string \<Rightarrow> nat \<Rightarrow> nat"

definition duration_unit :: "string \<Rightarrow> nat option" where
  "duration_unit u =
     map_of [(''ns'', 1), (''us'', 1000), ([char_of (194::nat), char_of (181::nat), CHR ''s''], 1000),
             ([char_of (206::nat), char_of (188::nat), CHR ''s''], 1000), (''ms'', 1000000), (''s'', 1000000000),
             (''m'', 60000000000), (''h'', 3600000000000)] u"

definition unit_text :: "string \<Rightarrow> string \<times> string" where
  "unit_text s = (takeWhile (\<lambda>c. c \<noteq> CHR ''.'' \<and> \<not> is_digit c) s, dropWhile (\<lambda>c. c \<noteq> CHR ''.'' \<and> \<not> is_digit c) s)"

text \<open>The digits before and after the point, and the rest.\<close>

definition duration_number :: "string \<Rightarrow> string \<times> string \<times> string" where
  "duration_number s =
     (let r = dropWhile is_digit s in
      if r \<noteq> [] \<and> hd r = CHR ''.''
      then (takeWhile is_digit s, takeWhile is_digit (tl r), dropWhile is_digit (tl r))
      else (takeWhile is_digit s, [], r))"

lemma drop_digits_length: "length (dropWhile P s) \<le> length s"
  by (induction s) auto

lemma duration_number_rest: "duration_number s = (w, f, r) \<Longrightarrow> length r \<le> length s"
  using drop_digits_length [of is_digit s] drop_digits_length [of is_digit "tl (dropWhile is_digit s)"]
  by (auto simp: duration_number_def Let_def split: if_splits)

lemma unit_text_shorter: "unit_text s = (u, t) \<Longrightarrow> u \<noteq> [] \<Longrightarrow> length t < length s"
proof -
  assume *: "unit_text s = (u, t)" "u \<noteq> []"
  then have "s = u @ t" by (auto simp: unit_text_def)
  with *(2) show ?thesis by simp
qed

function duration_sum :: "fraction \<Rightarrow> nat \<Rightarrow> string \<Rightarrow> nat option" where
  "duration_sum F d s =
     (if s = [] then Some d
      else case duration_number s of (whole, frac, r) \<Rightarrow>
        if whole = [] \<and> frac = [] \<or> 2 ^ 63 < dec_value whole then None
        else case unit_text r of (u, rest) \<Rightarrow>
          if u = [] then None
          else case duration_unit u of
            None \<Rightarrow> None
          | Some n \<Rightarrow>
              let v = dec_value whole * n + (if dec_value frac = 0 then 0 else F frac n)
              in if 2 ^ 63 < dec_value whole * n \<or> 2 ^ 63 < v \<or> 2 ^ 63 < d + v then None
                 else duration_sum F (d + v) rest)"
  by pat_completeness auto
termination
  by (relation "measure (\<lambda>(F, d, s). length s)")
     (auto dest!: duration_number_rest [OF sym] unit_text_shorter [OF sym])

declare duration_sum.simps [simp del]

definition ParseDuration :: "fraction \<Rightarrow> string \<Rightarrow> int option" where
  "ParseDuration F s =
     (case signed_text s of (neg, r) \<Rightarrow>
        if r = ''0'' then Some 0
        else if r = [] then None
        else Option.bind (duration_sum F 0 r) (int64_of neg))"

section \<open>Option values (\<open>config.go\<close>)\<close>

definition parsePort :: "string \<Rightarrow> string + u16" where
  "parsePort raw =
     (case parse_uint 16 raw of
        Some v \<Rightarrow> if v = 0 then Inl ''must be between 1 and 65535'' else Inr (of_nat v)
      | None \<Rightarrow> Inl ''must be between 1 and 65535'')"

definition forward_set :: "string \<Rightarrow> PortForward list \<Rightarrow> string + PortForward list" where
  "forward_set raw v =
     (case split_on CHR '':'' raw of
        [p, a, h, g] \<Rightarrow>
          let protocol = List.map to_lower_byte p in
          if protocol \<noteq> ''tcp'' \<and> protocol \<noteq> ''udp'' then Inl ''invalid protocol''
          else (case parse_ip4_literal a of
            None \<Rightarrow> Inl ''host address must be an IPv4 literal''
          | Some quad \<Rightarrow>
              (case parsePort h of
                 Inl e \<Rightarrow> Inl (''host port: '' @ e)
               | Inr hp \<Rightarrow>
                   (case parsePort g of
                      Inl e \<Rightarrow> Inl (''guest port: '' @ e)
                    | Inr gp \<Rightarrow>
                        Inr (v @ [\<lparr>fwd_protocol = protocol, fwd_host_address = ipv4_string quad,
                                  fwd_host_port = hp, fwd_guest_port = gp\<rparr>]))))
      | _ \<Rightarrow> Inl ''must have the form proto:IPv4:host-port:guest-port'')"

definition parseOnOff :: "string \<Rightarrow> string + bool" where
  "parseOnOff raw =
     (if raw = ''on'' then Inr True else if raw = ''off'' then Inr False else Inl ''valid values: on, off'')"

definition parseNetworkMode :: "string \<Rightarrow> string + network_mode" where
  "parseNetworkMode raw =
     (if raw \<noteq> NetworkUser \<and> raw \<noteq> NetworkSocketVMNet then Inl ''valid values: user, socket_vmnet'' else Inr raw)"

definition parseRTCBase :: "string \<Rightarrow> string + string" where
  "parseRTCBase raw =
     (if raw \<noteq> ''utc'' \<and> raw \<noteq> ''localtime'' then Inl ''valid values: utc, localtime'' else Inr raw)"

definition keyboardLayouts :: "string list" where
  "keyboardLayouts =
     [''ar'', ''da'', ''de'', ''de-ch'', ''en-gb'', ''en-us'', ''es'', ''et'', ''fi'', ''fo'', ''fr'', ''fr-be'', ''fr-ca'',
      ''fr-ch'', ''hr'', ''hu'', ''is'', ''it'', ''ja'', ''lt'', ''lv'', ''mk'', ''nl'', ''nl-be'', ''no'', ''pl'', ''pt'',
      ''pt-br'', ''ru'', ''sl'', ''sv'', ''th'', ''tr'']"

definition parseKeyboardLayout :: "string \<Rightarrow> string + string" where
  "parseKeyboardLayout raw =
     (if raw \<notin> set keyboardLayouts then Inl (''valid values: '' @ join_with '', '' keyboardLayouts) else Inr raw)"

definition parse_positive :: "string \<Rightarrow> string + int" where
  "parse_positive raw =
     (case Atoi raw of
        Some v \<Rightarrow> if v \<le> 0 then Inl ''must be a positive integer'' else Inr v
      | None \<Rightarrow> Inl ''must be a positive integer'')"

definition parse_restart :: "string \<Rightarrow> string + restart_policy" where
  "parse_restart raw =
     (if raw \<noteq> RestartNever \<and> raw \<noteq> RestartOnFailure then Inl ''valid values: never, on-failure'' else Inr raw)"

text \<open>\<open>uint64(^uint(0) >> 1) / multiplier\<close> exceeds every 31 bit value.\<close>

definition parseMemoryMiB :: "string \<Rightarrow> string + int" where
  "parseMemoryMiB raw =
     (let sized = (\<lambda>number multiplier.
            case parse_uint 31 number of
              Some v \<Rightarrow>
                if v = 0 \<or> (2 ^ 63 - 1) div multiplier < v then Inl ''must be a positive whole number of MiB or GiB''
                else Inr (int (v * multiplier))
            | None \<Rightarrow> Inl ''must be a positive whole number of MiB or GiB'')
      in if has_suffix raw ''MiB'' then sized (trim_suffix raw ''MiB'') 1
         else if has_suffix raw ''GiB'' then sized (trim_suffix raw ''GiB'') 1024
         else Inl ''must be a whole number of MiB or GiB'')"

definition parseWholeSeconds :: "fraction \<Rightarrow> string \<Rightarrow> string + int" where
  "parseWholeSeconds F raw =
     (case ParseDuration F raw of
        Some d \<Rightarrow>
          if d \<le> 0 \<or> d mod 1000000000 \<noteq> 0 then Inl ''must be a positive whole-second duration''
          else Inr (d div 1000000000)
      | None \<Rightarrow> Inl ''must be a positive whole-second duration'')"

definition parse_metrics :: "string \<Rightarrow> string + MetricsConfig option" where
  "parse_metrics raw =
     (if raw = ''off'' then Inr None
      else case parsePort raw of
        Inr port \<Rightarrow>
          if port < 1024 then Inl ''must be a port between 1024 and 65535, or off'' else Inr (Some \<lparr>met_port = port\<rparr>)
      | Inl _ \<Rightarrow> Inl ''must be a port between 1024 and 65535, or off'')"

section \<open>What the options accept\<close>

text \<open>The \<open>--forward\<close> text of a port forward.\<close>

definition forward_arg :: "PortForward \<Rightarrow> string" where
  "forward_arg f = join_with '':''
     [fwd_protocol f, fwd_host_address f, itoa (unat (fwd_host_port f)), itoa (unat (fwd_guest_port f))]"

lemma parsePort_itoa: "p \<noteq> 0 \<Longrightarrow> parsePort (itoa (unat p)) = Inr p"
proof -
  assume "p \<noteq> 0"
  then have "unat p \<noteq> 0" "unat p < 2 ^ 16" using unsigned_less [of p] by (auto simp: unsigned_eq_0_iff)
  then show ?thesis by (simp add: parsePort_def parse_uint_def parse_itoa)
qed

lemma parsePort_nonzero: "parsePort raw = Inr p \<Longrightarrow> p \<noteq> 0"
proof -
  assume "parsePort raw = Inr p"
  then obtain v where "parse_uint 16 raw = Some v" "v \<noteq> 0" "p = of_nat v"
    by (auto simp: parsePort_def split: option.splits if_splits)
  moreover have "v < 2 ^ 16" using calculation(1) by (auto simp: parse_uint_def split: option.splits if_splits)
  ultimately show ?thesis by (auto simp: word_of_nat_eq_0_iff dest: dvd_imp_le)
qed

lemma ip4_literal_canonical: "parse_ip4_literal a = Some quad \<Longrightarrow> ipv4_string quad = a \<and> CHR '':'' \<notin> set a"
  by (auto simp: parse_ip4_literal_def contains_byte_def dest: parse_ipv4_canonical split: if_splits)

lemma forward_set_ok: "forward_set raw fs = Inr gs \<Longrightarrow> \<exists>f. gs = fs @ [f] \<and> forward_ok f"
  by (auto simp: forward_set_def forward_ok_def Let_def ip4_literal_canonical
      split: list.splits if_splits option.splits sum.splits dest!: parsePort_nonzero)

text \<open>Every forward a configuration may hold can be given with \<open>--forward\<close>: its text is parsed
  back to it, with the address, the ports and the protocol unchanged, and appended.\<close>

lemma forward_flag_roundtrip:
  assumes "forward_ok f"
  shows "forward_set (forward_arg f) fs = Inr (fs @ [f])"
proof -
  from assms have protocol: "fwd_protocol f = ''tcp'' \<or> fwd_protocol f = ''udp''" by (simp add: forward_ok_def)
  then have lower: "List.map to_lower_byte (fwd_protocol f) = fwd_protocol f" "CHR '':'' \<notin> set (fwd_protocol f)"
    by (auto simp: to_lower_byte_def is_upper_def byte_in_def)
  from assms obtain quad where quad: "parse_ip4_literal (fwd_host_address f) = Some quad"
    by (auto simp: forward_ok_def)
  note address = ip4_literal_canonical [OF quad]
  have "split_on CHR '':'' (forward_arg f)
      = [fwd_protocol f, fwd_host_address f, itoa (unat (fwd_host_port f)), itoa (unat (fwd_guest_port f))]"
    unfolding forward_arg_def by (rule split_join) (use lower address in auto)
  moreover have "parsePort (itoa (unat (fwd_host_port f))) = Inr (fwd_host_port f)"
    "parsePort (itoa (unat (fwd_guest_port f))) = Inr (fwd_guest_port f)"
    using assms by (auto simp: forward_ok_def intro: parsePort_itoa)
  ultimately show ?thesis
    using protocol lower address by (auto simp: forward_set_def quad)
qed

lemma forward_flag_roundtrip_witness:
  "forward_set ''tcp:127.0.0.1:8080:80'' [] =
     Inr [\<lparr>fwd_protocol = ''tcp'', fwd_host_address = ''127.0.0.1'', fwd_host_port = 8080, fwd_guest_port = 80\<rparr>]"
proof -
  let ?f = "\<lparr>fwd_protocol = ''tcp'', fwd_host_address = ''127.0.0.1'', fwd_host_port = 8080, fwd_guest_port = 80\<rparr> :: PortForward"
  have ip: "parse_ip4_literal ''127.0.0.1'' \<noteq> None" by code_simp
  have ok: "forward_ok ?f" using ip by (simp add: forward_ok_def)
  have "itoa 8080 = ''8080''" "itoa 80 = ''80''" by (simp_all add: itoa.simps digit_char_def char_of_def bit_Suc_0_iff)
  then have "forward_arg ?f = ''tcp:127.0.0.1:8080:80''" by (simp add: forward_arg_def)
  with forward_flag_roundtrip [OF ok, of "[]"] show ?thesis by simp
qed

text \<open>Sizes: the text of a number of MiB or GiB below the 31 bit bound is read back as that many MiB.\<close>

lemma memory_roundtrip:
  assumes "0 < n" and "n < 2 ^ 31"
  shows "parseMemoryMiB (itoa n @ ''MiB'') = Inr (int n)" and "parseMemoryMiB (itoa n @ ''GiB'') = Inr (int (1024 * n))"
  using assms by (simp_all add: parseMemoryMiB_def parse_uint_def parse_itoa has_suffix_def trim_suffix_def Let_def)

lemma positive_roundtrip: "0 < i \<Longrightarrow> i < 2 ^ 63 \<Longrightarrow> parse_positive (itoa_int i) = Inr i"
proof -
  assume i: "0 < i" "i < 2 ^ 63"
  obtain c r where cr: "itoa (nat i) = c # r" by (cases "itoa (nat i)") auto
  have "is_digit c" using itoa_set [of c "nat i"] cr by simp
  then have "c \<noteq> CHR ''-''" "c \<noteq> CHR ''+''" by (auto simp: is_digit_def byte_in_def)
  then have "signed_text (itoa (nat i)) = (False, itoa (nat i))" by (simp add: signed_text_def cr)
  then show ?thesis using i by (simp add: parse_positive_def Atoi_def itoa_int_def parse_itoa int64_of_def)
qed

end
