(* ===== verification/CliConfig.thy ===== *)
theory CliConfig
  imports Cli Store
begin

text \<open>
  \<open>internal/cli/config.go\<close>: the commands \<open>set\<close> and \<open>config show | validate | apply\<close> on the store: the
  options, the edit they make of a loaded configuration, and the save under the name lock.
\<close>

section \<open>Options of \<open>set\<close>\<close>

record set_options =
  so_cpus :: "int option"
  so_memory :: "int option"
  so_restart :: "restart_policy option"
  so_timeout :: "int option"
  so_guest_agent :: "bool option"
  so_vnc :: "bool option"
  so_vnc_password :: "string option"
  so_vnc_bind :: "string option"
  so_vnc_port :: "u16 option"
  so_vnc_port_to :: "u16 option"
  so_keyboard :: "string option"
  so_rtc :: "string option"
  so_metrics :: "MetricsConfig option option"
  so_network :: "network_mode option"
  so_forwards :: "PortForward list"
  so_clear :: bool
  so_interface :: "string option"

definition no_options :: set_options where
  "no_options =
     \<lparr>so_cpus = None, so_memory = None, so_restart = None, so_timeout = None, so_guest_agent = None, so_vnc = None,
      so_vnc_password = None, so_vnc_bind = None, so_vnc_port = None, so_vnc_port_to = None, so_keyboard = None,
      so_rtc = None, so_metrics = None, so_network = None, so_forwards = [], so_clear = False, so_interface = None\<rparr>"

text \<open>\<open>optionalValue.Set\<close>: parse, then record the value as set.\<close>

definition optional_set :: "(string \<Rightarrow> string + 'a) \<Rightarrow> ('a \<Rightarrow> 's \<Rightarrow> 's) \<Rightarrow> string \<Rightarrow> 's \<Rightarrow> string + 's" where
  "optional_set parse f raw st = (case parse raw of Inl e \<Rightarrow> Inl e | Inr x \<Rightarrow> Inr (f x st))"

definition set_flags :: "fraction \<Rightarrow> set_options flag list" where
  "set_flags F =
     [mk_flag ''cpus'' (optional_set parse_positive (\<lambda>x st. st\<lparr>so_cpus := Some x\<rparr>)),
      mk_flag ''memory'' (optional_set parseMemoryMiB (\<lambda>x st. st\<lparr>so_memory := Some x\<rparr>)),
      mk_flag ''restart-policy'' (optional_set parse_restart (\<lambda>x st. st\<lparr>so_restart := Some x\<rparr>)),
      mk_flag ''shutdown-timeout'' (optional_set (parseWholeSeconds F) (\<lambda>x st. st\<lparr>so_timeout := Some x\<rparr>)),
      mk_flag ''guest-agent'' (optional_set parseOnOff (\<lambda>x st. st\<lparr>so_guest_agent := Some x\<rparr>)),
      mk_flag ''vnc'' (optional_set parseOnOff (\<lambda>x st. st\<lparr>so_vnc := Some x\<rparr>)),
      mk_flag ''vnc-password'' (optional_set Inr (\<lambda>x st. st\<lparr>so_vnc_password := Some x\<rparr>)),
      mk_flag ''vnc-bind'' (optional_set Inr (\<lambda>x st. st\<lparr>so_vnc_bind := Some x\<rparr>)),
      mk_flag ''vnc-port'' (optional_set parsePort (\<lambda>x st. st\<lparr>so_vnc_port := Some x\<rparr>)),
      mk_flag ''vnc-port-to'' (optional_set parsePort (\<lambda>x st. st\<lparr>so_vnc_port_to := Some x\<rparr>)),
      mk_flag ''keyboard-layout'' (optional_set parseKeyboardLayout (\<lambda>x st. st\<lparr>so_keyboard := Some x\<rparr>)),
      mk_flag ''rtc-base'' (optional_set parseRTCBase (\<lambda>x st. st\<lparr>so_rtc := Some x\<rparr>)),
      mk_flag ''metrics-port'' (optional_set parse_metrics (\<lambda>x st. st\<lparr>so_metrics := Some x\<rparr>)),
      mk_flag ''network'' (optional_set parseNetworkMode (\<lambda>x st. st\<lparr>so_network := Some x\<rparr>)),
      mk_flag ''forward'' (\<lambda>raw st. case forward_set raw (so_forwards st) of
        Inl e \<Rightarrow> Inl e | Inr fs \<Rightarrow> Inr (st\<lparr>so_forwards := fs\<rparr>)),
      bool_flag ''clear-forwards'' (\<lambda>b st. st\<lparr>so_clear := b\<rparr>),
      mk_flag ''socket-vmnet-interface'' (optional_set Inr (\<lambda>x st. st\<lparr>so_interface := Some x\<rparr>))]"

section \<open>Errors\<close>

datatype usage_error =
    UsageFlags flag_error | UsageUnexpected string | UsageNoChanges | UsageVNCOff | UsageVNCDetails | UsageVNCPassword
  | UsageSocketFields | UsageForward | UsageEnvRelative string | UsageDiscoveredRelative string
  | UsageSocketPath string string | UsageInterface | UsageSocketSettings | UsageConfig string

datatype cli_error =
    CliUsage usage_error | CliStore store_error | CliConfig config_error | CliEncode encode_error
  | CliDecode decode_error | CliOpen string | CliClose string

section \<open>socket_vmnet\<close>

definition socketVMNetClientEnv :: string where "socketVMNetClientEnv = ''QEMU_MANAGE_SOCKET_VMNET_CLIENT''"

definition socketVMNetSocketEnv :: string where "socketVMNetSocketEnv = ''QEMU_MANAGE_SOCKET_VMNET_SOCKET''"

text \<open>The environment of the process, and what \<open>DiscoverSocketVMNet\<close> finds.\<close>

record app_env =
  ae_lookup :: "string \<Rightarrow> string option"
  ae_socket_vmnet :: "SocketVMNetConfig option"

definition resolveSocketVMNetPath :: "app_env \<Rightarrow> string \<Rightarrow> string \<Rightarrow> string \<Rightarrow> usage_error + string" where
  "resolveSocketVMNetPath A env discovered kind =
     (case ae_lookup A env of
        Some v \<Rightarrow>
          if v \<noteq> [] then (if \<not> is_abs_path v then Inl (UsageEnvRelative env) else Inr (Clean v))
          else if discovered \<noteq> [] then
            (if \<not> is_abs_path discovered then Inl (UsageDiscoveredRelative kind) else Inr (Clean discovered))
          else Inl (UsageSocketPath kind env)
      | None \<Rightarrow>
          if discovered \<noteq> [] then
            (if \<not> is_abs_path discovered then Inl (UsageDiscoveredRelative kind) else Inr (Clean discovered))
          else Inl (UsageSocketPath kind env))"

definition resolveSocketVMNet :: "app_env \<Rightarrow> string \<Rightarrow> usage_error + SocketVMNetConfig" where
  "resolveSocketVMNet A interface =
     (let d = (case ae_socket_vmnet A of
                 None \<Rightarrow> \<lparr>svm_client_path = [], svm_socket_path = [], svm_interface = []\<rparr> | Some d \<Rightarrow> d) in
      bindE (resolveSocketVMNetPath A socketVMNetClientEnv (svm_client_path d) ''client'') (\<lambda>client.
      bindE (resolveSocketVMNetPath A socketVMNetSocketEnv (svm_socket_path d) ''socket'') (\<lambda>socket.
      if interface = [] then Inl UsageInterface
      else if \<not> is_abs_path client \<or> \<not> is_abs_path socket then Inl UsageSocketSettings
      else Inr \<lparr>svm_client_path = client, svm_socket_path = socket, svm_interface = interface\<rparr>)))"

section \<open>The edit (\<open>runSet\<close>)\<close>

definition or_keep :: "'a option \<Rightarrow> 'a \<Rightarrow> 'a" where
  "or_keep v old = (case v of None \<Rightarrow> old | Some x \<Rightarrow> x)"

definition set_plain :: "set_options \<Rightarrow> Config \<Rightarrow> Config" where
  "set_plain opts c =
     c\<lparr>cfg_cpus := or_keep (so_cpus opts) (cfg_cpus c),
       cfg_memory_mib := or_keep (so_memory opts) (cfg_memory_mib c),
       cfg_restart_policy := or_keep (so_restart opts) (cfg_restart_policy c),
       cfg_shutdown_timeout_seconds := or_keep (so_timeout opts) (cfg_shutdown_timeout_seconds c),
       cfg_guest_agent_enabled := or_keep (so_guest_agent opts) (cfg_guest_agent_enabled c),
       cfg_qemu := (cfg_qemu c)\<lparr>qemu_rtc_base := or_keep (so_rtc opts) (qemu_rtc_base (cfg_qemu c))\<rparr>,
       cfg_metrics := or_keep (so_metrics opts) (cfg_metrics c)\<rparr>"

definition vnc_details_set :: "set_options \<Rightarrow> bool" where
  "vnc_details_set opts \<longleftrightarrow>
     so_vnc_password opts \<noteq> None \<or> so_vnc_bind opts \<noteq> None \<or> so_vnc_port opts \<noteq> None \<or> so_vnc_port_to opts \<noteq> None
     \<or> so_keyboard opts \<noteq> None"

definition vnc_edit :: "set_options \<Rightarrow> VNCConfig \<Rightarrow> VNCConfig" where
  "vnc_edit opts v =
     \<lparr>vnc_bind = or_keep (so_vnc_bind opts) (vnc_bind v), vnc_port = or_keep (so_vnc_port opts) (vnc_port v),
      vnc_port_to = or_keep (so_vnc_port_to opts) (vnc_port_to v),
      vnc_password = or_keep (so_vnc_password opts) (vnc_password v),
      vnc_keyboard_layout = or_keep (so_keyboard opts) (vnc_keyboard_layout v)\<rparr>"

definition default_vnc :: "string \<Rightarrow> VNCConfig" where
  "default_vnc password =
     \<lparr>vnc_bind = ''127.0.0.1'', vnc_port = 5900, vnc_port_to = 5999, vnc_password = password,
      vnc_keyboard_layout = ''en-us''\<rparr>"

definition set_vnc :: "set_options \<Rightarrow> Config \<Rightarrow> usage_error + Config" where
  "set_vnc opts c =
     (if so_vnc opts = Some False then
        (if vnc_details_set opts then Inl UsageVNCOff else Inr (c\<lparr>cfg_vnc := None\<rparr>))
      else case cfg_vnc c of
        None \<Rightarrow>
          if vnc_details_set opts \<and> so_vnc opts \<noteq> Some True then Inl UsageVNCDetails
          else if so_vnc opts = Some True then
            (case so_vnc_password opts of
               None \<Rightarrow> Inl UsageVNCPassword
             | Some p \<Rightarrow>
                 if p = [] then Inl UsageVNCPassword else Inr (c\<lparr>cfg_vnc := Some (vnc_edit opts (default_vnc p))\<rparr>))
          else Inr c
      | Some v \<Rightarrow>
          if so_vnc opts = Some True \<or> vnc_details_set opts then Inr (c\<lparr>cfg_vnc := Some (vnc_edit opts v)\<rparr>) else Inr c)"

definition set_user_network :: "set_options \<Rightarrow> NetworkConfig \<Rightarrow> usage_error + NetworkConfig" where
  "set_user_network opts n =
     (if so_interface opts \<noteq> None then Inl UsageSocketFields
      else Inr (n\<lparr>net_mode := NetworkUser, net_socket_vmnet := None,
                  net_forwards :=
                    (if net_mode n = NetworkSocketVMNet \<or> so_clear opts then [] else net_forwards n) @ so_forwards opts\<rparr>))"

definition set_socket_network :: "app_env \<Rightarrow> set_options \<Rightarrow> NetworkConfig \<Rightarrow> usage_error + NetworkConfig" where
  "set_socket_network A opts n =
     (if so_forwards opts \<noteq> [] then Inl UsageForward
      else
        bindE
          (if so_network opts \<noteq> None then
             (let interface =
                (case so_interface opts of
                   Some i \<Rightarrow> i
                 | None \<Rightarrow>
                     (case net_socket_vmnet n of
                        Some s \<Rightarrow> if svm_interface s \<noteq> [] then svm_interface s else ''shared''
                      | None \<Rightarrow> ''shared''))
              in bindE (resolveSocketVMNet A interface) (\<lambda>s. Inr (Some s)))
           else if net_mode n \<noteq> NetworkSocketVMNet then Inl UsageSocketFields
           else (case so_interface opts of
                   Some i \<Rightarrow> Inr (map_option (\<lambda>s. s\<lparr>svm_interface := i\<rparr>) (net_socket_vmnet n))
                 | None \<Rightarrow> Inr (net_socket_vmnet n)))
          (\<lambda>settings. Inr (n\<lparr>net_socket_vmnet := settings, net_mode := NetworkSocketVMNet, net_forwards := []\<rparr>)))"

definition set_network :: "app_env \<Rightarrow> set_options \<Rightarrow> NetworkConfig \<Rightarrow> usage_error + NetworkConfig" where
  "set_network A opts n =
     (let target = or_keep (so_network opts) (net_mode n) in
      if target = NetworkUser then set_user_network opts n
      else if target = NetworkSocketVMNet then set_socket_network A opts n
      else Inr n)"

definition edit_config :: "app_env \<Rightarrow> set_options \<Rightarrow> Config \<Rightarrow> usage_error + Config" where
  "edit_config A opts c =
     bindE (set_vnc opts (set_plain opts c)) (\<lambda>c.
     bindE (set_network A opts (cfg_network c)) (\<lambda>n. Inr (c\<lparr>cfg_network := n\<rparr>)))"

text \<open>Whether the user is told that the launchd configuration is stale.\<close>

definition stale_autostart :: "autostart_scope \<Rightarrow> Config \<Rightarrow> Config \<Rightarrow> bool" where
  "stale_autostart scope old new \<longleftrightarrow>
     scope \<noteq> AutostartNone
     \<and> (cfg_restart_policy old \<noteq> cfg_restart_policy new
        \<or> cfg_shutdown_timeout_seconds old \<noteq> cfg_shutdown_timeout_seconds new)"

definition parse_set :: "fraction \<Rightarrow> string list \<Rightarrow> usage_error + set_options" where
  "parse_set F args =
     (case parse_flags (set_flags F) no_options [] args of
        Inl e \<Rightarrow> Inl (UsageFlags e)
      | Inr (opts, seen, rest) \<Rightarrow>
          if rest \<noteq> [] then Inl (UsageUnexpected (hd rest))
          else if seen = [] then Inl UsageNoChanges
          else Inr opts)"

text \<open>The rest of \<open>runSet\<close>, with the name lock held: the saved configuration's warning.\<close>

definition locked_set ::
  "Store \<Rightarrow> library \<Rightarrow> app_env \<Rightarrow> set_options \<Rightarrow> string \<Rightarrow> host \<Rightarrow> (cli_error, bool) action" where
  "locked_set s L A opts name h =
     (case loadUnlocked s L h name of
        Inl e \<Rightarrow> (Inl (CliStore e), h)
      | Inr c \<Rightarrow>
          (case edit_config A opts c of
             Inl e \<Rightarrow> (Inl (CliUsage e), h)
           | Inr new \<Rightarrow>
               (case Validate new of
                  Some e \<Rightarrow> (Inl (CliConfig e), h)
                | None \<Rightarrow>
                    then_do (wrap_err CliStore (lockedSave s L name new h)) (\<lambda>_ h.
                      (Inr (stale_autostart (cfg_autostart_scope new) c new), h)))))"

definition runSet ::
  "Store \<Rightarrow> library \<Rightarrow> app_env \<Rightarrow> fraction \<Rightarrow> string \<Rightarrow> string list \<Rightarrow> host \<Rightarrow> (cli_error, bool) action" where
  "runSet s L A F name args h =
     (case parse_set F args of
        Inl e \<Rightarrow> (Inl (CliUsage e), h)
      | Inr opts \<Rightarrow>
          then_do (wrap_err CliStore (LockName s h name)) (\<lambda>l h. with_lock l (locked_set s L A opts name h)))"

section \<open>The command \<open>config\<close>\<close>

text \<open>The file that is named: why it cannot be opened, or what reading gives and why its close fails.\<close>

type_synonym file_source = "string + string \<times> string option"

definition config_show :: "Store \<Rightarrow> library \<Rightarrow> host \<Rightarrow> string list \<Rightarrow> cli_error + string" where
  "config_show s L h args =
     (if length args \<noteq> 1 \<or> has_prefix (hd args) ''-'' then Inl (CliUsage (UsageConfig ''show requires NAME''))
      else case Load s L h (hd args) of
        Inl e \<Rightarrow> Inl (CliStore e)
      | Inr c \<Rightarrow> (case CanonicalJSON L c of Inl e \<Rightarrow> Inl (CliEncode e) | Inr data \<Rightarrow> Inr data))"

definition read_config :: "library \<Rightarrow> file_source \<Rightarrow> cli_error + Config" where
  "read_config L f =
     (case f of
        Inl e \<Rightarrow> Inl (CliOpen e)
      | Inr (data, closed) \<Rightarrow>
          (case Decode L data of
             Inl e \<Rightarrow> Inl (CliDecode e)
           | Inr c \<Rightarrow> (case closed of None \<Rightarrow> Inr c | Some e \<Rightarrow> Inl (CliClose e))))"

definition config_validate :: "library \<Rightarrow> (string \<Rightarrow> file_source) \<Rightarrow> string list \<Rightarrow> cli_error option" where
  "config_validate L file args =
     (if length args \<noteq> 1 then Some (CliUsage (UsageConfig ''validate requires FILE''))
      else case read_config L (file (hd args)) of Inl e \<Rightarrow> Some e | Inr _ \<Rightarrow> None)"

definition locked_apply :: "Store \<Rightarrow> library \<Rightarrow> string \<Rightarrow> Config \<Rightarrow> host \<Rightarrow> (cli_error, bool) action" where
  "locked_apply s L name new h =
     (case loadUnlocked s L h name of
        Inl e \<Rightarrow> (Inl (CliStore e), h)
      | Inr current \<Rightarrow>
          (case ValidateApply current new of
             Some e \<Rightarrow> (Inl (CliConfig e), h)
           | None \<Rightarrow>
               then_do (wrap_err CliStore (lockedSave s L name new h)) (\<lambda>_ h. (Inr (stale_autostart (cfg_autostart_scope current) current new), h))))"

definition config_apply ::
  "Store \<Rightarrow> library \<Rightarrow> (string \<Rightarrow> file_source) \<Rightarrow> string list \<Rightarrow> host \<Rightarrow> (cli_error, bool) action" where
  "config_apply s L file args h =
     (if length args \<noteq> 2 \<or> has_prefix (hd args) ''-'' then (Inl (CliUsage (UsageConfig ''apply requires NAME FILE'')), h)
      else case read_config L (file (args ! 1)) of
        Inl e \<Rightarrow> (Inl e, h)
      | Inr new \<Rightarrow>
          then_do (wrap_err CliStore (LockName s h (hd args))) (\<lambda>l h. with_lock l (locked_apply s L (hd args) new h)))"

section \<open>What \<open>set\<close> and \<open>config apply\<close> keep\<close>

text \<open>Two configurations of the same machine: \<open>set\<close> has no option for any of these fields.\<close>

definition same_machine :: "Config \<Rightarrow> Config \<Rightarrow> bool" where
  "same_machine c d \<longleftrightarrow>
     cfg_schema_version d = cfg_schema_version c \<and> cfg_id d = cfg_id c \<and> cfg_name d = cfg_name c
     \<and> cfg_backend d = cfg_backend c \<and> cfg_architecture d = cfg_architecture c \<and> cfg_uuid d = cfg_uuid c
     \<and> cfg_firmware d = cfg_firmware c \<and> cfg_installer d = cfg_installer c \<and> cfg_disks d = cfg_disks c
     \<and> cfg_usb d = cfg_usb c \<and> cfg_autostart_scope d = cfg_autostart_scope c
     \<and> net_mac (cfg_network d) = net_mac (cfg_network c)
     \<and> net_smb_folder (cfg_network d) = net_smb_folder (cfg_network c)
     \<and> (\<exists>rtc. cfg_qemu d = (cfg_qemu c)\<lparr>qemu_rtc_base := rtc\<rparr>)"

lemma set_network_keeps:
  "set_network A opts n = Inr n' \<Longrightarrow> net_mac n' = net_mac n \<and> net_smb_folder n' = net_smb_folder n"
  by (auto simp: set_network_def set_user_network_def set_socket_network_def Let_def bindE_def
      split: if_splits sum.splits)

lemma set_vnc_keeps: "set_vnc opts c = Inr d \<Longrightarrow> \<exists>v. d = c\<lparr>cfg_vnc := v\<rparr>"
  by (auto simp: set_vnc_def split: if_splits option.splits intro: exI [of _ "cfg_vnc c"])

lemma edit_config_same: "edit_config A opts c = Inr d \<Longrightarrow> same_machine c d"
  by (auto simp: edit_config_def bindE_def same_machine_def set_plain_def
      split: sum.splits dest!: set_vnc_keeps set_network_keeps)

lemma unlock_loads [simp]: "loadUnlocked s L (unlock l h) name = loadUnlocked s L h name"
  unfolding loadUnlocked_def inspectOwnedDirectory_def lstat_def openOwnedRegular_def unlock_simps ..

text \<open>A save that reports an error, other than that of the synchronisation of the directory after the
  rename, leaves what is loaded as it was.\<close>

lemma failed_save_loads:
  assumes "lockedSave s L name d h = (Inl e, h')" and "loadUnlocked s L h name = Inr c"
    and "e \<notin> {WriteError (EFAULTED SysOpenDir), WriteError (EFAULTED SysSyncDir)}"
  shows "loadUnlocked s L h' name = Inr c"
proof -
  let ?dir = "join_path (DataRoot s) name"
  let ?path = "join_path ?dir configFilename"
  have dir: "h_fs h ?dir = Some (Dir (h_uid h) mode_dir)" using loadUnlocked_ok [OF assms(2)] by simp
  have "h' = h \<or> writeConfigAtomic L h ?path d = (Inl e, h')"
  proof (cases "cfg_name d = name \<and> cfg_id c = cfg_id d")
    case True
    then have "lockedSave s L name d h = writeConfigAtomic L h (p_config (store_paths s d)) d"
      by (simp only: lockedSave_def assms(2) sum.case simp_thms if_False if_True)
    with assms(1) True show ?thesis by simp
  next
    case False
    then have "snd (lockedSave s L name d h) = h"
      by (simp only: lockedSave_def assms(2) sum.case split: if_split) auto
    with assms(1) show ?thesis by simp
  qed
  then consider "h' = h" | "writeConfigAtomic L h ?path d = (Inl e, h')" by blast
  then show ?thesis
  proof cases
    case 2
    from failed_write_keeps_tree [OF 2 refl dir assms(3)] writeConfigAtomic_fs [OF refl dir, of L d] 2
    have "keeps h h'" by (simp add: keeps_def)
    then show ?thesis by (rule loadUnlocked_keeps) (rule assms(2))
  qed (simp add: assms(2))
qed

text \<open>A configuration that is loaded before the name lock is taken is loaded under it.\<close>

lemma Load_locked:
  assumes "Load s L h name = Inr c" and "LockName s h name = (Inr l, h1)"
  shows "loadUnlocked s L h1 name = Inr c" and "h_fault h1 = h_fault h"
proof -
  have load: "loadUnlocked s L h name = Inr c" using assms(1) by (simp add: Load_def split: option.splits)
  have keeps: "keeps h h1" using LockName_keeps [of h s name] assms(2) by simp
  show "loadUnlocked s L h1 name = Inr c" by (rule loadUnlocked_keeps [OF keeps load])
  from keeps show "h_fault h1 = h_fault h" by (simp add: keeps_def)
qed

lemma Load_unlocked: "Load s L h name = Inr c \<Longrightarrow> loadUnlocked s L h' name = Inr c' \<Longrightarrow> Load s L h' name = Inr c'"
  by (simp add: Load_def split: option.splits)

text \<open>What a saved configuration's name and identity have to be.\<close>

lemma lockedSave_name:
  "lockedSave s L name d h = (Inr (), h') \<Longrightarrow> cfg_name d = name"
  by (auto simp: lockedSave_def split: if_splits)

lemma locked_save_loads:
  assumes "lockedSave s L name d h = (Inr (), h')" and "text_decodes L d"
    and "\<And>call p. call \<in> {SysLstat, SysOpen, SysFstat} \<Longrightarrow> \<not> h_fault h call p"
  shows "loadUnlocked s L h' name = Inr d"
proof -
  have name: "name = cfg_name d" using lockedSave_name [OF assms(1)] by simp
  from lockedSave_stored [OF assms(1) [unfolded name]] obtain data ino where stored: "CanonicalJSON L d = Inr data"
    "h_fs h' (p_config (store_paths s d)) = Some (File ino (h_uid h') mode_file data)"
    "h_fs h' (p_vm_dir (store_paths s d)) = Some (Dir (h_uid h') mode_dir)" "h_fault h' = h_fault h"
    by auto
  have "Load s L h' name = Inr d"
    unfolding name by (rule stored_loads [OF stored(1) assms(2) stored(2,3)]) (use stored(4) assms(3) in simp)
  then show ?thesis by (simp add: Load_def split: option.splits)
qed

lemma runSet_cases:
  assumes "runSet s L A F name args h = (r, h')" and "Load s L h name = Inr c"
  obtains (refused) e where "r = Inl e" and "keeps h h'" and "\<And>e'. e = CliStore e' \<Longrightarrow> fst (LockName s h name) = Inl e'"
  | (saved) opts d l h1 h2 r2 where "parse_set F args = Inr opts" and "LockName s h name = (Inr l, h1)"
      and "edit_config A opts c = Inr d" and "Validate d = None"
      and "lockedSave s L name d h1 = (r2, h2)" and "h' = unlock l h2"
      and "r = (case r2 of Inl e \<Rightarrow> Inl (CliStore e) | Inr _ \<Rightarrow> Inr (stale_autostart (cfg_autostart_scope d) c d))"
proof (cases "parse_set F args")
  case (Inl e)
  then show ?thesis using assms by (auto simp: runSet_def intro: refused)
next
  case (Inr opts)
  obtain q h1 where lock: "LockName s h name = (q, h1)" by (cases "LockName s h name")
  have keeps: "keeps h h1" using LockName_keeps [of h s name] lock by simp
  show ?thesis
  proof (cases q)
    case (Inl e)
    then show ?thesis
      using assms Inr lock keeps by (auto simp: runSet_def wrap_err_def then_do_def intro: refused)
  next
    case l: (Inr l)
    note load = Load_locked(1) [OF assms(2) lock [unfolded l]]
    have run: "(r, h') = with_lock l (locked_set s L A opts name h1)"
      using assms(1) Inr lock l by (simp add: runSet_def wrap_err_def then_do_def)
    show ?thesis
    proof (cases "edit_config A opts c")
      case (Inl e)
      then show ?thesis
        using run keeps by (auto simp: locked_set_def load with_lock_def intro: refused)
    next
      case d: (Inr d)
      show ?thesis
      proof (cases "Validate d")
        case (Some e)
        then show ?thesis
          using run keeps d by (auto simp: locked_set_def load with_lock_def intro: refused)
      next
        case None
        obtain r2 h2 where save: "lockedSave s L name d h1 = (r2, h2)" by (cases "lockedSave s L name d h1")
        show ?thesis
          by (rule saved [OF Inr lock [unfolded l] d None save])
            (use run None d save in \<open>auto simp: locked_set_def load with_lock_def wrap_err_def then_do_def split: sum.splits\<close>)
      qed
    qed
  qed
qed

text \<open>C9. \<open>set\<close> is all or nothing: if the machine loads before the command, then after it, whatever
  its arguments, either the command succeeded, the machine loads with exactly the edit the options
  ask for, the edited configuration is valid, it is the same machine in every field \<open>set\<close> has no
  option for, and a warning was written exactly if the launchd job has become stale; or the command
  reported an error and the machine loads as before, unless the error is the synchronisation of
  the directory after the rename.\<close>

theorem set_all_or_nothing:
  assumes "runSet s L A F name args h = (r, h')" and "Load s L h name = Inr c"
    and "\<And>opts d. parse_set F args = Inr opts \<Longrightarrow> edit_config A opts c = Inr d \<Longrightarrow> text_decodes L d"
    and "\<And>call p. call \<in> {SysLstat, SysOpen, SysFstat} \<Longrightarrow> \<not> h_fault h call p"
  shows "case r of
      Inr warned \<Rightarrow> \<exists>opts d. parse_set F args = Inr opts \<and> edit_config A opts c = Inr d
        \<and> Load s L h' name = Inr d \<and> wf_config d \<and> same_machine c d
        \<and> warned = stale_autostart (cfg_autostart_scope c) c d
    | Inl e \<Rightarrow> e \<in> CliStore ` {WriteError (EFAULTED SysOpenDir), WriteError (EFAULTED SysSyncDir)}
        \<or> Load s L h' name = Inr c"
  using assms(1,2)
proof (cases rule: runSet_cases)
  case (refused e)
  have "loadUnlocked s L h name = Inr c" using assms(2) by (simp add: Load_def split: option.splits)
  then have "loadUnlocked s L h' name = Inr c" by (rule loadUnlocked_keeps [OF refused(2)])
  then show ?thesis using refused(1) Load_unlocked [OF assms(2)] by simp
next
  case (saved opts d l h1 h2 r2)
  note load = Load_locked [OF assms(2) saved(2)]
  show ?thesis
  proof (cases r2)
    case (Inl e)
    then show ?thesis
      using failed_save_loads [OF saved(5) [unfolded Inl] load(1)] Load_unlocked [OF assms(2), of h'] saved(6,7)
      by auto
  next
    case (Inr u)
    have "loadUnlocked s L h' name = Inr d"
      using locked_save_loads [OF saved(5) [unfolded Inr unit_eq [of u]] assms(3) [OF saved(1,3)]]
        assms(4) load(2) saved(6) by simp
    moreover have "same_machine c d" using edit_config_same [OF saved(3)] .
    ultimately show ?thesis
      using saved(1,3,4,7) Inr Load_unlocked [OF assms(2), of h']
      by (auto simp: Validate_None_iff same_machine_def)
  qed
qed

text \<open>A library that writes and reads the sample configuration with its own and with eight CPUs.\<close>

definition eight_cpus :: Config where "eight_cpus = sample_config\<lparr>cfg_cpus := 8\<rparr>"

definition edit_library :: library where
  "edit_library = sample_library\<lparr>
     js_value := (\<lambda>s. Some (if has_prefix s ''{ '' then (take 3 s, drop 3 s) else (take 2 s, drop 2 s))),
     js_strict := (\<lambda>s. Some (Some ConfigSchemaURL, if s = ''{ }'' then eight_cpus else sample_config)),
     js_marshal := (\<lambda>_ c. Some (if cfg_cpus c = 8 then ''{ }'' else ''{}''))\<rparr>"

lemma eight_cpus_valid: "Validate eight_cpus = None"
  unfolding eight_cpus_def by code_simp

lemma edit_library_decodes: "text_decodes edit_library eight_cpus"
proof -
  have "validateRawJSONUnicode [CHR ''{'', CHR '' '', CHR ''}'', CHR 0x0A] = None" by code_simp
  then show ?thesis
    by (simp add: text_decodes_def edit_library_def sample_library_def is_space_def byte_in_def has_prefix_def
        eight_cpus_def)
qed

lemma edit_loaded: "Load sample_store edit_library sample_host ''home-assistant'' = Inr sample_config"
proof -
  have raw: "validateRawJSONUnicode ''{}'' = None" and trim: "trim_space ''{}'' = ''{}''" by code_simp+
  have decode: "Decode edit_library ''{}'' = Inr sample_config"
    by (simp add: Decode_def raw edit_library_def sample_library_def trim schema_accepted_def sample_config_valid
        has_prefix_def)
  have data: "openOwnedRegular sample_host ''/d/home-assistant/config.json'' = Inr ''{}''"
    by (simp add: openOwnedRegular_def sample_defs)
  have dir: "inspectOwnedDirectory sample_host ''/d/home-assistant'' = None"
    by (simp add: inspectOwnedDirectory_def lstat_def sample_defs)
  have paths: "join_path (DataRoot sample_store) ''home-assistant'' = ''/d/home-assistant''"
    "join_path ''/d/home-assistant'' configFilename = ''/d/home-assistant/config.json''"
    by (simp_all add: sample_store_def join_path_def configFilename_def)
  have name: "validateName ''home-assistant'' = None" by code_simp
  show ?thesis by (simp add: Load_def name loadUnlocked_def paths dir data decode sample_name)
qed

definition plain_env :: app_env where "plain_env = \<lparr>ae_lookup = (\<lambda>_. None), ae_socket_vmnet = None\<rparr>"

lemma sample_parse_set: "parse_set (\<lambda>_ _. 0) [''--cpus'', ''8''] = Inr (no_options\<lparr>so_cpus := Some 8\<rparr>)"
proof -
  have body: "is_flag ''--cpus''" "flag_body ''--cpus'' = ''cpus''" "split_flag ''cpus'' = (''cpus'', None)"
    by code_simp+
  have "parse_positive ''8'' = Inr 8"
    by (simp add: parse_positive_def Atoi_def signed_text_def parse_dec_def is_digit_def byte_in_def dec_value_def
        int64_of_def)
  with body show ?thesis
    by (simp add: parse_set_def set_flags_def mk_flag_def optional_set_def)
qed

lemma sample_edit: "edit_config plain_env (no_options\<lparr>so_cpus := Some 8\<rparr>) sample_config = Inr eight_cpus"
proof -
  define p where "p = set_plain (no_options\<lparr>so_cpus := Some 8\<rparr>) sample_config"
  have p: "p = eight_cpus"
    by (simp add: p_def set_plain_def no_options_def or_keep_def eight_cpus_def sample_config_def)
  have vnc: "set_vnc (no_options\<lparr>so_cpus := Some 8\<rparr>) eight_cpus = Inr eight_cpus"
    by (simp add: set_vnc_def vnc_details_set_def no_options_def split: option.split)
  have mode: "net_mode (cfg_network eight_cpus) = NetworkUser" "net_socket_vmnet (cfg_network eight_cpus) = None"
    by (simp_all add: eight_cpus_def sample_config_def NetworkUser_def)
  have "cfg_network eight_cpus\<lparr>net_mode := NetworkUser, net_socket_vmnet := None,
      net_forwards := net_forwards (cfg_network eight_cpus)\<rparr> = cfg_network eight_cpus"
    using mode by simp
  moreover have "net_mode (cfg_network eight_cpus) \<noteq> NetworkSocketVMNet"
    by (simp add: mode NetworkUser_def NetworkSocketVMNet_def)
  ultimately have net: "set_network plain_env (no_options\<lparr>so_cpus := Some 8\<rparr>) (cfg_network eight_cpus) = Inr (cfg_network eight_cpus)"
    by (simp add: set_network_def set_user_network_def no_options_def or_keep_def mode)
  show ?thesis by (simp add: edit_config_def p_def [symmetric] p vnc net bindE_def)
qed

theorem set_all_or_nothing_witness:
  "Load sample_store edit_library
     (snd (runSet sample_store edit_library plain_env (\<lambda>_ _. 0) ''home-assistant'' [''--cpus'', ''8''] sample_host))
     ''home-assistant'' = Inr eight_cpus"
proof -
  let ?h = "after_lock sample_host"
  let ?run = "runSet sample_store edit_library plain_env (\<lambda>_ _. 0) ''home-assistant'' [''--cpus'', ''8''] sample_host"
  have load: "loadUnlocked sample_store edit_library ?h ''home-assistant'' = Inr sample_config"
    using Load_locked(1) [OF edit_loaded sample_LockName(1)] .
  have parent: "parent_dir ''/d/home-assistant/config.json'' = ''/d/home-assistant''" by code_simp
  have ens: "ensureOwnedDirectory ?h ''/d/home-assistant'' = (Inr (), ?h)"
    by (rule ensureOwnedDirectory_owned) (simp_all add: after_lock_def sample_defs)
  have name: "cfg_name eight_cpus = ''home-assistant''" "cfg_id eight_cpus = cfg_id sample_config"
    by (simp_all add: eight_cpus_def sample_name)
  have paths: "p_config (store_paths sample_store eight_cpus) = ''/d/home-assistant/config.json''"
    by (simp add: sample_store_def name join_path_def configFilename_def)
  have "fst (writeConfigAtomic edit_library ?h ''/d/home-assistant/config.json'' eight_cpus) = Inr ()"
    by (simp add: writeConfigAtomic_def CanonicalJSON_def eight_cpus_valid edit_library_def sample_library_def parent
        Let_def ens) (simp add: write_ops_def temp_path_def join_path_def after_lock_def sample_defs)
  then have "fst (lockedSave sample_store edit_library ''home-assistant'' eight_cpus ?h) = Inr ()"
    by (simp add: lockedSave_def load name paths del: store_paths_dirs)
  then obtain h2 where "lockedSave sample_store edit_library ''home-assistant'' eight_cpus ?h = (Inr (), h2)"
    by (metis prod.collapse)
  then have "fst ?run = Inr (stale_autostart (cfg_autostart_scope eight_cpus) sample_config eight_cpus)"
    by (simp add: runSet_def sample_parse_set sample_LockName wrap_err_def then_do_def locked_set_def load sample_edit
        eight_cpus_valid)
  then obtain w h' where run: "?run = (Inr w, h')" by (metis prod.collapse)
  have "text_decodes edit_library d" if "parse_set (\<lambda>_ _. 0) [''--cpus'', ''8''] = Inr opts"
    "edit_config plain_env opts sample_config = Inr d" for opts d
    using that edit_library_decodes by (auto simp: sample_parse_set sample_edit)
  with set_all_or_nothing [OF run edit_loaded] show ?thesis
    by (auto simp: run sample_parse_set sample_edit) (simp add: sample_defs)
qed

end
