(* ===== verification/CliDrive.thy ===== *)
theory CliDrive
  imports Cli
begin

text \<open>
  \<open>internal/cli/create.go\<close>, first part: the values of \<open>create\<close>'s options (USB selectors, drives, the
  shared folder, sizes) and the inspection of the files they name.
\<close>

section \<open>Files and executables of the user\<close>

text \<open>What opening a path, its \<open>Stat\<close> and reading it give: the data before the end or before an error.\<close>

record source_file =
  sf_open :: "string option"
  sf_stat :: "string option"
  sf_regular :: bool
  sf_data :: string
  sf_bad :: "string option"

definition requireRegularSource :: "source_file \<Rightarrow> string option" where
  "requireRegularSource f =
     (case sf_open f of Some e \<Rightarrow> Some e
      | None \<Rightarrow> (case sf_stat f of Some e \<Rightarrow> Some e
                 | None \<Rightarrow> if \<not> sf_regular f then Some ''not a regular file'' else None))"

definition qcow2_magic :: string where "qcow2_magic = ''QFI'' @ [char_of (251::nat)]"

text \<open>\<open>io.ReadFull\<close> of four bytes; a short file leaves zero bytes in the array.\<close>

definition detectDriveFormat :: "source_file \<Rightarrow> string + string" where
  "detectDriveFormat f =
     (case requireRegularSource f of
        Some e \<Rightarrow> Inl e
      | None \<Rightarrow>
          let header = take 4 (sf_data f) @ replicate (4 - length (sf_data f)) CHR 0x00 in
          case (if length (sf_data f) < 4 then sf_bad f else None) of
            Some e \<Rightarrow> Inl e
          | None \<Rightarrow> Inr (if header = qcow2_magic then ''qcow2'' else ''raw''))"

definition be_value :: "string \<Rightarrow> nat" where
  "be_value s = foldl (\<lambda>v c. 256 * v + byte c) 0 s"

definition qcow2VirtualSize :: "source_file \<Rightarrow> string + nat" where
  "qcow2VirtualSize f =
     (case sf_open f of
        Some e \<Rightarrow> Inl e
      | None \<Rightarrow>
          if length (sf_data f) < 32 then Inl (case sf_bad f of Some e \<Rightarrow> e | None \<Rightarrow> ''unexpected EOF'')
          else if take 4 (sf_data f) \<noteq> qcow2_magic then Inl ''converted image is not qcow2''
          else if be_value (take 4 (drop 4 (sf_data f))) \<notin> {2, 3} then Inl ''unsupported qcow2 version''
          else Inr (be_value (take 8 (drop 24 (sf_data f)))))"

text \<open>What \<open>Stat\<close> reports of a path (regular, directory, permissions), what \<open>exec.LookPath\<close> finds, and
  the working directory.\<close>

record stat_info =
  si_regular :: bool
  si_dir :: bool
  si_perm :: nat

record user_env =
  ue_file :: "string \<Rightarrow> source_file"
  ue_stat :: "string \<Rightarrow> string + stat_info"
  ue_look_path :: "string \<Rightarrow> string + string"
  ue_cwd :: "string + string"

definition Abs :: "user_env \<Rightarrow> string \<Rightarrow> string + string" where
  "Abs E p =
     (if is_abs_path p then Inr (Clean p)
      else case ue_cwd E of Inl e \<Rightarrow> Inl e | Inr d \<Rightarrow> Inr (path_join d p))"

unbundle bit_operations_syntax

definition resolveExecutable :: "user_env \<Rightarrow> string \<Rightarrow> string + string" where
  "resolveExecutable E v =
     (if v = [] then Inl ''executable path is empty''
      else if is_abs_path v then
        (case ue_stat E v of
           Inl e \<Rightarrow> Inl e
         | Inr i \<Rightarrow>
             if \<not> si_regular i \<or> si_perm i AND 73 = 0 then Inl ''not an executable regular file'' else Inr (Clean v))
      else if contains_byte v CHR ''/'' then Inl ''must be absolute or a PATH name''
      else case ue_look_path E v of
        Inl e \<Rightarrow> Inl e
      | Inr p \<Rightarrow> Abs E p)"

definition requireSharedDirectory :: "user_env \<Rightarrow> string \<Rightarrow> string option" where
  "requireSharedDirectory E p =
     (case ue_stat E p of
        Inl e \<Rightarrow> Some e
      | Inr i \<Rightarrow> if \<not> si_dir i then Some ''share path is not a directory'' else None)"

section \<open>The shared folder\<close>

definition share_set :: "user_env \<Rightarrow> string \<Rightarrow> string option \<Rightarrow> string + string option" where
  "share_set E raw v =
     (if raw = [] then Inl ''share path is empty''
      else if v \<noteq> None then Inl ''only one --share may be specified''
      else case Abs E raw of Inl e \<Rightarrow> Inl e | Inr p \<Rightarrow> Inr (Some (Clean p)))"

section \<open>USB selectors\<close>

fun hex_number :: "nat \<Rightarrow> string \<Rightarrow> nat option" where
  "hex_number v [] = Some v"
| "hex_number v (c # s) =
     (case digit_of c of None \<Rightarrow> None | Some d \<Rightarrow> if 16 \<le> d then None else hex_number (v * 16 + d) s)"

definition hex4 :: "nat \<Rightarrow> string" where
  "hex4 v = List.map hex_digit [v div 4096 mod 16, v div 256 mod 16, v div 16 mod 16, v mod 16]"

definition parseUSBHexValue :: "string \<Rightarrow> string + string" where
  "parseUSBHexValue raw =
     (if length raw \<noteq> 4 then Inl ''must be exactly four hexadecimal digits''
      else case hex_number 0 raw of
        None \<Rightarrow> Inl ''must be exactly four hexadecimal digits''
      | Some v \<Rightarrow> if v = 0 then Inl ''must be between 0001 and ffff'' else Inr (hex4 v))"

definition parseUSBDecimalValue :: "string \<Rightarrow> int \<Rightarrow> string + int" where
  "parseUSBDecimalValue raw most =
     (case Atoi raw of
        None \<Rightarrow> Inl (''must be between 1 and '' @ itoa_int most)
      | Some v \<Rightarrow> if v < 1 \<or> most < v then Inl (''must be between 1 and '' @ itoa_int most) else Inr v)"

text \<open>An item \<open>key=value\<close> with a key that was not seen.\<close>

definition item_parts :: "string list \<Rightarrow> string \<Rightarrow> string + string \<times> string" where
  "item_parts seen item =
     (case cut CHR ''='' item of
        None \<Rightarrow> Inl ''must have the form key=value''
      | Some (key, v) \<Rightarrow>
          if key = [] \<or> v = [] then Inl ''must have the form key=value''
          else if key \<in> set seen then Inl ''duplicate key'' else Inr (key, v))"

definition usb_item :: "string \<Rightarrow> string \<Rightarrow> USBDeviceConfig \<Rightarrow> string + USBDeviceConfig" where
  "usb_item key v u =
     (if key = ''vendor'' then
        (case parseUSBHexValue v of Inl e \<Rightarrow> Inl (''vendor: '' @ e) | Inr x \<Rightarrow> Inr (u\<lparr>usb_vendor_id := x\<rparr>))
      else if key = ''product'' then
        (case parseUSBHexValue v of Inl e \<Rightarrow> Inl (''product: '' @ e) | Inr x \<Rightarrow> Inr (u\<lparr>usb_product_id := x\<rparr>))
      else if key = ''bus'' then
        (case parseUSBDecimalValue v 255 of Inl e \<Rightarrow> Inl (''bus: '' @ e) | Inr x \<Rightarrow> Inr (u\<lparr>usb_host_bus := x\<rparr>))
      else if key = ''address'' then
        (case parseUSBDecimalValue v 127 of Inl e \<Rightarrow> Inl (''address: '' @ e) | Inr x \<Rightarrow> Inr (u\<lparr>usb_host_address := x\<rparr>))
      else Inl ''unknown key'')"

fun usb_items :: "string list \<Rightarrow> USBDeviceConfig \<Rightarrow> string list \<Rightarrow> string + USBDeviceConfig" where
  "usb_items seen u [] = Inr u"
| "usb_items seen u (part # parts) =
     (if part = [] then Inl ''contains an empty item''
      else case item_parts seen part of
        Inl e \<Rightarrow> Inl e
      | Inr (key, v) \<Rightarrow>
          (case usb_item key v u of Inl e \<Rightarrow> Inl e | Inr u \<Rightarrow> usb_items (key # seen) u parts))"

definition no_usb :: USBDeviceConfig where
  "no_usb = \<lparr>usb_vendor_id = [], usb_product_id = [], usb_host_bus = 0, usb_host_address = 0\<rparr>"

definition usb_check :: "USBDeviceConfig \<Rightarrow> string option" where
  "usb_check u =
     (if usb_vendor_id u \<noteq> [] \<or> usb_product_id u \<noteq> [] then
        (if usb_vendor_id u = [] \<or> usb_product_id u = [] then Some ''vendor and product must be provided together''
         else if usb_host_bus u \<noteq> 0 \<or> usb_host_address u \<noteq> 0 then Some ''vendor/product cannot be mixed with bus/address''
         else None)
      else if usb_host_bus u \<noteq> 0 \<or> usb_host_address u \<noteq> 0 then
        (if usb_host_bus u = 0 \<or> usb_host_address u = 0 then Some ''bus and address must be provided together'' else None)
      else Some ''selector is required'')"

definition usb_set :: "string \<Rightarrow> USBDeviceConfig list \<Rightarrow> string + USBDeviceConfig list" where
  "usb_set raw v =
     (if raw = [] then Inl ''specification is empty''
      else case usb_items [] no_usb (split_on CHR '','' raw) of
        Inl e \<Rightarrow> Inl e
      | Inr u \<Rightarrow> (case usb_check u of Some e \<Rightarrow> Inl e | None \<Rightarrow> Inr (v @ [u])))"

definition usbDeviceLimit :: "VNCConfig option \<Rightarrow> nat" where
  "usbDeviceLimit vnc = (if vnc \<noteq> None then 2 else 4)"

section \<open>Drives\<close>

record createDrive =
  dr_source :: string
  dr_format :: string
  dr_cache :: string
  dr_read_only :: bool

text \<open>Commas separate items; a doubled comma is one inside an item.\<close>

fun split_items :: "string list \<Rightarrow> string \<Rightarrow> string \<Rightarrow> string + string list" where
  "split_items items current [] = (if current = [] then Inl ''contains an empty item'' else Inr (items @ [current]))"
| "split_items items current (c # s) =
     (if c \<noteq> CHR '','' then split_items items (current @ [c]) s
      else case s of
        d # s' \<Rightarrow>
          if d = CHR '','' then split_items items (current @ '','') s'
          else if current = [] then Inl ''contains an empty item''
          else split_items (items @ [current]) [] s
      | [] \<Rightarrow> if current = [] then Inl ''contains an empty item'' else split_items (items @ [current]) [] [])"

definition splitDriveItems :: "string \<Rightarrow> string + string list" where
  "splitDriveItems raw = (if raw = [] then Inl ''specification is empty'' else split_items [] [] raw)"

definition validDriveCache :: "string \<Rightarrow> bool" where
  "validDriveCache v \<longleftrightarrow> v \<in> {''none'', ''writeback'', ''writethrough'', ''directsync'', ''unsafe''}"

definition drive_item :: "user_env \<Rightarrow> string \<Rightarrow> string \<Rightarrow> createDrive \<Rightarrow> string + createDrive" where
  "drive_item E key v d =
     (if key = ''file'' then (case Abs E v of Inl e \<Rightarrow> Inl e | Inr p \<Rightarrow> Inr (d\<lparr>dr_source := Clean p\<rparr>))
      else if key = ''if'' then (if v \<noteq> ''virtio'' then Inl ''if is invalid'' else Inr d)
      else if key = ''format'' then
        (if v \<noteq> ''raw'' \<and> v \<noteq> ''qcow2'' then Inl ''format is invalid'' else Inr (d\<lparr>dr_format := v\<rparr>))
      else if key = ''cache'' then
        (if \<not> validDriveCache v then Inl ''cache is invalid'' else Inr (d\<lparr>dr_cache := v\<rparr>))
      else if key = ''readonly'' then
        (if v = ''on'' then Inr (d\<lparr>dr_read_only := True\<rparr>)
         else if v = ''off'' then Inr (d\<lparr>dr_read_only := False\<rparr>)
         else Inl ''readonly is invalid'')
      else Inl ''unknown key'')"

fun drive_items :: "user_env \<Rightarrow> string list \<Rightarrow> createDrive \<Rightarrow> string list \<Rightarrow> string + createDrive" where
  "drive_items E seen d [] = Inr d"
| "drive_items E seen d (item # rest) =
     (case item_parts seen item of
        Inl e \<Rightarrow> Inl e
      | Inr (key, v) \<Rightarrow>
          (case drive_item E key v d of Inl e \<Rightarrow> Inl e | Inr d \<Rightarrow> drive_items E (key # seen) d rest))"

definition no_drive :: createDrive where
  "no_drive = \<lparr>dr_source = [], dr_format = [], dr_cache = [], dr_read_only = False\<rparr>"

definition drive_set :: "user_env \<Rightarrow> string \<Rightarrow> createDrive list \<Rightarrow> string + createDrive list" where
  "drive_set E raw v =
     (case splitDriveItems raw of
        Inl e \<Rightarrow> Inl e
      | Inr items \<Rightarrow>
          (case drive_items E [] no_drive items of
             Inl e \<Rightarrow> Inl e
           | Inr d \<Rightarrow> if dr_source d = [] then Inl ''file is required'' else Inr (v @ [d])))"

section \<open>Sizes\<close>

definition MaxUint64 :: nat where "MaxUint64 = 2 ^ 64 - 1"

definition sized_bytes :: "nat \<Rightarrow> string \<Rightarrow> string + nat" where
  "sized_bytes multiplier v =
     (if v = [] \<or> has_prefix v ''+'' \<or> has_prefix v ''-'' then Inl ''must be a whole-number MiB or GiB value''
      else case parse_uint 64 v of
        None \<Rightarrow> Inl ''must be a whole-number MiB or GiB value''
      | Some amount \<Rightarrow>
          if amount = 0 then Inl ''must be greater than zero''
          else if MaxUint64 div multiplier < amount then Inl ''value overflows bytes''
          else Inr (amount * multiplier))"

definition parseSizeBytes :: "string \<Rightarrow> string + nat" where
  "parseSizeBytes v =
     (if has_suffix v ''MiB'' then sized_bytes (1024 * 1024) (trim_suffix v ''MiB'')
      else if has_suffix v ''GiB'' then sized_bytes (1024 * 1024 * 1024) (trim_suffix v ''GiB'')
      else Inl ''must be a whole-number MiB or GiB value'')"

definition parseMiB :: "string \<Rightarrow> string + nat" where
  "parseMiB v =
     (case parseSizeBytes v of
        Inl e \<Rightarrow> Inl e
      | Inr bytes \<Rightarrow>
          let mib = bytes div (1024 * 1024) in
          if 2 ^ 63 - 1 < mib then Inl ''value overflows int'' else Inr mib)"

section \<open>Round trips\<close>

text \<open>How an item is written: each comma doubled.\<close>

fun comma_escape :: "string \<Rightarrow> string" where
  "comma_escape [] = []"
| "comma_escape (c # s) = (if c = CHR '','' then CHR '','' # CHR '','' # comma_escape s else c # comma_escape s)"

lemma split_items_escaped:
  "split_items items cur (comma_escape w @ rest) = split_items items (cur @ w) rest"
  by (induction w arbitrary: cur) auto

lemma comma_escape_Nil [simp]: "comma_escape w = [] \<longleftrightarrow> w = []"
  by (cases w) auto

text \<open>A comma that begins the rest of the text separates, when the next item does not begin with one.\<close>

lemma split_items_next:
  assumes "cur \<noteq> []" and "w \<noteq> []" and "hd w \<noteq> CHR '',''"
  shows "split_items items cur (CHR '','' # comma_escape w @ rest) = split_items (items @ [cur]) w rest"
proof -
  from assms(2,3) obtain c s where w: "w = c # s" "c \<noteq> CHR '',''" by (cases w) auto
  have "split_items items cur (CHR '','' # comma_escape w @ rest) = split_items (items @ [cur]) [] (comma_escape w @ rest)"
    using assms(1) by (simp add: w)
  then show ?thesis by (simp only: split_items_escaped append_Nil)
qed

lemma split_items_rest:
  assumes "cur \<noteq> []" and "\<forall>w \<in> set ws. w \<noteq> [] \<and> hd w \<noteq> CHR '',''"
  shows "split_items items cur (concat (List.map (\<lambda>w. CHR '','' # comma_escape w) ws)) = Inr (items @ cur # ws)"
  using assms
proof (induction ws arbitrary: items cur)
  case (Cons w ws)
  from Cons.prems have w: "w \<noteq> []" "hd w \<noteq> CHR '',''" by auto
  note step = split_items_next [OF Cons.prems(1) w, of items "concat (List.map (\<lambda>w. CHR '','' # comma_escape w) ws)"]
  show ?case
    using Cons.IH [OF w(1), of "items @ [cur]"] Cons.prems(2) by (simp only: list.map concat.simps append_Cons step) simp
qed simp

lemma join_comma: "join_with '','' (w # ws) = w @ concat (List.map (\<lambda>w. CHR '','' # w) ws)"
  by (induction ws arbitrary: w) auto

text \<open>Items that are not empty, the later ones not beginning with a comma, are split as they were joined.\<close>

lemma splitDriveItems_join:
  assumes "w \<noteq> []" and "\<forall>x \<in> set ws. x \<noteq> [] \<and> hd x \<noteq> CHR '',''"
  shows "splitDriveItems (join_with '','' (List.map comma_escape (w # ws))) = Inr (w # ws)"
proof -
  have "join_with '','' (List.map comma_escape (w # ws))
      = comma_escape w @ concat (List.map (\<lambda>x. CHR '','' # comma_escape x) ws)"
    by (simp add: join_comma comp_def)
  then show ?thesis
    using assms split_items_rest [of w ws "[]"]
    by (simp add: splitDriveItems_def split_items_escaped)
qed

text \<open>The \<open>--drive\<close> text of a drive.\<close>

definition drive_texts :: "createDrive \<Rightarrow> string list" where
  "drive_texts d =
     (if dr_format d = [] then [] else [''format='' @ dr_format d])
     @ (if dr_cache d = [] then [] else [''cache='' @ dr_cache d])
     @ [''readonly='' @ (if dr_read_only d then ''on'' else ''off'')]"

definition drive_arg :: "createDrive \<Rightarrow> string" where
  "drive_arg d = join_with '','' (List.map comma_escape ((''file='' @ dr_source d) # drive_texts d))"

text \<open>C33. Every drive can be given with \<open>--drive\<close>, whatever bytes its path has: doubling the commas,
  the text is parsed back to the drive, with its path, format, cache mode and access.\<close>

theorem drive_flag_roundtrip:
  assumes "is_abs_path (dr_source d)" and "Clean (dr_source d) = dr_source d"
    and "dr_format d \<in> {[], ''raw'', ''qcow2''}" and "dr_cache d = [] \<or> validDriveCache (dr_cache d)"
  shows "drive_set E (drive_arg d) v = Inr (v @ [d])"
proof -
  have items: "splitDriveItems (drive_arg d) = Inr ((''file='' @ dr_source d) # drive_texts d)"
    unfolding drive_arg_def by (rule splitDriveItems_join) (auto simp: drive_texts_def)
  have source: "dr_source d \<noteq> []" using assms(1) by (auto simp: is_abs_path_def has_prefix_def)
  obtain src f c r where d: "d = \<lparr>dr_source = src, dr_format = f, dr_cache = c, dr_read_only = r\<rparr>"
    by (cases d)
  have src: "is_abs_path src" "Clean src = src" "src \<noteq> []" using assms(1,2) source by (simp_all add: d)
  have "drive_items E [] no_drive ((''file='' @ src) # drive_texts d) = Inr d"
    using assms(3,4) by (auto simp: d drive_texts_def item_parts_def drive_item_def Abs_def src no_drive_def)
  with items source show ?thesis by (simp add: drive_set_def d)
qed

definition sample_user :: user_env where
  "sample_user =
     \<lparr>ue_file = (\<lambda>_. \<lparr>sf_open = None, sf_stat = None, sf_regular = True, sf_data = ''source'', sf_bad = None\<rparr>),
      ue_stat = (\<lambda>_. Inr \<lparr>si_regular = True, si_dir = False, si_perm = 493\<rparr>),
      ue_look_path = (\<lambda>p. Inr (''/opt/homebrew/bin/'' @ p)), ue_cwd = Inr ''/home/user''\<rparr>"

theorem drive_flag_roundtrip_witness:
  "drive_set sample_user ''file=/data/a,,b.img,format=raw,readonly=on'' [] =
     Inr [\<lparr>dr_source = ''/data/a,b.img'', dr_format = ''raw'', dr_cache = [], dr_read_only = True\<rparr>]"
proof -
  let ?d = "\<lparr>dr_source = ''/data/a,b.img'', dr_format = ''raw'', dr_cache = [], dr_read_only = True\<rparr>"
  have arg: "drive_arg ?d = ''file=/data/a,,b.img,format=raw,readonly=on''" by (simp add: drive_arg_def drive_texts_def)
  have path: "is_abs_path ''/data/a,b.img''" "Clean ''/data/a,b.img'' = ''/data/a,b.img''" by code_simp+
  have "drive_set sample_user (drive_arg ?d) [] = Inr ([] @ [?d])"
    by (rule drive_flag_roundtrip) (simp_all add: path)
  then show ?thesis by (simp add: arg)
qed

text \<open>A selector that was accepted is one the configuration validator accepts, and the size of a value is
  exact and fits 64 bits.\<close>

lemma hex4_lower: "usbIDPattern (hex4 v)"
  by (simp add: usbIDPattern_def hex4_def)

lemma parseSizeBytes_bound: "parseSizeBytes v = Inr n \<Longrightarrow> 0 < n \<and> n \<le> MaxUint64 \<and> n mod (1024 * 1024) = 0"
proof -
  have sized: "sized_bytes m w = Inr n \<Longrightarrow> 0 < m \<Longrightarrow> (\<exists>a. 0 < a \<and> n = a * m) \<and> n \<le> MaxUint64" for m w n
    by (auto simp: sized_bytes_def less_eq_div_iff_mult_less_eq not_less split: if_splits option.splits)
  show "parseSizeBytes v = Inr n \<Longrightarrow> ?thesis"
    by (auto simp: parseSizeBytes_def split: if_splits dest!: sized)
qed

end
