(* ===== verification/CliCreate.thy ===== *)
theory CliCreate
  imports CliConfig CliDrive
begin

text \<open>
  \<open>internal/cli/create.go\<close>, \<open>cloud_init.go\<close> and \<open>image_source.go\<close>: the command \<open>create\<close>, from its
  options to the plan of the machine, and the artifacts that \<open>Store.Create\<close> lets it make inside the new
  directory: firmware copies, installer, cloud-init seed, downloaded image and disk.
\<close>

section \<open>Image sources\<close>

datatype image_compression = ImageUncompressed | ImageXZ | ImageGzip

text \<open>What \<open>url.Parse\<close> gives.\<close>

record url =
  url_scheme :: string
  url_host :: string
  url_opaque :: string
  url_path :: string

record image_source =
  is_local :: string
  is_remote :: "url option"
  is_compression :: image_compression

fun contains_text :: "string \<Rightarrow> string \<Rightarrow> bool" where
  "contains_text sub [] = (sub = [])"
| "contains_text sub (c # s) = (has_prefix (c # s) sub \<or> contains_text sub s)"

text \<open>\<open>filepath.Ext\<close>\<close>

definition file_ext :: "string \<Rightarrow> string" where
  "file_ext p =
     (let k = takeWhile (\<lambda>c. c \<noteq> CHR ''.'' \<and> c \<noteq> CHR ''/'') (rev p); r = drop (length k) (rev p)
      in if r \<noteq> [] \<and> hd r = CHR ''.'' then CHR ''.'' # rev k else [])"

definition parseImageSource :: "(string \<Rightarrow> url option) \<Rightarrow> string \<Rightarrow> string + image_source" where
  "parseImageSource parse raw =
     (if raw = [] then Inr \<lparr>is_local = [], is_remote = None, is_compression = ImageUncompressed\<rparr>
      else if \<not> contains_text ''://'' raw
      then Inr \<lparr>is_local = raw, is_remote = None, is_compression = ImageUncompressed\<rparr>
      else case parse raw of
        None \<Rightarrow> Inl ''invalid image URL''
      | Some u \<Rightarrow>
          let u = u\<lparr>url_scheme := to_lower (url_scheme u)\<rparr> in
          if url_scheme u \<noteq> ''http'' \<and> url_scheme u \<noteq> ''https'' then Inl ''unsupported URL scheme''
          else if url_host u = [] \<or> url_opaque u \<noteq> [] then Inl ''HTTP URL must be absolute and include a host''
          else
            Inr \<lparr>is_local = [], is_remote = Some u,
                 is_compression =
                   (let ext = to_lower (file_ext (url_path u)) in
                    if ext = ''.xz'' then ImageXZ else if ext = ''.gz'' then ImageGzip else ImageUncompressed)\<rparr>)"

text \<open>The exchange of a download: why it failed, or the status, the header \<open>Content-Encoding\<close>, the length
  when it is positive, and the body with the error that ends it (that of the idle guard included).\<close>

record http_response =
  hr_error :: "string option"
  hr_status :: nat
  hr_encoding :: string
  hr_length :: nat
  hr_body :: string
  hr_bad :: "string option"

text \<open>A decompressor over a body: why it cannot start, or what it reads, the read error, and the error
  of its \<open>Close\<close>.\<close>

type_synonym decompressor = "string \<times> string option \<Rightarrow> string + string \<times> string option \<times> string option"

definition decompressedImageReader ::
  "decompressor \<Rightarrow> decompressor \<Rightarrow> image_compression \<Rightarrow> decompressor" where
  "decompressedImageReader xz gz compression input =
     (case compression of
        ImageUncompressed \<Rightarrow> Inr (fst input, snd input, None)
      | ImageXZ \<Rightarrow> (case xz input of Inl e \<Rightarrow> Inl e | Inr (data, bad, _) \<Rightarrow> Inr (data, bad, None))
      | ImageGzip \<Rightarrow> gz input)"

definition check_response :: "http_response \<Rightarrow> string option" where
  "check_response r =
     (case hr_error r of
        Some e \<Rightarrow> Some e
      | None \<Rightarrow>
          if hr_status r < 200 \<or> 300 \<le> hr_status r then Some ''HTTP status''
          else if hr_encoding r \<noteq> [] \<and> to_lower (hr_encoding r) \<noteq> ''identity'' then Some ''unsupported HTTP Content-Encoding''
          else None)"

section \<open>Making files\<close>

text \<open>What a system call on a path reports.\<close>

definition sys_failure :: "sysop \<Rightarrow> string \<Rightarrow> host \<Rightarrow> string option" where
  "sys_failure call p h = (if h_fault h call p then Some ''system call failed'' else None)"

definition create_exclusive :: "string \<Rightarrow> nat \<Rightarrow> host \<Rightarrow> (string, unit) action" where
  "create_exclusive p mode h =
     (case sys_failure SysOpen p h of
        Some e \<Rightarrow> (Inl e, h)
      | None \<Rightarrow>
          if h_fs h p \<noteq> None then (Inl ''file exists'', h)
          else if \<not> is_dir_at h (parent_dir p) then (Inl ''no such file or directory'', h)
          else (Inr (), h\<lparr>h_fs := (h_fs h)(p \<mapsto> File (h_inode h) (h_uid h) mode []), h_inode := Suc (h_inode h)\<rparr>))"

definition with_node :: "string \<Rightarrow> (node \<Rightarrow> node) \<Rightarrow> host \<Rightarrow> host" where
  "with_node p f h = h\<lparr>h_fs := (h_fs h)(p := map_option f (h_fs h p))\<rparr>"

fun set_data :: "string \<Rightarrow> node \<Rightarrow> node" where
  "set_data data (File ino uid mode _) = File ino uid mode data"
| "set_data data n = n"

fun set_mode :: "nat \<Rightarrow> node \<Rightarrow> node" where
  "set_mode mode (File ino uid _ data) = File ino uid mode data"
| "set_mode mode (Dir uid _) = Dir uid mode"
| "set_mode mode (Special uid _) = Special uid mode"
| "set_mode mode (Symlink d) = Symlink d"

text \<open>The steps on a file that was opened, each with why it fails and its effect.\<close>

type_synonym file_step = "(host \<Rightarrow> string option) \<times> (host \<Rightarrow> host)"

fun run_steps :: "file_step list \<Rightarrow> host \<Rightarrow> (string, unit) action" where
  "run_steps [] h = (Inr (), h)"
| "run_steps ((fails, effect) # steps) h = (case fails h of Some e \<Rightarrow> (Inl e, h) | None \<Rightarrow> run_steps steps (effect h))"

definition sys_step :: "sysop \<Rightarrow> string \<Rightarrow> (host \<Rightarrow> host) \<Rightarrow> file_step" where
  "sys_step call p effect = (sys_failure call p, effect)"

definition given_step :: "string option \<Rightarrow> file_step" where
  "given_step e = (\<lambda>_. e, \<lambda>h. h)"

definition discard :: "string \<Rightarrow> host \<Rightarrow> host" where
  "discard p h = (if h_fault h SysRemove p then h else remove_file p h)"

text \<open>A new file, removed again when a step fails.\<close>

definition new_file :: "string \<Rightarrow> nat \<Rightarrow> file_step list \<Rightarrow> host \<Rightarrow> (string, unit) action" where
  "new_file p mode steps h =
     then_do (create_exclusive p mode h) (\<lambda>_ h1.
       case run_steps steps h1 of (Inl e, h2) \<Rightarrow> (Inl e, discard p h2) | r \<Rightarrow> r)"

text \<open>\<open>withByteProgress\<close>: the operation's result, or, when it succeeded, the error of the terminal bar,
  which is drawn only on a terminal and for a known size.\<close>

definition withByteProgress :: "string option \<Rightarrow> nat \<Rightarrow> (string, 'a) action \<Rightarrow> (string, 'a) action" where
  "withByteProgress bar amount r =
     (case r of
        (Inl e, h) \<Rightarrow> (Inl e, h)
      | (Inr x, h) \<Rightarrow> (case bar of Some e \<Rightarrow> if 0 < amount then (Inl e, h) else (Inr x, h) | None \<Rightarrow> (Inr x, h)))"

definition copyRegularFile :: "string option \<Rightarrow> source_file \<Rightarrow> string \<Rightarrow> nat \<Rightarrow> host \<Rightarrow> (string, unit) action" where
  "copyRegularFile bar src p mode h =
     (case requireRegularSource src of
        Some e \<Rightarrow> (Inl e, h)
      | None \<Rightarrow>
          withByteProgress bar (length (sf_data src))
            (new_file p mode
               [given_step (sf_bad src), sys_step SysWrite p (with_node p (set_data (sf_data src))),
                sys_step SysSync p id, sys_step SysClose p id, sys_step SysFchmod p (with_node p (set_mode mode))] h))"

section \<open>The parameters of \<open>create\<close>\<close>

type_synonym external = "string \<Rightarrow> string list \<Rightarrow> host \<Rightarrow> string option \<times> host"

record create_env =
  cn_user :: user_env
  cn_app :: app_env
  cn_firmware :: "string \<times> string"
  cn_smbd :: "string option"
  cn_machine :: "string \<Rightarrow> string + string"
  cn_id :: "nat \<Rightarrow> u8 list option"
  cn_uuid :: "nat \<Rightarrow> u8 list option"
  cn_mac :: "nat \<Rightarrow> u8 list option"
  cn_provision :: "(string \<Rightarrow> string \<Rightarrow> string + SocketVMNetConfig) option"
  cn_external :: external
  cn_url :: "string \<Rightarrow> url option"
  cn_http :: "url \<Rightarrow> http_response"
  cn_xz :: decompressor
  cn_gzip :: decompressor
  cn_bar :: "string option"
  cn_fraction :: fraction

section \<open>Options\<close>

record vnc_options =
  vo_enabled :: bool
  vo_password :: string
  vo_bind :: string
  vo_port :: string
  vo_port_to :: string
  vo_keyboard :: string

record create_options =
  co_cpus :: int
  co_memory :: string
  co_disk_size :: string
  co_image :: string
  co_iso :: string
  co_user_data :: string
  co_qemu :: string
  co_qemu_img :: string
  co_fw_code :: string
  co_fw_vars :: string
  co_restart :: string
  co_timeout :: string
  co_network :: string
  co_mac :: string
  co_guest_agent :: string
  co_metrics :: string
  co_interface :: string
  co_rtc :: string
  co_vnc :: vnc_options
  co_forwards :: "PortForward list"
  co_usbs :: "USBDeviceConfig list"
  co_drives :: "createDrive list"
  co_share :: "string option"

definition default_options :: "string \<times> string \<Rightarrow> create_options" where
  "default_options fw =
     \<lparr>co_cpus = 2, co_memory = ''2GiB'', co_disk_size = ''32GiB'', co_image = [], co_iso = [], co_user_data = [],
      co_qemu = ''qemu-system-aarch64'', co_qemu_img = ''qemu-img'', co_fw_code = fst fw, co_fw_vars = snd fw,
      co_restart = RestartNever, co_timeout = ''180s'', co_network = NetworkUser, co_mac = [], co_guest_agent = ''off'',
      co_metrics = [], co_interface = [], co_rtc = ''utc'',
      co_vnc = \<lparr>vo_enabled = False, vo_password = [], vo_bind = ''127.0.0.1'', vo_port = ''5900'', vo_port_to = ''5999'',
                vo_keyboard = []\<rparr>,
      co_forwards = [], co_usbs = [], co_drives = [], co_share = None\<rparr>"

definition string_flag :: "string \<Rightarrow> (string \<Rightarrow> 's \<Rightarrow> 's) \<Rightarrow> 's flag" where
  "string_flag name f = mk_flag name (\<lambda>raw st. Inr (f raw st))"

definition int_flag :: "string \<Rightarrow> (int \<Rightarrow> 's \<Rightarrow> 's) \<Rightarrow> 's flag" where
  "int_flag name f = mk_flag name (\<lambda>raw st. case ParseInt0 raw of None \<Rightarrow> Inl ''parse error'' | Some i \<Rightarrow> Inr (f i st))"

definition vnc_option :: "(vnc_options \<Rightarrow> vnc_options) \<Rightarrow> create_options \<Rightarrow> create_options" where
  "vnc_option f st = st\<lparr>co_vnc := f (co_vnc st)\<rparr>"

definition create_flags :: "user_env \<Rightarrow> create_options flag list" where
  "create_flags E =
     [int_flag ''cpus'' (\<lambda>x st. st\<lparr>co_cpus := x\<rparr>),
      string_flag ''memory'' (\<lambda>x st. st\<lparr>co_memory := x\<rparr>),
      string_flag ''disk-size'' (\<lambda>x st. st\<lparr>co_disk_size := x\<rparr>),
      string_flag ''image'' (\<lambda>x st. st\<lparr>co_image := x\<rparr>),
      string_flag ''iso'' (\<lambda>x st. st\<lparr>co_iso := x\<rparr>),
      string_flag ''cloud-init-user-data'' (\<lambda>x st. st\<lparr>co_user_data := x\<rparr>),
      string_flag ''qemu'' (\<lambda>x st. st\<lparr>co_qemu := x\<rparr>),
      string_flag ''qemu-img'' (\<lambda>x st. st\<lparr>co_qemu_img := x\<rparr>),
      string_flag ''firmware-code'' (\<lambda>x st. st\<lparr>co_fw_code := x\<rparr>),
      string_flag ''firmware-vars'' (\<lambda>x st. st\<lparr>co_fw_vars := x\<rparr>),
      string_flag ''restart-policy'' (\<lambda>x st. st\<lparr>co_restart := x\<rparr>),
      string_flag ''shutdown-timeout'' (\<lambda>x st. st\<lparr>co_timeout := x\<rparr>),
      string_flag ''network'' (\<lambda>x st. st\<lparr>co_network := x\<rparr>),
      string_flag ''mac'' (\<lambda>x st. st\<lparr>co_mac := x\<rparr>),
      string_flag ''guest-agent'' (\<lambda>x st. st\<lparr>co_guest_agent := x\<rparr>),
      string_flag ''metrics-port'' (\<lambda>x st. st\<lparr>co_metrics := x\<rparr>),
      string_flag ''socket-vmnet-interface'' (\<lambda>x st. st\<lparr>co_interface := x\<rparr>),
      string_flag ''rtc-base'' (\<lambda>x st. st\<lparr>co_rtc := x\<rparr>),
      bool_flag ''vnc'' (\<lambda>b. vnc_option (\<lambda>v. v\<lparr>vo_enabled := b\<rparr>)),
      string_flag ''vnc-password'' (\<lambda>x. vnc_option (\<lambda>v. v\<lparr>vo_password := x\<rparr>)),
      string_flag ''vnc-bind'' (\<lambda>x. vnc_option (\<lambda>v. v\<lparr>vo_bind := x\<rparr>)),
      string_flag ''vnc-port'' (\<lambda>x. vnc_option (\<lambda>v. v\<lparr>vo_port := x\<rparr>)),
      string_flag ''vnc-port-to'' (\<lambda>x. vnc_option (\<lambda>v. v\<lparr>vo_port_to := x\<rparr>)),
      string_flag ''keyboard-layout'' (\<lambda>x. vnc_option (\<lambda>v. v\<lparr>vo_keyboard := x\<rparr>)),
      mk_flag ''forward'' (\<lambda>raw st. case forward_set raw (co_forwards st) of
        Inl e \<Rightarrow> Inl e | Inr x \<Rightarrow> Inr (st\<lparr>co_forwards := x\<rparr>)),
      mk_flag ''usb'' (\<lambda>raw st. case usb_set raw (co_usbs st) of
        Inl e \<Rightarrow> Inl e | Inr x \<Rightarrow> Inr (st\<lparr>co_usbs := x\<rparr>)),
      mk_flag ''drive'' (\<lambda>raw st. case drive_set E raw (co_drives st) of
        Inl e \<Rightarrow> Inl e | Inr x \<Rightarrow> Inr (st\<lparr>co_drives := x\<rparr>)),
      mk_flag ''share'' (\<lambda>raw st. case share_set E raw (co_share st) of
        Inl e \<Rightarrow> Inl e | Inr x \<Rightarrow> Inr (st\<lparr>co_share := x\<rparr>))]"

datatype create_error =
    CreateFlags flag_error | CreateUsage string | CreateFailed string | CreateSocket usage_error
  | CreateInvalid config_error | CreateStore store_error | CreateGuidance string

definition on_err :: "('e \<Rightarrow> 'f) \<Rightarrow> 'e + 'a \<Rightarrow> 'f + 'a" where
  "on_err f r = (case r of Inl e \<Rightarrow> Inl (f e) | Inr x \<Rightarrow> Inr x)"

definition checkE :: "'e option \<Rightarrow> 'e + unit" where
  "checkE r = (case r of Some e \<Rightarrow> Inl e | None \<Rightarrow> Inr ())"

definition usage :: "string \<Rightarrow> string + 'a \<Rightarrow> create_error + 'a" where
  "usage label = on_err (\<lambda>e. CreateUsage (label @ e))"

definition failing :: "string \<Rightarrow> string + 'a \<Rightarrow> create_error + 'a" where
  "failing label = on_err (\<lambda>e. CreateFailed (label @ e))"

definition early_checks :: "create_options \<Rightarrow> string list \<Rightarrow> string list \<Rightarrow> create_error option" where
  "early_checks opts seen rest = first_error
     [guard (''cloud-init-user-data'' \<in> set seen \<and> co_user_data opts = [])
        (CreateUsage ''--cloud-init-user-data must not be empty''),
      guard ((''firmware-code'' \<in> set seen) \<noteq> (''firmware-vars'' \<in> set seen))
        (CreateUsage ''--firmware-code and --firmware-vars must be provided together''),
      guard (rest \<noteq> []) (CreateUsage ''unexpected arguments''),
      guard (co_restart opts \<noteq> RestartNever \<and> co_restart opts \<noteq> RestartOnFailure)
        (CreateUsage ''--restart-policy is invalid'')]"

definition create_metrics :: "string \<Rightarrow> string + MetricsConfig option" where
  "create_metrics raw =
     (if raw = [] then Inr None
      else case parsePort raw of
        Inl e \<Rightarrow> Inl ''must be between 1024 and 65535''
      | Inr port \<Rightarrow> if port < 1024 then Inl ''must be between 1024 and 65535'' else Inr (Some \<lparr>met_port = port\<rparr>))"

definition combination_checks :: "create_options \<Rightarrow> string list \<Rightarrow> network_mode \<Rightarrow> create_error option" where
  "combination_checks opts seen mode =
     (let v = co_vnc opts;
          detail = (\<exists>n \<in> {''vnc-password'', ''vnc-bind'', ''vnc-port'', ''vnc-port-to'', ''keyboard-layout''}. n \<in> set seen)
      in first_error
     [guard (\<not> vo_enabled v \<and> detail) (CreateUsage ''the VNC options require --vnc''),
      guard (vo_enabled v \<and> vo_password v = []) (CreateUsage ''--vnc-password is required when --vnc is set''),
      guard (co_fw_code opts = [] \<or> co_fw_vars opts = []) (CreateUsage ''--firmware-code and --firmware-vars are required''),
      guard (mode = NetworkUser \<and> co_interface opts \<noteq> []) (CreateUsage ''--socket-vmnet-interface requires --network socket_vmnet''),
      guard (mode = NetworkSocketVMNet \<and> co_forwards opts \<noteq> []) (CreateUsage ''--forward is incompatible with socket_vmnet''),
      guard (mode = NetworkSocketVMNet \<and> co_share opts \<noteq> None) (CreateUsage ''--share is incompatible with socket_vmnet'')])"

definition create_vnc :: "vnc_options \<Rightarrow> string list \<Rightarrow> create_error + VNCConfig option" where
  "create_vnc v seen =
     (if \<not> vo_enabled v then Inr None
      else
        bindE (usage ''--vnc-port: '' (parsePort (vo_port v))) (\<lambda>port.
        bindE (usage ''--vnc-port-to: '' (parsePort (vo_port_to v))) (\<lambda>to.
        bindE (if ''keyboard-layout'' \<in> set seen then usage ''--keyboard-layout: '' (parseKeyboardLayout (vo_keyboard v))
               else Inr ''en-us'') (\<lambda>layout.
        Inr (Some \<lparr>vnc_bind = vo_bind v, vnc_port = port, vnc_port_to = to, vnc_password = vo_password v,
                   vnc_keyboard_layout = layout\<rparr>)))))"

fun resolve_drives :: "user_env \<Rightarrow> createDrive list \<Rightarrow> create_error + createDrive list" where
  "resolve_drives E [] = Inr []"
| "resolve_drives E (d # ds) =
     bindE (failing ''--drive: ''
        (if dr_format d = [] then detectDriveFormat (ue_file E (dr_source d))
         else bindE (checkE (requireRegularSource (ue_file E (dr_source d)))) (\<lambda>_. Inr (dr_format d)))) (\<lambda>format.
     bindE (resolve_drives E ds) (\<lambda>ds. Inr (d\<lparr>dr_format := format\<rparr> # ds)))"

definition check_share :: "create_env \<Rightarrow> string option \<Rightarrow> create_error + unit" where
  "check_share N share =
     (case share of
        None \<Rightarrow> Inr ()
      | Some p \<Rightarrow>
          bindE (failing ''--share: '' (checkE (requireSharedDirectory (cn_user N) p))) (\<lambda>_.
          failing ''--share: '' (checkE (cn_smbd N))))"

definition generated :: "'a option \<Rightarrow> create_error + 'a" where
  "generated r = (case r of None \<Rightarrow> Inl (CreateFailed ''random source'') | Some x \<Rightarrow> Inr x)"

definition create_network :: "create_env \<Rightarrow> create_options \<Rightarrow> network_mode \<Rightarrow> string \<Rightarrow> create_error + NetworkConfig" where
  "create_network N opts mode mac =
     (let n = \<lparr>net_mode = mode, net_mac = mac, net_forwards = [], net_socket_vmnet = None, net_smb_folder = []\<rparr> in
      if mode = NetworkUser then
        Inr (n\<lparr>net_forwards := co_forwards opts,
               net_smb_folder := (case co_share opts of None \<Rightarrow> [] | Some p \<Rightarrow> p)\<rparr>)
      else if mode = NetworkSocketVMNet then
        (let interface = (if co_interface opts = [] then ''shared'' else co_interface opts) in
         bindE (on_err CreateSocket (resolveSocketVMNet (cn_app N) interface)) (\<lambda>s.
         bindE
           (if interface \<noteq> ''shared'' then
              (case cn_provision N of
                 None \<Rightarrow> Inl (CreateFailed ''socket_vmnet: bridge provisioner is unavailable'')
               | Some provision \<Rightarrow> failing [] (provision (svm_client_path s) interface))
            else Inr s) (\<lambda>s.
         Inr (n\<lparr>net_socket_vmnet := Some s\<rparr>))))
      else Inr n)"

section \<open>The plan of a machine\<close>

record create_plan =
  cp_config :: Config
  cp_options :: create_options
  cp_disk_bytes :: nat
  cp_image :: image_source
  cp_qemu_img :: string

definition cloudInitSeedFilename :: string where "cloudInitSeedFilename = ''cloud-init.iso''"

fun extra_disks :: "string \<Rightarrow> int \<Rightarrow> nat \<Rightarrow> createDrive list \<Rightarrow> DiskConfig list" where
  "extra_disks i primary k [] = []"
| "extra_disks i primary k (d # ds) =
     \<lparr>disk_path = dr_source d, disk_format = dr_format d,
      disk_serial = ''disk-'' @ take 12 i @ ''-'' @ itoa (k + 1), disk_boot_index = primary + int k + 1,
      disk_read_only = dr_read_only d, disk_cache = dr_cache d\<rparr> # extra_disks i primary (Suc k) ds"

definition create_disks :: "string \<Rightarrow> create_options \<Rightarrow> createDrive list \<Rightarrow> DiskConfig list" where
  "create_disks i opts drives =
     (let primary = (if co_iso opts \<noteq> [] then 1 else 0) in
      \<lparr>disk_path = ''disk.qcow2'', disk_format = ''qcow2'', disk_serial = ''disk-'' @ take 16 i,
       disk_boot_index = primary, disk_read_only = False, disk_cache = []\<rparr>
      # extra_disks i primary 0 drives
      @ (if co_user_data opts \<noteq> [] then
           [\<lparr>disk_path = cloudInitSeedFilename, disk_format = ''raw'', disk_serial = ''cloud-init-'' @ take 16 i,
             disk_boot_index = primary + int (length drives) + 1, disk_read_only = True, disk_cache = []\<rparr>]
         else []))"

definition plan_create :: "create_env \<Rightarrow> string \<Rightarrow> create_options \<Rightarrow> string list \<Rightarrow> string list \<Rightarrow> create_error + create_plan" where
  "plan_create N name opts seen rest =
     (let E = cn_user N in
      bindE (checkE (early_checks opts seen rest)) (\<lambda>_.
      bindE (usage ''--memory: '' (parseMiB (co_memory opts))) (\<lambda>memory.
      bindE (usage ''--disk-size: '' (parseSizeBytes (co_disk_size opts))) (\<lambda>bytes.
      bindE (usage ''--shutdown-timeout: '' (parseWholeSeconds (cn_fraction N) (co_timeout opts))) (\<lambda>timeout.
      bindE (usage ''--network: '' (parseNetworkMode (co_network opts))) (\<lambda>mode.
      bindE (usage ''--guest-agent: '' (parseOnOff (co_guest_agent opts))) (\<lambda>agent.
      bindE (usage ''--metrics-port: '' (create_metrics (co_metrics opts))) (\<lambda>metrics.
      bindE (usage ''--rtc-base: '' (parseRTCBase (co_rtc opts))) (\<lambda>rtc.
      bindE (checkE (combination_checks opts seen mode)) (\<lambda>_.
      bindE (usage ''--image: '' (parseImageSource (cn_url N) (co_image opts))) (\<lambda>image.
      bindE (if co_user_data opts = [] then Inr ()
             else failing ''--cloud-init-user-data: '' (checkE (requireRegularSource (ue_file E (co_user_data opts))))) (\<lambda>_.
      bindE (create_vnc (co_vnc opts) seen) (\<lambda>vnc.
      bindE (checkE (guard (usbDeviceLimit vnc < length (co_usbs opts)) (CreateUsage ''--usb supports fewer devices''))) (\<lambda>_.
      bindE (resolve_drives E (co_drives opts)) (\<lambda>drives.
      bindE (check_share N (co_share opts)) (\<lambda>_.
      bindE (failing ''qemu: '' (resolveExecutable E (co_qemu opts))) (\<lambda>qemu.
      bindE (failing ''qemu: '' (resolveExecutable E (co_qemu_img opts))) (\<lambda>qemu_img.
      bindE (failing [] (cn_machine N qemu)) (\<lambda>machine.
      bindE (generated (GenerateID (cn_id N))) (\<lambda>i.
      bindE (generated (GenerateUUIDv4 (cn_uuid N))) (\<lambda>uuid.
      bindE (if co_mac opts = [] then generated (GenerateMAC (cn_mac N)) else Inr (co_mac opts)) (\<lambda>mac.
      bindE (create_network N opts mode mac) (\<lambda>network.
      let config =
        \<lparr>cfg_schema_version = SchemaVersion, cfg_id = i, cfg_name = name, cfg_backend = BackendQEMU,
         cfg_architecture = ''aarch64'', cfg_uuid = uuid, cfg_cpus = co_cpus opts, cfg_memory_mib = int memory,
         cfg_restart_policy = co_restart opts, cfg_shutdown_timeout_seconds = timeout,
         cfg_firmware = \<lparr>fw_code = ''firmware-code.fd'', fw_variables = ''firmware-vars.fd''\<rparr>,
         cfg_installer = (if co_iso opts \<noteq> [] then Some \<lparr>inst_path = ''installer.iso'', inst_boot_index = 0\<rparr> else None),
         cfg_disks = create_disks i opts drives, cfg_network = network, cfg_guest_agent_enabled = agent,
         cfg_vnc = vnc, cfg_metrics = metrics, cfg_usb = co_usbs opts,
         cfg_qemu = \<lparr>qemu_binary = qemu, qemu_image_tool = qemu_img, qemu_machine = machine, qemu_rtc_base = rtc,
                     qemu_extra_args = []\<rparr>,
         cfg_autostart_scope = AutostartNone\<rparr>
      in bindE (checkE (map_option CreateInvalid (Validate config))) (\<lambda>_.
         Inr \<lparr>cp_config = config, cp_options = opts, cp_disk_bytes = bytes, cp_image = image, cp_qemu_img = qemu_img\<rparr>))))))))))))))))))))))))"

section \<open>Artifacts\<close>

text \<open>A step that only reports an error, as the artifacts do.\<close>

definition run_tool :: "create_env \<Rightarrow> string \<Rightarrow> string list \<Rightarrow> host \<Rightarrow> (string, unit) action" where
  "run_tool N path args h = (case cn_external N path args h of (Some e, h1) \<Rightarrow> (Inl e, h1) | (None, h1) \<Rightarrow> (Inr (), h1))"

definition chmod_path :: "string \<Rightarrow> nat \<Rightarrow> host \<Rightarrow> (string, unit) action" where
  "chmod_path p mode h =
     (case sys_failure SysFchmod p h of
        Some e \<Rightarrow> (Inl e, h)
      | None \<Rightarrow> if h_fs h p = None then (Inl ''no such file or directory'', h) else (Inr (), with_node p (set_mode mode) h))"

text \<open>\<open>os.WriteFile\<close> into the new staging directory.\<close>

definition write_file :: "string \<Rightarrow> nat \<Rightarrow> string \<Rightarrow> host \<Rightarrow> (string, unit) action" where
  "write_file p mode data h =
     then_do (create_exclusive p mode h) (\<lambda>_ h.
       run_steps [sys_step SysWrite p (with_node p (set_data data)), sys_step SysClose p id] h)"

definition hdiutilPath :: string where "hdiutilPath = ''/usr/bin/hdiutil''"

definition seed_steps :: "create_env \<Rightarrow> string \<Rightarrow> string \<Rightarrow> string \<Rightarrow> string \<Rightarrow> host \<Rightarrow> (string, unit) action" where
  "seed_steps N user_data dest uuid staging h =
     then_do (copyRegularFile (cn_bar N) (ue_file (cn_user N) user_data) (join_path staging ''user-data'') mode_file h) (\<lambda>_ h.
     then_do (write_file (join_path staging ''meta-data'') mode_file
                (''{\"instance-id\":\"'' @ uuid @ ''\"}'' @ [newline]) h) (\<lambda>_ h.
     then_do (run_tool N hdiutilPath
                [''makehybrid'', ''-o'', dest, staging, ''-iso'', ''-joliet'', ''-default-volume-name'', ''cidata''] h) (\<lambda>_ h.
     chmod_path dest 256 h)))"

text \<open>The staging directory of \<open>MkdirTemp\<close> has a fresh name, and is removed whatever happened.\<close>

definition createCloudInitSeed :: "create_env \<Rightarrow> string \<Rightarrow> string \<Rightarrow> string \<Rightarrow> host \<Rightarrow> (string, unit) action" where
  "createCloudInitSeed N user_data dest uuid h =
     (let staging = join_path (parent_dir dest) (''.cloud-init-'' @ itoa (h_inode h)) in
      case mkdir h staging of
        (Inl _, h1) \<Rightarrow> (Inl ''create staging directory'', h1)
      | (Inr _, h1) \<Rightarrow>
          (case seed_steps N user_data dest uuid staging h1 of
             (r, h2) \<Rightarrow>
               (case remove_all h2 staging of
                  (Inl _, h3) \<Rightarrow> (Inl (case r of Inl e \<Rightarrow> e | Inr _ \<Rightarrow> ''remove staging directory''), h3)
                | (Inr _, h3) \<Rightarrow> (r, h3))))"

definition downloadedImageFilename :: string where "downloadedImageFilename = ''.image-source''"

definition download :: "create_env \<Rightarrow> http_response \<Rightarrow> image_compression \<Rightarrow> string \<Rightarrow> host \<Rightarrow> (string, unit) action" where
  "download N r compression dest h =
     (case decompressedImageReader (cn_xz N) (cn_gzip N) compression (hr_body r, hr_bad r) of
        Inl e \<Rightarrow> (Inl e, h)
      | Inr (data, bad, closing) \<Rightarrow>
          new_file dest mode_file
            [sys_step SysFchmod dest (with_node dest (set_mode mode_file)), given_step bad,
             sys_step SysWrite dest (with_node dest (set_data data)), given_step closing,
             sys_step SysSync dest id, sys_step SysClose dest id] h)"

text \<open>The path of the image to convert, and whether it is a download to remove afterwards.\<close>

definition materializeImage :: "create_env \<Rightarrow> image_source \<Rightarrow> string \<Rightarrow> host \<Rightarrow> (string, string \<times> bool) action" where
  "materializeImage N src dir h =
     (case is_remote src of
        None \<Rightarrow>
          (case requireRegularSource (ue_file (cn_user N) (is_local src)) of
             Some e \<Rightarrow> (Inl e, h)
           | None \<Rightarrow> (Inr (is_local src, False), h))
      | Some u \<Rightarrow>
          (let r = cn_http N u; dest = join_path dir downloadedImageFilename in
           case check_response r of
             Some e \<Rightarrow> (Inl e, h)
           | None \<Rightarrow>
               then_do (withByteProgress (cn_bar N) (hr_length r) (download N r (is_compression src) dest h)) (\<lambda>_ h.
                 (Inr (dest, True), h))))"

definition disk_file :: "host \<Rightarrow> string \<Rightarrow> source_file" where
  "disk_file h p =
     (case h_fs h p of
        Some (File _ _ _ data) \<Rightarrow>
          \<lparr>sf_open = sys_failure SysOpen p h, sf_stat = None, sf_regular = True, sf_data = data,
           sf_bad = sys_failure SysRead p h\<rparr>
      | _ \<Rightarrow> \<lparr>sf_open = Some ''not a file'', sf_stat = None, sf_regular = False, sf_data = [], sf_bad = None\<rparr>)"

definition convert_image :: "create_env \<Rightarrow> create_plan \<Rightarrow> string \<Rightarrow> string \<Rightarrow> bool \<Rightarrow> host \<Rightarrow> (string, unit) action" where
  "convert_image N pl disk source temporary h =
     (case run_tool N (cp_qemu_img pl) [''convert'', ''-O'', ''qcow2'', source, disk] h of
        (r, h1) \<Rightarrow>
          if temporary then
            (case sys_failure SysRemove source h1 of
               Some e \<Rightarrow> (Inl (case r of Inl c \<Rightarrow> c | Inr _ \<Rightarrow> e), h1)
             | None \<Rightarrow>
                 if h_fs h1 source = None then (Inl (case r of Inl c \<Rightarrow> c | Inr _ \<Rightarrow> ''no such file or directory''), h1)
                 else (r, remove_file source h1))
          else (r, h1))"

definition image_disk :: "create_env \<Rightarrow> create_plan \<Rightarrow> string \<Rightarrow> string \<Rightarrow> host \<Rightarrow> (string, unit) action" where
  "image_disk N pl dir disk h =
     then_do (materializeImage N (cp_image pl) dir h) (\<lambda>(source, temporary) h.
     then_do (convert_image N pl disk source temporary h) (\<lambda>_ h.
     then_do (chmod_path disk mode_file h) (\<lambda>_ h.
       case qcow2VirtualSize (disk_file h disk) of
         Inl e \<Rightarrow> (Inl e, h)
       | Inr n \<Rightarrow>
           if n < cp_disk_bytes pl then run_tool N (cp_qemu_img pl) [''resize'', disk, itoa (cp_disk_bytes pl)] h
           else (Inr (), h))))"

definition blank_disk :: "create_env \<Rightarrow> create_plan \<Rightarrow> string \<Rightarrow> host \<Rightarrow> (string, unit) action" where
  "blank_disk N pl disk h =
     then_do (run_tool N (cp_qemu_img pl) [''create'', ''-f'', ''qcow2'', disk, itoa (cp_disk_bytes pl)] h) (\<lambda>_ h.
     chmod_path disk mode_file h)"

text \<open>What is made after the copies: the seed and the disk.\<close>

definition later_artifacts :: "create_env \<Rightarrow> create_plan \<Rightarrow> string \<Rightarrow> host \<Rightarrow> (string, unit) action" where
  "later_artifacts N pl dir h =
     (let opts = cp_options pl; disk = join_path dir ''disk.qcow2'' in
      then_do (if co_user_data opts \<noteq> []
               then createCloudInitSeed N (co_user_data opts) (join_path dir cloudInitSeedFilename) (cfg_uuid (cp_config pl)) h
               else (Inr (), h)) (\<lambda>_ h.
      if co_image opts = [] then blank_disk N pl disk h else image_disk N pl dir disk h))"

text \<open>What \<open>Store.Create\<close> runs once the directories are there.\<close>

definition create_artifacts :: "create_env \<Rightarrow> create_plan \<Rightarrow> string \<Rightarrow> host \<Rightarrow> (string, unit) action" where
  "create_artifacts N pl dir h =
     (let opts = cp_options pl;
          copy = (\<lambda>src name mode. copyRegularFile (cn_bar N) (ue_file (cn_user N) src) (join_path dir name) mode) in
      then_do (copy (co_fw_code opts) ''firmware-code.fd'' 256 h) (\<lambda>_ h.
      then_do (copy (co_fw_vars opts) ''firmware-vars.fd'' mode_file h) (\<lambda>_ h.
      then_do (if co_iso opts \<noteq> [] then copy (co_iso opts) ''installer.iso'' 256 h else (Inr (), h)) (\<lambda>_ h.
      later_artifacts N pl dir h))))"

definition plan_artifacts :: "create_env \<Rightarrow> create_plan \<Rightarrow> artifacts" where
  "plan_artifacts N pl _ paths h =
     (case create_artifacts N pl (p_vm_dir paths) h of (Inl e, h1) \<Rightarrow> (Some e, h1) | (Inr _, h1) \<Rightarrow> (None, h1))"

text \<open>Up to the created machine: the guidance on the shared folder follows in \<open>create_command\<close>.\<close>

definition runCreate :: "Store \<Rightarrow> library \<Rightarrow> create_env \<Rightarrow> string \<Rightarrow> string list \<Rightarrow> host \<Rightarrow> (create_error, create_plan) action" where
  "runCreate s L N name args h =
     (case parse_flags (create_flags (cn_user N)) (default_options (cn_firmware N)) [] args of
        Inl e \<Rightarrow> (Inl (CreateFlags e), h)
      | Inr (opts, seen, rest) \<Rightarrow>
          (case plan_create N name opts seen rest of
             Inl e \<Rightarrow> (Inl e, h)
           | Inr pl \<Rightarrow>
               then_do (wrap_err CreateStore (Create s L (Some (plan_artifacts N pl)) (cp_config pl) h)) (\<lambda>_ h.
                 (Inr pl, h))))"

definition smb_guidance :: "string \<Rightarrow> string" where
  "smb_guidance folder =
     ''SMB host folder: '' @ folder @ [newline]
     @ ''Linux guest mount: sudo mount -t cifs //10.0.2.4/qemu /mnt/share -o username=guest'' @ [newline]"

text \<open>The whole command: its error and what it prints. When the guidance cannot be printed that is the
  error, of a machine that exists by then; \<open>out_err\<close> is the error of the output.\<close>

definition create_command ::
  "Store \<Rightarrow> library \<Rightarrow> create_env \<Rightarrow> string \<Rightarrow> string list \<Rightarrow> string option \<Rightarrow> host \<Rightarrow> (create_error + string) \<times> host" where
  "create_command s L N name args out_err h =
     (case runCreate s L N name args h of
        (Inl e, h') \<Rightarrow> (Inl e, h')
      | (Inr pl, h') \<Rightarrow>
          let folder = net_smb_folder (cfg_network (cp_config pl))
          in (if folder = [] then Inr []
              else case out_err of Some e \<Rightarrow> Inl (CreateGuidance e) | None \<Rightarrow> Inr (smb_guidance folder), h'))"

section \<open>Where the artifacts are made\<close>

lemma with_node_frame: "frame ((=) p) h (with_node p f h)"
  by (simp add: frame_def with_node_def)

lemma create_exclusive_frame: "frame ((=) p) h (snd (create_exclusive p mode h))"
  by (auto simp: create_exclusive_def frame_def split: option.split)

lemma discard_frame: "frame ((=) p) h (discard p h)"
  by (auto simp: discard_def remove_file_def frame_def)

lemma run_steps_frame:
  "(\<And>fails effect g. (fails, effect) \<in> set steps \<Longrightarrow> frame P g (effect g)) \<Longrightarrow> frame P h (snd (run_steps steps h))"
proof (induction steps arbitrary: h)
  case (Cons step steps)
  obtain fails effect where step: "step = (fails, effect)" by (cases step)
  have "frame P h (effect h)" using Cons.prems [of fails effect] by (simp add: step)
  moreover have "frame P (effect h) (snd (run_steps steps (effect h)))"
    using Cons.prems by (intro Cons.IH) auto
  ultimately show ?case by (auto simp: step intro: frame_trans split: option.split)
qed simp

lemma new_file_frame:
  assumes "\<And>fails effect g. (fails, effect) \<in> set steps \<Longrightarrow> frame ((=) p) g (effect g)"
  shows "frame ((=) p) h (snd (new_file p mode steps h))"
proof -
  have "frame ((=) p) g (snd (case run_steps steps g of (Inl e, h2) \<Rightarrow> (Inl e, discard p h2) | r \<Rightarrow> r))" for g
  proof -
    have "frame ((=) p) g (snd (run_steps steps g))" by (rule run_steps_frame) (rule assms)
    then show ?thesis by (auto intro: frame_trans [OF _ discard_frame] split: prod.split sum.split)
  qed
  then show ?thesis
    unfolding new_file_def by (intro then_do_rel [where Q = "frame ((=) p)"] create_exclusive_frame) (auto intro: frame_trans)
qed

lemma progress_snd [simp]: "snd (withByteProgress bar n r) = snd r"
  by (auto simp: withByteProgress_def split: prod.split sum.split option.split)

lemma progress_ok: "withByteProgress bar n r = (Inr x, h) \<Longrightarrow> r = (Inr x, h)"
  by (auto simp: withByteProgress_def split: prod.splits sum.splits option.splits if_splits)

lemma file_steps_frame:
  "frame ((=) p) g (snd (sys_step call p (with_node p f)) g)" "frame ((=) p) g (snd (sys_step call p id) g)"
  "frame ((=) p) g (snd (given_step e) g)"
  by (simp_all add: sys_step_def given_step_def with_node_frame)

lemma copy_frame: "frame ((=) p) h (snd (copyRegularFile bar src p mode h))"
  by (auto simp: copyRegularFile_def sys_step_def given_step_def with_node_frame intro!: new_file_frame split: option.split)

lemma chmod_frame: "frame ((=) p) h (snd (chmod_path p mode h))"
  by (auto simp: chmod_path_def with_node_frame split: option.split)

lemma write_file_frame: "frame ((=) p) h (snd (write_file p mode data h))"
  unfolding write_file_def
  by (rule then_do_rel [where Q = "frame ((=) p)"])
    (auto simp: create_exclusive_frame sys_step_def with_node_frame simp del: run_steps.simps
      intro!: run_steps_frame intro: frame_trans)

text \<open>A copy that succeeded is the source, under the mode that was asked for.\<close>

lemma copy_ok:
  assumes "copyRegularFile bar src p mode h = (Inr (), h')"
  shows "\<exists>ino. h_fs h' p = Some (File ino (h_uid h) mode (sf_data src))" and "requireRegularSource src = None"
    and "sf_bad src = None"
  using assms
  by (auto simp: copyRegularFile_def new_file_def then_do_Inr create_exclusive_def sys_step_def given_step_def with_node_def
      dest!: progress_ok split: option.splits if_splits prod.splits sum.splits)

text \<open>The tools write inside the directory of the machine, and leave the files that were copied there.\<close>

definition copied_files :: "string \<Rightarrow> string set" where
  "copied_files dir = {join_path dir ''firmware-code.fd'', join_path dir ''firmware-vars.fd'', join_path dir ''installer.iso''}"

definition inside :: "string \<Rightarrow> string \<Rightarrow> bool" where
  "inside dir q \<longleftrightarrow> under dir q \<and> q \<noteq> dir"

definition tool_area :: "string \<Rightarrow> string \<Rightarrow> bool" where
  "tool_area dir q \<longleftrightarrow> inside dir q \<and> q \<notin> copied_files dir"

definition tools_stay :: "create_env \<Rightarrow> string \<Rightarrow> bool" where
  "tools_stay N dir \<longleftrightarrow> (\<forall>path args h. frame (tool_area dir) h (snd (cn_external N path args h)))"

lemma inside_join [simp]: "inside dir (join_path dir x)"
  by (simp add: inside_def) (simp add: join_path_def)

lemma tool_areaI: "frame ((=) p) h h' \<Longrightarrow> tool_area dir p \<Longrightarrow> frame (tool_area dir) h h'"
  by (auto intro: frame_mono)

lemma run_tool_frame: "tools_stay N dir \<Longrightarrow> frame (tool_area dir) h (snd (run_tool N path args h))"
  by (auto simp: tools_stay_def run_tool_def split: prod.split option.split) (metis snd_conv)+

text \<open>A name in the directory that is not that of a copied file, and everything below it.\<close>

lemma below_dotted:
  assumes "under (join_path dir (CHR ''.'' # x)) q"
  shows "tool_area dir q"
proof -
  have "inside dir q" using assms by (auto simp: inside_def under_def join_path_def has_prefix_iff)
  moreover have "q \<notin> copied_files dir" using assms by (auto simp: copied_files_def under_def join_path_def has_prefix_iff)
  ultimately show ?thesis by (simp add: tool_area_def)
qed

lemma tool_area_names [simp]:
  "tool_area dir (join_path dir cloudInitSeedFilename)" "tool_area dir (join_path dir ''disk.qcow2'')"
  "tool_area dir (join_path dir downloadedImageFilename)"
  by (simp_all add: tool_area_def) (auto simp: copied_files_def join_path_def cloudInitSeedFilename_def downloadedImageFilename_def)

lemma frame_then:
  "frame P h (snd r) \<Longrightarrow> (\<And>x g. frame P g (snd (k x g))) \<Longrightarrow> frame P h (snd (then_do r k))"
  by (rule then_do_rel [where Q = "frame P"]) (auto intro: frame_trans)

lemma seed_steps_frame:
  assumes "tools_stay N dir" and "staging = join_path dir (CHR ''.'' # x)"
  shows "frame (tool_area dir) h (snd (seed_steps N u (join_path dir cloudInitSeedFilename) uuid staging h))"
proof -
  have below: "tool_area dir (join_path staging f)" for f
    unfolding assms(2) by (rule below_dotted [of dir x]) simp
  show ?thesis
    unfolding seed_steps_def
    by (intro frame_then tool_areaI [OF copy_frame] tool_areaI [OF write_file_frame] tool_areaI [OF chmod_frame]
        run_tool_frame assms(1) below tool_area_names)
qed

lemma parent_of_seed [simp]: "parent_dir (join_path dir cloudInitSeedFilename) = dir"
  by (rule parent_join) (simp add: cloudInitSeedFilename_def)

lemma seed_frame:
  assumes "tools_stay N dir"
  shows "frame (tool_area dir) h (snd (createCloudInitSeed N u (join_path dir cloudInitSeedFilename) uuid h))"
proof -
  let ?s = "join_path dir (''.cloud-init-'' @ itoa (h_inode h))"
  have s: "?s = join_path dir (CHR ''.'' # (''cloud-init-'' @ itoa (h_inode h)))" by simp
  have make: "frame (tool_area dir) h (snd (mkdir h ?s))"
    by (rule tool_areaI [OF mkdir_frame]) (auto simp only: s intro: below_dotted [OF under_refl] below_dotted)
  have steps: "frame (tool_area dir) g (snd (seed_steps N u (join_path dir cloudInitSeedFilename) uuid ?s g))" for g
    by (rule seed_steps_frame [OF assms s])
  have remove: "frame (tool_area dir) g (snd (remove_all g ?s))" for g
    by (rule frame_mono [OF remove_all_frame]) (auto simp only: s intro: below_dotted [OF under_refl] below_dotted)
  show ?thesis
    using make frame_trans [OF frame_trans [OF make steps] remove] 
    by (auto simp: createCloudInitSeed_def Let_def split: prod.split sum.split)
qed

lemma materialize_frame: "frame (tool_area dir) h (snd (materializeImage N src dir h))"
proof -
  have "frame (tool_area dir) g (snd (download N r c (join_path dir downloadedImageFilename) g))" for g r c
    by (auto simp: download_def sys_step_def given_step_def with_node_frame split: sum.split
        intro!: tool_areaI [OF new_file_frame])
  then show ?thesis
    by (auto simp: materializeImage_def Let_def split: option.split intro!: frame_then)
qed

lemma materialize_path:
  "materializeImage N src dir h = (Inr (p, tmp), h') \<Longrightarrow> tmp \<Longrightarrow> p = join_path dir downloadedImageFilename"
  by (auto simp: materializeImage_def Let_def then_do_Inr split: option.splits)

lemma frame_then_result:
  "frame P h (snd r) \<Longrightarrow> (\<And>x g. r = (Inr x, g) \<Longrightarrow> frame P g (snd (k x g))) \<Longrightarrow> frame P h (snd (then_do r k))"
  by (auto simp: then_do_def intro: frame_trans split: prod.splits sum.splits)

lemma convert_frame:
  assumes "tools_stay N dir" and "tmp \<Longrightarrow> tool_area dir source"
  shows "frame (tool_area dir) h (snd (convert_image N pl disk source tmp h))"
proof -
  obtain r h1 where run: "run_tool N (cp_qemu_img pl) [''convert'', ''-O'', ''qcow2'', source, disk] h = (r, h1)"
    by (metis prod.collapse)
  have tool: "frame (tool_area dir) h h1" using run_tool_frame [OF assms(1)] run by (metis snd_conv)
  have "frame (tool_area dir) h1 (remove_file source h1)" if tmp
    using assms(2) [OF that] by (auto simp: remove_file_def frame_def)
  with tool show ?thesis
    by (auto simp: convert_image_def run intro: frame_trans split: option.split)
qed

lemma disk_frame:
  assumes "tools_stay N dir"
  shows "frame (tool_area dir) h (snd (blank_disk N pl (join_path dir ''disk.qcow2'') h))"
    and "frame (tool_area dir) h (snd (image_disk N pl dir (join_path dir ''disk.qcow2'') h))"
proof -
  note tool = run_tool_frame [OF assms] and chmod = tool_areaI [OF chmod_frame tool_area_names(2)]
  show "frame (tool_area dir) h (snd (blank_disk N pl (join_path dir ''disk.qcow2'') h))"
    unfolding blank_disk_def by (intro frame_then tool chmod)
  show "frame (tool_area dir) h (snd (image_disk N pl dir (join_path dir ''disk.qcow2'') h))"
    unfolding image_disk_def
    by (rule frame_then_result [OF materialize_frame])
      (auto intro!: frame_then convert_frame [OF assms] chmod tool split: sum.split dest: materialize_path)
qed

lemma later_artifacts_frame:
  assumes "tools_stay N dir"
  shows "frame (tool_area dir) h (snd (later_artifacts N pl dir h))"
  unfolding later_artifacts_def Let_def
  by (rule frame_then) (auto intro: seed_frame [OF assms] disk_frame [OF assms])

lemma artifacts_frame:
  assumes "tools_stay N dir"
  shows "frame (inside dir) h (snd (create_artifacts N pl dir h))"
proof -
  have copy: "frame (inside dir) g (snd (copyRegularFile b src (join_path dir x) mode g))" for b src x mode g
    by (rule frame_mono [OF copy_frame]) auto
  have later: "frame (tool_area dir) g g' \<Longrightarrow> frame (inside dir) g g'" for g g'
    by (erule frame_mono) (simp add: tool_area_def)
  show ?thesis
    unfolding create_artifacts_def Let_def
    by (rule frame_then [OF copy], rule frame_then [OF copy], rule frame_then)
      (auto intro: copy later [OF later_artifacts_frame [OF assms]])
qed

text \<open>The roots of the store lie apart: no log or runtime directory below the data root.\<close>

definition separate_roots :: "Store \<Rightarrow> bool" where
  "separate_roots s \<longleftrightarrow> \<not> under (DataRoot s) (LogRoot s) \<and> \<not> under (DataRoot s) (RuntimeRoot s)"

lemma inside_parent: "inside (join_path a b) q \<Longrightarrow> under (join_path a b) (parent_dir q)"
proof -
  have "join_path a b \<noteq> []" by (simp add: join_path_def)
  then show "inside (join_path a b) q \<Longrightarrow> ?thesis" by (auto simp: inside_def intro: under_parent)
qed

lemma plan_confined:
  assumes "tools_stay N (join_path (DataRoot s) (cfg_name c))" and "separate_roots s"
    and "CHR ''/'' \<notin> set (cfg_name c)" and "CHR ''/'' \<notin> set (cfg_id c)"
  shows "confined (create_candidates s c) c (store_paths s c) (plan_artifacts N pl)"
proof -
  let ?dir = "join_path (DataRoot s) (cfg_name c)"
  have frame: "frame (inside ?dir) h (snd (plan_artifacts N pl c (store_paths s c) h))" for h
    using artifacts_frame [OF assms(1), of h pl]
    by (auto simp: plan_artifacts_def split: prod.split sum.split)
  have "\<not> inside ?dir d" if d: "d \<in> set (create_candidates s c)" for d
  proof
    assume i: "inside ?dir d"
    from d have "d = ?dir \<or> d = join_path (LogRoot s) (cfg_name c) \<or> d = RuntimeDir s (cfg_id c)"
      by (auto simp: create_candidates_def Let_def)
    moreover have "d \<noteq> ?dir" using i by (simp add: inside_def)
    moreover have "parent_dir (join_path (LogRoot s) (cfg_name c)) = LogRoot s"
      using assms(3) by (rule parent_join)
    moreover have "parent_dir (RuntimeDir s (cfg_id c)) = RuntimeRoot s"
      unfolding RuntimeDir_def by (rule parent_join) (use assms(4) in \<open>auto dest: in_set_takeD\<close>)
    ultimately have "under ?dir (LogRoot s) \<or> under ?dir (RuntimeRoot s)" using inside_parent [OF i] by auto
    then show False using assms(2) under_trans [OF under_join] by (auto simp: separate_roots_def)
  qed
  moreover have "under_any (create_candidates s c) q" if "inside ?dir q" for q
    using that by (auto simp: under_any_def create_candidates_def Let_def inside_def)
  ultimately show ?thesis
    using frame by (auto simp: confined_def frame_def)
qed

section \<open>What \<open>create\<close> leaves\<close>

lemma checkE_Inr [simp]: "checkE r = Inr u \<longleftrightarrow> r = None"
  by (simp add: checkE_def split: option.split)

text \<open>What a plan always has: a valid configuration under the name, without automatic start.\<close>

lemma plan_create_ok:
  assumes "plan_create N name opts seen rest = Inr pl"
  shows "Validate (cp_config pl) = None \<and> cfg_name (cp_config pl) = name
    \<and> cfg_autostart_scope (cp_config pl) = AutostartNone \<and> cp_options pl = opts
    \<and> (\<exists>drives. cfg_disks (cp_config pl) = create_disks (cfg_id (cp_config pl)) opts drives)"
  using assms unfolding plan_create_def Let_def bindE_Inr_iff checkE_Inr by clarsimp blast

lemma artifacts_ok:
  assumes "create_artifacts N pl dir h = (Inr (), h')" and "tools_stay N dir"
  shows "\<exists>ino. h_fs h' (join_path dir ''firmware-code.fd'')
      = Some (File ino (h_uid h) 256 (sf_data (ue_file (cn_user N) (co_fw_code (cp_options pl)))))"
    and "\<exists>ino. h_fs h' (join_path dir ''firmware-vars.fd'')
      = Some (File ino (h_uid h) mode_file (sf_data (ue_file (cn_user N) (co_fw_vars (cp_options pl)))))"
    and "co_iso (cp_options pl) \<noteq> [] \<Longrightarrow> \<exists>ino. h_fs h' (join_path dir ''installer.iso'')
      = Some (File ino (h_uid h) 256 (sf_data (ue_file (cn_user N) (co_iso (cp_options pl)))))"
proof -
  let ?src = "\<lambda>f. ue_file (cn_user N) (f (cp_options pl))"
  let ?copy = "\<lambda>f name. copyRegularFile (cn_bar N) (?src f) (join_path dir name)"
  from assms(1) obtain h1 h2 h3 where code: "?copy co_fw_code ''firmware-code.fd'' 256 h = (Inr (), h1)"
    and vars: "?copy co_fw_vars ''firmware-vars.fd'' mode_file h1 = (Inr (), h2)"
    and iso: "(if co_iso (cp_options pl) \<noteq> [] then ?copy co_iso ''installer.iso'' 256 h2 else (Inr (), h2)) = (Inr (), h3)"
    and later: "later_artifacts N pl dir h3 = (Inr (), h')"
    by (auto simp: create_artifacts_def Let_def then_do_Inr)
  have f1: "frame ((=) (join_path dir ''firmware-code.fd'')) h h1" using copy_frame code by (metis snd_conv)
  have f2: "frame ((=) (join_path dir ''firmware-vars.fd'')) h1 h2" using copy_frame vars by (metis snd_conv)
  have f3: "frame ((=) (join_path dir ''installer.iso'')) h2 h3"
    using copy_frame iso by (metis frame_refl snd_conv)
  have f4: "frame (tool_area dir) h3 h'" using later_artifacts_frame [OF assms(2)] later by (metis snd_conv)
  have kept: "h_fs h' q = h_fs h3 q" if "q \<in> copied_files dir" for q
    using f4 that by (simp add: frame_def tool_area_def)
  have differ: "join_path dir a = join_path dir b \<longleftrightarrow> a = b" for a b by (simp add: join_path_def)
  have uid: "h_uid h1 = h_uid h" "h_uid h2 = h_uid h" using f1 f2 by (simp_all add: frame_def)
  show "\<exists>ino. h_fs h' (join_path dir ''firmware-code.fd'')
      = Some (File ino (h_uid h) 256 (sf_data (?src co_fw_code)))"
    using copy_ok(1) [OF code] f2 f3 kept [of "join_path dir ''firmware-code.fd''"]
    by (simp add: copied_files_def frame_def differ)
  show "\<exists>ino. h_fs h' (join_path dir ''firmware-vars.fd'')
      = Some (File ino (h_uid h) mode_file (sf_data (?src co_fw_vars)))"
    using copy_ok(1) [OF vars] f3 kept [of "join_path dir ''firmware-vars.fd''"] uid
    by (simp add: copied_files_def frame_def differ)
  show "\<exists>ino. h_fs h' (join_path dir ''installer.iso'') = Some (File ino (h_uid h) 256 (sf_data (?src co_iso)))"
    if "co_iso (cp_options pl) \<noteq> []"
    using copy_ok(1) [of "cn_bar N" "?src co_iso" "join_path dir ''installer.iso''" 256 h2 h3] that iso uid
      kept [of "join_path dir ''installer.iso''"]
    by (simp add: copied_files_def)
qed

text \<open>What the artifacts leave stays when the configuration is written.\<close>

lemma Create_keeps_artifacts:
  assumes "Create s L (Some f) c h = (Inr (), h')" and "closed_tree h"
    and "confined (create_candidates s c) c (store_paths s c) f"
  obtains h1 h2 where "f c (store_paths s c) h1 = (None, h2)" and "h_uid h1 = h_uid h"
    and "\<And>x. hd x \<noteq> CHR ''.'' \<Longrightarrow> x \<noteq> configFilename \<Longrightarrow>
      h_fs h' (join_path (p_vm_dir (store_paths s c)) x) = h_fs h2 (join_path (p_vm_dir (store_paths s c)) x)"
proof -
  let ?dir = "join_path (DataRoot s) (cfg_name c)"
  from assms(1) obtain l h0 h3 where lock: "LockName s h (cfg_name c) = (Inr l, h0)"
    and create: "lockedCreate s L (Some f) c h0 = (Inr (), h3)" and h': "h' = unlock l h3"
    by (auto simp: Create_def then_do_Inr with_lock_def split: option.splits prod.splits) (metis prod.collapse)
  have keeps: "keeps h h0" using LockName_keeps [of h s "cfg_name c"] lock by simp
  have closed: "closed_tree h0" using LockName_closed [OF assms(2), of s "cfg_name c"] lock by simp
  from create obtain all h1 where dirs: "create_dirs [] (create_candidates s c) h0 = (Inr all, h1)"
    and pop': "populate L (Some f) c (store_paths s c) all h1 = (Inr (), h3)"
    by (auto simp: lockedCreate_unfold then_do_Inr split: sum.splits if_splits)
  have all: "all = create_candidates s c" using create_dirs_ok [OF dirs] by simp
  note made = dirs [unfolded all] and pop = pop' [unfolded all]
  note ok = create_dirs_ok [OF made]
  have there: "dirs_there (create_candidates s c) h1"
    using create_dirs_closed [OF closed, of "[]" "create_candidates s c"] made ok by (simp add: dirs_there_def)
  from pop obtain h2 where art: "f c (store_paths s c) h1 = (None, h2)"
    and wrote: "writeConfigAtomic L h2 (join_path ?dir configFilename) c = (Inr (), h3)"
    by (auto simp: populate_def split: prod.splits option.splits sum.splits)
  have "?dir \<in> set (create_candidates s c)" by (simp add: create_candidates_def Let_def)
  then have "h_fs h2 ?dir = Some (Dir (h_uid h1) mode_dir)"
    using assms(3) there art by (auto simp: confined_def dirs_there_def)
  from writeConfigAtomic_fs [OF refl this, of L c] wrote
  have rest: "\<forall>q. q \<noteq> join_path ?dir configFilename \<longrightarrow> q \<noteq> temp_path h2 ?dir \<longrightarrow> h_fs h3 q = h_fs h2 q"
    by simp
  have "h_fs h' (join_path ?dir x) = h_fs h2 (join_path ?dir x)" if "hd x \<noteq> CHR ''.''" "x \<noteq> configFilename" for x
  proof -
    have "join_path ?dir x \<noteq> temp_path h2 ?dir" using that(1) by (auto simp: temp_path_def join_path_def)
    with rest that(2) h' show ?thesis by (simp add: join_path_def)
  qed
  then show ?thesis using that [OF art] ok keeps by (simp add: keeps_def)
qed

lemma runCreate_cases:
  assumes "runCreate s L N name args h = (r, h')"
  obtains (refused) e where "r = Inl e" and "h' = h"
  | (planned) opts seen rest pl r2 where "plan_create N name opts seen rest = Inr pl"
      and "Create s L (Some (plan_artifacts N pl)) (cp_config pl) h = (r2, h')"
      and "r = (case r2 of Inl e \<Rightarrow> Inl (CreateStore e) | Inr _ \<Rightarrow> Inr pl)"
proof -
  consider (early) e where "r = Inl e" "h' = h"
    | (later) opts seen rest pl where "plan_create N name opts seen rest = Inr pl"
        "(r, h') = then_do (wrap_err CreateStore (Create s L (Some (plan_artifacts N pl)) (cp_config pl) h)) (\<lambda>_ h. (Inr pl, h))"
  proof (cases "parse_flags (create_flags (cn_user N)) (default_options (cn_firmware N)) [] args")
    case (Inr p)
    obtain opts seen rest where p: "p = (opts, seen, rest)" by (cases p)
    show ?thesis
    proof (cases "plan_create N name opts seen rest")
      case (Inr pl)
      then show ?thesis
        using assms \<open>parse_flags _ _ _ _ = Inr p\<close> p by (intro later [OF Inr]) (simp add: runCreate_def)
    next
      case (Inl e)
      then show ?thesis
        using assms \<open>parse_flags _ _ _ _ = Inr p\<close> p by (intro early [of e]) (simp_all add: runCreate_def)
    qed
  next
    case (Inl e)
    then show ?thesis using assms by (intro early [of "CreateFlags e"]) (simp_all add: runCreate_def)
  qed
  then show ?thesis
  proof cases
    case later
    then show ?thesis
      using planned [OF later(1)] by (cases "Create s L (Some (plan_artifacts N pl)) (cp_config pl) h")
        (auto simp: wrap_err_def then_do_def split: sum.splits)
  qed (rule refused)
qed

text \<open>A creation that failed left the tree as it was, or as it was under the name lock.\<close>

lemma failed_create_tree:
  assumes "Create s L (Some f) c h = (Inl e, h')" and "closed_tree h" and "Validate c = None"
    and "confined (create_candidates s c) c (store_paths s c) f"
    and "\<And>p. \<not> h_fault h SysLstat p \<and> \<not> h_fault h SysRemoveAll p"
  shows "h_fs h' \<in> {h_fs h, h_fs (snd (LockName s h (cfg_name c)))}"
proof -
  have arts: "\<And>g. Some f = Some g \<Longrightarrow> confined (create_candidates s c) c (store_paths s c) g" using assms(4) by simp
  obtain q h0 where lock: "LockName s h (cfg_name c) = (q, h0)" by (cases "LockName s h (cfg_name c)")
  have closed: "closed_tree h0" using LockName_closed [OF assms(2), of s "cfg_name c"] lock by simp
  have fault: "h_fault h0 = h_fault h" using LockName_keeps [of h s "cfg_name c"] lock by (simp add: keeps_def)
  show ?thesis
  proof (cases q)
    case (Inl e')
    then show ?thesis using assms(1,3) lock by (simp add: Create_def)
  next
    case (Inr l)
    let ?made = "lockedCreate s L (Some f) c h0"
    have "(Inl e, h') = with_lock l ?made" using assms(1,3) lock Inr by (simp add: Create_def)
    then have "fst ?made \<noteq> Inr ()" "h_fs h' = h_fs (snd ?made)" by (auto simp: with_lock_def)
    then show ?thesis
      using failed_create_leaves_no_trace [where arts = "Some f", OF closed arts, of L] assms(5) fault lock by simp
  qed
qed

lemma name_no_slash: "namePattern n \<Longrightarrow> CHR ''/'' \<notin> set n"
proof
  assume n: "namePattern n" and slash: "CHR ''/'' \<in> set n"
  have "\<not> is_alnum CHR ''/''" "\<not> name_rest_byte CHR ''/''"
    by (simp_all add: byte_class_defs name_rest_byte_def)
  with n slash show False by (cases n) (auto simp: namePattern_def list_all_iff)
qed

lemma id_no_slash: "idPattern i \<Longrightarrow> CHR ''/'' \<notin> set i"
proof
  assume "idPattern i" and "CHR ''/'' \<in> set i"
  then have "is_lower_hex CHR ''/''" by (auto simp: idPattern_def list_all_iff)
  then show False by (simp add: byte_class_defs)
qed

definition copy_of :: "create_env \<Rightarrow> string \<Rightarrow> nat \<Rightarrow> node option \<Rightarrow> bool" where
  "copy_of N src mode n \<longleftrightarrow> (\<exists>ino uid. n = Some (File ino uid mode (sf_data (ue_file (cn_user N) src))))"

text \<open>An error of the command other than that of printing the guidance is one of the creation, and a success has
  created the machine.\<close>

lemma create_command_error:
  assumes "create_command s L N name args out_err h = (r, h')"
  shows "(case r of
      Inl (CreateGuidance e) \<Rightarrow> runCreate s L N name args h = (Inl (CreateGuidance e), h')
        \<or> out_err = Some e \<and> (\<exists>pl. runCreate s L N name args h = (Inr pl, h') \<and> net_smb_folder (cfg_network (cp_config pl)) \<noteq> [])
    | Inl e \<Rightarrow> runCreate s L N name args h = (Inl e, h')
    | Inr _ \<Rightarrow> \<exists>pl. runCreate s L N name args h = (Inr pl, h'))"
  using assms
  by (auto simp: create_command_def Let_def split: prod.splits sum.splits if_splits option.splits create_error.splits)

text \<open>C8. \<open>create\<close> is all or nothing, with the artifacts it really makes: no node that existed is changed,
  whatever happens. If it reports an error, the tree is what it was, or what taking the name lock left:
  the firmware copies, the installer, the seed, the download and the disk are gone. If it succeeds, the
  name was free, the configuration of the plan is stored, valid, loads back and does not start
  automatically, and the firmware and the installer are exact copies under their modes. It is assumed
  that \<open>qemu-img\<close> and \<open>hdiutil\<close> write only inside the machine's directory and not to the copied files.\<close>

theorem create_all_or_nothing:
  assumes "runCreate s L N name args h = (r, h')" and "closed_tree h" and "separate_roots s"
    and "tools_stay N (join_path (DataRoot s) name)" and "\<And>pl. r = Inr pl \<Longrightarrow> text_decodes L (cp_config pl)"
    and "\<And>call p. call \<in> {SysLstat, SysOpen, SysFstat, SysRemoveAll} \<Longrightarrow> \<not> h_fault h call p"
  shows "keeps h h' \<and> (case r of
      Inl e \<Rightarrow> h_fs h' \<in> {h_fs h, h_fs (snd (LockName s h name))}
    | Inr pl \<Rightarrow> Load s L h' name = Inr (cp_config pl) \<and> wf_config (cp_config pl)
        \<and> cfg_autostart_scope (cp_config pl) = AutostartNone
        \<and> h_fs h (join_path (DataRoot s) name) = None
        \<and> copy_of N (co_fw_code (cp_options pl)) 256 (h_fs h' (join_path (join_path (DataRoot s) name) ''firmware-code.fd''))
        \<and> copy_of N (co_fw_vars (cp_options pl)) mode_file (h_fs h' (join_path (join_path (DataRoot s) name) ''firmware-vars.fd''))
        \<and> (co_iso (cp_options pl) \<noteq> [] \<longrightarrow>
            copy_of N (co_iso (cp_options pl)) 256 (h_fs h' (join_path (join_path (DataRoot s) name) ''installer.iso''))))"
  using assms(1)
proof (cases rule: runCreate_cases)
  case (refused e)
  then show ?thesis by simp
next
  case (planned opts seen rest pl r2)
  let ?c = "cp_config pl" and ?f = "plan_artifacts N pl" and ?dir = "join_path (DataRoot s) name"
  note plan = plan_create_ok [OF planned(1)]
  have name: "cfg_name ?c = name" and valid: "Validate ?c = None" using plan by simp_all
  have wf: "namePattern (cfg_name ?c)" "idPattern (cfg_id ?c)"
    using valid by (simp_all add: Validate_None_iff wf_config_def wf_scalars_def)
  have confined: "confined (create_candidates s ?c) ?c (store_paths s ?c) ?f"
    by (rule plan_confined) (use assms(3,4) wf name name_no_slash id_no_slash in auto)
  then have arts: "\<And>f. Some ?f = Some f \<Longrightarrow> confined (create_candidates s ?c) ?c (store_paths s ?c) f" by simp
  have keeps: "keeps h h'" using Create_keeps_existing [where arts = "Some ?f", OF assms(2) arts, of L] planned(2) by simp
  show ?thesis
  proof (cases r2)
    case (Inl e)
    have "h_fs h' \<in> {h_fs h, h_fs (snd (LockName s h (cfg_name ?c)))}"
      by (rule failed_create_tree [OF planned(2) [unfolded Inl] assms(2) valid confined]) (use assms(6) in auto)
    then show ?thesis using keeps Inl planned(3) name by simp
  next
    case (Inr u)
    then have created: "Create s L (Some ?f) ?c h = (Inr (), h')" and r: "r = Inr pl"
      using planned(2,3) by simp_all
    have loads: "Load s L h' (cfg_name ?c) = Inr ?c \<and> h_fs h (p_vm_dir (store_paths s ?c)) = None"
      by (rule Create_then_Load [where arts = "Some ?f", OF assms(2) arts created assms(5) [OF r]]) (use assms(6) in auto)
    obtain h1 h2 where art: "?f ?c (store_paths s ?c) h1 = (None, h2)"
      and kept: "\<And>x. hd x \<noteq> CHR ''.'' \<Longrightarrow> x \<noteq> configFilename \<Longrightarrow>
        h_fs h' (join_path (p_vm_dir (store_paths s ?c)) x) = h_fs h2 (join_path (p_vm_dir (store_paths s ?c)) x)"
      using Create_keeps_artifacts [OF created assms(2) confined] by blast
    from art have made: "create_artifacts N pl ?dir h1 = (Inr (), h2)"
      by (auto simp: plan_artifacts_def name split: prod.splits sum.splits)
    note files = artifacts_ok [OF made assms(4)]
    show ?thesis
      using keeps loads valid plan r name files kept [of "''firmware-code.fd''"] kept [of "''firmware-vars.fd''"]
        kept [of "''installer.iso''"]
      by (auto simp: copy_of_def Validate_None_iff configFilename_def)
  qed
qed

section \<open>A machine for the witness\<close>

text \<open>\<open>create new-vm\<close> without options, on the empty tree, with a random source of zero bytes.\<close>

definition zeros :: "nat \<Rightarrow> u8 list option" where "zeros n = Some (replicate n 0)"
lemma new_memory: "parseMiB ''2GiB'' = Inr 2048"
  by (simp add: parseMiB_def parseSizeBytes_def sized_bytes_def has_suffix_def trim_suffix_def has_prefix_def parse_uint_def parse_dec_def is_digit_def byte_in_def dec_value_def MaxUint64_def)
lemma new_disk_bytes: "parseSizeBytes ''32GiB'' = Inr 34359738368"
  by (simp add: parseMiB_def parseSizeBytes_def sized_bytes_def has_suffix_def trim_suffix_def has_prefix_def parse_uint_def parse_dec_def is_digit_def byte_in_def dec_value_def MaxUint64_def)
lemma new_timeout: "parseWholeSeconds F ''180s'' = Inr 180"
  by (simp add: parseWholeSeconds_def ParseDuration_def signed_text_def duration_sum.simps duration_number_def unit_text_def duration_unit_def is_digit_def byte_in_def dec_value_def int64_of_def Let_def)
lemma new_id: "GenerateID zeros = Some ''00000000000000000000000000000000''"
  by code_simp
lemma new_uuid: "GenerateUUIDv4 zeros = Some ''00000000-0000-4000-8000-000000000000''"
  by code_simp
lemma new_mac: "GenerateMAC zeros = Some ''02:00:00:00:00:00''"
  by code_simp
lemma new_qemu_img: "resolveExecutable sample_user ''qemu-img'' = Inr ''/opt/homebrew/bin/qemu-img''" by code_simp
lemma new_qemu: "resolveExecutable sample_user ''qemu-system-aarch64'' = Inr ''/opt/homebrew/bin/qemu-system-aarch64''" by code_simp
definition new_config :: Config where
  "new_config =
     \<lparr>cfg_schema_version = 1, cfg_id = ''00000000000000000000000000000000'', cfg_name = ''new-vm'', cfg_backend = ''qemu'',
      cfg_architecture = ''aarch64'', cfg_uuid = ''00000000-0000-4000-8000-000000000000'', cfg_cpus = 2, cfg_memory_mib = 2048,
      cfg_restart_policy = ''never'', cfg_shutdown_timeout_seconds = 180,
      cfg_firmware = \<lparr>fw_code = ''firmware-code.fd'', fw_variables = ''firmware-vars.fd''\<rparr>, cfg_installer = None,
      cfg_disks = [\<lparr>disk_path = ''disk.qcow2'', disk_format = ''qcow2'', disk_serial = ''disk-0000000000000000'',
        disk_boot_index = 0, disk_read_only = False, disk_cache = []\<rparr>],
      cfg_network = \<lparr>net_mode = ''user'', net_mac = ''02:00:00:00:00:00'', net_forwards = [], net_socket_vmnet = None,
        net_smb_folder = []\<rparr>,
      cfg_guest_agent_enabled = False, cfg_vnc = None, cfg_metrics = None, cfg_usb = [],
      cfg_qemu = \<lparr>qemu_binary = ''/opt/homebrew/bin/qemu-system-aarch64'', qemu_image_tool = ''/opt/homebrew/bin/qemu-img'',
        qemu_machine = ''virt-10.0'', qemu_rtc_base = ''utc'', qemu_extra_args = []\<rparr>,
      cfg_autostart_scope = ''none''\<rparr>"
lemma new_config_valid: "Validate new_config = None" by code_simp

definition new_machine_tools :: external where
  "new_machine_tools _ _ h = (None, h\<lparr>h_fs := (h_fs h)(''/d/new-vm/disk.qcow2'' \<mapsto> File 99 501 420 ''disk'')\<rparr>)"

definition new_env :: create_env where
  "new_env =
     \<lparr>cn_user = sample_user, cn_app = plain_env, cn_firmware = (''/fw/code.fd'', ''/fw/vars.fd''), cn_smbd = None,
      cn_machine = (\<lambda>_. Inr ''virt-10.0''), cn_id = zeros, cn_uuid = zeros, cn_mac = zeros, cn_provision = None,
      cn_external = new_machine_tools, cn_url = (\<lambda>_. None),
      cn_http = (\<lambda>_. \<lparr>hr_error = Some ''no network'', hr_status = 0, hr_encoding = [], hr_length = 0, hr_body = [], hr_bad = None\<rparr>),
      cn_xz = (\<lambda>_. Inl ''not xz''), cn_gzip = (\<lambda>_. Inl ''not gzip''), cn_bar = None, cn_fraction = (\<lambda>_ _. 0)\<rparr>"

definition new_plan :: create_plan where
  "new_plan =
     \<lparr>cp_config = new_config, cp_options = default_options (''/fw/code.fd'', ''/fw/vars.fd''), cp_disk_bytes = 34359738368,
      cp_image = \<lparr>is_local = [], is_remote = None, is_compression = ImageUncompressed\<rparr>,
      cp_qemu_img = ''/opt/homebrew/bin/qemu-img''\<rparr>"

lemma default_fields:
  "co_cpus (default_options fw) = 2" "co_memory (default_options fw) = ''2GiB''" "co_disk_size (default_options fw) = ''32GiB''"
  "co_image (default_options fw) = []" "co_iso (default_options fw) = []" "co_user_data (default_options fw) = []"
  "co_qemu (default_options fw) = ''qemu-system-aarch64''" "co_qemu_img (default_options fw) = ''qemu-img''"
  "co_fw_code (default_options fw) = fst fw" "co_fw_vars (default_options fw) = snd fw"
  "co_restart (default_options fw) = ''never''" "co_timeout (default_options fw) = ''180s''"
  "co_network (default_options fw) = ''user''" "co_mac (default_options fw) = []" "co_guest_agent (default_options fw) = ''off''"
  "co_metrics (default_options fw) = []" "co_interface (default_options fw) = []" "co_rtc (default_options fw) = ''utc''"
  "\<not> vo_enabled (co_vnc (default_options fw))" "co_forwards (default_options fw) = []" "co_usbs (default_options fw) = []"
  "co_drives (default_options fw) = []" "co_share (default_options fw) = None"
  by (simp_all add: default_options_def RestartNever_def NetworkUser_def)

lemma new_plan_made:
  "plan_create new_env ''new-vm'' (default_options (''/fw/code.fd'', ''/fw/vars.fd'')) [] [] = Inr new_plan"
proof -
  let ?o = "default_options (''/fw/code.fd'', ''/fw/vars.fd'')"
  have parsers: "parseNetworkMode ''user'' = Inr ''user''" "parseOnOff ''off'' = Inr False" "parseRTCBase ''utc'' = Inr ''utc''"
    "create_metrics [] = Inr None" "parseImageSource p [] = Inr \<lparr>is_local = [], is_remote = None, is_compression = ImageUncompressed\<rparr>" for p
    by (simp_all add: parseNetworkMode_def parseOnOff_def parseRTCBase_def NetworkUser_def create_metrics_def parseImageSource_def)
  have checks: "early_checks ?o [] [] = None" "combination_checks ?o [] ''user'' = None"
    by (simp_all add: early_checks_def combination_checks_def default_fields model_consts)
  have network: "create_network new_env ?o ''user'' mac =
      Inr \<lparr>net_mode = ''user'', net_mac = mac, net_forwards = [], net_socket_vmnet = None, net_smb_folder = []\<rparr>" for mac
    by (simp add: create_network_def default_fields NetworkUser_def)
  have disks: "create_disks i ?o [] = [\<lparr>disk_path = ''disk.qcow2'', disk_format = ''qcow2'', disk_serial = ''disk-'' @ take 16 i,
       disk_boot_index = 0, disk_read_only = False, disk_cache = []\<rparr>]" for i
    by (simp add: create_disks_def default_fields)
  have env: "cn_user new_env = sample_user" "cn_machine new_env q = Inr ''virt-10.0''" "cn_id new_env = zeros"
    "cn_uuid new_env = zeros" "cn_mac new_env = zeros" for q
    by (simp_all add: new_env_def)
  show ?thesis
    unfolding plan_create_def Let_def
    by (simp add: checks checkE_def default_fields usage_def failing_def on_err_def new_memory new_disk_bytes new_timeout
        parsers env create_vnc_def usbDeviceLimit_def check_share_def new_qemu new_qemu_img generated_def new_id
        new_uuid new_mac network disks)
      (simp add: new_config_def [symmetric] model_consts new_config_valid new_plan_def)
qed


lemma copy_ready:
  assumes "requireRegularSource src = None" and "sf_bad src = None" and "h_fault h = (\<lambda>_ _. False)"
    and "h_fs h p = None" and "is_dir_at h (parent_dir p)"
  shows "copyRegularFile None src p mode h = (Inr (), h\<lparr>h_fs := (h_fs h)(p \<mapsto> File (h_inode h) (h_uid h) mode (sf_data src)),
    h_inode := Suc (h_inode h)\<rparr>)"
  using assms
  by (simp add: copyRegularFile_def withByteProgress_def new_file_def create_exclusive_def sys_failure_def sys_step_def
      given_step_def with_node_def)

definition new_library :: library where
  "new_library = sample_library\<lparr>js_strict := (\<lambda>_. Some (Some ConfigSchemaURL, new_config))\<rparr>"

lemma new_library_decodes: "text_decodes new_library new_config"
proof -
  have "validateRawJSONUnicode [CHR ''{'', CHR ''}'', CHR 0x0A] = None" by code_simp
  then show ?thesis
    by (simp add: text_decodes_def new_library_def sample_library_def is_space_def byte_in_def has_prefix_def)
qed

text \<open>The tree with the name lock and the three directories, and the tree with the artifacts.\<close>

definition new_dirs :: host where
  "new_dirs = empty_host\<lparr>h_fs := (h_fs empty_host)(''/d/.locks/new-vm.lock'' \<mapsto> File 7 501 mode_file [],
     ''/d/new-vm'' \<mapsto> Dir 501 mode_dir, ''/l/new-vm'' \<mapsto> Dir 501 mode_dir, ''/r/000000000000'' \<mapsto> Dir 501 mode_dir),
     h_inode := 8, h_locks := {7}\<rparr>"

definition new_made :: host where
  "new_made = new_dirs\<lparr>h_fs := (h_fs new_dirs)(''/d/new-vm/firmware-code.fd'' \<mapsto> File 8 501 256 ''source'',
     ''/d/new-vm/firmware-vars.fd'' \<mapsto> File 9 501 mode_file ''source'', ''/d/new-vm/disk.qcow2'' \<mapsto> File 99 501 mode_file ''disk''),
     h_inode := 10\<rparr>"

lemma new_artifacts: "create_artifacts new_env new_plan ''/d/new-vm'' new_dirs = (Inr (), new_made)"
proof -
  have parents: "parent_dir ''/d/new-vm/firmware-code.fd'' = ''/d/new-vm''" "parent_dir ''/d/new-vm/firmware-vars.fd'' = ''/d/new-vm''"
    by code_simp+
  have src: "ue_file (cn_user new_env) f = \<lparr>sf_open = None, sf_stat = None, sf_regular = True, sf_data = ''source'', sf_bad = None\<rparr>" for f
    by (simp add: new_env_def sample_user_def)
  have ok: "requireRegularSource (ue_file (cn_user new_env) f) = None" "sf_bad (ue_file (cn_user new_env) f) = None"
    "sf_data (ue_file (cn_user new_env) f) = ''source''" for f
    by (simp_all add: src requireRegularSource_def)
  have bar: "cn_bar new_env = None" by (simp add: new_env_def)
  let ?h1 = "new_dirs\<lparr>h_fs := (h_fs new_dirs)(''/d/new-vm/firmware-code.fd'' \<mapsto> File 8 501 256 ''source''), h_inode := 9\<rparr>"
  let ?h2 = "?h1\<lparr>h_fs := (h_fs ?h1)(''/d/new-vm/firmware-vars.fd'' \<mapsto> File 9 501 mode_file ''source''), h_inode := 10\<rparr>"
  have env: "h_fault new_dirs = (\<lambda>_ _. False)" "h_uid new_dirs = 501" "h_inode new_dirs = 8"
    by (simp_all add: new_dirs_def empty_host_def)
  have dir: "is_dir_at g ''/d/new-vm''" if "h_fs g ''/d/new-vm'' = Some (Dir 501 mode_dir)" for g
    using that by (simp add: is_dir_at_def)
  have one: "copyRegularFile None (ue_file (cn_user new_env) f) ''/d/new-vm/firmware-code.fd'' 256 new_dirs = (Inr (), ?h1)" for f
    by (subst copy_ready) (auto simp: ok parents env intro!: dir simp: new_dirs_def empty_host_def sample_dirs_def)
  have two: "copyRegularFile None (ue_file (cn_user new_env) f) ''/d/new-vm/firmware-vars.fd'' mode_file ?h1 = (Inr (), ?h2)" for f
    by (subst copy_ready) (auto simp: ok parents env intro!: dir simp: new_dirs_def empty_host_def sample_dirs_def)
  have options: "cp_options new_plan = default_options (''/fw/code.fd'', ''/fw/vars.fd'')" by (simp add: new_plan_def)
  have disk: "blank_disk new_env new_plan ''/d/new-vm/disk.qcow2''
      (new_dirs\<lparr>h_fs := (h_fs new_dirs)(''/d/new-vm/firmware-code.fd'' \<mapsto> File 8 501 256 ''source'',
        ''/d/new-vm/firmware-vars.fd'' \<mapsto> File 9 501 mode_file ''source''), h_inode := 10\<rparr>) = (Inr (), new_made)"
    by (simp add: blank_disk_def run_tool_def new_env_def new_machine_tools_def chmod_path_def sys_failure_def with_node_def
        new_made_def env)
  show ?thesis
    by (simp add: create_artifacts_def later_artifacts_def Let_def bar join_path_def one two disk options default_fields)
qed


lemma new_created: "fst (Create sample_store new_library (Some (plan_artifacts new_env new_plan)) new_config empty_host) = Inr ()"
proof -
  have name: "cfg_name new_config = ''new-vm''" "cfg_id new_config = ''00000000000000000000000000000000''"
    by (simp_all add: new_config_def)
  have valid_name: "validateName ''new-vm'' = None" by code_simp
  let ?h = "empty_host\<lparr>h_fs := (h_fs empty_host)(''/d/.locks/new-vm.lock'' \<mapsto> File 7 501 mode_file []), h_inode := 8, h_locks := {7}\<rparr>"
  have lock: "LockName sample_store empty_host ''new-vm'' = (Inr 7, ?h)"
    by (subst LockName_ready [OF valid_name _ _ _ refl])
      (auto simp: sample_defs is_abs_path_def has_prefix_def join_path_def locksDirectory_def)
  have parents: "parent_dir ''/d/new-vm'' = ''/d''" "parent_dir ''/l/new-vm'' = ''/l''" "parent_dir ''/r/000000000000'' = ''/r''"
    "parent_dir ''/l/new-vm/qemu.log'' = ''/l/new-vm''"
    by code_simp+
  have candidates: "create_candidates sample_store new_config = [''/d/new-vm'', ''/l/new-vm'', ''/r/000000000000'']"
    by (simp add: create_candidates_def store_paths_def Let_def RuntimeDir_def name sample_store_def join_path_def parents)
  have dirs: "create_dirs [] (create_candidates sample_store new_config) ?h =
      (Inr [''/d/new-vm'', ''/l/new-vm'', ''/r/000000000000''], new_dirs)"
    by (simp add: candidates createOwnedDirectory_fresh is_dir_at_def parents empty_host_def sample_dirs_def new_dirs_def)
  have paths: "p_vm_dir (store_paths sample_store new_config) = ''/d/new-vm''"
    "p_config (store_paths sample_store new_config) = join_path ''/d/new-vm'' configFilename"
    by (simp_all add: name sample_store_def join_path_def)
  have free: "lstat ?h ''/d/new-vm'' = Inl ENOENT" by (simp add: lstat_def empty_host_def sample_dirs_def)
  have canonical: "CanonicalJSON new_library new_config = Inr (''{}'' @ [CHR 0x0A])"
    by (simp add: CanonicalJSON_def new_config_valid new_library_def sample_library_def)
  have "itoa 10 = ''10''" by (simp add: itoa.simps digit_char_def char_of_def bit_Suc_0_iff)
  then have "fst (writeConfigAtomic new_library new_made (join_path ''/d/new-vm'' configFilename) new_config) = Inr ()"
    by (intro writeConfigAtomic_ready [OF refl canonical])
      (simp_all add: new_made_def new_dirs_def empty_host_def sample_dirs_def temp_path_def join_path_def)
  then show ?thesis
    by (auto simp: Create_def new_config_valid name lock lockedCreate_unfold paths free dirs populate_def plan_artifacts_def
        new_artifacts simp del: store_paths_dirs split: prod.splits sum.splits)
qed

theorem create_all_or_nothing_witness:
  "Load sample_store new_library (snd (runCreate sample_store new_library new_env ''new-vm'' [] empty_host)) ''new-vm'' = Inr new_config
   \<and> copy_of new_env ''/fw/code.fd'' 256
       (h_fs (snd (runCreate sample_store new_library new_env ''new-vm'' [] empty_host)) ''/d/new-vm/firmware-code.fd'')"
proof -
  let ?run = "runCreate sample_store new_library new_env ''new-vm'' [] empty_host"
  have config: "cp_config new_plan = new_config" "cp_options new_plan = default_options (''/fw/code.fd'', ''/fw/vars.fd'')"
    by (simp_all add: new_plan_def)
  obtain h' where created: "Create sample_store new_library (Some (plan_artifacts new_env new_plan)) new_config empty_host = (Inr (), h')"
    using new_created by (metis prod.collapse)
  have fw: "cn_firmware new_env = (''/fw/code.fd'', ''/fw/vars.fd'')" by (simp add: new_env_def)
  have run: "?run = (Inr new_plan, h')"
    by (simp add: runCreate_def fw new_plan_made created config)
  have "tool_area ''/d/new-vm'' ''/d/new-vm/disk.qcow2''"
    using tool_area_names(2) [of "''/d/new-vm''"] by (simp add: join_path_def)
  then have tools: "tools_stay new_env (join_path (DataRoot sample_store) ''new-vm'')"
    by (auto simp: tools_stay_def new_env_def new_machine_tools_def frame_def sample_store_def join_path_def)
  have roots: "separate_roots sample_store"
    by (simp add: separate_roots_def sample_store_def under_def join_path_def has_prefix_def)
  have decodes: "text_decodes new_library (cp_config pl)" if "Inr new_plan = Inr pl" for pl
    using that new_library_decodes config by auto
  have faults: "\<not> h_fault empty_host call p" for call p by (simp add: empty_host_def)
  from create_all_or_nothing [OF run sample_closed(2) roots tools decodes] faults
  show ?thesis unfolding run snd_conv by (simp add: config default_fields sample_store_def join_path_def)
qed

end
