(* ===== verification/CliInfo.thy ===== *)
theory CliInfo
  imports CliConfig Lifecycle Supervisor Launchd Json
begin

text \<open>
  The commands of \<open>internal/cli/info.go\<close> that read the store: \<open>status\<close>, \<open>list\<close>, \<open>showcmd\<close>, \<open>log\<close>, and
  \<open>delete\<close>, which composes the store's deletion with the inspection of the launchd jobs. A command's
  standard output is a list of what it writes; writing itself does not fail here.
\<close>

section \<open>Arguments and output\<close>

datatype message_kind = MessageInfo | MessageSuccess | MessageWarning | MessageError

datatype cli_output =
    OutTable "string list" "string list list"
  | OutText string
  | OutMessage message_kind string
  | OutJSON json

datatype app_usage =
    MissingName string | UnexpectedArguments string | BadFlags string flag_error | UsageLine string
  | UnexpectedArgument string string string | UnknownFlag string string | UnknownCommand string
  | UsageText string

definition nameBeforeFlags :: "string \<Rightarrow> string list \<Rightarrow> app_usage + string \<times> string list" where
  "nameBeforeFlags cmd args =
     (case args of
        [] \<Rightarrow> Inl (MissingName cmd)
      | a # rest \<Rightarrow> if a = [] \<or> a ! 0 = CHR ''-'' then Inl (MissingName cmd) else Inr (a, rest))"

definition parseNoPositionals :: "'s flag list \<Rightarrow> 's \<Rightarrow> string \<Rightarrow> string list \<Rightarrow> app_usage + 's" where
  "parseNoPositionals fs st cmd args =
     (case parse_flags fs st [] args of
        Inl e \<Rightarrow> Inl (BadFlags cmd e)
      | Inr (st, _, rest) \<Rightarrow> if rest \<noteq> [] then Inl (UnexpectedArguments cmd) else Inr st)"

section \<open>The row of a machine\<close>

datatype row_failure = RowHash encode_error | RowStatus status_error

datatype row_error = RowFine | RowNote status_note | RowLoad store_error | RowFailure row_failure

record StatusRow =
  row_name :: string
  row_state :: run_state
  row_restart :: bool
  row_pid :: "int option"
  row_backend :: backend_name
  row_current :: string
  row_running :: string
  row_vnc :: "VNCEndpoint option"
  row_error :: row_error
  row_started :: "timestamp option"
  row_cpus :: int
  row_memory :: int
  row_network :: network_mode
  row_autostart :: autostart_scope

definition empty_row :: StatusRow where
  "empty_row =
     \<lparr>row_name = [], row_state = [], row_restart = False, row_pid = None, row_backend = [], row_current = [],
      row_running = [], row_vnc = None, row_error = RowFine, row_started = None, row_cpus = 0, row_memory = 0,
      row_network = [], row_autostart = []\<rparr>"

text \<open>What the commands are given: the store, the configuration library, what asking each machine's
  supervisor gives, the text of errors and instants, and the colours of an interactive terminal.\<close>

record cli_env =
  ce_store :: Store
  ce_library :: library
  ce_lifecycle :: "string \<Rightarrow> lifecycle_env"
  ce_error_text :: "row_error \<Rightarrow> string"
  ce_time :: "timestamp \<Rightarrow> string"
  ce_paint :: "string \<Rightarrow> string \<Rightarrow> string"

text \<open>\<open>runtimeAdapter.Status\<close>.\<close>

definition adapterStatus :: "cli_env \<Rightarrow> Config \<Rightarrow> host \<Rightarrow> (status_error, StatusRow) action" where
  "adapterStatus E cfg h =
     (case status (ce_store E) (ce_library E) (ce_lifecycle E (cfg_id cfg)) cfg h of
        (Inl e, _, h1) \<Rightarrow> (Inl e, h1)
      | (Inr r, _, h1) \<Rightarrow>
          (Inr (empty_row
             \<lparr>row_name := sr_name r, row_state := sr_state r,
              row_restart := sr_running_hash r \<noteq> [] \<and> sr_running_hash r \<noteq> sr_current_hash r,
              row_pid := (if 0 < sr_pid r then Some (sr_pid r) else None), row_backend := sr_backend r,
              row_current := sr_current_hash r, row_running := sr_running_hash r, row_vnc := sr_vnc r,
              row_error := RowNote (sr_error r),
              row_started :=
                (case sr_started_at r of
                   None \<Rightarrow> None | Some t \<Rightarrow> if ts_is_zero t then None else Some t)\<rparr>), h1))"

definition configStatusRow :: "Config \<Rightarrow> StatusRow" where
  "configStatusRow cfg =
     empty_row\<lparr>row_name := cfg_name cfg, row_cpus := cfg_cpus cfg, row_memory := cfg_memory_mib cfg,
       row_network := net_mode (cfg_network cfg), row_autostart := cfg_autostart_scope cfg\<rparr>"

text \<open>The row, which is returned with an error too.\<close>

definition statusRow :: "cli_env \<Rightarrow> Config \<Rightarrow> host \<Rightarrow> (StatusRow \<times> row_failure option) \<times> host" where
  "statusRow E cfg h =
     (let row = configStatusRow cfg in
      case Hash (ce_library E) cfg of
        Inl e \<Rightarrow> ((row, Some (RowHash e)), h)
      | Inr current \<Rightarrow>
          (case adapterStatus E cfg h of
             (Inl e, h1) \<Rightarrow> ((row, Some (RowStatus e)), h1)
           | (Inr r, h1) \<Rightarrow>
               ((row\<lparr>row_state := row_state r, row_pid := row_pid r, row_backend := row_backend r,
                     row_running := row_running r, row_vnc := row_vnc r, row_error := row_error r,
                     row_started := row_started r, row_current := current,
                     row_restart := row_running r \<noteq> [] \<and> row_running r \<noteq> current\<rparr>, None), h1)))"

section \<open>Rows of all machines\<close>

definition load_failed_row :: "string \<Rightarrow> store_error \<Rightarrow> StatusRow" where
  "load_failed_row name e = empty_row\<lparr>row_name := name, row_state := RunStateFailed, row_error := RowLoad e\<rparr>"

definition entry_row :: "cli_env \<Rightarrow> string \<Rightarrow> host \<Rightarrow> StatusRow \<times> host" where
  "entry_row E name h =
     (case Load (ce_store E) (ce_library E) h name of
        Inl e \<Rightarrow> (load_failed_row name e, h)
      | Inr cfg \<Rightarrow>
          (case statusRow E cfg h of
             ((row, None), h1) \<Rightarrow> (row, h1)
           | ((row, Some e), h1) \<Rightarrow> (row\<lparr>row_state := RunStateFailed, row_error := RowFailure e\<rparr>, h1)))"

fun entry_rows :: "cli_env \<Rightarrow> string list \<Rightarrow> host \<Rightarrow> StatusRow list \<times> host" where
  "entry_rows E [] h = ([], h)"
| "entry_rows E (name # names) h =
     (if name = locksDirectory then entry_rows E names h
      else case entry_row E name h of
        (row, h1) \<Rightarrow> (case entry_rows E names h1 of (rows, h2) \<Rightarrow> (row # rows, h2)))"

text \<open>The entries are what \<open>os.ReadDir\<close> of the data root gives.\<close>

definition all_rows :: "cli_env \<Rightarrow> string + string list \<Rightarrow> host \<Rightarrow> (string, StatusRow list) action" where
  "all_rows E entries h =
     (case entries of
        Inl e \<Rightarrow> (Inl e, h)
      | Inr names \<Rightarrow> (case entry_rows E names h of (rows, h1) \<Rightarrow> (Inr (sort_key row_name rows), h1)))"

section \<open>Writing rows\<close>

definition row_error_text :: "cli_env \<Rightarrow> row_error \<Rightarrow> string" where
  "row_error_text E e = (if e = RowFine \<or> e = RowNote NoNote then [] else ce_error_text E e)"

definition text_member :: "string \<Rightarrow> string \<Rightarrow> (string \<times> json) list" where
  "text_member name v = (if v = [] then [] else [(name, JString v)])"

definition int_member :: "string \<Rightarrow> int \<Rightarrow> (string \<times> json) list" where
  "int_member name v = (if v = 0 then [] else [(name, JNumber (itoa_int v))])"

definition endpoint_json :: "VNCEndpoint \<Rightarrow> json" where
  "endpoint_json e = JObject [(''host'', JString (ep_host e)), (''port'', JNumber (itoa (unat (ep_port e))))]"

text \<open>The members in the order of the struct's fields.\<close>

definition row_json :: "cli_env \<Rightarrow> StatusRow \<Rightarrow> json" where
  "row_json E r =
     JObject
       ([(''name'', JString (row_name r)), (''state'', JString (row_state r)),
         (''restart_required'', JBool (row_restart r))]
        @ (case row_pid r of None \<Rightarrow> [] | Some p \<Rightarrow> [(''pid'', JNumber (itoa_int p))])
        @ text_member ''backend'' (row_backend r)
        @ text_member ''current_config_sha256'' (row_current r)
        @ text_member ''running_config_sha256'' (row_running r)
        @ (case row_vnc r of None \<Rightarrow> [] | Some e \<Rightarrow> [(''vnc'', endpoint_json e)])
        @ text_member ''error'' (row_error_text E (row_error r))
        @ (case row_started r of None \<Rightarrow> [] | Some t \<Rightarrow> [(''started_at'', JString (ce_time E t))])
        @ int_member ''cpus'' (row_cpus r) @ int_member ''memory_mib'' (row_memory r)
        @ text_member ''network'' (row_network r) @ text_member ''autostart'' (row_autostart r))"

definition displayRunState :: "cli_env \<Rightarrow> bool \<Rightarrow> run_state \<Rightarrow> string" where
  "displayRunState E interactive st =
     (if \<not> interactive then st
      else if st = RunStateRunning then ce_paint E ''LightGreen'' st
      else if st = RunStatePaused then ce_paint E ''LightYellow'' st
      else if st = RunStateStarting \<or> st = RunStateStopping then ce_paint E ''LightCyan'' st
      else if st = RunStateStopped then ce_paint E ''Gray'' st
      else if st = RunStateFailed then ce_paint E ''LightRed'' st
      else st)"

definition bool_text :: "bool \<Rightarrow> string" where "bool_text b = (if b then ''true'' else ''false'')"

definition displayRestartRequired :: "cli_env \<Rightarrow> bool \<Rightarrow> bool \<Rightarrow> string" where
  "displayRestartRequired E interactive required =
     (if interactive \<and> required then ce_paint E ''LightYellow'' (bool_text required) else bool_text required)"

definition formatPositiveInt :: "int \<Rightarrow> string" where
  "formatPositiveInt v = (if v \<le> 0 then ''-'' else itoa_int v)"

definition formatMemoryMiB :: "int \<Rightarrow> string" where
  "formatMemoryMiB m =
     (if m \<le> 0 then ''-'' else if m mod 1024 = 0 then itoa_int (m div 1024) @ ''GiB'' else itoa_int m @ ''MiB'')"

definition formatOptionalString :: "string \<Rightarrow> string" where
  "formatOptionalString v = (if v = [] then ''-'' else v)"

definition displayAutostart :: "autostart_scope \<Rightarrow> string" where
  "displayAutostart scope = (if scope = AutostartNone then ''disabled'' else formatOptionalString scope)"

text \<open>\<open>net.JoinHostPort\<close>.\<close>

definition JoinHostPort :: "string \<Rightarrow> string \<Rightarrow> string" where
  "JoinHostPort host port =
     (if CHR '':'' \<in> set host then ''['' @ host @ '']:'' @ port else host @ '':'' @ port)"

definition formatVNCEndpoint :: "VNCEndpoint option \<Rightarrow> string" where
  "formatVNCEndpoint e =
     (case e of None \<Rightarrow> ''-'' | Some e \<Rightarrow> JoinHostPort (ep_host e) (itoa (unat (ep_port e))))"

definition writeRows :: "cli_env \<Rightarrow> StatusRow list \<Rightarrow> bool \<Rightarrow> bool \<Rightarrow> cli_output" where
  "writeRows E rows json interactive =
     (if json then OutJSON (JArray (List.map (row_json E) rows))
      else OutTable [''NAME'', ''STATE'', ''RESTART REQUIRED'', ''ERROR'']
        (List.map (\<lambda>r. [row_name r, displayRunState E interactive (row_state r),
                       displayRestartRequired E interactive (row_restart r), row_error_text E (row_error r)]) rows))"

definition writeListRows :: "cli_env \<Rightarrow> StatusRow list \<Rightarrow> bool \<Rightarrow> cli_output" where
  "writeListRows E rows interactive =
     OutTable [''NAME'', ''STATE'', ''CPUS'', ''MEMORY'', ''NETWORK'', ''AUTOSTART'', ''VNC'', ''RESTART'', ''ERROR'']
       (List.map (\<lambda>r. [row_name r, displayRunState E interactive (row_state r), formatPositiveInt (row_cpus r),
          formatMemoryMiB (row_memory r), formatOptionalString (row_network r), displayAutostart (row_autostart r),
          formatVNCEndpoint (row_vnc r), displayRestartRequired E interactive (row_restart r),
          row_error_text E (row_error r)]) rows)"

definition writeSMBMountHelp :: "string \<Rightarrow> cli_output list" where
  "writeSMBMountHelp folder =
     [OutText (''SMB host folder: '' @ folder @ [newline]),
      OutText (''Linux guest mount: sudo mount -t cifs //10.0.2.4/qemu /mnt/share -o username=guest'' @ [newline])]"

section \<open>The commands \<open>status\<close> and \<open>list\<close>\<close>

datatype info_error =
    InfoUsage app_usage | InfoStore store_error | InfoRow row_failure | InfoList string
  | InfoBackend registry_error | InfoRender render_error | InfoLogOpen sys_error | InfoLogCopy

definition json_flag :: "bool flag list" where "json_flag = [bool_flag ''json'' (\<lambda>b _. b)]"

definition parse_json_flag :: "string \<Rightarrow> string \<Rightarrow> string list \<Rightarrow> app_usage + bool" where
  "parse_json_flag cmd usage args =
     (case parse_flags json_flag False [] args of
        Inl e \<Rightarrow> Inl (BadFlags cmd e)
      | Inr (json, _, rest) \<Rightarrow> if rest \<noteq> [] then Inl (UsageLine usage) else Inr json)"

definition writeStatusRows ::
  "cli_env \<Rightarrow> string + string list \<Rightarrow> bool \<Rightarrow> bool \<Rightarrow> bool \<Rightarrow> host \<Rightarrow> (info_error, cli_output list) action" where
  "writeStatusRows E entries json listing interactive h =
     then_do (wrap_err InfoList (all_rows E entries h)) (\<lambda>rows h1.
       (Inr [if listing \<and> \<not> json then writeListRows E rows interactive else writeRows E rows json interactive], h1))"

definition status_named ::
  "cli_env \<Rightarrow> string \<Rightarrow> bool \<Rightarrow> bool \<Rightarrow> host \<Rightarrow> (info_error, cli_output list) action" where
  "status_named E name json interactive h =
     (case Load (ce_store E) (ce_library E) h name of
        Inl e \<Rightarrow> if json then (Inr [OutJSON (row_json E (load_failed_row name e))], h) else (Inl (InfoStore e), h)
      | Inr cfg \<Rightarrow>
          (case statusRow E cfg h of
             ((_, Some e), h1) \<Rightarrow> (Inl (InfoRow e), h1)
           | ((row, None), h1) \<Rightarrow>
               (Inr (if json then [OutJSON (row_json E row)]
                     else writeRows E [row] False interactive #
                       (if net_smb_folder (cfg_network cfg) \<noteq> [] then writeSMBMountHelp (net_smb_folder (cfg_network cfg))
                        else [])), h1)))"

definition runStatus ::
  "cli_env \<Rightarrow> string + string list \<Rightarrow> bool \<Rightarrow> string list \<Rightarrow> host \<Rightarrow> (info_error, cli_output list) action" where
  "runStatus E entries interactive args h =
     (let (name, rest) = (case args of
            a # r \<Rightarrow> if has_prefix a ''-'' then ([], args) else (a, r) | [] \<Rightarrow> ([], [])) in
      case parse_json_flag ''status'' ''status [NAME] [--json]'' rest of
        Inl e \<Rightarrow> (Inl (InfoUsage e), h)
      | Inr json \<Rightarrow>
          if name = [] then writeStatusRows E entries json False interactive h
          else status_named E name json interactive h)"

definition runList ::
  "cli_env \<Rightarrow> string + string list \<Rightarrow> bool \<Rightarrow> string list \<Rightarrow> host \<Rightarrow> (info_error, cli_output list) action" where
  "runList E entries interactive args h =
     (case parse_json_flag ''list'' ''list [--json]'' args of
        Inl e \<Rightarrow> (Inl (InfoUsage e), h)
      | Inr json \<Rightarrow> writeStatusRows E entries json True interactive h)"

section \<open>The commands \<open>showcmd\<close> and \<open>log\<close>\<close>

text \<open>\<open>strings.ReplaceAll\<close> of each single quote by the closing quote, a quoted quote and an opening quote.\<close>

definition quotePOSIX :: "string \<Rightarrow> string" where
  "quotePOSIX v =
     [CHR 0x27] @ concat (List.map (\<lambda>c. if c = CHR 0x27 then [c, CHR 0x22, c, CHR 0x22, c] else [c]) v) @ [CHR 0x27]"

definition runShowcmd ::
  "cli_env \<Rightarrow> 'b Registry \<Rightarrow> ('b \<Rightarrow> Config \<Rightarrow> RuntimePaths \<Rightarrow> render_error + Command) \<Rightarrow> string list \<Rightarrow> host
   \<Rightarrow> info_error + cli_output list" where
  "runShowcmd E reg render args h =
     (case nameBeforeFlags ''showcmd'' args of
        Inl e \<Rightarrow> Inl (InfoUsage e)
      | Inr (name, rest) \<Rightarrow>
          if rest \<noteq> [] then Inl (InfoUsage (UnexpectedArgument ''showcmd'' name (hd rest)))
          else case Load (ce_store E) (ce_library E) h name of
            Inl e \<Rightarrow> Inl (InfoStore e)
          | Inr cfg \<Rightarrow>
              (case Lookup reg (cfg_backend cfg) of
                 Inl e \<Rightarrow> Inl (InfoBackend e)
               | Inr b \<Rightarrow>
                   (case render b cfg (backendPaths (store_paths (ce_store E) cfg)) of
                      Inl e \<Rightarrow> Inl (InfoRender e)
                    | Inr cmd \<Rightarrow>
                        Inr [OutText (join_with '' '' (List.map quotePOSIX (cmd_path cmd # cmd_args cmd)) @ [newline])])))"

definition openActiveSerialLog :: "host \<Rightarrow> string \<Rightarrow> sys_error + string" where
  "openActiveSerialLog h path = openOwnedRegular h path"

definition runLog :: "cli_env \<Rightarrow> string list \<Rightarrow> host \<Rightarrow> info_error + cli_output list" where
  "runLog E args h =
     (case nameBeforeFlags ''log'' args of
        Inl e \<Rightarrow> Inl (InfoUsage e)
      | Inr (name, rest) \<Rightarrow>
          if rest \<noteq> [] then Inl (InfoUsage (UnexpectedArgument ''log'' name (hd rest)))
          else case Load (ce_store E) (ce_library E) h name of
            Inl e \<Rightarrow> Inl (InfoStore e)
          | Inr cfg \<Rightarrow>
              (let path = p_serial_log (store_paths (ce_store E) cfg) in
               case openActiveSerialLog h path of
                 Inl e \<Rightarrow> Inl (InfoLogOpen e)
               | Inr content \<Rightarrow> if h_fault h SysRead path then Inl InfoLogCopy else Inr [OutText content]))"

section \<open>The command \<open>delete\<close>\<close>

datatype delete_error =
    DeleteUsage app_usage | DeleteStore store_error | DeleteScope autostart_scope | DeleteNeedsForce
  | DeleteNoPrompt | DeletePromptFailed string

datatype delete_outcome = Deleted | DeletionCancelled

text \<open>Whether standard input and output are terminals, and what the prompt gives.\<close>

record prompt_io =
  io_stdin :: bool
  io_stdout :: bool
  io_confirm :: "(string + bool) option"

definition parse_force :: "string list \<Rightarrow> app_usage + bool" where
  "parse_force args =
     (case parse_flags [bool_flag ''force'' (\<lambda>b _. b)] False [] args of
        Inl e \<Rightarrow> Inl (BadFlags ''delete'' e)
      | Inr (force, _, rest) \<Rightarrow> if rest \<noteq> [] then Inl (UsageLine ''delete NAME [--force]'') else Inr force)"

text \<open>What is checked under the name lock and the lifetime lock: the machine is still the one that was
  loaded, and launchd has neither a list nor a job of it.\<close>

definition delete_inspector :: "manager \<Rightarrow> launchd_env \<Rightarrow> world \<Rightarrow> string \<Rightarrow> inspector" where
  "delete_inspector m env w initialID cfg paths h =
     (if cfg_id cfg \<noteq> initialID then Some ''identity changed before deletion''
      else case fst (launchd_status m env (cfg_name cfg) (w\<lparr>wd_host := h\<rparr>)) of
        Inl _ \<Rightarrow> Some ''inspect VM before deletion''
      | Inr (_, login, boot) \<Rightarrow>
          if ds_error login \<noteq> [] then Some ''inspect login job''
          else if ds_error boot \<noteq> [] then Some ''inspect boot job''
          else if ds_file_present login \<or> ds_loaded login \<or> ds_file_present boot \<or> ds_loaded boot
          then Some ''still has an autostart plist or loaded job''
          else None)"

text \<open>Without \<open>--force\<close> the user is asked, on a terminal only: an error, or whether to go on.\<close>

definition delete_consent :: "prompt_io \<Rightarrow> bool \<Rightarrow> delete_error + bool" where
  "delete_consent io force =
     (if force then Inr True
      else if \<not> io_stdin io \<or> \<not> io_stdout io then Inl DeleteNeedsForce
      else case io_confirm io of
        None \<Rightarrow> Inl DeleteNoPrompt
      | Some (Inl e) \<Rightarrow> Inl (DeletePromptFailed e)
      | Some (Inr b) \<Rightarrow> Inr b)"

definition runDelete ::
  "manager \<Rightarrow> launchd_env \<Rightarrow> prompt_io \<Rightarrow> string list \<Rightarrow> world \<Rightarrow> (delete_error + delete_outcome) \<times> world" where
  "runDelete m env io args w =
     (if args = [] \<or> has_prefix (hd args) ''-'' then (Inl (DeleteUsage (UsageLine ''delete NAME [--force]'')), w)
      else case parse_force (tl args) of
        Inl e \<Rightarrow> (Inl (DeleteUsage e), w)
      | Inr force \<Rightarrow>
          (case Load (mg_store m) (ln_library env) (wd_host w) (hd args) of
             Inl e \<Rightarrow> (Inl (DeleteStore e), w)
           | Inr cfg \<Rightarrow>
               if cfg_autostart_scope cfg \<noteq> AutostartNone then (Inl (DeleteScope (cfg_autostart_scope cfg)), w)
               else (case delete_consent io force of
                 Inl e \<Rightarrow> (Inl e, w)
               | Inr False \<Rightarrow> (Inr DeletionCancelled, w)
               | Inr True \<Rightarrow>
                   (case Delete (mg_store m) (ln_library env) (Some (delete_inspector m env w (cfg_id cfg))) (hd args) (wd_host w) of
                      (Inl e, h) \<Rightarrow> (Inl (DeleteStore e), w\<lparr>wd_host := h\<rparr>)
                    | (Inr _, h) \<Rightarrow> (Inr Deleted, w\<lparr>wd_host := h\<rparr>)))))"

section \<open>Observing changes nothing\<close>

lemma tryLifetime_keeps_held:
  "lock_held h p \<Longrightarrow> lock_held (snd (tryLifetime s h i)) p"
  using tryLifetime_rel [of "\<lambda>a b. lock_held a p \<longrightarrow> lock_held b p" h s i]
  by (auto intro: grows_held openLock_held)

text \<open>The lock that was taken is not one that was held, so giving it back leaves the others held.\<close>

lemma tryLifetime_released_held:
  assumes "tryLifetime s h i = (Inr (Acquired l), h1)" and "lock_held h p"
  shows "lock_held (unlock l h1) p"
proof -
  obtain h2 where grown: "grows h h2" and lock: "openLock h2 (lifetime_path s i) True = (Inr (Acquired l), h1)"
    using tryLifetime_outcome [OF assms(1)] by blast
  have held: "lock_held h2 p" by (rule grows_held [OF grown assms(2)])
  have fresh: "l \<notin> h_locks h2"
    using lock by (auto simp: openLock_def lock_validated_def Let_def split: if_splits option.splits node.splits)
  obtain ino uid mode d where n: "h_fs h2 p = Some (File ino uid mode d)" "ino \<in> h_locks h2"
    using held unfolding lock_held_iff by blast
  have "lock_held h1 p" using openLock_held [OF held, of "lifetime_path s i" True] lock by simp
  moreover have "h_fs h1 p = Some (File ino uid mode d)"
    using openLock_keeps [of h2 "lifetime_path s i" True] n(1) lock by (simp add: keeps_def)
  ultimately show ?thesis using n(2) fresh by (auto simp: lock_held_iff unlock_def)
qed

definition undisturbed :: "host \<Rightarrow> host \<Rightarrow> bool" where
  "undisturbed h h' \<longleftrightarrow> keeps h h' \<and> (\<forall>p. lock_held h p \<longrightarrow> lock_held h' p)"

lemma undisturbed_refl [simp, intro]: "undisturbed h h" by (simp add: undisturbed_def)

lemma undisturbed_trans: "undisturbed a b \<Longrightarrow> undisturbed b c \<Longrightarrow> undisturbed a c"
  by (auto simp: undisturbed_def intro: keeps_trans)

text \<open>The host after asking for the status: the one before, or that after the attempt on the lock.\<close>

lemma status_host:
  "snd (snd (status s L env cfg h)) = h
   \<or> snd (snd (status s L env cfg h)) = snd (tryLifetime s h (cfg_id cfg))
   \<or> (\<exists>l. fst (tryLifetime s h (cfg_id cfg)) = Inr (Acquired l)
          \<and> snd (snd (status s L env cfg h)) = unlock l (snd (tryLifetime s h (cfg_id cfg))))"
proof (cases "Control (lc_requests env) (lc_responses env) (lc_exchange env) (status_request cfg)")
  case (Inr response)
  then show ?thesis
    by (cases "Hash L cfg"; cases "rs_status response")
      (simp_all add: status_def status_request_def [symmetric] Let_def)
next
  case (Inl e)
  show ?thesis
  proof (cases "\<exists>code message. e = CtlResponse code message")
    case True
    then obtain code message where "e = CtlResponse code message" by blast
    with Inl show ?thesis
      by (cases "Hash L cfg") (simp_all add: status_def status_request_def [symmetric] Let_def)
  next
    case False
    obtain r h1 where lock: "tryLifetime s h (cfg_id cfg) = (r, h1)" by fastforce
    show ?thesis
      using False Inl lock
      by (cases e; cases r; cases "Hash L cfg")
        (simp_all add: status_def status_request_def [symmetric] Let_def split: lock_outcome.split prod.split)
  qed
qed

lemma status_undisturbed: "undisturbed h (snd (snd (status s L env cfg h)))"
proof -
  have tried: "undisturbed h (snd (tryLifetime s h (cfg_id cfg)))"
    using tryLifetime_keeps [of h s "cfg_id cfg"] tryLifetime_keeps_held [of h _ s "cfg_id cfg"]
    by (auto simp: undisturbed_def)
  have "undisturbed h (unlock l (snd (tryLifetime s h (cfg_id cfg))))"
    if "fst (tryLifetime s h (cfg_id cfg)) = Inr (Acquired l)" for l
    using tried tryLifetime_released_held [of s h "cfg_id cfg" l "snd (tryLifetime s h (cfg_id cfg))"] that
    by (auto simp: undisturbed_def prod_eq_iff)
  with tried status_host [of s L env cfg h] show ?thesis by auto
qed

lemma statusRow_undisturbed: "undisturbed h (snd (statusRow E cfg h))"
  using status_undisturbed [of h "ce_store E" "ce_library E" "ce_lifecycle E (cfg_id cfg)" cfg]
  by (auto simp: statusRow_def adapterStatus_def Let_def split: sum.split prod.split)

lemma entry_row_undisturbed: "undisturbed h (snd (entry_row E name h))"
  using statusRow_undisturbed [of h E]
  by (auto simp: entry_row_def split: sum.split prod.split option.split) (metis snd_conv)+

lemma statusRow_name: "statusRow E cfg h = ((row, e), h') \<Longrightarrow> row_name row = cfg_name cfg"
  by (auto simp: statusRow_def Let_def configStatusRow_def split: sum.splits prod.splits)

lemma entry_row_name: "row_name (fst (entry_row E name h)) = name"
  using Load_name
  by (auto simp: entry_row_def load_failed_row_def split: sum.split prod.split option.split dest!: statusRow_name)

lemma entry_rows_names:
  "List.map row_name (fst (entry_rows E names h)) = filter (\<lambda>n. n \<noteq> locksDirectory) names
   \<and> undisturbed h (snd (entry_rows E names h))"
proof (induction names arbitrary: h)
  case (Cons name names)
  obtain row h1 where row: "entry_row E name h = (row, h1)" by fastforce
  then have "row_name row = name" "undisturbed h h1"
    using entry_row_name [of E name h] entry_row_undisturbed [of h E name] by simp_all
  with row Cons [of h] Cons [of h1] show ?case by (auto simp: split: prod.split intro: undisturbed_trans)
qed simp

lemma Load_undisturbed: "undisturbed h h' \<Longrightarrow> Load s L h name = Inr c \<Longrightarrow> Load s L h' name = Inr c"
  using loadUnlocked_keeps [of h h' s L name c]
  by (auto simp: Load_def undisturbed_def split: option.splits)

text \<open>The row of a machine whose lifetime lock is held while its supervisor cannot be reached.\<close>

lemma entry_row_held:
  assumes "Load (ce_store E) (ce_library E) h name = Inr c"
    and "lock_held h (p_lifetime_lock (store_paths (ce_store E) c))"
    and "Control (lc_requests (ce_lifecycle E (cfg_id c))) (lc_responses (ce_lifecycle E (cfg_id c)))
           (lc_exchange (ce_lifecycle E (cfg_id c))) (status_request c) = Inl e"
  shows "row_state (fst (entry_row E name h)) \<in> {RunStateStarting, RunStateFailed}"
proof (cases "statusRow E c h")
  case (Pair rw h1)
  show ?thesis
  proof (cases "snd rw")
    case None
    with Pair obtain r held where st: "status (ce_store E) (ce_library E) (ce_lifecycle E (cfg_id c)) c h = (Inr r, held, h1)"
      and row: "row_state (fst rw) = sr_state r"
      by (auto simp: statusRow_def adapterStatus_def Let_def split: sum.splits prod.splits)
    from fallback_status_respects_lock [OF st assms(3)] assms(2) row
    have "row_state (fst rw) \<in> {RunStateStarting, RunStateFailed}" by simp
    with Pair None assms(1) show ?thesis by (cases rw) (simp add: entry_row_def)
  next
    case (Some err)
    with Pair assms(1) show ?thesis by (cases rw) (simp add: entry_row_def)
  qed
qed

lemma entry_rows_held:
  assumes "undisturbed h0 h" and "r \<in> set (fst (entry_rows E names h))"
    and "Load (ce_store E) (ce_library E) h0 (row_name r) = Inr c"
    and "lock_held h0 (p_lifetime_lock (store_paths (ce_store E) c))"
    and "Control (lc_requests (ce_lifecycle E (cfg_id c))) (lc_responses (ce_lifecycle E (cfg_id c)))
           (lc_exchange (ce_lifecycle E (cfg_id c))) (status_request c) = Inl e"
  shows "row_state r \<in> {RunStateStarting, RunStateFailed}"
  using assms(1,2)
proof (induction names arbitrary: h)
  case (Cons name names)
  obtain row h1 where row: "entry_row E name h = (row, h1)" by fastforce
  have h1: "undisturbed h0 h1"
    using Cons.prems(1) entry_row_undisturbed [of h E name] row by (auto intro: undisturbed_trans)
  have named: "row_name row = name" using entry_row_name [of E name h] row by simp
  have here: "row_state row \<in> {RunStateStarting, RunStateFailed}" if "r = row"
  proof -
    have "Load (ce_store E) (ce_library E) h name = Inr c"
      using Load_undisturbed [OF Cons.prems(1) assms(3)] that named by simp
    moreover have "lock_held h (p_lifetime_lock (store_paths (ce_store E) c))"
      using Cons.prems(1) assms(4) by (simp add: undisturbed_def)
    ultimately show ?thesis using entry_row_held [OF _ _ assms(5)] row by fastforce
  qed
  show ?case
  proof (cases "name = locksDirectory")
    case True
    then show ?thesis using Cons.IH [OF Cons.prems(1)] Cons.prems(2) by simp
  next
    case False
    then have "r = row \<or> r \<in> set (fst (entry_rows E names h1))"
      using Cons.prems(2) row by (auto split: prod.splits)
    then show ?thesis using here Cons.IH [OF h1] by blast
  qed
qed simp

text \<open>C37. \<open>list\<close> and \<open>status\<close> show every entry of the data root but the locks directory, once each and
  in the order of their names, whatever is wrong with any of them; they change nothing that exists and
  leave every lock that is held to its holder; and a machine whose lifetime lock is held, while its
  supervisor does not answer, is shown as starting or failed, however many machines are asked before it.\<close>

theorem list_shows_every_machine:
  "\<exists>rows h'. all_rows E (Inr names) h = (Inr rows, h')
    \<and> List.map row_name rows = sort (filter (\<lambda>n. n \<noteq> locksDirectory) names)
    \<and> undisturbed h h'
    \<and> (\<forall>r \<in> set rows. \<forall>c e.
         Load (ce_store E) (ce_library E) h (row_name r) = Inr c
         \<longrightarrow> lock_held h (p_lifetime_lock (store_paths (ce_store E) c))
         \<longrightarrow> Control (lc_requests (ce_lifecycle E (cfg_id c))) (lc_responses (ce_lifecycle E (cfg_id c)))
               (lc_exchange (ce_lifecycle E (cfg_id c))) (status_request c) = Inl e
         \<longrightarrow> row_state r \<in> {RunStateStarting, RunStateFailed})"
proof -
  obtain rows h' where rows: "entry_rows E names h = (rows, h')" by fastforce
  have names: "List.map row_name rows = filter (\<lambda>n. n \<noteq> locksDirectory) names" "undisturbed h h'"
    using entry_rows_names [of E names h] rows by simp_all
  have "List.map row_name (sort_key row_name rows) = sort (filter (\<lambda>n. n \<noteq> locksDirectory) names)"
    unfolding names(1) [symmetric] by (rule properties_for_sort [symmetric]) simp_all
  moreover have "row_state r \<in> {RunStateStarting, RunStateFailed}"
    if "r \<in> set rows" "Load (ce_store E) (ce_library E) h (row_name r) = Inr c"
      "lock_held h (p_lifetime_lock (store_paths (ce_store E) c))"
      "Control (lc_requests (ce_lifecycle E (cfg_id c))) (lc_responses (ce_lifecycle E (cfg_id c)))
               (lc_exchange (ce_lifecycle E (cfg_id c))) (status_request c) = Inl e" for r c e
    using entry_rows_held [OF undisturbed_refl _ that(2-4), of names] that(1) rows by simp
  ultimately show ?thesis using names(2) rows by (auto simp: all_rows_def)
qed

definition sample_cli :: cli_env where
  "sample_cli =
     \<lparr>ce_store = sample_store, ce_library = sample_library, ce_lifecycle = (\<lambda>_. sample_env),
      ce_error_text = (\<lambda>_. ''error''), ce_time = (\<lambda>_. ''''), ce_paint = (\<lambda>_ t. t)\<rparr>"

text \<open>The stored machine with its lifetime lock held by another process.\<close>

definition busy_host :: host where
  "busy_host = sample_host\<lparr>h_fs := (h_fs sample_host)(''/r/0123456789ab/lifetime.lock'' \<mapsto> File 5 501 mode_file []),
     h_locks := {5}\<rparr>"

lemma busy_keeps: "keeps sample_host busy_host"
  by (auto simp: keeps_def busy_host_def) (simp add: sample_defs)

lemma busy_load: "Load sample_store sample_library busy_host ''home-assistant'' = Inr sample_config"
proof -
  have "validateName ''home-assistant'' = None" by code_simp
  then show ?thesis by (simp add: Load_def loadUnlocked_keeps [OF busy_keeps sample_stored])
qed

lemma busy_lock: "lock_held busy_host (p_lifetime_lock (store_paths sample_store sample_config))"
proof -
  have "p_lifetime_lock (store_paths sample_store sample_config) = ''/r/0123456789ab/lifetime.lock''"
    by (simp add: RuntimeDir_def sample_name sample_store_def join_path_def)
  then show ?thesis by (simp add: lock_held_def busy_host_def)
qed

theorem list_shows_every_machine_witness:
  "\<exists>rows h'. all_rows sample_cli (Inr [''home-assistant'', ''.locks'']) busy_host = (Inr rows, h')
    \<and> List.map row_name rows = [''home-assistant''] \<and> (\<forall>r \<in> set rows. row_state r \<in> {RunStateStarting, RunStateFailed})"
proof -
  have names: "sort (filter (\<lambda>n. n \<noteq> locksDirectory) [''home-assistant'', ''.locks'']) = [''home-assistant'']"
    by (simp add: locksDirectory_def)
  from list_shows_every_machine [of sample_cli "[''home-assistant'', ''.locks'']" busy_host, unfolded names]
  obtain rows h' where rows: "all_rows sample_cli (Inr [''home-assistant'', ''.locks'']) busy_host = (Inr rows, h')"
    "List.map row_name rows = [''home-assistant'']"
    and states: "\<And>r c e. r \<in> set rows \<Longrightarrow> Load sample_store sample_library busy_host (row_name r) = Inr c
      \<Longrightarrow> lock_held busy_host (p_lifetime_lock (store_paths sample_store c))
      \<Longrightarrow> Control (lc_requests sample_env) (lc_responses sample_env) (lc_exchange sample_env) (status_request c) = Inl e
      \<Longrightarrow> row_state r \<in> {RunStateStarting, RunStateFailed}"
    by (auto simp: sample_cli_def)
  from rows(2) obtain r where r: "rows = [r]" "row_name r = ''home-assistant''" by (cases rows) auto
  with states [of r] busy_load busy_lock sample_control have "row_state r \<in> {RunStateStarting, RunStateFailed}"
    by simp
  with rows r show ?thesis by auto
qed

section \<open>What \<open>showcmd\<close> writes is a command\<close>

text \<open>The words of a POSIX shell command without expansions: blanks separate, single and double quotes
  enclose; what the shell would expand is not a word here.\<close>

datatype sh_mode = ShPlain | ShSingle | ShDouble

fun sh_words :: "sh_mode \<Rightarrow> string \<Rightarrow> bool \<Rightarrow> string \<Rightarrow> string list option" where
  "sh_words ShPlain w started [] = Some (if started then [w] else [])"
| "sh_words ShPlain w started (c # s) =
     (if c = CHR '' '' \<or> c = newline then map_option (\<lambda>ws. if started then w # ws else ws) (sh_words ShPlain [] False s)
      else if c = CHR 0x27 then sh_words ShSingle w True s
      else if c = CHR 0x22 then sh_words ShDouble w True s
      else if c \<in> {CHR 0x5C, CHR ''$'', CHR 0x60, CHR ''*'', CHR ''?'', CHR ''['', CHR ''~'', CHR ''#'', CHR ''&'', CHR '';'',
                   CHR ''|'', CHR ''<'', CHR ''>'', CHR ''('', CHR '')''} then None
      else sh_words ShPlain (w @ [c]) True s)"
| "sh_words ShSingle w started [] = None"
| "sh_words ShSingle w started (c # s) =
     (if c = CHR 0x27 then sh_words ShPlain w True s else sh_words ShSingle (w @ [c]) True s)"
| "sh_words ShDouble w started [] = None"
| "sh_words ShDouble w started (c # s) =
     (if c = CHR 0x22 then sh_words ShPlain w True s
      else if c \<in> {CHR 0x5C, CHR ''$'', CHR 0x60} then None
      else sh_words ShDouble (w @ [c]) True s)"

definition posix_words :: "string \<Rightarrow> string list option" where "posix_words s = sh_words ShPlain [] False s"

lemma sh_quoted:
  "sh_words ShSingle w True (concat (List.map (\<lambda>c. if c = CHR 0x27 then [c, CHR 0x22, c, CHR 0x22, c] else [c]) v) @ [CHR 0x27] @ s)
   = sh_words ShPlain (w @ v) True s"
  by (induction v arbitrary: w) auto

lemma sh_quote: "sh_words ShPlain [] b (quotePOSIX v @ s) = sh_words ShPlain v True s"
  using sh_quoted [of "[]" v s] by (simp add: quotePOSIX_def)

lemma sh_join: "ws \<noteq> [] \<Longrightarrow> sh_words ShPlain [] False (join_with '' '' (List.map quotePOSIX ws) @ [newline]) = Some ws"
proof (induction ws)
  case (Cons w ws)
  show ?case
  proof (cases ws)
    case Nil
    then show ?thesis by (simp add: sh_quote)
  next
    case (Cons x xs)
    let ?rest = "join_with '' '' (List.map quotePOSIX ws) @ [newline]"
    have "join_with '' '' (List.map quotePOSIX (w # ws)) @ [newline] = quotePOSIX w @ CHR '' '' # ?rest"
      by (simp add: Cons)
    moreover have "sh_words ShPlain [] False ?rest = Some ws" using Cons.IH Cons by simp
    ultimately show ?thesis by (simp only: sh_quote) simp
  qed
qed simp

text \<open>C38. What \<open>showcmd\<close> writes is one shell command: a POSIX shell reads back exactly the program and
  the arguments that the machine's backend renders, whatever quotes and blanks they contain.\<close>

theorem showcmd_reads_back:
  assumes "runShowcmd E reg render args h = Inr out"
  shows "\<exists>name cfg b cmd text. args = [name] \<and> Load (ce_store E) (ce_library E) h name = Inr cfg
    \<and> Lookup reg (cfg_backend cfg) = Inr b
    \<and> render b cfg (backendPaths (store_paths (ce_store E) cfg)) = Inr cmd
    \<and> out = [OutText text] \<and> posix_words text = Some (cmd_path cmd # cmd_args cmd)"
proof -
  from assms obtain name cfg b cmd where run: "args = [name]" "Load (ce_store E) (ce_library E) h name = Inr cfg"
    "Lookup reg (cfg_backend cfg) = Inr b" "render b cfg (backendPaths (store_paths (ce_store E) cfg)) = Inr cmd"
    and out: "out = [OutText (join_with '' '' (List.map quotePOSIX (cmd_path cmd # cmd_args cmd)) @ [newline])]"
    by (auto simp: runShowcmd_def nameBeforeFlags_def split: list.splits sum.splits if_splits)
  have "posix_words (join_with '' '' (List.map quotePOSIX (cmd_path cmd # cmd_args cmd)) @ [newline])
      = Some (cmd_path cmd # cmd_args cmd)"
    unfolding posix_words_def by (rule sh_join) simp
  with run out show ?thesis by blast
qed

text \<open>A command line with a quote and a blank in an argument.\<close>

definition sample_command :: Command where
  "sample_command = \<lparr>cmd_path = ''/bin/qemu'', cmd_args = [''-name'', ''it'' @ [CHR 0x27] @ ''s mine'', '''']\<rparr>"

theorem showcmd_reads_back_witness:
  "\<exists>text. runShowcmd sample_cli [BackendQEMU \<mapsto> Inr (Some sample_command)] (\<lambda>b c p. Inr b) [''home-assistant''] sample_host
      = Inr [OutText text] \<and> posix_words text = Some [''/bin/qemu'', ''-name'', ''it'' @ [CHR 0x27] @ ''s mine'', '''']"
proof -
  have name: "validateName ''home-assistant'' = None" by code_simp
  have load: "Load sample_store sample_library sample_host ''home-assistant'' = Inr sample_config"
    by (simp add: Load_def name sample_stored)
  have "cfg_backend sample_config = BackendQEMU" by (simp add: sample_config_def BackendQEMU_def)
  then have run: "runShowcmd sample_cli [BackendQEMU \<mapsto> Inr (Some sample_command)] (\<lambda>b c p. Inr b) [''home-assistant''] sample_host
      = Inr [OutText (join_with '' '' (List.map quotePOSIX (cmd_path sample_command # cmd_args sample_command)) @ [newline])]"
    by (simp add: runShowcmd_def nameBeforeFlags_def sample_cli_def load Lookup_def)
  from showcmd_reads_back [OF run] load \<open>cfg_backend sample_config = BackendQEMU\<close>
  have "posix_words (join_with '' '' (List.map quotePOSIX (cmd_path sample_command # cmd_args sample_command)) @ [newline])
      = Some (cmd_path sample_command # cmd_args sample_command)"
    by (auto simp: Lookup_def sample_cli_def)
  then have "posix_words (join_with '' '' (List.map quotePOSIX (cmd_path sample_command # cmd_args sample_command)) @ [newline])
      = Some [''/bin/qemu'', ''-name'', ''it'' @ [CHR 0x27] @ ''s mine'', '''']"
    by (simp only: sample_command_def Command.simps)
  with run show ?thesis by blast
qed

section \<open>A deletion leaves no job behind\<close>

lemma printLoaded_explains: "printLoaded m env d i w = (Inl es, w') \<Longrightarrow> es \<noteq> []"
  by (auto simp: printLoaded_def Let_def split: prod.splits cmd_outcome.splits if_splits)

lemma domain_status_clear:
  assumes "runner_laws m (cfg_id c) (ln_run env)" and "domain_status m env c x d scope w = (Inr ds, w')"
    and "ds_error ds = []" "\<not> ds_file_present ds" "\<not> ds_loaded ds"
  shows "job_at m (cfg_id c) d w = (None, False) \<and> wd_files w' = wd_files w \<and> wd_jobs w' = wd_jobs w"
proof -
  obtain r w1 where printed: "printLoaded m env d (cfg_id c) w = (r, w1)" by fastforce
  note effect = printLoaded_run [OF assms(1) printed]
  show ?thesis
  proof (cases "inspectPath m env d (cfg_id c) w")
    case (Inl e)
    with assms(2) show ?thesis by (simp add: domain_status_def bindS_def gives_def)
  next
    case (Inr p)
    have "r = Inr False \<and> w' = w1 \<and> \<not> pi_present p"
      using assms(2-5) printed printLoaded_explains [of m env d "cfg_id c" w _ w1]
      by (cases r; cases "renderForConfig m (c\<lparr>cfg_autostart_scope := scope\<rparr>) x")
        (auto simp: domain_status_def bindS_def gives_def lift_result_def Inr split: if_splits)
    with effect inspect_absent [OF Inr] show ?thesis by (auto simp: job_at_def)
  qed
qed

lemma inspected_clear:
  assumes laws: "runner_laws m (cfg_id c) (ln_run env)"
    and load: "Load (mg_store m) (ln_library env) h (cfg_name c) = Inr c"
    and clear: "delete_inspector m env w (cfg_id c) c paths h = None"
  shows "job_at m (cfg_id c) d w = (None, False)"
proof -
  let ?w = "w\<lparr>wd_host := h\<rparr>"
  from clear obtain scope login boot where st: "fst (launchd_status m env (cfg_name c) ?w) = Inr (scope, login, boot)"
    and none: "ds_error login = []" "ds_error boot = []" "\<not> ds_file_present login" "\<not> ds_loaded login"
      "\<not> ds_file_present boot" "\<not> ds_loaded boot"
    by (auto simp: delete_inspector_def split: if_splits sum.splits)
  from st load obtain x w1 w2 where
    "domain_status m env c x DomainLogin AutostartLogin ?w = (Inr login, w1)"
    "domain_status m env c x DomainSystem AutostartBoot w1 = (Inr boot, w2)"
    by (auto simp: launchd_status_def bindS_def gives_def lift_result_def split: prod.splits sum.splits)
  with domain_status_clear [OF laws this(1)] domain_status_clear [OF laws this(2)] none
  show ?thesis by (cases d) (simp_all add: job_at_def)
qed

text \<open>C39. A machine that \<open>delete\<close> has deleted is gone everywhere, and was allowed to be: the user forced it or
  agreed on a terminal, it had no autostart scope, nobody held its lifetime lock, and it was still the
  machine that was loaded first; neither launchd domain has a list or a loaded job of it, and nothing is
  left of its directory, its logs and its runtime files.\<close>

theorem delete_leaves_nothing:
  assumes "runDelete m env io args w = (Inr Deleted, w')"
    and "Load (mg_store m) (ln_library env) (wd_host w) (hd args) = Inr c"
    and "runner_laws m (cfg_id c) (ln_run env)"
  shows "(parse_force (tl args) = Inr True \<or> io_stdin io \<and> io_stdout io \<and> io_confirm io = Some (Inr True))
    \<and> cfg_autostart_scope c = AutostartNone
    \<and> \<not> lock_held (wd_host w) (p_lifetime_lock (store_paths (mg_store m) c))
    \<and> (\<forall>d. job_at m (cfg_id c) d w' = (None, False))
    \<and> (\<forall>p \<in> {p_vm_dir (store_paths (mg_store m) c), parent_dir (p_qemu_log (store_paths (mg_store m) c)),
             p_runtime_dir (store_paths (mg_store m) c)}. \<forall>q. under p q \<longrightarrow> h_fs (wd_host w') q = None)"
proof -
  let ?s = "mg_store m" and ?L = "ln_library env" and ?ins = "delete_inspector m env w (cfg_id c)"
  from assms(1,2) obtain force h' where force: "parse_force (tl args) = Inr force"
    and scope: "cfg_autostart_scope c = AutostartNone" and consent: "delete_consent io force = Inr True"
    and del: "Delete ?s ?L (Some ?ins) (hd args) (wd_host w) = (Inr (), h')" and w': "w' = w\<lparr>wd_host := h'\<rparr>"
    by (auto simp: runDelete_def split: if_splits sum.splits bool.splits prod.splits)
  obtain d hi where d: "cfg_name d = hd args" "keeps (wd_host w) hi" "?ins d (store_paths ?s d) hi = None"
    and free: "\<not> lock_held (wd_host w) (p_lifetime_lock (store_paths ?s d))"
    and gone: "\<And>p q. p \<in> set (create_candidates ?s d) \<Longrightarrow> under p q \<Longrightarrow> h_fs h' q = None"
    using Delete_success [OF del] by blast
  have ident: "cfg_id d = cfg_id c" using d(3) by (auto simp: delete_inspector_def split: if_splits)
  have name: "cfg_name c = hd args" by (rule Load_name [OF assms(2)])
  have same: "store_paths ?s d = store_paths ?s c" using ident name d(1) by (simp add: store_paths_def Let_def)
  have "Load ?s ?L hi (cfg_name c) = Inr c"
    using assms(2) loadUnlocked_keeps [OF d(2)] name by (auto simp: Load_def split: option.splits)
  moreover have "?ins c (store_paths ?s c) hi = None"
    using d(3) ident name d(1) by (simp add: delete_inspector_def)
  ultimately have "\<forall>e. job_at m (cfg_id c) e w = (None, False)" using inspected_clear [OF assms(3)] by blast
  moreover have "parse_force (tl args) = Inr True \<or> io_stdin io \<and> io_stdout io \<and> io_confirm io = Some (Inr True)"
    using consent force by (auto simp: delete_consent_def split: if_splits option.splits sum.splits)
  moreover have "{p_vm_dir (store_paths ?s c), parent_dir (p_qemu_log (store_paths ?s c)), p_runtime_dir (store_paths ?s c)}
      \<subseteq> set (create_candidates ?s d)"
    by (simp add: create_candidates_def same [symmetric] Let_def)
  ultimately show ?thesis using free scope gone same w' by (auto simp: job_at_def)
qed

text \<open>The stored machine, without any list or job, deleted with \<open>--force\<close>.\<close>

definition clear_world :: world where
  "clear_world = \<lparr>wd_host = sample_host, wd_files = Map.empty, wd_jobs = {}, wd_cmds = []\<rparr>"

lemma clear_world_simps [simp]:
  "wd_host clear_world = sample_host" "wd_files clear_world = Map.empty" "wd_jobs clear_world = {}"
  "mg_store sample_manager = sample_store" "ln_library (sample_launchd b) = sample_library"
  by (simp_all add: clear_world_def sample_manager_def sample_launchd_def)

lemma clear_status:
  assumes "Load sample_store sample_library h ''home-assistant'' = Inr sample_config"
  shows "delete_inspector sample_manager (sample_launchd None) clear_world (cfg_id sample_config) sample_config paths h = None"
proof -
  have domain: "domain_status sample_manager (sample_launchd None) sample_config x d scope w
      = (Inr \<lparr>ds_file_present = False, ds_file_match = False, ds_loaded = False, ds_error = []\<rparr>,
         w\<lparr>wd_cmds := wd_cmds w @ [Print (job_target sample_manager d (cfg_id sample_config))]\<rparr>)"
    if "wd_files w = Map.empty" "wd_jobs w = {}" for x d scope w
    using that
    by (simp add: domain_status_def bindS_def gives_def lift_result_def sample_print inspectPath_def Let_def)
      (simp add: sample_launchd_def)
  have "stableExecutable (sample_launchd None) (mg_executable sample_manager) = Inr (Clean ''/opt/qemu-manage'')"
    by (simp add: stableExecutable_def sample_manager_def sample_launchd_def is_abs_path_iff)
  then show ?thesis
    using assms
    by (simp add: delete_inspector_def launchd_status_def bindS_def gives_def lift_result_def domain sample_name)
qed

theorem delete_leaves_nothing_witness:
  "(\<forall>d. job_at sample_manager (cfg_id sample_config) d
          (snd (runDelete sample_manager (sample_launchd None) \<lparr>io_stdin = False, io_stdout = False, io_confirm = None\<rparr>
                  [''home-assistant'', ''--force''] clear_world)) = (None, False))"
proof -
  let ?io = "\<lparr>io_stdin = False, io_stdout = False, io_confirm = None\<rparr>"
  let ?run = "runDelete sample_manager (sample_launchd None) ?io [''home-assistant'', ''--force''] clear_world"
  let ?ins = "delete_inspector sample_manager (sample_launchd None) clear_world (cfg_id sample_config)"
  have name: "validateName ''home-assistant'' = None" by code_simp
  have load: "Load sample_store sample_library sample_host ''home-assistant'' = Inr sample_config"
    by (simp add: Load_def name sample_stored)

  have force: "parse_force [''--force''] = Inr True" by code_simp
  obtain h1 where lock: "tryLifetime sample_store (after_lock sample_host) (cfg_id sample_config) = (Inr (Acquired 8), h1)"
    and fault: "h_fault h1 = (\<lambda>_ _. False)"
    using sample_tryLifetime by blast
  have "loadUnlocked sample_store sample_library h1 ''home-assistant'' = Inr sample_config"
    using loadUnlocked_keeps [OF _ sample_load] tryLifetime_keeps [of "after_lock sample_host" sample_store "cfg_id sample_config"] lock
    by simp
  then have "Load sample_store sample_library h1 ''home-assistant'' = Inr sample_config" by (simp add: Load_def name)
  then have inspected: "?ins sample_config p h1 = None" for p by (rule clear_status)
  have "fst (remove_managed sample_store sample_config h1) = Inr ()"
    by (simp add: remove_managed_def remove_all_def fault Let_def)
  then have "fst (lockedDelete sample_store sample_library ?ins ''home-assistant'' (after_lock sample_host)) = Inr ()"
    by (simp add: lockedDelete_def sample_load lock inspected) (simp add: sample_name)
  then have "fst (Delete sample_store sample_library (Some ?ins) ''home-assistant'' sample_host) = Inr ()"
    by (simp add: Delete_def sample_LockName)
  then obtain h' where "Delete sample_store sample_library (Some ?ins) ''home-assistant'' sample_host = (Inr (), h')"
    by (metis prod.collapse)
  moreover have "cfg_autostart_scope sample_config = AutostartNone" by (simp add: sample_config_def AutostartNone_def)
  ultimately have run: "?run = (Inr Deleted, clear_world\<lparr>wd_host := h'\<rparr>)"
    using load force by (simp add: runDelete_def delete_consent_def has_prefix_def)
  have "Load (mg_store sample_manager) (ln_library (sample_launchd None)) (wd_host clear_world)
      (hd [''home-assistant'', ''--force'']) = Inr sample_config"
    using load by simp
  from delete_leaves_nothing [OF run this sample_runner_laws] show ?thesis by (simp add: run)
qed

end
