(* ===== verification/CliMonitor.thy ===== *)
theory CliMonitor
  imports CliInfo MonitorHttp
begin

text \<open>
  The client of the monitoring service in \<open>internal/cli/info.go\<close>: one bounded request to \<open>/info\<close> and one to
  \<open>/status\<close>, decoded, validated and checked against the authenticated run, and the command \<open>info\<close>, which
  shows what they say. The HTTP exchange, reading JSON text and the texts of floats are parameters.
\<close>

section \<open>One request\<close>

definition maxMonitoringResponseBytes :: nat where "maxMonitoringResponseBytes = 128 * 2 ^ 20"

text \<open>What an exchange gives: an error (a redirect is one), or the status, the media type if the content
  type parses, the body, and the errors of reading and of closing it.\<close>

record http_answer =
  ha_status :: nat
  ha_media :: "string option"
  ha_body :: string
  ha_read_err :: "string option"
  ha_close_err :: "string option"

datatype monitoring_error =
    MonGet string string | MonClose string string | MonStatus string nat | MonContentType string
  | MonRead string string | MonTooLarge string | MonInvalidJSON string
  | MonMissing string string | MonInvalidField string string | MonVersion string int
  | MonIdentity string | MonRun | MonNoIdentity

text \<open>The standard library: \<open>json.Valid\<close> and the value of a text, numbers as \<open>float64\<close>, RFC 3339 instants
  in nanoseconds, the order in which a Go map is iterated, the text of floats and instants.\<close>

record monitor_reader =
  mr_json :: "string \<Rightarrow> json option"
  mr_float :: "string \<Rightarrow> rat option"
  mr_time :: "string \<Rightarrow> int option"
  mr_order :: "string list \<Rightarrow> string list"
  mr_fixed :: "rat \<Rightarrow> string"
  mr_tenths :: "rat \<Rightarrow> string"
  mr_duration :: "int \<Rightarrow> string"
  mr_printable :: "string \<Rightarrow> bool"
  mr_error :: "monitoring_error \<Rightarrow> string"

definition equal_fold :: "string \<Rightarrow> string \<Rightarrow> bool" where
  "equal_fold a b \<longleftrightarrow> fold_name a = fold_name b"

definition fetchMonitoringEndpoint ::
  "monitor_reader \<Rightarrow> (string \<Rightarrow> string + http_answer) \<Rightarrow> string \<Rightarrow> monitoring_error + string" where
  "fetchMonitoringEndpoint R get path =
     (case get path of
        Inl e \<Rightarrow> Inl (MonGet path e)
      | Inr a \<Rightarrow>
          if ha_status a \<noteq> 200 then
            Inl (case ha_close_err a of Some e \<Rightarrow> MonClose path e | None \<Rightarrow> MonStatus path (ha_status a))
          else if (case ha_media a of None \<Rightarrow> True | Some m \<Rightarrow> \<not> equal_fold m ''application/json'') then
            Inl (case ha_close_err a of Some e \<Rightarrow> MonClose path e | None \<Rightarrow> MonContentType path)
          else case (if length (ha_body a) \<le> maxMonitoringResponseBytes then ha_read_err a else None) of
            Some e \<Rightarrow> Inl (MonRead path e)
          | None \<Rightarrow>
              (case ha_close_err a of
                 Some e \<Rightarrow> Inl (MonClose path e)
               | None \<Rightarrow>
                   if maxMonitoringResponseBytes < length (ha_body a) then Inl (MonTooLarge path)
                   else if mr_json R (ha_body a) = None then Inl (MonInvalidJSON path)
                   else Inr (ha_body a)))"

section \<open>Decoding\<close>

definition into_float :: "monitor_reader \<Rightarrow> rat into" where
  "into_float R x v =
     (case v of JNull \<Rightarrow> Some x | JNumber lit \<Rightarrow> mr_float R lit | _ \<Rightarrow> None)"

definition into_uint64 :: "u64 into" where
  "into_uint64 x v =
     (case v of
        JNull \<Rightarrow> Some x
      | JNumber lit \<Rightarrow> (case parse_dec lit of None \<Rightarrow> None | Some n \<Rightarrow> if n < 2 ^ 64 then Some (of_nat n) else None)
      | _ \<Rightarrow> None)"

text \<open>An instant; \<open>null\<close> leaves it as it was.\<close>

definition into_time :: "monitor_reader \<Rightarrow> int into" where
  "into_time R x v = (case v of JNull \<Rightarrow> Some x | JString s \<Rightarrow> mr_time R s | _ \<Rightarrow> None)"



text \<open>A map with string keys; an element starts from its zero value, \<open>null\<close> makes the map nil.\<close>

fun into_entries :: "'a \<Rightarrow> 'a into \<Rightarrow> (string \<times> 'a) list \<Rightarrow> (string \<times> json) list \<Rightarrow> (string \<times> 'a) list option" where
  "into_entries zero d m [] = Some m"
| "into_entries zero d m ((k, v) # kvs) =
     (case d zero v of None \<Rightarrow> None | Some x \<Rightarrow> into_entries zero d (AList.update k x m) kvs)"

definition into_map :: "'a \<Rightarrow> 'a into \<Rightarrow> (string \<times> 'a) list option into" where
  "into_map zero d x v =
     (case v of
        JNull \<Rightarrow> Some None
      | JObject kvs \<Rightarrow> map_option Some (into_entries zero d (case x of None \<Rightarrow> [] | Some m \<Rightarrow> m) kvs)
      | _ \<Rightarrow> None)"

text \<open>The members of a struct that the command does not look at only have to fit their types.\<close>

datatype shape = FitString | FitBool | FitInt | FitUint | FitFloat | FitUints

definition fits :: "monitor_reader \<Rightarrow> shape \<Rightarrow> json \<Rightarrow> bool" where
  "fits R sh v =
     (case sh of
        FitString \<Rightarrow> into_string [] v \<noteq> None
      | FitBool \<Rightarrow> into_bool False v \<noteq> None
      | FitInt \<Rightarrow> into_int64 0 v \<noteq> None
      | FitUint \<Rightarrow> into_uint64 0 v \<noteq> None
      | FitFloat \<Rightarrow> into_float R 0 v \<noteq> None
      | FitUints \<Rightarrow> into_map 0 into_uint64 None v \<noteq> None)"

definition fit_members :: "monitor_reader \<Rightarrow> (string \<times> shape) list \<Rightarrow> (string \<times> json) list \<Rightarrow> bool" where
  "fit_members R shapes kvs \<longleftrightarrow> list_all (\<lambda>(name, sh). list_all (fits R sh) (members name kvs)) shapes"

abbreviation ptr :: "'a \<Rightarrow> 'a into \<Rightarrow> string \<Rightarrow> (string \<times> json) list \<Rightarrow> 'a option option" where
  "ptr zero d name kvs \<equiv> field (into_pointer zero d) None name kvs"

text \<open>\<open>monitoringInfoResponse\<close>: every member is a pointer.\<close>

record infoVM =
  iv_id :: "string option"
  iv_name :: "string option"
  iv_cpus :: "int option"
  iv_memory :: "int option"

record versionInfo =
  vi_major :: "int option"
  vi_minor :: "int option"
  vi_micro :: "int option"
  vi_package :: "string option"

record infoQEMU =
  iq_version :: "versionInfo option"
  iq_accelerator :: "string option"

record infoAgent =
  ia_configured :: "bool option"
  ia_version :: "string option"
  ia_capabilities :: "(string \<times> bool) list option"

record infoResponse =
  ir_api :: "int option"
  ir_vm :: "infoVM option"
  ir_qemu :: "infoQEMU option"
  ir_agent :: "infoAgent option"

definition no_info_vm :: infoVM where "no_info_vm = \<lparr>iv_id = None, iv_name = None, iv_cpus = None, iv_memory = None\<rparr>"

definition no_version :: versionInfo where
  "no_version = \<lparr>vi_major = None, vi_minor = None, vi_micro = None, vi_package = None\<rparr>"

definition no_info_qemu :: infoQEMU where "no_info_qemu = \<lparr>iq_version = None, iq_accelerator = None\<rparr>"

definition no_info_agent :: infoAgent where
  "no_info_agent = \<lparr>ia_configured = None, ia_version = None, ia_capabilities = None\<rparr>"

definition no_info :: infoResponse where
  "no_info = \<lparr>ir_api = None, ir_vm = None, ir_qemu = None, ir_agent = None\<rparr>"

definition info_vm_members :: "infoVM \<Rightarrow> (string \<times> json) list \<Rightarrow> infoVM option" where
  "info_vm_members x kvs =
     Option.bind (field (into_pointer [] into_string) (iv_id x) ''id'' kvs) (\<lambda>i.
     Option.bind (field (into_pointer [] into_string) (iv_name x) ''name'' kvs) (\<lambda>n.
     Option.bind (field (into_pointer 0 into_int64) (iv_cpus x) ''cpus'' kvs) (\<lambda>c.
     Option.bind (field (into_pointer 0 into_int64) (iv_memory x) ''memory_mib'' kvs) (\<lambda>m.
       Some \<lparr>iv_id = i, iv_name = n, iv_cpus = c, iv_memory = m\<rparr>))))"

definition version_members :: "versionInfo \<Rightarrow> (string \<times> json) list \<Rightarrow> versionInfo option" where
  "version_members x kvs =
     Option.bind (field (into_pointer 0 into_int64) (vi_major x) ''major'' kvs) (\<lambda>a.
     Option.bind (field (into_pointer 0 into_int64) (vi_minor x) ''minor'' kvs) (\<lambda>b.
     Option.bind (field (into_pointer 0 into_int64) (vi_micro x) ''micro'' kvs) (\<lambda>c.
     Option.bind (field (into_pointer [] into_string) (vi_package x) ''package'' kvs) (\<lambda>p.
       Some \<lparr>vi_major = a, vi_minor = b, vi_micro = c, vi_package = p\<rparr>))))"

definition info_qemu_members :: "infoQEMU \<Rightarrow> (string \<times> json) list \<Rightarrow> infoQEMU option" where
  "info_qemu_members x kvs =
     Option.bind (field (into_pointer no_version (into_struct version_members)) (iq_version x) ''version'' kvs) (\<lambda>v.
     Option.bind (field (into_pointer [] into_string) (iq_accelerator x) ''accelerator'' kvs) (\<lambda>a.
       Some \<lparr>iq_version = v, iq_accelerator = a\<rparr>))"

text \<open>A pointer to a map: \<open>null\<close> makes the pointer nil.\<close>

definition into_map_pointer :: "'a \<Rightarrow> 'a into \<Rightarrow> (string \<times> 'a) list option into" where
  "into_map_pointer = into_map"

definition info_agent_members :: "infoAgent \<Rightarrow> (string \<times> json) list \<Rightarrow> infoAgent option" where
  "info_agent_members x kvs =
     Option.bind (field (into_pointer False into_bool) (ia_configured x) ''configured'' kvs) (\<lambda>c.
     Option.bind (field (into_pointer [] into_string) (ia_version x) ''version'' kvs) (\<lambda>v.
     Option.bind (field (into_map_pointer False into_bool) (ia_capabilities x) ''capabilities'' kvs) (\<lambda>m.
       Some \<lparr>ia_configured = c, ia_version = v, ia_capabilities = m\<rparr>)))"

definition info_members :: "infoResponse \<Rightarrow> (string \<times> json) list \<Rightarrow> infoResponse option" where
  "info_members x kvs =
     Option.bind (field (into_pointer 0 into_int64) (ir_api x) ''api_version'' kvs) (\<lambda>api.
     Option.bind (field (into_pointer no_info_vm (into_struct info_vm_members)) (ir_vm x) ''vm'' kvs) (\<lambda>vm.
     Option.bind (field (into_pointer no_info_qemu (into_struct info_qemu_members)) (ir_qemu x) ''qemu'' kvs) (\<lambda>q.
     Option.bind (field (into_pointer no_info_agent (into_struct info_agent_members)) (ir_agent x) ''guest_agent'' kvs) (\<lambda>g.
       Some \<lparr>ir_api = api, ir_vm = vm, ir_qemu = q, ir_agent = g\<rparr>))))"

text \<open>\<open>monitoringStatusResponse\<close>.\<close>

record statusHealth =
  sh_status :: "string option"
  sh_code :: string

record statusVM =
  sv_id :: "string option"
  sv_name :: "string option"
  sv_state :: "string option"
  sv_started :: "int option"
  sv_uptime :: "rat option"

record statusProcess =
  sc_stats_up :: "bool option"
  sc_pid :: "int option"
  sc_cpu :: "(rat \<times> rat) option"
  sc_resident :: "u64 option"
  sc_threads :: "int option"

record blockInfo =
  bi_device :: string
  bi_status :: "string option"
  bi_read :: "u64 option"
  bi_written :: "u64 option"

record statusAgent =
  sa_configured :: "bool option"
  sa_up :: "bool option"
  sa_version :: "string option"

record networkInfo =
  ni_name :: string
  ni_addresses :: "GuestIPAddress list option"

record statusGuest =
  sg_load :: "GuestLoad option"
  sg_filesystems :: "GuestFilesystem list option"
  sg_networks :: "networkInfo list option"

record statusResponse =
  sp_api :: "int option"
  sp_observed :: "int option"
  sp_health :: "statusHealth option"
  sp_vm :: "statusVM option"
  sp_qmp :: "versionInfo option option"
  sp_process :: "statusProcess option"
  sp_blocks :: "blockInfo list option"
  sp_agent :: "statusAgent option"
  sp_collectors :: "(string \<times> string \<times> string) list option"
  sp_guest :: "statusGuest option"

definition no_status_vm :: statusVM where
  "no_status_vm = \<lparr>sv_id = None, sv_name = None, sv_state = None, sv_started = None, sv_uptime = None\<rparr>"

definition no_process :: statusProcess where
  "no_process = \<lparr>sc_stats_up = None, sc_pid = None, sc_cpu = None, sc_resident = None, sc_threads = None\<rparr>"

definition no_block :: blockInfo where "no_block = \<lparr>bi_device = [], bi_status = None, bi_read = None, bi_written = None\<rparr>"

definition no_status_agent :: statusAgent where
  "no_status_agent = \<lparr>sa_configured = None, sa_up = None, sa_version = None\<rparr>"

definition no_load :: GuestLoad where "no_load = \<lparr>gl_load1 = None, gl_load5 = None, gl_load15 = None\<rparr>"

definition no_filesystem :: GuestFilesystem where
  "no_filesystem = \<lparr>gf_mountpoint = [], gf_type = [], gf_size = None, gf_used = None\<rparr>"

definition no_address :: GuestIPAddress where "no_address = \<lparr>ip_address = [], ip_family = [], ip_prefix = 0\<rparr>"

definition no_status :: statusResponse where
  "no_status =
     \<lparr>sp_api = None, sp_observed = None, sp_health = None, sp_vm = None, sp_qmp = None, sp_process = None,
      sp_blocks = None, sp_agent = None, sp_collectors = None, sp_guest = None\<rparr>"

definition health_members :: "statusHealth \<Rightarrow> (string \<times> json) list \<Rightarrow> statusHealth option" where
  "health_members x kvs =
     Option.bind (field (into_pointer [] into_string) (sh_status x) ''status'' kvs) (\<lambda>s.
     Option.bind (field into_string (sh_code x) ''code'' kvs) (\<lambda>c. Some \<lparr>sh_status = s, sh_code = c\<rparr>))"

definition status_vm_members :: "monitor_reader \<Rightarrow> statusVM \<Rightarrow> (string \<times> json) list \<Rightarrow> statusVM option" where
  "status_vm_members R x kvs =
     Option.bind (field (into_pointer [] into_string) (sv_id x) ''id'' kvs) (\<lambda>i.
     Option.bind (field (into_pointer [] into_string) (sv_name x) ''name'' kvs) (\<lambda>n.
     Option.bind (field (into_pointer [] into_string) (sv_state x) ''state'' kvs) (\<lambda>s.
     Option.bind (field (into_pointer zero_time (into_time R)) (sv_started x) ''started_at'' kvs) (\<lambda>t.
     Option.bind (field (into_pointer 0 (into_float R)) (sv_uptime x) ''uptime_seconds'' kvs) (\<lambda>u.
       Some \<lparr>sv_id = i, sv_name = n, sv_state = s, sv_started = t, sv_uptime = u\<rparr>)))))"

definition cpu_members :: "monitor_reader \<Rightarrow> rat \<times> rat \<Rightarrow> (string \<times> json) list \<Rightarrow> (rat \<times> rat) option" where
  "cpu_members R x kvs =
     Option.bind (field (into_float R) (fst x) ''user'' kvs) (\<lambda>u.
     Option.bind (field (into_float R) (snd x) ''system'' kvs) (\<lambda>s. Some (u, s)))"

definition process_members :: "monitor_reader \<Rightarrow> statusProcess \<Rightarrow> (string \<times> json) list \<Rightarrow> statusProcess option" where
  "process_members R x kvs =
     Option.bind (field (into_pointer False into_bool) (sc_stats_up x) ''stats_up'' kvs) (\<lambda>b.
     Option.bind (field (into_pointer 0 into_int64) (sc_pid x) ''pid'' kvs) (\<lambda>p.
     Option.bind (field (into_pointer (0, 0) (into_struct (cpu_members R))) (sc_cpu x) ''cpu_seconds'' kvs) (\<lambda>c.
     Option.bind (field (into_pointer 0 into_uint64) (sc_resident x) ''resident_memory_bytes'' kvs) (\<lambda>r.
     Option.bind (field (into_pointer 0 into_int64) (sc_threads x) ''threads'' kvs) (\<lambda>t.
       Some \<lparr>sc_stats_up = b, sc_pid = p, sc_cpu = c, sc_resident = r, sc_threads = t\<rparr>)))))"

definition block_shapes :: "(string \<times> shape) list" where
  "block_shapes =
     [(''unmap_bytes'', FitUint), (''read_operations'', FitUint), (''write_operations'', FitUint),
      (''flush_operations'', FitUint), (''unmap_operations'', FitUint), (''read_seconds'', FitFloat),
      (''write_seconds'', FitFloat), (''flush_seconds'', FitFloat), (''unmap_seconds'', FitFloat),
      (''failed_operations'', FitUints), (''invalid_operations'', FitUints), (''idle_seconds'', FitFloat)]"

definition block_members :: "monitor_reader \<Rightarrow> blockInfo \<Rightarrow> (string \<times> json) list \<Rightarrow> blockInfo option" where
  "block_members R x kvs =
     (if \<not> fit_members R block_shapes kvs then None
      else
        Option.bind (field into_string (bi_device x) ''device'' kvs) (\<lambda>d.
        Option.bind (field (into_pointer [] into_string) (bi_status x) ''io_status'' kvs) (\<lambda>s.
        Option.bind (field (into_pointer 0 into_uint64) (bi_read x) ''read_bytes'' kvs) (\<lambda>r.
        Option.bind (field (into_pointer 0 into_uint64) (bi_written x) ''write_bytes'' kvs) (\<lambda>w.
          Some \<lparr>bi_device = d, bi_status = s, bi_read = r, bi_written = w\<rparr>)))))"

definition status_agent_members :: "statusAgent \<Rightarrow> (string \<times> json) list \<Rightarrow> statusAgent option" where
  "status_agent_members x kvs =
     Option.bind (field (into_pointer False into_bool) (sa_configured x) ''configured'' kvs) (\<lambda>c.
     Option.bind (field (into_pointer False into_bool) (sa_up x) ''up'' kvs) (\<lambda>u.
     Option.bind (field (into_pointer [] into_string) (sa_version x) ''version'' kvs) (\<lambda>v.
       Some \<lparr>sa_configured = c, sa_up = u, sa_version = v\<rparr>)))"

definition collector_members :: "string \<times> string \<Rightarrow> (string \<times> json) list \<Rightarrow> (string \<times> string) option" where
  "collector_members x kvs =
     Option.bind (field into_string (fst x) ''status'' kvs) (\<lambda>s.
     Option.bind (field into_string (snd x) ''code'' kvs) (\<lambda>c. Some (s, c)))"

definition load_members :: "monitor_reader \<Rightarrow> GuestLoad \<Rightarrow> (string \<times> json) list \<Rightarrow> GuestLoad option" where
  "load_members R x kvs =
     Option.bind (field (into_pointer 0 (into_float R)) (gl_load1 x) ''load1'' kvs) (\<lambda>a.
     Option.bind (field (into_pointer 0 (into_float R)) (gl_load5 x) ''load5'' kvs) (\<lambda>b.
     Option.bind (field (into_pointer 0 (into_float R)) (gl_load15 x) ''load15'' kvs) (\<lambda>c.
       Some \<lparr>gl_load1 = a, gl_load5 = b, gl_load15 = c\<rparr>)))"

definition filesystem_members :: "GuestFilesystem \<Rightarrow> (string \<times> json) list \<Rightarrow> GuestFilesystem option" where
  "filesystem_members x kvs =
     Option.bind (field into_string (gf_mountpoint x) ''mountpoint'' kvs) (\<lambda>m.
     Option.bind (field into_string (gf_type x) ''fstype'' kvs) (\<lambda>t.
     Option.bind (field (into_pointer 0 into_uint64) (gf_size x) ''size_bytes'' kvs) (\<lambda>s.
     Option.bind (field (into_pointer 0 into_uint64) (gf_used x) ''used_bytes'' kvs) (\<lambda>u.
       Some \<lparr>gf_mountpoint = m, gf_type = t, gf_size = s, gf_used = u\<rparr>))))"

definition address_members :: "GuestIPAddress \<Rightarrow> (string \<times> json) list \<Rightarrow> GuestIPAddress option" where
  "address_members x kvs =
     Option.bind (field into_string (ip_address x) ''address'' kvs) (\<lambda>a.
     Option.bind (field into_string (ip_family x) ''family'' kvs) (\<lambda>f.
     Option.bind (field into_int64 (ip_prefix x) ''prefix'' kvs) (\<lambda>p.
       Some \<lparr>ip_address = a, ip_family = f, ip_prefix = p\<rparr>)))"

definition network_members :: "networkInfo \<Rightarrow> (string \<times> json) list \<Rightarrow> networkInfo option" where
  "network_members x kvs =
     Option.bind (field into_string (ni_name x) ''name'' kvs) (\<lambda>n.
     Option.bind (field (into_slice no_address (into_struct address_members)) (ni_addresses x) ''addresses'' kvs) (\<lambda>a.
       Some \<lparr>ni_name = n, ni_addresses = a\<rparr>))"

text \<open>A guest disk: nothing of it is shown.\<close>

definition disk_shapes :: "(string \<times> shape) list" where
  "disk_shapes =
     (''device'', FitString) # List.map (\<lambda>(name, _, time). (name, if time then FitFloat else FitUint)) disk_members"

definition guest_members :: "monitor_reader \<Rightarrow> statusGuest \<Rightarrow> (string \<times> json) list \<Rightarrow> statusGuest option" where
  "guest_members R x kvs =
     Option.bind (field (into_pointer no_load (into_struct (load_members R))) (sg_load x) ''load'' kvs) (\<lambda>l.
     Option.bind (field (into_slice no_filesystem (into_struct filesystem_members)) (sg_filesystems x) ''filesystems'' kvs) (\<lambda>f.
     Option.bind (field (into_slice \<lparr>ni_name = [], ni_addresses = None\<rparr> (into_struct network_members)) (sg_networks x)
                   ''network_interfaces'' kvs) (\<lambda>n.
     Option.bind (field (into_slice () (into_struct (\<lambda>x kvs. if fit_members R disk_shapes kvs then Some x else None))) None
                   ''disks'' kvs) (\<lambda>_.
       Some \<lparr>sg_load = l, sg_filesystems = f, sg_networks = n\<rparr>))))"

definition status_members :: "monitor_reader \<Rightarrow> statusResponse \<Rightarrow> (string \<times> json) list \<Rightarrow> statusResponse option" where
  "status_members R x kvs =
     Option.bind (field (into_pointer 0 into_int64) (sp_api x) ''api_version'' kvs) (\<lambda>api.
     Option.bind (field (into_pointer zero_time (into_time R)) (sp_observed x) ''observed_at'' kvs) (\<lambda>t.
     Option.bind (field (into_pointer \<lparr>sh_status = None, sh_code = []\<rparr> (into_struct health_members)) (sp_health x) ''health'' kvs) (\<lambda>h.
     Option.bind (field (into_pointer no_status_vm (into_struct (status_vm_members R))) (sp_vm x) ''vm'' kvs) (\<lambda>vm.
     Option.bind (field (into_pointer None (into_struct (\<lambda>v kvs.
         field (into_pointer no_version (into_struct version_members)) v ''version'' kvs))) (sp_qmp x) ''qmp'' kvs) (\<lambda>q.
     Option.bind (field (into_pointer no_process (into_struct (process_members R))) (sp_process x) ''process'' kvs) (\<lambda>p.
     Option.bind (field (into_slice no_block (into_struct (block_members R))) (sp_blocks x) ''block_devices'' kvs) (\<lambda>b.
     Option.bind (field (into_pointer no_status_agent (into_struct status_agent_members)) (sp_agent x) ''guest_agent'' kvs) (\<lambda>a.
     Option.bind (field (into_map_pointer ([], []) (into_struct collector_members)) (sp_collectors x) ''collectors'' kvs) (\<lambda>c.
     Option.bind (field (into_pointer \<lparr>sg_load = None, sg_filesystems = None, sg_networks = None\<rparr>
         (into_struct (guest_members R))) (sp_guest x) ''guest'' kvs) (\<lambda>g.
       Some \<lparr>sp_api = api, sp_observed = t, sp_health = h, sp_vm = vm, sp_qmp = q, sp_process = p, sp_blocks = b,
             sp_agent = a, sp_collectors = c, sp_guest = g\<rparr>))))))))))"

section \<open>Validation\<close>

definition required :: "string \<Rightarrow> string \<Rightarrow> 'a option \<Rightarrow> ('a \<Rightarrow> monitoring_error option) \<Rightarrow> monitoring_error option" where
  "required path name v k = (case v of None \<Rightarrow> Some (MonMissing path name) | Some x \<Rightarrow> k x)"

definition invalid_if :: "bool \<Rightarrow> monitoring_error \<Rightarrow> monitoring_error option \<Rightarrow> monitoring_error option" where
  "invalid_if b e k = (if b then Some e else k)"

text \<open>A loop over a Go map: the entries come in some order, and the first that fails ends it.\<close>

definition each_of :: "monitor_reader \<Rightarrow> (string \<times> 'a) list \<Rightarrow> (string \<Rightarrow> 'a \<Rightarrow> monitoring_error option)
    \<Rightarrow> monitoring_error option \<Rightarrow> monitoring_error option" where
  "each_of R entries f k =
     (case first_error (List.map (\<lambda>name. f name (the (map_of entries name))) (mr_order R (List.map fst entries))) of
        Some e \<Rightarrow> Some e | None \<Rightarrow> k)"

definition validateMonitoringVersion :: "string \<Rightarrow> int option \<Rightarrow> monitoring_error option \<Rightarrow> monitoring_error option" where
  "validateMonitoringVersion path v k =
     required path ''api_version'' v (\<lambda>n. invalid_if (n \<noteq> 1) (MonVersion path n) k)"

definition validateMonitoringInfo :: "monitor_reader \<Rightarrow> string \<Rightarrow> infoResponse \<Rightarrow> monitoring_error option" where
  "validateMonitoringInfo R path r =
     (let bad = MonInvalidField path in
      validateMonitoringVersion path (ir_api r) (
      required path ''vm'' (ir_vm r) (\<lambda>vm.
      required path ''vm.id'' (iv_id vm) (\<lambda>i.
      required path ''vm.name'' (iv_name vm) (\<lambda>n.
      invalid_if (i = []) (bad ''vm.id'') (
      invalid_if (n = []) (bad ''vm.name'') (
      required path ''vm.cpus'' (iv_cpus vm) (\<lambda>c.
      invalid_if (c \<le> 0) (bad ''vm.cpus'') (
      required path ''vm.memory_mib'' (iv_memory vm) (\<lambda>m.
      invalid_if (m \<le> 0) (bad ''vm.memory_mib'') (
      required path ''qemu'' (ir_qemu r) (\<lambda>q.
      required path ''qemu.version'' (iq_version q) (\<lambda>v.
      each_of R [(''qemu.version.major'', vi_major v), (''qemu.version.minor'', vi_minor v),
                 (''qemu.version.micro'', vi_micro v)]
        (\<lambda>name x. required path name x (\<lambda>n. invalid_if (n < 0) (bad name) None)) (
      required path ''qemu.version.package'' (vi_package v) (\<lambda>_.
      required path ''qemu.accelerator'' (iq_accelerator q) (\<lambda>a.
      invalid_if (a = []) (bad ''qemu.accelerator'') (
      required path ''guest_agent'' (ir_agent r) (\<lambda>g.
      required path ''guest_agent.configured'' (ia_configured g) (\<lambda>_.
      required path ''guest_agent.version'' (ia_version g) (\<lambda>_.
      required path ''guest_agent.capabilities'' (ia_capabilities g) (\<lambda>_. None)))))))))))))))))))))"

definition validateMonitoringStatus :: "monitor_reader \<Rightarrow> string \<Rightarrow> statusResponse \<Rightarrow> monitoring_error option" where
  "validateMonitoringStatus R path r =
     (let bad = MonInvalidField path in
      validateMonitoringVersion path (sp_api r) (
      required path ''observed_at'' (sp_observed r) (\<lambda>t.
      invalid_if (t = zero_time) (bad ''observed_at'') (
      required path ''health'' (sp_health r) (\<lambda>h.
      required path ''health.status'' (sh_status h) (\<lambda>s.
      invalid_if (s = []) (bad ''health.status'') (
      required path ''vm'' (sp_vm r) (\<lambda>vm.
      each_of R [(''vm.id'', sv_id vm), (''vm.name'', sv_name vm), (''vm.state'', sv_state vm)]
        (\<lambda>name x. required path name x (\<lambda>v. invalid_if (v = []) (bad name) None)) (
      required path ''vm.started_at'' (sv_started vm) (\<lambda>t.
      invalid_if (t = zero_time) (bad ''vm.started_at'') (
      required path ''vm.uptime_seconds'' (sv_uptime vm) (\<lambda>u.
      invalid_if (u < 0) (bad ''vm.uptime_seconds'') (
      required path ''process'' (sp_process r) (\<lambda>p.
      required path ''process.stats_up'' (sc_stats_up p) (\<lambda>_.
      required path ''process.pid'' (sc_pid p) (\<lambda>pid.
      invalid_if (pid \<le> 0) (bad ''process.pid'') (
      required path ''block_devices'' (sp_blocks r) (\<lambda>_.
      required path ''guest_agent'' (sp_agent r) (\<lambda>a.
      required path ''guest_agent.configured'' (sa_configured a) (\<lambda>_.
      required path ''guest_agent.up'' (sa_up a) (\<lambda>_.
      required path ''collectors'' (sp_collectors r) (\<lambda>_. None))))))))))))))))))))))"

definition decodeMonitoringInfo :: "monitor_reader \<Rightarrow> string \<Rightarrow> string \<Rightarrow> monitoring_error + infoResponse" where
  "decodeMonitoringInfo R path raw =
     (case Option.bind (mr_json R raw) (into_struct info_members no_info) of
        None \<Rightarrow> Inl (MonInvalidJSON path)
      | Some r \<Rightarrow> (case validateMonitoringInfo R path r of Some e \<Rightarrow> Inl e | None \<Rightarrow> Inr r))"

definition decodeMonitoringStatus :: "monitor_reader \<Rightarrow> string \<Rightarrow> string \<Rightarrow> monitoring_error + statusResponse" where
  "decodeMonitoringStatus R path raw =
     (case Option.bind (mr_json R raw) (into_struct (status_members R) no_status) of
        None \<Rightarrow> Inl (MonInvalidJSON path)
      | Some r \<Rightarrow> (case validateMonitoringStatus R path r of Some e \<Rightarrow> Inl e | None \<Rightarrow> Inr r))"

definition validateMonitoringIdentity :: "string \<Rightarrow> string option \<Rightarrow> string option \<Rightarrow> Config \<Rightarrow> monitoring_error option" where
  "validateMonitoringIdentity path i n cfg =
     (if i \<noteq> Some (cfg_id cfg) \<or> n \<noteq> Some (cfg_name cfg) then Some (MonIdentity path) else None)"

definition validateAuthenticatedRun :: "statusResponse \<Rightarrow> StatusRow \<Rightarrow> monitoring_error option" where
  "validateAuthenticatedRun r row =
     (case (sp_vm r, sp_process r, row_started row, row_pid row) of
        (Some vm, Some p, Some t, Some pid) \<Rightarrow>
          if sv_started vm = Some (ts_nanos t) \<and> sc_pid p = Some pid then None else Some MonRun
      | _ \<Rightarrow> Some MonRun)"

record monitoringPayload =
  mp_info_raw :: string
  mp_status_raw :: string
  mp_info :: infoResponse
  mp_status :: statusResponse

definition fail_with :: "'e option \<Rightarrow> 'e + unit" where
  "fail_with e = (case e of None \<Rightarrow> Inr () | Some x \<Rightarrow> Inl x)"

definition readMonitoring ::
  "monitor_reader \<Rightarrow> (string \<Rightarrow> string + http_answer) \<Rightarrow> Config \<Rightarrow> StatusRow \<Rightarrow> monitoring_error + monitoringPayload" where
  "readMonitoring R get cfg row =
     bindE (fetchMonitoringEndpoint R get ''/info'') (\<lambda>infoRaw.
     bindE (decodeMonitoringInfo R ''/info'' infoRaw) (\<lambda>info.
     bindE (fail_with (validateMonitoringIdentity ''/info''
              (Option.bind (ir_vm info) iv_id) (Option.bind (ir_vm info) iv_name) cfg)) (\<lambda>_.
     bindE (fetchMonitoringEndpoint R get ''/status'') (\<lambda>statusRaw.
     bindE (decodeMonitoringStatus R ''/status'' statusRaw) (\<lambda>st.
     bindE (fail_with (validateMonitoringIdentity ''/status''
              (Option.bind (sp_vm st) sv_id) (Option.bind (sp_vm st) sv_name) cfg)) (\<lambda>_.
     bindE (fail_with (validateAuthenticatedRun st row)) (\<lambda>_.
       Inr \<lparr>mp_info_raw = infoRaw, mp_status_raw = statusRaw, mp_info = info, mp_status = st\<rparr>)))))))"

section \<open>The command \<open>info\<close>\<close>

record infoMonitoring =
  im_available :: bool
  im_reason :: string
  im_port :: "u16 option"
  im_error :: string

definition sanitizeMonitoringError :: "string \<Rightarrow> string" where
  "sanitizeMonitoringError e =
     List.map (\<lambda>c. if c = CHR 0x0D \<or> c = newline then CHR '' '' else c) (TrimSpace e)"

definition inactive_json :: "string \<Rightarrow> run_state \<Rightarrow> bool option \<Rightarrow> json" where
  "inactive_json name st running =
     JObject ([(''name'', JString name), (''state'', JString st)]
              @ (case running of None \<Rightarrow> [] | Some b \<Rightarrow> [(''running'', JBool b)]))"

definition writeInfoInactive :: "(string \<Rightarrow> bool) \<Rightarrow> bool \<Rightarrow> string \<Rightarrow> run_state \<Rightarrow> bool option \<Rightarrow> cli_output list" where
  "writeInfoInactive printable json name st running =
     (if json then [OutJSON (inactive_json name st running)]
      else [OutText (''VM '' @ Quote printable name @
        (if st = RunStateStopped then '' is not running.''
         else if st = RunStateFailed then '' state is failed; live information is not available.''
         else '' is '' @ st @ ''; live information is not available.'') @ [newline])])"

definition monitoringValue :: "infoMonitoring \<Rightarrow> string \<Rightarrow> bool \<Rightarrow> string" where
  "monitoringValue m name restart =
     (if im_reason m = ''disabled'' then ''disabled. Enable it with: qemu-manage set '' @ name @ '' --metrics-port PORT''
      else if im_reason m = ''unavailable'' then ''unavailable: '' @ im_error m
      else ''available on 127.0.0.1:'' @ itoa (unat (the (im_port m))))
     @ (if restart then '' Restart the VM to apply current configuration changes.'' else [])"

definition formatHealth :: "statusHealth option \<Rightarrow> string" where
  "formatHealth h =
     (case h of
        None \<Rightarrow> ''-''
      | Some h \<Rightarrow>
          (case sh_status h of
             None \<Rightarrow> ''-''
           | Some s \<Rightarrow> if sh_code h = [] then s else s @ '' ('' @ sh_code h @ '')''))"

definition formatQEMU :: "infoQEMU option \<Rightarrow> string" where
  "formatQEMU q =
     (case q of
        None \<Rightarrow> ''-''
      | Some q \<Rightarrow>
          (case (iq_version q, iq_accelerator q) of
             (Some v, Some a) \<Rightarrow>
               itoa_int (the (vi_major v)) @ ''.'' @ itoa_int (the (vi_minor v)) @ ''.'' @ itoa_int (the (vi_micro v))
               @ (if the (vi_package v) \<noteq> [] then '' ['' @ the (vi_package v) @ '']'' else []) @ '' ('' @ a @ '')''
           | _ \<Rightarrow> ''-''))"

text \<open>The unit is chosen on the exact value; \<open>float64\<close> rounds it to no smaller unit.\<close>

definition byte_unit :: "nat \<Rightarrow> string \<times> nat" where
  "byte_unit n =
     (if 2 ^ 40 \<le> n then (''TiB'', 2 ^ 40) else if 2 ^ 30 \<le> n then (''GiB'', 2 ^ 30)
      else if 2 ^ 20 \<le> n then (''MiB'', 2 ^ 20) else if 2 ^ 10 \<le> n then (''KiB'', 2 ^ 10) else (''B'', 1))"

definition formatBytes :: "monitor_reader \<Rightarrow> u64 option \<Rightarrow> string" where
  "formatBytes R v =
     (case v of
        None \<Rightarrow> ''-''
      | Some n \<Rightarrow>
          (case byte_unit (unat n) of
             (u, scale) \<Rightarrow> trim_suffix (mr_tenths R (of_nat (unat n) / of_nat scale)) ''.0'' @ u))"

definition formatUptime :: "monitor_reader \<Rightarrow> rat option \<Rightarrow> string" where
  "formatUptime R v =
     (case v of
        None \<Rightarrow> ''-''
      | Some x \<Rightarrow> mr_duration R ((if 0 \<le> x then \<lfloor>x + 1 / 2\<rfloor> else \<lceil>x - 1 / 2\<rceil>) * 1000000000))"

definition formatLoad :: "monitor_reader \<Rightarrow> rat option \<Rightarrow> string" where
  "formatLoad R v = (case v of None \<Rightarrow> ''-'' | Some x \<Rightarrow> mr_fixed R x)"

definition process_rows :: "monitor_reader \<Rightarrow> statusProcess option \<Rightarrow> string list list" where
  "process_rows R p =
     (case p of
        None \<Rightarrow> []
      | Some p \<Rightarrow>
          if sc_stats_up p \<noteq> Some True then []
          else [[''process'',
                 formatBytes R (sc_resident p) @ '' resident, ''
                 @ (case sc_cpu p of None \<Rightarrow> ''-'' | Some (u, s) \<Rightarrow> mr_fixed R (u + s) @ ''s'') @ '' CPU, ''
                 @ (case sc_threads p of None \<Rightarrow> ''-'' | Some n \<Rightarrow> itoa_int n) @ '' threads'']])"

definition agent_text :: "infoAgent option \<Rightarrow> statusAgent option \<Rightarrow> string" where
  "agent_text info st =
     (case st of
        None \<Rightarrow> ''unavailable''
      | Some a \<Rightarrow>
          if sa_configured a = Some False then ''disabled''
          else if sa_up a = Some True then
            ''up'' @ (case sa_version a of Some v \<Rightarrow> if v \<noteq> [] then '', version '' @ v else [] | None \<Rightarrow> [])
            @ (case Option.bind info ia_capabilities of
                 None \<Rightarrow> []
               | Some m \<Rightarrow>
                   (let enabled = sort [name. (name, b) \<leftarrow> m, b]
                    in if enabled \<noteq> [] then '', capabilities '' @ join_with '', '' enabled else []))
          else ''unavailable'')"

definition collector_texts :: "(string \<times> string \<times> string) list option \<Rightarrow> string list" where
  "collector_texts cs =
     (case cs of
        None \<Rightarrow> []
      | Some m \<Rightarrow> sort [name @ ''='' @ st @ (if code \<noteq> [] then '' ('' @ code @ '')'' else []).
                        (name, st, code) \<leftarrow> m, st \<noteq> [] \<and> st \<noteq> ''ok''])"

definition guest_rows :: "monitor_reader \<Rightarrow> infoAgent option \<Rightarrow> statusResponse \<Rightarrow> string list list" where
  "guest_rows R info st =
     [[''guest agent'', agent_text info (sp_agent st)]]
     @ (let cs = collector_texts (sp_collectors st) in if cs \<noteq> [] then [[''collectors'', join_with '', '' cs]] else [])
     @ (case Option.bind (sp_guest st) sg_load of
          None \<Rightarrow> []
        | Some l \<Rightarrow> [[''guest load'', formatLoad R (gl_load1 l) @ '' / '' @ formatLoad R (gl_load5 l) @ '' / '' @ formatLoad R (gl_load15 l)]])"

definition list_of :: "'a list option \<Rightarrow> 'a list" where "list_of xs = (case xs of None \<Rightarrow> [] | Some ys \<Rightarrow> ys)"

definition interface_rows :: "statusGuest \<Rightarrow> string list list" where
  "interface_rows g =
     concat (List.map (\<lambda>n. case ni_addresses n of
         None \<Rightarrow> []
       | Some [] \<Rightarrow> [[ni_name n, ''-'']]
       | Some as \<Rightarrow> List.map (\<lambda>a. [ni_name n, ip_address a @ ''/'' @ itoa_int (ip_prefix a)]) as) (list_of (sg_networks g)))"

definition filesystem_rows :: "monitor_reader \<Rightarrow> statusGuest \<Rightarrow> string list list" where
  "filesystem_rows R g =
     List.map (\<lambda>f. [gf_mountpoint f, gf_type f, formatBytes R (gf_used f), formatBytes R (gf_size f)])
       (list_of (sg_filesystems g))"

definition table_unless_empty :: "string list \<Rightarrow> string list list \<Rightarrow> cli_output list" where
  "table_unless_empty headers rows = (if rows = [] then [] else [OutTable headers rows])"

definition writeMonitoringTables :: "monitor_reader \<Rightarrow> statusGuest option \<Rightarrow> blockInfo list option \<Rightarrow> cli_output list" where
  "writeMonitoringTables R guest blocks =
     (case guest of
        None \<Rightarrow> []
      | Some g \<Rightarrow>
          table_unless_empty [''INTERFACE'', ''ADDRESS''] (interface_rows g)
          @ table_unless_empty [''MOUNTPOINT'', ''TYPE'', ''USED'', ''SIZE''] (filesystem_rows R g))
     @ table_unless_empty [''BLOCK DEVICE'', ''STATUS'', ''READ'', ''WRITTEN'']
         (List.map (\<lambda>b. [bi_device b, case bi_status b of None \<Rightarrow> ''-'' | Some s \<Rightarrow> s, formatBytes R (bi_read b),
                        formatBytes R (bi_written b)]) (list_of blocks))"

definition writeInfoHuman ::
  "cli_env \<Rightarrow> monitor_reader \<Rightarrow> string \<Rightarrow> StatusRow \<Rightarrow> infoMonitoring \<Rightarrow> monitoringPayload option \<Rightarrow> cli_output list" where
  "writeInfoHuman E R name row m payload =
     OutTable [''FIELD'', ''VALUE'']
       ([[''name'', name], [''state'', row_state row]]
        @ (case row_started row of None \<Rightarrow> [] | Some t \<Rightarrow> [[''started at'', ce_time E t]])
        @ [[''pid'', formatPositiveInt (case row_pid row of None \<Rightarrow> 0 | Some p \<Rightarrow> p)],
           [''resources'', itoa_int (row_cpus row) @ '' CPUs, '' @ formatMemoryMiB (row_memory row) @ '' memory''],
           [''network'', formatOptionalString (row_network row)],
           [''autostart'', displayAutostart (row_autostart row)],
           [''vnc'', formatVNCEndpoint (row_vnc row)],
           [''restart required'', bool_text (row_restart row)],
           [''monitoring'', monitoringValue m name (row_restart row)]]
        @ (case payload of
             None \<Rightarrow> []
           | Some p \<Rightarrow>
               [[''uptime'', formatUptime R (Option.bind (sp_vm (mp_status p)) sv_uptime)],
                [''health'', formatHealth (sp_health (mp_status p))],
                [''qemu'', formatQEMU (ir_qemu (mp_info p))]]
               @ process_rows R (sp_process (mp_status p)) @ guest_rows R (ir_agent (mp_info p)) (mp_status p)))
     # (case payload of
          None \<Rightarrow> [] | Some p \<Rightarrow> writeMonitoringTables R (sp_guest (mp_status p)) (sp_blocks (mp_status p)))"

definition monitoring_json :: "monitor_reader \<Rightarrow> infoMonitoring \<Rightarrow> monitoringPayload option \<Rightarrow> json" where
  "monitoring_json R m payload =
     JObject ([(''available'', JBool (im_available m))] @ text_member ''reason'' (im_reason m)
       @ (case im_port m of None \<Rightarrow> [] | Some p \<Rightarrow> [(''port'', JNumber (itoa (unat p)))])
       @ text_member ''error'' (im_error m)
       @ (case payload of
            None \<Rightarrow> []
          | Some p \<Rightarrow> [(''info'', the (mr_json R (mp_info_raw p))), (''status'', the (mr_json R (mp_status_raw p)))]))"

definition info_json ::
  "cli_env \<Rightarrow> monitor_reader \<Rightarrow> string \<Rightarrow> StatusRow \<Rightarrow> infoMonitoring \<Rightarrow> monitoringPayload option \<Rightarrow> json" where
  "info_json E R name row m payload =
     JObject
       ([(''name'', JString name), (''state'', JString (row_state row)), (''running'', JBool True),
         (''restart_required'', JBool (row_restart row)), (''cpus'', JNumber (itoa_int (row_cpus row))),
         (''memory_mib'', JNumber (itoa_int (row_memory row))), (''network'', JString (row_network row)),
         (''autostart'', JString (row_autostart row))]
        @ (case row_pid row of None \<Rightarrow> [] | Some p \<Rightarrow> [(''pid'', JNumber (itoa_int p))])
        @ (case row_started row of None \<Rightarrow> [] | Some t \<Rightarrow> [(''started_at'', JString (ce_time E t))])
        @ (case row_vnc row of None \<Rightarrow> [] | Some e \<Rightarrow> [(''vnc'', endpoint_json e)])
        @ [(''monitoring'', monitoring_json R m payload)])"

text \<open>What the monitoring of a running or paused machine says, and what was read.\<close>

definition observe_monitoring ::
  "monitor_reader \<Rightarrow> (string \<Rightarrow> string + http_answer) \<Rightarrow> Config \<Rightarrow> StatusRow \<Rightarrow> infoMonitoring \<times> monitoringPayload option" where
  "observe_monitoring R get cfg row =
     (case cfg_metrics cfg of
        None \<Rightarrow> (\<lparr>im_available = False, im_reason = ''disabled'', im_port = None, im_error = []\<rparr>, None)
      | Some mt \<Rightarrow>
          (case (if row_pid row = None \<or> row_started row = None then Inl MonNoIdentity else readMonitoring R get cfg row) of
             Inl e \<Rightarrow>
               (\<lparr>im_available = False, im_reason = ''unavailable'', im_port = Some (met_port mt),
                 im_error = sanitizeMonitoringError (mr_error R e)\<rparr>, None)
           | Inr p \<Rightarrow>
               (\<lparr>im_available = True, im_reason = [], im_port = Some (met_port mt), im_error = []\<rparr>, Some p)))"

definition parse_info :: "string list \<Rightarrow> app_usage + string \<times> bool" where
  "parse_info args =
     bindE (nameBeforeFlags ''info'' args) (\<lambda>(name, rest).
       case List.find (\<lambda>a. a \<noteq> ''--json'') rest of
         Some a \<Rightarrow> Inl (UnknownFlag ''info'' a)
       | None \<Rightarrow> Inr (name, rest \<noteq> []))"

definition runInfo ::
  "cli_env \<Rightarrow> monitor_reader \<Rightarrow> (string \<Rightarrow> string + http_answer) \<Rightarrow> string list \<Rightarrow> host
   \<Rightarrow> (info_error, cli_output list) action" where
  "runInfo E R get args h =
     (case parse_info args of
        Inl e \<Rightarrow> (Inl (InfoUsage e), h)
      | Inr (name, json) \<Rightarrow>
          (case Load (ce_store E) (ce_library E) h name of
             Inl e \<Rightarrow> (Inl (InfoStore e), h)
           | Inr cfg \<Rightarrow>
               (case statusRow E cfg h of
                  ((_, Some e), h1) \<Rightarrow> (Inl (InfoRow e), h1)
                | ((row, None), h1) \<Rightarrow>
                    (Inr (if row_state row = RunStateRunning \<or> row_state row = RunStatePaused then
                            (case observe_monitoring R get cfg row of
                               (m, payload) \<Rightarrow>
                                 if json then [OutJSON (info_json E R name row m payload)]
                                 else writeInfoHuman E R name row m payload)
                          else writeInfoInactive (mr_printable R) json name (row_state row)
                            (if row_state row = RunStateStopped then Some False else None)), h1))))"

end
