(* ===== verification/CliService.thy ===== *)
theory CliService
  imports CliMonitor
begin

text \<open>
  The monitoring client of the command line against the service of \<open>internal/monitoring\<close>: what the
  service renders is decoded and validated by \<open>info\<close>, for the run that the supervisor authenticated,
  unless no block device has been observed yet.
\<close>

section \<open>Members of rendered objects\<close>

definition plain_name :: "string \<Rightarrow> bool" where
  "plain_name k \<longleftrightarrow> list_all (\<lambda>c. byte c < 128 \<and> \<not> is_upper c) k"

lemma fold_plain: "plain_name k \<Longrightarrow> fold_name k = k"
  by (induction k rule: fold_name.induct) (auto simp: plain_name_def to_lower_byte_def)

lemma members_Nil [simp]: "members name [] = []"
  by (simp add: members_def)

lemma members_append [simp]: "members name (xs @ ys) = members name xs @ members name ys"
  by (simp add: members_def)

lemma members_Cons:
  "plain_name name \<Longrightarrow> plain_name k \<Longrightarrow>
   members name ((k, v) # kvs) = (if k = name then v # members name kvs else members name kvs)"
  by (simp add: members_def fold_plain)

lemma members_filter: "members name kvs = List.map snd (filter (\<lambda>kv. fold_name (fst kv) = fold_name name) kvs)"
  by (induction kvs) (auto simp: members_def)

text \<open>Sorting the members by name does not matter where a name occurs at most once.\<close>

lemma members_sorted:
  assumes "length (members name kvs) \<le> 1"
  shows "members name (sort_key fst kvs) = members name kvs"
proof -
  let ?ys = "filter (\<lambda>kv. fold_name (fst kv) = fold_name name) kvs"
  have "length ?ys \<le> 1" using assms by (simp add: members_filter)
  then have "sort_key fst ?ys = ?ys" by (cases ?ys) auto
  then show ?thesis by (simp add: members_filter filter_sort [symmetric])
qed

lemma members_only_if: "members name (only_if b kvs) = (if b then members name kvs else [])"
  by (simp add: only_if_def)

lemma members_optional:
  "plain_name name \<Longrightarrow> plain_name k \<Longrightarrow>
   members name (optional_member k f v) = (if k = name then (case v of None \<Rightarrow> [] | Some x \<Rightarrow> [f x]) else [])"
  by (simp add: optional_member_def members_Cons split: option.split)

lemma plain_names:
  "list_all plain_name
     [''id'', ''name'', ''cpus'', ''memory_mib'', ''backend'', ''architecture'', ''state'', ''started_at'', ''uptime_seconds'',
      ''major'', ''minor'', ''micro'', ''package'', ''version'', ''accelerator'', ''configured'', ''capabilities'',
      ''api_version'', ''service'', ''vm'', ''qemu'', ''guest_agent'', ''routes'', ''metrics_format'',
      ''metrics_format_version'', ''status'', ''code'', ''user'', ''system'', ''stats_up'', ''pid'', ''observed_at'',
      ''cpu_seconds'', ''resident_memory_bytes'', ''wired_memory_bytes'', ''physical_footprint_bytes'',
      ''physical_footprint_peak_bytes'', ''disk_read_bytes'', ''disk_written_bytes'', ''pageins'', ''idle_wakeups'',
      ''interrupt_wakeups'', ''instructions'', ''cycles'', ''threads'', ''up'', ''probe_duration_seconds'',
      ''probe_observed_at'', ''age_seconds'', ''health'', ''qmp'', ''process'', ''block_devices'', ''collectors'', ''guest'',
      ''duration_seconds'', ''events'', ''load1'', ''load5'', ''load15'', ''mountpoint'', ''fstype'', ''size_bytes'',
      ''used_bytes'', ''address'', ''family'', ''prefix'', ''addresses'', ''statistics'', ''load'', ''filesystems'',
      ''network_interfaces'', ''disks'', ''vcpus'', ''clock_offset_seconds'', ''filesystems_frozen'', ''device'',
      ''io_status'', ''read_bytes'', ''write_bytes'', ''unmap_bytes'', ''read_operations'', ''write_operations'',
      ''flush_operations'', ''unmap_operations'', ''read_seconds'', ''write_seconds'', ''flush_seconds'', ''unmap_seconds'',
      ''failed_operations'', ''invalid_operations'', ''idle_seconds'']"
  by code_simp

lemmas plain_name_simps = plain_names [unfolded list.pred_inject simp_thms]

lemmas member_simps = members_Cons members_sorted members_only_if members_optional plain_name_simps

lemma field_one [simp]: "field d x name kvs = (case members name kvs of [] \<Rightarrow> Some x | [v] \<Rightarrow> d x v | vs \<Rightarrow> into_all d x vs)"
  by (auto simp: field_def split: list.split option.split)

section \<open>Numbers\<close>

lemma int_literal_itoa: "0 \<le> i \<Longrightarrow> int_literal (itoa_int i) = Some i"
proof -
  assume i: "0 \<le> i"
  obtain c r where cr: "itoa (nat i) = c # r" by (cases "itoa (nat i)") auto
  have "is_digit c" using itoa_set [of c "nat i"] cr by simp
  then have "c \<noteq> CHR ''-''" by (auto simp: is_digit_def byte_in_def)
  then have "\<not> has_prefix (itoa (nat i)) ''-''" by (simp add: has_prefix_def cr)
  with i show ?thesis by (simp add: int_literal_def itoa_int_def parse_itoa)
qed

lemma into_jint [simp]: "0 \<le> i \<Longrightarrow> i < 2 ^ 63 \<Longrightarrow> into_int64 x (jint i) = Some i"
  by (simp add: jint_def int_literal_itoa)

lemma into_juint [simp]: "into_uint64 x (juint n) = Some n"
proof -
  have "unat n < 2 ^ 64" using unsigned_less [of n] by simp
  then show ?thesis by (simp add: into_uint64_def juint_def parse_itoa)
qed

lemma into_juint_int [simp]: "unat n < 2 ^ 63 \<Longrightarrow> into_int64 x (juint n) = Some (int (unat n))"
proof -
  assume n: "unat n < 2 ^ 63"
  then have "int (unat n) < int (2 ^ 63)" by (simp only: of_nat_less_iff)
  then have "into_int64 x (JNumber (itoa_int (int (unat n)))) = Some (int (unat n))"
    using into_jint [of "int (unat n)" x] unfolding jint_def by (simp only: of_nat_power of_nat_numeral of_nat_0_le_iff)
  then show ?thesis unfolding juint_def itoa_int_def by simp
qed

lemma json_not_null [simp]:
  "jint i \<noteq> JNull" "juint n \<noteq> JNull" "jfloat M r \<noteq> JNull" "formatTime M t \<noteq> JNull" "jmap kvs \<noteq> JNull"
  by (simp_all add: jint_def juint_def jfloat_def formatTime_def jmap_def)

section \<open>Decoding \<open>/info\<close>\<close>

definition sound_version :: "QEMUVersion option \<Rightarrow> bool" where
  "sound_version v \<longleftrightarrow>
     (case v of None \<Rightarrow> True
      | Some q \<Rightarrow> 0 \<le> qv_major q \<and> qv_major q < 2 ^ 63 \<and> 0 \<le> qv_minor q \<and> qv_minor q < 2 ^ 63
                \<and> 0 \<le> qv_micro q \<and> qv_micro q < 2 ^ 63)"

lemma struct_jmap: "into_struct f x (jmap kvs) = f x (sort_key fst kvs)"
  by (simp add: jmap_def)

lemma decode_version:
  assumes "sound_version v"
  shows "\<exists>a b c p. into_struct version_members x (version_json v)
      = Some \<lparr>vi_major = Some a, vi_minor = Some b, vi_micro = Some c, vi_package = Some p\<rparr> \<and> 0 \<le> a \<and> 0 \<le> b \<and> 0 \<le> c"
  using assms
  by (cases v) (simp_all add: version_json_def Let_def struct_jmap version_members_def member_simps into_pointer_def sound_version_def)

text \<open>The elements of a map are decoded one by one; what matters here is that each decodes.\<close>

lemma into_entries_ok:
  "(\<And>k v. (k, v) \<in> set kvs \<Longrightarrow> d zero v \<noteq> None) \<Longrightarrow> \<exists>m'. into_entries zero d m kvs = Some m'"
proof (induction kvs arbitrary: m)
  case (Cons kv kvs)
  obtain k v where kv: "kv = (k, v)" by fastforce
  with Cons.prems [of k v] obtain x where "d zero v = Some x" by auto
  moreover have "\<exists>m'. into_entries zero d (AList.update k x m) kvs = Some m'"
    by (rule Cons.IH) (use Cons.prems in auto)
  ultimately show ?case by (simp add: kv)
qed simp

lemma into_map_ok:
  "(\<And>k v. (k, v) \<in> set kvs \<Longrightarrow> d zero v \<noteq> None) \<Longrightarrow> \<exists>m. into_map zero d None (jmap kvs) = Some (Some m)"
  using into_entries_ok [of "sort_key fst kvs" d zero "[]"] by (auto simp: into_map_def jmap_def)

definition sound_identity :: "VMIdentity \<Rightarrow> bool" where
  "sound_identity vm \<longleftrightarrow>
     vm_id vm \<noteq> [] \<and> vm_name vm \<noteq> [] \<and> 0 < vm_cpus vm \<and> vm_cpus vm < 2 ^ 63 \<and> 0 < vm_memory vm \<and> vm_memory vm < 2 ^ 63
     \<and> vm_started vm \<noteq> zero_time"

lemma decode_info_vm:
  assumes "sound_identity vm"
  shows "into_struct info_vm_members no_info_vm (jmap
      [(''id'', JString (vm_id vm)), (''name'', JString (vm_name vm)), (''backend'', JString (vm_backend vm)),
       (''architecture'', JString (vm_architecture vm)), (''cpus'', jint (vm_cpus vm)), (''memory_mib'', jint (vm_memory vm))])
    = Some \<lparr>iv_id = Some (vm_id vm), iv_name = Some (vm_name vm), iv_cpus = Some (vm_cpus vm), iv_memory = Some (vm_memory vm)\<rparr>"
  using assms
  by (simp add: struct_jmap info_vm_members_def member_simps into_pointer_def sound_identity_def no_info_vm_def)

lemma decode_info_qemu:
  assumes "sound_version v"
  shows "\<exists>a b c p. into_struct info_qemu_members no_info_qemu (jmap [(''version'', version_json v), (''accelerator'', JString acc)])
    = Some \<lparr>iq_version = Some \<lparr>vi_major = Some a, vi_minor = Some b, vi_micro = Some c, vi_package = Some p\<rparr>,
            iq_accelerator = Some acc\<rparr> \<and> 0 \<le> a \<and> 0 \<le> b \<and> 0 \<le> c"
proof -
  have "version_json v \<noteq> JNull" by (simp add: version_json_def Let_def)
  with decode_version [OF assms, of no_version] show ?thesis
    by (auto simp: struct_jmap info_qemu_members_def member_simps into_pointer_def no_info_qemu_def)
qed

lemma decode_info_agent:
  "\<exists>m. into_struct info_agent_members no_info_agent (jmap [(''configured'', JBool b), (''version'', JString v),
      (''capabilities'', jmap (concat (List.map (\<lambda>(name, key). optional_member name JBool (map_of caps key)) names)))])
    = Some \<lparr>ia_configured = Some b, ia_version = Some v, ia_capabilities = Some m\<rparr>"
proof -
  have "\<exists>m. into_map False into_bool None
      (jmap (concat (List.map (\<lambda>(name, key). optional_member name JBool (map_of caps key)) names))) = Some (Some m)"
    by (rule into_map_ok) (auto simp: optional_member_def split: option.split_asm, metis)
  then show ?thesis
    by (auto simp: struct_jmap info_agent_members_def member_simps into_pointer_def into_map_pointer_def no_info_agent_def)
qed

lemma decode_info:
  assumes "sound_identity (sn_vm s)" and "sound_version (qs_version (sn_qmp s))"
  shows "\<exists>q a. into_struct info_members no_info (renderInfo s)
      = Some \<lparr>ir_api = Some 1,
          ir_vm = Some \<lparr>iv_id = Some (vm_id (sn_vm s)), iv_name = Some (vm_name (sn_vm s)), iv_cpus = Some (vm_cpus (sn_vm s)),
                       iv_memory = Some (vm_memory (sn_vm s))\<rparr>,
          ir_qemu = Some q, ir_agent = Some a\<rparr>
    \<and> (\<exists>x y z p. q = \<lparr>iq_version = Some \<lparr>vi_major = Some x, vi_minor = Some y, vi_micro = Some z, vi_package = Some p\<rparr>,
            iq_accelerator = Some ''hvf''\<rparr> \<and> 0 \<le> x \<and> 0 \<le> y \<and> 0 \<le> z)
    \<and> (\<exists>b v m. a = \<lparr>ia_configured = Some b, ia_version = Some v, ia_capabilities = Some m\<rparr>)"
  using decode_info_vm [OF assms(1)] decode_info_qemu [OF assms(2), of "''hvf''"]
    decode_info_agent [of "vm_guest_agent (sn_vm s)" "gi_version (go_info (gs_observation (sn_guest s)))"
      "gi_capabilities (go_info (gs_observation (sn_guest s)))" capability_names]
  by (auto simp: renderInfo_def Let_def struct_jmap info_members_def member_simps into_pointer_def no_info_def)

lemma required_simps [simp]:
  "required path name (Some x) k = k x" "required path name None k = Some (MonMissing path name)"
  "invalid_if False e j = j" "invalid_if True e j = Some e"
  by (simp_all add: required_def invalid_if_def)

lemma each_of_ok:
  assumes "\<And>names. set (mr_order R names) = set names" and "\<And>name x. (name, x) \<in> set es \<Longrightarrow> f name x = None"
    and "distinct (List.map fst es)"
  shows "each_of R es f k = k"
proof -
  have "first_error (List.map (\<lambda>name. f name (the (map_of es name))) (mr_order R (List.map fst es))) = None"
    using assms by (auto simp: first_error_None_iff)
  then show ?thesis by (simp add: each_of_def)
qed

lemma served_info_valid:
  assumes "\<And>names. set (mr_order R names) = set names" and "sound_identity (sn_vm s)"
    and "sound_version (qs_version (sn_qmp s))" and "mr_json R body = Some (renderInfo s)"
  shows "\<exists>r. decodeMonitoringInfo R path body = Inr r \<and> Option.bind (ir_vm r) iv_id = Some (vm_id (sn_vm s))
    \<and> Option.bind (ir_vm r) iv_name = Some (vm_name (sn_vm s))"
proof -
  from decode_info [OF assms(2,3)] obtain x y z p b v m where decoded:
    "into_struct info_members no_info (renderInfo s)
      = Some \<lparr>ir_api = Some 1,
          ir_vm = Some \<lparr>iv_id = Some (vm_id (sn_vm s)), iv_name = Some (vm_name (sn_vm s)), iv_cpus = Some (vm_cpus (sn_vm s)),
                       iv_memory = Some (vm_memory (sn_vm s))\<rparr>,
          ir_qemu = Some \<lparr>iq_version = Some \<lparr>vi_major = Some x, vi_minor = Some y, vi_micro = Some z, vi_package = Some p\<rparr>,
                         iq_accelerator = Some ''hvf''\<rparr>,
          ir_agent = Some \<lparr>ia_configured = Some b, ia_version = Some v, ia_capabilities = Some m\<rparr>\<rparr>"
    "0 \<le> x" "0 \<le> y" "0 \<le> z"
    by blast
  have versions: "each_of R [(''qemu.version.major'', Some x), (''qemu.version.minor'', Some y), (''qemu.version.micro'', Some z)]
      (\<lambda>name x. required path name x (\<lambda>n. invalid_if (n < 0) (MonInvalidField path name) None)) k = k" for k
    by (rule each_of_ok [OF assms(1)]) (use decoded(2-) in \<open>auto simp: invalid_if_def\<close>)
  show ?thesis
    using decoded(1) assms(2,4)
    by (simp add: decodeMonitoringInfo_def validateMonitoringInfo_def validateMonitoringVersion_def Let_def versions
        sound_identity_def invalid_if_def [of "_ \<le> _"])
qed

section \<open>Decoding \<open>/status\<close>\<close>

text \<open>What is asked of the texts of numbers and instants: a \<open>float64\<close> is read back, with its sign, and an
  instant is read back exactly.\<close>

definition float_law :: "monitor_lib \<Rightarrow> monitor_reader \<Rightarrow> bool" where
  "float_law M R \<longleftrightarrow> (\<forall>x. \<exists>y. mr_float R (mt_json_float M x) = Some y \<and> (0 \<le> x \<longrightarrow> 0 \<le> y))"

definition time_law :: "monitor_lib \<Rightarrow> monitor_reader \<Rightarrow> int \<Rightarrow> bool" where
  "time_law M R t \<longleftrightarrow> mr_time R (mt_time M t) = Some t"

lemma into_jfloat: "float_law M R \<Longrightarrow> \<exists>y. into_float R z (jfloat M x) = Some y \<and> (0 \<le> x \<longrightarrow> 0 \<le> y)"
  by (simp add: float_law_def into_float_def jfloat_def)

lemma into_formatTime: "time_law M R t \<Longrightarrow> into_time R z (formatTime M t) = Some t"
  by (simp add: time_law_def into_time_def formatTime_def)

lemma decode_each_ok:
  "(\<And>v. v \<in> set vs \<Longrightarrow> \<exists>x. d zero v = Some x) \<Longrightarrow> \<exists>xs. decode_each zero d vs = Some xs"
proof (induction vs)
  case (Cons v vs)
  then obtain x where "d zero v = Some x" by auto
  moreover have "\<exists>xs. decode_each zero d vs = Some xs" by (rule Cons.IH) (use Cons.prems in auto)
  ultimately show ?case by auto
qed simp

lemma fits_juint [simp]: "fits R FitUint (juint n)"
  by (simp add: fits_def)

lemma fits_jfloat: "float_law M R \<Longrightarrow> fits R FitFloat (jfloat M x)"
  using into_jfloat [of M R 0 x] by (auto simp: fits_def)

lemma fits_counters: "fits R FitUints (map_json juint m)"
proof -
  have "\<exists>x. into_map (0::u64) into_uint64 None (jmap (List.map (\<lambda>(k, v). (k, juint v)) m)) = Some (Some x)"
    by (rule into_map_ok) auto
  then show ?thesis by (auto simp: fits_def map_json_def)
qed

lemma length_optional [simp]: "length (case v of None \<Rightarrow> [] | Some x \<Rightarrow> [f x]) \<le> Suc 0"
  by (cases v) simp_all

lemma list_all_optional: "list_all P (case v of None \<Rightarrow> [] | Some x \<Rightarrow> [f x]) \<longleftrightarrow> (\<forall>x. v = Some x \<longrightarrow> P (f x))"
  by (cases v) simp_all

lemma decode_block:
  assumes "float_law M R"
  shows "\<exists>b. into_struct (block_members R) no_block (block_json M d) = Some b"
proof -
  obtain kvs where kvs: "block_json M d = JObject kvs" by (simp add: block_json_def)
  have fit: "fit_members R block_shapes kvs"
    using kvs fits_jfloat [OF assms]
    by (auto simp: fit_members_def block_shapes_def block_json_def member_simps list_all_optional fits_counters)
  have "members ''device'' kvs = [JString (bd_device d)]"
    "members ''io_status'' kvs = (case bd_io_status d of None \<Rightarrow> [] | Some x \<Rightarrow> [JString x])"
    "members ''read_bytes'' kvs = (case bd_read_bytes d of None \<Rightarrow> [] | Some x \<Rightarrow> [juint x])"
    "members ''write_bytes'' kvs = (case bd_write_bytes d of None \<Rightarrow> [] | Some x \<Rightarrow> [juint x])"
    using kvs by (auto simp: block_json_def member_simps)
  then show ?thesis
    by (simp add: kvs block_members_def fit into_pointer_def no_block_def split: option.split)
qed

lemma decode_blocks:
  assumes "float_law M R" and "ds \<noteq> []"
  shows "\<exists>bs. into_slice no_block (into_struct (block_members R)) None (slice_json (block_json M) ds) = Some (Some bs)"
proof -
  have "\<exists>bs. decode_each no_block (into_struct (block_members R)) (List.map (block_json M) ds) = Some bs"
    by (rule decode_each_ok) (use decode_block [OF assms(1)] in auto)
  with assms(2) show ?thesis by (auto simp: slice_json_def)
qed

lemma decode_health:
  "into_struct health_members \<lparr>sh_status = None, sh_code = []\<rparr> (jmap ((''status'', JString health) # code_member code))
   = Some \<lparr>sh_status = Some health, sh_code = code\<rparr>"
  by (simp add: struct_jmap health_members_def code_member_def member_simps into_pointer_def
      del: sort_key_simps)

lemma decode_status_vm:
  assumes "float_law M R" and "time_law M R (vm_started vm)" and "0 \<le> u"
  shows "\<exists>y. into_struct (status_vm_members R) no_status_vm (jmap
      [(''id'', JString (vm_id vm)), (''name'', JString (vm_name vm)), (''backend'', JString (vm_backend vm)),
       (''architecture'', JString (vm_architecture vm)), (''state'', JString state),
       (''started_at'', formatTime M (vm_started vm)), (''uptime_seconds'', jfloat M u)])
    = Some \<lparr>sv_id = Some (vm_id vm), sv_name = Some (vm_name vm), sv_state = Some state,
            sv_started = Some (vm_started vm), sv_uptime = Some y\<rparr> \<and> 0 \<le> y"
  using into_jfloat [OF assms(1), of 0 u] assms(3)
  by (auto simp: struct_jmap status_vm_members_def member_simps into_pointer_def no_status_vm_def into_formatTime [OF assms(2)]
      simp del: sort_key_simps)

lemma decode_process:
  assumes "float_law M R" and "0 \<le> pr_pid (sn_process s)" and "pr_pid (sn_process s) < 2 ^ 63"
    and "unat (ps_threads (pr_stats (sn_process s))) < 2 ^ 63"
  shows "\<exists>b c r t. into_struct (process_members R) no_process (renderProcessStatus M s)
    = Some \<lparr>sc_stats_up = Some b, sc_pid = Some (pr_pid (sn_process s)), sc_cpu = c, sc_resident = r, sc_threads = t\<rparr>"
proof -
  let ?p = "pr_stats (sn_process s)"
  obtain u y where "into_float R 0 (jfloat M (ps_user_cpu ?p)) = Some u" "into_float R 0 (jfloat M (ps_system_cpu ?p)) = Some y"
    using into_jfloat [OF assms(1)] by blast
  then have cpu: "into_struct (cpu_members R) (0, 0)
      (jmap [(''user'', jfloat M (ps_user_cpu ?p)), (''system'', jfloat M (ps_system_cpu ?p))]) = Some (u, y)"
    by (simp add: struct_jmap cpu_members_def member_simps del: sort_key_simps)
  show ?thesis
    using assms(2-4) cpu
    by (simp add: renderProcessStatus_def Let_def struct_jmap process_members_def member_simps into_pointer_def no_process_def
        del: sort_key_simps)
qed

lemma decode_status_agent:
  "\<exists>b u v. into_struct status_agent_members no_status_agent (renderGuestAgentStatus M s)
    = Some \<lparr>sa_configured = Some b, sa_up = Some u, sa_version = v\<rparr>"
  by (cases "gs_probe_at (sn_guest s)")
    (simp_all add: renderGuestAgentStatus_def Let_def struct_jmap status_agent_members_def member_simps into_pointer_def
      no_status_agent_def del: sort_key_simps)

lemma decode_collectors:
  "\<exists>m. into_map ([], []) (into_struct collector_members) None (renderCollectors M cs now) = Some (Some m)"
  unfolding renderCollectors_def map_json_def
  by (rule into_map_ok) (auto simp: struct_jmap collector_members_def code_member_def member_simps simp del: sort_key_simps)

lemma decode_qmp:
  assumes "sound_version (qs_version (sn_qmp s))"
  shows "\<exists>v. into_struct (\<lambda>v kvs. field (into_pointer no_version (into_struct version_members)) v ''version'' kvs) None
      (renderQMPStatus M s) = Some v"
proof -
  have "version_json v \<noteq> JNull" for v by (simp add: version_json_def Let_def)
  with decode_version [OF assms, of no_version] show ?thesis
    by (auto simp: renderQMPStatus_def Let_def struct_jmap member_simps into_pointer_def simp del: sort_key_simps)
qed

section \<open>The guest's part of \<open>/status\<close>\<close>

definition sound_guest :: "GuestObservation \<Rightarrow> bool" where
  "sound_guest g \<longleftrightarrow>
     list_all (\<lambda>n. list_all (\<lambda>a. 0 \<le> ip_prefix a \<and> ip_prefix a < 2 ^ 63) (gn_addresses n)) (go_networks g)"

lemma decode_slice_ok:
  assumes "\<And>y. y \<in> set ys \<Longrightarrow> \<exists>x. d zero (f y) = Some x"
  shows "\<exists>xs. into_slice zero d x (JArray (List.map f ys)) = Some (Some xs)"
proof -
  have "\<exists>xs. decode_each zero d (List.map f ys) = Some xs" by (rule decode_each_ok) (use assms in auto)
  then show ?thesis by auto
qed

lemma decode_load:
  assumes "float_law M R"
  shows "\<exists>l. into_struct (load_members R) no_load (load_json M v) = Some l"
proof -
  have float: "\<exists>y. into_float R z (jfloat M x) = Some y" for z x using into_jfloat [OF assms] by blast
  obtain f where f: "\<And>x. into_float R 0 (jfloat M x) = Some (f x)" using float by metis
  show ?thesis
    by (cases "gl_load1 v"; cases "gl_load5 v"; cases "gl_load15 v")
      (simp_all add: load_json_def load_members_def member_simps into_pointer_def no_load_def f)
qed

lemma decode_filesystem: "\<exists>x. into_struct filesystem_members no_filesystem (filesystem_json f) = Some x"
  by (cases "gf_size f"; cases "gf_used f")
    (simp_all add: filesystem_json_def filesystem_members_def member_simps into_pointer_def no_filesystem_def)

lemma decode_address:
  "0 \<le> ip_prefix a \<Longrightarrow> ip_prefix a < 2 ^ 63 \<Longrightarrow> into_struct address_members no_address (address_json a) = Some a"
  by (simp add: address_json_def address_members_def member_simps no_address_def)

lemma decode_network:
  assumes "list_all (\<lambda>a. 0 \<le> ip_prefix a \<and> ip_prefix a < 2 ^ 63) (gn_addresses n)"
  shows "\<exists>x. into_struct network_members \<lparr>ni_name = [], ni_addresses = None\<rparr> (renderGuestNetwork n) = Some x"
proof -
  have "\<exists>xs. into_slice no_address (into_struct address_members) None (slice_json address_json (gn_addresses n)) = Some xs"
  proof (cases "gn_addresses n = []")
    case False
    moreover have "\<exists>xs. into_slice no_address (into_struct address_members) None (JArray (List.map address_json (gn_addresses n)))
        = Some (Some xs)"
      by (rule decode_slice_ok) (use assms decode_address in \<open>auto simp: list_all_iff\<close>)
    ultimately show ?thesis by (auto simp: slice_json_def)
  qed (simp add: slice_json_def)
  then show ?thesis
    by (auto simp: renderGuestNetwork_def Let_def struct_jmap network_members_def member_simps simp del: sort_key_simps)
qed

lemma disk_names:
  "list_all plain_name
     [''read_sectors'', ''write_sectors'', ''discard_sectors'', ''discard_operations'', ''read_merged_operations'',
      ''write_merged_operations'', ''discard_merged_operations'', ''discard_seconds'', ''weighted_io_seconds'', ''io_in_flight'']"
  by code_simp

lemmas disk_name_simps = disk_names [unfolded list.pred_inject simp_thms]

lemma decode_disk:
  assumes "float_law M R"
  shows "into_struct (\<lambda>x kvs. if fit_members R disk_shapes kvs then Some x else None) () (disk_json M d) = Some ()"
proof -
  have "fits R FitString (JString s)" for s by (simp add: fits_def)
  then show ?thesis
    using fits_jfloat [OF assms]
    by (simp add: disk_json_def fit_members_def disk_shapes_def disk_members_def member_simps disk_name_simps list_all_optional)
qed

lemma decode_guest:
  assumes "float_law M R" and "sound_guest (gs_observation (sn_guest s))" and "renderGuestStatus M s = Some v"
  shows "v \<noteq> JNull \<and> (\<exists>g. into_struct (guest_members R) \<lparr>sg_load = None, sg_filesystems = None, sg_networks = None\<rparr> v = Some g)"
proof -
  let ?g = "gs_observation (sn_guest s)"
  have load: "\<exists>l. into_struct (load_members R) no_load (load_json M l') = Some l \<and> load_json M l' \<noteq> JNull" for l'
    using decode_load [OF assms(1)] by (auto simp: load_json_def)
  have filesystems: "\<exists>xs. into_slice no_filesystem (into_struct filesystem_members) None
      (JArray (List.map filesystem_json (go_filesystems ?g))) = Some (Some xs)"
    by (rule decode_slice_ok) (rule decode_filesystem)
  have networks: "\<exists>xs. into_slice \<lparr>ni_name = [], ni_addresses = None\<rparr> (into_struct network_members) None
      (JArray (List.map renderGuestNetwork (go_networks ?g))) = Some (Some xs)"
    by (rule decode_slice_ok) (use assms(2) decode_network in \<open>auto simp: sound_guest_def list_all_iff\<close>)
  have disks: "\<exists>xs. into_slice () (into_struct (\<lambda>x kvs. if fit_members R disk_shapes kvs then Some x else None)) None
      (JArray (List.map (disk_json M) (go_disks ?g))) = Some (Some xs)"
    by (rule decode_slice_ok) (use decode_disk [OF assms(1)] in auto)
  obtain kvs where v: "v = jmap kvs" "kvs = only_if (go_cpu ?g \<noteq> []) [(''cpus'', JArray (List.map (cpu_json M) (go_cpu ?g)))]
         @ optional_member ''load'' (load_json M) (go_load ?g)
         @ only_if (go_vcpus ?g \<noteq> []) [(''vcpus'', JArray (List.map vcpu_json (go_vcpus ?g)))]
         @ optional_member ''clock_offset_seconds'' (jfloat M) (go_clock ?g)
         @ optional_member ''filesystems_frozen'' JBool (go_frozen ?g)
         @ only_if (go_filesystems ?g \<noteq> []) [(''filesystems'', JArray (List.map filesystem_json (go_filesystems ?g)))]
         @ only_if (go_networks ?g \<noteq> []) [(''network_interfaces'', JArray (List.map renderGuestNetwork (go_networks ?g)))]
         @ only_if (go_disks ?g \<noteq> []) [(''disks'', JArray (List.map (disk_json M) (go_disks ?g)))]"
    using assms(3) by (auto simp: renderGuestStatus_def Let_def split: if_splits)
  have cpus: "plain_name ''cpus''" by code_simp
  have "members ''load'' (sort_key fst kvs) = (case go_load ?g of None \<Rightarrow> [] | Some l \<Rightarrow> [load_json M l])"
    "members ''filesystems'' (sort_key fst kvs)
       = (if go_filesystems ?g \<noteq> [] then [JArray (List.map filesystem_json (go_filesystems ?g))] else [])"
    "members ''network_interfaces'' (sort_key fst kvs)
       = (if go_networks ?g \<noteq> [] then [JArray (List.map renderGuestNetwork (go_networks ?g))] else [])"
    "members ''disks'' (sort_key fst kvs)
       = (if go_disks ?g \<noteq> [] then [JArray (List.map (disk_json M) (go_disks ?g))] else [])"
    by (simp_all add: v(2) member_simps cpus del: sort_key_simps)
  note at_names = this
  have "\<exists>l. ptr no_load (into_struct (load_members R)) ''load'' (sort_key fst kvs) = Some l"
    using load by (cases "go_load ?g") (auto simp: at_names(1) into_pointer_def)
  moreover have "\<exists>f. field (into_slice no_filesystem (into_struct filesystem_members)) None ''filesystems'' (sort_key fst kvs) = Some f"
    using filesystems by (cases "go_filesystems ?g = []") (auto simp: at_names(2))
  moreover have "\<exists>n. field (into_slice \<lparr>ni_name = [], ni_addresses = None\<rparr> (into_struct network_members)) None
      ''network_interfaces'' (sort_key fst kvs) = Some n"
    using networks by (cases "go_networks ?g = []") (auto simp: at_names(3))
  moreover have "\<exists>d. field (into_slice () (into_struct (\<lambda>x kvs. if fit_members R disk_shapes kvs then Some x else None))) None
      ''disks'' (sort_key fst kvs) = Some d"
    using disks by (cases "go_disks ?g = []") (auto simp: at_names(4))
  ultimately show ?thesis
    unfolding v(1) struct_jmap guest_members_def
    by (auto simp del: field_one)
qed

lemma ptr_one:
  "members name kvs = [v] \<Longrightarrow> v \<noteq> JNull \<Longrightarrow> d zero v = Some y \<Longrightarrow> ptr zero d name kvs = Some (Some y)"
  by (simp add: into_pointer_def)

lemma uptime_nonneg: "0 \<le> uptime s now"
  by (simp add: uptime_def nonnegativeSeconds_def seconds_def)

definition sound_status :: "monitor_lib \<Rightarrow> monitor_reader \<Rightarrow> Snapshot \<Rightarrow> bool" where
  "sound_status M R s \<longleftrightarrow>
     float_law M R \<and> time_law M R (observed_at s) \<and> time_law M R (vm_started (sn_vm s))
     \<and> sound_version (qs_version (sn_qmp s)) \<and> sound_guest (gs_observation (sn_guest s))
     \<and> 0 < pr_pid (sn_process s) \<and> pr_pid (sn_process s) < 2 ^ 63
     \<and> unat (ps_threads (pr_stats (sn_process s))) < 2 ^ 63"

lemma decode_status:
  assumes "sound_status M R s" and "snapshot_health supported s = (health, code, http)"
  shows "\<exists>u q b1 c1 c2 c3 bs b2 b3 v cs g. into_struct (status_members R) no_status (renderStatus M supported s now)
      = Some \<lparr>sp_api = Some 1, sp_observed = Some (observed_at s), sp_health = Some \<lparr>sh_status = Some health, sh_code = code\<rparr>,
          sp_vm = Some \<lparr>sv_id = Some (vm_id (sn_vm s)), sv_name = Some (vm_name (sn_vm s)), sv_state = Some (qs_state (sn_qmp s)),
                       sv_started = Some (vm_started (sn_vm s)), sv_uptime = Some u\<rparr>,
          sp_qmp = q,
          sp_process = Some \<lparr>sc_stats_up = Some b1, sc_pid = Some (pr_pid (sn_process s)), sc_cpu = c1, sc_resident = c2,
                       sc_threads = c3\<rparr>,
          sp_blocks = bs, sp_agent = Some \<lparr>sa_configured = Some b2, sa_up = Some b3, sa_version = v\<rparr>,
          sp_collectors = Some cs, sp_guest = g\<rparr>
      \<and> 0 \<le> u \<and> (bs = None \<longleftrightarrow> qs_blocks (sn_qmp s) = [])"
proof -
  let ?vm = "jmap [(''id'', JString (vm_id (sn_vm s))), (''name'', JString (vm_name (sn_vm s))),
       (''backend'', JString (vm_backend (sn_vm s))), (''architecture'', JString (vm_architecture (sn_vm s))),
       (''state'', JString (qs_state (sn_qmp s))), (''started_at'', formatTime M (vm_started (sn_vm s))),
       (''uptime_seconds'', jfloat M (uptime s now))]"
  obtain kvs where v: "renderStatus M supported s now = jmap kvs" "kvs =
      [(''api_version'', jint 1), (''observed_at'', formatTime M (observed_at s)),
       (''health'', jmap ((''status'', JString health) # code_member code)), (''vm'', ?vm),
       (''qmp'', renderQMPStatus M s), (''process'', renderProcessStatus M s),
       (''block_devices'', slice_json (block_json M) (qs_blocks (sn_qmp s))),
       (''guest_agent'', renderGuestAgentStatus M s),
       (''collectors'', renderCollectors M (sn_collectors s) now)]
      @ optional_member ''guest'' id (renderGuestStatus M s)"
    using assms(2) by (simp add: renderStatus_def Let_def)
  have at_names:
    "members ''api_version'' (sort_key fst kvs) = [jint 1]"
    "members ''observed_at'' (sort_key fst kvs) = [formatTime M (observed_at s)]"
    "members ''health'' (sort_key fst kvs) = [jmap ((''status'', JString health) # code_member code)]"
    "members ''vm'' (sort_key fst kvs) = [?vm]"
    "members ''qmp'' (sort_key fst kvs) = [renderQMPStatus M s]"
    "members ''process'' (sort_key fst kvs) = [renderProcessStatus M s]"
    "members ''block_devices'' (sort_key fst kvs) = [slice_json (block_json M) (qs_blocks (sn_qmp s))]"
    "members ''guest_agent'' (sort_key fst kvs) = [renderGuestAgentStatus M s]"
    "members ''collectors'' (sort_key fst kvs) = [renderCollectors M (sn_collectors s) now]"
    "members ''guest'' (sort_key fst kvs) = (case renderGuestStatus M s of None \<Rightarrow> [] | Some g \<Rightarrow> [id g])"
    by (simp_all add: v(2) member_simps del: sort_key_simps)
  have objects: "renderQMPStatus M s \<noteq> JNull" "renderProcessStatus M s \<noteq> JNull" "renderGuestAgentStatus M s \<noteq> JNull"
    by (simp_all add: renderQMPStatus_def renderProcessStatus_def renderGuestAgentStatus_def Let_def)
  note sound = assms(1) [unfolded sound_status_def]
  have api: "ptr 0 into_int64 ''api_version'' (sort_key fst kvs) = Some (Some 1)"
    by (simp add: at_names(1) into_pointer_def)
  have observed: "ptr zero_time (into_time R) ''observed_at'' (sort_key fst kvs) = Some (Some (observed_at s))"
    using sound by (simp add: at_names(2) into_pointer_def into_formatTime)
  have health: "ptr \<lparr>sh_status = None, sh_code = []\<rparr> (into_struct health_members) ''health'' (sort_key fst kvs)
      = Some (Some \<lparr>sh_status = Some health, sh_code = code\<rparr>)"
    by (simp add: at_names(3) into_pointer_def decode_health)
  obtain u where u: "0 \<le> u" and vm: "ptr no_status_vm (into_struct (status_vm_members R)) ''vm'' (sort_key fst kvs)
      = Some (Some \<lparr>sv_id = Some (vm_id (sn_vm s)), sv_name = Some (vm_name (sn_vm s)), sv_state = Some (qs_state (sn_qmp s)),
                       sv_started = Some (vm_started (sn_vm s)), sv_uptime = Some u\<rparr>)"
    using decode_status_vm [of M R "sn_vm s" "uptime s now" "qs_state (sn_qmp s)"] sound uptime_nonneg
    by (auto simp: at_names(4) into_pointer_def)
  obtain q where q: "ptr None (into_struct (\<lambda>v kvs. field (into_pointer no_version (into_struct version_members)) v ''version'' kvs))
      ''qmp'' (sort_key fst kvs) = Some q"
    using decode_qmp [of s M] sound ptr_one [OF at_names(5) objects(1)] by (metis (no_types, lifting))
  obtain b1 c1 c2 c3 where p: "ptr no_process (into_struct (process_members R)) ''process'' (sort_key fst kvs)
      = Some (Some \<lparr>sc_stats_up = Some b1, sc_pid = Some (pr_pid (sn_process s)), sc_cpu = c1, sc_resident = c2, sc_threads = c3\<rparr>)"
    using decode_process [of M R s] sound objects(2) by (auto simp: at_names(6) into_pointer_def)
  obtain bs where bs: "field (into_slice no_block (into_struct (block_members R))) None ''block_devices'' (sort_key fst kvs) = Some bs"
    and blocks: "bs = None \<longleftrightarrow> qs_blocks (sn_qmp s) = []"
    using decode_blocks [of M R "qs_blocks (sn_qmp s)"] sound
    by (cases "qs_blocks (sn_qmp s) = []") (auto simp: at_names(7) slice_json_def [of _ "[]"])
  obtain b2 b3 w where a: "ptr no_status_agent (into_struct status_agent_members) ''guest_agent'' (sort_key fst kvs)
      = Some (Some \<lparr>sa_configured = Some b2, sa_up = Some b3, sa_version = w\<rparr>)"
    using decode_status_agent [of M s] objects(3) by (auto simp: at_names(8) into_pointer_def)
  obtain cs where cs: "field (into_map_pointer ([], []) (into_struct collector_members)) None ''collectors'' (sort_key fst kvs)
      = Some (Some cs)"
    using decode_collectors [of M "sn_collectors s" now] by (auto simp: at_names(9) into_map_pointer_def)
  obtain g where g: "ptr \<lparr>sg_load = None, sg_filesystems = None, sg_networks = None\<rparr> (into_struct (guest_members R))
      ''guest'' (sort_key fst kvs) = Some g"
    using decode_guest [of M R s] sound
    by (cases "renderGuestStatus M s") (fastforce simp: at_names(10) into_pointer_def)+
  show ?thesis
    unfolding v(1) struct_jmap status_members_def
    by (rule exI [of _ u], rule exI [of _ q], rule exI [of _ b1], rule exI [of _ c1], rule exI [of _ c2], rule exI [of _ c3],
        rule exI [of _ bs], rule exI [of _ b2], rule exI [of _ b3], rule exI [of _ w], rule exI [of _ cs], rule exI [of _ g])
      (simp add: no_status_def api observed health vm q p bs a cs g u blocks del: field_one)
qed

section \<open>The two exchanges\<close>

text \<open>A response as the client's transport hands it over: the media type of its \<open>Content-Type\<close> is a
  parameter, and the body arrives whole.\<close>

definition over_http :: "(string \<Rightarrow> string option) \<Rightarrow> http_response \<Rightarrow> http_answer" where
  "over_http media r =
     \<lparr>ha_status = hr_status r, ha_media = Option.bind (map_of (hr_headers r) ''Content-Type'') media, ha_body = hr_body r,
      ha_read_err = None, ha_close_err = None\<rparr>"

text \<open>A value that the service marshals, within the bound of the client, and that the client reads back.\<close>

definition carried :: "monitor_lib \<Rightarrow> monitor_reader \<Rightarrow> json \<Rightarrow> bool" where
  "carried M R j \<longleftrightarrow>
     (case mt_marshal M j of
        None \<Rightarrow> False
      | Some body \<Rightarrow> mr_json R (body @ [newline]) = Some j \<and> length body < maxMonitoringResponseBytes)"

lemma fetch_carried:
  assumes "carried M R j" and "media jsonContentType = Some ''application/json''"
    and "get path = Inr (over_http media (writeJSON M ''GET'' [(''Cache-Control'', ''no-store'')] (200, j)))"
  shows "\<exists>raw. fetchMonitoringEndpoint R get path = Inr raw \<and> mr_json R raw = Some j"
  using assms
  by (auto simp: fetchMonitoringEndpoint_def carried_def over_http_def writeJSON_def write_response_def equal_fold_def
      split: option.splits)

lemma served_status:
  assumes "\<And>names. set (mr_order R names) = set names" and "sound_status M R s"
    and "observed_at s \<noteq> zero_time" and "sound_identity (sn_vm s)" and "qs_state (sn_qmp s) \<noteq> []"
    and "mr_json R body = Some (renderStatus M supported s now)"
  shows "case decodeMonitoringStatus R path body of
      Inl e \<Rightarrow> qs_blocks (sn_qmp s) = [] \<and> e = MonMissing path ''block_devices''
    | Inr r \<Rightarrow> qs_blocks (sn_qmp s) \<noteq> []
        \<and> (\<exists>vm p. sp_vm r = Some vm \<and> sp_process r = Some p \<and> sv_id vm = Some (vm_id (sn_vm s))
             \<and> sv_name vm = Some (vm_name (sn_vm s)) \<and> sv_started vm = Some (vm_started (sn_vm s))
             \<and> sc_pid p = Some (pr_pid (sn_process s)))"
proof -
  obtain health code http where h: "snapshot_health supported s = (health, code, http)" by (metis prod_cases3)
  have health: "health \<noteq> []" using h by (auto simp: snapshot_health_def healthPolicy_def split: if_splits)
  from decode_status [OF assms(2) h, of now] obtain u q b1 c1 c2 c3 bs b2 b3 v cs g where decoded:
    "into_struct (status_members R) no_status (renderStatus M supported s now)
      = Some \<lparr>sp_api = Some 1, sp_observed = Some (observed_at s), sp_health = Some \<lparr>sh_status = Some health, sh_code = code\<rparr>,
          sp_vm = Some \<lparr>sv_id = Some (vm_id (sn_vm s)), sv_name = Some (vm_name (sn_vm s)), sv_state = Some (qs_state (sn_qmp s)),
                       sv_started = Some (vm_started (sn_vm s)), sv_uptime = Some u\<rparr>,
          sp_qmp = q,
          sp_process = Some \<lparr>sc_stats_up = Some b1, sc_pid = Some (pr_pid (sn_process s)), sc_cpu = c1, sc_resident = c2,
                       sc_threads = c3\<rparr>,
          sp_blocks = bs, sp_agent = Some \<lparr>sa_configured = Some b2, sa_up = Some b3, sa_version = v\<rparr>,
          sp_collectors = Some cs, sp_guest = g\<rparr>" and u: "0 \<le> u" and bs: "bs = None \<longleftrightarrow> qs_blocks (sn_qmp s) = []"
    by blast
  have named: "each_of R [(''vm.id'', Some (vm_id (sn_vm s))), (''vm.name'', Some (vm_name (sn_vm s))),
        (''vm.state'', Some (qs_state (sn_qmp s)))]
      (\<lambda>name x. required path name x (\<lambda>v. invalid_if (v = []) (MonInvalidField path name) None)) k = k" for k
    by (rule each_of_ok [OF assms(1)]) (use assms(4,5) in \<open>auto simp: invalid_if_def sound_identity_def\<close>)
  have validated: "validateMonitoringStatus R path
      \<lparr>sp_api = Some 1, sp_observed = Some (observed_at s), sp_health = Some \<lparr>sh_status = Some health, sh_code = code\<rparr>,
          sp_vm = Some \<lparr>sv_id = Some (vm_id (sn_vm s)), sv_name = Some (vm_name (sn_vm s)), sv_state = Some (qs_state (sn_qmp s)),
                       sv_started = Some (vm_started (sn_vm s)), sv_uptime = Some u\<rparr>,
          sp_qmp = q,
          sp_process = Some \<lparr>sc_stats_up = Some b1, sc_pid = Some (pr_pid (sn_process s)), sc_cpu = c1, sc_resident = c2,
                       sc_threads = c3\<rparr>,
          sp_blocks = bs, sp_agent = Some \<lparr>sa_configured = Some b2, sa_up = Some b3, sa_version = v\<rparr>,
          sp_collectors = Some cs, sp_guest = g\<rparr>
      = (if qs_blocks (sn_qmp s) = [] then Some (MonMissing path ''block_devices'') else None)"
    using assms(2-4) health u bs
    by (cases bs) (simp_all add: validateMonitoringStatus_def validateMonitoringVersion_def Let_def named [unfolded invalid_if_def]
        sound_status_def
        sound_identity_def invalid_if_def)
  show ?thesis
    by (simp add: decodeMonitoringStatus_def assms(6) decoded validated)
qed

text \<open>C40. The command \<open>info\<close> against the supervisor's own service: for a snapshot of the configured machine and of
  the run that the supervisor authenticated, both payloads pass the client's decoding, its validation of
  every required field and its identity checks, so \<open>info\<close> shows them, except that \<open>/status\<close> is refused,
  for a missing \<open>block_devices\<close>, exactly as long as no block device was ever observed: the service
  writes \<open>null\<close> there. The transport and the texts of JSON, floats and instants are parameters.\<close>

theorem info_accepts_service:
  assumes "\<And>names. set (mr_order R names) = set names"
    and "media jsonContentType = Some ''application/json''"
    and "Snapshot_at sv read = Some s"
    and "carried M R (renderInfo s)" and "carried M R (renderStatus M supported s now)"
    and "sound_identity (sn_vm s)" and "sound_status M R s"
    and "observed_at s \<noteq> zero_time" and "qs_state (sn_qmp s) \<noteq> []"
    and "cfg_id cfg = vm_id (sn_vm s)" and "cfg_name cfg = vm_name (sn_vm s)"
    and "row_pid row = Some (pr_pid (sn_process s))" and "map_option ts_nanos (row_started row) = Some (vm_started (sn_vm s))"
  shows "case readMonitoring R (\<lambda>path. Inr (over_http media (serveHTTP M supported sv ''GET'' path read now w))) cfg row of
      Inl e \<Rightarrow> qs_blocks (sn_qmp s) = [] \<and> e = MonMissing ''/status'' ''block_devices''
    | Inr p \<Rightarrow> qs_blocks (sn_qmp s) \<noteq> [] \<and> mr_json R (mp_info_raw p) = Some (renderInfo s)
        \<and> mr_json R (mp_status_raw p) = Some (renderStatus M supported s now)"
proof -
  let ?get = "\<lambda>path. Inr (over_http media (serveHTTP M supported sv ''GET'' path read now w)) :: string + http_answer"
  obtain raw1 where raw1: "fetchMonitoringEndpoint R ?get ''/info'' = Inr raw1" "mr_json R raw1 = Some (renderInfo s)"
    using fetch_carried [where get = ?get and path = "''/info''" and media = media, OF assms(4) assms(2)] assms(3) by (auto simp: serveHTTP_def Let_def)
  obtain raw2 where raw2: "fetchMonitoringEndpoint R ?get ''/status'' = Inr raw2"
      "mr_json R raw2 = Some (renderStatus M supported s now)"
    using fetch_carried [where get = ?get and path = "''/status''" and media = media, OF assms(5) assms(2)] assms(3) by (auto simp: serveHTTP_def Let_def)
  have version: "sound_version (qs_version (sn_qmp s))" using assms(7) by (simp add: sound_status_def)
  obtain r where r: "decodeMonitoringInfo R ''/info'' raw1 = Inr r" "Option.bind (ir_vm r) iv_id = Some (cfg_id cfg)"
      "Option.bind (ir_vm r) iv_name = Some (cfg_name cfg)"
    using served_info_valid [OF assms(1,6) version raw1(2), of "''/info''"] assms(10,11) by auto
  obtain t where t: "row_started row = Some t" "ts_nanos t = vm_started (sn_vm s)" using assms(13) by auto
  note status = served_status [OF assms(1,7,8,6,9) raw2(2), of "''/status''"]
  show ?thesis
  proof (cases "decodeMonitoringStatus R ''/status'' raw2")
    case (Inl e)
    then show ?thesis using status by (simp add: readMonitoring_def raw1(1) raw2(1) r validateMonitoringIdentity_def fail_with_def)
  next
    case (Inr x)
    then show ?thesis
      using status assms(10-12) t
      by (auto simp: readMonitoring_def raw1 raw2 r validateMonitoringIdentity_def validateAuthenticatedRun_def fail_with_def)
  qed
qed

text \<open>The state of a run before its first block query, and a transport that carries both payloads.\<close>

definition served_snapshot :: Snapshot where
  "served_snapshot =
     empty_snapshot\<lparr>sn_observed := Some 5,
       sn_vm := no_identity\<lparr>vm_id := ''0123456789abcdef0123456789abcdef'', vm_name := ''dev'', vm_cpus := 2, vm_memory := 1024,
                           vm_started := 5\<rparr>,
       sn_qmp := (sn_qmp empty_snapshot)\<lparr>qs_state := ''running''\<rparr>,
       sn_process := (sn_process empty_snapshot)\<lparr>pr_pid := 4\<rparr>\<rparr>"

definition served_lib :: monitor_lib where
  "served_lib =
     \<lparr>mt_marshal = (\<lambda>j. case j of
        JObject kvs \<Rightarrow> Some (if map_of kvs ''routes'' = None then ''status'' else ''info'') | _ \<Rightarrow> None),
      mt_time = (\<lambda>_. ''T''), mt_float = (\<lambda>_. ''0''), mt_json_float = (\<lambda>_. ''0''), mt_printable = (\<lambda>_. True)\<rparr>"

definition served_reader :: monitor_reader where
  "served_reader =
     \<lparr>mr_json = (\<lambda>raw. if raw = ''info'' @ [newline] then Some (renderInfo served_snapshot)
                     else if raw = ''status'' @ [newline] then Some (renderStatus served_lib True served_snapshot 8) else None),
      mr_float = (\<lambda>_. Some 0), mr_time = (\<lambda>_. Some 5), mr_order = (\<lambda>names. names), mr_fixed = (\<lambda>_. []), mr_tenths = (\<lambda>_. []),
      mr_duration = (\<lambda>_. []), mr_printable = (\<lambda>_. True), mr_error = (\<lambda>_. [])\<rparr>"

lemma info_accepts_service_witness:
  "readMonitoring served_reader
     (\<lambda>path. Inr (over_http (\<lambda>_. Some ''application/json'')
        (serveHTTP served_lib True ((new_service 4 no_identity)\<lparr>sv_snapshot := Some served_snapshot\<rparr>) ''GET'' path 7 8 (PingGivenUp 9))))
     (sample_config\<lparr>cfg_id := ''0123456789abcdef0123456789abcdef'', cfg_name := ''dev''\<rparr>)
     (empty_row\<lparr>row_pid := Some 4, row_started := Some \<lparr>ts_nanos = 5, ts_offset = 0, ts_utc = True\<rparr>\<rparr>)
   = Inl (MonMissing ''/status'' ''block_devices'')"
proof -
  have at: "Snapshot_at ((new_service 4 no_identity)\<lparr>sv_snapshot := Some served_snapshot\<rparr>) 7 = Some served_snapshot"
    by code_simp
  have info: "carried served_lib served_reader (renderInfo served_snapshot)"
    by code_simp
  have status: "carried served_lib served_reader (renderStatus served_lib True served_snapshot 8)"
    by code_simp
  have sound: "sound_identity (sn_vm served_snapshot)" "sound_status served_lib served_reader served_snapshot"
    by (simp_all add: sound_identity_def served_snapshot_def no_identity_def zero_time_def sound_status_def float_law_def
        time_law_def served_lib_def served_reader_def observed_at_def sound_version_def empty_snapshot_def sound_guest_def no_guest_def no_stats_def)
  note accepted = info_accepts_service [of served_reader "\<lambda>_. Some ''application/json''"
      "(new_service 4 no_identity)\<lparr>sv_snapshot := Some served_snapshot\<rparr>" 7 served_snapshot served_lib True 8
      "sample_config\<lparr>cfg_id := ''0123456789abcdef0123456789abcdef'', cfg_name := ''dev''\<rparr>"
      "empty_row\<lparr>row_pid := Some 4, row_started := Some \<lparr>ts_nanos = 5, ts_offset = 0, ts_utc = True\<rparr>\<rparr>" "PingGivenUp 9",
      OF _ _ at info status sound]
  have "qs_blocks (sn_qmp served_snapshot) = []" "observed_at served_snapshot \<noteq> zero_time" "qs_state (sn_qmp served_snapshot) \<noteq> []"
    "set (mr_order served_reader names) = set names" for names
    by (simp_all add: served_snapshot_def observed_at_def zero_time_def served_reader_def empty_snapshot_def)
  with accepted show ?thesis
    by (simp add: served_snapshot_def no_identity_def split: sum.splits)
qed

end
