(* ===== verification/Spec2Isabelle.thy ===== *)
theory Spec2Isabelle
  imports Prelude Model Codec Host Store Protocol Run Metadata Lifecycle SerialLog Backend Command Supervisor
    Plist Launchd Json Qmp Qga Guest Instance Doctor
    Monitor MonitorHttp Cli CliConfig CliDrive CliCreate CliInfo CliMonitor CliService
begin

text \<open>
  A verification library for \<open>qemu-manage\<close>, a Go program that keeps virtual machines on a Mac: each
  machine is a validated JSON configuration in a private directory, run by a supervisor process that owns
  one QEMU child, controlled over Unix sockets, and optionally started by launchd. The library is a
  shallow embedding of the packages under \<open>src/internal\<close>: a Go function is a definition with the
  function's name where Isabelle allows it, in the order and with the branches of the source.

  \<^bold>\<open>How the program fits together.\<close> The command line (\<open>internal/cli\<close>) parses options into a configuration
  (\<open>internal/model\<close>) and hands it to the store (\<open>internal/store\<close>), which is the only writer of machine
  directories and the owner of three advisory locks: the name lock for changes, the identity lock for an
  identity in use, the lifetime lock held for as long as a supervisor lives. \<open>start\<close> makes a supervisor
  process (\<open>internal/supervisor\<close>), which takes the identity and lifetime locks, writes \<open>runtime.json\<close>, renders and
  starts the backend (\<open>internal/backend\<close>, \<open>internal/qemu\<close>), reports ready through a pipe, answers control
  requests on a socket and, when QEMU ends, records \<open>last_exit.json\<close> and removes the runtime files.
  \<open>internal/lifecycle\<close> reads the same locks, sockets and files from outside. \<open>internal/launchd\<close> starts
  supervisors at login or boot, and \<open>internal/monitoring\<close> serves cached observations of a running machine.

  \<^bold>\<open>Theories, in the order of their imports.\<close>
  \<^item> \<open>Prelude\<close>: Go strings, errors as sums, \<open>strconv\<close>, \<open>strings\<close>, UTF-8, and the state-passing
    combinators. A nil error is \<open>None\<close>, a value with an error a sum whose left side is the error.
  \<^item> \<open>Model\<close>, \<open>Codec\<close>: \<open>model/config.go\<close>. \<open>Validate\<close> check by check, with an abstract well-formedness
    \<open>wf_config\<close> that it refines; \<open>Decode\<close>, \<open>CanonicalJSON\<close>, \<open>ConfigHash\<close> over the JSON and hash routines.
  \<^item> \<open>Host\<close>: the operating system as the program sees it, a tree of nodes with owners and modes, inodes
    that are flocked, an environment that may fail any system call; \<open>store/lock_unix.go\<close> and the locale
    \<open>try_lock\<close>, which the lifetime lock and the name lock interpret.
  \<^item> \<open>Store\<close>: \<open>store/store.go\<close> and \<open>lock.go\<close>. Creation with rollback, atomic replacement, save, delete.
  \<^item> \<open>Protocol\<close>: \<open>supervisor/protocol.go\<close>, \<open>client.go\<close>, \<open>control_server.go\<close>. Messages, framing, the
    client's wait loop, the start of the supervisor process, the authorised dispatch.
  \<^item> \<open>Run\<close>: \<open>supervisor/run.go\<close> as a step relation over the positions of all goroutines.
  \<^item> \<open>Metadata\<close>, \<open>Lifecycle\<close>, \<open>SerialLog\<close>: \<open>supervisor/metadata.go\<close>, \<open>internal/lifecycle\<close>, \<open>serial_log*.go\<close>.
  \<^item> \<open>Backend\<close>, \<open>Command\<close>: \<open>backend/backend.go\<close> with the locale \<open>registrar\<close>; \<open>qemu/command.go\<close>.
  \<^item> \<open>Supervisor\<close>: \<open>supervisor/supervisor.go\<close>, the run from the locks to the last-exit record with its
    deferred clean-ups, a trace of the calls it makes outside.
  \<^item> \<open>Plist\<close>, \<open>Launchd\<close>: \<open>launchd/plist.go\<close>, \<open>manage.go\<close>, \<open>enable.go\<close>, \<open>disable.go\<close>, \<open>start.go\<close>.
  \<^item> \<open>Json\<close>, \<open>Qmp\<close>, \<open>Qga\<close>, \<open>Guest\<close>, \<open>Instance\<close>, \<open>Doctor\<close>: \<open>internal/qemu\<close>. The two protocol clients, the
    guest observations, the phases of an instance composed with \<open>Supervisor\<close>, the checks of an installation.
  \<^item> \<open>Monitor\<close>, \<open>MonitorHttp\<close>: \<open>internal/monitoring\<close>. The cache with its freshness rules; routes and metrics.
  \<^item> \<open>Cli\<close>, \<open>CliConfig\<close>, \<open>CliDrive\<close>, \<open>CliCreate\<close>: the \<open>flag\<close> package as used, option values, the commands
    \<open>set\<close>, \<open>config\<close> and \<open>create\<close> down to the artifacts they make through the store.
  \<^item> \<open>CliInfo\<close>, \<open>CliMonitor\<close>, \<open>CliService\<close>: \<open>cli/info.go\<close>. The commands \<open>status\<close>, \<open>list\<close>, \<open>showcmd\<close>, \<open>log\<close> and
    \<open>delete\<close> on the store, the lifecycle service and launchd; the monitoring client of \<open>info\<close> with its
    validations; and the proof that it accepts what the service of \<open>internal/monitoring\<close> serves.

  \<^bold>\<open>What the lemmas show.\<close> For the supervisor: every lock is given back, a start that fails is undone, and
    readiness is only reported by a machine that runs. For an instance: a failed start leaves neither a child nor
    the password file, and a successful one has heard from QEMU itself that it runs, with the VNC server that
    was configured. For the store and the commands on it: atomic replacement, all-or-nothing changes, round
    trips of what is saved. For the clients: a reply belongs to its request, noise is discarded, counters keep
    their types. For the concurrent run: mutual exclusion, permanence of stopping, and that the callers drain.
    For what is rendered (the arguments of QEMU, property lists, drive options, the shown command): an
    independent reader gets back exactly what was meant. For launchd: what each transaction leaves, commands that fail
    after having had their effect included.

  \<^bold>\<open>The outside.\<close> Code that is not in the repository is a parameter with named laws: the JSON, XML and hash
    libraries (\<open>library\<close>, \<open>json_text\<close>, \<open>wire\<close>, \<open>xml_decoder\<close>), the external commands (\<open>ln_run\<close> with \<open>runner_laws\<close>,
    the image tools of \<open>create_env\<close>), HTTP exchanges, clocks, and the environment of each operation: records of
    events (\<open>start_events\<close>, \<open>launch\<close>, \<open>start_env\<close>, \<open>force_events\<close>) say which calls fail, what arrives and when
    something exits. The theorems hold for all of them; each law and each hypothesis has a witness.

  \<^bold>\<open>Bounds, loops and termination.\<close> Integers have the width of the source where it matters (\<open>u16\<close> ports, \<open>u64\<close>
    counters and request numbers, with wrap-around); other Go ints are \<open>int\<close>. The limits of the source are
    constants of the model: \<open>MaxMessageBytes\<close> for control frames, \<open>maxQGAFrameBytes\<close> for the guest agent,
    \<open>maxMonitoringResponseBytes\<close> for the monitoring client, the freshness limits of \<open>Monitor\<close> and the start window of
    \<open>Lifecycle\<close>. Loops over input are structural recursion on what arrives; the write loop of the serial log
    terminates by a measure, and so does the drain of the stop callers in \<open>Run\<close>. Fuel is not used: where
    the source may wait for ever (a child that is never reaped, in \<open>Instance\<close> and \<open>Protocol\<close>) the result is \<open>None\<close>, and a
    lemma says exactly when.

  \<^bold>\<open>Not modelled.\<close> Sequencing and presentation of the interactive commands (\<open>cli/runtime.go\<close>, \<open>app.go\<close>, \<open>autostart.go\<close>,
    help, progress and tables), the console proxy, the provisioning of the network bridge, listening sockets,
    goroutines outside \<open>Run\<close> (their effects are ordered as the source orders them), and the stubs of other
    platforms. Error texts are constructors. Nil checks of collaborators that the constructors always set are left out.
\<close>

end
